(* ===== verification/Prelude.thy ===== *)
theory Prelude imports Main "HOL-Library.Word" begin

text \<open>
  What the components share: bytes and their little endian numbers, C strings and the searches of
  \<^verbatim>\<open>std::string\<close> and \<^verbatim>\<open>memchr\<close>, decimal text, and the collections of facts which the
  component theories add to.

  A \<^verbatim>\<open>std::string\<close> is a \<open>string\<close>. Its characters are bytes (HOL characters have 8 bits), so text of
  any encoding is covered. Binary data (\<^verbatim>\<open>uint8_t\<close>) is a list of bytes.
\<close>

named_theorems queue_simps \<open>facts about the queue of lines which the component proofs rewrite with\<close>

type_synonym byte = "8 word"
type_synonym bytes = "byte list"

section \<open>Text as bytes\<close>

definition to_bytes :: "string \<Rightarrow> bytes" where
  "to_bytes s = map of_char s"

lemma length_to_bytes [simp]: "length (to_bytes s) = length s"
  by (simp add: to_bytes_def)

lemma to_bytes_Nil [simp]: "to_bytes [] = []"
  by (simp add: to_bytes_def)

lemma to_bytes_Cons [simp]: "to_bytes (c # s) = of_char c # to_bytes s"
  by (simp add: to_bytes_def)

lemma to_bytes_append [simp]: "to_bytes (s @ t) = to_bytes s @ to_bytes t"
  by (simp add: to_bytes_def)

section \<open>Little endian numbers\<close>

text \<open>The memory representation of an unsigned number of n bytes, least significant byte first.\<close>

fun le_bytes :: "nat \<Rightarrow> nat \<Rightarrow> bytes" where
  "le_bytes 0 v = []"
| "le_bytes (Suc n) v = of_nat (v mod 256) # le_bytes n (v div 256)"

fun le_value :: "bytes \<Rightarrow> nat" where
  "le_value [] = 0"
| "le_value (b # bs) = unat b + 256 * le_value bs"

lemma length_le_bytes [simp]: "length (le_bytes n v) = n"
  by (induction n arbitrary: v) auto

lemma unat_of_nat_mod_256 [simp]: "unat (of_nat (v mod 256) :: byte) = v mod 256"
  by (simp add: unat_of_nat)

lemma le_value_le_bytes [simp]: "le_value (le_bytes n v) = v mod 256 ^ n"
proof (induction n arbitrary: v)
  case (Suc n)
  then show ?case
    by (simp add: mod_mult2_eq)
qed simp

lemma le_value_bound: "le_value bs < 256 ^ length bs"
proof (induction bs)
  case (Cons b bs)
  have "unat b < 256"
    using unsigned_less [of b] by simp
  with Cons show ?case
    by simp
qed simp

lemma le_bytes_le_value: "le_bytes (length bs) (le_value bs) = bs"
proof (induction bs)
  case (Cons b bs)
  have "unat b < 256"
    using unsigned_less [of b] by simp
  with Cons show ?case
    by (simp add: word_unat_eq_iff unat_of_nat)
qed simp

section \<open>Searching\<close>

text \<open>\<^verbatim>\<open>memchr\<close> and \<^verbatim>\<open>std::string::find\<close> of one character: the index of its first occurrence.\<close>

fun find_index :: "'a \<Rightarrow> 'a list \<Rightarrow> nat option" where
  "find_index c [] = None"
| "find_index c (x # xs) = (if x = c then Some 0 else map_option Suc (find_index c xs))"

lemma find_index_None: "find_index c xs = None \<longleftrightarrow> c \<notin> set xs"
  by (induction xs) auto

lemma find_index_append: "find_index c (xs @ c # ys) = Some (length xs)" if "c \<notin> set xs"
  using that by (induction xs) auto

lemma find_index_Some_D:
  "find_index c xs = Some i \<Longrightarrow> i < length xs \<and> xs ! i = c \<and> c \<notin> set (take i xs)"
  by (induction xs arbitrary: i) (auto split: if_splits)

lemma find_index_split:
  assumes "find_index c xs = Some i"
  shows "xs = take i xs @ c # drop (Suc i) xs"
  using find_index_Some_D [OF assms] by (metis id_take_nth_drop)

lemma find_index_append_left:
  "c \<in> set xs \<Longrightarrow> find_index c (xs @ ys) = find_index c xs"
  by (induction xs) auto

lemma find_index_append_right:
  "c \<notin> set xs \<Longrightarrow> find_index c (xs @ ys) = map_option (\<lambda>i. length xs + i) (find_index c ys)"
proof (induction xs)
  case Nil
  show ?case
    by (cases "find_index c ys") auto
next
  case (Cons x xs)
  then show ?case
    by (cases "find_index c ys") auto
qed

section \<open>Decimal text\<close>

definition is_digit :: "char \<Rightarrow> bool" where
  "is_digit c \<longleftrightarrow> 48 \<le> (of_char c :: nat) \<and> (of_char c :: nat) \<le> 57"

definition digit_value :: "char \<Rightarrow> nat" where
  "digit_value c = of_char c - 48"

definition digit_char :: "nat \<Rightarrow> char" where
  "digit_char d = char_of (48 + d)"

text \<open>\<^verbatim>\<open>std::to_string\<close> of an unsigned number.\<close>

fun dec_text :: "nat \<Rightarrow> string" where
  "dec_text n = (if n < 10 then [digit_char n] else dec_text (n div 10) @ [digit_char (n mod 10)])"

declare dec_text.simps [simp del]

definition dec_value :: "string \<Rightarrow> nat" where
  "dec_value s = fold (\<lambda>c n. n * 10 + digit_value c) s 0"

lemma is_digit_digit_char [simp]: "d < 10 \<Longrightarrow> is_digit (digit_char d)"
  by (simp add: is_digit_def digit_char_def of_char_of)

lemma digit_value_digit_char [simp]: "d < 10 \<Longrightarrow> digit_value (digit_char d) = d"
  by (simp add: digit_value_def digit_char_def of_char_of)

lemma dec_text_not_Nil [simp]: "dec_text n \<noteq> []"
  by (subst dec_text.simps) simp

lemma dec_text_digits: "list_all is_digit (dec_text n)"
proof (induction n rule: dec_text.induct)
  case (1 n)
  then show ?case
    by (subst dec_text.simps) simp
qed

lemma dec_value_dec_text: "dec_value (dec_text n) = n"
proof (induction n rule: dec_text.induct)
  case (1 n)
  then show ?case
    by (subst dec_text.simps) (simp add: dec_value_def)
qed

text \<open>\<^verbatim>\<open>std::to_string\<close> of a signed number.\<close>

definition int_text :: "int \<Rightarrow> string" where
  "int_text i = (if i < 0 then CHR ''-'' # dec_text (nat (- i)) else dec_text (nat i))"

text \<open>What \<^verbatim>\<open>c_str()\<close> shows of a string: the text up to the first zero byte.\<close>

definition c_str :: "string \<Rightarrow> string" where
  "c_str s = takeWhile (\<lambda>c. c \<noteq> CHR 0x00) s"

text \<open>\<^verbatim>\<open>strcasecmp\<close> compares without the case of the ASCII letters.\<close>

definition to_lower :: "char \<Rightarrow> char" where
  "to_lower c = (if 65 \<le> (of_char c :: nat) \<and> (of_char c :: nat) \<le> 90 then char_of ((of_char c :: nat) + 32) else c)"

definition equal_nocase :: "string \<Rightarrow> string \<Rightarrow> bool" where
  "equal_nocase s t \<longleftrightarrow> map to_lower s = map to_lower t"

section \<open>strtoul\<close>

definition is_space :: "char \<Rightarrow> bool" where
  "is_space c \<longleftrightarrow> (of_char c :: nat) = 32 \<or> 9 \<le> (of_char c :: nat) \<and> (of_char c :: nat) \<le> 13"

text \<open>\<^verbatim>\<open>strtoul (s, &end, 10)\<close>: white space and a sign may come first, a negative number wraps, a number which is too large
  is the largest one. The second component is the text behind the number; without a digit it is all of the text.\<close>

definition c_strtoul :: "string \<Rightarrow> nat \<times> string" where
  "c_strtoul s =
     (let t = dropWhile is_space s;
          neg = (t \<noteq> [] \<and> hd t = CHR ''-'');
          u = (if t \<noteq> [] \<and> (hd t = CHR ''-'' \<or> hd t = CHR ''+'') then tl t else t);
          ds = takeWhile is_digit u;
          v = dec_value ds
      in if ds = [] then (0, s)
         else (if v \<ge> 2 ^ 64 then 2 ^ 64 - 1 else if neg then (2 ^ 64 - v) mod 2 ^ 64 else v, dropWhile is_digit u))"

text \<open>\<^verbatim>\<open>strtol\<close> with base 10: the number, the rest of the text, and whether errno is set (the number is out of range then).\<close>

definition c_strtol :: "string \<Rightarrow> int \<times> string \<times> bool" where
  "c_strtol s =
     (let t = dropWhile is_space s;
          neg = (t \<noteq> [] \<and> hd t = CHR ''-'');
          u = (if t \<noteq> [] \<and> (hd t = CHR ''-'' \<or> hd t = CHR ''+'') then tl t else t);
          ds = takeWhile is_digit u;
          n = (if neg then - int (dec_value ds) else int (dec_value ds));
          rest = dropWhile is_digit u
      in if ds = [] then (0, s, False)
         else if n > 2 ^ 63 - 1 then (2 ^ 63 - 1, rest, True)
         else if n < - (2 ^ 63) then (- (2 ^ 63), rest, True)
         else (n, rest, False))"

text \<open>\<^verbatim>\<open>strncmp (s, prefix, strlen (prefix))\<close>.\<close>

definition starts_with :: "string \<Rightarrow> string \<Rightarrow> bool" where
  "starts_with prefix s \<longleftrightarrow> take (length prefix) s = prefix"

text \<open>\<^verbatim>\<open>strrchr\<close> and \<^verbatim>\<open>rfind\<close>: the index of the last occurrence.\<close>

definition find_last :: "'a \<Rightarrow> 'a list \<Rightarrow> nat option" where
  "find_last c xs = map_option (\<lambda>i. length xs - Suc i) (find_index c (rev xs))"

end
