(* ===== verification/Push.thy ===== *)
theory Push imports Prelude begin

text \<open>
  \<^verbatim>\<open>push_status.hpp\<close> and \<^verbatim>\<open>push_failover.hpp\<close>: what the HTTP status of the receiver means for a push
  request, and which of the two endpoints a request goes to. The atomic members of \<^verbatim>\<open>PushFailover\<close> are
  the fields of one record. \<open>PushFailover_Send\<close> is the call of one thread; the state it hands to the function which
  sends is threaded through, so the sender can be any program, also one which fails now and then.
\<close>

section \<open>The meaning of an HTTP status\<close>

datatype PushAction = PUSH_ACCEPTED | PUSH_RETRY | PUSH_REJECTED

definition GetPushAction :: "int \<Rightarrow> PushAction" where
  "GetPushAction HttpStatus =
     (if HttpStatus \<ge> 200 \<and> HttpStatus \<le> 299 then PUSH_ACCEPTED
      else if HttpStatus = 400 then PUSH_REJECTED
      else PUSH_RETRY)"

fun GetPushActionName :: "PushAction \<Rightarrow> string" where
  "GetPushActionName PUSH_ACCEPTED = ''accepted''"
| "GetPushActionName PUSH_RETRY = ''retry''"
| "GetPushActionName PUSH_REJECTED = ''rejected''"

lemma GetPushAction_rejected_iff: "GetPushAction h = PUSH_REJECTED \<longleftrightarrow> h = 400"
  by (auto simp: GetPushAction_def)

lemma GetPushAction_accepted_iff: "GetPushAction h = PUSH_ACCEPTED \<longleftrightarrow> 200 \<le> h \<and> h \<le> 299"
  by (auto simp: GetPushAction_def)

section \<open>The failover state\<close>

datatype PushEndpoint = PUSH_PRIMARY | PUSH_BACKUP

text \<open>\<^verbatim>\<open>time_t\<close> and the 64 bit counters do not come near their limits: they are integers here.\<close>

record PushFailover =
  m_bHasBackup :: bool
  m_FailbackSec :: int
  m_Active :: PushEndpoint
  m_tNextProbe :: int
  m_Failovers :: int
  m_Failbacks :: int
  m_Requests :: "PushEndpoint \<Rightarrow> PushAction \<Rightarrow> int"

definition PushFailover_init :: PushFailover where
  "PushFailover_init = \<lparr>m_bHasBackup = False, m_FailbackSec = 60, m_Active = PUSH_PRIMARY,
     m_tNextProbe = 0, m_Failovers = 0, m_Failbacks = 0, m_Requests = (\<lambda>e a. 0)\<rparr>"

definition PushFailover_Configure :: "bool \<Rightarrow> int \<Rightarrow> PushFailover \<Rightarrow> PushFailover" where
  "PushFailover_Configure bHasBackup FailbackSec f = f\<lparr>m_bHasBackup := bHasBackup, m_FailbackSec := FailbackSec\<rparr>"

text \<open>The function of the caller: it sends to one endpoint, and tells what came out.\<close>

type_synonym 's Sender = "PushEndpoint \<Rightarrow> bool \<Rightarrow> 's \<Rightarrow> PushAction \<times> 's"

definition PushFailover_Try :: "'s Sender \<Rightarrow> PushEndpoint \<Rightarrow> bool \<Rightarrow> PushFailover \<times> 's \<Rightarrow> PushAction \<times> PushFailover \<times> 's" where
  "PushFailover_Try SendTo Endpoint bProbe = (\<lambda>(f, s).
     (case SendTo Endpoint bProbe s of (Action, s') \<Rightarrow>
        (Action, f\<lparr>m_Requests := (m_Requests f)(Endpoint := (m_Requests f Endpoint)
                   (Action := m_Requests f Endpoint Action + 1))\<rparr>, s')))"

text \<open>The second component of the result is \<^verbatim>\<open>*pSwitchedTo\<close>: \<open>None\<close> is -1.\<close>

definition PushFailover_SwitchTo :: "PushEndpoint \<Rightarrow> int \<Rightarrow> PushFailover \<Rightarrow> PushFailover \<times> PushEndpoint option" where
  "PushFailover_SwitchTo Endpoint Now f =
     (let f1 = (if Endpoint = PUSH_BACKUP then f\<lparr>m_tNextProbe := Now + m_FailbackSec f\<rparr> else f);
          f2 = f1\<lparr>m_Active := Endpoint\<rparr>
      in if m_Active f1 = Endpoint then (f2, None)
         else if Endpoint = PUSH_BACKUP then (f2\<lparr>m_Failovers := m_Failovers f2 + 1\<rparr>, Some Endpoint)
         else (f2\<lparr>m_Failbacks := m_Failbacks f2 + 1\<rparr>, Some Endpoint))"

text \<open>The end of every path of \<open>PushFailover_Send\<close>: an accepted try of \<open>Endpoint\<close> makes it the one in use.\<close>

definition PushFailover_finish :: "PushEndpoint \<Rightarrow> int \<Rightarrow> PushAction \<times> PushFailover \<times> 's
    \<Rightarrow> PushAction \<times> PushEndpoint option \<times> PushFailover \<times> 's" where
  "PushFailover_finish Endpoint Now = (\<lambda>(Action, f, s).
     if Action = PUSH_ACCEPTED then (case PushFailover_SwitchTo Endpoint Now f of (f', sw) \<Rightarrow> (Action, sw, f', s))
     else (Action, None, f, s))"

text \<open>
  \<open>PushFailover_Send\<close> with the outcome of the \<^verbatim>\<open>compare_exchange\<close> as an argument: \<open>bWon\<close> is false if another
  thread changed \<open>m_tNextProbe\<close> in between, and then this one does not probe.
\<close>

definition PushFailover_Send :: "'s Sender \<Rightarrow> int \<Rightarrow> bool \<Rightarrow> PushFailover \<times> 's
    \<Rightarrow> PushAction \<times> PushEndpoint option \<times> PushFailover \<times> 's" where
  "PushFailover_Send SendTo Now bWon = (\<lambda>(f, s).
     if \<not> m_bHasBackup f then
       (case PushFailover_Try SendTo PUSH_PRIMARY False (f, s) of (Action, f1, s1) \<Rightarrow> (Action, None, f1, s1))
     else if m_Active f = PUSH_PRIMARY then
       (case PushFailover_Try SendTo PUSH_PRIMARY False (f, s) of (Action, f1, s1) \<Rightarrow>
          if Action \<noteq> PUSH_RETRY then (Action, None, f1, s1)
          else PushFailover_finish PUSH_BACKUP Now (PushFailover_Try SendTo PUSH_BACKUP False (f1, s1)))
     else
       (let onbackup = (\<lambda>(f1, s1).
              (case PushFailover_Try SendTo PUSH_BACKUP False (f1, s1) of (Action, f2, s2) \<Rightarrow>
                 if Action \<noteq> PUSH_RETRY then (Action, None, f2, s2)
                 else PushFailover_finish PUSH_PRIMARY Now (PushFailover_Try SendTo PUSH_PRIMARY False (f2, s2))))
        in if Now \<ge> m_tNextProbe f \<and> bWon then
             (case PushFailover_Try SendTo PUSH_PRIMARY True (f\<lparr>m_tNextProbe := Now + m_FailbackSec f\<rparr>, s) of
                (Action, f1, s1) \<Rightarrow>
                  if Action \<noteq> PUSH_RETRY then PushFailover_finish PUSH_PRIMARY Now (Action, f1, s1)
                  else onbackup (f1, s1))
           else onbackup (f, s)))"


section \<open>Every request of one call, in order\<close>

text \<open>A sender which also notes every try: the endpoint, whether it was a probe, and what came out.\<close>

type_synonym tries = "(PushEndpoint \<times> bool \<times> PushAction) list"

definition noting :: "'s Sender \<Rightarrow> ('s \<times> tries) Sender" where
  "noting SendTo Endpoint bProbe = (\<lambda>(s, tr).
     (case SendTo Endpoint bProbe s of (Action, s') \<Rightarrow> (Action, s', tr @ [(Endpoint, bProbe, Action)])))"

lemmas Send_defs = PushFailover_Send_def PushFailover_Try_def PushFailover_finish_def
  PushFailover_SwitchTo_def noting_def Let_def

text \<open>Without or with a backup, the answer of the last try is the result, and every try before it was a retry.\<close>

definition ends_with_answer :: "tries \<Rightarrow> PushAction \<Rightarrow> bool" where
  "ends_with_answer tr a \<longleftrightarrow> tr \<noteq> [] \<and> snd (snd (last tr)) = a \<and>
     list_all (\<lambda>(e, p, b). b = PUSH_RETRY) (butlast tr)"

definition covers_both :: "tries \<Rightarrow> bool" where
  "covers_both tr \<longleftrightarrow> list_ex (\<lambda>(e, p, b). e = PUSH_PRIMARY) tr \<and> list_ex (\<lambda>(e, p, b). e = PUSH_BACKUP) tr"

lemma PushEndpoint_not [simp]:
  "e \<noteq> PUSH_PRIMARY \<longleftrightarrow> e = PUSH_BACKUP" "e \<noteq> PUSH_BACKUP \<longleftrightarrow> e = PUSH_PRIMARY"
  by (cases e; simp)+

text \<open>A push request ends at the first endpoint which takes a decision: the answer of the last try is the
  result, every earlier try of the call was a retry (so after an acceptance or a rejection nothing is sent again),
  there are at most three tries, and with a backup the call only gives up with \<open>PUSH_RETRY\<close> after both
  endpoints were tried.\<close>

theorem Send_stops_at_first_answer:
  assumes "PushFailover_Send (noting SendTo) Now bWon (f, (s, [])) = (a, sw, f', (s', tr))"
  shows "ends_with_answer tr a \<and> length tr \<le> 3 \<and>
    (if m_bHasBackup f \<and> a = PUSH_RETRY then covers_both tr else True)"
  using assms
  by (auto simp: Send_defs ends_with_answer_def covers_both_def split: prod.splits if_splits)

text \<open>The endpoint in use only moves to an endpoint which accepted the request: with a backup an accepted
  request leaves the endpoint of its last try in use, any other outcome changes nothing, and a change is reported
  exactly when there was one.\<close>

theorem Send_moves_to_accepting_endpoint:
  assumes "PushFailover_Send (noting SendTo) Now bWon (f, (s, [])) = (a, sw, f', (s', tr))" and "m_bHasBackup f"
  shows "m_Active f' = (if a = PUSH_ACCEPTED then fst (last tr) else m_Active f) \<and>
    sw = (if m_Active f' = m_Active f then None else Some (m_Active f'))"
  using assms
  by (cases "m_Active f") (auto simp: Send_defs split: prod.splits if_splits)


text \<open>A primary which fails and a backup which accepts.\<close>

definition only_backup :: "unit Sender" where
  "only_backup e p u = (if e = PUSH_PRIMARY then PUSH_RETRY else PUSH_ACCEPTED, u)"

definition with_backup :: PushFailover where
  "with_backup = PushFailover_Configure True 60 PushFailover_init"

lemma only_backup_run:
  "PushFailover_Send (noting only_backup) 1000 True (with_backup, ((), [])) =
     (PUSH_ACCEPTED, Some PUSH_BACKUP,
      with_backup\<lparr>m_Active := PUSH_BACKUP, m_tNextProbe := 1060, m_Failovers := 1,
        m_Requests := (m_Requests with_backup)
          (PUSH_PRIMARY := (\<lambda>a. 0)(PUSH_RETRY := 1), PUSH_BACKUP := (\<lambda>a. 0)(PUSH_ACCEPTED := 1))\<rparr>,
      ((), [(PUSH_PRIMARY, False, PUSH_RETRY), (PUSH_BACKUP, False, PUSH_ACCEPTED)]))"
  by (simp add: Send_defs only_backup_def with_backup_def PushFailover_init_def PushFailover_Configure_def)

theorem Send_stops_at_first_answer_witness:
  "ends_with_answer [(PUSH_PRIMARY, False, PUSH_RETRY), (PUSH_BACKUP, False, PUSH_ACCEPTED)] PUSH_ACCEPTED"
  using Send_stops_at_first_answer [OF only_backup_run] by simp

theorem Send_moves_to_accepting_endpoint_witness:
  "m_Active (fst (snd (snd (PushFailover_Send (noting only_backup) 1000 True (with_backup, ((), [])))))) = PUSH_BACKUP"
  unfolding only_backup_run fst_conv snd_conv
  using Send_moves_to_accepting_endpoint [OF only_backup_run]
  by (simp add: with_backup_def PushFailover_init_def PushFailover_Configure_def)

section \<open>A run of requests\<close>

text \<open>The requests of the push thread and of the WAL thread, one after the other: each with its sender, the time,
  and whether it won the exchange of the probe time.\<close>

type_synonym 's request = "'s Sender \<times> int \<times> bool"

fun Send_all :: "'s request list \<Rightarrow> PushFailover \<times> 's \<Rightarrow> PushFailover \<times> 's" where
  "Send_all [] fs = fs"
| "Send_all ((SendTo, Now, bWon) # rs) fs = Send_all rs (snd (snd (PushFailover_Send SendTo Now bWon fs)))"

definition failover_inv :: "PushFailover \<Rightarrow> bool" where
  "failover_inv f \<longleftrightarrow>
     m_Failovers f = m_Failbacks f + (if m_Active f = PUSH_BACKUP then 1 else 0) \<and>
     (m_bHasBackup f \<or> m_Active f = PUSH_PRIMARY)"

lemma failover_inv_init: "failover_inv (PushFailover_Configure b n PushFailover_init)"
  by (simp add: failover_inv_def PushFailover_init_def PushFailover_Configure_def)

lemma Send_failover_inv:
  "failover_inv f \<Longrightarrow> PushFailover_Send SendTo Now bWon (f, s) = (a, sw, f', s') \<Longrightarrow> failover_inv f'"
  by (auto simp: failover_inv_def Send_defs split: prod.splits if_splits)

lemma Send_all_failover_inv: "failover_inv (fst fs) \<Longrightarrow> failover_inv (fst (Send_all rs fs))"
proof (induction rs arbitrary: fs)
  case (Cons r rs)
  obtain SendTo Now bWon where r: "r = (SendTo, Now, bWon)" by (cases r)
  obtain a sw f' s' where "PushFailover_Send SendTo Now bWon (fst fs, snd fs) = (a, sw, f', s')"
    by (metis prod_cases4)
  with Cons r show ?case
    by (auto intro!: Cons.IH intro: Send_failover_inv [of "fst fs" SendTo Now bWon "snd fs"])
qed simp

text \<open>The two switch counters always tell which endpoint is in use: after any run of requests from the start,
  with any receiver, the failovers are the failbacks plus one while the backup is in use, and equal otherwise;
  without a backup endpoint the primary stays in use.\<close>

theorem failover_counters_tell_active:
  "failover_inv (fst (Send_all rs (PushFailover_Configure b n PushFailover_init, s)))"
  by (rule Send_all_failover_inv) (simp add: failover_inv_init)

text \<open>Probes of a failing primary are rate limited: while the backup stays in use, a call tries the primary as a
  probe only when its time has come, and whenever it did, the next probe is not before \<open>m_FailbackSec\<close> seconds
  later.\<close>

theorem probe_is_rate_limited:
  assumes "PushFailover_Send (noting SendTo) Now bWon (f, (s, [])) = (a, sw, f', (s', tr))"
    and "m_Active f = PUSH_BACKUP" and "m_bHasBackup f"
    and "(PUSH_PRIMARY, True, b) \<in> set tr"
  shows "m_tNextProbe f \<le> Now \<and> bWon \<and> m_tNextProbe f' = Now + m_FailbackSec f"
  using assms
  by (auto simp: Send_defs split: prod.splits if_splits)

lemma only_backup_probe:
  "PushFailover_Send (noting only_backup) 1000 True
     (with_backup\<lparr>m_Active := PUSH_BACKUP, m_tNextProbe := 1000\<rparr>, ((), [])) =
     (PUSH_ACCEPTED, None,
      with_backup\<lparr>m_Active := PUSH_BACKUP, m_tNextProbe := 1060,
        m_Requests := (m_Requests with_backup)
          (PUSH_PRIMARY := (\<lambda>a. 0)(PUSH_RETRY := 1), PUSH_BACKUP := (\<lambda>a. 0)(PUSH_ACCEPTED := 1))\<rparr>,
      ((), [(PUSH_PRIMARY, True, PUSH_RETRY), (PUSH_BACKUP, False, PUSH_ACCEPTED)]))"
  by (simp add: Send_defs only_backup_def with_backup_def PushFailover_init_def PushFailover_Configure_def)

theorem probe_is_rate_limited_witness:
  "m_tNextProbe (fst (snd (snd (PushFailover_Send (noting only_backup) 1000 True
     (with_backup\<lparr>m_Active := PUSH_BACKUP, m_tNextProbe := 1000\<rparr>, ((), [])))))) = 1060"
  unfolding only_backup_probe fst_conv snd_conv
  using probe_is_rate_limited [OF only_backup_probe]
  by (simp add: with_backup_def PushFailover_init_def PushFailover_Configure_def)

end
