(* ===== verification/Disk.thy ===== *)
theory Disk imports Prelude begin

text \<open>
  The three files of one WAL and the POSIX calls which \<^verbatim>\<open>wal/simple_wal.cpp\<close> makes on them. Every call
  consults a script of outcomes, so a theorem which holds for every script holds for every failure: a full disk,
  a short write, a call which fails. An empty script is a disk without failures. A crash is a script whose
  remaining entries all fail: a failing call changes nothing.
\<close>

section \<open>Files and outcomes\<close>

datatype wal_path = WAL_FILE | COMMIT_FILE | CORRUPT_FILE

text \<open>The call is done in full, or for part of the bytes only, or fails with an errno.\<close>

datatype outcome = Done | Part nat | Fails nat

abbreviation EWOULDBLOCK :: nat where "EWOULDBLOCK \<equiv> 11"
abbreviation ENOENT :: nat where "ENOENT \<equiv> 2"
abbreviation EIO :: nat where "EIO \<equiv> 5"

record disk =
  Files :: "wal_path \<Rightarrow> bytes option"
  Script :: "outcome list"

definition next_outcome :: "disk \<Rightarrow> outcome \<times> disk" where
  "next_outcome s = (case Script s of [] \<Rightarrow> (Done, s) | out # outs \<Rightarrow> (out, s\<lparr>Script := outs\<rparr>))"

text \<open>A call which works or fails as a whole.\<close>

definition call :: "disk \<Rightarrow> nat option \<times> disk" where
  "call s = (case next_outcome s of (Fails e, s') \<Rightarrow> (Some e, s') | (_, s') \<Rightarrow> (None, s'))"

abbreviation contents :: "wal_path \<Rightarrow> disk \<Rightarrow> bytes" where
  "contents p s \<equiv> (case Files s p of None \<Rightarrow> [] | Some bs \<Rightarrow> bs)"

definition set_contents :: "wal_path \<Rightarrow> bytes option \<Rightarrow> disk \<Rightarrow> disk" where
  "set_contents p bs s = s\<lparr>Files := (Files s)(p := bs)\<rparr>"

section \<open>The calls\<close>

text \<open>The largest offset of a file: the largest \<^verbatim>\<open>off_t\<close>.\<close>

definition MAX_OFF :: nat where
  "MAX_OFF = 2 ^ 63 - 1"

definition open_read :: "wal_path \<Rightarrow> disk \<Rightarrow> bool \<times> disk" where
  "open_read p s = (case call s of (Some e, s') \<Rightarrow> (False, s') | (None, s') \<Rightarrow> (Files s' p \<noteq> None, s'))"

definition open_append :: "wal_path \<Rightarrow> disk \<Rightarrow> bool \<times> disk" where
  "open_append p s = (case call s of (Some e, s') \<Rightarrow> (False, s')
     | (None, s') \<Rightarrow> (True, set_contents p (Some (contents p s')) s'))"

definition open_trunc :: "wal_path \<Rightarrow> disk \<Rightarrow> bool \<times> disk" where
  "open_trunc p s = (case call s of (Some e, s') \<Rightarrow> (False, s') | (None, s') \<Rightarrow> (True, set_contents p (Some []) s'))"

text \<open>\<^verbatim>\<open>write\<close>: the number of bytes which were written at the end of the file, or \<open>None\<close> for -1. A file
  does not get larger than the largest offset.\<close>

definition sys_write :: "wal_path \<Rightarrow> bytes \<Rightarrow> disk \<Rightarrow> nat option \<times> disk" where
  "sys_write p bs s =
     (let append = (\<lambda>k s'. let n = min (min k (length bs)) (MAX_OFF - length (contents p s'))
                          in (Some n, set_contents p (Some (contents p s' @ take n bs)) s'))
      in case next_outcome s of
           (Fails e, s') \<Rightarrow> (None, s')
         | (Part k, s') \<Rightarrow> append k s'
         | (Done, s') \<Rightarrow> append (length bs) s')"

definition sys_pread :: "wal_path \<Rightarrow> nat \<Rightarrow> nat \<Rightarrow> disk \<Rightarrow> bytes option \<times> disk" where
  "sys_pread p n off s = (case next_outcome s of
       (Fails e, s') \<Rightarrow> (None, s')
     | (Part k, s') \<Rightarrow> (Some (take (min k n) (drop off (contents p s'))), s')
     | (Done, s') \<Rightarrow> (Some (take n (drop off (contents p s'))), s'))"

text \<open>\<open>ENOENT\<close> is what a missing file gives, and no other failure has that number.\<close>

definition sys_unlink :: "wal_path \<Rightarrow> disk \<Rightarrow> nat option \<times> disk" where
  "sys_unlink p s = (case call s of
       (Some e, s') \<Rightarrow> (Some (if e = ENOENT \<and> Files s' p \<noteq> None then EIO else e), s')
     | (None, s') \<Rightarrow> (if Files s' p = None then (Some ENOENT, s') else (None, set_contents p None s')))"

definition sys_ftruncate :: "wal_path \<Rightarrow> nat \<Rightarrow> disk \<Rightarrow> bool \<times> disk" where
  "sys_ftruncate p n s = (case call s of (Some e, s') \<Rightarrow> (False, s')
     | (None, s') \<Rightarrow> (True, set_contents p (Some (take n (contents p s'))) s'))"

text \<open>\<^verbatim>\<open>fstat\<close> and \<^verbatim>\<open>lseek (SEEK_END)\<close>: the size, \<open>None\<close> for a failure.\<close>

definition sys_size :: "wal_path \<Rightarrow> disk \<Rightarrow> nat option \<times> disk" where
  "sys_size p s = (case call s of (Some e, s') \<Rightarrow> (None, s') | (None, s') \<Rightarrow> (Some (length (contents p s')), s'))"

section \<open>WriteAllToFd\<close>

lemma sys_write_progress:
  "sys_write p bs s = (Some n, s') \<Longrightarrow> n \<le> length bs"
  by (auto simp: sys_write_def Let_def split: outcome.splits prod.splits)

text \<open>Writes everything or fails. Every turn of the loop writes at least one byte.\<close>

function WriteAllToFd :: "wal_path \<Rightarrow> bytes \<Rightarrow> disk \<Rightarrow> bool \<times> disk" where
  "WriteAllToFd p bs s =
     (if bs = [] then (True, s)
      else case sys_write p bs s of
             (None, s') \<Rightarrow> (False, s')
           | (Some n, s') \<Rightarrow> if n = 0 then (False, s') else WriteAllToFd p (drop n bs) s')"
  by pat_completeness auto
termination
  by (relation "measure (\<lambda>(p, bs, s). length bs)") (auto dest: sys_write_progress)

declare WriteAllToFd.simps [simp del]

section \<open>What the calls change\<close>

lemma next_outcome_Files [simp]: "next_outcome s = (out, s') \<Longrightarrow> Files s' = Files s"
  by (auto simp: next_outcome_def split: list.splits)

lemma next_outcome_no_script: "Script s = [] \<Longrightarrow> next_outcome s = (Done, s)"
  by (simp add: next_outcome_def)

lemma call_no_script: "Script s = [] \<Longrightarrow> call s = (None, s)"
  by (simp add: call_def next_outcome_no_script)

lemma call_Files: "call s = (r, s') \<Longrightarrow> Files s' = Files s"
  by (auto simp: call_def split: prod.splits outcome.splits)

lemma set_contents_Files [simp]: "Files (set_contents p bs s) = (Files s)(p := bs)"
  by (simp add: set_contents_def)

lemma set_contents_Script [simp]: "Script (set_contents p bs s) = Script s"
  by (simp add: set_contents_def)

lemma sys_size_SomeD:
  "sys_size p s = (Some n, s') \<Longrightarrow> n = length (contents p s) \<and> Files s' = Files s"
  by (auto simp: sys_size_def split: prod.splits option.splits dest: call_Files)

lemma sys_size_Files: "sys_size p s = (r, s') \<Longrightarrow> Files s' = Files s"
  by (auto simp: sys_size_def split: prod.splits option.splits dest: call_Files)

lemma sys_pread_Files: "sys_pread p n off s = (r, s') \<Longrightarrow> Files s' = Files s"
  by (auto simp: sys_pread_def split: prod.splits outcome.splits)

lemma sys_pread_full:
  assumes "sys_pread p n off s = (Some bs, s')" and "length bs = n"
  shows "bs = take n (drop off (contents p s)) \<and> Files s' = Files s"
  using assms by (auto simp: sys_pread_def min_def split: prod.splits outcome.splits if_splits)

lemma sys_pread_size:
  assumes "sys_pread p n off s = (Some bs, s')" and "length bs = n" and "0 < n"
  shows "off + n \<le> length (contents p s)"
proof -
  have "length (take n (drop off (contents p s))) = n"
    using sys_pread_full [OF assms(1,2)] assms(2) by simp
  with assms(3) show ?thesis
    by simp
qed

text \<open>\<open>WriteAllToFd\<close> only ever appends a piece of the front of its data, and all of it when it succeeds.\<close>

lemma sys_write_cases:
  assumes "sys_write p bs s = (r, s')"
  obtains (fail) "r = None" "Files s' = Files s"
  | (wrote) n where "r = Some n" "n \<le> length bs"
      "Files s' = (Files s)(p := Some (contents p s @ take n bs))"
      "length (contents p s) \<le> MAX_OFF \<Longrightarrow> length (contents p s @ take n bs) \<le> MAX_OFF"
proof (cases "next_outcome s")
  case (Pair out s1)
  then have F: "Files s1 = Files s" by simp
  show ?thesis
  proof (cases out)
    case Done
    with assms Pair F show ?thesis
      by (auto simp: sys_write_def Let_def intro!: wrote)
  next
    case (Part k)
    with assms Pair F show ?thesis
      by (auto simp: sys_write_def Let_def intro!: wrote)
  next
    case (Fails e)
    with assms Pair F show ?thesis
      by (auto simp: sys_write_def Let_def intro!: fail)
  qed
qed


lemma WriteAllToFd_appends:
  assumes "WriteAllToFd p bs s = (r, s')"
  shows "\<exists>n \<le> length bs. contents p s' = contents p s @ take n bs \<and> (r \<longleftrightarrow> n = length bs) \<and>
    (\<forall>q. q \<noteq> p \<longrightarrow> Files s' q = Files s q) \<and>
    (Files s p \<noteq> None \<longrightarrow> Files s' p \<noteq> None) \<and>
    (length (contents p s) \<le> MAX_OFF \<longrightarrow> length (contents p s') \<le> MAX_OFF)"
  using assms
proof (induction p bs s rule: WriteAllToFd.induct)
  case (1 p bs s)
  show ?case
  proof (cases "bs = []")
    case True
    with "1.prems" show ?thesis
      by (auto simp: WriteAllToFd.simps)
  next
    case False
    obtain w s1 where w: "sys_write p bs s = (w, s1)"
      by force
    from w show ?thesis
    proof (cases rule: sys_write_cases)
      case fail
      with w False "1.prems" show ?thesis
        by (intro exI [of _ 0]) (simp add: WriteAllToFd.simps [of p bs s])
    next
      case (wrote n)
      show ?thesis
      proof (cases "n = 0")
        case True
        with wrote w False "1.prems" show ?thesis
          by (intro exI [of _ 0]) (simp add: WriteAllToFd.simps [of p bs s] split: option.splits)
      next
        case n0: False
        with wrote w False "1.prems" have rec: "WriteAllToFd p (drop n bs) s1 = (r, s')"
          by (simp add: WriteAllToFd.simps [of p bs s])
        from "1.IH" [OF False w [symmetric] wrote(1) n0 rec]
        obtain m where m: "m \<le> length (drop n bs)" "contents p s' = contents p s1 @ take m (drop n bs)"
          "r \<longleftrightarrow> m = length (drop n bs)" "\<forall>q. q \<noteq> p \<longrightarrow> Files s' q = Files s1 q"
          "Files s1 p \<noteq> None \<longrightarrow> Files s' p \<noteq> None"
          "length (contents p s1) \<le> MAX_OFF \<longrightarrow> length (contents p s') \<le> MAX_OFF"
          by blast
        have "contents p s' = contents p s @ take (n + m) bs"
          using m(2) wrote(2,3) by (simp add: take_add)
        moreover have "n + m \<le> length bs" "r \<longleftrightarrow> n + m = length bs"
          using m(1,3) wrote(2) by auto
        moreover have "\<forall>q. q \<noteq> p \<longrightarrow> Files s' q = Files s q"
          using m(4) wrote(3) by simp
        moreover have "Files s p \<noteq> None \<longrightarrow> Files s' p \<noteq> None"
          using m(5) wrote(3) by simp
        moreover have "length (contents p s) \<le> MAX_OFF \<longrightarrow> length (contents p s') \<le> MAX_OFF"
          using m(6) wrote(3,4) by simp
        ultimately show ?thesis
          by blast
      qed
    qed
  qed
qed

section \<open>A disk without failures\<close>

lemma sys_write_ok:
  assumes "Script s = []" and "length (contents p s) + length bs \<le> MAX_OFF"
  shows "sys_write p bs s = (Some (length bs), set_contents p (Some (contents p s @ bs)) s)"
  using assms by (simp add: sys_write_def next_outcome_no_script Let_def)

lemma WriteAllToFd_ok:
  assumes "Script s = []" and "length (contents p s) + length bs \<le> MAX_OFF" and "bs \<noteq> []"
  shows "WriteAllToFd p bs s = (True, set_contents p (Some (contents p s @ bs)) s)"
  using assms by (simp add: WriteAllToFd.simps [of p bs s] sys_write_ok WriteAllToFd.simps [of p "[]"])

lemma sys_pread_ok:
  "Script s = [] \<Longrightarrow> sys_pread p n off s = (Some (take n (drop off (contents p s))), s)"
  by (simp add: sys_pread_def next_outcome_no_script)

lemma sys_size_ok: "Script s = [] \<Longrightarrow> sys_size p s = (Some (length (contents p s)), s)"
  by (simp add: sys_size_def call_no_script)

lemma open_read_ok: "Script s = [] \<Longrightarrow> open_read p s = (Files s p \<noteq> None, s)"
  by (simp add: open_read_def call_no_script)

lemma open_trunc_ok: "Script s = [] \<Longrightarrow> open_trunc p s = (True, set_contents p (Some []) s)"
  by (simp add: open_trunc_def call_no_script)

lemma open_append_ok:
  "Script s = [] \<Longrightarrow> open_append p s = (True, set_contents p (Some (contents p s)) s)"
  by (simp add: open_append_def call_no_script)

lemma sys_unlink_ok:
  "Script s = [] \<Longrightarrow> sys_unlink p s = (if Files s p = None then (Some ENOENT, s) else (None, set_contents p None s))"
  by (simp add: sys_unlink_def call_no_script)

lemma sys_ftruncate_ok:
  "Script s = [] \<Longrightarrow> sys_ftruncate p n s = (True, set_contents p (Some (take n (contents p s))) s)"
  by (simp add: sys_ftruncate_def call_no_script)

lemmas disk_ok = sys_write_ok WriteAllToFd_ok sys_pread_ok sys_size_ok open_read_ok open_trunc_ok
  open_append_ok sys_unlink_ok sys_ftruncate_ok call_no_script

end
