(* ===== verification/Wal.thy ===== *)
theory Wal imports Disk begin

text \<open>
  \<^verbatim>\<open>SimpleWAL\<close> (\<^verbatim>\<open>wal/simple_wal.hpp\<close>, \<^verbatim>\<open>wal/simple_wal.cpp\<close>): its members as a record, and one definition
  for each operation. A public operation holds the mutex from its start to its end, so it is one step here.
  \<open>Replay\<close> takes the mutex for its start, for every record and for its end; its model runs the application's
  function, which can use the WAL, between these steps.

  Offsets and sizes are natural numbers: a file offset is below \<open>2^63\<close>, and the sums of the code (an offset, 4 and a
  32 bit length) stay below \<open>2^64\<close>. The bytes on disk have their width: 4 for a length, 8 for a position, in the
  byte order of the machine, which is little endian here. The epoch counts the changes of the position, and does
  not come near its limit.
\<close>

section \<open>The object\<close>

datatype wal_message =
    MsgErrno string                \<comment> \<open>\<^verbatim>\<open>QueueErrno\<close>: an error with the text of errno\<close>
  | MsgInUse
  | MsgFull nat nat nat            \<comment> \<open>record length, size, limit\<close>
  | MsgStale nat nat               \<comment> \<open>commit offset, file size\<close>
  | MsgNotBoundary nat
  | MsgDamagedCommit
  | MsgNoMemory nat
  | MsgQuarantined nat nat         \<comment> \<open>offset, number of bytes\<close>
  | MsgInfo string

text \<open>Where the messages go if the application gave no function for them.\<close>

datatype LogTarget = LOG_DEFAULT | LOG_STDOUT | LOG_STDERR | LOG_NONE

record wal =
  Disk :: disk
  m_fd :: bool                     \<comment> \<open>the file is open (and locked)\<close>
  m_bSync :: bool
  m_LogLevel :: nat
  m_MaxSize :: nat
  m_bFullLogged :: bool
  m_PendingReplay :: bool
  m_bCommitChecked :: bool
  m_bReplaying :: bool
  m_bPeeked :: bool
  m_PeekOffset :: nat
  m_PeekLen :: nat
  m_PeekEpoch :: nat
  m_PositionEpoch :: nat
  m_LogQueue :: "wal_message list"
  m_LogTarget :: LogTarget
  m_LogFunction :: bool            \<comment> \<open>the application gave a function for the messages\<close>

definition SimpleWAL :: "disk \<Rightarrow> wal" where
  "SimpleWAL d = \<lparr>Disk = d, m_fd = False, m_bSync = False, m_LogLevel = 0, m_MaxSize = 0, m_bFullLogged = False,
     m_PendingReplay = False, m_bCommitChecked = False, m_bReplaying = False, m_bPeeked = False, m_PeekOffset = 0,
     m_PeekLen = 0, m_PeekEpoch = 0, m_PositionEpoch = 0, m_LogQueue = [], m_LogTarget = LOG_DEFAULT, m_LogFunction = False\<rparr>"

text \<open>A call on the disk of the object.\<close>

definition on_disk :: "(disk \<Rightarrow> 'r \<times> disk) \<Rightarrow> wal \<Rightarrow> 'r \<times> wal" where
  "on_disk f s = (case f (Disk s) of (r, d) \<Rightarrow> (r, s\<lparr>Disk := d\<rparr>))"

definition QueueLine :: "wal_message \<Rightarrow> wal \<Rightarrow> wal" where
  "QueueLine m s = s\<lparr>m_LogQueue := m_LogQueue s @ [m]\<rparr>"

definition QueueInfo :: "string \<Rightarrow> wal \<Rightarrow> wal" where
  "QueueInfo t s = (if m_LogLevel s > 0 then QueueLine (MsgInfo t) s else s)"

text \<open>Releasing the mutex gives the messages out, and the queue is empty afterwards. The first argument is the target for
  all objects which have none of their own.\<close>

definition GetEffectiveTarget :: "LogTarget \<Rightarrow> wal \<Rightarrow> LogTarget" where
  "GetEffectiveTarget default_target s = (if m_LogTarget s \<noteq> LOG_DEFAULT then m_LogTarget s else default_target)"

datatype emitted = ToFunction wal_message | ToStdout wal_message | ToStderr wal_message

definition EmitMessages :: "bool \<Rightarrow> LogTarget \<Rightarrow> wal_message list \<Rightarrow> emitted list" where
  "EmitMessages function target messages =
     concat (map (\<lambda>m. if function then [ToFunction m]
                       else if target = LOG_STDOUT then [ToStdout m]
                       else if target = LOG_STDERR then [ToStderr m] else []) messages)"

definition Unlock :: "LogTarget \<Rightarrow> wal \<Rightarrow> emitted list \<times> wal" where
  "Unlock default_target s =
     (EmitMessages (m_LogFunction s) (GetEffectiveTarget default_target s) (m_LogQueue s), s\<lparr>m_LogQueue := []\<rparr>)"

section \<open>Settings\<close>

definition SetSync :: "bool \<Rightarrow> wal \<Rightarrow> wal" where
  "SetSync b s = s\<lparr>m_bSync := b\<rparr>"

definition GetSync :: "wal \<Rightarrow> bool" where
  "GetSync s = m_bSync s"

definition SetLogTarget :: "LogTarget \<Rightarrow> wal \<Rightarrow> wal" where
  "SetLogTarget t s = s\<lparr>m_LogTarget := t\<rparr>"

definition SetLogFunction :: "bool \<Rightarrow> wal \<Rightarrow> wal" where
  "SetLogFunction b s = s\<lparr>m_LogFunction := b\<rparr>"

definition LogMessage :: "string option \<Rightarrow> wal \<Rightarrow> wal" where
  "LogMessage m s = (case m of None \<Rightarrow> s | Some t \<Rightarrow> QueueInfo t s)"

definition SetLogLevel :: "nat \<Rightarrow> wal \<Rightarrow> wal" where
  "SetLogLevel n s = s\<lparr>m_LogLevel := n\<rparr>"

definition SetMaxSize :: "nat \<Rightarrow> wal \<Rightarrow> wal" where
  "SetMaxSize n s = s\<lparr>m_MaxSize := n, m_bFullLogged := False\<rparr>"

text \<open>\<^verbatim>\<open>GetFileSize (m_fd)\<close>: 0 without a descriptor.\<close>

definition GetFileSize :: "wal \<Rightarrow> nat option \<times> wal" where
  "GetFileSize s = (if m_fd s then on_disk (sys_size WAL_FILE) s else (Some 0, s))"

definition GetSize :: "wal \<Rightarrow> nat \<times> wal" where
  "GetSize s = (case GetFileSize s of (None, s') \<Rightarrow> (0, s') | (Some n, s') \<Rightarrow> (n, s'))"

section \<open>Opening and closing\<close>

text \<open>The lock of the file is taken with the outcome of the script: a call which fails with \<open>EWOULDBLOCK\<close> says that
  another object has it.\<close>

definition Init :: "wal \<Rightarrow> bool \<times> wal" where
  "Init s0 =
     (let s = s0\<lparr>m_fd := False, m_bCommitChecked := False, m_PendingReplay := False, m_bPeeked := False,
                 m_bFullLogged := False\<rparr>
      in case on_disk (open_append WAL_FILE) s of
           (False, s1) \<Rightarrow> (False, QueueLine (MsgErrno ''open wal failed'') s1)
         | (True, s1) \<Rightarrow>
             (case on_disk call s1 of
                (lock, s2) \<Rightarrow>
                  if lock = Some EWOULDBLOCK then (False, QueueLine MsgInUse s2)
                  else
                    let s3 = (if lock = None then s2
                              else QueueLine (MsgErrno ''Cannot lock the WAL file. It is used without a lock'') s2)
                    in case on_disk call s3 of
                         (chm, s4) \<Rightarrow>
                           let s5 = (if chm = None then s4
                                     else QueueInfo ''Cannot restrict the permissions of the WAL file'' s4)
                           in case on_disk (sys_size WAL_FILE) s5 of
                                (None, s6) \<Rightarrow> (True, s6\<lparr>m_fd := True, m_PendingReplay := False\<rparr>)
                              | (Some n, s6) \<Rightarrow> (True, s6\<lparr>m_fd := True, m_PendingReplay := n > 0\<rparr>)))"

text \<open>The destructor: an empty WAL leaves no files behind.\<close>

definition Close :: "wal \<Rightarrow> wal" where
  "Close s =
     (if \<not> m_fd s then s
      else case GetFileSize s of
             (sz, s1) \<Rightarrow>
               let s2 = s1\<lparr>m_PendingReplay := False, m_fd := False\<rparr>
               in if sz = None \<or> sz = Some 0
                  then snd (on_disk (sys_unlink COMMIT_FILE) (snd (on_disk (sys_unlink WAL_FILE) s2)))
                  else s2)"

definition IsReplayPending :: "wal \<Rightarrow> bool" where
  "IsReplayPending s = m_PendingReplay s"

section \<open>Writing\<close>

definition WriteAll :: "bytes \<Rightarrow> wal \<Rightarrow> bool \<times> wal" where
  "WriteAll bs s =
     (if \<not> m_fd s then (False, s)
      else case on_disk (WriteAllToFd WAL_FILE bs) s of
             (True, s') \<Rightarrow> (True, s')
           | (False, s') \<Rightarrow> (False, QueueLine (MsgErrno ''Cannot write to WAL'') s'))"

definition WriteRecord :: "bytes \<Rightarrow> wal \<Rightarrow> bool \<times> wal" where
  "WriteRecord Data s =
     (case WriteAll (le_bytes 4 (length Data)) s of
        (False, s') \<Rightarrow> (False, s')
      | (True, s') \<Rightarrow> WriteAll Data s')"

definition Append :: "bytes \<Rightarrow> wal \<Rightarrow> bool \<times> wal" where
  "Append Data s =
     (if Data = [] then (True, s)
      else if \<not> m_fd s then (False, s)
      else case on_disk (sys_size WAL_FILE) s of
        (None, s1) \<Rightarrow> (False, QueueLine (MsgErrno ''Cannot get the end of the WAL'') s1)
      | (Some Start, s1) \<Rightarrow>
          if m_MaxSize s1 > 0 \<and> Start + 4 + length Data > m_MaxSize s1 then
            (False, if m_bFullLogged s1 then s1
                    else QueueLine (MsgFull (length Data) Start (m_MaxSize s1)) (s1\<lparr>m_bFullLogged := True\<rparr>))
          else
            (case WriteRecord Data s1 of
               (False, s2) \<Rightarrow>
                 (case on_disk (sys_ftruncate WAL_FILE Start) s2 of
                    (True, s3) \<Rightarrow> (False, s3)
                  | (False, s3) \<Rightarrow> (False, QueueLine (MsgErrno ''Cannot remove the partial WAL record'') s3))
             | (True, s2) \<Rightarrow>
                 (let s3 = (if m_bSync s2 then snd (on_disk call s2) else s2)
                  in (True, s3\<lparr>m_bFullLogged := False, m_PendingReplay := True\<rparr>))))"

section \<open>Emptying, and the position\<close>

definition ClearInternal :: "wal \<Rightarrow> bool \<times> wal" where
  "ClearInternal s =
     (if \<not> m_fd s then (True, s)
      else case on_disk (sys_unlink COMMIT_FILE) s of
        (err, s1) \<Rightarrow>
          if err \<noteq> None \<and> err \<noteq> Some ENOENT then (False, QueueLine (MsgErrno ''Cannot remove the commit file'') s1)
          else case on_disk (sys_ftruncate WAL_FILE 0) s1 of
            (False, s2) \<Rightarrow> (False, QueueLine (MsgErrno ''file truncate failed'') s2)
          | (True, s2) \<Rightarrow>
              (case on_disk call s2 of
                 (Some e, s3) \<Rightarrow> (False, QueueLine (MsgErrno ''file seek failed'') s3)
               | (None, s3) \<Rightarrow>
                   (True, QueueInfo ''WAL reset''
                      (s3\<lparr>m_PendingReplay := False, m_bFullLogged := False, m_bPeeked := False,
                          m_PositionEpoch := m_PositionEpoch s3 + 1\<rparr>))))"

definition Clear :: "wal \<Rightarrow> bool \<times> wal" where
  "Clear s = ClearInternal s"

definition LoadCommit :: "wal \<Rightarrow> nat \<times> wal" where
  "LoadCommit s =
     (case on_disk (open_read COMMIT_FILE) s of
        (False, s1) \<Rightarrow> (0, s1)
      | (True, s1) \<Rightarrow>
          (case on_disk (sys_size COMMIT_FILE) s1 of
             (sz, s2) \<Rightarrow>
               if sz \<noteq> Some 8 then (0, QueueLine MsgDamagedCommit s2)
               else case on_disk (sys_pread COMMIT_FILE 8 0) s2 of
                 (None, s3) \<Rightarrow> (0, QueueLine MsgDamagedCommit s3)
               | (Some bs, s3) \<Rightarrow>
                   if length bs = 8 then (le_value bs, s3) else (0, QueueLine MsgDamagedCommit s3)))"

definition StoreCommit :: "nat \<Rightarrow> wal \<Rightarrow> bool \<times> wal" where
  "StoreCommit Offset s =
     (case on_disk (open_trunc COMMIT_FILE) s of
        (False, s1) \<Rightarrow> (False, QueueLine (MsgErrno ''open commit failed'') s1)
      | (True, s1) \<Rightarrow>
          (case on_disk call (s1\<lparr>m_PositionEpoch := m_PositionEpoch s1 + 1\<rparr>) of
             (chm, s2) \<Rightarrow>
               let s3 = (if chm = None then s2
                         else QueueInfo ''Cannot restrict the permissions of the commit file'' s2)
               in case on_disk (WriteAllToFd COMMIT_FILE (le_bytes 8 Offset)) s3 of
                    (bWritten, s4) \<Rightarrow>
                      let s5 = (if bWritten then s4 else QueueLine (MsgErrno ''Cannot write the commit file'') s4);
                          s6 = (if m_bSync s5 then snd (on_disk call s5) else s5)
                      in (bWritten, s6)))"

section \<open>Reading\<close>

text \<open>Follows the records from the start, and reads only their lengths. A length is not zero, so the position grows.\<close>

function IsRecordBoundary_from :: "nat \<Rightarrow> nat \<Rightarrow> nat \<Rightarrow> wal \<Rightarrow> bool \<times> wal" where
  "IsRecordBoundary_from Pos Offset FileSize s =
     (if Pos < Offset then
        (case on_disk (sys_pread WAL_FILE 4 Pos) s of
           (None, s1) \<Rightarrow> (False, s1)
         | (Some bs, s1) \<Rightarrow>
             if length bs \<noteq> 4 then (False, s1)
             else if le_value bs = 0 \<or> le_value bs > FileSize - Pos - 4 then (False, s1)
             else IsRecordBoundary_from (Pos + 4 + le_value bs) Offset FileSize s1)
      else (Pos = Offset, s))"
  by pat_completeness auto
termination
  by (relation "measure (\<lambda>(Pos, Offset, FileSize, s). Offset - Pos)") auto

declare IsRecordBoundary_from.simps [simp del]

definition IsRecordBoundary :: "nat \<Rightarrow> nat \<Rightarrow> wal \<Rightarrow> bool \<times> wal" where
  "IsRecordBoundary Offset FileSize s = IsRecordBoundary_from 0 Offset FileSize s"

definition GetReplayPosition :: "nat \<Rightarrow> wal \<Rightarrow> nat \<times> wal" where
  "GetReplayPosition FileSize s =
     (case LoadCommit s of
        (Offset0, s0) \<Rightarrow>
          (case (if Offset0 > FileSize then (0, QueueLine (MsgStale Offset0 FileSize) s0) else (Offset0, s0)) of
             (Offset, s1) \<Rightarrow>
               if m_bCommitChecked s1 then (Offset, s1)
               else if Offset > 0 \<and> Offset < FileSize then
                 (case IsRecordBoundary Offset FileSize s1 of
                    (True, s2) \<Rightarrow> (Offset, s2\<lparr>m_bCommitChecked := True\<rparr>)
                  | (False, s2) \<Rightarrow> (0, (QueueLine (MsgNotBoundary Offset) s2)\<lparr>m_bCommitChecked := True\<rparr>))
               else (Offset, s1\<lparr>m_bCommitChecked := True\<rparr>)))"

text \<open>Copies the bytes \<open>Pos\<close> to \<open>To\<close> to the file for unreadable data, 64 KB at a time.\<close>

function CopyTail :: "nat \<Rightarrow> nat \<Rightarrow> disk \<Rightarrow> bool \<times> disk" where
  "CopyTail Pos To d =
     (if Pos < To then
        (case sys_pread WAL_FILE (min 65536 (To - Pos)) Pos d of
           (None, d1) \<Rightarrow> (False, d1)
         | (Some bs, d1) \<Rightarrow>
             if bs = [] then (False, d1)
             else case WriteAllToFd CORRUPT_FILE bs d1 of
               (False, d2) \<Rightarrow> (False, d2)
             | (True, d2) \<Rightarrow> CopyTail (Pos + length bs) To d2)
      else (True, d))"
  by pat_completeness auto
termination
  by (relation "measure (\<lambda>(Pos, To, d). To - Pos)") (auto simp: neq_Nil_conv)

declare CopyTail.simps [simp del]

definition QuarantineTail :: "nat \<Rightarrow> nat \<Rightarrow> wal \<Rightarrow> bool \<times> wal" where
  "QuarantineTail From To s =
     (case on_disk (open_append CORRUPT_FILE) s of
        (False, s1) \<Rightarrow> (False, QueueLine (MsgErrno ''Cannot open the file for unreadable WAL data'') s1)
      | (True, s1) \<Rightarrow>
          (case on_disk (CopyTail From To) s1 of
             (False, s2) \<Rightarrow> (False, QueueLine (MsgErrno ''Cannot copy unreadable WAL data'') s2)
           | (True, s2) \<Rightarrow> (True, QueueLine (MsgQuarantined From (To - From)) s2)))"

text \<open>The values of \<^verbatim>\<open>ReadResult\<close>, with the record, or with the result of emptying the WAL.\<close>

datatype ReadResult = READ_RECORD bytes | READ_EMPTY bool | READ_DAMAGED bool | READ_CHANGED | READ_STOP

definition ReadRecord :: "nat \<Rightarrow> wal \<Rightarrow> ReadResult \<times> wal" where
  "ReadRecord Offset s =
     (case on_disk (sys_size WAL_FILE) s of
        (None, s1) \<Rightarrow> (READ_STOP, QueueLine (MsgErrno ''Cannot get the size of the WAL'') s1)
      | (Some FileSize, s1) \<Rightarrow>
          if Offset > FileSize then (READ_CHANGED, s1)
          else if FileSize - Offset = 0 then
            (case ClearInternal s1 of (ok, s2) \<Rightarrow> (READ_EMPTY ok, s2))
          else case on_disk (sys_pread WAL_FILE 4 Offset) s1 of
            (None, s2) \<Rightarrow> (READ_STOP, QueueLine (MsgErrno ''Cannot read the WAL'') s2)
          | (Some bs, s2) \<Rightarrow>
              if length bs \<noteq> 4 \<or> le_value bs = 0 \<or> le_value bs > (FileSize - Offset) - 4 then
                (case QuarantineTail Offset FileSize s2 of
                   (True, s3) \<Rightarrow> (case ClearInternal s3 of (ok, s4) \<Rightarrow> (READ_DAMAGED ok, s4))
                 | (False, s3) \<Rightarrow> (READ_STOP, s3))
              else case on_disk call s2 of
                (Some e, s3) \<Rightarrow> (READ_STOP, QueueLine (MsgNoMemory (le_value bs)) s3)
              | (None, s3) \<Rightarrow>
                  (case on_disk (sys_pread WAL_FILE (le_value bs) (Offset + 4)) s3 of
                     (None, s4) \<Rightarrow> (READ_STOP, s4)
                   | (Some Record, s4) \<Rightarrow>
                       if length Record = le_value bs then (READ_RECORD Record, s4) else (READ_STOP, s4)))"

section \<open>Peek and Ack\<close>

definition Peek :: "wal \<Rightarrow> bytes option \<times> wal" where
  "Peek s0 =
     (let s = s0\<lparr>m_bPeeked := False\<rparr>
      in if \<not> m_fd s \<or> m_bReplaying s \<or> \<not> m_PendingReplay s then (None, s)
         else case on_disk (open_read WAL_FILE) s of
           (False, s1) \<Rightarrow> (None, QueueLine (MsgErrno ''Cannot open the WAL for reading'') s1)
         | (True, s1) \<Rightarrow>
             (case on_disk (sys_size WAL_FILE) s1 of
                (None, s2) \<Rightarrow> (None, QueueLine (MsgErrno ''Cannot get the size of the WAL'') s2)
              | (Some FileSize, s2) \<Rightarrow>
                  (case GetReplayPosition FileSize s2 of
                     (Offset, s3) \<Rightarrow>
                       (case ReadRecord Offset s3 of
                          (READ_RECORD Record, s4) \<Rightarrow>
                            (Some Record, s4\<lparr>m_bPeeked := True, m_PeekOffset := Offset,
                                             m_PeekLen := length Record, m_PeekEpoch := m_PositionEpoch s4\<rparr>)
                        | (_, s4) \<Rightarrow> (None, s4)))))"

definition Ack :: "wal \<Rightarrow> bool \<times> wal" where
  "Ack s0 =
     (if \<not> m_bPeeked s0 then (False, s0)
      else
        let s = s0\<lparr>m_bPeeked := False\<rparr>
        in if \<not> m_fd s \<or> m_bReplaying s \<or> m_PeekEpoch s \<noteq> m_PositionEpoch s then (False, s)
           else case GetFileSize s of
             (None, s1) \<Rightarrow> (False, s1)
           | (Some FileSize, s1) \<Rightarrow>
               (let Next = m_PeekOffset s1 + 4 + m_PeekLen s1
                in if Next > FileSize then (False, s1)
                   else if Next = FileSize then ClearInternal s1
                   else StoreCommit Next s1))"

section \<open>Replay\<close>

text \<open>The start: this thread takes the place of the one which replays, and finds the position. \<open>None\<close>: nothing is
  done, and the place is free again.\<close>

definition ReplayBegin :: "wal \<Rightarrow> nat option \<times> wal" where
  "ReplayBegin s =
     (if m_bReplaying s then (None, s)
      else case on_disk (open_read WAL_FILE) (s\<lparr>m_bReplaying := True\<rparr>) of
        (False, s1) \<Rightarrow> (None, s1\<lparr>m_bReplaying := False\<rparr>)
      | (True, s1) \<Rightarrow>
          (case on_disk (sys_size WAL_FILE) s1 of
             (None, s2) \<Rightarrow>
               (None, (QueueLine (MsgErrno ''Cannot get the size of the WAL'') s2)\<lparr>m_bReplaying := False\<rparr>)
           | (Some FileSize, s2) \<Rightarrow>
               (case GetReplayPosition FileSize s2 of (Offset, s3) \<Rightarrow> (Some Offset, s3))))"

text \<open>How the loop ended: \<open>bCleared\<close> with \<open>bClearOk\<close>, \<open>bChanged\<close>, a stop, or an exception of the function.\<close>

datatype replay_end = LoopCleared bool | LoopChanged | LoopStopped | LoopThrew

definition ReplayEnd :: "replay_end \<Rightarrow> nat \<Rightarrow> bool \<Rightarrow> wal \<Rightarrow> bool option \<times> wal" where
  "ReplayEnd how NewOffset bDidReplay s0 =
     (let s = s0\<lparr>m_bReplaying := False\<rparr>
      in case how of
           LoopThrew \<Rightarrow> (None, s)
         | LoopCleared ok \<Rightarrow> (Some ok, s)
         | LoopChanged \<Rightarrow> (Some False, s)
         | LoopStopped \<Rightarrow>
             if bDidReplay then (case StoreCommit NewOffset s of (ok, s') \<Rightarrow> (Some ok, s'))
             else (Some False, s))"

text \<open>The function of the application gets a record. It accepts it, refuses it or throws, and it can use the WAL
  (and other threads can, while it runs): it changes the state of the WAL and its own.\<close>

datatype consumed = Accepted | Refused | Threw

type_synonym 'c consumer = "bytes \<Rightarrow> wal \<times> 'c \<Rightarrow> consumed \<times> wal \<times> 'c"

text \<open>The loop. It only ends when nothing is left or the function stops it: with a function which always appends a
  record it runs forever. The first argument is the largest number of turns; \<open>None\<close>: they were not enough.\<close>

fun ReplayLoop :: "nat \<Rightarrow> 'c consumer \<Rightarrow> nat \<Rightarrow> bool \<Rightarrow> wal \<times> 'c
    \<Rightarrow> (replay_end \<times> nat \<times> bool \<times> wal \<times> 'c) option" where
  "ReplayLoop 0 Consume NewOffset bDid sc = None"
| "ReplayLoop (Suc fuel) Consume NewOffset bDid (s, c) =
     (case ReadRecord NewOffset s of
        (READ_RECORD Record, s1) \<Rightarrow>
          (case Consume Record (s1, c) of
             (Accepted, sc) \<Rightarrow> ReplayLoop fuel Consume (NewOffset + 4 + length Record) True sc
           | (Refused, s2, c2) \<Rightarrow> Some (LoopStopped, NewOffset, bDid, s2, c2)
           | (Threw, s2, c2) \<Rightarrow> Some (LoopThrew, NewOffset, bDid, s2, c2))
      | (READ_EMPTY ok, s1) \<Rightarrow> Some (LoopCleared ok, NewOffset, bDid, s1, c)
      | (READ_DAMAGED ok, s1) \<Rightarrow> Some (LoopCleared ok, NewOffset, bDid, s1, c)
      | (READ_CHANGED, s1) \<Rightarrow> Some (LoopChanged, NewOffset, bDid, s1, c)
      | (READ_STOP, s1) \<Rightarrow> Some (LoopStopped, NewOffset, bDid, s1, c))"

text \<open>The result of a replay: \<open>Some b\<close> is the value it returns, \<open>None\<close> the exception of the function. The outer
  option is the fuel.\<close>

definition Replay :: "nat \<Rightarrow> 'c consumer \<Rightarrow> wal \<times> 'c \<Rightarrow> (bool option \<times> wal \<times> 'c) option" where
  "Replay fuel Consume = (\<lambda>(s, c).
     (case ReplayBegin s of
        (None, s1) \<Rightarrow> Some (Some False, s1, c)
      | (Some NewOffset, s1) \<Rightarrow>
          (case ReplayLoop fuel Consume NewOffset False (s1, c) of
             None \<Rightarrow> None
           | Some (how, Offset, bDid, s2, c2) \<Rightarrow>
               (case ReplayEnd how Offset bDid s2 of (r, s3) \<Rightarrow> Some (r, s3, c2)))))"

end
