(* ===== verification/WalFormat.thy ===== *)
theory WalFormat imports Wal begin

text \<open>
  The abstract view of a WAL file: the list of its records. \<open>frame\<close> is what \<open>Append\<close> writes for one record,
  \<open>records\<close> reads a file from a position the way \<open>ReadRecord\<close> does, and \<open>boundary\<close> says where records start.
\<close>

section \<open>Records and files\<close>

definition frame :: "bytes \<Rightarrow> bytes" where
  "frame r = le_bytes 4 (length r) @ r"

definition frames :: "bytes list \<Rightarrow> bytes" where
  "frames rs = concat (map frame rs)"

definition valid_record :: "bytes \<Rightarrow> bool" where
  "valid_record r \<longleftrightarrow> 0 < length r \<and> length r < 2 ^ 32"

abbreviation valid_records :: "bytes list \<Rightarrow> bool" where
  "valid_records rs \<equiv> list_all valid_record rs"

text \<open>The first record of the rest of a file, if it is complete.\<close>

definition first_record :: "bytes \<Rightarrow> bytes option" where
  "first_record bs =
     (if length bs < 4 then None
      else let n = le_value (take 4 bs)
           in if n = 0 \<or> n > length bs - 4 then None else Some (take n (drop 4 bs)))"

function records :: "bytes \<Rightarrow> bytes list" where
  "records bs = (case first_record bs of None \<Rightarrow> [] | Some r \<Rightarrow> r # records (drop (4 + length r) bs))"
  by pat_completeness auto
termination
  by (relation "measure length") (auto simp: first_record_def Let_def split: if_splits)

declare records.simps [simp del]

lemma length_frame [simp]: "length (frame r) = 4 + length r"
  by (simp add: frame_def)

lemma frames_Nil [simp]: "frames [] = []"
  by (simp add: frames_def)

lemma frames_Cons [simp]: "frames (r # rs) = frame r @ frames rs"
  by (simp add: frames_def)

lemma frames_append [simp]: "frames (rs @ qs) = frames rs @ frames qs"
  by (simp add: frames_def)

lemma frame_not_Nil [simp]: "frame r \<noteq> []"
  by (metis length_frame add_eq_0_iff_both_eq_0 length_0_conv zero_neq_numeral)

lemma frames_eq_Nil [simp]: "frames rs = [] \<longleftrightarrow> rs = []"
  by (cases rs) auto

lemma le_value_frame:
  "length r < 2 ^ 32 \<Longrightarrow> le_value (take 4 (frame r @ bs)) = length r"
  by (simp add: frame_def)

lemma first_record_frame [simp]:
  "valid_record r \<Longrightarrow> first_record (frame r @ bs) = Some r"
  by (simp add: first_record_def Let_def le_value_frame valid_record_def) (simp add: frame_def)

lemma first_record_Nil [simp]: "first_record [] = None"
  by (simp add: first_record_def)

lemma first_record_valid: "first_record bs = Some r \<Longrightarrow> valid_record r"
  using le_value_bound [of "take 4 bs"]
  by (auto simp: first_record_def Let_def valid_record_def split: if_splits)

lemma first_record_frame_of:
  assumes "first_record bs = Some r"
  shows "bs = frame r @ drop (4 + length r) bs"
proof -
  let ?n = "le_value (take 4 bs)"
  from assms have r: "r = take ?n (drop 4 bs)" and len: "length r = ?n" and l4: "4 \<le> length bs"
    by (auto simp: first_record_def Let_def split: if_splits)
  have "le_bytes 4 ?n = take 4 bs"
    using le_bytes_le_value [of "take 4 bs"] l4 by simp
  then have "frame r = take (4 + length r) bs"
    using r len by (simp add: frame_def take_add)
  then show ?thesis
    by simp
qed

lemma records_frames_append:
  "valid_records rs \<Longrightarrow> records (frames rs @ bs) = rs @ records bs"
  by (induction rs) (simp_all add: records.simps [of "frame _ @ _"])

lemma records_Nil [simp]: "records [] = []"
  by (simp add: records.simps)

text \<open>Reading a file gives back the records which were written to it.\<close>

lemma records_frames: "valid_records rs \<Longrightarrow> records (frames rs) = rs"
  using records_frames_append [of rs "[]"] by simp

text \<open>Every file is its records and a rest which is not a record.\<close>

lemma records_decompose:
  "\<exists>rest. bs = frames (records bs) @ rest \<and> first_record rest = None \<and> valid_records (records bs)"
proof (induction bs rule: records.induct)
  case (1 bs)
  show ?case
  proof (cases "first_record bs")
    case None
    then show ?thesis
      by (simp add: records.simps [of bs])
  next
    case (Some r)
    from "1" [OF Some] obtain rest where
      rest: "drop (4 + length r) bs = frames (records (drop (4 + length r) bs)) @ rest"
      "first_record rest = None" "valid_records (records (drop (4 + length r) bs))"
      by blast
    with Some first_record_frame_of [OF Some] first_record_valid [OF Some] show ?thesis
      by (intro exI [of _ rest]) (simp add: records.simps [of bs])
  qed
qed

section \<open>Positions\<close>

text \<open>The positions at which a record of the file starts, and the end of the last one.\<close>

definition boundary :: "nat \<Rightarrow> bytes \<Rightarrow> bool" where
  "boundary pos bs \<longleftrightarrow> (\<exists>k \<le> length (records bs). pos = length (frames (take k (records bs))))"

lemma boundary_frames:
  assumes "valid_records (done @ rs)"
  shows "boundary (length (frames done)) (frames (done @ rs) @ rest)"
  unfolding boundary_def
  by (rule exI [of _ "length done"]) (use assms in \<open>simp add: records_frames_append flip: append_assoc frames_append\<close>)

lemma records_drop_boundary:
  assumes "k \<le> length (records bs)"
  shows "records (drop (length (frames (take k (records bs)))) bs) = drop k (records bs)"
proof -
  obtain rest where r: "bs = frames (records bs) @ rest" "first_record rest = None" "valid_records (records bs)"
    using records_decompose by blast
  have "bs = frames (take k (records bs)) @ frames (drop k (records bs)) @ rest"
    using r(1) by (metis append.assoc append_take_drop_id frames_append)
  then have "drop (length (frames (take k (records bs)))) bs = frames (drop k (records bs)) @ rest"
    by (metis append_eq_conv_conj)
  moreover have "valid_records (drop k (records bs))"
    using r(3) by (metis append_take_drop_id list_all_append)
  moreover have "records rest = []"
    using r(2) by (simp add: records.simps)
  ultimately show ?thesis
    by (simp add: records_frames_append)
qed

text \<open>A file which grows keeps its records.\<close>

lemma records_grow: "\<exists>new. records (bs @ x) = records bs @ new"
proof -
  obtain rest where r: "bs = frames (records bs) @ rest" "valid_records (records bs)"
    using records_decompose by blast
  have "records (bs @ x) = records (frames (records bs) @ (rest @ x))"
    using r(1) by (metis append.assoc)
  then show ?thesis
    using r(2) by (simp add: records_frames_append)
qed

end
