(* ===== verification/WalSafety.thy ===== *)
theory WalSafety imports WalFormat begin

text \<open>
  What the WAL guarantees whatever its disk does: every theorem here is for an arbitrary script of failures, so
  also for a crash at any point. \<open>recovered\<close> is what a new object would deliver from the files as they are;
  \<open>crash_inv d done rs rest\<close> says that the records \<open>done\<close> were accepted, \<open>rs\<close> were not, and \<open>rest\<close> is a piece which
  is not a record. The operations never move the saved position past a record which was not accepted.
\<close>

section \<open>The saved position\<close>

definition commit_value :: "disk \<Rightarrow> nat" where
  "commit_value d = (case Files d COMMIT_FILE of
       None \<Rightarrow> 0
     | Some c \<Rightarrow> if length c = 8 then le_value c else 0)"

definition boundaries :: "bytes \<Rightarrow> nat list" where
  "boundaries bs = map (\<lambda>k. length (frames (take k (records bs)))) [0 ..< Suc (length (records bs))]"

lemma boundaries_iff: "pos \<in> set (boundaries bs) \<longleftrightarrow> boundary pos bs"
  unfolding boundaries_def boundary_def set_map set_upt
  by (auto simp: less_Suc_eq_le simp del: take_all_iff)

text \<open>The position at which a new object starts to read, and what it reads from there.\<close>

definition start_position :: "disk \<Rightarrow> nat" where
  "start_position d =
     (let c = commit_value d; f = contents WAL_FILE d
      in if c = length f then c else if c < length f \<and> c \<in> set (boundaries f) then c else 0)"

definition recovered :: "disk \<Rightarrow> bytes list" where
  "recovered d = records (drop (start_position d) (contents WAL_FILE d))"

definition crash_inv :: "disk \<Rightarrow> bytes list \<Rightarrow> bytes list \<Rightarrow> bytes \<Rightarrow> bool" where
  "crash_inv d done rs rest \<longleftrightarrow>
     Files d WAL_FILE = Some (frames (done @ rs) @ rest) \<and> valid_records (done @ rs) \<and> first_record rest = None \<and>
     length (frames (done @ rs) @ rest) \<le> MAX_OFF \<and>
     (\<exists>k \<le> length done. commit_value d = length (frames (take k done)))"

lemma records_of_crash_inv:
  assumes "crash_inv d done rs rest"
  shows "records (contents WAL_FILE d) = done @ rs"
proof -
  have "records rest = []"
    using assms by (simp add: crash_inv_def records.simps)
  then show ?thesis
    using assms records_frames_append [of "done @ rs" rest] by (simp add: crash_inv_def)
qed

lemma start_of_crash_inv:
  assumes "crash_inv d done rs rest" and "k \<le> length done" and "commit_value d = length (frames (take k done))"
  shows "start_position d = commit_value d"
proof -
  have "commit_value d \<in> set (boundaries (contents WAL_FILE d))"
    unfolding boundaries_iff boundary_def records_of_crash_inv [OF assms(1)]
    using assms(2,3) by (intro exI [of _ k]) simp
  moreover have "commit_value d \<le> length (contents WAL_FILE d)"
  proof -
    have "length (frames (take k done)) + length (frames (drop k done)) = length (frames done)"
      by (metis append_take_drop_id frames_append length_append)
    then show ?thesis
      using assms by (simp add: crash_inv_def)
  qed
  ultimately show ?thesis
    by (auto simp: start_position_def Let_def)
qed

lemma recovered_at_commit:
  assumes "crash_inv d done rs rest" and "k \<le> length done" and "commit_value d = length (frames (take k done))"
  shows "recovered d = drop k done @ rs"
proof -
  have "start_position d = length (frames (take k (records (contents WAL_FILE d))))"
    using start_of_crash_inv [OF assms] assms(2,3) records_of_crash_inv [OF assms(1)] by simp
  then have "recovered d = drop k (records (contents WAL_FILE d))"
    unfolding recovered_def using records_drop_boundary [of k "contents WAL_FILE d"] assms(2)
      records_of_crash_inv [OF assms(1)] by simp
  then show ?thesis
    using assms(2) records_of_crash_inv [OF assms(1)] by simp
qed

text \<open>A new object delivers every record which was not accepted, in order, after at most some which were.\<close>

lemma recovered_crash_inv:
  assumes "crash_inv d done rs rest"
  shows "\<exists>k \<le> length done. recovered d = drop k done @ rs"
  using assms recovered_at_commit [OF assms] by (auto simp: crash_inv_def)

section \<open>What the private functions change\<close>

lemma on_disk_elim:
  assumes "on_disk f s = (r, s')"
  obtains d where "f (Disk s) = (r, d)" "s' = s\<lparr>Disk := d\<rparr>"
  using assms by (auto simp: on_disk_def split: prod.splits)

lemma on_disk_call_Files: "on_disk call s = (r, s') \<Longrightarrow> Files (Disk s') = Files (Disk s)"
  by (auto elim!: on_disk_elim dest: call_Files)

lemma on_disk_size: "on_disk (sys_size p) s = (r, s') \<Longrightarrow>
    Files (Disk s') = Files (Disk s) \<and> (\<forall>n. r = Some n \<longrightarrow> n = length (contents p (Disk s)))"
  by (auto elim!: on_disk_elim dest: sys_size_Files sys_size_SomeD)

lemma on_disk_pread_Files: "on_disk (sys_pread p n off) s = (r, s') \<Longrightarrow> Files (Disk s') = Files (Disk s)"
  by (auto elim!: on_disk_elim dest: sys_pread_Files)

text \<open>Two states which only differ in the script of the disk and in the messages.\<close>

definition quiet :: "wal \<Rightarrow> wal \<Rightarrow> bool" where
  "quiet s t \<longleftrightarrow> Files (Disk t) = Files (Disk s) \<and> m_fd t = m_fd s \<and> m_bSync t = m_bSync s \<and>
     m_LogLevel t = m_LogLevel s \<and> m_MaxSize t = m_MaxSize s \<and> m_bFullLogged t = m_bFullLogged s \<and>
     m_PendingReplay t = m_PendingReplay s \<and> m_bCommitChecked t = m_bCommitChecked s \<and>
     m_bReplaying t = m_bReplaying s \<and> m_bPeeked t = m_bPeeked s \<and> m_PeekOffset t = m_PeekOffset s \<and>
     m_PeekLen t = m_PeekLen s \<and> m_PeekEpoch t = m_PeekEpoch s \<and> m_PositionEpoch t = m_PositionEpoch s"

lemma quiet_refl [simp]: "quiet s s"
  by (simp add: quiet_def)

lemma quiet_trans [trans]: "quiet s t \<Longrightarrow> quiet t u \<Longrightarrow> quiet s u"
  by (simp add: quiet_def)

lemma quiet_on_disk:
  assumes "on_disk f s = (r, t)" and "\<And>d. Files (snd (f d)) = Files d"
  shows "quiet s t"
proof -
  from assms(1) obtain d where d: "f (Disk s) = (r, d)" "t = s\<lparr>Disk := d\<rparr>"
    by (rule on_disk_elim)
  with assms(2) [of "Disk s"] show ?thesis
    by (simp add: quiet_def)
qed

lemma quiet_QueueLine [simp]: "quiet s (QueueLine m s)"
  by (simp add: quiet_def QueueLine_def)

lemma quiet_QueueLine_iff [simp]: "quiet s (QueueLine m t) \<longleftrightarrow> quiet s t"
  by (simp add: quiet_def QueueLine_def)

lemma quiet_QueueInfo [simp]: "quiet s (QueueInfo m s)"
  by (simp add: QueueInfo_def)

lemma Files_snd [simp]:
  "Files (snd (call d)) = Files d" "Files (snd (sys_size p d)) = Files d"
  "Files (snd (sys_pread p n off d)) = Files d" "Files (snd (open_read p d)) = Files d"
proof -
  show 1: "Files (snd (call d)) = Files d"
    by (cases "call d") (simp add: call_Files)
  show "Files (snd (sys_size p d)) = Files d"
    by (cases "sys_size p d") (simp add: sys_size_Files)
  show "Files (snd (sys_pread p n off d)) = Files d"
    by (cases "sys_pread p n off d") (simp add: sys_pread_Files)
  show "Files (snd (open_read p d)) = Files d"
    using 1 by (cases "call d") (simp add: open_read_def split: option.splits)
qed

lemma quiet_calls:
  shows quiet_call: "on_disk call s = (r1, t) \<Longrightarrow> quiet s t"
    and quiet_size: "on_disk (sys_size p) s = (r2, t) \<Longrightarrow> quiet s t"
    and quiet_pread: "on_disk (sys_pread p n off) s = (r3, t) \<Longrightarrow> quiet s t"
    and quiet_open_read: "on_disk (open_read p) s = (r4, t) \<Longrightarrow> quiet s t"
  by (simp_all add: quiet_on_disk)

text \<open>\<open>LoadCommit\<close> returns the saved position, or 0.\<close>

lemma LoadCommit_any:
  assumes "LoadCommit s = (off, t)"
  shows "quiet s t \<and> (off = 0 \<or> off = commit_value (Disk s))"
proof (cases "on_disk (open_read COMMIT_FILE) s")
  case (Pair op s1)
  note q1 = quiet_open_read [OF Pair]
  show ?thesis
  proof (cases "op")
    case False
    with Pair assms q1 show ?thesis
      by (simp add: LoadCommit_def)
  next
    case True
    obtain sz s2 where s2: "on_disk (sys_size COMMIT_FILE) s1 = (sz, s2)"
      by force
    note q2 = quiet_trans [OF q1 quiet_size [OF s2]]
    obtain bs s3 where s3: "on_disk (sys_pread COMMIT_FILE 8 0) s2 = (bs, s3)"
      by force
    note q3 = quiet_trans [OF q2 quiet_pread [OF s3]]
    have ql: "quiet s (QueueLine m s2)" "quiet s (QueueLine m s3)" for m
      using q2 q3 quiet_QueueLine quiet_trans by blast+
    have len: "sz = Some n \<Longrightarrow> n = length (contents COMMIT_FILE (Disk s))" for n
      using on_disk_size [OF s2] q1 by (auto simp: quiet_def)
    have val: "bs = Some cs \<Longrightarrow> length cs = 8 \<Longrightarrow> sz = Some 8 \<Longrightarrow> le_value cs = commit_value (Disk s)" for cs
    proof -
      assume a: "bs = Some cs" "length cs = 8" "sz = Some 8"
      obtain d where "sys_pread COMMIT_FILE 8 0 (Disk s2) = (Some cs, d)"
        using s3 a(1) by (auto elim: on_disk_elim)
      from sys_pread_full [OF this a(2)] have "cs = take 8 (contents COMMIT_FILE (Disk s))"
        using q2 by (simp add: quiet_def)
      with len [OF a(3)] show ?thesis
        by (auto simp: commit_value_def split: option.splits)
    qed
    from True Pair assms s2 s3 q2 q3 ql val show ?thesis
      by (auto simp: LoadCommit_def split: if_splits option.splits)
  qed
qed

lemma IsRecordBoundary_any:
  "IsRecordBoundary_from Pos Offset FileSize s = (r, t) \<Longrightarrow> quiet s t"
proof (induction Pos Offset FileSize s arbitrary: r t rule: IsRecordBoundary_from.induct)
  case (1 Pos Offset FileSize s)
  obtain bs s1 where s1: "on_disk (sys_pread WAL_FILE 4 Pos) s = (bs, s1)"
    by force
  note q1 = quiet_pread [OF s1]
  show ?case
  proof (cases "Pos < Offset \<and> (\<exists>cs. bs = Some cs \<and> length cs = 4 \<and> \<not> (le_value cs = 0 \<or> le_value cs > FileSize - Pos - 4))")
    case True
    then obtain cs where cs: "Pos < Offset" "bs = Some cs" "length cs = 4"
      "\<not> (le_value cs = 0 \<or> le_value cs > FileSize - Pos - 4)"
      by blast
    with s1 "1.prems" have "IsRecordBoundary_from (Pos + 4 + le_value cs) Offset FileSize s1 = (r, t)"
      by (simp add: IsRecordBoundary_from.simps [of Pos Offset FileSize s])
    from "1.IH" [OF cs(1) s1 [symmetric] cs(2) _ cs(4) this] cs(3) have "quiet s1 t"
      by simp
    with q1 show ?thesis
      by (rule quiet_trans)
  next
    case False
    with s1 "1.prems" q1 show ?thesis
      by (auto simp: IsRecordBoundary_from.simps [of Pos Offset FileSize s] split: if_splits option.splits)
  qed
qed


section \<open>What the writing functions change\<close>

text \<open>The fields of the object which only the application sets, and the two which \<open>Replay\<close> needs.\<close>

definition kept :: "wal \<Rightarrow> wal \<Rightarrow> bool" where
  "kept s t \<longleftrightarrow> m_fd t = m_fd s \<and> m_bReplaying t = m_bReplaying s \<and> m_MaxSize t = m_MaxSize s \<and>
     m_bSync t = m_bSync s"

lemma quiet_kept: "quiet s t \<Longrightarrow> kept s t"
  by (simp add: quiet_def kept_def)

lemma kept_refl [simp]: "kept s s"
  by (simp add: kept_def)

lemma kept_trans [trans]: "kept s t \<Longrightarrow> kept t u \<Longrightarrow> kept s u"
  by (simp add: kept_def)

lemma kept_on_disk: "on_disk f s = (r, t) \<Longrightarrow> kept s t"
  by (auto simp: kept_def elim!: on_disk_elim)

lemma kept_QueueLine [simp]: "kept s (QueueLine m s)"
  by (simp add: quiet_kept)

lemma kept_QueueInfo [simp]: "kept s (QueueInfo m s)"
  by (simp add: quiet_kept)

lemma kept_QueueLine_iff [simp]: "kept s (QueueLine m t) \<longleftrightarrow> kept s t"
  by (simp add: kept_def QueueLine_def)

lemma kept_QueueInfo_iff [simp]: "kept s (QueueInfo m t) \<longleftrightarrow> kept s t"
  by (simp add: QueueInfo_def)

lemma Disk_QueueLine [simp]: "Disk (QueueLine m t) = Disk t"
  by (simp add: QueueLine_def)

lemma Disk_QueueInfo [simp]: "Disk (QueueInfo m t) = Disk t"
  by (simp add: QueueInfo_def)

text \<open>The three ways a WAL looks after it should be emptied: as before, without its position, or empty.\<close>

definition emptied :: "disk \<Rightarrow> bool \<Rightarrow> disk \<Rightarrow> bool" where
  "emptied d ok d' \<longleftrightarrow>
     Files d' CORRUPT_FILE = Files d CORRUPT_FILE \<and>
     (if ok then Files d' WAL_FILE = Some [] \<and> Files d' COMMIT_FILE = None
      else (Files d' WAL_FILE = Files d WAL_FILE \<or> Files d' WAL_FILE = Some [] \<and> Files d' COMMIT_FILE = None) \<and>
           (Files d' COMMIT_FILE = Files d COMMIT_FILE \<or> Files d' COMMIT_FILE = None))"

lemma sys_unlink_any:
  assumes "sys_unlink p d = (r, d')"
  shows "(\<forall>q. q \<noteq> p \<longrightarrow> Files d' q = Files d q) \<and>
     (Files d' p = Files d p \<or> Files d' p = None) \<and> (r = None \<or> r = Some ENOENT \<longrightarrow> Files d' p = None)"
proof (cases "call d")
  case (Pair e d1)
  note F = call_Files [OF Pair]
  show ?thesis
  proof (cases e)
    case None
    with assms Pair F show ?thesis
      by (cases "Files d p") (simp_all add: sys_unlink_def, clarsimp)
  next
    case (Some n)
    with assms Pair F show ?thesis
      by (cases "Files d p") (simp_all add: sys_unlink_def, clarsimp split: if_splits)
  qed
qed

lemma sys_ftruncate_any:
  "sys_ftruncate p n d = (r, d') \<Longrightarrow> (\<forall>q. q \<noteq> p \<longrightarrow> Files d' q = Files d q) \<and>
     (if r then Files d' p = Some (take n (contents p d)) else Files d' p = Files d p)"
  by (auto simp: sys_ftruncate_def split: prod.splits option.splits dest: call_Files)


lemma ClearInternal_any:
  assumes "ClearInternal s = (ok, t)" and "m_fd s"
  shows "kept s t \<and> emptied (Disk s) ok (Disk t)"
proof -
  obtain err s1 where u: "on_disk (sys_unlink COMMIT_FILE) s = (err, s1)" by force
  then obtain d1 where d1: "sys_unlink COMMIT_FILE (Disk s) = (err, d1)" "s1 = s\<lparr>Disk := d1\<rparr>"
    by (rule on_disk_elim)
  note U = sys_unlink_any [OF d1(1)]
  obtain tr s2 where f: "on_disk (sys_ftruncate WAL_FILE 0) s1 = (tr, s2)" by force
  then obtain d2 where d2: "sys_ftruncate WAL_FILE 0 (Disk s1) = (tr, d2)" "s2 = s1\<lparr>Disk := d2\<rparr>"
    by (rule on_disk_elim)
  note F = sys_ftruncate_any [OF d2(1)]
  obtain sk s3 where l: "on_disk call s2 = (sk, s3)" by force
  note L = quiet_call [OF l]
  have K: "kept s s1" "kept s s2" "kept s s3"
    using kept_on_disk [OF u] kept_on_disk [OF f] kept_on_disk [OF l] kept_trans by blast+
  show ?thesis
  proof (cases "err \<noteq> None \<and> err \<noteq> Some ENOENT")
    case True
    with u assms K U d1 show ?thesis
      by (auto simp: ClearInternal_def emptied_def)
  next
    case e: False
    then have C: "Files (Disk s1) COMMIT_FILE = None"
      using U d1 by auto
    show ?thesis
    proof (cases tr)
      case False
      with u f e assms K U d1 F d2 C show ?thesis
        by (auto simp: ClearInternal_def emptied_def)
    next
      case True
      have W: "Files (Disk s2) WAL_FILE = Some []" "Files (Disk s2) COMMIT_FILE = None"
        "Files (Disk s2) CORRUPT_FILE = Files (Disk s) CORRUPT_FILE"
        using F d2 U d1 C True by auto
      have S: "Files (Disk s3) = Files (Disk s2)"
        using L by (simp add: quiet_def)
      show ?thesis
      proof (cases sk)
        case None
        have ok: "ok = True" and t: "t = QueueInfo ''WAL reset'' (s3\<lparr>m_PendingReplay := False, m_bFullLogged := False,
            m_bPeeked := False, m_PositionEpoch := m_PositionEpoch s3 + 1\<rparr>)"
          using u f e True l assms None by (simp_all add: ClearInternal_def split: if_splits)
        have "kept s t"
          using K(3) unfolding t kept_QueueInfo_iff by (simp add: kept_def)
        moreover have "Files (Disk t) = Files (Disk s2)"
          using S unfolding t by simp
        ultimately show ?thesis
          using W ok by (simp add: emptied_def)
      next
        case (Some x)
        with u f e True l assms have "ok = False" and t: "t = QueueLine (MsgErrno ''file seek failed'') s3"
          by (auto simp: ClearInternal_def)
        with K(3) W S show ?thesis
          by (simp add: emptied_def)
      qed
    qed
  qed
qed

text \<open>The position which is saved: the new one, or none which counts, or the old one.\<close>

lemma StoreCommit_any:
  assumes "StoreCommit off s = (ok, t)"
  shows "kept s t \<and> (\<forall>p. p \<noteq> COMMIT_FILE \<longrightarrow> Files (Disk t) p = Files (Disk s) p) \<and>
    (commit_value (Disk t) \<in> {0, commit_value (Disk s), off mod 2 ^ 64}) \<and>
    (ok \<longrightarrow> commit_value (Disk t) = off mod 2 ^ 64)"
proof -
  obtain op s1 where o: "on_disk (open_trunc COMMIT_FILE) s = (op, s1)" by force
  then obtain d1 where d1: "open_trunc COMMIT_FILE (Disk s) = (op, d1)" "s1 = s\<lparr>Disk := d1\<rparr>"
    by (rule on_disk_elim)
  have O: "if op then Files d1 = (Files (Disk s))(COMMIT_FILE := Some []) else Files d1 = Files (Disk s)"
    using d1(1) by (auto simp: open_trunc_def split: prod.splits option.splits dest: call_Files)
  show ?thesis
  proof (cases op)
    case False
    with o O d1 assms show ?thesis
      by (auto simp: StoreCommit_def kept_def QueueLine_def commit_value_def)
  next
    case True
    define s1' where "s1' = s1\<lparr>m_PositionEpoch := m_PositionEpoch s1 + 1\<rparr>"
    obtain chm s2 where c: "on_disk call s1' = (chm, s2)" by force
    define s3 where "s3 = (if chm = None then s2
        else QueueInfo ''Cannot restrict the permissions of the commit file'' s2)"
    obtain w s4 where w: "on_disk (WriteAllToFd COMMIT_FILE (le_bytes 8 off)) s3 = (w, s4)" by force
    then obtain d4 where d4: "WriteAllToFd COMMIT_FILE (le_bytes 8 off) (Disk s3) = (w, d4)" "s4 = s3\<lparr>Disk := d4\<rparr>"
      by (rule on_disk_elim)
    have F3: "Files (Disk s3) = (Files (Disk s))(COMMIT_FILE := Some [])"
      using True O d1 quiet_call [OF c] by (simp add: quiet_def s3_def s1'_def)
    from WriteAllToFd_appends [OF d4(1)] F3 obtain n where n: "n \<le> 8"
      "contents COMMIT_FILE d4 = take n (le_bytes 8 off)" "w \<longrightarrow> n = 8" "Files d4 COMMIT_FILE \<noteq> None"
      "\<forall>q. q \<noteq> COMMIT_FILE \<longrightarrow> Files d4 q = Files (Disk s) q"
      by auto
    have V: "commit_value d4 \<in> {0, off mod 2 ^ 64}" "w \<longrightarrow> commit_value d4 = off mod 2 ^ 64"
      using n by (auto simp: commit_value_def)
    have t: "ok = w" "Files (Disk t) = Files d4" "kept s t"
    proof -
      define s5 where "s5 = (if w then s4 else QueueLine (MsgErrno ''Cannot write the commit file'') s4)"
      have t: "ok = w" "t = (if m_bSync s5 then snd (on_disk call s5) else s5)"
        using assms o True c w by (simp_all add: StoreCommit_def s1'_def s3_def s5_def Let_def split: if_splits)
      obtain y s6 where y: "on_disk call s5 = (y, s6)" by force
      have k1: "kept s s1" "kept s1' s2" "kept s3 s4"
        using kept_on_disk [OF o] kept_on_disk [OF c] kept_on_disk [OF w] .
      have k5: "kept s s5"
        using k1 by (simp add: kept_def s1'_def s3_def s5_def QueueLine_def QueueInfo_def)
      have F5: "Files (Disk s5) = Files d4"
        using d4(2) by (simp add: s5_def)
      have "quiet s5 t"
        using t(2) y quiet_call [OF y] by (simp split: if_splits)
      then have k6: "kept s5 t" and F6: "Files (Disk t) = Files (Disk s5)"
        by (simp_all add: quiet_def kept_def)
      show "ok = w" by (rule t(1))
      show "Files (Disk t) = Files d4" using F5 F6 by simp
      show "kept s t" by (rule kept_trans [OF k5 k6])
    qed
    have "commit_value (Disk t) = commit_value d4"
      using t(2) by (simp add: commit_value_def)
    moreover have "\<forall>p. p \<noteq> COMMIT_FILE \<longrightarrow> Files (Disk t) p = Files (Disk s) p"
      using t(2) n(5) by simp
    moreover have "commit_value d4 = 0 \<or> commit_value d4 = off mod 2 ^ 64"
      using V(1) by simp
    ultimately show ?thesis
      unfolding t(1) insert_iff empty_iff using V(2) t(3) by metis
  qed
qed

end
