(* ===== verification/WalCrash.thy ===== *)
theory WalCrash imports WalSafety begin

text \<open>
  The public operations of the WAL under every script of failures: what each may do to the three files, and from
  that the crash theorems. No operation removes a record which was not accepted, other than to the file for
  unreadable data, and none puts a record before another one.
\<close>

section \<open>Reading and quarantine\<close>

lemma GetReplayPosition_any:
  assumes "GetReplayPosition n s = (off, t)"
  shows "kept s t \<and> Files (Disk t) = Files (Disk s) \<and> (off = 0 \<or> off = commit_value (Disk s) \<and> off \<le> n)"
proof -
  obtain off0 s0 where l: "LoadCommit s = (off0, s0)" by force
  note L = LoadCommit_any [OF l]
  define s1 where "s1 = (if off0 > n then QueueLine (MsgStale off0 n) s0 else s0)"
  define off1 where "off1 = (if off0 > n then 0 else off0)"
  have q1: "quiet s s1"
    using L by (simp add: s1_def)
  have o1: "off1 = 0 \<or> off1 = commit_value (Disk s) \<and> off1 \<le> n"
    using L by (auto simp: off1_def)
  obtain b s2 where b: "IsRecordBoundary off1 n s1 = (b, s2)" by force
  have q2: "quiet s s2"
    using quiet_trans [OF q1 IsRecordBoundary_any] b by (simp add: IsRecordBoundary_def)
  have "t = s1 \<and> off = off1 \<or> t = s2\<lparr>m_bCommitChecked := True\<rparr> \<and> off = off1 \<or>
      t = (QueueLine (MsgNotBoundary off1) s2)\<lparr>m_bCommitChecked := True\<rparr> \<and> off = 0 \<or>
      t = s1\<lparr>m_bCommitChecked := True\<rparr> \<and> off = off1"
    using assms l b by (auto simp: GetReplayPosition_def s1_def off1_def split: if_splits prod.splits bool.splits)
  with q1 q2 o1 show ?thesis
    by (elim disjE) (simp_all add: quiet_def kept_def QueueLine_def)
qed

lemma CopyTail_any:
  assumes "CopyTail Pos To d = (ok, d')"
  shows "(\<forall>p. p \<noteq> CORRUPT_FILE \<longrightarrow> Files d' p = Files d p) \<and>
    (\<exists>x. contents CORRUPT_FILE d' = contents CORRUPT_FILE d @ x \<and>
      (ok \<and> To \<le> length (contents WAL_FILE d) \<longrightarrow> x = take (To - Pos) (drop Pos (contents WAL_FILE d))))"
  using assms
proof (induction Pos To d rule: CopyTail.induct)
  case (1 Pos To d)
  show ?case
  proof (cases "Pos < To")
    case False
    with "1.prems" show ?thesis
      by (simp add: CopyTail.simps [of Pos To d])
  next
    case lt: True
    obtain r d1 where r: "sys_pread WAL_FILE (min 65536 (To - Pos)) Pos d = (r, d1)" by force
    note F1 = sys_pread_Files [OF r]
    show ?thesis
    proof (cases "\<exists>bs. r = Some bs \<and> bs \<noteq> []")
      case False
      with r lt F1 "1.prems" show ?thesis
        by (cases r) (simp_all add: CopyTail.simps [of Pos To d])
    next
      case True
      then obtain bs where bs: "r = Some bs" "bs \<noteq> []" by blast
      obtain w d2 where w: "WriteAllToFd CORRUPT_FILE bs d1 = (w, d2)" by force
      from WriteAllToFd_appends [OF w] F1 obtain n where n:
        "contents CORRUPT_FILE d2 = contents CORRUPT_FILE d @ take n bs" "w \<longrightarrow> n = length bs"
        "\<forall>q. q \<noteq> CORRUPT_FILE \<longrightarrow> Files d2 q = Files d q"
        by auto
      show ?thesis
      proof (cases w)
        case False
        with r w lt bs n "1.prems" show ?thesis
          by (simp add: CopyTail.simps [of Pos To d])
      next
        case w1: True
        with r w lt bs "1.prems" have rec: "CopyTail (Pos + length bs) To d2 = (ok, d')"
          by (simp add: CopyTail.simps [of Pos To d])
        have pre: "\<exists>k. bs = take k (drop Pos (contents WAL_FILE d)) \<and> k \<le> To - Pos"
          using r bs F1 by (auto simp: sys_pread_def split: prod.splits outcome.splits intro: exI [of _ "min k n" for k n])
        then have bslen: "bs = take (length bs) (drop Pos (contents WAL_FILE d))" "length bs \<le> To - Pos"
          by (auto simp: min_def split: if_splits)
        from "1.IH" [OF lt r [symmetric] bs(1) bs(2) w [symmetric] eqTrueI [OF w1] rec]
        obtain x where x: "contents CORRUPT_FILE d' = contents CORRUPT_FILE d2 @ x"
          "ok \<and> To \<le> length (contents WAL_FILE d2) \<longrightarrow>
             x = take (To - (Pos + length bs)) (drop (Pos + length bs) (contents WAL_FILE d2))"
          "\<forall>p. p \<noteq> CORRUPT_FILE \<longrightarrow> Files d' p = Files d2 p"
          using w1 by auto
        have W: "contents WAL_FILE d2 = contents WAL_FILE d"
          using n(3) by simp
        have "bs @ take (To - (Pos + length bs)) (drop (Pos + length bs) (contents WAL_FILE d)) =
            take (To - Pos) (drop Pos (contents WAL_FILE d))"
        proof -
          have "length bs + (To - (Pos + length bs)) = To - Pos"
            using bslen(2) by simp
          then show ?thesis
            using bslen(1) take_add [of "length bs" "To - (Pos + length bs)" "drop Pos (contents WAL_FILE d)"]
            by (simp add: add.commute)
        qed
        then show ?thesis
          using x n w1 W by (intro conjI exI [of _ "bs @ x"]) auto
      qed
    qed
  qed
qed

lemma QuarantineTail_any:
  assumes "QuarantineTail From To s = (ok, t)"
  shows "kept s t \<and> (\<forall>p. p \<noteq> CORRUPT_FILE \<longrightarrow> Files (Disk t) p = Files (Disk s) p) \<and>
    (\<exists>x. contents CORRUPT_FILE (Disk t) = contents CORRUPT_FILE (Disk s) @ x \<and>
      (ok \<and> To = length (contents WAL_FILE (Disk s)) \<longrightarrow> x = drop From (contents WAL_FILE (Disk s))))"
proof -
  obtain op s1 where o: "on_disk (open_append CORRUPT_FILE) s = (op, s1)" by force
  then obtain d1 where d1: "open_append CORRUPT_FILE (Disk s) = (op, d1)" "s1 = s\<lparr>Disk := d1\<rparr>"
    by (rule on_disk_elim)
  have O: "contents CORRUPT_FILE d1 = contents CORRUPT_FILE (Disk s)"
    "\<forall>p. p \<noteq> CORRUPT_FILE \<longrightarrow> Files d1 p = Files (Disk s) p"
    using d1(1) by (auto simp: open_append_def split: prod.splits option.splits dest: call_Files)
  obtain c s2 where c: "on_disk (CopyTail From To) s1 = (c, s2)" by force
  then obtain d2 where d2: "CopyTail From To (Disk s1) = (c, d2)" "s2 = s1\<lparr>Disk := d2\<rparr>"
    by (rule on_disk_elim)
  note C = CopyTail_any [OF d2(1)]
  have D1: "Disk s1 = d1" and D2: "Disk s2 = d2"
    using d1 d2 by simp_all
  have K: "kept s s1" "kept s s2"
    using kept_on_disk [OF o] kept_on_disk [OF c] kept_trans by blast+
  have W: "contents WAL_FILE d1 = contents WAL_FILE (Disk s)"
    using O(2) by simp
  show ?thesis
  proof (cases op)
    case False
    then have "ok = False" and t: "t = QueueLine (MsgErrno ''Cannot open the file for unreadable WAL data'') s1"
      using assms o by (simp_all add: QuarantineTail_def)
    then show ?thesis
      using K(1) O D1 by simp
  next
    case True
    then have ok: "ok = c" and "Disk t = d2" "kept s t"
      using assms o c K(2) D2 by (cases c; simp add: QuarantineTail_def; clarsimp)+
    moreover have "\<exists>x. contents CORRUPT_FILE d2 = contents CORRUPT_FILE (Disk s) @ x \<and>
      (ok \<and> To = length (contents WAL_FILE (Disk s)) \<longrightarrow> x = drop From (contents WAL_FILE (Disk s)))"
      using C unfolding D1 W O(1) ok by auto
    ultimately show ?thesis
      using C O(2) D1 by simp
  qed
qed

text \<open>What one turn of reading does. \<open>READ_RECORD\<close> and \<open>READ_STOP\<close> leave the WAL as it is; the two results which
  empty it say what was left: nothing, or a piece which is now in the file for unreadable data.\<close>

fun read_result :: "ReadResult \<Rightarrow> nat \<Rightarrow> disk \<Rightarrow> disk \<Rightarrow> bool" where
  "read_result (READ_RECORD r) off d d' \<longleftrightarrow>
     Files d' = Files d \<and> first_record (drop off (contents WAL_FILE d)) = Some r \<and> off \<le> length (contents WAL_FILE d)"
| "read_result (READ_EMPTY ok) off d d' \<longleftrightarrow> off = length (contents WAL_FILE d) \<and> emptied d ok d'"
| "read_result (READ_DAMAGED ok) off d d' \<longleftrightarrow>
     off < length (contents WAL_FILE d) \<and>
     (if ok then Files d' WAL_FILE = Some [] \<and> Files d' COMMIT_FILE = None
      else (Files d' WAL_FILE = Files d WAL_FILE \<or> Files d' WAL_FILE = Some [] \<and> Files d' COMMIT_FILE = None) \<and>
           (Files d' COMMIT_FILE = Files d COMMIT_FILE \<or> Files d' COMMIT_FILE = None)) \<and>
     contents CORRUPT_FILE d' = contents CORRUPT_FILE d @ drop off (contents WAL_FILE d)"
| "read_result READ_CHANGED off d d' \<longleftrightarrow> Files d' = Files d \<and> length (contents WAL_FILE d) < off"
| "read_result READ_STOP off d d' \<longleftrightarrow> (\<forall>p. p \<noteq> CORRUPT_FILE \<longrightarrow> Files d' p = Files d p)"

lemma ReadRecord_any:
  assumes "ReadRecord off s = (r, t)" and "m_fd s"
  shows "kept s t \<and> read_result r off (Disk s) (Disk t)"
proof -
  let ?f = "contents WAL_FILE (Disk s)"
  obtain sz s1 where z: "on_disk (sys_size WAL_FILE) s = (sz, s1)" by force
  note q1 = quiet_size [OF z]
  have F1: "Files (Disk s1) = Files (Disk s)"
    using q1 by (simp add: quiet_def)
  show ?thesis
  proof (cases sz)
    case None
    with assms z q1 F1 show ?thesis
      by (auto simp: ReadRecord_def quiet_kept)
  next
    case (Some n)
    then have n: "n = length ?f"
      using on_disk_size [OF z] by simp
    consider (changed) "n < off" | (empty) "n = off" | (more) "off < n"
      by linarith
    then show ?thesis
    proof cases
      case changed
      then have "r = READ_CHANGED" "t = s1"
        using assms z Some by (simp_all add: ReadRecord_def)
      then show ?thesis
        using changed n F1 quiet_kept [OF q1] by simp
    next
      case empty
      obtain ok s2 where c: "ClearInternal s1 = (ok, s2)" by force
      have rt: "r = READ_EMPTY ok" "t = s2"
        using assms z Some empty c by (simp_all add: ReadRecord_def)
      have "m_fd s1"
        using q1 assms(2) by (simp add: quiet_def)
      from ClearInternal_any [OF c this] show ?thesis
        using rt kept_trans [OF quiet_kept [OF q1]] empty n F1 by (cases ok) (simp_all add: emptied_def)
    next
      case more
      obtain lb s2 where p: "on_disk (sys_pread WAL_FILE 4 off) s1 = (lb, s2)" by force
      note q2 = quiet_trans [OF q1 quiet_pread [OF p]]
      have F2: "Files (Disk s2) = Files (Disk s)"
        using q2 by (simp add: quiet_def)
      show ?thesis
      proof (cases lb)
        case None
        then have "r = READ_STOP" and t: "t = QueueLine (MsgErrno ''Cannot read the WAL'') s2"
          using assms z Some more p by (simp_all add: ReadRecord_def)
        then show ?thesis
          using F2 quiet_kept [OF q2] by simp
      next
        case lb: (Some bs)
        show ?thesis
        proof (cases "length bs \<noteq> 4 \<or> le_value bs = 0 \<or> le_value bs > (n - off) - 4")
          case bad: True
          obtain qok s3 where qt: "QuarantineTail off n s2 = (qok, s3)" by force
          note Q = QuarantineTail_any [OF qt]
          show ?thesis
          proof (cases qok)
            case False
            then have "r = READ_STOP" "t = s3"
              using assms z Some more p lb bad qt by (simp_all add: ReadRecord_def)
            then show ?thesis
              using Q F2 kept_trans [OF quiet_kept [OF q2]] by simp
          next
            case True
            obtain ok s4 where c: "ClearInternal s3 = (ok, s4)" by force
            have rt: "r = READ_DAMAGED ok" "t = s4"
              using assms z Some more p lb bad qt True c by (simp_all add: ReadRecord_def)
            have k3: "kept s s3"
              using Q kept_trans [OF quiet_kept [OF q2]] by blast
            then have "m_fd s3"
              using assms(2) by (simp add: kept_def)
            note E = ClearInternal_any [OF c this]
            have cc: "contents CORRUPT_FILE (Disk s3) = contents CORRUPT_FILE (Disk s) @ drop off ?f"
              using Q True n F2 by auto
            have F3: "Files (Disk s3) WAL_FILE = Files (Disk s) WAL_FILE"
              "Files (Disk s3) COMMIT_FILE = Files (Disk s) COMMIT_FILE"
              using Q F2 by simp_all
            show ?thesis
              using E cc F3 more n rt kept_trans [OF k3] by (cases ok) (simp_all add: emptied_def)
          qed
        next
          case good: False
          obtain m s3 where m: "on_disk call s2 = (m, s3)" by force
          note q3 = quiet_trans [OF q2 quiet_call [OF m]]
          obtain rb s4 where rb: "on_disk (sys_pread WAL_FILE (le_value bs) (off + 4)) s3 = (rb, s4)" by force
          note q4 = quiet_trans [OF q3 quiet_pread [OF rb]]
          have F34: "Files (Disk s3) = Files (Disk s)" "Files (Disk s4) = Files (Disk s)"
            using q3 q4 by (simp_all add: quiet_def)
          consider (rec) x where "m = None" "rb = Some x" "length x = le_value bs"
            | (stop) "m \<noteq> None \<or> rb = None \<or> (\<exists>x. rb = Some x \<and> length x \<noteq> le_value bs)"
            by (cases m; cases rb) auto
          then show ?thesis
          proof cases
            case (rec x)
            then have rt: "r = READ_RECORD x" "t = s4"
              using assms z Some more p lb good m rb by (simp_all add: ReadRecord_def)
            obtain d where "sys_pread WAL_FILE 4 off (Disk s1) = (Some bs, d)"
              using p lb by (auto elim: on_disk_elim)
            from sys_pread_full [OF this] good have bs: "bs = take 4 (drop off ?f)"
              using F1 by simp
            obtain d2 where "sys_pread WAL_FILE (le_value bs) (off + 4) (Disk s3) = (Some x, d2)"
              using rb rec by (auto elim: on_disk_elim)
            from sys_pread_full [OF this rec(3)] have x: "x = take (le_value bs) (drop (off + 4) ?f)"
              using F34 by simp
            have "length (take 4 (drop off ?f)) = 4"
              using good bs by simp
            then have "\<not> length ?f - off < 4"
              by simp
            then have "first_record (drop off ?f) = Some x"
              using good bs x n by (simp add: first_record_def Let_def add.commute)
            then show ?thesis
              using rt F34(2) quiet_kept [OF q4] more n by simp
          next
            case stop
            then have "r = READ_STOP" and t: "t = s4 \<or> t = QueueLine (MsgNoMemory (le_value bs)) s3"
              using assms z Some more p lb good m rb
              by (auto simp: ReadRecord_def split: option.splits if_splits)
            then show ?thesis
              using F34 quiet_kept [OF q4] quiet_kept [OF q3] by auto
          qed
        qed
      qed
    qed
  qed
qed

section \<open>Append\<close>

lemma WriteAll_any:
  assumes "WriteAll bs s = (r, t)" and "m_fd s"
  shows "kept s t \<and> (\<exists>n \<le> length bs. contents WAL_FILE (Disk t) = contents WAL_FILE (Disk s) @ take n bs \<and>
      (r \<longleftrightarrow> n = length bs)) \<and> (\<forall>p. p \<noteq> WAL_FILE \<longrightarrow> Files (Disk t) p = Files (Disk s) p) \<and>
    (Files (Disk s) WAL_FILE \<noteq> None \<longrightarrow> Files (Disk t) WAL_FILE \<noteq> None) \<and>
    (length (contents WAL_FILE (Disk s)) \<le> MAX_OFF \<longrightarrow> length (contents WAL_FILE (Disk t)) \<le> MAX_OFF)"
proof -
  obtain w s1 where w: "on_disk (WriteAllToFd WAL_FILE bs) s = (w, s1)" by force
  then obtain d1 where d1: "WriteAllToFd WAL_FILE bs (Disk s) = (w, d1)" "s1 = s\<lparr>Disk := d1\<rparr>"
    by (rule on_disk_elim)
  have "r = w" and "Disk t = d1" and "kept s t"
    using assms w d1(2) kept_on_disk [OF w] by (cases w; simp add: WriteAll_def; clarsimp)+
  then show ?thesis
    using WriteAllToFd_appends [OF d1(1)] by auto
qed

lemma WriteRecord_any:
  assumes "WriteRecord Data s = (r, t)" and "m_fd s"
  shows "kept s t \<and> (\<exists>n \<le> length (frame Data). contents WAL_FILE (Disk t) = contents WAL_FILE (Disk s) @ take n (frame Data) \<and>
      (r \<longleftrightarrow> n = length (frame Data))) \<and> (\<forall>p. p \<noteq> WAL_FILE \<longrightarrow> Files (Disk t) p = Files (Disk s) p) \<and>
    (Files (Disk s) WAL_FILE \<noteq> None \<longrightarrow> Files (Disk t) WAL_FILE \<noteq> None) \<and>
    (length (contents WAL_FILE (Disk s)) \<le> MAX_OFF \<longrightarrow> length (contents WAL_FILE (Disk t)) \<le> MAX_OFF)"
proof -
  obtain r1 s1 where w1: "WriteAll (le_bytes 4 (length Data)) s = (r1, s1)" by force
  from WriteAll_any [OF w1 assms(2)] obtain n where n: "n \<le> 4"
    "contents WAL_FILE (Disk s1) = contents WAL_FILE (Disk s) @ take n (le_bytes 4 (length Data))" "r1 \<longleftrightarrow> n = 4"
    "kept s s1" "\<forall>p. p \<noteq> WAL_FILE \<longrightarrow> Files (Disk s1) p = Files (Disk s) p"
    "Files (Disk s) WAL_FILE \<noteq> None \<longrightarrow> Files (Disk s1) WAL_FILE \<noteq> None"
    "length (contents WAL_FILE (Disk s)) \<le> MAX_OFF \<longrightarrow> length (contents WAL_FILE (Disk s1)) \<le> MAX_OFF"
    unfolding length_le_bytes by blast
  show ?thesis
  proof (cases r1)
    case False
    then have "r = False" "t = s1"
      using assms w1 by (simp_all add: WriteRecord_def)
    moreover have "n \<le> length (frame Data)" "n \<noteq> length (frame Data)"
      "contents WAL_FILE (Disk s1) = contents WAL_FILE (Disk s) @ take n (frame Data)"
      using n(1-3) False by (simp_all add: frame_def)
    ultimately show ?thesis
      using n(4-7) by blast
  next
    case True
    then have w2: "WriteAll Data s1 = (r, t)"
      using assms w1 by (simp add: WriteRecord_def)
    have fd: "m_fd s1"
      using n(4) assms(2) by (simp add: kept_def)
    from WriteAll_any [OF w2 this] obtain m where m: "m \<le> length Data"
      "contents WAL_FILE (Disk t) = contents WAL_FILE (Disk s1) @ take m Data" "r \<longleftrightarrow> m = length Data"
      by auto
    have "contents WAL_FILE (Disk t) = contents WAL_FILE (Disk s) @ take (4 + m) (frame Data)"
      using m(2) n(2,3) True by (simp add: frame_def)
    moreover have "4 + m \<le> length (frame Data)" "r \<longleftrightarrow> 4 + m = length (frame Data)"
      using m by simp_all
    ultimately show ?thesis
      using WriteAll_any [OF w2 fd] n kept_trans by (intro conjI exI [of _ "4 + m"]) auto
  qed
qed

text \<open>A record which is cut off is not a record.\<close>

lemma first_record_cut:
  assumes "valid_record r" and "n < length (frame r)"
  shows "first_record (take n (frame r)) = None"
proof (cases "n < 4")
  case True
  then show ?thesis
    by (simp add: first_record_def)
next
  case False
  then have "take 4 (take n (frame r)) = take 4 (frame r)"
    by (simp add: min_def)
  then have "le_value (take 4 (take n (frame r))) = length r"
    using le_value_frame [of r "[]"] assms(1) by (simp add: valid_record_def)
  then show ?thesis
    using assms False by (simp add: first_record_def Let_def valid_record_def)
qed

text \<open>The refusal for the size limit leaves the WAL exactly as it is.\<close>

definition over_limit :: "wal \<Rightarrow> bytes \<Rightarrow> bool" where
  "over_limit s Data \<longleftrightarrow> m_MaxSize s > 0 \<and> length (contents WAL_FILE (Disk s)) + 4 + length Data > m_MaxSize s"

lemma Append_any:
  assumes "Append Data s = (ok, t)" and "m_fd s" and "Data \<noteq> []"
    and "length (contents WAL_FILE (Disk s)) \<le> MAX_OFF" and "Files (Disk s) WAL_FILE \<noteq> None"
  shows "kept s t \<and> (\<forall>p. p \<noteq> WAL_FILE \<longrightarrow> Files (Disk t) p = Files (Disk s) p) \<and>
    (\<exists>n \<le> length (frame Data). contents WAL_FILE (Disk t) = contents WAL_FILE (Disk s) @ take n (frame Data) \<and>
      (ok \<longleftrightarrow> n = length (frame Data))) \<and>
    length (contents WAL_FILE (Disk t)) \<le> MAX_OFF \<and> Files (Disk t) WAL_FILE \<noteq> None \<and>
    (over_limit s Data \<longrightarrow> \<not> ok \<and> Files (Disk t) = Files (Disk s))"
proof -
  obtain sz s1 where z: "on_disk (sys_size WAL_FILE) s = (sz, s1)" by force
  note q1 = quiet_size [OF z]
  have F1: "Files (Disk s1) = Files (Disk s)"
    using q1 by (simp add: quiet_def)
  show ?thesis
  proof (cases sz)
    case None
    then have "ok = False" "t = QueueLine (MsgErrno ''Cannot get the end of the WAL'') s1"
      using assms z by (simp_all add: Append_def)
    then show ?thesis
      using F1 quiet_kept [OF q1] assms by (auto intro!: exI [of _ 0])
  next
    case (Some n)
    then have n: "n = length (contents WAL_FILE (Disk s))"
      using on_disk_size [OF z] by simp
    have lim: "m_MaxSize s1 > 0 \<and> n + 4 + length Data > m_MaxSize s1 \<longleftrightarrow> over_limit s Data"
      using q1 n by (simp add: over_limit_def quiet_def)
    show ?thesis
    proof (cases "over_limit s Data")
      case True
      then have "ok = False" and t: "t = (if m_bFullLogged s1 then s1
            else QueueLine (MsgFull (length Data) n (m_MaxSize s1)) (s1\<lparr>m_bFullLogged := True\<rparr>))"
        using assms z Some lim by (simp_all add: Append_def)
      have "kept s t" "Files (Disk t) = Files (Disk s)"
        using t F1 quiet_kept [OF q1] by (simp_all add: kept_def QueueLine_def)
      then show ?thesis
        using \<open>ok = False\<close> assms by (auto intro!: exI [of _ 0])
    next
      case False
      obtain w s2 where w: "WriteRecord Data s1 = (w, s2)" by force
      have fd: "m_fd s1"
        using q1 assms(2) by (simp add: quiet_def)
      note W = WriteRecord_any [OF w fd, unfolded F1]
      have k2: "kept s s2"
        using W kept_trans [OF quiet_kept [OF q1]] by blast
      show ?thesis
      proof (cases w)
        case True
        obtain y s3 where y: "on_disk call s2 = (y, s3)" by force
        have "ok = True" and t: "t = (if m_bSync s2 then s3 else s2)\<lparr>m_bFullLogged := False, m_PendingReplay := True\<rparr>"
          using assms z Some False lim w True y by (auto simp: Append_def)
        have "kept s2 t" "Files (Disk t) = Files (Disk s2)"
          using t quiet_call [OF y] by (simp_all add: kept_def quiet_def split: if_splits)
        then show ?thesis
          using W True kept_trans [OF k2] False \<open>ok = True\<close> assms(4,5) by (auto intro!: exI [of _ "length (frame Data)"])
      next
        case w0: False
        obtain tr s3 where f: "on_disk (sys_ftruncate WAL_FILE n) s2 = (tr, s3)" by force
        then obtain d3 where d3: "sys_ftruncate WAL_FILE n (Disk s2) = (tr, d3)" "s3 = s2\<lparr>Disk := d3\<rparr>"
          by (rule on_disk_elim)
        have ok: "ok = False" and t: "Disk t = d3" and "kept s3 t"
          using assms z Some False lim w w0 f d3(2)
          by (cases tr; simp add: Append_def; clarsimp)+
        then have k: "kept s t"
          using kept_trans [OF k2 kept_trans [OF kept_on_disk [OF f]]] by blast
        from W obtain m where m: "m \<le> length (frame Data)"
          "contents WAL_FILE (Disk s2) = contents WAL_FILE (Disk s) @ take m (frame Data)" "m \<noteq> length (frame Data)"
          using w0 by auto
        note T = sys_ftruncate_any [OF d3(1)]
        have O: "\<forall>p. p \<noteq> WAL_FILE \<longrightarrow> Files d3 p = Files (Disk s) p"
          using T W by simp
        have "\<exists>m' < length (frame Data). contents WAL_FILE d3 = contents WAL_FILE (Disk s) @ take m' (frame Data) \<and>
            length (contents WAL_FILE d3) \<le> MAX_OFF \<and> Files d3 WAL_FILE \<noteq> None"
        proof (cases tr)
          case True
          then have "Files d3 WAL_FILE = Some (contents WAL_FILE (Disk s))"
            using T m n by simp
          then show ?thesis
            using assms by (intro exI [of _ 0]) simp
        next
          case False
          then show ?thesis
            using T m W assms by (intro exI [of _ m]) simp
        qed
        then show ?thesis
          using k O ok t False by (auto intro: less_imp_le)
      qed
    qed
  qed
qed

end
