(* ===== verification/WalTheorems.thy ===== *)
theory WalTheorems imports WalCrash begin

text \<open>
  The crash theorems of the WAL. Each is for an arbitrary script of failures of the calls, so the run may also end
  at any call. \<open>all\<close> are the records in the file, \<open>rest\<close> is a piece at its end which is not a record.
\<close>

section \<open>Positions in the file\<close>

lemma drop_frames:
  assumes "i \<le> length all"
  shows "drop (length (frames (take i all))) (frames all @ rest) = frames (drop i all) @ rest"
proof -
  have "frames all = frames (take i all) @ frames (drop i all)"
    by (metis append_take_drop_id frames_append)
  then show ?thesis
    by simp
qed

lemma length_frames_split:
  "i \<le> length all \<Longrightarrow> length (frames all) = length (frames (take i all)) + length (frames (drop i all))"
  by (metis append_take_drop_id frames_append length_append)

lemma frames_take_Suc:
  "i < length all \<Longrightarrow> length (frames (take (Suc i) all)) = length (frames (take i all)) + 4 + length (all ! i)"
  by (simp add: take_Suc_conv_app_nth)

lemma valid_records_nth: "valid_records all \<Longrightarrow> i < length all \<Longrightarrow> valid_record (all ! i)"
  by (simp add: list_all_length)

lemma first_record_at:
  assumes "i \<le> length all" and "valid_records all" and "first_record rest = None"
  shows "first_record (drop (length (frames (take i all))) (frames all @ rest)) =
    (if i < length all then Some (all ! i) else None)"
proof (cases "i < length all")
  case True
  then have "frames (drop i all) = frame (all ! i) @ frames (drop (Suc i) all)"
    by (simp flip: Cons_nth_drop_Suc)
  then show ?thesis
    unfolding drop_frames [OF assms(1)] using True valid_records_nth [OF assms(2) True] by simp
next
  case False
  then show ?thesis
    unfolding drop_frames [OF assms(1)] using assms by simp
qed

lemma position_unique:
  assumes "i \<le> length all" and "length (frames (take i all)) = length (frames all @ rest)"
  shows "i = length all \<and> rest = []"
proof -
  have "frames (drop i all) = [] \<and> rest = []"
    using assms length_frames_split [OF assms(1)] by simp
  then show ?thesis
    using assms(1) by simp
qed

section \<open>What is left after an operation\<close>

text \<open>After \<open>k\<close> of the records were accepted: the rest is still there, or there was no rest and the WAL is empty.\<close>

definition left_over :: "disk \<Rightarrow> bytes list \<Rightarrow> bytes \<Rightarrow> nat \<Rightarrow> bool" where
  "left_over d all rest k \<longleftrightarrow> crash_inv d (take k all) (drop k all) rest \<or>
     drop k all = [] \<and> rest = [] \<and> crash_inv d [] [] []"

text \<open>The WAL is empty, and everything which was not accepted is at the end of the file for unreadable data.\<close>

definition set_aside :: "disk \<Rightarrow> disk \<Rightarrow> bytes list \<Rightarrow> bytes \<Rightarrow> bool" where
  "set_aside d d' rs rest \<longleftrightarrow>
     crash_inv d' [] [] [] \<and> contents CORRUPT_FILE d' = contents CORRUPT_FILE d @ frames rs @ rest"

lemma recovered_left_over:
  assumes "left_over d all rest k"
  shows "\<exists>j \<le> k. recovered d = drop j all"
  using assms unfolding left_over_def
proof (elim disjE conjE)
  assume "crash_inv d (take k all) (drop k all) rest"
  from recovered_crash_inv [OF this] obtain j where j: "j \<le> length (take k all)"
    "recovered d = drop j (take k all) @ drop k all" by blast
  have "drop j all = drop j (take k all @ drop k all)"
    by simp
  also have "\<dots> = drop j (take k all) @ drop k all"
    unfolding drop_append using j(1) by simp
  finally show ?thesis
    using j by (intro exI [of _ j]) simp
next
  assume "drop k all = []" "crash_inv d [] [] []"
  then show ?thesis
    using recovered_crash_inv [of d "[]" "[]" "[]"] by (intro exI [of _ k]) simp
qed

lemma crash_inv_empty: "Files d WAL_FILE = Some [] \<Longrightarrow> Files d COMMIT_FILE = None \<Longrightarrow> crash_inv d [] [] []"
  by (simp add: crash_inv_def commit_value_def)

lemma commit_value_same: "Files d' COMMIT_FILE = Files d COMMIT_FILE \<Longrightarrow> commit_value d' = commit_value d"
  by (simp add: commit_value_def)

lemma commit_value_none: "Files d' COMMIT_FILE = None \<Longrightarrow> commit_value d' = 0"
  by (simp add: commit_value_def)

lemma commit_value_crash_inv:
  assumes "crash_inv d done rs rest"
  obtains k where "k \<le> length done" "commit_value d = length (frames (take k (done @ rs)))"
  using assms by (auto simp: crash_inv_def)

text \<open>Emptying the WAL when everything in it is accepted.\<close>

lemma left_over_old_commit:
  assumes "crash_inv d done rs rest" and "Files d' WAL_FILE = Files d WAL_FILE"
    and "commit_value d' = 0 \<or> commit_value d' = commit_value d" and "length done \<le> k" and "k \<le> length (done @ rs)"
  shows "left_over d' (done @ rs) rest k"
proof -
  obtain j where j: "j \<le> length done" "commit_value d = length (frames (take j (done @ rs)))"
    using assms(1) by (rule commit_value_crash_inv)
  have "\<exists>j \<le> length (take k (done @ rs)). commit_value d' = length (frames (take j (take k (done @ rs))))"
    using assms(3)
  proof
    assume "commit_value d' = 0"
    then show ?thesis
      by (intro exI [of _ 0]) simp
  next
    assume "commit_value d' = commit_value d"
    then show ?thesis
      using j assms(4,5) by (intro exI [of _ j]) (simp add: min_def)
  qed
  then have "crash_inv d' (take k (done @ rs)) (drop k (done @ rs)) rest"
    using assms(1,2) unfolding crash_inv_def append_take_drop_id by simp
  then show ?thesis
    by (simp add: left_over_def)
qed

lemma emptied_left_over:
  assumes "emptied d ok d'" and "crash_inv d done rs []" and "k = length (done @ rs)"
  shows "left_over d' (done @ rs) [] k"
proof (cases "Files d' WAL_FILE = Some [] \<and> Files d' COMMIT_FILE = None")
  case True
  then show ?thesis
    using crash_inv_empty assms(3) by (simp add: left_over_def)
next
  case False
  then have W: "Files d' WAL_FILE = Files d WAL_FILE"
    and C: "Files d' COMMIT_FILE = Files d COMMIT_FILE \<or> Files d' COMMIT_FILE = None"
    using assms(1) unfolding emptied_def by (metis (full_types))+
  from C have "commit_value d' = 0 \<or> commit_value d' = commit_value d"
    using commit_value_same [of d' d] commit_value_none [of d'] by blast
  from left_over_old_commit [OF assms(2) W this] show ?thesis
    using assms(3) by simp
qed

lemma emptied_ok_recovered:
  assumes "emptied d True d'"
  shows "recovered d' = []"
  using recovered_crash_inv [OF crash_inv_empty, of d'] assms by (simp add: emptied_def)

section \<open>The operations\<close>

lemma crash_invI:
  assumes "Files d WAL_FILE = Some (frames all @ rest)" and "valid_records all" and "first_record rest = None"
    and "length (frames all @ rest) \<le> MAX_OFF" and "k \<le> length all" and "i \<le> k"
    and "commit_value d = length (frames (take i all))"
  shows "crash_inv d (take k all) (drop k all) rest"
proof -
  have "i \<le> length (take k all)" "take i (take k all) = take i all"
    using assms(5,6) by (simp_all only: length_take take_take min.absorb1 min.absorb2)
  then show ?thesis
    using assms unfolding crash_inv_def append_take_drop_id by metis
qed

text \<open>Saving a position: a failure leaves the old position or none.\<close>

lemma StoreCommit_left_over:
  assumes "crash_inv d done rs rest" and "StoreCommit (length (frames (take i (done @ rs)))) s = (ok, t)"
    and "\<forall>p. p \<noteq> CORRUPT_FILE \<longrightarrow> Files (Disk s) p = Files d p" and "i \<le> length (done @ rs)"
  shows "left_over (Disk t) (done @ rs) rest (max (length done) i) \<and>
    (ok \<longrightarrow> recovered (Disk t) = drop i (done @ rs))"
proof -
  let ?all = "done @ rs"
  let ?k = "max (length done) i"
  have k: "?k \<le> length ?all"
    using assms(4) by simp
  note S = StoreCommit_any [OF assms(2)]
  have W: "Files (Disk t) WAL_FILE = Some (frames ?all @ rest)" and V: "valid_records ?all" "first_record rest = None"
    and L: "length (frames ?all @ rest) \<le> MAX_OFF"
    using assms(1,3) S by (simp_all add: crash_inv_def)
  have "length (frames (take i ?all)) \<le> length (frames ?all)"
    using length_frames_split [OF assms(4)] by simp
  then have "length (frames (take i ?all)) < 2 ^ 64"
    using L by (simp add: MAX_OFF_def)
  then have m: "length (frames (take i ?all)) mod 2 ^ 64 = length (frames (take i ?all))"
    by (rule mod_less)
  have C: "commit_value (Disk t) \<in> {0, commit_value d, length (frames (take i ?all))}"
    using S assms(3) unfolding m by (simp add: commit_value_def)
  obtain j where j: "j \<le> length done" "commit_value d = length (frames (take j ?all))"
    using assms(1) by (rule commit_value_crash_inv)
  note inv = crash_invI [OF W V L]
  have "crash_inv (Disk t) (take ?k ?all) (drop ?k ?all) rest"
    using C
  proof (elim insertE emptyE)
    assume "commit_value (Disk t) = 0"
    then show ?thesis using inv [OF k, of 0] by simp
  next
    assume "commit_value (Disk t) = commit_value d"
    then show ?thesis using inv [OF k, of j] j by simp
  next
    assume "commit_value (Disk t) = length (frames (take i ?all))"
    then show ?thesis using inv [OF k, of i] by simp
  qed
  moreover have "recovered (Disk t) = drop i ?all" if ok
  proof -
    have cv: "commit_value (Disk t) = length (frames (take i ?all))"
      using S that m by simp
    have i1: "crash_inv (Disk t) (take i ?all) (drop i ?all) rest"
      by (rule inv [OF assms(4) le_refl cv])
    from recovered_at_commit [OF i1, of i] show ?thesis
      using cv assms(4) by (simp add: min_def)
  qed
  ultimately show ?thesis
    by (simp add: left_over_def)
qed

lemma Append_keeps_inv:
  assumes "crash_inv (Disk s) done rs []" and "m_fd s" and "valid_record Data" and "Append Data s = (ok, t)"
  shows "(\<exists>rest. crash_inv (Disk t) done (if ok then rs @ [Data] else rs) rest \<and> (if ok then rest = [] else True)) \<and>
    (if over_limit s Data then \<not> ok \<and> Files (Disk t) = Files (Disk s) else True)"
proof -
  let ?f = "frames (done @ rs)"
  have f: "Files (Disk s) WAL_FILE = Some ?f" "length (contents WAL_FILE (Disk s)) \<le> MAX_OFF"
    "Files (Disk s) WAL_FILE \<noteq> None" "Data \<noteq> []"
    using assms(1,3) by (auto simp: crash_inv_def valid_record_def)
  note A = Append_any [OF assms(4) assms(2) f(4) f(2) f(3)]
  from A obtain n where n: "n \<le> length (frame Data)" "contents WAL_FILE (Disk t) = ?f @ take n (frame Data)"
    "ok \<longleftrightarrow> n = length (frame Data)" using f(1) by auto
  from A obtain bs where "Files (Disk t) WAL_FILE = Some bs" by blast
  with n(2) have W: "Files (Disk t) WAL_FILE = Some (?f @ take n (frame Data))" by simp
  have L: "length (?f @ take n (frame Data)) \<le> MAX_OFF"
    using A W by simp
  have "commit_value (Disk t) = commit_value (Disk s)"
    using A by (intro commit_value_same) simp
  then obtain k where k: "k \<le> length done" "commit_value (Disk t) = length (frames (take k done))"
    using assms(1) by (auto simp: crash_inv_def)
  have V: "valid_records (done @ rs)"
    using assms(1) by (simp add: crash_inv_def)
  have "crash_inv (Disk t) done (if ok then rs @ [Data] else rs) (if ok then [] else take n (frame Data))"
  proof (cases ok)
    case True
    then show ?thesis
      using W L k V n(3) assms(3) by (auto simp: crash_inv_def)
  next
    case False
    then have "first_record (take n (frame Data)) = None"
      using n first_record_cut [OF assms(3)] by simp
    then show ?thesis
      using False W L k V by (auto simp: crash_inv_def)
  qed
  with A show ?thesis
    by (cases ok) auto
qed

text \<open>C3. Append is atomic under failures: from a WAL without a piece at its end, an \<open>Append\<close> which returns true
  adds exactly its record behind the others; one which returns false leaves the records and the saved position as
  they were, at most with a piece behind them which is not a record; and a refusal for the size limit does not
  change the files at all.\<close>

theorem Append_crash_safe:
  assumes "crash_inv (Disk s) done rs []" and "m_fd s" and "valid_record Data" and "Append Data s = (ok, t)"
  shows "(\<exists>rest. crash_inv (Disk t) done (if ok then rs @ [Data] else rs) rest \<and> (if ok then rest = [] else True)) \<and>
    (if over_limit s Data then \<not> ok \<and> Files (Disk t) = Files (Disk s) else True)"
  by (rule Append_keeps_inv [OF assms])

text \<open>The record which \<open>Peek\<close> returned is the one at index \<open>i\<close>.\<close>

definition peeked_at :: "wal \<Rightarrow> bytes list \<Rightarrow> nat \<Rightarrow> bool" where
  "peeked_at s all i \<longleftrightarrow> m_bPeeked s \<and> i < length all \<and> m_PeekOffset s = length (frames (take i all)) \<and>
     m_PeekLen s = length (all ! i)"

lemma Peek_any:
  assumes "Peek s = (Some r, t)" and "crash_inv (Disk s) done rs rest"
  shows "\<exists>i \<le> length done. peeked_at t (done @ rs) i \<and> (done @ rs) ! i = r \<and> Files (Disk t) = Files (Disk s) \<and>
    m_fd t \<and> \<not> m_bReplaying t \<and> m_PeekEpoch t = m_PositionEpoch t"
proof -
  let ?s = "s\<lparr>m_bPeeked := False\<rparr>"
  let ?all = "done @ rs"
  obtain op s1 where o: "on_disk (open_read WAL_FILE) ?s = (op, s1)" by force
  note q1 = quiet_open_read [OF o]
  obtain sz s2 where z: "on_disk (sys_size WAL_FILE) s1 = (sz, s2)" by force
  note q2 = quiet_trans [OF q1 quiet_size [OF z]]
  have g: "m_fd s" "\<not> m_bReplaying s" "m_PendingReplay s" "op" and szn: "sz \<noteq> None"
    using assms(1) o z by (cases op; cases sz; simp add: Peek_def Let_def split: if_splits)+
  then obtain n where n: "sz = Some n" by blast
  obtain off s3 where p: "GetReplayPosition n s2 = (off, s3)" by force
  note P = GetReplayPosition_any [OF p]
  obtain rr s4 where rd: "ReadRecord off s3 = (rr, s4)" by force
  have rr: "rr = READ_RECORD r" and t: "t = s4\<lparr>m_bPeeked := True, m_PeekOffset := off, m_PeekLen := length r,
      m_PeekEpoch := m_PositionEpoch s4\<rparr>"
    using assms(1) o z g n p rd by (cases rr; simp add: Peek_def Let_def; clarsimp)+
  have F3: "Files (Disk s3) = Files (Disk s)"
    using P q2 by (simp add: quiet_def)
  have k3: "kept s s3"
    using P q2 by (simp add: quiet_def kept_def)
  then have "m_fd s3"
    using g by (simp add: kept_def)
  note R = ReadRecord_any [OF rd this, unfolded rr]
  have W: "contents WAL_FILE (Disk s3) = frames ?all @ rest"
    and V: "valid_records ?all" "first_record rest = None"
    using assms(2) F3 by (simp_all add: crash_inv_def)
  obtain k where k: "k \<le> length done" "commit_value (Disk s) = length (frames (take k ?all))"
    using assms(2) by (rule commit_value_crash_inv)
  have "off = 0 \<or> off = commit_value (Disk s)"
    using P q2 by (auto simp: quiet_def commit_value_def)
  then have "\<exists>i \<le> length done. off = length (frames (take i ?all))"
    using k by (auto intro: exI [of _ 0])
  then obtain i where i: "i \<le> length done" "off = length (frames (take i ?all))"
    by blast
  then have "first_record (drop off (contents WAL_FILE (Disk s3))) = (if i < length ?all then Some (?all ! i) else None)"
    using first_record_at [of i ?all rest] V W by simp
  then have r: "i < length ?all" "?all ! i = r"
    using R by (simp_all split: if_splits)
  have "m_fd s4" "\<not> m_bReplaying s4"
    using R k3 g by (simp_all add: kept_def)
  with i r t R F3 show ?thesis
    by (intro exI [of _ i]) (simp add: peeked_at_def)
qed

text \<open>C4. \<open>Ack\<close> is safe under failures: with the record at index \<open>i\<close> peeked, whatever the calls do, a new object
  recovers every record behind it, in order, behind at most some which were accepted before; nothing is in the
  file twice or out of order. If \<open>Ack\<close> returns true, exactly the records behind it are recovered: it is never
  delivered again.\<close>

theorem Ack_crash_safe:
  assumes "crash_inv (Disk s) done rs rest" and "peeked_at s (done @ rs) i" and "i \<le> length done" and "Ack s = (ok, t)"
  shows "left_over (Disk t) (done @ rs) rest (max (length done) (Suc i)) \<and>
    (if ok then recovered (Disk t) = drop (Suc i) (done @ rs) else True)"
proof -
  let ?all = "done @ rs"
  let ?s = "s\<lparr>m_bPeeked := False\<rparr>"
  let ?k = "max (length done) (Suc i)"
  have pk: "i < length ?all" "m_PeekOffset s = length (frames (take i ?all))" "m_PeekLen s = length (?all ! i)" "m_bPeeked s"
    using assms(2) by (auto simp: peeked_at_def)
  have k: "length done \<le> ?k" "?k \<le> length ?all"
    using pk(1) by auto
  have W: "Files (Disk s) WAL_FILE = Some (frames ?all @ rest)" and V: "valid_records ?all" "first_record rest = None"
    and L: "length (frames ?all @ rest) \<le> MAX_OFF"
    using assms(1) by (simp_all add: crash_inv_def)
  have same: "left_over d ?all rest ?k" if "Files d = Files (Disk s)" for d
    by (rule left_over_old_commit [OF assms(1) _ disjI2 k]) (simp_all add: that commit_value_def)
  obtain sz s1 where z: "on_disk (sys_size WAL_FILE) ?s = (sz, s1)" by force
  note q1 = quiet_size [OF z]
  have F1: "Files (Disk s1) = Files (Disk s)"
    using q1 by (simp add: quiet_def)
  have next_eq: "m_PeekOffset s1 + 4 + m_PeekLen s1 = length (frames (take (Suc i) ?all))"
    using q1 pk frames_take_Suc [OF pk(1)] by (simp add: quiet_def)
  show ?thesis
  proof (cases "\<not> m_fd s \<or> m_bReplaying s \<or> m_PeekEpoch s \<noteq> m_PositionEpoch s \<or> sz = None")
    case True
    then have "ok = False \<and> (t = ?s \<or> t = s1)"
      using assms(4) pk(4) z
      by (cases "\<not> m_fd s \<or> m_bReplaying s \<or> m_PeekEpoch s \<noteq> m_PositionEpoch s"; simp add: Ack_def GetFileSize_def Let_def)
    then have "ok = False" "Files (Disk t) = Files (Disk s)"
      using F1 by (elim conjE disjE, simp_all)+
    with same show ?thesis
      by simp
  next
    case False
    then obtain n where n: "sz = Some n" by blast
    have fd: "m_fd s1"
      using q1 False by (simp add: quiet_def)
    have nl: "n = length (frames ?all @ rest)"
      using on_disk_size [OF z] n W by simp
    have le: "length (frames (take (Suc i) ?all)) \<le> n"
      using length_frames_split [of "Suc i" ?all] pk(1) nl by simp
    have A: "(if length (frames (take (Suc i) ?all)) = n then ClearInternal s1
        else StoreCommit (length (frames (take (Suc i) ?all))) s1) = (ok, t)"
      using assms(4) pk(4) False n z le next_eq by (simp add: Ack_def GetFileSize_def Let_def split: if_splits)
    show ?thesis
    proof (cases "length (frames (take (Suc i) ?all)) = n")
      case True
      have e: "Suc i = length ?all" "rest = []"
        using position_unique [of "Suc i" ?all rest] True nl pk(1) by simp_all
      from A True have c: "ClearInternal s1 = (ok, t)" by simp
      have E: "emptied (Disk s) ok (Disk t)"
        using ClearInternal_any [OF c fd] F1 by (cases ok) (simp_all add: emptied_def)
      have "left_over (Disk t) ?all [] ?k"
        by (rule emptied_left_over [OF E]) (use assms(1) e k in auto)
      moreover have "recovered (Disk t) = []" if ok
        using emptied_ok_recovered E that by simp
      ultimately show ?thesis
        using e by simp
    next
      case False
      with A have c: "StoreCommit (length (frames (take (Suc i) ?all))) s1 = (ok, t)" by simp
      have "\<forall>p. p \<noteq> CORRUPT_FILE \<longrightarrow> Files (Disk s1) p = Files (Disk s) p" "Suc i \<le> length ?all"
        using F1 pk(1) by simp_all
      from StoreCommit_left_over [OF assms(1) c this] show ?thesis
        by simp
    qed
  qed
qed

section \<open>Replay\<close>

text \<open>A function of the application which does not use the WAL, and the notes of what it accepted.\<close>

definition external :: "(bytes \<Rightarrow> 'c \<Rightarrow> consumed \<times> 'c) \<Rightarrow> 'c consumer" where
  "external f r = (\<lambda>(s, c). (case f r c of (x, c') \<Rightarrow> (x, s, c')))"

definition delivering :: "(bytes \<Rightarrow> 'c \<Rightarrow> consumed \<times> 'c) \<Rightarrow> bytes \<Rightarrow> 'c \<times> bytes list \<Rightarrow> consumed \<times> 'c \<times> bytes list" where
  "delivering f r = (\<lambda>(c, l). (case f r c of (x, c') \<Rightarrow> (x, c', if x = Accepted then l @ [r] else l)))"

text \<open>How the loop may end: in a state which emptied the WAL behind everything it accepted, or with the WAL as it was.\<close>

fun loop_end :: "replay_end \<Rightarrow> nat \<Rightarrow> disk \<Rightarrow> disk \<Rightarrow> bool" where
  "loop_end (LoopCleared ok) off d d' \<longleftrightarrow> read_result (READ_EMPTY ok) off d d' \<or> read_result (READ_DAMAGED ok) off d d'"
| "loop_end LoopChanged off d d' \<longleftrightarrow> False"
| "loop_end LoopStopped off d d' \<longleftrightarrow> (\<forall>p. p \<noteq> CORRUPT_FILE \<longrightarrow> Files d' p = Files d p)"
| "loop_end LoopThrew off d d' \<longleftrightarrow> (\<forall>p. p \<noteq> CORRUPT_FILE \<longrightarrow> Files d' p = Files d p)"

lemma read_result_cong:
  "Files d1 = Files d \<Longrightarrow> read_result r off d1 d' = read_result r off d d'"
  by (cases r) (simp_all add: emptied_def)

lemma loop_end_cong:
  "Files d1 = Files d \<Longrightarrow> loop_end how off d1 d' = loop_end how off d d'"
  by (cases how) (simp_all only: loop_end.simps read_result_cong [of d1 d])

lemma ReplayLoop_any:
  assumes "ReplayLoop fuel (external (delivering f)) off bDid (s, (c, l0)) = Some (how, off', bDid', t, (c', l))"
    and "m_fd s" and "contents WAL_FILE (Disk s) = frames all @ rest" and "valid_records all"
    and "first_record rest = None" and "i \<le> length all" and "off = length (frames (take i all))"
  shows "\<exists>m. l = l0 @ take m (drop i all) \<and> i + m \<le> length all \<and> off' = length (frames (take (i + m) all)) \<and>
    kept s t \<and> bDid' = (bDid \<or> m > 0) \<and> loop_end how off' (Disk s) (Disk t)"
  using assms
proof (induction fuel arbitrary: off bDid s c l0 i)
  case 0
  then show ?case by simp
next
  case (Suc fuel)
  note run = Suc.prems(1) and fd = Suc.prems(2) and W = Suc.prems(3) and V = Suc.prems(4,5) and i = Suc.prems(6,7)
  obtain r s1 where rd: "ReadRecord off s = (r, s1)" by force
  note R = ReadRecord_any [OF rd fd]
  have off_le: "off \<le> length (contents WAL_FILE (Disk s))"
    using W i length_frames_split [OF i(1)] by simp
  show ?case
  proof (cases r)
    case (READ_RECORD x)
    have "first_record (drop off (contents WAL_FILE (Disk s))) = (if i < length all then Some (all ! i) else None)"
      using first_record_at [OF i(1) V] W i(2) by simp
    then have x: "i < length all" "all ! i = x"
      using R READ_RECORD by (simp_all split: if_splits)
    have F: "Files (Disk s1) = Files (Disk s)" and K: "kept s s1"
      using R READ_RECORD by simp_all
    obtain a c1 where a: "f x c = (a, c1)" by force
    have step: "external (delivering f) x (s1, (c, l0)) = (a, s1, (c1, if a = Accepted then l0 @ [x] else l0))"
      using a by (simp add: external_def delivering_def)
    show ?thesis
    proof (cases "a = Accepted")
      case True
      have run1: "ReplayLoop fuel (external (delivering f)) (off + 4 + length x) True (s1, (c1, l0 @ [x])) =
          Some (how, off', bDid', t, (c', l))"
        using run rd READ_RECORD step True by simp
      have fd1: "m_fd s1" and W1: "contents WAL_FILE (Disk s1) = frames all @ rest"
        using K fd F W by (simp_all add: kept_def)
      have i1: "Suc i \<le> length all" "off + 4 + length x = length (frames (take (Suc i) all))"
        using x i frames_take_Suc [OF x(1)] by simp_all
      from Suc.IH [OF run1 fd1 W1 V i1] obtain m where m: "l = (l0 @ [x]) @ take m (drop (Suc i) all)"
        "Suc i + m \<le> length all" "off' = length (frames (take (Suc i + m) all))" "kept s1 t" "bDid'"
        "loop_end how off' (Disk s1) (Disk t)"
        by auto
      have "take (Suc m) (drop i all) = x # take m (drop (Suc i) all)"
        using x by (simp flip: Cons_nth_drop_Suc)
      then show ?thesis
        using m kept_trans [OF K] loop_end_cong [OF F] by (intro exI [of _ "Suc m"]) simp
    next
      case False
      have "off' = off" "bDid' = bDid" "t = s1" "l = l0" "how = LoopStopped \<or> how = LoopThrew"
        using run rd READ_RECORD step False by (cases a; simp)+
      then show ?thesis
        using i K F by (intro exI [of _ 0]) auto
    qed
  next
    case (READ_EMPTY ok)
    then have "off' = off" "bDid' = bDid" "t = s1" "l = l0" "how = LoopCleared ok"
      using run rd by simp_all
    then show ?thesis
      using i R READ_EMPTY by (intro exI [of _ 0]) simp
  next
    case (READ_DAMAGED ok)
    then have "off' = off" "bDid' = bDid" "t = s1" "l = l0" "how = LoopCleared ok"
      using run rd by simp_all
    then show ?thesis
      using i R READ_DAMAGED by (intro exI [of _ 0]) simp
  next
    case READ_CHANGED
    then show ?thesis
      using R off_le by simp
  next
    case READ_STOP
    then have "off' = off" "bDid' = bDid" "t = s1" "l = l0" "how = LoopStopped"
      using run rd by simp_all
    then show ?thesis
      using i R READ_STOP by (intro exI [of _ 0]) simp
  qed
qed

text \<open>What the end of a replay leaves, for each way the loop ended.\<close>

lemma replay_end_any:
  assumes "crash_inv d done rs rest" and "loop_end how (length (frames (take k (done @ rs)))) d (Disk s)"
    and "ReplayEnd how (length (frames (take k (done @ rs)))) bDid s = (r, t)" and "k \<le> length (done @ rs)"
  shows "left_over (Disk t) (done @ rs) rest (max (length done) k) \<and>
       (if r = Some True then recovered (Disk t) = drop k (done @ rs) else True) \<or>
     set_aside d (Disk t) (drop k (done @ rs)) rest"
proof -
  let ?all = "done @ rs"
  let ?off = "length (frames (take k ?all))"
  have W: "Files d WAL_FILE = Some (frames ?all @ rest)"
    using assms(1) by (simp add: crash_inv_def)
  have same: "left_over d' ?all rest (max (length done) k)"
    if "Files d' WAL_FILE = Files d WAL_FILE" "Files d' COMMIT_FILE = Files d COMMIT_FILE \<or> Files d' COMMIT_FILE = None" for d'
    by (rule left_over_old_commit [OF assms(1)]) (use that assms(4) in \<open>auto simp: commit_value_def\<close>)
  have tail: "drop ?off (frames ?all @ rest) = frames (drop k ?all) @ rest"
    by (rule drop_frames [OF assms(4)])
  show ?thesis
  proof (cases how)
    case (LoopCleared ok)
    then have rt: "r = Some ok" "Disk t = Disk s"
      using assms(3) by (auto simp: ReplayEnd_def)
    from assms(2) LoopCleared consider "read_result (READ_EMPTY ok) ?off d (Disk s)"
      | "read_result (READ_DAMAGED ok) ?off d (Disk s)" by auto
    then show ?thesis
    proof cases
      case 1
      then have k: "k = length ?all" "rest = []" and Em: "emptied d ok (Disk s)"
        using position_unique [OF assms(4), of rest] W by simp_all
      have "left_over (Disk s) ?all [] (max (length done) k)"
        by (rule emptied_left_over [OF Em]) (use assms(1) k in auto)
      moreover have "recovered (Disk s) = drop k ?all" if ok
        using emptied_ok_recovered Em that k by simp
      ultimately show ?thesis
        using rt k by simp
    next
      case 2
      show ?thesis
      proof (cases "Files (Disk s) WAL_FILE = Some [] \<and> Files (Disk s) COMMIT_FILE = None")
        case True
        then show ?thesis
          using 2 W tail rt(2) crash_inv_empty by (simp add: set_aside_def)
      next
        case False
        with 2 have "\<not> ok" "Files (Disk s) WAL_FILE = Files d WAL_FILE"
          "Files (Disk s) COMMIT_FILE = Files d COMMIT_FILE \<or> Files (Disk s) COMMIT_FILE = None"
          by (auto split: if_splits)
        with same [of "Disk s"] rt show ?thesis
          by simp
      qed
    qed
  next
    case LoopChanged
    with assms(2) show ?thesis by simp
  next
    case LoopThrew
    then have "r = None" "Disk t = Disk s"
      using assms(3) by (auto simp: ReplayEnd_def)
    with same [of "Disk s"] assms(2) LoopThrew show ?thesis
      by simp
  next
    case LoopStopped
    show ?thesis
    proof (cases bDid)
      case False
      then have "r = Some False" "Disk t = Disk s"
        using assms(3) LoopStopped by (auto simp: ReplayEnd_def)
      with same [of "Disk s"] assms(2) LoopStopped show ?thesis
        by simp
    next
      case True
      then obtain ok where c: "StoreCommit ?off (s\<lparr>m_bReplaying := False\<rparr>) = (ok, t)" "r = Some ok"
        using assms(3) LoopStopped by (auto simp: ReplayEnd_def split: prod.splits)
      have "\<forall>p. p \<noteq> CORRUPT_FILE \<longrightarrow> Files (Disk (s\<lparr>m_bReplaying := False\<rparr>)) p = Files d p"
        using assms(2) LoopStopped by simp
      from StoreCommit_left_over [OF assms(1) c(1) this assms(4)] c(2) show ?thesis
        by auto
    qed
  qed
qed

lemma ReplayBegin_any:
  assumes "ReplayBegin s = (r, t)" and "crash_inv (Disk s) done rs rest"
  shows "Files (Disk t) = Files (Disk s) \<and> m_fd t = m_fd s \<and>
    (\<forall>off. r = Some off \<longrightarrow> (\<exists>i \<le> length done. off = length (frames (take i (done @ rs)))))"
proof (cases "m_bReplaying s")
  case True
  with assms show ?thesis
    by (simp add: ReplayBegin_def)
next
  case False
  let ?s = "s\<lparr>m_bReplaying := True\<rparr>"
  obtain op s1 where o: "on_disk (open_read WAL_FILE) ?s = (op, s1)" by force
  note q1 = quiet_open_read [OF o]
  obtain sz s2 where z: "on_disk (sys_size WAL_FILE) s1 = (sz, s2)" by force
  note q2 = quiet_trans [OF q1 quiet_size [OF z]]
  have Q: "Files (Disk s1) = Files (Disk s)" "m_fd s1 = m_fd s" "Files (Disk s2) = Files (Disk s)" "m_fd s2 = m_fd s"
    using q1 q2 by (simp_all add: quiet_def)
  show ?thesis
  proof (cases "op \<and> sz \<noteq> None")
    case False
    then have "r = None" and "Disk t = Disk s1 \<and> m_fd t = m_fd s1 \<or> Disk t = Disk s2 \<and> m_fd t = m_fd s2"
      using assms(1) \<open>\<not> m_bReplaying s\<close> o z
      by (cases op; cases sz; simp add: ReplayBegin_def; clarsimp simp: QueueLine_def)+
    then show ?thesis
      using Q by auto
  next
    case True
    then obtain n where n: "sz = Some n" by blast
    obtain off s3 where p: "GetReplayPosition n s2 = (off, s3)" by force
    note P = GetReplayPosition_any [OF p]
    have "r = Some off" "t = s3"
      using assms(1) \<open>\<not> m_bReplaying s\<close> o z True n p by (simp_all add: ReplayBegin_def)
    moreover obtain k where k: "k \<le> length done" "commit_value (Disk s) = length (frames (take k (done @ rs)))"
      using assms(2) by (rule commit_value_crash_inv)
    moreover have "off = 0 \<or> off = commit_value (Disk s)"
      using P Q(3) by (auto simp: commit_value_def)
    ultimately show ?thesis
      using P Q by (auto simp: kept_def intro: exI [of _ 0])
  qed
qed

text \<open>C1. \<open>Replay\<close> loses nothing under failures: it delivers a run of the records in their order which starts at or
  before the first one which was not accepted; afterwards a new object recovers every record which neither this
  replay nor an earlier acceptance took out, or the rest of the file is at the end of the file for unreadable data.
  When it returns true, the progress is saved: no record which it delivered is delivered again.\<close>

theorem Replay_crash_safe:
  assumes "crash_inv (Disk s) done rs rest" and "m_fd s"
    and "Replay fuel (external (delivering f)) (s, (c, [])) = Some (res, t, (c', l))"
  shows "\<exists>i m. i \<le> length done \<and> i + m \<le> length (done @ rs) \<and> l = take m (drop i (done @ rs)) \<and>
    (left_over (Disk t) (done @ rs) rest (max (length done) (i + m)) \<and>
       (if res = Some True then recovered (Disk t) = drop (i + m) (done @ rs) else True) \<or>
     set_aside (Disk s) (Disk t) (drop (i + m) (done @ rs)) rest)"
proof -
  let ?all = "done @ rs"
  have W: "Files (Disk s) WAL_FILE = Some (frames ?all @ rest)" and V: "valid_records ?all" "first_record rest = None"
    using assms(1) by (simp_all add: crash_inv_def)
  have same: "left_over (Disk t') ?all rest (max (length done) k)"
    if "\<forall>p. p \<noteq> CORRUPT_FILE \<longrightarrow> Files (Disk t') p = Files (Disk s) p" "k \<le> length ?all" for t' k
    by (rule left_over_old_commit [OF assms(1) _ disjI2]) (use that in \<open>simp_all add: commit_value_def\<close>)
  obtain b s1 where b: "ReplayBegin s = (b, s1)" by force
  note B = ReplayBegin_any [OF b assms(1)]
  show ?thesis
  proof (cases b)
    case None
    then have "res = Some False" "t = s1" "l = []"
      using assms(3) b by (simp_all add: Replay_def)
    then show ?thesis
      using B same [of s1 0] by (intro exI [of _ 0]) simp
  next
    case (Some off)
    with B obtain i where i: "i \<le> length done" "off = length (frames (take i ?all))" by blast
    obtain how off' bDid s2 c2 l2 where lp:
      "ReplayLoop fuel (external (delivering f)) off False (s1, (c, [])) = Some (how, off', bDid, s2, (c2, l2))"
      using assms(3) b Some by (auto simp: Replay_def split: option.splits)
    have fd: "m_fd s1" and W1: "contents WAL_FILE (Disk s1) = frames ?all @ rest" and il: "i \<le> length ?all"
      using B assms(2) W i(1) by simp_all
    from ReplayLoop_any [OF lp fd W1 V il i(2)] obtain m where m: "l2 = take m (drop i ?all)" "i + m \<le> length ?all"
      "off' = length (frames (take (i + m) ?all))" "kept s1 s2" "bDid = (m > 0)" "loop_end how off' (Disk s1) (Disk s2)"
      by auto
    have E: "loop_end how off' (Disk s) (Disk s2)"
      using m(6) B loop_end_cong [of "Disk s1" "Disk s"] by simp
    obtain r s3 where e: "ReplayEnd how off' bDid s2 = (r, s3)" by force
    have res: "res = r" "t = s3" "l = l2"
      using assms(3) b Some lp e by (simp_all add: Replay_def)
    have "left_over (Disk t) ?all rest (max (length done) (i + m)) \<and>
         (if res = Some True then recovered (Disk t) = drop (i + m) ?all else True) \<or>
       set_aside (Disk s) (Disk t) (drop (i + m) ?all) rest"
      unfolding res by (rule replay_end_any [OF assms(1) E [unfolded m(3)] e [unfolded m(3)] m(2)])
    then show ?thesis
      using i(1) m(1,2) res(3) by blast
  qed
qed

end
