(* ===== verification/WalRecovery.thy ===== *)
theory WalRecovery imports WalTheorems begin

text \<open>
  What the WAL does on a disk without failures (an empty script): the functions compute what the abstract view says.
  A new object which replays delivers exactly \<open>recovered\<close>, so the crash theorems, which are about \<open>recovered\<close>, are
  about what the code delivers after a restart.
\<close>

section \<open>The private functions without failures\<close>

lemma Disk_update_same [simp]: "s\<lparr>Disk := Disk s\<rparr> = s"
  by simp

lemma on_disk_ok:
  assumes "Script (Disk s) = []"
  shows "on_disk (sys_size p) s = (Some (length (contents p (Disk s))), s)"
    and "on_disk (sys_pread p n off) s = (Some (take n (drop off (contents p (Disk s)))), s)"
    and "on_disk (open_read p) s = (Files (Disk s) p \<noteq> None, s)"
    and "on_disk call s = (None, s)"
    and "on_disk (open_trunc p) s = (True, s\<lparr>Disk := set_contents p (Some []) (Disk s)\<rparr>)"
    and "on_disk (open_append p) s = (True, s\<lparr>Disk := set_contents p (Some (contents p (Disk s))) (Disk s)\<rparr>)"
    and "on_disk (sys_ftruncate p n) s = (True, s\<lparr>Disk := set_contents p (Some (take n (contents p (Disk s)))) (Disk s)\<rparr>)"
    and "on_disk (sys_unlink p) s = (if Files (Disk s) p = None then (Some ENOENT, s)
           else (None, s\<lparr>Disk := set_contents p None (Disk s)\<rparr>))"
  using assms by (simp_all add: on_disk_def disk_ok)

lemma Disk_same [simp]: "set_contents p (Files d p) d = d"
  by (simp add: set_contents_def)

lemma LoadCommit_ok: "Script (Disk s) = [] \<Longrightarrow> \<exists>t. LoadCommit s = (commit_value (Disk s), t) \<and> quiet s t \<and> Disk t = Disk s"
  by (cases "Files (Disk s) COMMIT_FILE") (simp_all add: LoadCommit_def on_disk_ok commit_value_def)

lemma IsRecordBoundary_from_ok:
  assumes "Script (Disk s) = []" and "Offset < FileSize" and "FileSize = length (contents WAL_FILE (Disk s))" and "Pos \<le> FileSize"
  shows "IsRecordBoundary_from Pos Offset FileSize s =
    (\<exists>k \<le> length (records (drop Pos (contents WAL_FILE (Disk s)))).
       Offset = Pos + length (frames (take k (records (drop Pos (contents WAL_FILE (Disk s)))))), s)"
  using assms
proof (induction Pos Offset FileSize s rule: IsRecordBoundary_from.induct)
  case (1 Pos Offset FileSize s)
  let ?f = "contents WAL_FILE (Disk s)"
  let ?bs = "take 4 (drop Pos ?f)"
  show ?case
  proof (cases "Pos < Offset")
    case False
    then show ?thesis
      by (subst IsRecordBoundary_from.simps) (auto intro: exI [of _ 0])
  next
    case lt: True
    have p: "on_disk (sys_pread WAL_FILE 4 Pos) s = (Some ?bs, s)"
      using on_disk_ok [OF "1.prems"(1)] by simp
    show ?thesis
    proof (cases "first_record (drop Pos ?f)")
      case None
      then have "length ?bs \<noteq> 4 \<or> le_value ?bs = 0 \<or> le_value ?bs > FileSize - Pos - 4"
        using "1.prems"(3) by (auto simp: first_record_def Let_def split: if_splits)
      then have "IsRecordBoundary_from Pos Offset FileSize s = (False, s)"
        using lt p by (subst IsRecordBoundary_from.simps) simp
      moreover have "records (drop Pos ?f) = []"
        using None by (simp add: records.simps)
      ultimately show ?thesis
        using lt by simp
    next
      case (Some r)
      then have good: "length ?bs = 4" "\<not> (le_value ?bs = 0 \<or> le_value ?bs > FileSize - Pos - 4)" "length r = le_value ?bs"
        using "1.prems"(3) by (auto simp: first_record_def Let_def split: if_splits)
      have le: "Pos + 4 + le_value ?bs \<le> FileSize"
      proof -
        have "4 \<le> FileSize - Pos" using good(1) "1.prems"(3) by simp
        then show ?thesis using good(2) "1.prems"(4) by linarith
      qed
      have rec: "records (drop Pos ?f) = r # records (drop (Pos + 4 + length r) ?f)"
        using Some by (subst records.simps) (simp add: add.commute add.left_commute)
      have IH: "IsRecordBoundary_from (Pos + 4 + le_value ?bs) Offset FileSize s =
         (\<exists>k \<le> length (records (drop (Pos + 4 + le_value ?bs) ?f)).
            Offset = Pos + 4 + le_value ?bs + length (frames (take k (records (drop (Pos + 4 + le_value ?bs) ?f)))), s)"
        using "1.IH" [OF lt p [symmetric] refl _ good(2) "1.prems"(1-3) le] good(1) by simp
      have step: "IsRecordBoundary_from Pos Offset FileSize s = IsRecordBoundary_from (Pos + 4 + le_value ?bs) Offset FileSize s"
        using lt p good by (subst IsRecordBoundary_from.simps) simp
      have "(\<exists>k \<le> length (records (drop Pos ?f)). Offset = Pos + length (frames (take k (records (drop Pos ?f))))) \<longleftrightarrow>
         (\<exists>k \<le> length (records (drop (Pos + 4 + le_value ?bs) ?f)).
            Offset = Pos + 4 + le_value ?bs + length (frames (take k (records (drop (Pos + 4 + le_value ?bs) ?f)))))"
        (is "(\<exists>k \<le> length ?R. ?P k) \<longleftrightarrow> (\<exists>k \<le> length ?R'. ?P' k)")
      proof
        assume "\<exists>k \<le> length ?R. ?P k"
        then obtain k where k: "k \<le> length ?R" "?P k" by blast
        with lt have "k \<noteq> 0" by (cases k) auto
        then obtain j where "k = Suc j" by (cases k) auto
        with k show "\<exists>k \<le> length ?R'. ?P' k"
          unfolding rec good(3) [symmetric] by (intro exI [of _ j]) simp
      next
        assume "\<exists>k \<le> length ?R'. ?P' k"
        then obtain k where "k \<le> length ?R'" "?P' k" by blast
        then show "\<exists>k \<le> length ?R. ?P k"
          unfolding rec good(3) [symmetric] by (intro exI [of _ "Suc k"]) simp
      qed
      with IH step show ?thesis
        by simp
    qed
  qed
qed

lemma GetReplayPosition_ok:
  assumes "Script (Disk s) = []" and "n = length (contents WAL_FILE (Disk s))" and "\<not> m_bCommitChecked s"
  shows "\<exists>t. GetReplayPosition n s = (start_position (Disk s), t) \<and> kept s t \<and> Disk t = Disk s \<and> m_bCommitChecked t"
proof -
  let ?c = "commit_value (Disk s)"
  obtain s0 where l: "LoadCommit s = (?c, s0)" and q: "quiet s s0" and d: "Disk s0 = Disk s"
    using LoadCommit_ok [OF assms(1)] by blast
  have nc: "\<not> m_bCommitChecked s0"
    using q assms(3) by (simp add: quiet_def)
  have k: "kept s s0"
    using q by (rule quiet_kept)
  consider (behind) "?c > n" | (inside) "0 < ?c" "?c < n" | (edge) "?c = 0 \<or> ?c = n"
    by linarith
  then show ?thesis
  proof cases
    case behind
    then show ?thesis
      using l nc d k assms(2)
      by (simp add: GetReplayPosition_def start_position_def Let_def QueueLine_def kept_def)
  next
    case inside
    have b: "IsRecordBoundary ?c n s0 = (?c \<in> set (boundaries (contents WAL_FILE (Disk s))), s0)"
      using IsRecordBoundary_from_ok [of s0 ?c n 0] inside assms d
      by (simp add: IsRecordBoundary_def boundaries_iff boundary_def)
    show ?thesis
      using l nc d k assms(2) inside b
      by (cases "?c \<in> set (boundaries (contents WAL_FILE (Disk s)))")
        (simp_all add: GetReplayPosition_def start_position_def Let_def QueueLine_def kept_def)
  next
    case edge
    then show ?thesis
      using l nc d k assms(2)
      by (elim disjE) (simp_all add: GetReplayPosition_def start_position_def Let_def kept_def)
  qed
qed

section \<open>Reading without failures\<close>

lemma ClearInternal_ok:
  assumes "Script (Disk s) = []" and "m_fd s"
  shows "\<exists>t. ClearInternal s = (True, t) \<and> Script (Disk t) = [] \<and> kept s t \<and>
    Files (Disk t) = (Files (Disk s))(COMMIT_FILE := None, WAL_FILE := Some []) \<and>
    \<not> m_PendingReplay t \<and> \<not> m_bPeeked t \<and> m_PositionEpoch t = Suc (m_PositionEpoch s) \<and> m_PeekEpoch t = m_PeekEpoch s"
proof -
  let ?d = "if Files (Disk s) COMMIT_FILE = None then Disk s else set_contents COMMIT_FILE None (Disk s)"
  define s1 where "s1 = s\<lparr>Disk := set_contents WAL_FILE (Some []) ?d\<rparr>"
  let ?t = "s1\<lparr>m_PendingReplay := False, m_bFullLogged := False, m_bPeeked := False, m_PositionEpoch := m_PositionEpoch s1 + 1\<rparr>"
  have "ClearInternal s = (True, QueueInfo ''WAL reset'' ?t)"
    using assms by (cases "Files (Disk s) COMMIT_FILE") (simp_all add: ClearInternal_def on_disk_ok s1_def)
  moreover have "Files (Disk s1) = (Files (Disk s))(COMMIT_FILE := None, WAL_FILE := Some [])"
    by (cases "Files (Disk s) COMMIT_FILE") (auto simp: s1_def fun_eq_iff)
  moreover have "Script (Disk s1) = []" "m_PositionEpoch s1 = m_PositionEpoch s" "m_PeekEpoch s1 = m_PeekEpoch s" "kept s s1"
    using assms by (simp_all add: s1_def kept_def)
  ultimately show ?thesis
    by (simp add: QueueInfo_def QueueLine_def kept_def)
qed

lemma CopyTail_ok:
  assumes "Script d = []" and "To = length (contents WAL_FILE d)"
    and "length (contents CORRUPT_FILE d) + (To - Pos) \<le> MAX_OFF" and "Files d CORRUPT_FILE \<noteq> None"
  shows "CopyTail Pos To d = (True, set_contents CORRUPT_FILE (Some (contents CORRUPT_FILE d @ drop Pos (contents WAL_FILE d))) d)"
  using assms
proof (induction Pos To d rule: CopyTail.induct)
  case (1 Pos To d)
  show ?case
  proof (cases "Pos < To")
    case False
    have "Some (contents CORRUPT_FILE d) = Files d CORRUPT_FILE"
      using "1.prems"(4) by auto
    then have "d = set_contents CORRUPT_FILE (Some (contents CORRUPT_FILE d)) d"
      by simp
    then show ?thesis
      using False "1.prems"(2) by (subst CopyTail.simps) simp
  next
    case lt: True
    define f where "f = contents WAL_FILE d"
    define c where "c = contents CORRUPT_FILE d"
    define bs where "bs = take (min 65536 (To - Pos)) (drop Pos f)"
    define d2 where "d2 = set_contents CORRUPT_FILE (Some (c @ bs)) d"
    have r: "sys_pread WAL_FILE (min 65536 (To - Pos)) Pos d = (Some bs, d)"
      unfolding bs_def f_def by (rule sys_pread_ok [OF "1.prems"(1)])
    have len: "length bs = min 65536 (To - Pos)"
      using "1.prems"(2) by (simp add: bs_def f_def)
    then have ne: "bs \<noteq> []"
      using lt by auto
    have w: "WriteAllToFd CORRUPT_FILE bs d = (True, d2)"
      unfolding d2_def c_def by (rule WriteAllToFd_ok [OF "1.prems"(1) _ ne]) (use "1.prems"(3) len in simp)
    have D2: "contents WAL_FILE d2 = f" "contents CORRUPT_FILE d2 = c @ bs" "Script d2 = []" "Files d2 CORRUPT_FILE \<noteq> None"
      using "1.prems"(1) by (simp_all add: d2_def f_def)
    have p2: "To = length (contents WAL_FILE d2)"
      "length (contents CORRUPT_FILE d2) + (To - (Pos + length bs)) \<le> MAX_OFF"
      unfolding D2 using "1.prems"(2,3) len lt by (simp_all add: f_def c_def)
    note IH = "1.IH" [OF lt r [symmetric] refl ne w [symmetric] refl D2(3) p2 D2(4)]
    have tl: "bs @ drop (Pos + length bs) f = drop Pos f"
    proof -
      have "drop (Pos + length bs) f = drop (length bs) (drop Pos f)"
        by (simp add: add.commute)
      moreover have "bs = take (length bs) (drop Pos f)"
        unfolding len by (rule bs_def)
      ultimately show ?thesis
        using append_take_drop_id [of "length bs" "drop Pos f"] by argo
    qed
    have "CopyTail Pos To d = CopyTail (Pos + length bs) To d2"
      unfolding CopyTail.simps [of Pos To d] r using lt ne w by simp
    also have "\<dots> = (True, set_contents CORRUPT_FILE (Some (c @ drop Pos f)) d2)"
      unfolding IH D2 append_assoc tl ..
    also have "\<dots> = (True, set_contents CORRUPT_FILE (Some (c @ drop Pos f)) d)"
      by (simp add: set_contents_def d2_def)
    finally show ?thesis
      unfolding c_def f_def .
  qed
qed

lemma QuarantineTail_ok:
  assumes "Script (Disk s) = []" and "To = length (contents WAL_FILE (Disk s))"
    and "length (contents CORRUPT_FILE (Disk s)) + (To - Pos) \<le> MAX_OFF"
  shows "\<exists>t. QuarantineTail Pos To s = (True, t) \<and> Script (Disk t) = [] \<and> kept s t \<and>
    Files (Disk t) = (Files (Disk s))(CORRUPT_FILE := Some (contents CORRUPT_FILE (Disk s) @ drop Pos (contents WAL_FILE (Disk s)))) \<and>
    m_PositionEpoch t = m_PositionEpoch s \<and> m_PeekEpoch t = m_PeekEpoch s"
proof -
  define d1 where "d1 = set_contents CORRUPT_FILE (Some (contents CORRUPT_FILE (Disk s))) (Disk s)"
  define d2 where "d2 = set_contents CORRUPT_FILE (Some (contents CORRUPT_FILE d1 @ drop Pos (contents WAL_FILE d1))) d1"
  have "CopyTail Pos To d1 = (True, d2)"
    unfolding d2_def by (rule CopyTail_ok) (use assms in \<open>simp_all add: d1_def\<close>)
  then have c: "on_disk (CopyTail Pos To) (s\<lparr>Disk := d1\<rparr>) = (True, s\<lparr>Disk := d2\<rparr>)"
    by (simp add: on_disk_def)
  have o: "on_disk (open_append CORRUPT_FILE) s = (True, s\<lparr>Disk := d1\<rparr>)"
    using assms(1) by (simp add: on_disk_ok d1_def)
  have "QuarantineTail Pos To s = (True, QueueLine (MsgQuarantined Pos (To - Pos)) (s\<lparr>Disk := d2\<rparr>))"
    using o c by (simp add: QuarantineTail_def)
  moreover have "Script d2 = []" "Files d2 =
      (Files (Disk s))(CORRUPT_FILE := Some (contents CORRUPT_FILE (Disk s) @ drop Pos (contents WAL_FILE (Disk s))))"
    using assms(1) by (simp_all add: d2_def d1_def)
  ultimately show ?thesis
    by (simp add: QueueLine_def kept_def)
qed

lemma ReadRecord_next:
  assumes "Script (Disk s) = []" and "off \<le> length (contents WAL_FILE (Disk s))"
    and "first_record (drop off (contents WAL_FILE (Disk s))) = Some r"
  shows "ReadRecord off s = (READ_RECORD r, s)"
proof -
  define f where "f = contents WAL_FILE (Disk s)"
  define bs where "bs = take 4 (drop off f)"
  have r: "4 \<le> length f - off" "le_value bs \<noteq> 0" "le_value bs \<le> length f - off - 4" "r = take (le_value bs) (drop 4 (drop off f))"
    using assms(3) unfolding f_def [symmetric] by (auto simp: first_record_def Let_def bs_def split: if_splits)
  have len: "length bs = 4" "length r = le_value bs"
    using r by (simp_all add: bs_def)
  have z: "on_disk (sys_size WAL_FILE) s = (Some (length f), s)"
    using assms(1) by (simp add: on_disk_ok f_def)
  have p1: "on_disk (sys_pread WAL_FILE 4 off) s = (Some bs, s)"
    using assms(1) by (simp add: on_disk_ok f_def bs_def)
  have p2: "on_disk (sys_pread WAL_FILE (le_value bs) (off + 4)) s = (Some r, s)"
    using assms(1) r(4) by (simp add: on_disk_ok f_def [symmetric] add.commute)
  have c: "on_disk call s = (None, s)"
    using assms(1) by (simp add: on_disk_ok)
  have "\<not> length f < off" "off \<noteq> length f" "\<not> length f - off - 4 < le_value bs"
    using r by linarith+
  then show ?thesis
    unfolding ReadRecord_def z p1 p2 c prod.case option.case using len r by simp
qed

text \<open>The end of the records: the WAL is emptied, a piece which is not a record goes to the other file.\<close>

lemma ReadRecord_last:
  assumes "Script (Disk s) = []" and "m_fd s" and "contents WAL_FILE (Disk s) = pre @ rest" and "first_record rest = None"
    and "length (contents CORRUPT_FILE (Disk s)) + length rest \<le> MAX_OFF"
  shows "\<exists>x t. ReadRecord (length pre) s = (x, t) \<and> x \<in> {READ_EMPTY True, READ_DAMAGED True} \<and> Script (Disk t) = [] \<and>
    kept s t \<and> Files (Disk t) WAL_FILE = Some [] \<and> Files (Disk t) COMMIT_FILE = None \<and>
    contents CORRUPT_FILE (Disk t) = contents CORRUPT_FILE (Disk s) @ rest \<and> \<not> m_PendingReplay t \<and> \<not> m_bPeeked t \<and>
    m_PositionEpoch t = Suc (m_PositionEpoch s) \<and> m_PeekEpoch t = m_PeekEpoch s"
proof (cases "rest = []")
  case True
  from ClearInternal_ok [OF assms(1,2)] obtain t where t: "ClearInternal s = (True, t)" "Script (Disk t) = []" "kept s t"
    "Files (Disk t) = (Files (Disk s))(COMMIT_FILE := None, WAL_FILE := Some [])" "\<not> m_PendingReplay t" "\<not> m_bPeeked t"
    "m_PositionEpoch t = Suc (m_PositionEpoch s)" "m_PeekEpoch t = m_PeekEpoch s"
    by blast
  then have "ReadRecord (length pre) s = (READ_EMPTY True, t)"
    using assms(1,3) True by (simp add: ReadRecord_def on_disk_ok)
  then show ?thesis
    using t True by simp
next
  case False
  let ?f = "contents WAL_FILE (Disk s)"
  have bad: "length (take 4 rest) \<noteq> 4 \<or> le_value (take 4 rest) = 0 \<or> le_value (take 4 rest) > length rest - 4"
    using assms(4) by (auto simp: first_record_def Let_def split: if_splits)
  have "length (contents CORRUPT_FILE (Disk s)) + (length ?f - length pre) \<le> MAX_OFF"
    using assms(3,5) by simp
  from QuarantineTail_ok [OF assms(1) refl this] assms(3) obtain u where u:
    "QuarantineTail (length pre) (length (pre @ rest)) s = (True, u)" "Script (Disk u) = []" "kept s u"
    "Files (Disk u) = (Files (Disk s))(CORRUPT_FILE := Some (contents CORRUPT_FILE (Disk s) @ rest))"
    "m_PositionEpoch u = m_PositionEpoch s" "m_PeekEpoch u = m_PeekEpoch s"
    by auto
  have "m_fd u"
    using u(3) assms(2) by (simp add: kept_def)
  from ClearInternal_ok [OF u(2) this] obtain t where t: "ClearInternal u = (True, t)" "Script (Disk t) = []" "kept u t"
    "Files (Disk t) = (Files (Disk u))(COMMIT_FILE := None, WAL_FILE := Some [])" "\<not> m_PendingReplay t" "\<not> m_bPeeked t"
    "m_PositionEpoch t = Suc (m_PositionEpoch u)" "m_PeekEpoch t = m_PeekEpoch u"
    by blast
  have "ReadRecord (length pre) s = (READ_DAMAGED True, t)"
    using assms(1,3) False bad u(1) t(1) by (simp add: ReadRecord_def on_disk_ok)
  then show ?thesis
    using t u kept_trans [OF u(3) t(3)] by simp
qed

section \<open>Replay without failures\<close>

text \<open>A function which accepts as many records as its state says.\<close>

definition taking :: "bytes \<Rightarrow> nat \<Rightarrow> consumed \<times> nat" where
  "taking r n = (if n = 0 then (Refused, 0) else (Accepted, n - 1))"

definition emptied_ok :: "wal \<Rightarrow> bytes \<Rightarrow> wal \<Rightarrow> bool" where
  "emptied_ok s rest t \<longleftrightarrow> Script (Disk t) = [] \<and> kept s t \<and> Files (Disk t) WAL_FILE = Some [] \<and>
    Files (Disk t) COMMIT_FILE = None \<and> contents CORRUPT_FILE (Disk t) = contents CORRUPT_FILE (Disk s) @ rest \<and>
    \<not> m_PendingReplay t \<and> \<not> m_bPeeked t \<and> m_PositionEpoch t = Suc (m_PositionEpoch s) \<and> m_PeekEpoch t = m_PeekEpoch s"

lemma ReplayLoop_ok:
  assumes "Script (Disk s) = []" and "m_fd s" and "contents WAL_FILE (Disk s) = frames all @ rest"
    and "valid_records all" and "first_record rest = None"
    and "length (contents CORRUPT_FILE (Disk s)) + length rest \<le> MAX_OFF"
    and "i \<le> length all" and "length all - i < fuel"
  shows "\<exists>t k'. ReplayLoop fuel (external (delivering taking)) (length (frames (take i all))) bDid (s, (k, l)) =
     (if length all - i \<le> k
      then Some (LoopCleared True, length (frames all), bDid \<or> i < length all, t, (k', l @ drop i all))
      else Some (LoopStopped, length (frames (take (i + k) all)), bDid \<or> 0 < k, t, (k', l @ take k (drop i all)))) \<and>
     (if length all - i \<le> k then emptied_ok s rest t else t = s)"
  using assms(7,8)
proof (induction fuel arbitrary: i k l bDid)
  case 0
  then show ?case by simp
next
  case (Suc fuel)
  let ?off = "length (frames (take i all))"
  have le: "?off \<le> length (contents WAL_FILE (Disk s))"
    using assms(3) length_frames_split [OF Suc.prems(1)] by simp
  have fr: "first_record (drop ?off (contents WAL_FILE (Disk s))) = (if i < length all then Some (all ! i) else None)"
    using first_record_at [OF Suc.prems(1) assms(4,5)] assms(3) by simp
  show ?case
  proof (cases "i < length all")
    case True
    then have rd: "ReadRecord ?off s = (READ_RECORD (all ! i), s)"
      using ReadRecord_next [OF assms(1) le] fr by simp
    show ?thesis
    proof (cases k)
      case 0
      then have "external (delivering taking) (all ! i) (s, (k, l)) = (Refused, s, (0, l))"
        by (simp add: external_def delivering_def taking_def)
      then show ?thesis
        using rd True 0 by simp
    next
      case (Suc j)
      have "external (delivering taking) (all ! i) (s, (k, l)) = (Accepted, s, (j, l @ [all ! i]))"
        using Suc by (simp add: external_def delivering_def taking_def)
      then have step: "ReplayLoop (Suc fuel) (external (delivering taking)) ?off bDid (s, (k, l)) =
          ReplayLoop fuel (external (delivering taking)) (length (frames (take (Suc i) all))) True (s, (j, l @ [all ! i]))"
        using rd frames_take_Suc [OF True] by simp
      have d: "drop i all = all ! i # drop (Suc i) all"
        using True by (simp flip: Cons_nth_drop_Suc)
      have "Suc i \<le> length all" "length all - Suc i < fuel"
        using True Suc.prems(2) by simp_all
      from Suc.IH [OF this, of True j "l @ [all ! i]"] obtain t k' where IH:
        "ReplayLoop fuel (external (delivering taking)) (length (frames (take (Suc i) all))) True (s, (j, l @ [all ! i])) =
          (if length all - Suc i \<le> j
           then Some (LoopCleared True, length (frames all), True \<or> Suc i < length all, t, (k', (l @ [all ! i]) @ drop (Suc i) all))
           else Some (LoopStopped, length (frames (take (Suc i + j) all)), True \<or> 0 < j, t, (k', (l @ [all ! i]) @ take j (drop (Suc i) all))))"
        "if length all - Suc i \<le> j then emptied_ok s rest t else t = s"
        by blast
      have c: "length all - Suc i \<le> j \<longleftrightarrow> length all - i \<le> k"
        using Suc True by auto
      have tk: "(l @ [all ! i]) @ take j (drop (Suc i) all) = l @ take k (drop i all)"
        "(l @ [all ! i]) @ drop (Suc i) all = l @ drop i all" "Suc i + j = i + k"
        unfolding d Suc by simp_all
      have b: "(True \<or> Suc i < length all) = (bDid \<or> i < length all)" "(True \<or> 0 < j) = (bDid \<or> 0 < k)"
        using True Suc by simp_all
      show ?thesis
        using IH unfolding step c tk b by blast
    qed
  next
    case False
    then have i: "i = length all" "contents WAL_FILE (Disk s) = frames (take i all) @ rest"
      using Suc.prems(1) assms(3) by simp_all
    from ReadRecord_last [OF assms(1,2) i(2) assms(5,6)] obtain x t where t:
      "ReadRecord ?off s = (x, t)" "x = READ_EMPTY True \<or> x = READ_DAMAGED True" "emptied_ok s rest t"
      by (auto simp: emptied_ok_def)
    from t(2) have "ReplayLoop (Suc fuel) (external (delivering taking)) ?off bDid (s, (k, l)) =
        Some (LoopCleared True, ?off, bDid, t, (k, l))"
      using t(1) by (elim disjE) simp_all
    then show ?thesis
      using i t(3) by simp
  qed
qed

lemma StoreCommit_ok:
  assumes "Script (Disk s) = []"
  shows "\<exists>t. StoreCommit off s = (True, t) \<and> Script (Disk t) = [] \<and> kept s t \<and>
    Files (Disk t) = (Files (Disk s))(COMMIT_FILE := Some (le_bytes 8 off)) \<and> m_PendingReplay t = m_PendingReplay s \<and>
    m_bPeeked t = m_bPeeked s \<and> m_PositionEpoch t = Suc (m_PositionEpoch s) \<and> m_PeekEpoch t = m_PeekEpoch s \<and>
    m_bCommitChecked t = m_bCommitChecked s"
proof -
  define d1 where "d1 = set_contents COMMIT_FILE (Some []) (Disk s)"
  define d2 where "d2 = set_contents COMMIT_FILE (Some (contents COMMIT_FILE d1 @ le_bytes 8 off)) d1"
  define s1 where "s1 = s\<lparr>Disk := d1, m_PositionEpoch := Suc (m_PositionEpoch s)\<rparr>"
  define s2 where "s2 = s1\<lparr>Disk := d2\<rparr>"
  have sc: "Script (Disk s1) = []" "Script (Disk s2) = []"
    using assms by (simp_all add: s1_def s2_def d1_def d2_def)
  have ne: "le_bytes 8 off \<noteq> []"
    by (metis length_le_bytes list.size(3) zero_neq_numeral)
  have o: "on_disk (open_trunc COMMIT_FILE) s = (True, s\<lparr>Disk := d1\<rparr>)"
    using assms by (simp add: on_disk_ok d1_def)
  have "WriteAllToFd COMMIT_FILE (le_bytes 8 off) d1 = (True, d2)"
    unfolding d2_def by (rule WriteAllToFd_ok [OF _ _ ne]) (use assms in \<open>simp_all add: d1_def MAX_OFF_def\<close>)
  then have w: "on_disk (WriteAllToFd COMMIT_FILE (le_bytes 8 off)) s1 = (True, s2)"
    by (simp add: on_disk_def s1_def s2_def)
  have c: "on_disk call s1 = (None, s1)" "on_disk call s2 = (None, s2)"
    using sc by (simp_all add: on_disk_ok)
  have e: "s\<lparr>Disk := d1\<rparr>\<lparr>m_PositionEpoch := m_PositionEpoch (s\<lparr>Disk := d1\<rparr>) + 1\<rparr> = s1"
    by (simp add: s1_def)
  have "StoreCommit off s = (True, s2)"
    unfolding StoreCommit_def o prod.case bool.case e c w by (simp add: c w Let_def)
  moreover have "Files d2 = (Files (Disk s))(COMMIT_FILE := Some (le_bytes 8 off))"
    by (simp add: d2_def d1_def)
  ultimately show ?thesis
    using sc(2) by (simp add: s2_def s1_def kept_def)
qed

text \<open>The fields which \<open>Ack\<close> compares.\<close>

definition same_peek :: "wal \<Rightarrow> wal \<Rightarrow> bool" where
  "same_peek s t \<longleftrightarrow> m_PendingReplay t = m_PendingReplay s \<and> m_bPeeked t = m_bPeeked s \<and> m_PeekOffset t = m_PeekOffset s \<and>
     m_PeekLen t = m_PeekLen s \<and> m_PeekEpoch t = m_PeekEpoch s \<and> m_PositionEpoch t = m_PositionEpoch s"

lemma quiet_same_peek: "quiet s t \<Longrightarrow> same_peek s t"
  by (simp add: quiet_def same_peek_def)

lemma GetReplayPosition_commit:
  assumes "Script (Disk s) = []" and "crash_inv (Disk s) done rs rest" and "n = length (contents WAL_FILE (Disk s))"
  shows "\<exists>t. GetReplayPosition n s = (commit_value (Disk s), t) \<and> kept s t \<and> Disk t = Disk s \<and> same_peek s t"
proof -
  let ?c = "commit_value (Disk s)"
  let ?f = "contents WAL_FILE (Disk s)"
  obtain s0 where l: "LoadCommit s = (?c, s0)" and q: "quiet s s0" and d: "Disk s0 = Disk s"
    using LoadCommit_ok [OF assms(1)] by blast
  obtain k where k: "k \<le> length done" "?c = length (frames (take k done))"
    using assms(2) by (auto simp: crash_inv_def)
  note R = records_of_crash_inv [OF assms(2)]
  have b: "boundary ?c ?f"
    unfolding boundary_def R using k by (intro exI [of _ k]) simp
  have le: "?c \<le> n"
    using start_of_crash_inv [OF assms(2) k] assms(3) unfolding start_position_def Let_def
    by (simp split: if_splits)
  have isb: "IsRecordBoundary ?c n s0 = (True, s0)" if "?c < n"
    using IsRecordBoundary_from_ok [of s0 ?c n 0] that assms(1,3) d b
    by (simp add: IsRecordBoundary_def boundary_def)
  show ?thesis
  proof (cases "m_bCommitChecked s0")
    case True
    then have "GetReplayPosition n s = (?c, s0)"
      using l le by (simp add: GetReplayPosition_def)
    then show ?thesis
      using q d quiet_kept quiet_same_peek by blast
  next
    case False
    then have "GetReplayPosition n s = (?c, s0\<lparr>m_bCommitChecked := True\<rparr>)"
      using l le isb by (cases "0 < ?c \<and> ?c < n") (auto simp: GetReplayPosition_def)
    then show ?thesis
      using q d by (simp add: quiet_def kept_def same_peek_def)
  qed
qed

text \<open>The state after a replay which accepts up to \<open>k\<close> records, from the one at index \<open>i\<close>.\<close>

definition taken :: "wal \<Rightarrow> bytes list \<Rightarrow> bytes \<Rightarrow> nat \<Rightarrow> nat \<Rightarrow> wal \<Rightarrow> bool" where
  "taken s all rest i k t \<longleftrightarrow> Script (Disk t) = [] \<and> m_fd t \<and> \<not> m_bReplaying t \<and> m_MaxSize t = m_MaxSize s \<and>
     m_PeekEpoch t = m_PeekEpoch s \<and>
     (if length all - i \<le> k
      then Files (Disk t) WAL_FILE = Some [] \<and> Files (Disk t) COMMIT_FILE = None \<and>
           contents CORRUPT_FILE (Disk t) = contents CORRUPT_FILE (Disk s) @ rest \<and> m_PositionEpoch s < m_PositionEpoch t
      else if k = 0 then Disk t = Disk s \<and> same_peek s t
      else Files (Disk t) = (Files (Disk s))(COMMIT_FILE := Some (le_bytes 8 (length (frames (take (i + k) all))))) \<and>
           m_PendingReplay t = m_PendingReplay s \<and> m_PositionEpoch s < m_PositionEpoch t)"

lemma Replay_ok:
  assumes "Script (Disk s) = []" and "m_fd s" and "\<not> m_bReplaying s" and "crash_inv (Disk s) done rs rest"
    and "length (contents CORRUPT_FILE (Disk s)) + length rest \<le> MAX_OFF"
    and "i \<le> length done" and "commit_value (Disk s) = length (frames (take i done))" and "length (done @ rs) - i < fuel"
  shows "\<exists>t k'. Replay fuel (external (delivering taking)) (s, (k, [])) =
      Some (Some (length (done @ rs) - i \<le> k \<or> 0 < k), t, (k', take k (drop i (done @ rs)))) \<and>
    taken s (done @ rs) rest i k t"
proof -
  let ?all = "done @ rs"
  define s1 where "s1 = s\<lparr>m_bReplaying := True\<rparr>"
  have W: "Files (Disk s) WAL_FILE = Some (frames ?all @ rest)" and V: "valid_records ?all" "first_record rest = None"
    using assms(4) by (simp_all add: crash_inv_def)
  have d1: "Disk s1 = Disk s" "Script (Disk s1) = []" "crash_inv (Disk s1) done rs rest"
    using assms(1,4) by (simp_all add: s1_def)
  from GetReplayPosition_commit [OF d1(2,3) refl] obtain s2 where
    p: "GetReplayPosition (length (contents WAL_FILE (Disk s))) s1 = (commit_value (Disk s), s2)"
    and k2: "kept s1 s2" and d2: "Disk s2 = Disk s" and sp: "same_peek s1 s2"
    unfolding d1(1) by blast
  have il: "i \<le> length ?all" and c: "commit_value (Disk s) = length (frames (take i ?all))"
    using assms(6,7) by simp_all
  have B: "ReplayBegin s = (Some (length (frames (take i ?all))), s2)"
    using assms(3) W p c d1 by (simp add: ReplayBegin_def s1_def [symmetric] on_disk_ok)
  have L2: "Script (Disk s2) = []" "m_fd s2" "contents WAL_FILE (Disk s2) = frames ?all @ rest"
    "length (contents CORRUPT_FILE (Disk s2)) + length rest \<le> MAX_OFF"
    using assms(1,2,5) W d2 k2 by (simp_all add: kept_def s1_def)
  from ReplayLoop_ok [OF L2(1-3) V L2(4) il assms(8), of False k "[]"] obtain t k' where
    L: "ReplayLoop fuel (external (delivering taking)) (length (frames (take i ?all))) False (s2, (k, [])) =
      (if length ?all - i \<le> k then Some (LoopCleared True, length (frames ?all), False \<or> i < length ?all, t, (k', [] @ drop i ?all))
       else Some (LoopStopped, length (frames (take (i + k) ?all)), False \<or> 0 < k, t, (k', [] @ take k (drop i ?all))))"
    and T: "if length ?all - i \<le> k then emptied_ok s2 rest t else t = s2"
    by blast
  have f2: "m_MaxSize s2 = m_MaxSize s" "m_PeekEpoch s2 = m_PeekEpoch s" "m_PositionEpoch s2 = m_PositionEpoch s"
    "m_PendingReplay s2 = m_PendingReplay s" "same_peek s (s2\<lparr>m_bReplaying := False\<rparr>)"
    using k2 sp by (simp_all add: kept_def same_peek_def s1_def)
  consider (everything) "length ?all - i \<le> k" | (zero) "\<not> length ?all - i \<le> k" "k = 0"
    | (some) "\<not> length ?all - i \<le> k" "0 < k" by blast
  then show ?thesis
  proof cases
    case everything
    then have "Replay fuel (external (delivering taking)) (s, (k, [])) =
        Some (Some True, t\<lparr>m_bReplaying := False\<rparr>, (k', drop i ?all))"
      using B L by (simp add: Replay_def ReplayEnd_def)
    moreover have "take k (drop i ?all) = drop i ?all"
      using everything by simp
    moreover have "taken s ?all rest i k (t\<lparr>m_bReplaying := False\<rparr>)"
      using T everything f2 L2(2) d2 by (simp add: taken_def emptied_ok_def kept_def)
    ultimately show ?thesis
      using everything by (intro exI [of _ "t\<lparr>m_bReplaying := False\<rparr>"] exI [of _ k']) simp
  next
    case zero
    then have "Replay fuel (external (delivering taking)) (s, (k, [])) =
        Some (Some False, s2\<lparr>m_bReplaying := False\<rparr>, (k', []))"
      using B L T by (simp add: Replay_def ReplayEnd_def)
    moreover have "taken s ?all rest i k (s2\<lparr>m_bReplaying := False\<rparr>)"
      using zero f2 L2 d2 by (simp add: taken_def)
    ultimately show ?thesis
      using zero by (intro exI [of _ "s2\<lparr>m_bReplaying := False\<rparr>"] exI [of _ k']) simp
  next
    case some
    have "Script (Disk (s2\<lparr>m_bReplaying := False\<rparr>)) = []"
      using L2(1) by simp
    from StoreCommit_ok [OF this, of "length (frames (take (i + k) ?all))"] obtain u where
      u: "StoreCommit (length (frames (take (i + k) ?all))) (s2\<lparr>m_bReplaying := False\<rparr>) = (True, u)"
      "Script (Disk u) = []" "kept (s2\<lparr>m_bReplaying := False\<rparr>) u"
      "Files (Disk u) = (Files (Disk s2))(COMMIT_FILE := Some (le_bytes 8 (length (frames (take (i + k) ?all)))))"
      "m_PendingReplay u = m_PendingReplay s2" "m_PositionEpoch u = Suc (m_PositionEpoch s2)" "m_PeekEpoch u = m_PeekEpoch s2"
      by auto
    have "Replay fuel (external (delivering taking)) (s, (k, [])) = Some (Some True, u, (k', take k (drop i ?all)))"
      using B L T some u(1) by (simp add: Replay_def ReplayEnd_def del: take_append drop_append)
    moreover have "taken s ?all rest i k u"
      using some f2 L2 d2 u by (simp add: taken_def kept_def)
    ultimately show ?thesis
      using some by (intro exI [of _ u] exI [of _ k']) simp
  qed
qed

end
