(* ===== verification/WalFifo.thy ===== *)
theory WalFifo imports WalRecovery begin

text \<open>
  The contract of the WAL: on a disk without failures it is a queue of records. \<open>wal_step\<close> makes one call of the
  application, \<open>fifo_step\<close> is the same call on a list and a flag which says whether an \<open>Ack\<close> would count.
  \<open>fifo\<close> is the relation between the two, and every call keeps it.
\<close>

section \<open>The relation\<close>

definition fifo :: "nat \<Rightarrow> wal \<Rightarrow> bytes list \<Rightarrow> bool \<Rightarrow> bool" where
  "fifo n s q p \<longleftrightarrow>
     Script (Disk s) = [] \<and> m_fd s \<and> \<not> m_bReplaying s \<and> m_MaxSize s = 0 \<and>
     length (contents CORRUPT_FILE (Disk s)) \<le> MAX_OFF \<and> length (contents WAL_FILE (Disk s)) \<le> n \<and>
     (q \<noteq> [] \<longrightarrow> m_PendingReplay s) \<and> m_PeekEpoch s \<le> m_PositionEpoch s \<and>
     (p \<longleftrightarrow> m_bPeeked s \<and> m_PeekEpoch s = m_PositionEpoch s) \<and>
     (\<exists>pre. crash_inv (Disk s) pre q [] \<and> commit_value (Disk s) = length (frames pre) \<and>
             (p \<longrightarrow> peeked_at s (pre @ q) (length pre)))"

lemma fifo_pending: "fifo n s q p \<Longrightarrow> recovered (Disk s) = q"
  unfolding fifo_def using recovered_at_commit by (metis append_self_conv2 drop_all order_refl take_all)

lemma fifoD:
  assumes "fifo n s q p"
  shows "Script (Disk s) = []" and "m_fd s" and "\<not> m_bReplaying s" and "m_MaxSize s = 0"
    and "length (contents CORRUPT_FILE (Disk s)) \<le> MAX_OFF" and "length (contents WAL_FILE (Disk s)) \<le> n"
    and "q \<noteq> [] \<Longrightarrow> m_PendingReplay s" and "m_PeekEpoch s \<le> m_PositionEpoch s"
    and "p \<longleftrightarrow> m_bPeeked s \<and> m_PeekEpoch s = m_PositionEpoch s"
  using assms by (simp_all add: fifo_def)

lemma fifo_file:
  assumes "fifo n s q p"
  obtains pre where "crash_inv (Disk s) pre q []" "commit_value (Disk s) = length (frames pre)"
    "p \<longrightarrow> peeked_at s (pre @ q) (length pre)" "Files (Disk s) WAL_FILE = Some (frames (pre @ q))"
    "valid_records (pre @ q)" "length (frames (pre @ q)) \<le> MAX_OFF"
proof -
  from assms obtain pre where c: "crash_inv (Disk s) pre q []" "commit_value (Disk s) = length (frames pre)"
    "p \<longrightarrow> peeked_at s (pre @ q) (length pre)"
    unfolding fifo_def by blast
  show thesis
    by (rule that [OF c]) (use c(1) in \<open>simp_all add: crash_inv_def\<close>)
qed

lemma crash_inv_commit:
  assumes "Files d WAL_FILE = Some (frames (pre @ q))" and "valid_records (pre @ q)"
    and "length (frames (pre @ q)) \<le> MAX_OFF" and "commit_value d = length (frames pre)"
  shows "crash_inv d pre q []"
  using assms by (auto simp: crash_inv_def intro!: exI [of _ "length pre"])

text \<open>The empty WAL, after it was emptied.\<close>

lemma fifo_empty:
  assumes "Script (Disk t) = []" and "m_fd t" and "\<not> m_bReplaying t" and "m_MaxSize t = 0"
    and "length (contents CORRUPT_FILE (Disk t)) \<le> MAX_OFF" and "Files (Disk t) WAL_FILE = Some []"
    and "Files (Disk t) COMMIT_FILE = None" and "m_PeekEpoch t \<le> m_PositionEpoch t"
    and "\<not> (m_bPeeked t \<and> m_PeekEpoch t = m_PositionEpoch t)"
  shows "fifo n t [] False"
  using assms crash_inv_empty [OF assms(6,7)]
  by (auto simp: fifo_def commit_value_def intro!: exI [of _ "[]"])

section \<open>The operations keep it\<close>

lemma Append_ok:
  assumes "Script (Disk s) = []" and "m_fd s" and "m_MaxSize s = 0" and "r \<noteq> []" and "Files (Disk s) WAL_FILE = Some f"
    and "length f + length (frame r) \<le> MAX_OFF"
  shows "Append r s = (True, s\<lparr>Disk := set_contents WAL_FILE (Some (f @ frame r)) (Disk s),
      m_bFullLogged := False, m_PendingReplay := True\<rparr>)"
proof -
  define d1 where "d1 = set_contents WAL_FILE (Some (f @ le_bytes 4 (length r))) (Disk s)"
  define d2 where "d2 = set_contents WAL_FILE (Some (f @ frame r)) (Disk s)"
  have ne: "le_bytes 4 (length r) \<noteq> []"
    by (metis length_le_bytes list.size(3) zero_neq_numeral)
  have "WriteAllToFd WAL_FILE (le_bytes 4 (length r)) (Disk s) =
      (True, set_contents WAL_FILE (Some (contents WAL_FILE (Disk s) @ le_bytes 4 (length r))) (Disk s))"
    by (rule WriteAllToFd_ok [OF assms(1) _ ne]) (use assms(5,6) in simp)
  then have w1: "on_disk (WriteAllToFd WAL_FILE (le_bytes 4 (length r))) s = (True, s\<lparr>Disk := d1\<rparr>)"
    using assms(5) by (simp add: on_disk_def d1_def)
  have s1: "Script d1 = []" "contents WAL_FILE d1 = f @ le_bytes 4 (length r)"
    using assms(1) by (simp_all add: d1_def)
  have "WriteAllToFd WAL_FILE r d1 = (True, set_contents WAL_FILE (Some (contents WAL_FILE d1 @ r)) d1)"
    by (rule WriteAllToFd_ok [OF s1(1) _ assms(4)]) (use s1(2) assms(6) in simp)
  moreover have "set_contents WAL_FILE (Some (contents WAL_FILE d1 @ r)) d1 = d2"
    unfolding s1(2) d1_def d2_def by (simp add: set_contents_def frame_def)
  ultimately have w2: "on_disk (WriteAllToFd WAL_FILE r) (s\<lparr>Disk := d1\<rparr>) = (True, s\<lparr>Disk := d2\<rparr>)"
    by (simp add: on_disk_def)
  have w: "WriteRecord r s = (True, s\<lparr>Disk := d2\<rparr>)"
    using assms(2) w1 w2 by (simp add: WriteRecord_def WriteAll_def)
  have z: "on_disk (sys_size WAL_FILE) s = (Some (length f), s)"
    using assms(1,5) by (simp add: on_disk_ok)
  have c: "on_disk call (s\<lparr>Disk := d2\<rparr>) = (None, s\<lparr>Disk := d2\<rparr>)"
    using assms(1) by (simp add: on_disk_ok d2_def)
  show ?thesis
    unfolding Append_def z w using assms(2-4) c w by (simp add: Let_def d2_def)
qed

lemma fifo_Append:
  assumes "fifo n s q p" and "valid_record r" and "n + 4 + length r \<le> MAX_OFF"
  shows "\<exists>t. Append r s = (True, t) \<and> fifo (n + 4 + length r) t (q @ [r]) p"
proof -
  note D = fifoD [OF assms(1)]
  from assms(1) obtain pre where f: "crash_inv (Disk s) pre q []" "commit_value (Disk s) = length (frames pre)"
    "p \<longrightarrow> peeked_at s (pre @ q) (length pre)" "Files (Disk s) WAL_FILE = Some (frames (pre @ q))"
    "valid_records (pre @ q)" "length (frames (pre @ q)) \<le> MAX_OFF"
    by (rule fifo_file)
  have r: "r \<noteq> []"
    using assms(2) by (auto simp: valid_record_def)
  have len: "length (frames (pre @ q)) + length (frame r) \<le> MAX_OFF"
    using D(6) f(4) assms(3) by simp
  define t where "t = s\<lparr>Disk := set_contents WAL_FILE (Some (frames (pre @ q) @ frame r)) (Disk s),
      m_bFullLogged := False, m_PendingReplay := True\<rparr>"
  have A: "Append r s = (True, t)"
    unfolding t_def by (rule Append_ok [OF D(1,2,4) r f(4) len])
  have F: "Files (Disk t) WAL_FILE = Some (frames (pre @ q @ [r]))"
    by (simp add: t_def)
  have cv: "commit_value (Disk t) = length (frames pre)"
    using f(2) by (simp add: t_def commit_value_def)
  have ci: "crash_inv (Disk t) pre (q @ [r]) []"
    by (rule crash_inv_commit [OF F _ _ cv]) (use f(5) assms(2) len in simp_all)
  have pk: "p \<longrightarrow> peeked_at t (pre @ q @ [r]) (length pre)"
    using f(3) by (auto simp: peeked_at_def t_def nth_append)
  have "fifo (n + 4 + length r) t (q @ [r]) p"
    unfolding fifo_def using D f(4) ci cv pk by (auto simp: t_def)
  with A show ?thesis
    by blast
qed

lemma fifo_Peek:
  assumes "fifo n s q p"
  shows "\<exists>t. Peek s = (case q of [] \<Rightarrow> None | r # _ \<Rightarrow> Some r, t) \<and> fifo n t q (q \<noteq> [])"
proof -
  note D = fifoD [OF assms(1)]
  from assms(1) obtain pre where f: "crash_inv (Disk s) pre q []" "commit_value (Disk s) = length (frames pre)"
    "p \<longrightarrow> peeked_at s (pre @ q) (length pre)" "Files (Disk s) WAL_FILE = Some (frames (pre @ q))"
    "valid_records (pre @ q)" "length (frames (pre @ q)) \<le> MAX_OFF"
    by (rule fifo_file)
  define s1 where "s1 = s\<lparr>m_bPeeked := False\<rparr>"
  have d1: "Disk s1 = Disk s" "Script (Disk s1) = []" "crash_inv (Disk s1) pre q []"
    using D(1) f(1) by (simp_all add: s1_def)
  show ?thesis
  proof (cases "m_PendingReplay s")
    case False
    then have q: "q = []"
      using D(7) by auto
    have "Peek s = (None, s1)"
      using False D(2,3) by (simp add: Peek_def s1_def)
    moreover have "fifo n s1 [] False"
      using assms q f unfolding fifo_def s1_def by auto
    ultimately show ?thesis
      using q by auto
  next
    case True
    from GetReplayPosition_commit [OF d1(2,3) refl] obtain s2 where
      p: "GetReplayPosition (length (contents WAL_FILE (Disk s))) s1 = (length (frames pre), s2)"
      and k2: "kept s1 s2" and d2: "Disk s2 = Disk s" and sp: "same_peek s1 s2"
      unfolding d1(1) f(2) by blast
    have o: "on_disk (open_read WAL_FILE) s1 = (True, s1)"
      "on_disk (sys_size WAL_FILE) s1 = (Some (length (contents WAL_FILE (Disk s))), s1)"
      using d1(1,2) f(4) by (simp_all add: on_disk_ok)
    have P: "Peek s = (case ReadRecord (length (frames pre)) s2 of
        (READ_RECORD Record, s4) \<Rightarrow> (Some Record, s4\<lparr>m_bPeeked := True, m_PeekOffset := length (frames pre),
                                             m_PeekLen := length Record, m_PeekEpoch := m_PositionEpoch s4\<rparr>)
      | (_, s4) \<Rightarrow> (None, s4))"
      using True D(2,3) o p unfolding Peek_def Let_def s1_def [symmetric] by (simp add: s1_def)
    have L2: "Script (Disk s2) = []" "m_fd s2" "contents WAL_FILE (Disk s2) = frames (pre @ q) @ []"
      "length (contents CORRUPT_FILE (Disk s2)) + length [] \<le> MAX_OFF"
      using D(1,2,5) f(4) d2 k2 by (simp_all add: kept_def s1_def)
    have K2: "\<not> m_bReplaying s2" "m_MaxSize s2 = 0" "m_PendingReplay s2" "m_PeekEpoch s2 \<le> m_PositionEpoch s2"
      using D k2 sp True by (simp_all add: kept_def same_peek_def s1_def)
    show ?thesis
    proof (cases q)
      case Nil
      have "contents WAL_FILE (Disk s2) = frames pre @ []"
        using L2(3) Nil by simp
      from ReadRecord_last [OF L2(1,2) this _ L2(4)] obtain x t where
        t: "ReadRecord (length (frames pre)) s2 = (x, t)" "x = READ_EMPTY True \<or> x = READ_DAMAGED True"
        "Script (Disk t) = []" "kept s2 t" "Files (Disk t) WAL_FILE = Some []" "Files (Disk t) COMMIT_FILE = None"
        "contents CORRUPT_FILE (Disk t) = contents CORRUPT_FILE (Disk s2) @ []" "\<not> m_bPeeked t"
        "m_PositionEpoch t = Suc (m_PositionEpoch s2)" "m_PeekEpoch t = m_PeekEpoch s2"
        by auto
      have "Peek s = (None, t)"
        using P t(1,2) by (elim disjE) simp_all
      moreover have "fifo n t [] False"
        by (rule fifo_empty) (use t L2 K2 d2 D(5) in \<open>simp_all add: kept_def\<close>)
      ultimately show ?thesis
        using Nil by auto
    next
      case (Cons r rs)
      have "first_record (drop (length (frames pre)) (contents WAL_FILE (Disk s2))) = Some r"
        using first_record_at [of "length pre" "pre @ q" "[]"] f(5) L2(3) Cons by simp
      then have "ReadRecord (length (frames pre)) s2 = (READ_RECORD r, s2)"
        by (intro ReadRecord_next [OF L2(1)]) (use L2(3) in simp_all)
      define t where "t = s2\<lparr>m_bPeeked := True, m_PeekOffset := length (frames pre), m_PeekLen := length r,
          m_PeekEpoch := m_PositionEpoch s2\<rparr>"
      have "Peek s = (Some r, t)"
        using P \<open>ReadRecord _ _ = _\<close> by (simp add: t_def)
      moreover have "fifo n t q True"
        unfolding fifo_def using D L2 K2 d2 f Cons
        by (intro conjI exI [of _ pre]) (simp_all add: t_def peeked_at_def)
      ultimately show ?thesis
        using Cons by auto
    qed
  qed
qed

lemma fifo_cleared:
  assumes "fifo n s q p"
  shows "\<exists>t. ClearInternal s = (True, t) \<and> fifo n t [] False"
proof -
  note D = fifoD [OF assms]
  from ClearInternal_ok [OF D(1,2)] obtain t where t: "ClearInternal s = (True, t)" "Script (Disk t) = []" "kept s t"
    "Files (Disk t) = (Files (Disk s))(COMMIT_FILE := None, WAL_FILE := Some [])" "\<not> m_bPeeked t"
    "m_PositionEpoch t = Suc (m_PositionEpoch s)" "m_PeekEpoch t = m_PeekEpoch s"
    by blast
  have "fifo n t [] False"
    by (rule fifo_empty) (use t D in \<open>simp_all add: kept_def\<close>)
  with t(1) show ?thesis
    by blast
qed

lemma fifo_unpeek: "fifo n s q p \<Longrightarrow> fifo n (s\<lparr>m_bPeeked := False\<rparr>) q False"
  unfolding fifo_def by auto

lemma fifo_Ack:
  assumes "fifo n s q p"
  shows "\<exists>t. Ack s = (p, t) \<and> fifo n t (if p then tl q else q) False"
proof (cases p)
  case False
  note D = fifoD [OF assms]
  show ?thesis
  proof (cases "m_bPeeked s")
    case True
    then have "Ack s = (False, s\<lparr>m_bPeeked := False\<rparr>)"
      using D False by (simp add: Ack_def Let_def)
    then show ?thesis
      using False fifo_unpeek [OF assms] by simp
  next
    case np: False
    then show ?thesis
      using assms False by (simp add: Ack_def)
  qed
next
  case True
  note D = fifoD [OF assms]
  from assms obtain pre where f: "crash_inv (Disk s) pre q []" "commit_value (Disk s) = length (frames pre)"
    "p \<longrightarrow> peeked_at s (pre @ q) (length pre)" "Files (Disk s) WAL_FILE = Some (frames (pre @ q))"
    "valid_records (pre @ q)" "length (frames (pre @ q)) \<le> MAX_OFF"
    by (rule fifo_file)
  then obtain r rs where q: "q = r # rs"
    using True by (cases q) (auto simp: peeked_at_def)
  have pk: "m_bPeeked s" "m_PeekEpoch s = m_PositionEpoch s" "m_PeekOffset s = length (frames pre)" "m_PeekLen s = length r"
    using f(3) True D(9) q by (simp_all add: peeked_at_def)
  let ?s = "s\<lparr>m_bPeeked := False\<rparr>"
  let ?Next = "length (frames (pre @ [r]))"
  have fs: "GetFileSize ?s = (Some (length (frames (pre @ q))), ?s)"
    using D(1,2) f(4) by (simp add: GetFileSize_def on_disk_ok)
  have le: "?Next \<le> length (frames (pre @ q))"
    using q by simp
  have nx: "m_PeekOffset ?s + 4 + m_PeekLen ?s = ?Next"
    using pk by simp
  have A: "Ack s = (if ?Next = length (frames (pre @ q)) then ClearInternal ?s else StoreCommit ?Next ?s)"
  proof -
    define L where "L = length (frames (pre @ q))"
    define N where "N = ?Next"
    have "m_PeekOffset s + 4 + m_PeekLen s = N" "N \<le> L"
      using nx le by (simp_all add: L_def N_def)
    then show ?thesis
      using D(2,3) pk(1,2) fs unfolding L_def [symmetric] N_def [symmetric] by (simp add: Ack_def)
  qed
  show ?thesis
  proof (cases "rs = []")
    case True
    then have "Ack s = ClearInternal ?s"
      using A q by simp
    then show ?thesis
      using fifo_cleared [OF fifo_unpeek [OF assms]] \<open>p\<close> q True by simp
  next
    case False
    then have A2: "Ack s = StoreCommit ?Next ?s"
      using A q by simp
    from StoreCommit_ok [of ?s ?Next] D(1) obtain t where t: "StoreCommit ?Next ?s = (True, t)" "Script (Disk t) = []"
      "kept ?s t" "Files (Disk t) = (Files (Disk ?s))(COMMIT_FILE := Some (le_bytes 8 ?Next))"
      "m_PendingReplay t = m_PendingReplay ?s" "m_bPeeked t = m_bPeeked ?s" "m_PositionEpoch t = Suc (m_PositionEpoch ?s)"
      "m_PeekEpoch t = m_PeekEpoch ?s"
      by auto
    have "?Next < 2 ^ 64"
      using le f(6) by (simp add: MAX_OFF_def)
    then have cv: "commit_value (Disk t) = ?Next"
      using t(4) by (simp add: commit_value_def mod_less)
    have W: "Files (Disk t) WAL_FILE = Some (frames ((pre @ [r]) @ rs))"
      using t(4) f(4) q by simp
    have ci: "crash_inv (Disk t) (pre @ [r]) rs []"
      by (rule crash_inv_commit [OF W _ _ cv]) (use f(5,6) q in simp_all)
    have "fifo n t rs False"
      unfolding fifo_def using D t q ci cv f(4) by (intro conjI exI [of _ "pre @ [r]"]) (simp_all add: kept_def)
    then show ?thesis
      using A2 t(1) \<open>p\<close> q by simp
  qed
qed

text \<open>Reopening: the destructor, and a new object.\<close>

definition reopen :: "wal \<Rightarrow> bool \<times> wal" where
  "reopen s = Init (SimpleWAL (Disk (Close s)))"

text \<open>An object which was not used yet: only its settings may have been changed.\<close>

definition fresh_wal :: "wal \<Rightarrow> bool" where
  "fresh_wal s \<longleftrightarrow> Script (Disk s) = [] \<and> \<not> m_bReplaying s \<and> m_MaxSize s = 0 \<and> m_PeekEpoch s = 0 \<and> m_PositionEpoch s = 0"

lemma fresh_SimpleWAL: "Script d = [] \<Longrightarrow> fresh_wal (SimpleWAL d)"
  by (simp add: fresh_wal_def SimpleWAL_def)

lemma Disk_SimpleWAL [simp]: "Disk (SimpleWAL d) = d"
  by (simp add: SimpleWAL_def)

lemma Init_ok:
  assumes "fresh_wal s0"
  shows "\<exists>t. Init s0 = (True, t) \<and> Script (Disk t) = [] \<and> m_fd t \<and> \<not> m_bReplaying t \<and> m_MaxSize t = 0 \<and>
    Files (Disk t) = (Files (Disk s0))(WAL_FILE := Some (contents WAL_FILE (Disk s0))) \<and>
    (m_PendingReplay t \<longleftrightarrow> contents WAL_FILE (Disk s0) \<noteq> []) \<and>
    m_PeekEpoch t = 0 \<and> m_PositionEpoch t = 0 \<and> \<not> m_bPeeked t \<and> \<not> m_bCommitChecked t"
proof -
  define s where "s = s0\<lparr>m_fd := False, m_bCommitChecked := False, m_PendingReplay := False, m_bPeeked := False,
      m_bFullLogged := False\<rparr>"
  define s1 where "s1 = s\<lparr>Disk := set_contents WAL_FILE (Some (contents WAL_FILE (Disk s0))) (Disk s0)\<rparr>"
  have o: "on_disk (open_append WAL_FILE) s = (True, s1)"
    using assms by (simp add: s_def fresh_wal_def on_disk_ok s1_def)
  have c: "on_disk call s1 = (None, s1)" "on_disk (sys_size WAL_FILE) s1 = (Some (length (contents WAL_FILE (Disk s0))), s1)"
    using assms by (simp_all add: on_disk_ok s1_def fresh_wal_def)
  have "Init s0 = (True, s1\<lparr>m_fd := True, m_PendingReplay := length (contents WAL_FILE (Disk s0)) > 0\<rparr>)"
    unfolding Init_def Let_def s_def [symmetric] o using c by simp
  then show ?thesis
    using assms by (simp add: s1_def s_def fresh_wal_def)
qed

lemma Close_ok:
  assumes "Script (Disk s) = []" and "m_fd s"
  shows "Script (Disk (Close s)) = [] \<and> Files (Disk (Close s)) =
    (if contents WAL_FILE (Disk s) = [] then (Files (Disk s))(WAL_FILE := None, COMMIT_FILE := None) else Files (Disk s))"
proof -
  have fs: "GetFileSize s = (Some (length (contents WAL_FILE (Disk s))), s)"
    using assms by (simp add: GetFileSize_def on_disk_ok)
  show ?thesis
    unfolding Close_def fs using assms
    by (cases "Files (Disk s) WAL_FILE"; cases "Files (Disk s) COMMIT_FILE")
      (auto simp: on_disk_def sys_unlink_ok fun_eq_iff)
qed

lemma fifo_reopen:
  assumes "fifo n s q p"
  shows "\<exists>t. reopen s = (True, t) \<and> fifo n t q False"
proof -
  note D = fifoD [OF assms]
  from assms obtain pre where f: "crash_inv (Disk s) pre q []" "commit_value (Disk s) = length (frames pre)"
    "p \<longrightarrow> peeked_at s (pre @ q) (length pre)" "Files (Disk s) WAL_FILE = Some (frames (pre @ q))"
    "valid_records (pre @ q)" "length (frames (pre @ q)) \<le> MAX_OFF"
    by (rule fifo_file)
  let ?d = "Disk (Close s)"
  note C = Close_ok [OF D(1,2)]
  from Init_ok [OF fresh_SimpleWAL, of ?d] C obtain t where t: "Init (SimpleWAL ?d) = (True, t)" "Script (Disk t) = []" "m_fd t"
    "\<not> m_bReplaying t" "m_MaxSize t = 0" "Files (Disk t) = (Files ?d)(WAL_FILE := Some (contents WAL_FILE ?d))"
    "m_PendingReplay t \<longleftrightarrow> contents WAL_FILE ?d \<noteq> []" "m_PeekEpoch t = 0" "m_PositionEpoch t = 0" "\<not> m_bPeeked t"
    by auto
  have "fifo n t q False"
  proof (cases "frames (pre @ q) = []")
    case True
    then have q: "q = []" by simp
    have Fd: "Files ?d = (Files (Disk s))(WAL_FILE := None, COMMIT_FILE := None)"
      using C f(4) True by simp
    have Ft: "Files (Disk t) WAL_FILE = Some []" "Files (Disk t) COMMIT_FILE = None"
      "Files (Disk t) CORRUPT_FILE = Files (Disk s) CORRUPT_FILE"
      using t(6) unfolding Fd by simp_all
    show ?thesis
      unfolding q by (rule fifo_empty) (use t Ft D(5) in simp_all)
  next
    case False
    then have "contents WAL_FILE (Disk s) \<noteq> []"
      using f(4) by simp
    then have Fd: "Files ?d = Files (Disk s)"
      using C by simp
    have Ft: "Files (Disk t) = Files (Disk s)"
      using t(6) f(4) unfolding Fd by auto
    have cv: "commit_value (Disk t) = length (frames pre)"
      using f(2) Ft by (simp add: commit_value_def)
    have ci: "crash_inv (Disk t) pre q []"
      by (rule crash_inv_commit [OF _ f(5,6) cv]) (use Ft f(4) in simp)
    have "contents WAL_FILE ?d \<noteq> []"
      unfolding Fd f(4) using False by simp
    then show ?thesis
      unfolding fifo_def using t ci cv D(5,6) Ft by (intro conjI exI [of _ pre]) simp_all
  qed
  with t(1) show ?thesis
    by (auto simp: reopen_def)
qed

text \<open>Every record has at least five bytes: the size of the file is enough fuel.\<close>

lemma length_le_frames: "valid_records rs \<Longrightarrow> length rs \<le> length (frames rs)"
  by (induction rs) (auto simp: valid_record_def)

definition replay_taking :: "nat \<Rightarrow> wal \<Rightarrow> (bool option \<times> bytes list) \<times> wal" where
  "replay_taking k s =
     (case Replay (Suc (length (contents WAL_FILE (Disk s)))) (external (delivering taking)) (s, (k, [])) of
        None \<Rightarrow> ((None, []), s)
      | Some (r, t, k', l) \<Rightarrow> ((r, l), t))"

lemma fifo_Replay:
  assumes "fifo n s q p"
  shows "\<exists>t. replay_taking k s = ((Some (length q \<le> k \<or> 0 < k), take k q), t) \<and>
    fifo n t (drop k q) (if length q \<le> k \<or> 0 < k then False else p)"
proof -
  note D = fifoD [OF assms]
  from assms obtain pre where f: "crash_inv (Disk s) pre q []" "commit_value (Disk s) = length (frames pre)"
    "p \<longrightarrow> peeked_at s (pre @ q) (length pre)" "Files (Disk s) WAL_FILE = Some (frames (pre @ q))"
    "valid_records (pre @ q)" "length (frames (pre @ q)) \<le> MAX_OFF"
    by (rule fifo_file)
  let ?fuel = "Suc (length (contents WAL_FILE (Disk s)))"
  have fuel: "length (pre @ q) - length pre < ?fuel"
    using length_le_frames [OF f(5)] f(4) by simp
  have co: "length (contents CORRUPT_FILE (Disk s)) + length [] \<le> MAX_OFF"
    using D(5) by simp
  have cv: "commit_value (Disk s) = length (frames (take (length pre) pre))"
    using f(2) by simp
  from Replay_ok [OF D(1-3) f(1) co le_refl cv fuel] obtain t k' where
    R: "Replay ?fuel (external (delivering taking)) (s, (k, [])) =
      Some (Some (length (pre @ q) - length pre \<le> k \<or> 0 < k), t, (k', take k (drop (length pre) (pre @ q))))"
    and T: "taken s (pre @ q) [] (length pre) k t"
    by blast
  have r: "replay_taking k s = ((Some (length q \<le> k \<or> 0 < k), take k q), t)"
    unfolding replay_taking_def R by simp
  consider (everything) "length q \<le> k" | (zero) "\<not> length q \<le> k" "k = 0" | (some) "\<not> length q \<le> k" "0 < k"
    by blast
  then have "fifo n t (drop k q) (if length q \<le> k \<or> 0 < k then False else p)"
  proof cases
    case everything
    have "fifo n t [] False"
      by (rule fifo_empty) (use T D everything in \<open>simp_all add: taken_def\<close>)
    then show ?thesis
      using everything by simp
  next
    case zero
    then have E: "Disk t = Disk s" "m_fd t = m_fd s" "m_bReplaying t = m_bReplaying s" "m_MaxSize t = m_MaxSize s"
      "m_PendingReplay t = m_PendingReplay s" "m_bPeeked t = m_bPeeked s" "m_PeekOffset t = m_PeekOffset s"
      "m_PeekLen t = m_PeekLen s" "m_PeekEpoch t = m_PeekEpoch s" "m_PositionEpoch t = m_PositionEpoch s"
      using T D(2,3) by (simp_all add: taken_def same_peek_def)
    have "fifo n t q p"
      using assms unfolding fifo_def peeked_at_def E .
    then show ?thesis
      using zero by simp
  next
    case some
    let ?pre = "pre @ take k q"
    have tk: "take (length pre + k) (pre @ q) = ?pre" "?pre @ drop k q = pre @ q"
      by simp_all
    have Ft: "Files (Disk t) = (Files (Disk s))(COMMIT_FILE := Some (le_bytes 8 (length (frames ?pre))))"
      using T some unfolding taken_def tk(1) by simp
    have "length (frames ?pre) \<le> length (frames (pre @ q))"
      using tk(2) by (metis frames_append le_add1 length_append)
    then have "length (frames ?pre) < 2 ^ 64"
      using f(6) by (simp add: MAX_OFF_def)
    then have cv': "commit_value (Disk t) = length (frames ?pre)"
      unfolding commit_value_def Ft by (simp add: mod_less del: frames_append)
    have ci: "crash_inv (Disk t) ?pre (drop k q) []"
      by (rule crash_inv_commit [OF _ _ _ cv']) (use f(4,5,6) in \<open>simp_all only: tk Ft, simp_all\<close>)
    have ne: "drop k q \<noteq> []" "q \<noteq> []"
      using some by auto
    have "fifo n t (drop k q) False"
      unfolding fifo_def using T D some ci cv' ne f(4)
      by (intro conjI exI [of _ ?pre]) (simp_all add: taken_def del: frames_append)
    then show ?thesis
      using some by simp
  qed
  with r show ?thesis
    by blast
qed

section \<open>Any sequence of calls\<close>

datatype wal_op = OpAppend bytes | OpPeek | OpAck | OpClear | OpReopen | OpReplay nat

datatype wal_out = OutBool bool | OutRecord "bytes option" | OutReplay "bool option" "bytes list"

fun wal_step :: "wal_op \<Rightarrow> wal \<Rightarrow> wal_out \<times> wal" where
  "wal_step (OpAppend r) s = (case Append r s of (b, t) \<Rightarrow> (OutBool b, t))"
| "wal_step OpPeek s = (case Peek s of (r, t) \<Rightarrow> (OutRecord r, t))"
| "wal_step OpAck s = (case Ack s of (b, t) \<Rightarrow> (OutBool b, t))"
| "wal_step OpClear s = (case Clear s of (b, t) \<Rightarrow> (OutBool b, t))"
| "wal_step OpReopen s = (case reopen s of (b, t) \<Rightarrow> (OutBool b, t))"
| "wal_step (OpReplay k) s = (case replay_taking k s of ((b, l), t) \<Rightarrow> (OutReplay b l, t))"

text \<open>The specification: the queue, and whether the front record was handed out by \<open>Peek\<close> and is still the front.\<close>

fun fifo_step :: "wal_op \<Rightarrow> bytes list \<times> bool \<Rightarrow> wal_out \<times> bytes list \<times> bool" where
  "fifo_step (OpAppend r) (q, p) = (OutBool True, if r = [] then q else q @ [r], p)"
| "fifo_step OpPeek (q, p) = (OutRecord (case q of [] \<Rightarrow> None | r # _ \<Rightarrow> Some r), q, q \<noteq> [])"
| "fifo_step OpAck (q, p) = (OutBool p, if p then tl q else q, False)"
| "fifo_step OpClear (q, p) = (OutBool True, [], False)"
| "fifo_step OpReopen (q, p) = (OutBool True, q, False)"
| "fifo_step (OpReplay k) (q, p) =
     (OutReplay (Some (length q \<le> k \<or> 0 < k)) (take k q), drop k q, if length q \<le> k \<or> 0 < k then False else p)"

fun run :: "('op \<Rightarrow> 's \<Rightarrow> 'o \<times> 's) \<Rightarrow> 'op list \<Rightarrow> 's \<Rightarrow> 'o list \<times> 's" where
  "run step [] s = ([], s)"
| "run step (x # xs) s = (case step x s of (y, s') \<Rightarrow> (case run step xs s' of (ys, s'') \<Rightarrow> (y # ys, s'')))"

text \<open>The bytes which a call adds to the file, at most.\<close>

fun op_size :: "wal_op \<Rightarrow> nat" where
  "op_size (OpAppend r) = 4 + length r"
| "op_size _ = 0"

fun op_ok :: "wal_op \<Rightarrow> bool" where
  "op_ok (OpAppend r) \<longleftrightarrow> length r < 2 ^ 32"
| "op_ok _ \<longleftrightarrow> True"

lemma fifo_mono: "fifo n s q p \<Longrightarrow> n \<le> m \<Longrightarrow> fifo m s q p"
  by (auto simp: fifo_def)

lemma step_refines:
  assumes "fifo n s q p" and "op_ok x" and "n + op_size x \<le> MAX_OFF"
  shows "\<exists>t q' p' y. wal_step x s = (y, t) \<and> fifo_step x (q, p) = (y, q', p') \<and> fifo (n + op_size x) t q' p'"
proof (cases x)
  case (OpAppend r)
  show ?thesis
  proof (cases "r = []")
    case True
    then show ?thesis
      using OpAppend fifo_mono [OF assms(1), of "n + 4"] by (simp add: Append_def)
  next
    case False
    then have "valid_record r"
      using assms(2) OpAppend by (simp add: valid_record_def)
    from fifo_Append [OF assms(1) this] show ?thesis
      using assms(3) OpAppend False by (auto simp: add.assoc)
  qed
next
  case OpPeek
  then show ?thesis
    using fifo_Peek [OF assms(1)] by auto
next
  case OpAck
  then show ?thesis
    using fifo_Ack [OF assms(1)] by auto
next
  case OpClear
  then show ?thesis
    using fifo_cleared [OF assms(1)] by (auto simp: Clear_def)
next
  case OpReopen
  then show ?thesis
    using fifo_reopen [OF assms(1)] by auto
next
  case (OpReplay k)
  then show ?thesis
    using fifo_Replay [OF assms(1), of k] by auto
qed

lemma run_refines:
  assumes "fifo n s q p" and "list_all op_ok xs" and "n + sum_list (map op_size xs) \<le> MAX_OFF"
  shows "\<exists>t q' p' ys. run wal_step xs s = (ys, t) \<and> run fifo_step xs (q, p) = (ys, q', p') \<and>
    fifo (n + sum_list (map op_size xs)) t q' p'"
  using assms
proof (induction xs arbitrary: n s q p)
  case Nil
  then show ?case by simp
next
  case (Cons x xs)
  have "op_ok x" "n + op_size x \<le> MAX_OFF"
    using Cons.prems by simp_all
  from step_refines [OF Cons.prems(1) this] obtain t q' p' y where
    s: "wal_step x s = (y, t)" "fifo_step x (q, p) = (y, q', p')" "fifo (n + op_size x) t q' p'"
    by blast
  have "list_all op_ok xs" "n + op_size x + sum_list (map op_size xs) \<le> MAX_OFF"
    using Cons.prems by simp_all
  from Cons.IH [OF s(3) this] obtain u q'' p'' ys where
    r: "run wal_step xs t = (ys, u)" "run fifo_step xs (q', p') = (ys, q'', p'')"
      "fifo (n + op_size x + sum_list (map op_size xs)) u q'' p''"
    by blast
  then show ?case
    using s by (simp add: add.assoc)
qed

end
