(* ===== verification/WalProperties.thy ===== *)
theory WalProperties imports WalFifo begin

text \<open>
  The properties of the WAL which need both views: what a new object delivers, that a replay ends, that any sequence
  of calls behaves like a queue, and what happens when another thread empties the WAL under a replay.
\<close>

section \<open>Restart\<close>

lemma Init_crash_inv:
  assumes "fresh_wal s0" and "crash_inv (Disk s0) pre rs rest"
  shows "\<exists>t. Init s0 = (True, t) \<and> Script (Disk t) = [] \<and> m_fd t \<and> \<not> m_bReplaying t \<and> m_MaxSize t = 0 \<and>
    Files (Disk t) = Files (Disk s0) \<and> crash_inv (Disk t) pre rs rest \<and>
    (m_PendingReplay t \<longleftrightarrow> contents WAL_FILE (Disk s0) \<noteq> []) \<and> m_PeekEpoch t = 0 \<and> m_PositionEpoch t = 0 \<and> \<not> m_bPeeked t"
proof -
  from Init_ok [OF assms(1)] obtain t where t: "Init s0 = (True, t)" "Script (Disk t) = []" "m_fd t"
    "\<not> m_bReplaying t" "m_MaxSize t = 0"
    "Files (Disk t) = (Files (Disk s0))(WAL_FILE := Some (contents WAL_FILE (Disk s0)))"
    "m_PendingReplay t \<longleftrightarrow> contents WAL_FILE (Disk s0) \<noteq> []" "m_PeekEpoch t = 0" "m_PositionEpoch t = 0" "\<not> m_bPeeked t"
    by blast
  have F: "Files (Disk t) = Files (Disk s0)"
    using t(6) assms(2) by (auto simp: crash_inv_def)
  then have "crash_inv (Disk t) pre rs rest"
    using assms(2) by (simp add: crash_inv_def commit_value_def)
  with t F show ?thesis
    by simp
qed

text \<open>C5. A restart delivers what the crash theorems count on: from files with the records \<open>pre\<close> (accepted) and
  \<open>rs\<close> (not accepted) and any damaged piece at the end, a new object which is opened and replayed with a function
  that accepts \<open>k\<close> records delivers exactly the first \<open>k\<close> records of \<open>recovered\<close>, reports progress exactly if there
  was some or nothing was left, and leaves exactly the others to be recovered.\<close>

theorem restart_delivers_recovered:
  assumes "Script d = []" and "crash_inv d pre rs rest"
    and "length (contents CORRUPT_FILE d) + length rest \<le> MAX_OFF" and "length (pre @ rs) < fuel"
  shows "\<exists>t k'. Replay fuel (external (delivering taking)) (snd (Init (SimpleWAL d)), (k, [])) =
      Some (Some (length (recovered d) \<le> k \<or> 0 < k), t, (k', take k (recovered d))) \<and>
    recovered (Disk t) = drop k (recovered d)"
proof -
  from Init_crash_inv [OF fresh_SimpleWAL [OF assms(1)], unfolded Disk_SimpleWAL, OF assms(2)] obtain s where
    s: "Init (SimpleWAL d) = (True, s)" "Script (Disk s) = []" "m_fd s"
    "\<not> m_bReplaying s" "Files (Disk s) = Files d" "crash_inv (Disk s) pre rs rest"
    by blast
  from s(6) obtain i where i: "i \<le> length pre" "commit_value (Disk s) = length (frames (take i pre))"
    by (auto simp: crash_inv_def)
  have rec: "recovered d = drop i (pre @ rs)"
    using recovered_at_commit [OF s(6) i] i(1) s(5)
    by (simp add: recovered_def start_position_def commit_value_def)
  have co: "length (contents CORRUPT_FILE (Disk s)) + length rest \<le> MAX_OFF" and fu: "length (pre @ rs) - i < fuel"
    using assms(3,4) s(5) by simp_all
  from Replay_ok [OF s(2-4,6) co i fu] obtain t k' where
    R: "Replay fuel (external (delivering taking)) (s, (k, [])) =
      Some (Some (length (pre @ rs) - i \<le> k \<or> 0 < k), t, (k', take k (drop i (pre @ rs))))"
    and T: "taken s (pre @ rs) rest i k t"
    by blast
  have "recovered (Disk t) = drop k (recovered d)"
  proof (cases "length (pre @ rs) - i \<le> k")
    case True
    then have "crash_inv (Disk t) [] [] []"
      using T by (intro crash_inv_empty) (simp_all add: taken_def)
    then show ?thesis
      using recovered_crash_inv True unfolding rec by fastforce
  next
    case False
    have W: "Files (Disk s) WAL_FILE = Some (frames (pre @ rs) @ rest)" and V: "valid_records (pre @ rs)"
      "first_record rest = None" and L: "length (frames (pre @ rs) @ rest) \<le> MAX_OFF"
      using s(6) by (simp_all only: crash_inv_def)
    let ?j = "i + k"
    have j: "?j \<le> length (pre @ rs)"
      using False by simp
    have Wt: "Files (Disk t) WAL_FILE = Some (frames (pre @ rs) @ rest)"
      and cv: "commit_value (Disk t) = length (frames (take ?j (pre @ rs)))"
    proof -
      have "length (frames (take ?j (pre @ rs))) \<le> length (frames (pre @ rs))"
        using length_frames_split [OF j] by simp
      then have lt: "length (frames (take ?j (pre @ rs))) < 2 ^ 64"
        using L by (simp add: MAX_OFF_def)
      show "Files (Disk t) WAL_FILE = Some (frames (pre @ rs) @ rest)"
        using T False W unfolding taken_def by (cases "k = 0") simp_all
      show "commit_value (Disk t) = length (frames (take ?j (pre @ rs)))"
      proof (cases "k = 0")
        case True
        then have "Disk t = Disk s"
          using T False unfolding taken_def by simp
        then show ?thesis
          using i True by simp
      next
        case k: False
        then have "Files (Disk t) COMMIT_FILE = Some (le_bytes 8 (length (frames (take ?j (pre @ rs)))))"
          using T False unfolding taken_def by simp
        then show ?thesis
          using lt by (simp only: commit_value_def option.case length_le_bytes le_value_le_bytes if_True refl) simp
      qed
    qed
    from crash_invI [OF Wt V L j le_refl cv] have c: "crash_inv (Disk t) (take ?j (pre @ rs)) (drop ?j (pre @ rs)) rest" .
    have "recovered (Disk t) = drop (length (take ?j (pre @ rs))) (take ?j (pre @ rs)) @ drop ?j (pre @ rs)"
      by (rule recovered_at_commit [OF c le_refl]) (simp only: cv take_all order_refl)
    then have "recovered (Disk t) = drop ?j (pre @ rs)"
      by (simp only: drop_all order_refl append_Nil)
    then show ?thesis
      unfolding rec drop_drop by (simp only: add.commute)
  qed
  moreover have "length (recovered d) = length (pre @ rs) - i"
    unfolding rec by (rule length_drop)
  ultimately show ?thesis
    using R s(1) rec by (simp only: snd_conv) blast
qed

section \<open>A replay ends\<close>

lemma ReplayLoop_ends:
  assumes "m_fd s" and "contents WAL_FILE (Disk s) = frames all @ rest" and "valid_records all"
    and "first_record rest = None" and "i \<le> length all" and "length all - i < fuel"
  shows "ReplayLoop fuel (external f) (length (frames (take i all))) bDid (s, c) \<noteq> None"
  using assms
proof (induction fuel arbitrary: i s c bDid)
  case 0
  have False using "0.prems"(6) by simp
  then show ?case ..
next
  case (Suc fuel)
  let ?off = "length (frames (take i all))"
  obtain r s1 where rd: "ReadRecord ?off s = (r, s1)" by force
  note R = ReadRecord_any [OF rd Suc.prems(1)]
  show ?case
  proof (cases "\<exists>x. r = READ_RECORD x")
    case False
    then show ?thesis
      using rd by (cases r) simp_all
  next
    case True
    then obtain x where r: "r = READ_RECORD x" by blast
    have "first_record (drop ?off (contents WAL_FILE (Disk s))) = (if i < length all then Some (all ! i) else None)"
      using first_record_at [OF Suc.prems(5,3,4)] Suc.prems(2) by simp
    then have x: "i < length all" "all ! i = x"
      using R r by (simp_all split: if_splits)
    have p: "m_fd s1" "contents WAL_FILE (Disk s1) = frames all @ rest" "Suc i \<le> length all" "length all - Suc i < fuel"
      using R r Suc.prems x by (simp_all add: kept_def)
    obtain a c1 where a: "external f x (s1, c) = (a, s1, c1)"
      by (cases "f x c") (simp add: external_def)
    have nx: "?off + 4 + length x = length (frames (take (Suc i) all))"
      using frames_take_Suc [OF x(1)] x(2) by simp
    from Suc.IH [OF p(1,2) Suc.prems(3,4) p(3,4), of True c1] show ?thesis
      using rd r a nx by (cases a) simp_all
  qed
qed

lemma Replay_not_None:
  assumes "crash_inv (Disk s) pre rs rest" and "m_fd s" and "length (pre @ rs) < fuel"
  shows "Replay fuel (external f) (s, c) \<noteq> None"
proof -
  obtain b s1 where b: "ReplayBegin s = (b, s1)" by force
  note B = ReplayBegin_any [OF b assms(1)]
  show ?thesis
  proof (cases b)
    case None
    then show ?thesis
      using b by (simp add: Replay_def)
  next
    case (Some off)
    with B obtain i where i: "i \<le> length pre" "off = length (frames (take i (pre @ rs)))" by blast
    have p: "m_fd s1" "contents WAL_FILE (Disk s1) = frames (pre @ rs) @ rest" "valid_records (pre @ rs)"
      "first_record rest = None" "i \<le> length (pre @ rs)" "length (pre @ rs) - i < fuel"
      using B assms i(1) by (simp_all add: crash_inv_def)
    from ReplayLoop_ends [OF p, of f False c] show ?thesis
      using b Some i(2) by (auto simp: Replay_def split: prod.splits)
  qed
qed

text \<open>A replay ends: with a function which does not use the WAL, whatever the function and the disk do, the loop
  is left after at most one turn more than the file has records.\<close>

theorem Replay_ends:
  assumes "crash_inv (Disk s) pre rs rest" and "m_fd s" and "length (pre @ rs) < fuel"
  shows "Replay fuel (external f) (s, c) \<noteq> None"
  by (rule Replay_not_None [OF assms])

section \<open>Any sequence of calls is a queue\<close>

lemma Init_fifo:
  assumes "fresh_wal s0" and "crash_inv (Disk s0) pre rs []" and "length (contents CORRUPT_FILE (Disk s0)) \<le> MAX_OFF"
  shows "\<exists>s. Init s0 = (True, s) \<and> fifo (length (contents WAL_FILE (Disk s0))) s (recovered (Disk s0)) False"
proof -
  from Init_crash_inv [OF assms(1,2)] obtain s where s: "Init s0 = (True, s)" "Script (Disk s) = []" "m_fd s"
    "\<not> m_bReplaying s" "m_MaxSize s = 0" "Files (Disk s) = Files (Disk s0)" "crash_inv (Disk s) pre rs []"
    "m_PendingReplay s \<longleftrightarrow> contents WAL_FILE (Disk s0) \<noteq> []" "m_PeekEpoch s = 0" "m_PositionEpoch s = 0" "\<not> m_bPeeked s"
    by blast
  from s(7) obtain i where i: "i \<le> length pre" "commit_value (Disk s) = length (frames (take i pre))"
    by (auto simp: crash_inv_def)
  have W: "Files (Disk s) WAL_FILE = Some (frames (pre @ rs) @ [])" and V: "valid_records (pre @ rs)"
    and L: "length (frames (pre @ rs) @ []) \<le> MAX_OFF"
    using s(7) by (simp_all only: crash_inv_def)
  have rec: "recovered (Disk s0) = drop i (pre @ rs)"
    using recovered_at_commit [OF s(7) i] i(1) s(6)
    by (simp add: recovered_def start_position_def commit_value_def)
  have cv: "commit_value (Disk s) = length (frames (take i (pre @ rs)))"
    using i by simp
  have "crash_inv (Disk s) (take i (pre @ rs)) (drop i (pre @ rs)) []"
    by (rule crash_invI [OF W V first_record_Nil L _ le_refl cv]) (use i(1) in simp)
  moreover have "drop i (pre @ rs) \<noteq> [] \<longrightarrow> m_PendingReplay s"
    using W s(6,8) by auto
  ultimately have F: "fifo (length (contents WAL_FILE (Disk s0))) s (recovered (Disk s0)) False"
    unfolding fifo_def rec using s(2-6,9-11) assms(3) cv by auto
  with s(1) show ?thesis
    by blast
qed

text \<open>C2. On a disk without failures the WAL is a queue: after a restart from any files without a damaged piece,
  every sequence of \<open>Append\<close>, \<open>Peek\<close>, \<open>Ack\<close>, \<open>Clear\<close>, \<open>Replay\<close> and of closing and opening again returns exactly
  what the same calls return on the list of the recovered records, and what is left to be recovered is the list.\<close>

theorem Wal_refines_fifo:
  assumes "Script d = []" and "crash_inv d pre rs []" and "length (contents CORRUPT_FILE d) \<le> MAX_OFF"
    and "list_all op_ok xs" and "length (contents WAL_FILE d) + sum_list (map op_size xs) \<le> MAX_OFF"
  shows "fst (run wal_step xs (snd (Init (SimpleWAL d)))) = fst (run fifo_step xs (recovered d, False)) \<and>
    recovered (Disk (snd (run wal_step xs (snd (Init (SimpleWAL d)))))) =
      fst (snd (run fifo_step xs (recovered d, False)))"
proof -
  from Init_fifo [OF fresh_SimpleWAL [OF assms(1)], unfolded Disk_SimpleWAL, OF assms(2,3)] obtain s where s: "Init (SimpleWAL d) = (True, s)"
    and F: "fifo (length (contents WAL_FILE d)) s (recovered d) False"
    by blast
  from run_refines [OF F assms(4,5)] obtain t q' p' ys where r: "run wal_step xs s = (ys, t)"
    "run fifo_step xs (recovered d, False) = (ys, q', p')"
    "fifo (length (contents WAL_FILE d) + sum_list (map op_size xs)) t q' p'"
    by blast
  show ?thesis
    using s r fifo_pending [OF r(3)] by simp
qed

section \<open>A WAL with two records\<close>

definition two_records :: "outcome list \<Rightarrow> disk" where
  "two_records script = \<lparr>Files = (\<lambda>p. None)(WAL_FILE := Some (frames [[1], [2, 3]])), Script = script\<rparr>"

definition opened :: "outcome list \<Rightarrow> wal" where
  "opened script = (SimpleWAL (two_records script))\<lparr>m_fd := True, m_PendingReplay := True\<rparr>"

lemma two_records_inv: "crash_inv (two_records script) [] [[1], [2, 3]] []"
  by (simp add: crash_inv_def two_records_def valid_record_def commit_value_def MAX_OFF_def)

lemma opened_Disk [simp]: "Disk (opened script) = two_records script"
  by (simp add: opened_def SimpleWAL_def)

lemma opened_fd [simp]: "m_fd (opened script)"
  by (simp add: opened_def SimpleWAL_def)

lemma two_records_recovered: "recovered (two_records script) = [[1], [2, 3]]"
  using recovered_crash_inv [OF two_records_inv, of script] by simp

lemma two_records_room: "length (contents CORRUPT_FILE (two_records script)) \<le> MAX_OFF"
  by (simp add: two_records_def)

lemma two_records_size: "length (contents WAL_FILE (two_records script)) = 11"
  by (simp add: two_records_def)

text \<open>A short write and a full disk in the middle of a record.\<close>

abbreviation disk_full :: "outcome list" where
  "disk_full \<equiv> [Done, Done, Part 1, Fails 28]"

theorem Append_crash_safe_witness:
  "\<exists>rest. crash_inv (Disk (snd (Append [7, 8] (opened disk_full)))) []
    (if fst (Append [7, 8] (opened disk_full)) then [[1], [2, 3], [7, 8]] else [[1], [2, 3]]) rest"
proof -
  have v: "valid_record ([7, 8] :: bytes)"
    by (simp add: valid_record_def)
  from Append_crash_safe [OF two_records_inv [of disk_full, folded opened_Disk] opened_fd v
      surjective_pairing]
  show ?thesis
    by auto
qed

definition peeked :: "outcome list \<Rightarrow> wal" where
  "peeked script = (opened script)\<lparr>m_bPeeked := True, m_PeekOffset := 0, m_PeekLen := 1, m_PeekEpoch := 0\<rparr>"

theorem Ack_crash_safe_witness:
  "left_over (Disk (snd (Ack (peeked [Done, Fails 5])))) [[1], [2, 3]] [] 1"
proof -
  have d: "Disk (peeked [Done, Fails 5]) = two_records [Done, Fails 5]"
    by (simp add: peeked_def)
  have p: "peeked_at (peeked [Done, Fails 5]) ([] @ [[1], [2, 3]]) 0"
    by (simp add: peeked_at_def peeked_def)
  from Ack_crash_safe [OF two_records_inv [of "[Done, Fails 5]", folded d] p le0 surjective_pairing]
  show ?thesis
    by simp
qed

theorem restart_delivers_recovered_witness:
  "\<exists>t k'. Replay 3 (external (delivering taking)) (snd (Init (SimpleWAL (two_records []))), (1, [])) =
      Some (Some True, t, (k', [[1]])) \<and> recovered (Disk t) = [[2, 3]]"
proof -
  have s: "Script (two_records []) = []"
    by (simp add: two_records_def)
  have r: "length (contents CORRUPT_FILE (two_records [])) + length ([] :: bytes) \<le> MAX_OFF"
    using two_records_room [of "[]"] by simp
  have n: "length ([] @ [[1], [2, 3]] :: bytes list) < 3"
    by simp
  from restart_delivers_recovered [OF s two_records_inv r n, of 1]
  show ?thesis
    by (simp add: two_records_recovered)
qed

theorem Replay_ends_witness:
  "Replay 3 (external (delivering taking)) (opened disk_full, (5, [])) \<noteq> None"
proof -
  have n: "length ([] @ [[1], [2, 3]] :: bytes list) < 3"
    by simp
  from Replay_ends [OF two_records_inv [of disk_full, folded opened_Disk] opened_fd n]
  show ?thesis .
qed

theorem Replay_crash_safe_witness:
  "\<exists>res t c' l. Replay 3 (external (delivering taking)) (opened disk_full, (5, [])) = Some (res, t, (c', l)) \<and>
     (\<exists>m. l = take m [[1], [2, 3]])"
proof -
  have n: "length ([] @ [[1], [2, 3]] :: bytes list) < 3"
    by simp
  from Replay_not_None [OF two_records_inv [of disk_full, folded opened_Disk] opened_fd n, of "delivering taking" "(5, [])"]
  obtain res t c' l where r: "Replay 3 (external (delivering taking)) (opened disk_full, (5, [])) = Some (res, t, (c', l))"
    by auto
  from Replay_crash_safe [OF two_records_inv [of disk_full, folded opened_Disk] opened_fd r]
  have "\<exists>m. l = take m [[1], [2, 3]]"
    by auto
  with r show ?thesis
    by blast
qed

theorem Wal_refines_fifo_witness:
  "fst (run wal_step [OpPeek, OpAck, OpAppend [9], OpReplay 1, OpReopen, OpPeek] (snd (Init (SimpleWAL (two_records []))))) =
     [OutRecord (Some [1]), OutBool True, OutBool True, OutReplay (Some True) [[2, 3]], OutBool True, OutRecord (Some [9])]"
proof -
  have s: "Script (two_records []) = []"
    by (simp add: two_records_def)
  have n: "length (contents WAL_FILE (two_records [])) +
      sum_list (map op_size [OpPeek, OpAck, OpAppend [9], OpReplay 1, OpReopen, OpPeek]) \<le> MAX_OFF"
    unfolding two_records_size by (simp add: MAX_OFF_def)
  have o: "list_all op_ok [OpPeek, OpAck, OpAppend [9], OpReplay 1, OpReopen, OpPeek]"
    by simp
  from Wal_refines_fifo [OF s two_records_inv two_records_room o n]
  show ?thesis
    by (simp add: two_records_recovered)
qed

section \<open>Emptying the WAL under a replay\<close>

text \<open>
  Another thread empties the WAL and appends a record while the function of a replay runs (every function can be
  called from any thread at any time, and the function of the replay can call the WAL). \<open>Replay\<close> notices only a
  file which is shorter than its position. Here the new record is longer: the replay goes on in the middle of it.
\<close>

definition meanwhile :: "bytes \<Rightarrow> bytes \<Rightarrow> wal \<times> bool \<times> bytes list \<Rightarrow> consumed \<times> wal \<times> bool \<times> bytes list" where
  "meanwhile new r = (\<lambda>(s, b, l).
     (case Clear s of (c, s1) \<Rightarrow> (case Append new s1 of (a, s2) \<Rightarrow> (Accepted, s2, (c \<and> a, l @ [r])))))"

definition one_record :: wal where
  "one_record = (SimpleWAL \<lparr>Files = (\<lambda>p. None)(WAL_FILE := Some (frames [[1]])), Script = []\<rparr>)\<lparr>m_fd := True, m_PendingReplay := True\<rparr>"

text \<open>A record which \<open>Append\<close> accepted can be lost: a record of eight zero bytes which another thread appends
  after it emptied the WAL, while a replay hands out the record at the start of the file, is neither delivered by
  that replay nor recovered later. The replay takes bytes in its middle for a damaged length, moves its end to the
  file for unreadable data, empties the WAL and returns true.\<close>

theorem replay_loses_record_after_clear:
  "\<exists>t. Replay 3 (meanwhile (replicate 8 0)) (one_record, False, []) = Some (Some True, t, True, [[1]]) \<and>
     recovered (Disk t) = [] \<and> contents CORRUPT_FILE (Disk t) = replicate 7 0"
proof -
  define new :: bytes where "new = replicate 8 0"
  define s0 where "s0 = one_record\<lparr>m_bReplaying := True\<rparr>"
  have d0: "Script (Disk s0) = []" "m_fd s0" "m_MaxSize s0 = 0" "contents WAL_FILE (Disk s0) = frames [[1]]"
    "contents CORRUPT_FILE (Disk s0) = []" "Files (Disk s0) CORRUPT_FILE = None"
    by (simp_all add: s0_def one_record_def SimpleWAL_def)
  have ci: "crash_inv (Disk s0) [] [[1]] []"
    by (simp add: s0_def one_record_def SimpleWAL_def crash_inv_def commit_value_def valid_record_def MAX_OFF_def)
  from GetReplayPosition_commit [OF d0(1) ci refl] obtain s1 where
    p: "GetReplayPosition 5 s0 = (0, s1)" "kept s0 s1" "Disk s1 = Disk s0"
    using ci d0(4) by (auto simp: crash_inv_def)
  have B: "ReplayBegin one_record = (Some 0, s1)"
  proof -
    have "Files (Disk s0) WAL_FILE \<noteq> None"
      using ci by (simp add: crash_inv_def)
    then have o: "on_disk (open_read WAL_FILE) s0 = (True, s0)" "on_disk (sys_size WAL_FILE) s0 = (Some 5, s0)"
      using d0(1,4) by (simp_all add: on_disk_ok)
    have "\<not> m_bReplaying one_record"
      by (simp add: one_record_def SimpleWAL_def)
    then show ?thesis
      unfolding ReplayBegin_def s0_def [symmetric] by (simp add: o p(1))
  qed
  have d1: "Script (Disk s1) = []" "m_fd s1" "m_MaxSize s1 = 0" "contents WAL_FILE (Disk s1) = frames [[1]]"
    "contents CORRUPT_FILE (Disk s1) = []"
    using d0 p(2,3) by (simp_all add: kept_def)
  have r1: "ReadRecord 0 s1 = (READ_RECORD [1], s1)"
    using first_record_frame [of "[1]" "[]"] ReadRecord_next [OF d1(1), of 0] by (simp add: d1(4) valid_record_def)
  from ClearInternal_ok [OF d1(1,2)] obtain s2 where c: "ClearInternal s1 = (True, s2)" "Script (Disk s2) = []" "kept s1 s2"
    "Files (Disk s2) = (Files (Disk s1))(COMMIT_FILE := None, WAL_FILE := Some [])"
    by blast
  define s3 where "s3 = s2\<lparr>Disk := set_contents WAL_FILE (Some ([] @ frame new)) (Disk s2), m_bFullLogged := False,
      m_PendingReplay := True\<rparr>"
  have a: "Append new s2 = (True, s3)"
    unfolding s3_def by (rule Append_ok) (use c d1 in \<open>simp_all add: kept_def new_def MAX_OFF_def\<close>)
  have d3: "Script (Disk s3) = []" "m_fd s3" "contents WAL_FILE (Disk s3) = take 5 (frame new) @ drop 5 (frame new)"
    "contents CORRUPT_FILE (Disk s3) = []"
    using c d1 by (simp_all add: s3_def kept_def)
  have dr: "drop 5 (frame new) = replicate 7 0"
    by (simp add: frame_def new_def drop_replicate)
  have fr: "first_record (drop 5 (frame new)) = None"
    unfolding dr by (simp add: first_record_def Let_def numeral_eq_Suc)
  from ReadRecord_last [OF d3(1,2,3) fr] d3(4) obtain x s4 where
    r2: "ReadRecord (length (take 5 (frame new))) s3 = (x, s4)" "x = READ_EMPTY True \<or> x = READ_DAMAGED True"
    "Files (Disk s4) WAL_FILE = Some []" "Files (Disk s4) COMMIT_FILE = None"
    "contents CORRUPT_FILE (Disk s4) = replicate 7 0"
    using dr by (auto simp: MAX_OFF_def)
  have l5: "length (take 5 (frame new)) = 5"
    by (simp add: new_def)
  have m: "meanwhile new [1] (s1, False, []) = (Accepted, s3, False \<or> True, [[1]])"
    using c(1) a by (simp add: meanwhile_def Clear_def)
  have L: "ReplayLoop 3 (meanwhile new) 0 False (s1, False, []) = Some (LoopCleared True, 5, True, s4, True, [[1]])"
    using r1 m r2(1,2) l5 by (auto simp: numeral_3_eq_3)
  define t where "t = s4\<lparr>m_bReplaying := False\<rparr>"
  have "Replay 3 (meanwhile new) (one_record, False, []) = Some (Some True, t, True, [[1]])"
    using B L by (simp add: Replay_def ReplayEnd_def t_def)
  moreover have "recovered (Disk t) = []"
    using recovered_crash_inv [OF crash_inv_empty, of "Disk t"] r2(3,4) by (simp add: t_def)
  ultimately show ?thesis
    using r2(5) unfolding new_def by (intro exI [of _ t]) (simp add: t_def)
qed

section \<open>The destructor and a failing fstat\<close>

text \<open>The destructor removes the files of a WAL which is not empty if it cannot get the size: \<^verbatim>\<open>GetFileSize\<close> is -1
  then, and the test for an empty file is \<^verbatim>\<open><= 0\<close>. Records which were not accepted are gone.\<close>

theorem destructor_removes_records_when_fstat_fails:
  "recovered (Disk (opened [Fails EIO])) = [[1], [2, 3]] \<and>
   Files (Disk (Close (opened [Fails EIO]))) WAL_FILE = None \<and> recovered (Disk (Close (opened [Fails EIO]))) = []"
proof -
  have c: "Files (Disk (Close (opened [Fails EIO]))) = (\<lambda>p. None)"
    by (auto simp: Close_def GetFileSize_def on_disk_def sys_size_def call_def next_outcome_def sys_unlink_def
        set_contents_def two_records_def opened_def SimpleWAL_def fun_eq_iff)
  then show ?thesis
    using two_records_recovered by (simp add: recovered_def Let_def start_position_def)
qed

end
