(* ===== verification/LineQueue.thy ===== *)
theory LineQueue imports Prelude begin

text \<open>
  \<^verbatim>\<open>DomfwdSocketSender\<close> (\<^verbatim>\<open>domfwd/domfwd_socket.hpp\<close>), the Linux build: the bounded queue of lines in one buffer, and
  the connection. The members are the fields of a record. Four fields stand for the world: \<open>Net\<close> is the script of
  the results of the socket calls (return value and errno; an empty script is a network without failures), \<open>Clock\<close>
  with \<open>Ticks\<close> the monotonic clock, \<open>Wire\<close> the bytes which the socket took on every connection, \<open>m_Log\<close> the messages.
  The clock is in milliseconds and does not come near \<open>2^64\<close>.
\<close>

section \<open>The object\<close>

datatype SenderState = State_Disconnected | State_Connecting | State_Connected

datatype sock_addr = AddrUnix string | AddrTcp4 "nat list" nat | AddrTcp6 "nat list" nat

datatype sender_message =
    SenderFull nat                      \<comment> \<open>Queue is full, dropping lines\<close>
  | SenderLost string string            \<comment> \<open>Connection to ... lost\<close>
  | SenderCannot string string          \<comment> \<open>Cannot connect to ...\<close>
  | SenderConnected string

record sender =
  m_bConfigured :: bool
  m_bPlatformInit :: bool
  m_State :: SenderState
  m_Sock :: bool                        \<comment> \<open>the socket is open\<close>
  m_pLog :: bool                        \<comment> \<open>there is a log function\<close>
  m_szSpec :: string
  m_Addr :: "sock_addr option"
  m_pBuffer :: bytes
  m_Head :: nat
  m_SendPos :: nat
  m_Tail :: nat
  m_Lines :: nat
  m_MaxLines :: nat
  m_MaxBytes :: nat
  m_NextAttempt :: nat
  m_ConnectStart :: nat
  m_LastDropLog :: nat
  m_bLoggedDown :: bool
  m_Sent :: nat
  m_Dropped :: nat
  m_Rejected :: nat
  m_Connects :: nat
  Net :: "(int \<times> nat) list"
  Clock :: nat
  Ticks :: "nat list"
  Wire :: "bytes list"
  m_Log :: "sender_message list"

abbreviation RECONNECT_MS :: nat where "RECONNECT_MS \<equiv> 5000"
abbreviation CONNECT_MAX_MS :: nat where "CONNECT_MAX_MS \<equiv> 5000"
abbreviation DROP_LOG_MS :: nat where "DROP_LOG_MS \<equiv> 60000"
abbreviation SEND_CHUNK :: nat where "SEND_CHUNK \<equiv> 65536"
abbreviation SPEC_MAX :: nat where "SPEC_MAX \<equiv> 512"
abbreviation NEWLINE :: byte where "NEWLINE \<equiv> 10"

definition Sender :: "(int \<times> nat) list \<Rightarrow> nat \<Rightarrow> nat list \<Rightarrow> sender" where
  "Sender net clock ticks = \<lparr>m_bConfigured = False, m_bPlatformInit = False, m_State = State_Disconnected, m_Sock = False,
     m_pLog = False, m_szSpec = [], m_Addr = None, m_pBuffer = [], m_Head = 0, m_SendPos = 0, m_Tail = 0, m_Lines = 0,
     m_MaxLines = 0, m_MaxBytes = 0, m_NextAttempt = 0, m_ConnectStart = 0, m_LastDropLog = 0, m_bLoggedDown = False,
     m_Sent = 0, m_Dropped = 0, m_Rejected = 0, m_Connects = 0, Net = net, Clock = clock, Ticks = ticks, Wire = [], m_Log = []\<rparr>"

section \<open>The calls\<close>

text \<open>The result of a socket call; the first argument is what it is without a failure.\<close>

definition net_call :: "int \<Rightarrow> sender \<Rightarrow> (int \<times> nat) \<times> sender" where
  "net_call good s = (case Net s of [] \<Rightarrow> ((good, 0), s) | x # xs \<Rightarrow> (x, s\<lparr>Net := xs\<rparr>))"

definition NowMs :: "sender \<Rightarrow> nat \<times> sender" where
  "NowMs s = (case Ticks s of [] \<Rightarrow> (Clock s, s) | d # ds \<Rightarrow> (Clock s + d, s\<lparr>Clock := Clock s + d, Ticks := ds\<rparr>))"

definition SleepShort :: "sender \<Rightarrow> sender" where
  "SleepShort s = s\<lparr>Clock := Clock s + 10\<rparr>"

text \<open>\<open>EAGAIN\<close>, \<open>EINPROGRESS\<close>, \<open>EINTR\<close>.\<close>

definition SOCK_WOULD_BLOCK :: "nat \<Rightarrow> bool" where
  "SOCK_WOULD_BLOCK e \<longleftrightarrow> e = 11 \<or> e = 115 \<or> e = 4"

definition SenderLog :: "sender_message \<Rightarrow> sender \<Rightarrow> sender" where
  "SenderLog m s = (if m_pLog s then s\<lparr>m_Log := m_Log s @ [m]\<rparr> else s)"

definition LogDrop :: "sender \<Rightarrow> sender" where
  "LogDrop s0 =
     (case NowMs s0 of (Now, s) \<Rightarrow>
        if m_LastDropLog s = 0 \<or> Now - m_LastDropLog s \<ge> DROP_LOG_MS
        then SenderLog (SenderFull (m_Dropped s)) (s\<lparr>m_LastDropLog := Now\<rparr>) else s)"

section \<open>Configuration\<close>

text \<open>\<^verbatim>\<open>inet_pton\<close> is an argument: it gives the four, or the sixteen, bytes of an address.\<close>

definition ConfigureUnix :: "string \<Rightarrow> sender \<Rightarrow> string option \<times> sender" where
  "ConfigureUnix path s =
     (if path = [] then (Some ''unix: needs a socket path'', s)
      else if length path \<ge> 108 then (Some ''unix socket path is too long'', s)
      else (None, s\<lparr>m_Addr := Some (AddrUnix path)\<rparr>))"

definition strip_brackets :: "string \<Rightarrow> string" where
  "strip_brackets h =
     (if length h \<ge> 2 \<and> hd h = CHR ''['' \<and> last h = CHR '']'' then take (length h - 2) (tl h) else h)"

definition ConfigureTcp :: "(string \<Rightarrow> nat list option) \<Rightarrow> (string \<Rightarrow> nat list option) \<Rightarrow> string \<Rightarrow> sender
    \<Rightarrow> string option \<times> sender" where
  "ConfigureTcp inet_pton4 inet_pton6 spec s =
     (case find_last (CHR '':'') spec of
        None \<Rightarrow> (Some ''tcp: needs address:port'', s)
      | Some HostLen \<Rightarrow>
          if HostLen \<ge> SPEC_MAX then (Some ''tcp: address is too long'', s)
          else
            let host = strip_brackets (take HostLen spec);
                port = drop (Suc HostLen) spec
            in case c_strtoul port of (Port, rest) \<Rightarrow>
                 if port = [] \<or> rest \<noteq> [] \<or> Port = 0 \<or> Port > 65535 then (Some ''invalid tcp port'', s)
                 else
                   let s1 = s\<lparr>m_Addr := None\<rparr>
                   in case inet_pton4 host of
                        Some a \<Rightarrow>
                          if hd a \<noteq> 127 then (Some ''tcp: only loopback addresses (127.0.0.0/8 or ::1) are allowed'', s1)
                          else (None, s1\<lparr>m_Addr := Some (AddrTcp4 a Port)\<rparr>)
                      | None \<Rightarrow>
                          (case inet_pton6 host of
                             Some a \<Rightarrow>
                               if a \<noteq> replicate 15 0 @ [1] then (Some ''tcp: only loopback addresses (127.0.0.0/8 or ::1) are allowed'', s1)
                               else (None, s1\<lparr>m_Addr := Some (AddrTcp6 a Port)\<rparr>)
                           | None \<Rightarrow> (Some ''tcp: address must be an IP address'', s1)))"

text \<open>The result is the text of the error, or \<open>None\<close>. \<open>bMemory\<close>: \<^verbatim>\<open>malloc\<close> gives a buffer. A call without a buffer
  for the error (\<open>ErrorLen = 0\<close>) fails without a text.\<close>

definition SenderConfigure :: "(string \<Rightarrow> nat list option) \<Rightarrow> (string \<Rightarrow> nat list option) \<Rightarrow> bool \<Rightarrow> string option \<Rightarrow> bool
    \<Rightarrow> nat \<Rightarrow> nat \<Rightarrow> nat \<Rightarrow> sender \<Rightarrow> string option \<times> sender" where
  "SenderConfigure inet_pton4 inet_pton6 bMemory pszSpec pLog MaxLines MaxBytes ErrorLen s =
     (if ErrorLen = 0 then (Some [], s)
      else case pszSpec of
        None \<Rightarrow> (Some ''target is missing or too long'', s)
      | Some spec \<Rightarrow>
          if length spec \<ge> SPEC_MAX then (Some ''target is missing or too long'', s)
          else if MaxLines = 0 \<or> MaxBytes < 1024 then (Some ''invalid queue limits'', s)
          else
            let s1 = s\<lparr>m_pLog := pLog, m_MaxLines := MaxLines, m_MaxBytes := MaxBytes\<rparr>
            in case (if starts_with ''unix:'' spec then ConfigureUnix (drop 5 spec) s1
                     else if starts_with ''tcp:'' spec then ConfigureTcp inet_pton4 inet_pton6 (drop 4 spec) s1
                     else (Some ''target must start with unix: or tcp:'', s1)) of
                 (Some e, s2) \<Rightarrow> (Some e, s2)
               | (None, s2) \<Rightarrow>
                   if \<not> bMemory then (Some ''out of memory'', s2\<lparr>m_bPlatformInit := False\<rparr>)
                   else case NowMs (s2\<lparr>m_bPlatformInit := True, m_pBuffer := replicate MaxBytes 0, m_szSpec := spec,
                                       m_bConfigured := True\<rparr>) of
                     (Now, s3) \<Rightarrow> (None, s3\<lparr>m_NextAttempt := Now\<rparr>))"

section \<open>The queue\<close>

text \<open>The queued bytes, and writing into the buffer.\<close>

definition region :: "sender \<Rightarrow> nat \<Rightarrow> nat \<Rightarrow> bytes" where
  "region s a b = take (b - a) (drop a (m_pBuffer s))"

definition put_at :: "nat \<Rightarrow> bytes \<Rightarrow> bytes \<Rightarrow> bytes" where
  "put_at p data buf = take p buf @ data @ drop (p + length data) buf"

text \<open>A line is \<open>None\<close> for a null pointer.\<close>

definition Enqueue :: "bytes option \<Rightarrow> sender \<Rightarrow> bool \<times> sender" where
  "Enqueue pLine s =
     (if \<not> m_bConfigured s then (False, s)
      else case pLine of
        None \<Rightarrow> (False, s\<lparr>m_Rejected := m_Rejected s + 1\<rparr>)
      | Some l \<Rightarrow>
          if l = [] \<or> NEWLINE \<in> set l then (False, s\<lparr>m_Rejected := m_Rejected s + 1\<rparr>)
          else if m_Lines s \<ge> m_MaxLines s \<or> (m_Tail s - m_Head s) + length l + 1 > m_MaxBytes s then
            (False, LogDrop (s\<lparr>m_Dropped := m_Dropped s + 1\<rparr>))
          else
            let s1 = (if m_Tail s + length l + 1 > m_MaxBytes s then
                        s\<lparr>m_pBuffer := put_at 0 (region s (m_Head s) (m_Tail s)) (m_pBuffer s),
                          m_SendPos := m_SendPos s - m_Head s, m_Tail := m_Tail s - m_Head s, m_Head := 0\<rparr>
                      else s)
            in (True, s1\<lparr>m_pBuffer := put_at (m_Tail s1) (l @ [NEWLINE]) (m_pBuffer s1),
                         m_Tail := m_Tail s1 + length l + 1, m_Lines := m_Lines s1 + 1\<rparr>))"

definition HasRoom :: "nat \<Rightarrow> sender \<Rightarrow> bool" where
  "HasRoom Len s \<longleftrightarrow> m_bConfigured s \<and> m_Lines s < m_MaxLines s \<and> (m_Tail s - m_Head s) + Len + 1 \<le> m_MaxBytes s"

definition PeekUnsent :: "sender \<Rightarrow> bytes option" where
  "PeekUnsent s =
     (if \<not> m_bConfigured s \<or> m_Lines s = 0 then None
      else case find_index NEWLINE (region s (m_Head s) (m_Tail s)) of
        None \<Rightarrow> None
      | Some i \<Rightarrow> Some (region s (m_Head s) (m_Head s + i)))"

definition DropUnsent :: "sender \<Rightarrow> sender" where
  "DropUnsent s =
     (if \<not> m_bConfigured s \<or> m_Lines s = 0 then s
      else case find_index NEWLINE (region s (m_Head s) (m_Tail s)) of
        None \<Rightarrow> s
      | Some i \<Rightarrow>
          let s1 = s\<lparr>m_Head := m_Head s + i + 1, m_Lines := m_Lines s - 1\<rparr>;
              s2 = (if m_SendPos s1 < m_Head s1 then s1\<lparr>m_SendPos := m_Head s1\<rparr> else s1)
          in if m_Head s2 = m_Tail s2 then s2\<lparr>m_Head := 0, m_SendPos := 0, m_Tail := 0\<rparr> else s2)"

section \<open>The connection\<close>

definition CloseSocket :: "sender \<Rightarrow> sender" where
  "CloseSocket s = s\<lparr>m_Sock := False\<rparr>"

definition Disconnect :: "string \<Rightarrow> sender \<Rightarrow> sender" where
  "Disconnect reason s0 =
     (let bWasConnected = (m_State s0 = State_Connected);
          s1 = (CloseSocket s0)\<lparr>m_State := State_Disconnected, m_SendPos := m_Head s0\<rparr>
      in case NowMs s1 of (Now, s2) \<Rightarrow>
           let s3 = s2\<lparr>m_NextAttempt := Now + RECONNECT_MS\<rparr>
           in if bWasConnected then (SenderLog (SenderLost (m_szSpec s3) reason) s3)\<lparr>m_bLoggedDown := True\<rparr>
              else if \<not> m_bLoggedDown s3 then (SenderLog (SenderCannot (m_szSpec s3) reason) s3)\<lparr>m_bLoggedDown := True\<rparr>
              else s3)"

text \<open>The text of an errno is its number here.\<close>

definition DisconnectError :: "nat \<Rightarrow> sender \<Rightarrow> sender" where
  "DisconnectError err s = Disconnect (''error '' @ dec_text err) s"

definition Connected :: "sender \<Rightarrow> sender" where
  "Connected s = SenderLog (SenderConnected (m_szSpec s))
     (s\<lparr>m_State := State_Connected, m_Connects := m_Connects s + 1, m_bLoggedDown := False, Wire := Wire s @ [[]]\<rparr>)"

definition StartConnect :: "sender \<Rightarrow> sender" where
  "StartConnect s0 =
     (case net_call 3 s0 of ((sock, _), s1) \<Rightarrow>
        if sock < 0 then Disconnect ''cannot create socket'' s1
        else case net_call 0 (s1\<lparr>m_Sock := True\<rparr>) of ((flags, _), s2) \<Rightarrow>
          if flags < 0 then Disconnect ''cannot set non-blocking mode'' s2
          else case net_call 0 s2 of ((fl, _), s3) \<Rightarrow>
            if fl \<noteq> 0 then Disconnect ''cannot set non-blocking mode'' s3
            else case net_call 0 s3 of ((rc, err), s4) \<Rightarrow>
              if rc = 0 then Connected s4
              else if SOCK_WOULD_BLOCK err then
                (case NowMs s4 of (Now, s5) \<Rightarrow> s5\<lparr>m_State := State_Connecting, m_ConnectStart := Now\<rparr>)
              else DisconnectError err s4)"

text \<open>\<^verbatim>\<open>getsockopt\<close> gives its result and, as the second number of the script, the pending error of the socket.\<close>

definition CheckConnect :: "sender \<Rightarrow> sender" where
  "CheckConnect s0 =
     (case net_call 1 s0 of ((rc, _), s1) \<Rightarrow>
        if rc < 0 then Disconnect ''poll failed'' s1
        else if rc = 0 then
          (case NowMs s1 of (Now, s2) \<Rightarrow>
             if Now - m_ConnectStart s2 \<ge> CONNECT_MAX_MS then Disconnect ''connect timeout'' s2 else s2)
        else case net_call 0 s1 of ((opt, SoError), s2) \<Rightarrow>
          if opt \<noteq> 0 then Disconnect ''getsockopt failed'' s2
          else if SoError \<noteq> 0 then DisconnectError SoError s2
          else Connected s2)"

definition CheckPeerClosed :: "sender \<Rightarrow> sender" where
  "CheckPeerClosed s0 =
     (case net_call 0 s0 of ((rc, _), s1) \<Rightarrow>
        if rc \<le> 0 then s1
        else case net_call 0 s1 of ((n, err), s2) \<Rightarrow>
          if n = 0 then Disconnect ''closed by the forwarder'' s2
          else if n < 0 then (if SOCK_WOULD_BLOCK err then s2 else Disconnect ''connection error'' s2)
          else s2)"

text \<open>The loop of \<^verbatim>\<open>CompleteSentLines\<close>, and the function.\<close>

function CompleteLoop :: "sender \<Rightarrow> sender" where
  "CompleteLoop s =
     (if m_Head s < m_SendPos s then
        (case find_index NEWLINE (region s (m_Head s) (m_SendPos s)) of
           None \<Rightarrow> s
         | Some i \<Rightarrow> CompleteLoop (s\<lparr>m_Head := m_Head s + i + 1, m_Sent := m_Sent s + 1, m_Lines := m_Lines s - 1\<rparr>))
      else s)"
  by pat_completeness auto
termination
  by (relation "measure (\<lambda>s. m_SendPos s - m_Head s)") auto

declare CompleteLoop.simps [simp del]

definition CompleteSentLines :: "sender \<Rightarrow> sender" where
  "CompleteSentLines s =
     (let s1 = CompleteLoop s
      in if m_Head s1 = m_Tail s1 then s1\<lparr>m_Head := 0, m_SendPos := 0, m_Tail := 0\<rparr> else s1)"

text \<open>\<^verbatim>\<open>send\<close> takes a part of the chunk, at least one byte, or nothing, or fails. What it takes is on the wire.\<close>

definition sys_send :: "bytes \<Rightarrow> sender \<Rightarrow> (int \<times> nat) \<times> sender" where
  "sys_send chunk s0 =
     (case net_call (int (length chunk)) s0 of ((rc, err), s) \<Rightarrow>
        let n = min rc (int (length chunk))
        in ((n, err), if n > 0 then s\<lparr>Wire := butlast (Wire s) @ [last (Wire s) @ take (nat n) chunk]\<rparr> else s))"

lemma CompleteLoop_keeps:
  "m_SendPos (CompleteLoop s) = m_SendPos s \<and> m_Tail (CompleteLoop s) = m_Tail s \<and> m_pBuffer (CompleteLoop s) = m_pBuffer s"
  by (induction s rule: CompleteLoop.induct) (subst (1 2 3) CompleteLoop.simps, auto split: option.splits)

lemma CompleteSentLines_progress:
  "m_Tail (CompleteSentLines s) - m_SendPos (CompleteSentLines s) \<le> m_Tail s - m_SendPos s"
  using CompleteLoop_keeps [of s] by (simp add: CompleteSentLines_def Let_def)

lemma net_call_same:
  "net_call g s = (r, t) \<Longrightarrow> m_SendPos t = m_SendPos s \<and> m_Tail t = m_Tail s"
  by (auto simp: net_call_def split: list.splits)

lemma sys_send_same:
  assumes "sys_send chunk s = ((n, err), t)"
  shows "m_SendPos t = m_SendPos s \<and> m_Tail t = m_Tail s \<and> n \<le> int (length chunk)"
proof -
  obtain rc e s1 where c: "net_call (int (length chunk)) s = ((rc, e), s1)"
    by (metis surj_pair)
  with assms net_call_same [OF c] show ?thesis
    by (auto simp: sys_send_def Let_def split: if_splits)
qed

function SendQueued :: "sender \<Rightarrow> sender" where
  "SendQueued s =
     (if m_SendPos s < m_Tail s then
        (case sys_send (region s (m_SendPos s) (m_SendPos s + min (m_Tail s - m_SendPos s) SEND_CHUNK)) s of
           ((n, err), s1) \<Rightarrow>
             if n > 0 then SendQueued (CompleteSentLines (s1\<lparr>m_SendPos := m_SendPos s1 + nat n\<rparr>))
             else if n = 0 \<or> SOCK_WOULD_BLOCK err then s1
             else DisconnectError err s1)
      else s)"
  by pat_completeness auto
termination
proof (relation "measure (\<lambda>s. m_Tail s - m_SendPos s)", goal_cases)
  case (2 s x s1 n err)
  then have "m_SendPos s1 = m_SendPos s" "m_Tail s1 = m_Tail s"
    using sys_send_same [of _ s n err s1] by metis+
  with 2 CompleteSentLines_progress [of "s1\<lparr>m_SendPos := m_SendPos s1 + nat n\<rparr>"] show ?case
    by (simp add: le_less_trans)
qed simp

declare SendQueued.simps [simp del]

section \<open>Pump, Flush and Close\<close>

definition Pump :: "sender \<Rightarrow> sender" where
  "Pump s0 =
     (if \<not> m_bConfigured s0 then s0
      else
        let s1 = (if m_State s0 = State_Disconnected then
                    (case NowMs s0 of (Now, s) \<Rightarrow> if Now \<ge> m_NextAttempt s then StartConnect s else s)
                  else s0);
            s2 = (if m_State s1 = State_Connecting then CheckConnect s1 else s1)
        in if m_State s2 = State_Connected then
             (let s3 = CheckPeerClosed s2 in if m_State s3 = State_Connected then SendQueued s3 else s3)
           else s2)"

text \<open>The loop of \<^verbatim>\<open>Flush\<close> with the largest number of turns; \<open>None\<close>: they were not enough.\<close>

fun FlushLoop :: "nat \<Rightarrow> nat \<Rightarrow> sender \<Rightarrow> (bool \<times> sender) option" where
  "FlushLoop 0 End s = None"
| "FlushLoop (Suc fuel) End s =
     (let s1 = Pump s
      in if m_Lines s1 = 0 then Some (True, s1)
         else case NowMs s1 of (Now, s2) \<Rightarrow>
           if Now \<ge> End then Some (False, s2) else FlushLoop fuel End (SleepShort s2))"

definition Flush :: "nat \<Rightarrow> nat \<Rightarrow> sender \<Rightarrow> (bool \<times> sender) option" where
  "Flush fuel TimeoutMs s = (case NowMs s of (Now, s1) \<Rightarrow> FlushLoop fuel (Now + TimeoutMs) s1)"

definition SenderClose :: "sender \<Rightarrow> sender" where
  "SenderClose s = (CloseSocket s)\<lparr>m_State := State_Disconnected, m_pBuffer := [], m_Head := 0, m_SendPos := 0, m_Tail := 0,
     m_Lines := 0, m_bPlatformInit := False, m_bConfigured := False\<rparr>"

end
