(* ===== verification/LineQueueProofs.thy ===== *)
theory LineQueueProofs imports LineQueue begin

text \<open>
  The queue of lines is correct: the buffer with its three positions holds a list of lines, every operation does to
  that list what its name says, and what goes over the wire is this list in order. \<open>sender_inv\<close> is the invariant;
  \<open>wire_lines\<close> are the complete lines on all connections.
\<close>

section \<open>Lines and regions\<close>

definition valid_line :: "bytes \<Rightarrow> bool" where
  "valid_line l \<longleftrightarrow> l \<noteq> [] \<and> NEWLINE \<notin> set l"

definition line_region :: "bytes list \<Rightarrow> bytes" where
  "line_region L = concat (map (\<lambda>l. l @ [NEWLINE]) L)"

lemma line_region_simps [simp, queue_simps]:
  "line_region [] = []"
  "line_region (l # L) = l @ NEWLINE # line_region L"
  "line_region (L @ K) = line_region L @ line_region K"
  by (simp_all add: line_region_def)

lemma line_region_Nil [simp]: "line_region L = [] \<longleftrightarrow> L = []"
  by (cases L) auto

function complete_lines :: "bytes \<Rightarrow> bytes list" where
  "complete_lines w = (case find_index NEWLINE w of None \<Rightarrow> [] | Some i \<Rightarrow> take i w # complete_lines (drop (Suc i) w))"
  by pat_completeness auto
termination
  by (relation "measure length") (auto dest: find_index_Some_D)

declare complete_lines.simps [simp del]

lemma complete_lines_line_region:
  assumes "list_all valid_line S" and "NEWLINE \<notin> set p"
  shows "complete_lines (line_region S @ p) = S"
  using assms(1)
proof (induction S)
  case Nil
  have "find_index NEWLINE p = None"
    using assms(2) by (simp only: find_index_None not_False_eq_True)
  then show ?case
    unfolding line_region_simps append_Nil complete_lines.simps [of p] by simp
next
  case (Cons l S)
  then have "find_index NEWLINE (l @ NEWLINE # (line_region S @ p)) = Some (length l)"
    by (intro find_index_append) (simp add: valid_line_def)
  then show ?case
    using Cons by (simp add: complete_lines.simps [of "_ @ _"])
qed

lemma region_split:
  "a \<le> b \<Longrightarrow> b \<le> c \<Longrightarrow> region s a c = region s a b @ region s b c"
  unfolding region_def using take_add [of "b - a" "c - b" "drop a (m_pBuffer s)"] by simp

lemma length_region: "c \<le> length (m_pBuffer s) \<Longrightarrow> length (region s a c) = c - a"
  by (simp add: region_def)

lemma region_take: "b \<le> c \<Longrightarrow> region s a b = take (b - a) (region s a c)"
  by (simp add: region_def min_def)

lemma region_same [simp]: "region s a a = []"
  by (simp add: region_def)

lemma region_cong: "m_pBuffer t = m_pBuffer s \<Longrightarrow> region t a b = region s a b"
  by (simp add: region_def)

text \<open>The buffer holds the lines \<open>L\<close>, and no line is completely behind the send position.\<close>

definition queue_inv :: "sender \<Rightarrow> bytes list \<Rightarrow> bool" where
  "queue_inv s L \<longleftrightarrow>
     m_Head s \<le> m_SendPos s \<and> m_SendPos s \<le> m_Tail s \<and> m_Tail s \<le> m_MaxBytes s \<and> length (m_pBuffer s) = m_MaxBytes s \<and>
     region s (m_Head s) (m_Tail s) = line_region L \<and> m_Lines s = length L \<and> list_all valid_line L \<and> length L \<le> m_MaxLines s"

definition nothing_complete :: "sender \<Rightarrow> bool" where
  "nothing_complete s \<longleftrightarrow> NEWLINE \<notin> set (region s (m_Head s) (m_SendPos s))"

lemma queue_inv_length: "queue_inv s L \<Longrightarrow> m_Tail s - m_Head s = length (line_region L)"
  unfolding queue_inv_def using length_region [of "m_Tail s" s "m_Head s"] by simp

section \<open>The operations on the queue\<close>

lemma put_at_length: "p + length data \<le> length buf \<Longrightarrow> length (put_at p data buf) = length buf"
  by (simp add: put_at_def)

lemma put_at_before:
  "b \<le> p \<Longrightarrow> p + length data \<le> length buf \<Longrightarrow> take (b - a) (drop a (put_at p data buf)) = take (b - a) (drop a buf)"
  by (auto simp: put_at_def drop_take min_def intro!: arg_cong [of _ _ "take _"])

lemma put_at_self:
  "p + length data \<le> length buf \<Longrightarrow> take (length data) (drop p (put_at p data buf)) = data"
  by (simp add: put_at_def)

definition room :: "sender \<Rightarrow> bytes list \<Rightarrow> bytes \<Rightarrow> bool" where
  "room s L l \<longleftrightarrow> length L < m_MaxLines s \<and> length (line_region L) + length l + 1 \<le> m_MaxBytes s"

text \<open>Appending at the end of the buffer, where there is room.\<close>

lemma append_line:
  assumes "queue_inv s L" and "valid_line l" and "m_Tail s + length l + 1 \<le> m_MaxBytes s" and "length L < m_MaxLines s"
  shows "queue_inv (s\<lparr>m_pBuffer := put_at (m_Tail s) (l @ [NEWLINE]) (m_pBuffer s),
      m_Tail := m_Tail s + length l + 1, m_Lines := m_Lines s + 1\<rparr>) (L @ [l])"
    and "region (s\<lparr>m_pBuffer := put_at (m_Tail s) (l @ [NEWLINE]) (m_pBuffer s),
      m_Tail := m_Tail s + length l + 1, m_Lines := m_Lines s + 1\<rparr>) (m_Head s) (m_SendPos s) = region s (m_Head s) (m_SendPos s)"
proof -
  let ?buf = "put_at (m_Tail s) (l @ [NEWLINE]) (m_pBuffer s)"
  let ?t = "s\<lparr>m_pBuffer := ?buf, m_Tail := m_Tail s + length l + 1, m_Lines := m_Lines s + 1\<rparr>"
  note Q = assms(1) [unfolded queue_inv_def]
  have len: "m_Tail s + length (l @ [NEWLINE]) \<le> length (m_pBuffer s)"
    using Q assms(3) by simp
  have old: "b \<le> m_Tail s \<Longrightarrow> region ?t a b = region s a b" for a b
    unfolding region_def using put_at_before [OF _ len] by simp
  have new: "region ?t (m_Tail s) (m_Tail s + length l + 1) = l @ [NEWLINE]"
    unfolding region_def using put_at_self [OF len] by simp
  have "region ?t (m_Head s) (m_Tail s + length l + 1) = line_region (L @ [l])"
    using region_split [of "m_Head s" "m_Tail s" "m_Tail s + length l + 1" ?t] old [of "m_Tail s" "m_Head s"] new Q by simp
  then show "queue_inv ?t (L @ [l])"
    using Q assms(2-4) put_at_length [OF len] by (simp add: queue_inv_def)
  show "region ?t (m_Head s) (m_SendPos s) = region s (m_Head s) (m_SendPos s)"
    using old Q by simp
qed

text \<open>Moving the lines to the start of the buffer changes nothing.\<close>

definition compacted :: "sender \<Rightarrow> sender" where
  "compacted s = s\<lparr>m_pBuffer := put_at 0 (region s (m_Head s) (m_Tail s)) (m_pBuffer s),
     m_SendPos := m_SendPos s - m_Head s, m_Tail := m_Tail s - m_Head s, m_Head := 0\<rparr>"

lemma compacted_inv:
  assumes "queue_inv s L"
  shows "queue_inv (compacted s) L"
    and "region (compacted s) (m_Head (compacted s)) (m_SendPos (compacted s)) = region s (m_Head s) (m_SendPos s)"
proof -
  note Q = assms [unfolded queue_inv_def]
  have len: "length (region s (m_Head s) (m_Tail s)) = m_Tail s - m_Head s"
    by (rule length_region) (use Q in simp)
  have fit: "0 + length (region s (m_Head s) (m_Tail s)) \<le> length (m_pBuffer s)"
    unfolding len using Q by linarith
  have moved: "region (compacted s) 0 (m_Tail s - m_Head s) = region s (m_Head s) (m_Tail s)"
    using put_at_self [OF fit] len by (simp add: region_def compacted_def)
  moreover have "m_SendPos s - m_Head s \<le> m_Tail s - m_Head s" "m_Tail s - m_Head s \<le> m_MaxBytes s"
    using Q by linarith+
  ultimately show "queue_inv (compacted s) L"
    using Q put_at_length [OF fit] by (simp add: queue_inv_def compacted_def)
  have le: "m_SendPos s - m_Head s \<le> m_Tail s - m_Head s" "m_SendPos s \<le> m_Tail s"
    using Q by linarith+
  have "region (compacted s) 0 (m_SendPos s - m_Head s) = take (m_SendPos s - m_Head s) (region (compacted s) 0 (m_Tail s - m_Head s))"
    using region_take [OF le(1), of "compacted s" 0] by simp
  also have "\<dots> = region s (m_Head s) (m_SendPos s)"
    unfolding moved region_take [OF le(2), of s "m_Head s"] ..
  finally show "region (compacted s) (m_Head (compacted s)) (m_SendPos (compacted s)) = region s (m_Head s) (m_SendPos s)"
    by (simp add: compacted_def)
qed

text \<open>The fields which the queue operations leave alone.\<close>

definition same_net :: "sender \<Rightarrow> sender \<Rightarrow> bool" where
  "same_net s t \<longleftrightarrow> m_bConfigured t = m_bConfigured s \<and> m_State t = m_State s \<and> Wire t = Wire s \<and> m_Sent t = m_Sent s \<and>
     m_MaxLines t = m_MaxLines s \<and> m_MaxBytes t = m_MaxBytes s"

lemma LogDrop_same:
  "same_net s (LogDrop s) \<and> m_pBuffer (LogDrop s) = m_pBuffer s \<and> m_Head (LogDrop s) = m_Head s \<and>
   m_SendPos (LogDrop s) = m_SendPos s \<and> m_Tail (LogDrop s) = m_Tail s \<and> m_Lines (LogDrop s) = m_Lines s \<and>
   m_Dropped (LogDrop s) = m_Dropped s \<and> m_Rejected (LogDrop s) = m_Rejected s"
  by (simp add: LogDrop_def NowMs_def SenderLog_def same_net_def split: list.splits prod.splits)

lemma queue_inv_cong:
  "queue_inv s L \<Longrightarrow> m_pBuffer t = m_pBuffer s \<Longrightarrow> m_Head t = m_Head s \<Longrightarrow> m_SendPos t = m_SendPos s \<Longrightarrow>
   m_Tail t = m_Tail s \<Longrightarrow> m_Lines t = m_Lines s \<Longrightarrow> m_MaxLines t = m_MaxLines s \<Longrightarrow> m_MaxBytes t = m_MaxBytes s \<Longrightarrow> queue_inv t L"
  by (simp add: queue_inv_def region_def)

lemma Enqueue_cases:
  assumes "queue_inv s L" and "m_bConfigured s"
  shows "\<exists>t. Enqueue (Some l) s = (valid_line l \<and> room s L l, t) \<and> same_net s t \<and>
    queue_inv t (if valid_line l \<and> room s L l then L @ [l] else L) \<and>
    region t (m_Head t) (m_SendPos t) = region s (m_Head s) (m_SendPos s) \<and>
    m_SendPos t - m_Head t = m_SendPos s - m_Head s \<and>
    m_Rejected t = (if valid_line l then m_Rejected s else m_Rejected s + 1) \<and>
    m_Dropped t = (if valid_line l \<and> \<not> room s L l then m_Dropped s + 1 else m_Dropped s)"
proof -
  note Q = assms(1) [unfolded queue_inv_def]
  have full: "m_Lines s \<ge> m_MaxLines s \<or> (m_Tail s - m_Head s) + length l + 1 > m_MaxBytes s \<longleftrightarrow> \<not> room s L l"
    using Q queue_inv_length [OF assms(1)] by (auto simp: room_def)
  consider (invalid) "\<not> valid_line l" | (full) "valid_line l" "\<not> room s L l" | (ok) "valid_line l" "room s L l"
    by blast
  then show ?thesis
  proof cases
    case invalid
    then have "Enqueue (Some l) s = (False, s\<lparr>m_Rejected := m_Rejected s + 1\<rparr>)"
      using assms(2) by (auto simp: Enqueue_def valid_line_def)
    moreover have "queue_inv (s\<lparr>m_Rejected := m_Rejected s + 1\<rparr>) L"
      by (rule queue_inv_cong [OF assms(1)]) simp_all
    ultimately show ?thesis
      using invalid by (simp add: same_net_def region_def)
  next
    case full
    let ?s = "s\<lparr>m_Dropped := m_Dropped s + 1\<rparr>"
    have "Enqueue (Some l) s = (False, LogDrop ?s)"
      using assms(2) full \<open>_ \<longleftrightarrow> \<not> room s L l\<close> by (simp add: Enqueue_def valid_line_def)
    moreover have "queue_inv (LogDrop ?s) L"
      by (rule queue_inv_cong [OF assms(1)]) (use LogDrop_same [of ?s] in \<open>simp_all add: same_net_def\<close>)
    ultimately show ?thesis
      using full LogDrop_same [of ?s] by (simp add: same_net_def region_def)
  next
    case ok
    define s1 where "s1 = (if m_Tail s + length l + 1 > m_MaxBytes s then compacted s else s)"
    have q1: "queue_inv s1 L" "region s1 (m_Head s1) (m_SendPos s1) = region s (m_Head s) (m_SendPos s)"
      using compacted_inv [OF assms(1)] assms(1) by (simp_all add: s1_def)
    have same: "same_net s s1" "m_Rejected s1 = m_Rejected s" "m_Dropped s1 = m_Dropped s"
      "m_SendPos s1 - m_Head s1 = m_SendPos s - m_Head s"
      by (simp_all add: s1_def same_net_def compacted_def)
    have tl: "m_Tail s1 + length l + 1 \<le> m_MaxBytes s1" and ml: "length L < m_MaxLines s1"
      using ok queue_inv_length [OF assms(1)] by (auto simp: s1_def compacted_def room_def)
    let ?t = "s1\<lparr>m_pBuffer := put_at (m_Tail s1) (l @ [NEWLINE]) (m_pBuffer s1),
        m_Tail := m_Tail s1 + length l + 1, m_Lines := m_Lines s1 + 1\<rparr>"
    have "Enqueue (Some l) s = (True, ?t)"
      using assms(2) ok full by (simp add: Enqueue_def valid_line_def Let_def s1_def compacted_def)
    moreover note append_line [OF q1(1) ok(1) tl ml]
    ultimately show ?thesis
      using ok q1(2) same by (simp add: same_net_def)
  qed
qed

lemma HasRoom_iff: "queue_inv s L \<Longrightarrow> HasRoom (length l) s \<longleftrightarrow> m_bConfigured s \<and> room s L l"
  using queue_inv_length [of s L] by (auto simp: HasRoom_def room_def queue_inv_def)

lemma find_first_line:
  "list_all valid_line (l # L) \<Longrightarrow> find_index NEWLINE (line_region (l # L)) = Some (length l)"
  by (simp add: find_index_append valid_line_def)

lemma PeekUnsent_hd:
  assumes "queue_inv s L" and "m_bConfigured s"
  shows "PeekUnsent s = (case L of [] \<Rightarrow> None | l # _ \<Rightarrow> Some l)"
proof (cases L)
  case Nil
  then show ?thesis
    using assms by (simp add: PeekUnsent_def queue_inv_def)
next
  case (Cons l L')
  note Q = assms(1) [unfolded queue_inv_def]
  have i: "find_index NEWLINE (region s (m_Head s) (m_Tail s)) = Some (length l)"
    using Q Cons find_first_line by metis
  have "length l \<le> m_Tail s - m_Head s"
    using queue_inv_length [OF assms(1)] Cons by simp
  then have "region s (m_Head s) (m_Head s + length l) = take (length l) (region s (m_Head s) (m_Tail s))"
    by (simp add: region_def min_def)
  then have "region s (m_Head s) (m_Head s + length l) = l"
    using Q Cons by simp
  then show ?thesis
    using assms Cons i Q by (simp add: PeekUnsent_def)
qed

text \<open>Taking the first line off, whether it was sent or is moved elsewhere.\<close>

lemma first_line_off:
  assumes "queue_inv s (l # L)"
  shows "region s (m_Head s) (m_Head s + length l + 1) = l @ [NEWLINE]"
    and "region s (m_Head s + length l + 1) (m_Tail s) = line_region L"
    and "m_Head s + length l + 1 \<le> m_Tail s"
proof -
  note Q = assms [unfolded queue_inv_def]
  show le: "m_Head s + length l + 1 \<le> m_Tail s"
    using queue_inv_length [OF assms] by simp
  have "region s (m_Head s) (m_Head s + length l + 1) = take (length l + 1) (line_region (l # L))"
    using region_take [OF le, of s "m_Head s"] Q by simp
  then show a: "region s (m_Head s) (m_Head s + length l + 1) = l @ [NEWLINE]"
    by simp
  have "region s (m_Head s) (m_Tail s) =
      region s (m_Head s) (m_Head s + length l + 1) @ region s (m_Head s + length l + 1) (m_Tail s)"
    by (rule region_split [OF _ le]) simp
  then show "region s (m_Head s + length l + 1) (m_Tail s) = line_region L"
    unfolding a using Q by simp
qed

lemma queue_inv_reset:
  assumes "queue_inv s L" and "m_Head s = m_Tail s"
  shows "queue_inv (s\<lparr>m_Head := 0, m_SendPos := 0, m_Tail := 0\<rparr>) L \<and> L = []"
proof -
  have "line_region L = []"
    using assms unfolding queue_inv_def by (metis region_same)
  then show ?thesis
    using assms by (simp add: queue_inv_def)
qed

lemma DropUnsent_tl:
  assumes "queue_inv s L" and "m_bConfigured s"
  shows "queue_inv (DropUnsent s) (tl L) \<and> m_bConfigured (DropUnsent s) \<and> m_Sent (DropUnsent s) = m_Sent s \<and>
    m_Dropped (DropUnsent s) = m_Dropped s \<and> m_Rejected (DropUnsent s) = m_Rejected s \<and> m_State (DropUnsent s) = m_State s"
proof (cases L)
  case Nil
  then show ?thesis
    using assms by (simp add: DropUnsent_def queue_inv_def)
next
  case (Cons l L')
  note Q = assms(1) [unfolded queue_inv_def]
  note F = first_line_off [OF assms(1) [unfolded Cons]]
  have i: "find_index NEWLINE (region s (m_Head s) (m_Tail s)) = Some (length l)"
    using Q Cons find_first_line by metis
  define s1 where "s1 = s\<lparr>m_Head := m_Head s + length l + 1, m_Lines := m_Lines s - 1\<rparr>"
  define s2 where "s2 = (if m_SendPos s1 < m_Head s1 then s1\<lparr>m_SendPos := m_Head s1\<rparr> else s1)"
  have D: "DropUnsent s = (if m_Head s2 = m_Tail s2 then s2\<lparr>m_Head := 0, m_SendPos := 0, m_Tail := 0\<rparr> else s2)"
    using assms(2) Q Cons i by (simp add: DropUnsent_def Let_def s1_def s2_def)
  have "region s2 (m_Head s2) (m_Tail s2) = line_region L'"
    using F(2) by (simp add: s2_def s1_def region_def)
  then have "queue_inv s2 L'"
    using Q Cons F(3) by (simp add: queue_inv_def s2_def s1_def)
  then have "queue_inv (DropUnsent s) L'"
    unfolding D using queue_inv_reset by simp
  then show ?thesis
    using Cons assms(2) unfolding D by (simp add: s2_def s1_def)
qed

section \<open>What is on the wire\<close>

text \<open>The loop takes off exactly the lines which are behind the send position.\<close>

lemma CompleteLoop_lines:
  assumes "queue_inv s L"
  shows "\<exists>k \<le> length L. queue_inv (CompleteLoop s) (drop k L) \<and> nothing_complete (CompleteLoop s) \<and>
    region s (m_Head s) (m_SendPos s) =
      line_region (take k L) @ region (CompleteLoop s) (m_Head (CompleteLoop s)) (m_SendPos (CompleteLoop s)) \<and>
    m_Sent (CompleteLoop s) = m_Sent s + k \<and> Wire (CompleteLoop s) = Wire s \<and> m_State (CompleteLoop s) = m_State s \<and>
    m_bConfigured (CompleteLoop s) = m_bConfigured s \<and> m_Dropped (CompleteLoop s) = m_Dropped s \<and>
    m_Rejected (CompleteLoop s) = m_Rejected s"
  using assms
proof (induction s arbitrary: L rule: CompleteLoop.induct)
  case (1 s)
  note Q = "1.prems" [unfolded queue_inv_def]
  show ?case
  proof (cases "m_Head s < m_SendPos s \<and> find_index NEWLINE (region s (m_Head s) (m_SendPos s)) \<noteq> None")
    case False
    then have C: "CompleteLoop s = s"
      by (subst CompleteLoop.simps) (auto split: option.splits)
    have "nothing_complete s"
    proof (cases "m_Head s < m_SendPos s")
      case True
      then show ?thesis
        using False by (simp add: nothing_complete_def find_index_None)
    next
      case np: False
      then show ?thesis
        using Q by (simp add: nothing_complete_def)
    qed
    then show ?thesis
      using "1.prems" by (intro exI [of _ 0]) (simp add: C)
  next
    case True
    then obtain i where i: "find_index NEWLINE (region s (m_Head s) (m_SendPos s)) = Some i" by blast
    have sp: "region s (m_Head s) (m_Tail s) = region s (m_Head s) (m_SendPos s) @ region s (m_SendPos s) (m_Tail s)"
      by (rule region_split) (use Q in simp_all)
    have "NEWLINE \<in> set (region s (m_Head s) (m_SendPos s))"
      using i find_index_None by (metis option.distinct(1))
    then have i2: "find_index NEWLINE (line_region L) = Some i"
      using sp i Q by (metis find_index_append_left)
    then obtain l L' where L: "L = l # L'"
      by (cases L) simp_all
    have il: "i = length l"
      using find_first_line [of l L'] Q L i2 by simp
    note F = first_line_off [OF "1.prems" [unfolded L]]
    let ?s = "s\<lparr>m_Head := m_Head s + i + 1, m_Sent := m_Sent s + 1, m_Lines := m_Lines s - 1\<rparr>"
    have C: "CompleteLoop s = CompleteLoop ?s"
      using True i by (subst CompleteLoop.simps) simp
    have "i < m_SendPos s - m_Head s"
    proof -
      have "length (region s (m_Head s) (m_SendPos s)) = m_SendPos s - m_Head s"
        by (rule length_region) (use Q in simp)
      then show ?thesis
        using find_index_Some_D [OF i] by simp
    qed
    then have le: "m_Head s + length l + 1 \<le> m_SendPos s"
      using il by simp
    have q: "queue_inv ?s L'"
      using Q L F(2) le unfolding il by (simp add: queue_inv_def region_def)
    from "1.IH" [OF conjunct1 [OF True] i q] obtain k where k: "k \<le> length L'" "queue_inv (CompleteLoop ?s) (drop k L')"
      "nothing_complete (CompleteLoop ?s)"
      "region ?s (m_Head ?s) (m_SendPos ?s) = line_region (take k L') @
         region (CompleteLoop ?s) (m_Head (CompleteLoop ?s)) (m_SendPos (CompleteLoop ?s))"
      "m_Sent (CompleteLoop ?s) = m_Sent ?s + k" "Wire (CompleteLoop ?s) = Wire ?s" "m_State (CompleteLoop ?s) = m_State ?s"
      "m_bConfigured (CompleteLoop ?s) = m_bConfigured ?s" "m_Dropped (CompleteLoop ?s) = m_Dropped ?s"
      "m_Rejected (CompleteLoop ?s) = m_Rejected ?s"
      by blast
    have "region s (m_Head s) (m_SendPos s) = (l @ [NEWLINE]) @ region s (m_Head s + length l + 1) (m_SendPos s)"
      using region_split [of "m_Head s" "m_Head s + length l + 1" "m_SendPos s" s] le F(1) by simp
    moreover have "region s (m_Head s + length l + 1) (m_SendPos s) = region ?s (m_Head ?s) (m_SendPos ?s)"
      by (simp add: region_def il)
    ultimately have "region s (m_Head s) (m_SendPos s) = line_region (take (Suc k) L) @
        region (CompleteLoop s) (m_Head (CompleteLoop s)) (m_SendPos (CompleteLoop s))"
      unfolding C k(4) [symmetric] using k(4) L C by simp
    then show ?thesis
      using k L unfolding C by (intro exI [of _ "Suc k"]) simp
  qed
qed

lemma CompleteSentLines_lines:
  assumes "queue_inv s L"
  shows "\<exists>k \<le> length L. queue_inv (CompleteSentLines s) (drop k L) \<and> nothing_complete (CompleteSentLines s) \<and>
    region s (m_Head s) (m_SendPos s) =
      line_region (take k L) @ region (CompleteSentLines s) (m_Head (CompleteSentLines s)) (m_SendPos (CompleteSentLines s)) \<and>
    m_Sent (CompleteSentLines s) = m_Sent s + k \<and> Wire (CompleteSentLines s) = Wire s \<and>
    m_State (CompleteSentLines s) = m_State s \<and> m_bConfigured (CompleteSentLines s) = m_bConfigured s \<and>
    m_Dropped (CompleteSentLines s) = m_Dropped s \<and> m_Rejected (CompleteSentLines s) = m_Rejected s"
proof -
  let ?c = "CompleteLoop s"
  from CompleteLoop_lines [OF assms] obtain k where k: "k \<le> length L" "queue_inv ?c (drop k L)" "nothing_complete ?c"
    "region s (m_Head s) (m_SendPos s) = line_region (take k L) @ region ?c (m_Head ?c) (m_SendPos ?c)"
    "m_Sent ?c = m_Sent s + k" "Wire ?c = Wire s" "m_State ?c = m_State s" "m_bConfigured ?c = m_bConfigured s"
    "m_Dropped ?c = m_Dropped s" "m_Rejected ?c = m_Rejected s"
    by blast
  show ?thesis
  proof (cases "m_Head ?c = m_Tail ?c")
    case True
    then have "m_SendPos ?c = m_Head ?c"
      using k(2) by (simp add: queue_inv_def)
    note r = conjunct1 [OF queue_inv_reset [OF k(2) True]]
    have c: "CompleteSentLines s = ?c\<lparr>m_Head := 0, m_SendPos := 0, m_Tail := 0\<rparr>"
      using True by (simp add: CompleteSentLines_def)
    have "region ?c (m_Head ?c) (m_SendPos ?c) = []"
      using \<open>m_SendPos ?c = m_Head ?c\<close> by simp
    then show ?thesis
      unfolding c using k(1,4-10) r by (intro exI [of _ k] conjI) (simp_all add: nothing_complete_def)
  next
    case False
    then have "CompleteSentLines s = ?c"
      by (simp add: CompleteSentLines_def)
    then show ?thesis
      using k by auto
  qed
qed

text \<open>The lines which went over the wire completely, over all connections, in order.\<close>

definition wire_lines :: "sender \<Rightarrow> bytes list" where
  "wire_lines s = concat (map complete_lines (Wire s))"

text \<open>The last connection has complete lines, and behind them what of the next line was sent. Without a connection
  nothing of a line counts as sent.\<close>

definition sender_inv :: "sender \<Rightarrow> bytes list \<Rightarrow> bool" where
  "sender_inv s L \<longleftrightarrow> queue_inv s L \<and> nothing_complete s \<and> m_Sent s = length (wire_lines s) \<and>
     (if m_State s = State_Connected
      then Wire s \<noteq> [] \<and> (\<exists>S. list_all valid_line S \<and> last (Wire s) = line_region S @ region s (m_Head s) (m_SendPos s))
      else m_SendPos s = m_Head s)"

definition same_queue :: "sender \<Rightarrow> sender \<Rightarrow> bool" where
  "same_queue s t \<longleftrightarrow> m_pBuffer t = m_pBuffer s \<and> m_Head t = m_Head s \<and> m_Tail t = m_Tail s \<and> m_Lines t = m_Lines s \<and>
     m_MaxLines t = m_MaxLines s \<and> m_MaxBytes t = m_MaxBytes s \<and> m_Sent t = m_Sent s \<and> m_bConfigured t = m_bConfigured s \<and>
     m_Dropped t = m_Dropped s \<and> m_Rejected t = m_Rejected s"

text \<open>Calls which change only the script and the clock.\<close>

definition only_calls :: "sender \<Rightarrow> sender \<Rightarrow> bool" where
  "only_calls s t \<longleftrightarrow> same_queue s t \<and> m_SendPos t = m_SendPos s \<and> Wire t = Wire s \<and> m_State t = m_State s"

lemma only_calls_refl [simp]: "only_calls s s"
  by (simp add: only_calls_def same_queue_def)

lemma only_calls_trans [trans]: "only_calls s t \<Longrightarrow> only_calls t u \<Longrightarrow> only_calls s u"
  by (simp add: only_calls_def same_queue_def)

lemma only_calls_net: "net_call g s = (r, t) \<Longrightarrow> only_calls s t"
  by (auto simp: net_call_def only_calls_def same_queue_def split: list.splits)

lemma only_calls_now: "NowMs s = (r, t) \<Longrightarrow> only_calls s t"
  by (auto simp: NowMs_def only_calls_def same_queue_def split: list.splits)

lemma only_calls_sock [simp]: "only_calls s (t\<lparr>m_Sock := b\<rparr>) = only_calls s t"
  by (simp add: only_calls_def same_queue_def)

lemma only_calls_sleep: "only_calls s (SleepShort s)"
  by (simp add: SleepShort_def only_calls_def same_queue_def)

lemma region_eq: "m_pBuffer t = m_pBuffer s \<Longrightarrow> region t = region s"
  by (simp add: region_def fun_eq_iff)

lemma sender_inv_only_calls:
  assumes "sender_inv s L" and "only_calls s t"
  shows "sender_inv t L"
proof -
  have E: "region t = region s" "m_Head t = m_Head s" "m_Tail t = m_Tail s" "m_SendPos t = m_SendPos s" "Wire t = Wire s"
    "m_State t = m_State s" "m_Lines t = m_Lines s" "m_MaxLines t = m_MaxLines s" "m_MaxBytes t = m_MaxBytes s"
    "m_Sent t = m_Sent s" "m_pBuffer t = m_pBuffer s"
    using assms(2) region_eq [of t s] by (simp_all add: only_calls_def same_queue_def)
  show ?thesis
    using assms(1) unfolding sender_inv_def queue_inv_def nothing_complete_def wire_lines_def E .
qed

lemma wire_lines_only_calls: "only_calls s t \<Longrightarrow> wire_lines t = wire_lines s"
  unfolding only_calls_def wire_lines_def by metis

lemma Disconnect_keeps:
  "same_queue s (Disconnect r s) \<and> m_SendPos (Disconnect r s) = m_Head s \<and> Wire (Disconnect r s) = Wire s \<and>
   m_State (Disconnect r s) = State_Disconnected"
proof -
  obtain Now s2 where n: "NowMs ((CloseSocket s)\<lparr>m_State := State_Disconnected, m_SendPos := m_Head s\<rparr>) = (Now, s2)"
    by force
  from only_calls_now [OF n] show ?thesis
    unfolding Disconnect_def Let_def n prod.case
    by (simp add: only_calls_def same_queue_def CloseSocket_def SenderLog_def)
qed

lemma Disconnect_inv:
  assumes "sender_inv s L"
  shows "sender_inv (Disconnect r s) L \<and> wire_lines (Disconnect r s) = wire_lines s"
  using assms Disconnect_keeps [of s r]
  by (simp add: sender_inv_def same_queue_def queue_inv_def nothing_complete_def wire_lines_def region_def)

lemma Connected_inv:
  assumes "sender_inv s L" and "m_State s \<noteq> State_Connected"
  shows "sender_inv (Connected s) L \<and> wire_lines (Connected s) = wire_lines s"
proof -
  have "complete_lines [] = []"
    by (simp add: complete_lines.simps)
  then show ?thesis
    using assms
    by (auto simp: sender_inv_def Connected_def SenderLog_def queue_inv_def nothing_complete_def wire_lines_def region_def
        intro!: exI [of _ "[]"])
qed

text \<open>What every step of the connection does: the queue loses the lines which are on the wire now, and nothing else.\<close>

definition moves_lines :: "sender \<Rightarrow> bytes list \<Rightarrow> sender \<Rightarrow> bool" where
  "moves_lines s L t \<longleftrightarrow> (\<exists>k \<le> length L. sender_inv t (drop k L) \<and> wire_lines t = wire_lines s @ take k L) \<and>
     m_bConfigured t = m_bConfigured s \<and> m_Dropped t = m_Dropped s \<and> m_Rejected t = m_Rejected s"

lemma moves_linesI:
  "sender_inv t L \<Longrightarrow> wire_lines t = wire_lines s \<Longrightarrow> m_bConfigured t = m_bConfigured s \<Longrightarrow>
   m_Dropped t = m_Dropped s \<Longrightarrow> m_Rejected t = m_Rejected s \<Longrightarrow> moves_lines s L t"
  unfolding moves_lines_def by (intro conjI exI [of _ 0]) simp_all

lemma moves_only_calls: "sender_inv s L \<Longrightarrow> only_calls s t \<Longrightarrow> moves_lines s L t"
  by (rule moves_linesI) (auto intro: sender_inv_only_calls wire_lines_only_calls simp: only_calls_def same_queue_def)

lemma moves_Disconnect: "sender_inv s L \<Longrightarrow> moves_lines s L (Disconnect r s)"
  using Disconnect_inv [of s L r] Disconnect_keeps [of s r] by (auto intro: moves_linesI simp: same_queue_def)

lemma moves_Connected: "sender_inv s L \<Longrightarrow> m_State s \<noteq> State_Connected \<Longrightarrow> moves_lines s L (Connected s)"
  using Connected_inv [of s L] by (auto intro: moves_linesI simp: Connected_def SenderLog_def)

lemma moves_trans:
  assumes "moves_lines s L t" and "\<And>K. sender_inv t K \<Longrightarrow> moves_lines t K u"
  shows "moves_lines s L u"
proof -
  from \<open>moves_lines s L t\<close> obtain k where k: "k \<le> length L" "sender_inv t (drop k L)" "wire_lines t = wire_lines s @ take k L"
    by (auto simp: moves_lines_def)
  from assms(2) [OF k(2)] obtain j where j: "j \<le> length (drop k L)" "sender_inv u (drop j (drop k L))"
    "wire_lines u = wire_lines t @ take j (drop k L)"
    by (auto simp: moves_lines_def)
  have "wire_lines u = wire_lines s @ take (k + j) L"
    using k(3) j(3) by (simp add: take_add)
  moreover have "k + j \<le> length L \<and> sender_inv u (drop (k + j) L)"
    using k(1) j(1,2) by (simp add: add.commute)
  moreover note \<open>moves_lines s L t\<close>
  ultimately show ?thesis
    using assms(2) [OF k(2)] unfolding moves_lines_def by auto
qed

lemma moves_before: "only_calls s t \<Longrightarrow> moves_lines t L u \<Longrightarrow> moves_lines s L u"
  by (simp add: moves_lines_def wire_lines_only_calls) (simp add: only_calls_def same_queue_def)

lemma wire_lines_snoc: "Wire s = ws @ [w] \<Longrightarrow> wire_lines s = concat (map complete_lines ws) @ complete_lines w"
  by (simp add: wire_lines_def)

text \<open>Sending a piece of the buffer.\<close>

lemma send_piece:
  assumes "sender_inv s L" and "m_State s = State_Connected" and "Wire t = butlast (Wire s) @ [last (Wire s) @ take n (region s (m_SendPos s) (m_SendPos s + c))]"
    and "same_queue s t" and "m_SendPos t = m_SendPos s" and "m_State t = m_State s" and "n \<le> c" and "m_SendPos s + c \<le> m_Tail s"
  shows "moves_lines s L (CompleteSentLines (t\<lparr>m_SendPos := m_SendPos t + n\<rparr>))"
proof -
  let ?u = "t\<lparr>m_SendPos := m_SendPos t + n\<rparr>"
  from assms(1,2) obtain S where S: "Wire s \<noteq> []" "list_all valid_line S"
    "last (Wire s) = line_region S @ region s (m_Head s) (m_SendPos s)" and q: "queue_inv s L" and nc: "nothing_complete s"
    and sent: "m_Sent s = length (wire_lines s)"
    by (auto simp: sender_inv_def)
  have rg: "region t = region s" "region (t\<lparr>m_SendPos := x\<rparr>) = region s" for x
    using assms(4) by (simp_all add: region_def same_queue_def fun_eq_iff)
  have qu: "queue_inv ?u L"
    using q assms(4,5,7,8) by (simp add: queue_inv_def same_queue_def rg)
  have sp: "m_SendPos s + n \<le> m_SendPos s + c"
    using assms(7) by simp
  have piece: "take n (region s (m_SendPos s) (m_SendPos s + c)) = region s (m_SendPos s) (m_SendPos s + n)"
    using region_take [OF sp, of s "m_SendPos s"] by simp
  have hs: "m_Head s \<le> m_SendPos s" "m_SendPos s \<le> m_SendPos s + n"
    using q by (simp_all add: queue_inv_def)
  note join = region_split [OF hs, of s]
  from CompleteSentLines_lines [OF qu] obtain k where k: "k \<le> length L" "queue_inv (CompleteSentLines ?u) (drop k L)"
    "nothing_complete (CompleteSentLines ?u)"
    "region ?u (m_Head ?u) (m_SendPos ?u) = line_region (take k L) @
       region (CompleteSentLines ?u) (m_Head (CompleteSentLines ?u)) (m_SendPos (CompleteSentLines ?u))"
    "m_Sent (CompleteSentLines ?u) = m_Sent ?u + k" "Wire (CompleteSentLines ?u) = Wire ?u"
    "m_State (CompleteSentLines ?u) = m_State ?u" "m_bConfigured (CompleteSentLines ?u) = m_bConfigured ?u"
    "m_Dropped (CompleteSentLines ?u) = m_Dropped ?u" "m_Rejected (CompleteSentLines ?u) = m_Rejected ?u"
    by blast
  let ?v = "CompleteSentLines ?u"
  have vk: "list_all valid_line (take k L)"
    using q by (metis append_take_drop_id list_all_append queue_inv_def)
  have lw: "last (Wire ?v) = line_region (S @ take k L) @ region ?v (m_Head ?v) (m_SendPos ?v)"
    using k(4,6) assms(3-5) S(3) join piece rg by (simp add: same_queue_def)
  have old: "complete_lines (last (Wire s)) = S"
    unfolding S(3) by (rule complete_lines_line_region [OF S(2)]) (use nc in \<open>simp add: nothing_complete_def\<close>)
  have new: "complete_lines (last (Wire ?v)) = S @ take k L"
    unfolding lw by (rule complete_lines_line_region) (use S(2) vk k(3) in \<open>simp_all add: nothing_complete_def\<close>)
  have wl: "wire_lines ?v = wire_lines s @ take k L"
  proof -
    have "Wire s = butlast (Wire s) @ [last (Wire s)]"
      using S(1) by simp
    from wire_lines_snoc [OF this] have ws: "wire_lines s = concat (map complete_lines (butlast (Wire s))) @ S"
      unfolding old .
    have "Wire ?v = butlast (Wire s) @ [last (Wire ?v)]"
      using k(6) assms(3) by simp
    from wire_lines_snoc [OF this]
    have "wire_lines ?v = concat (map complete_lines (butlast (Wire s))) @ complete_lines (last (Wire ?v))" .
    then show ?thesis
      unfolding new ws by simp
  qed
  have m: "m_Sent ?v = length (wire_lines ?v)"
    unfolding wl using k(1,5) sent assms(4) by (simp add: same_queue_def)
  have st: "m_State ?v = State_Connected" and ne: "Wire ?v \<noteq> []"
    using k(6,7) assms(2,3,6) by simp_all
  have "list_all valid_line (S @ take k L)"
    using S(2) vk by simp
  with lw have "\<exists>S. list_all valid_line S \<and> last (Wire ?v) = line_region S @ region ?v (m_Head ?v) (m_SendPos ?v)"
    by blast
  with k(2,3) m st ne have "sender_inv ?v (drop k L)"
    unfolding sender_inv_def by simp
  moreover have "m_bConfigured ?v = m_bConfigured s" "m_Dropped ?v = m_Dropped s" "m_Rejected ?v = m_Rejected s"
    using k(8-10) assms(4) by (simp_all add: same_queue_def)
  ultimately show ?thesis
    using k(1) wl unfolding moves_lines_def by blast
qed

lemma sys_send_cases:
  assumes "sys_send chunk s = ((n, err), t)"
  shows "same_queue s t \<and> m_SendPos t = m_SendPos s \<and> m_State t = m_State s \<and> n \<le> int (length chunk) \<and>
    Wire t = (if n > 0 then butlast (Wire s) @ [last (Wire s) @ take (nat n) chunk] else Wire s)"
proof -
  obtain rc e s1 where c: "net_call (int (length chunk)) s = ((rc, e), s1)"
    by (metis surj_pair)
  with assms only_calls_net [OF c] show ?thesis
    by (auto simp: sys_send_def Let_def only_calls_def same_queue_def split: if_splits)
qed

lemma SendQueued_moves:
  assumes "sender_inv s L" and "m_State s = State_Connected"
  shows "moves_lines s L (SendQueued s)"
  using assms
proof (induction s arbitrary: L rule: SendQueued.induct)
  case (1 s)
  let ?c = "min (m_Tail s - m_SendPos s) SEND_CHUNK"
  let ?chunk = "region s (m_SendPos s) (m_SendPos s + ?c)"
  show ?case
  proof (cases "m_SendPos s < m_Tail s")
    case False
    then have "SendQueued s = s"
      by (subst SendQueued.simps) simp
    then show ?thesis
      using moves_only_calls [OF "1.prems"(1) only_calls_refl] by simp
  next
    case True
    obtain n err s1 where sd: "sys_send ?chunk s = ((n, err), s1)"
      by (metis surj_pair)
    note S = sys_send_cases [OF sd]
    have fit: "m_SendPos s + ?c \<le> m_Tail s"
      using True by simp
    have lc: "length ?chunk = ?c"
      using length_region [of "m_SendPos s + ?c" s "m_SendPos s"] "1.prems"(1) fit
      by (simp add: sender_inv_def queue_inv_def)
    show ?thesis
    proof (cases "n > 0")
      case True
      let ?u = "CompleteSentLines (s1\<lparr>m_SendPos := m_SendPos s1 + nat n\<rparr>)"
      have rec: "SendQueued s = SendQueued ?u"
        using \<open>m_SendPos s < m_Tail s\<close> sd True by (subst SendQueued.simps) simp
      have W: "Wire s1 = butlast (Wire s) @ [last (Wire s) @ take (nat n) ?chunk]"
        using S True by simp
      have nc: "nat n \<le> ?c"
        using S lc by (simp only: nat_le_iff)
      from S have S3: "same_queue s s1" "m_SendPos s1 = m_SendPos s" "m_State s1 = m_State s"
        by simp_all
      note M = send_piece [OF "1.prems" W S3 nc fit]
      have "m_State ?u = State_Connected"
      proof -
        have "m_SendPos s + nat n \<le> m_Tail s"
          using nc fit by linarith
        then have q: "queue_inv (s1\<lparr>m_SendPos := m_SendPos s1 + nat n\<rparr>) L"
          using "1.prems"(1) S3(1,2) region_eq [of "s1\<lparr>m_SendPos := m_SendPos s1 + nat n\<rparr>" s]
          by (simp add: sender_inv_def queue_inv_def same_queue_def)
        from CompleteSentLines_lines [OF q] show ?thesis
          using S3(3) "1.prems"(2) by auto
      qed
      then have "moves_lines ?u K (SendQueued ?u)" if "sender_inv ?u K" for K
        using "1.IH" [OF \<open>m_SendPos s < m_Tail s\<close> sd [symmetric] refl True that] by simp
      then show ?thesis
        unfolding rec by (rule moves_trans [OF M])
    next
      case False
      have oc: "only_calls s s1"
        using S False by (simp add: only_calls_def)
      have "SendQueued s = s1 \<or> SendQueued s = DisconnectError err s1"
        using \<open>m_SendPos s < m_Tail s\<close> sd False by (subst (1 2) SendQueued.simps) simp
      then show ?thesis
        using moves_only_calls [OF "1.prems"(1) oc]
          moves_before [OF oc moves_Disconnect [OF sender_inv_only_calls [OF "1.prems"(1) oc]]]
        by (auto simp: DisconnectError_def)
    qed
  qed
qed

lemma moves_after_calls:
  assumes "sender_inv s L" and "only_calls s t"
  shows "moves_lines s L t" and "moves_lines s L (Disconnect r t)"
    and "m_State s \<noteq> State_Connected \<Longrightarrow> moves_lines s L (Connected t)"
proof -
  have t: "sender_inv t L"
    using assms by (rule sender_inv_only_calls)
  show "moves_lines s L t"
    using assms by (rule moves_only_calls)
  show "moves_lines s L (Disconnect r t)"
    by (rule moves_before [OF assms(2) moves_Disconnect [OF t]])
  show "moves_lines s L (Connected t)" if "m_State s \<noteq> State_Connected"
    by (rule moves_before [OF assms(2) moves_Connected [OF t]]) (use assms(2) that in \<open>simp add: only_calls_def\<close>)
qed

lemma moves_connecting:
  assumes "sender_inv s L" and "only_calls s t" and "m_State s \<noteq> State_Connected"
  shows "moves_lines s L (t\<lparr>m_State := State_Connecting, m_ConnectStart := n\<rparr>)"
proof -
  let ?u = "t\<lparr>m_State := State_Connecting, m_ConnectStart := n\<rparr>"
  have t: "sender_inv t L" "m_State t \<noteq> State_Connected"
    using sender_inv_only_calls [OF assms(1,2)] assms(2,3) by (simp_all add: only_calls_def)
  have "region ?u = region t"
    by (rule region_eq) simp
  then have "sender_inv ?u L" "wire_lines ?u = wire_lines t"
    using t by (simp_all add: sender_inv_def queue_inv_def nothing_complete_def wire_lines_def)
  then show ?thesis
    using assms(2) wire_lines_only_calls [OF assms(2)]
    by (intro moves_linesI) (simp_all add: only_calls_def same_queue_def)
qed

lemma StartConnect_moves:
  assumes "sender_inv s L" and "m_State s \<noteq> State_Connected"
  shows "moves_lines s L (StartConnect s)"
proof -
  obtain x1 e1 s1 where c1: "net_call 3 s = ((x1, e1), s1)" by (metis surj_pair)
  obtain x2 e2 s2 where c2: "net_call 0 (s1\<lparr>m_Sock := True\<rparr>) = ((x2, e2), s2)" by (metis surj_pair)
  obtain x3 e3 s3 where c3: "net_call 0 s2 = ((x3, e3), s3)" by (metis surj_pair)
  obtain x4 e4 s4 where c4: "net_call 0 s3 = ((x4, e4), s4)" by (metis surj_pair)
  obtain Now s5 where c5: "NowMs s4 = (Now, s5)" by force
  have o1: "only_calls s s1"
    by (rule only_calls_net [OF c1])
  have o2: "only_calls s s2"
    by (rule only_calls_trans [OF _ only_calls_net [OF c2]]) (simp add: o1)
  have o3: "only_calls s s3"
    by (rule only_calls_trans [OF o2 only_calls_net [OF c3]])
  have o4: "only_calls s s4"
    by (rule only_calls_trans [OF o3 only_calls_net [OF c4]])
  have o5: "only_calls s s5"
    by (rule only_calls_trans [OF o4 only_calls_now [OF c5]])
  show ?thesis
    using moves_after_calls [OF assms(1) o1] moves_after_calls [OF assms(1) o2] moves_after_calls [OF assms(1) o3]
      moves_after_calls [OF assms(1) o4] moves_connecting [OF assms(1) o5 assms(2)] assms(2)
    by (simp add: StartConnect_def c1 c2 c3 c4 c5 DisconnectError_def)
qed

lemma CheckConnect_moves:
  assumes "sender_inv s L" and "m_State s \<noteq> State_Connected"
  shows "moves_lines s L (CheckConnect s)"
proof -
  obtain x1 e1 s1 where c1: "net_call 1 s = ((x1, e1), s1)" by (metis surj_pair)
  obtain Now s2 where c2: "NowMs s1 = (Now, s2)" by force
  obtain x3 e3 s3 where c3: "net_call 0 s1 = ((x3, e3), s3)" by (metis surj_pair)
  have o1: "only_calls s s1"
    by (rule only_calls_net [OF c1])
  have o2: "only_calls s s2"
    by (rule only_calls_trans [OF o1 only_calls_now [OF c2]])
  have o3: "only_calls s s3"
    by (rule only_calls_trans [OF o1 only_calls_net [OF c3]])
  show ?thesis
    using moves_after_calls [OF assms(1) o1] moves_after_calls [OF assms(1) o2] moves_after_calls [OF assms(1) o3] assms(2)
    by (simp add: CheckConnect_def c1 c2 c3 DisconnectError_def)
qed

lemma CheckPeerClosed_moves:
  assumes "sender_inv s L"
  shows "moves_lines s L (CheckPeerClosed s)"
proof -
  obtain x1 e1 s1 where c1: "net_call 0 s = ((x1, e1), s1)" by (metis surj_pair)
  obtain x2 e2 s2 where c2: "net_call 0 s1 = ((x2, e2), s2)" by (metis surj_pair)
  have o1: "only_calls s s1"
    by (rule only_calls_net [OF c1])
  have o2: "only_calls s s2"
    by (rule only_calls_trans [OF o1 only_calls_net [OF c2]])
  show ?thesis
    using moves_after_calls [OF assms o1] moves_after_calls [OF assms o2]
    by (simp add: CheckPeerClosed_def c1 c2)
qed

lemma moves_start: "sender_inv s L \<Longrightarrow> moves_lines s L s"
  by (rule moves_only_calls [OF _ only_calls_refl])

lemma Pump_moves:
  assumes "sender_inv s L"
  shows "moves_lines s L (Pump s)"
proof (cases "m_bConfigured s")
  case False
  then show ?thesis
    using moves_start [OF assms] by (simp add: Pump_def)
next
  case True
  obtain Now s' where n: "NowMs s = (Now, s')" by force
  note o = only_calls_now [OF n]
  define s1 where "s1 = (if m_State s = State_Disconnected then (if Now \<ge> m_NextAttempt s' then StartConnect s' else s') else s)"
  define s2 where "s2 = (if m_State s1 = State_Connecting then CheckConnect s1 else s1)"
  define s3 where "s3 = (if m_State s2 = State_Connected then CheckPeerClosed s2 else s2)"
  define s4 where "s4 = (if m_State s2 = State_Connected \<and> m_State s3 = State_Connected then SendQueued s3 else s3)"
  have P: "Pump s = s4"
    using True by (simp add: Pump_def Let_def n s1_def s2_def s3_def s4_def)
  have m1: "moves_lines s L s1"
  proof (cases "m_State s = State_Disconnected \<and> Now \<ge> m_NextAttempt s'")
    case True
    then have "moves_lines s' L (StartConnect s')"
      using sender_inv_only_calls [OF assms o] o by (intro StartConnect_moves) (simp_all add: only_calls_def)
    then show ?thesis
      using True moves_before [OF o] by (simp add: s1_def)
  next
    case False
    then show ?thesis
      using moves_only_calls [OF assms o] moves_start [OF assms] by (auto simp: s1_def)
  qed
  have m2: "moves_lines s L s2"
    by (rule moves_trans [OF m1]) (simp add: s2_def moves_start CheckConnect_moves)
  have m3: "moves_lines s L s3"
    by (rule moves_trans [OF m2]) (simp add: s3_def moves_start CheckPeerClosed_moves)
  have "moves_lines s L s4"
    by (rule moves_trans [OF m3]) (simp add: s4_def moves_start SendQueued_moves)
  then show ?thesis
    unfolding P .
qed

lemma FlushLoop_moves:
  assumes "sender_inv s L" and "FlushLoop fuel End s = Some (b, t)"
  shows "moves_lines s L t \<and> (b \<longleftrightarrow> m_Lines t = 0)"
  using assms
proof (induction fuel arbitrary: s L)
  case 0
  then show ?case by simp
next
  case (Suc fuel)
  obtain Now s2 where n: "NowMs (Pump s) = (Now, s2)" by force
  note o = only_calls_now [OF n]
  have os: "only_calls (Pump s) (SleepShort s2)"
    by (rule only_calls_trans [OF o only_calls_sleep])
  note P = Pump_moves [OF Suc.prems(1)]
  consider (empty) "m_Lines (Pump s) = 0" | (over) "m_Lines (Pump s) \<noteq> 0" "Now \<ge> End"
    | (again) "m_Lines (Pump s) \<noteq> 0" "\<not> Now \<ge> End" by blast
  then show ?case
  proof cases
    case empty
    then show ?thesis
      using Suc.prems(2) P by auto
  next
    case over
    then have "b = False" "t = s2"
      using Suc.prems(2) n by simp_all
    then show ?thesis
      using over o moves_trans [OF P moves_only_calls [OF _ o]] by (simp add: only_calls_def same_queue_def)
  next
    case again
    then have r: "FlushLoop fuel End (SleepShort s2) = Some (b, t)"
      using Suc.prems(2) n by simp
    have sl: "moves_lines s L (SleepShort s2)"
      by (rule moves_trans [OF P moves_only_calls [OF _ os]])
    from sl obtain K where "sender_inv (SleepShort s2) K"
      by (auto simp: moves_lines_def)
    then have b: "b \<longleftrightarrow> m_Lines t = 0"
      using Suc.IH [OF _ r] by blast
    have "moves_lines s L t"
      by (rule moves_trans [OF sl]) (use Suc.IH [OF _ r] in blast)
    with b show ?thesis
      by blast
  qed
qed

text \<open>A loop which sleeps ten milliseconds in every turn ends.\<close>

lemma NowMs_le: "NowMs s = (Now, t) \<Longrightarrow> Now = Clock t \<and> Clock s \<le> Clock t"
  by (auto simp: NowMs_def split: list.splits)

end
