(* ===== verification/LineQueueTheorems.thy ===== *)
theory LineQueueTheorems imports LineQueueProofs begin

text \<open>The properties of the line sender.\<close>

section \<open>A configured sender\<close>

lemma SenderConfigure_ok:
  assumes "SenderConfigure p4 p6 mem spec log ML MB EL s = (None, t)"
  shows "m_bConfigured t \<and> m_pBuffer t = replicate MB 0 \<and> m_MaxLines t = ML \<and> m_MaxBytes t = MB \<and>
    m_State t = m_State s \<and> m_Head t = m_Head s \<and> m_SendPos t = m_SendPos s \<and> m_Tail t = m_Tail s \<and> m_Lines t = m_Lines s \<and>
    m_Sent t = m_Sent s \<and> m_Dropped t = m_Dropped s \<and> m_Rejected t = m_Rejected s \<and> Wire t = Wire s"
proof -
  obtain spec' where sp: "spec = Some spec'" and g: "EL \<noteq> 0" "length spec' < SPEC_MAX" "ML \<noteq> 0" "\<not> MB < 1024"
    using assms by (cases spec; simp add: SenderConfigure_def split: if_splits)
  let ?s1 = "s\<lparr>m_pLog := log, m_MaxLines := ML, m_MaxBytes := MB\<rparr>"
  let ?c = "if starts_with ''unix:'' spec' then ConfigureUnix (drop 5 spec') ?s1
      else if starts_with ''tcp:'' spec' then ConfigureTcp p4 p6 (drop 4 spec') ?s1
      else (Some ''target must start with unix: or tcp:'', ?s1)"
  obtain r s2 where c: "?c = (r, s2)" by force
  have r: "r = None" and mem: "mem"
    using assms sp g c by (cases r; simp add: SenderConfigure_def split: if_splits)+
  have s2: "\<exists>a. s2 = ?s1\<lparr>m_Addr := a\<rparr>"
    using c r by (auto simp: ConfigureUnix_def ConfigureTcp_def Let_def split: if_splits option.splits prod.splits)
  let ?s3 = "s2\<lparr>m_bPlatformInit := True, m_pBuffer := replicate MB 0, m_szSpec := spec', m_bConfigured := True\<rparr>"
  obtain Now s4 where n: "NowMs ?s3 = (Now, s4)" by force
  have t: "t = s4\<lparr>m_NextAttempt := Now\<rparr>"
    using assms sp g c r mem n by (simp add: SenderConfigure_def)
  show ?thesis
    using n s2 unfolding t by (auto simp: NowMs_def split: list.splits)
qed

lemma configured_inv:
  assumes "SenderConfigure p4 p6 mem spec log ML MB EL (Sender net clock ticks) = (None, t)"
  shows "sender_inv t [] \<and> wire_lines t = [] \<and> m_bConfigured t \<and> m_MaxLines t = ML \<and> m_MaxBytes t = MB \<and>
    m_Dropped t = 0 \<and> m_Rejected t = 0"
  using SenderConfigure_ok [OF assms]
  by (simp add: sender_inv_def queue_inv_def nothing_complete_def wire_lines_def Sender_def)

definition local_addr :: "sock_addr \<Rightarrow> bool" where
  "local_addr a = (case a of
       AddrUnix path \<Rightarrow> path \<noteq> [] \<and> length path < 108
     | AddrTcp4 ip port \<Rightarrow> hd ip = 127 \<and> 1 \<le> port \<and> port \<le> 65535
     | AddrTcp6 ip port \<Rightarrow> ip = replicate 15 0 @ [1] \<and> 1 \<le> port \<and> port \<le> 65535)"

lemma configured_local_addr:
  assumes "SenderConfigure p4 p6 mem spec log ML MB EL s = (None, t)"
  shows "\<exists>a. m_Addr t = Some a \<and> local_addr a"
proof -
  obtain spec' where sp: "spec = Some spec'" and g: "EL \<noteq> 0" "length spec' < SPEC_MAX" "ML \<noteq> 0" "\<not> MB < 1024"
    using assms by (cases spec; simp add: SenderConfigure_def split: if_splits)
  let ?s1 = "s\<lparr>m_pLog := log, m_MaxLines := ML, m_MaxBytes := MB\<rparr>"
  let ?c = "if starts_with ''unix:'' spec' then ConfigureUnix (drop 5 spec') ?s1
      else if starts_with ''tcp:'' spec' then ConfigureTcp p4 p6 (drop 4 spec') ?s1
      else (Some ''target must start with unix: or tcp:'', ?s1)"
  obtain r s2 where c: "?c = (r, s2)" by force
  have r: "r = None" and mem: "mem"
    using assms sp g c by (cases r; simp add: SenderConfigure_def split: if_splits)+
  have a: "\<exists>a. m_Addr s2 = Some a \<and> local_addr a"
    using c r by (auto simp: ConfigureUnix_def ConfigureTcp_def Let_def local_addr_def
        split: if_splits option.splits prod.splits)
  obtain Now s4 where n: "NowMs (s2\<lparr>m_bPlatformInit := True, m_pBuffer := replicate MB 0, m_szSpec := spec',
      m_bConfigured := True\<rparr>) = (Now, s4)" by force
  have t: "t = s4\<lparr>m_NextAttempt := Now\<rparr>"
    using assms sp g c r mem n by (simp add: SenderConfigure_def)
  show ?thesis
    using n a unfolding t by (auto simp: NowMs_def split: list.splits)
qed

text \<open>The sender only ever connects to this machine: a configuration which is accepted has a UNIX socket path which
  fits, or an address in 127.0.0.0/8, or ::1, with a port from 1 to 65535. This holds for every \<^verbatim>\<open>inet_pton\<close>.\<close>

theorem sender_connects_only_to_this_machine:
  assumes "SenderConfigure p4 p6 mem spec log ML MB EL s = (None, t)"
  shows "\<exists>a. m_Addr t = Some a \<and> local_addr a"
  using assms by (rule configured_local_addr)

section \<open>Enqueue and HasRoom\<close>

text \<open>\<open>Enqueue\<close> takes a line exactly if it is not empty, has no new line in it, and \<open>HasRoom\<close> says so; then it is the
  last line of the queue. A line which is not taken changes no line of the queue and is counted: as rejected if it
  is invalid, as dropped if there is no room.\<close>

theorem Enqueue_takes_iff_HasRoom:
  assumes "sender_inv s L" and "m_bConfigured s" and "Enqueue (Some l) s = (ok, t)"
  shows "(ok \<longleftrightarrow> valid_line l \<and> HasRoom (length l) s) \<and> sender_inv t (if ok then L @ [l] else L) \<and>
    m_Rejected t = m_Rejected s + (if valid_line l then 0 else 1) \<and>
    m_Dropped t = m_Dropped s + (if valid_line l \<and> \<not> ok then 1 else 0)"
proof -
  have q: "queue_inv s L"
    using assms(1) by (simp add: sender_inv_def)
  from Enqueue_cases [OF q assms(2), of l] assms(3) have
    ok: "ok \<longleftrightarrow> valid_line l \<and> room s L l" and sn: "same_net s t" and
    qt: "queue_inv t (if valid_line l \<and> room s L l then L @ [l] else L)" and
    rg: "region t (m_Head t) (m_SendPos t) = region s (m_Head s) (m_SendPos s)" and
    df: "m_SendPos t - m_Head t = m_SendPos s - m_Head s" and
    cn: "m_Rejected t = (if valid_line l then m_Rejected s else m_Rejected s + 1)"
      "m_Dropped t = (if valid_line l \<and> \<not> room s L l then m_Dropped s + 1 else m_Dropped s)"
    by auto
  have "m_Head t \<le> m_SendPos t"
    using qt by (simp add: queue_inv_def)
  then have "sender_inv t (if ok then L @ [l] else L)"
    unfolding sender_inv_def nothing_complete_def rg
    using assms(1) sn qt ok df by (auto simp: sender_inv_def nothing_complete_def same_net_def wire_lines_def)
  then show ?thesis
    using ok cn HasRoom_iff [OF q, of l] assms(2) by simp
qed

section \<open>A run of the sender\<close>

datatype sender_op = OpEnqueue bytes | OpPump

text \<open>The lines which were taken, and the state.\<close>

fun sender_run :: "sender_op list \<Rightarrow> sender \<Rightarrow> bytes list \<times> sender" where
  "sender_run [] s = ([], s)"
| "sender_run (OpEnqueue l # xs) s =
     (case Enqueue (Some l) s of (ok, t) \<Rightarrow> (case sender_run xs t of (acc, u) \<Rightarrow> (if ok then l # acc else acc, u)))"
| "sender_run (OpPump # xs) s = sender_run xs (Pump s)"

definition queued_lines :: "sender \<Rightarrow> bytes list" where
  "queued_lines s = complete_lines (region s (m_Head s) (m_Tail s))"

fun enqueues :: "sender_op list \<Rightarrow> nat" where
  "enqueues [] = 0"
| "enqueues (OpEnqueue l # xs) = Suc (enqueues xs)"
| "enqueues (OpPump # xs) = enqueues xs"

lemma queued_lines_inv: "sender_inv s L \<Longrightarrow> queued_lines s = L"
  using complete_lines_line_region [of L "[]"] by (simp add: queued_lines_def sender_inv_def queue_inv_def)

lemma Enqueue_inv:
  assumes "sender_inv s L" and "m_bConfigured s" and "Enqueue (Some l) s = (ok, t)"
  shows "sender_inv t (if ok then L @ [l] else L) \<and> m_bConfigured t \<and> wire_lines t = wire_lines s \<and>
    m_Dropped t + m_Rejected t = m_Dropped s + m_Rejected s + (if ok then 0 else 1) \<and>
    m_MaxLines t = m_MaxLines s \<and> m_MaxBytes t = m_MaxBytes s"
proof -
  have q: "queue_inv s L"
    using assms(1) by (simp add: sender_inv_def)
  from Enqueue_cases [OF q assms(2), of l] assms(3) have
    ok: "ok \<longleftrightarrow> valid_line l \<and> room s L l" and sn: "same_net s t" and
    qt: "queue_inv t (if valid_line l \<and> room s L l then L @ [l] else L)" and
    rg: "region t (m_Head t) (m_SendPos t) = region s (m_Head s) (m_SendPos s)" and
    df: "m_SendPos t - m_Head t = m_SendPos s - m_Head s" and
    cn: "m_Rejected t = (if valid_line l then m_Rejected s else m_Rejected s + 1)"
      "m_Dropped t = (if valid_line l \<and> \<not> room s L l then m_Dropped s + 1 else m_Dropped s)"
    by auto
  have "m_Head t \<le> m_SendPos t"
    using qt by (simp add: queue_inv_def)
  then have "sender_inv t (if ok then L @ [l] else L)"
    unfolding sender_inv_def nothing_complete_def rg
    using assms(1) sn qt ok df by (auto simp: sender_inv_def nothing_complete_def same_net_def wire_lines_def)
  then show ?thesis
    using ok cn sn assms(2) by (auto simp: same_net_def wire_lines_def)
qed

lemma sender_run_inv:
  assumes "sender_inv s L" and "m_bConfigured s" and "sender_run xs s = (acc, t)"
  shows "\<exists>K. sender_inv t K \<and> wire_lines t @ K = wire_lines s @ L @ acc \<and>
    length acc + m_Dropped t + m_Rejected t = m_Dropped s + m_Rejected s + enqueues xs"
  using assms
proof (induction xs arbitrary: s L acc)
  case Nil
  then show ?case by auto
next
  case (Cons x xs)
  show ?case
  proof (cases x)
    case (OpEnqueue l)
    obtain ok s1 where e: "Enqueue (Some l) s = (ok, s1)" by force
    obtain acc1 where r: "sender_run xs s1 = (acc1, t)" "acc = (if ok then l # acc1 else acc1)"
      using Cons.prems(3) OpEnqueue e by (cases "sender_run xs s1") auto
    note E = Enqueue_inv [OF Cons.prems(1,2) e]
    from Cons.IH [OF _ _ r(1)] E obtain K where "sender_inv t K"
      "wire_lines t @ K = wire_lines s1 @ (if ok then L @ [l] else L) @ acc1"
      "length acc1 + m_Dropped t + m_Rejected t = m_Dropped s1 + m_Rejected s1 + enqueues xs"
      by blast
    then show ?thesis
      using E r(2) OpEnqueue by (intro exI [of _ K]) (auto split: if_splits)
  next
    case OpPump
    from Pump_moves [OF Cons.prems(1)] obtain k where k: "k \<le> length L" "sender_inv (Pump s) (drop k L)"
      "wire_lines (Pump s) = wire_lines s @ take k L" "m_bConfigured (Pump s) = m_bConfigured s"
      "m_Dropped (Pump s) = m_Dropped s" "m_Rejected (Pump s) = m_Rejected s"
      by (auto simp: moves_lines_def)
    have "m_bConfigured (Pump s)"
      using k(4) Cons.prems(2) by simp
    from Cons.IH [OF k(2) this] Cons.prems(3) OpPump obtain K where "sender_inv t K"
      "wire_lines t @ K = wire_lines (Pump s) @ drop k L @ acc"
      "length acc + m_Dropped t + m_Rejected t = m_Dropped (Pump s) + m_Rejected (Pump s) + enqueues xs"
      by auto
    then show ?thesis
      using k OpPump by (intro exI [of _ K]) simp
  qed
qed

text \<open>C7. Every line which the sender took is sent once and in order, whatever the network does: after any run of
  \<open>Enqueue\<close> and \<open>Pump\<close> from a new sender, the complete lines on all the connections followed by the lines in the
  queue are the lines which were taken, in the order of the calls. The counters are right: sent plus queued plus
  dropped plus rejected is the number of calls of \<open>Enqueue\<close>.\<close>

theorem lines_are_sent_once_in_order:
  assumes "SenderConfigure p4 p6 mem spec log ML MB EL (Sender net clock ticks) = (None, s)"
    and "sender_run xs s = (acc, t)"
  shows "wire_lines t @ queued_lines t = acc \<and> m_Sent t = length (wire_lines t) \<and> m_Lines t = length (queued_lines t) \<and>
    m_Sent t + m_Lines t + m_Dropped t + m_Rejected t = enqueues xs"
proof -
  note c = configured_inv [OF assms(1)]
  from sender_run_inv [OF _ _ assms(2)] c obtain K where K: "sender_inv t K" "wire_lines t @ K = acc"
    "length acc + m_Dropped t + m_Rejected t = enqueues xs"
    by fastforce
  have "queued_lines t = K"
    by (rule queued_lines_inv [OF K(1)])
  moreover have "m_Sent t = length (wire_lines t)" "m_Lines t = length K"
    using K(1) by (simp_all add: sender_inv_def queue_inv_def)
  ultimately show ?thesis
    using K(2,3) by auto
qed

section \<open>Flush\<close>

lemma clock_net: "net_call g s = (r, t) \<Longrightarrow> Clock t = Clock s"
  by (auto simp: net_call_def split: list.splits)

lemma clock_now: "NowMs s = (Now, t) \<Longrightarrow> Clock s \<le> Clock t"
  by (auto simp: NowMs_def split: list.splits)

lemma clock_Disconnect: "Clock s \<le> Clock (Disconnect r s)"
proof -
  obtain Now s2 where n: "NowMs ((CloseSocket s)\<lparr>m_State := State_Disconnected, m_SendPos := m_Head s\<rparr>) = (Now, s2)"
    by force
  from clock_now [OF n] show ?thesis
    unfolding Disconnect_def Let_def n prod.case by (simp add: CloseSocket_def SenderLog_def)
qed

lemma clock_DisconnectError: "Clock s \<le> Clock (DisconnectError e s)"
  by (simp add: DisconnectError_def clock_Disconnect)

lemma clock_Connected [simp]: "Clock (Connected s) = Clock s"
  by (simp add: Connected_def SenderLog_def)

lemma clock_CompleteLoop: "Clock (CompleteLoop s) = Clock s"
  by (induction s rule: CompleteLoop.induct) (subst CompleteLoop.simps, auto split: option.splits)

lemma clock_CompleteSentLines: "Clock (CompleteSentLines s) = Clock s"
  by (simp add: CompleteSentLines_def Let_def clock_CompleteLoop)

lemma clock_send:
  assumes "sys_send chunk s = ((n, err), t)"
  shows "Clock t = Clock s"
proof -
  obtain rc e s1 where c: "net_call (int (length chunk)) s = ((rc, e), s1)"
    by (metis surj_pair)
  with assms clock_net [OF c] show ?thesis
    by (auto simp: sys_send_def Let_def split: if_splits)
qed

lemma clock_SendQueued: "Clock s \<le> Clock (SendQueued s)"
proof (induction s rule: SendQueued.induct)
  case (1 s)
  let ?chunk = "region s (m_SendPos s) (m_SendPos s + min (m_Tail s - m_SendPos s) SEND_CHUNK)"
  obtain n err s1 where sd: "sys_send ?chunk s = ((n, err), s1)"
    by (metis surj_pair)
  note c = clock_send [OF sd]
  show ?case
  proof (cases "m_SendPos s < m_Tail s \<and> n > 0")
    case True
    then have "SendQueued s = SendQueued (CompleteSentLines (s1\<lparr>m_SendPos := m_SendPos s1 + nat n\<rparr>))"
      using sd by (subst SendQueued.simps) simp
    then show ?thesis
      using "1.IH" [OF conjunct1 [OF True] sd [symmetric] refl conjunct2 [OF True]] c
      by (simp add: clock_CompleteSentLines)
  next
    case False
    then have "SendQueued s = s \<or> SendQueued s = s1 \<or> SendQueued s = DisconnectError err s1"
      using sd by (subst (1 2 3) SendQueued.simps) auto
    then show ?thesis
      using c clock_DisconnectError [of s1 err] by auto
  qed
qed

lemma clock_StartConnect: "Clock s \<le> Clock (StartConnect s)"
proof -
  obtain x1 e1 s1 where c1: "net_call 3 s = ((x1, e1), s1)" by (metis surj_pair)
  obtain x2 e2 s2 where c2: "net_call 0 (s1\<lparr>m_Sock := True\<rparr>) = ((x2, e2), s2)" by (metis surj_pair)
  obtain x3 e3 s3 where c3: "net_call 0 s2 = ((x3, e3), s3)" by (metis surj_pair)
  obtain x4 e4 s4 where c4: "net_call 0 s3 = ((x4, e4), s4)" by (metis surj_pair)
  obtain Now s5 where c5: "NowMs s4 = (Now, s5)" by force
  have "Clock s1 = Clock s" "Clock s2 = Clock s" "Clock s3 = Clock s" "Clock s4 = Clock s" "Clock s \<le> Clock s5"
    using clock_net [OF c1] clock_net [OF c2] clock_net [OF c3] clock_net [OF c4] clock_now [OF c5] by simp_all
  then show ?thesis
    using clock_Disconnect [of s1] clock_Disconnect [of s2] clock_Disconnect [of s3] clock_Disconnect [of s4]
    by (simp add: StartConnect_def c1 c2 c3 c4 c5 DisconnectError_def)
qed

lemma clock_CheckConnect: "Clock s \<le> Clock (CheckConnect s)"
proof -
  obtain x1 e1 s1 where c1: "net_call 1 s = ((x1, e1), s1)" by (metis surj_pair)
  obtain Now s2 where c2: "NowMs s1 = (Now, s2)" by force
  obtain x3 e3 s3 where c3: "net_call 0 s1 = ((x3, e3), s3)" by (metis surj_pair)
  have "Clock s1 = Clock s" "Clock s \<le> Clock s2" "Clock s3 = Clock s"
    using clock_net [OF c1] clock_now [OF c2] clock_net [OF c3] by simp_all
  then show ?thesis
    using clock_Disconnect [of s1] clock_Disconnect [of s3] order_trans [OF _ clock_Disconnect [of s2]]
    by (simp add: CheckConnect_def c1 c2 c3 DisconnectError_def)
qed

lemma clock_CheckPeerClosed: "Clock s \<le> Clock (CheckPeerClosed s)"
proof -
  obtain x1 e1 s1 where c1: "net_call 0 s = ((x1, e1), s1)" by (metis surj_pair)
  obtain x2 e2 s2 where c2: "net_call 0 s1 = ((x2, e2), s2)" by (metis surj_pair)
  have "Clock s1 = Clock s" "Clock s2 = Clock s"
    using clock_net [OF c1] clock_net [OF c2] by simp_all
  then show ?thesis
    using clock_Disconnect [of s2] by (simp add: CheckPeerClosed_def c1 c2)
qed

lemma clock_Pump: "Clock s \<le> Clock (Pump s)"
proof -
  obtain Now s' where n: "NowMs s = (Now, s')" by force
  define s1 where "s1 = (if m_State s = State_Disconnected then (if Now \<ge> m_NextAttempt s' then StartConnect s' else s') else s)"
  define s2 where "s2 = (if m_State s1 = State_Connecting then CheckConnect s1 else s1)"
  define s3 where "s3 = (if m_State s2 = State_Connected then CheckPeerClosed s2 else s2)"
  define s4 where "s4 = (if m_State s2 = State_Connected \<and> m_State s3 = State_Connected then SendQueued s3 else s3)"
  have "Clock s \<le> Clock s1"
    using clock_now [OF n] clock_StartConnect [of s'] by (simp add: s1_def)
  also have "\<dots> \<le> Clock s2"
    using clock_CheckConnect by (simp add: s2_def)
  also have "\<dots> \<le> Clock s3"
    using clock_CheckPeerClosed by (simp add: s3_def)
  also have "\<dots> \<le> Clock s4"
    using clock_SendQueued by (simp add: s4_def)
  finally have "Clock s \<le> Clock s4" .
  moreover have "Pump s = (if m_bConfigured s then s4 else s)"
    by (simp add: Pump_def Let_def n s1_def s2_def s3_def s4_def)
  ultimately show ?thesis
    by simp
qed

lemma FlushLoop_ends:
  "End \<le> Clock s + 10 * fuel \<Longrightarrow> FlushLoop (Suc fuel) End s \<noteq> None"
proof (induction fuel arbitrary: s)
  case 0
  obtain Now s2 where n: "NowMs (Pump s) = (Now, s2)" by force
  have "End \<le> Now"
    using NowMs_le [OF n] clock_Pump [of s] 0 by simp
  then show ?case
    by (auto simp: n Let_def)
next
  case (Suc fuel)
  obtain Now s2 where n: "NowMs (Pump s) = (Now, s2)" by force
  have "Clock s \<le> Clock s2"
    using NowMs_le [OF n] clock_Pump [of s] by simp
  then have "FlushLoop (Suc fuel) End (SleepShort s2) \<noteq> None"
    using Suc.prems by (intro Suc.IH) (simp add: SleepShort_def)
  then show ?case
    by (simp only: FlushLoop.simps(2) [of "Suc fuel"] n Let_def prod.case split: if_split) blast
qed

text \<open>C8. \<open>Flush\<close> ends: a turn of its loop sleeps ten milliseconds, so it takes at most one turn more than the timeout
  has of them. It returns true exactly if the queue is empty then, and it keeps every line: what left the queue is
  on the wire.\<close>

theorem Flush_ends_and_keeps:
  assumes "sender_inv s L" and "TimeoutMs \<le> 10 * n"
  shows "\<exists>b t. Flush (Suc n) TimeoutMs s = Some (b, t) \<and> (b \<longleftrightarrow> queued_lines t = []) \<and>
    wire_lines t @ queued_lines t = wire_lines s @ L"
proof -
  obtain Now s1 where now: "NowMs s = (Now, s1)" by force
  have "Now + TimeoutMs \<le> Clock s1 + 10 * n"
    using NowMs_le [OF now] assms(2) by simp
  from FlushLoop_ends [OF this] obtain b t where f: "FlushLoop (Suc n) (Now + TimeoutMs) s1 = Some (b, t)"
    by auto
  note o = only_calls_now [OF now]
  from FlushLoop_moves [OF sender_inv_only_calls [OF assms(1) o] f] obtain k where
    k: "sender_inv t (drop k L)" "wire_lines t = wire_lines s1 @ take k L" "b \<longleftrightarrow> m_Lines t = 0"
    by (auto simp: moves_lines_def)
  have "m_Lines t = length (drop k L)"
    using k(1) by (simp only: sender_inv_def queue_inv_def)
  then show ?thesis
    using f now k queued_lines_inv [OF k(1)] wire_lines_only_calls [OF o] by (simp add: Flush_def)
qed

text \<open>Moving the queue elsewhere loses no line: \<open>PeekUnsent\<close> shows the oldest line of the queue, or nothing exactly if
  the queue is empty, and \<open>DropUnsent\<close> takes exactly that line off and counts it nowhere.\<close>

theorem PeekUnsent_then_DropUnsent:
  assumes "queue_inv s L" and "m_bConfigured s"
  shows "PeekUnsent s = (case L of [] \<Rightarrow> None | l # _ \<Rightarrow> Some l) \<and> queue_inv (DropUnsent s) (tl L) \<and>
    m_Sent (DropUnsent s) = m_Sent s \<and> m_Dropped (DropUnsent s) = m_Dropped s \<and> m_Rejected (DropUnsent s) = m_Rejected s"
  using PeekUnsent_hd [OF assms] DropUnsent_tl [OF assms] by simp

section \<open>A sender to a socket\<close>

definition sender0 :: "(int \<times> nat) list \<Rightarrow> sender" where
  "sender0 net = snd (SenderConfigure (\<lambda>h. None) (\<lambda>h. None) True (Some ''unix:/s'') True 2 1024 1 (Sender net 0 []))"

lemma sender0_configured:
  "SenderConfigure (\<lambda>h. None) (\<lambda>h. None) True (Some ''unix:/s'') True 2 1024 1 (Sender net 0 []) = (None, sender0 net)"
  by (simp add: sender0_def SenderConfigure_def ConfigureUnix_def starts_with_def NowMs_def Sender_def split: list.splits)

theorem sender_connects_only_to_this_machine_witness: "\<exists>a. m_Addr (sender0 []) = Some a \<and> local_addr a"
  using sender_connects_only_to_this_machine [OF sender0_configured] .

theorem Enqueue_takes_iff_HasRoom_witness:
  "fst (Enqueue (Some [65]) (sender0 [])) \<longleftrightarrow> valid_line [65] \<and> HasRoom 1 (sender0 [])"
  using Enqueue_takes_iff_HasRoom [of "sender0 []" "[]" "[65]", OF _ _ surjective_pairing]
    configured_inv [OF sender0_configured, of "[]"] by simp

theorem lines_are_sent_once_in_order_witness:
  "wire_lines (snd (sender_run [OpEnqueue [65], OpPump, OpEnqueue [10], OpEnqueue [66], OpPump] (sender0 [(3, 0), (0, 0), (0, 0), (0, 0), (0, 0), (1, 0), (-1, 104)]))) @
   queued_lines (snd (sender_run [OpEnqueue [65], OpPump, OpEnqueue [10], OpEnqueue [66], OpPump] (sender0 [(3, 0), (0, 0), (0, 0), (0, 0), (0, 0), (1, 0), (-1, 104)]))) =
   fst (sender_run [OpEnqueue [65], OpPump, OpEnqueue [10], OpEnqueue [66], OpPump] (sender0 [(3, 0), (0, 0), (0, 0), (0, 0), (0, 0), (1, 0), (-1, 104)]))"
  using lines_are_sent_once_in_order [OF sender0_configured surjective_pairing] by blast

theorem Flush_ends_and_keeps_witness:
  "\<exists>b t. Flush (Suc 10) 100 (sender0 [(-1, 0)]) = Some (b, t) \<and> (b \<longleftrightarrow> queued_lines t = [])"
  using Flush_ends_and_keeps [of "sender0 [(-1, 0)]" "[]" 100 10] configured_inv [OF sender0_configured, of "[(-1, 0)]"]
  by auto

theorem PeekUnsent_then_DropUnsent_witness: "PeekUnsent (sender0 []) = None"
  using PeekUnsent_then_DropUnsent [of "sender0 []" "[]"] configured_inv [OF sender0_configured, of "[]"]
  by (simp add: sender_inv_def)

end
