(* ===== verification/Durable.thy ===== *)
theory Durable imports WalFifo LineQueueTheorems begin

text \<open>
  \<^verbatim>\<open>DomfwdDurableSender\<close> (\<^verbatim>\<open>domfwd/domfwd_durable.hpp\<close>), the Linux build: the line sender with the WAL behind it. The
  move of lines from the WAL to the sender is written over the operations it calls (\<open>DrainInner\<close>, \<open>DrainOuter\<close>), and
  its correctness is proved in a locale from the contracts of the two components: a store which is a queue of
  records, and a sink which is a queue of lines. Both locales are interpreted on the WAL and on the sender.
\<close>

section \<open>The object\<close>

record durable =
  m_Sender :: sender
  m_pWal :: "wal option"
  m_Spilled :: nat
  m_Drained :: nat
  m_WalRefused :: nat
  d_Log :: "string list"

abbreviation LOW_WATER :: nat where "LOW_WATER \<equiv> 16"
abbreviation DRAIN_MAX :: nat where "DRAIN_MAX \<equiv> 200"

definition Durable :: "sender \<Rightarrow> durable" where
  "Durable s = \<lparr>m_Sender = s, m_pWal = None, m_Spilled = 0, m_Drained = 0, m_WalRefused = 0, d_Log = []\<rparr>"

text \<open>A null pointer is \<open>None\<close>.\<close>

definition IsValidLine :: "bytes option \<Rightarrow> bool" where
  "IsValidLine pLine = (case pLine of None \<Rightarrow> False | Some l \<Rightarrow> length l > 0 \<and> find_index NEWLINE l = None)"

definition OpenWal :: "bool \<Rightarrow> disk \<Rightarrow> nat \<Rightarrow> durable \<Rightarrow> durable" where
  "OpenWal log d WalMaxBytes s =
     (case Init (SetMaxSize WalMaxBytes (SetLogFunction True (SimpleWAL d))) of
        (False, w) \<Rightarrow> if log then s\<lparr>d_Log := d_Log s @ [''The WAL cannot be opened. Lines are kept in memory only'']\<rparr> else s
      | (True, w) \<Rightarrow> s\<lparr>m_pWal := Some w\<rparr>)"

text \<open>\<open>files\<close> is the disk with the files of a path.\<close>

definition Durable_Configure :: "(string \<Rightarrow> nat list option) \<Rightarrow> (string \<Rightarrow> nat list option) \<Rightarrow> bool \<Rightarrow> (string \<Rightarrow> disk)
    \<Rightarrow> string option \<Rightarrow> bool \<Rightarrow> nat \<Rightarrow> nat \<Rightarrow> string option \<Rightarrow> nat \<Rightarrow> nat \<Rightarrow> durable \<Rightarrow> string option \<times> durable" where
  "Durable_Configure p4 p6 mem files spec log MaxLines MaxBytes WalPath WalMaxBytes ErrorLen s =
     (case SenderConfigure p4 p6 mem spec log MaxLines MaxBytes ErrorLen (m_Sender s) of
        (Some e, q) \<Rightarrow> (Some e, s\<lparr>m_Sender := q\<rparr>)
      | (None, q) \<Rightarrow>
          let s1 = s\<lparr>m_Sender := q\<rparr>
          in case WalPath of
               None \<Rightarrow> (None, s1)
             | Some path \<Rightarrow> if path = [] then (None, s1) else (None, OpenWal log (files path) WalMaxBytes s1))"

definition IsConnected :: "sender \<Rightarrow> bool" where
  "IsConnected s \<longleftrightarrow> m_State s = State_Connected"

definition GetQueuedLines :: "sender \<Rightarrow> nat" where
  "GetQueuedLines s = m_Lines s"

section \<open>Send\<close>

definition Spill :: "bytes \<Rightarrow> wal \<Rightarrow> durable \<Rightarrow> bool \<times> durable" where
  "Spill l w s =
     (if length l \<le> 0xFFFFFFFF then
        (case Append l w of
           (True, w') \<Rightarrow> (True, s\<lparr>m_pWal := Some w', m_Spilled := m_Spilled s + 1\<rparr>)
         | (False, w') \<Rightarrow> (False, s\<lparr>m_pWal := Some w', m_WalRefused := m_WalRefused s + 1\<rparr>))
      else (False, s\<lparr>m_WalRefused := m_WalRefused s + 1\<rparr>))"

definition Durable_Send :: "bytes option \<Rightarrow> durable \<Rightarrow> bool \<times> durable" where
  "Durable_Send pLine s =
     (let plain = (case Enqueue pLine (m_Sender s) of (b, q) \<Rightarrow> (b, s\<lparr>m_Sender := q\<rparr>))
      in case m_pWal s of
           None \<Rightarrow> plain
         | Some w \<Rightarrow>
             (case pLine of
                None \<Rightarrow> plain
              | Some l \<Rightarrow>
                  if IsValidLine pLine then
                    if IsConnected (m_Sender s) \<and> \<not> IsReplayPending w \<and> HasRoom (length l) (m_Sender s) then plain
                    else Spill l w s
                  else plain))"

section \<open>Drain\<close>

text \<open>The two loops, over the operations they call. The number is what is left of \<open>DRAIN_MAX\<close>; the inner loop also says
  whether the function returns.\<close>

record ('w, 's) drain_ops =
  op_peek :: "'w \<Rightarrow> bytes option \<times> 'w"
  op_ack :: "'w \<Rightarrow> bool \<times> 'w"
  op_has_room :: "nat \<Rightarrow> 's \<Rightarrow> bool"
  op_enqueue :: "bytes option \<Rightarrow> 's \<Rightarrow> bool \<times> 's"
  op_pump :: "'s \<Rightarrow> 's"
  op_lines :: "'s \<Rightarrow> nat"
  op_connected :: "'s \<Rightarrow> bool"

fun DrainInner :: "('w, 's) drain_ops \<Rightarrow> nat \<Rightarrow> 'w \<times> 's \<times> nat \<Rightarrow> bool \<times> nat \<times> 'w \<times> 's \<times> nat" where
  "DrainInner ops 0 (w, s, drained) = (False, 0, w, s, drained)"
| "DrainInner ops (Suc left) (w, s, drained) =
     (if op_lines ops s < LOW_WATER then
        (case op_peek ops w of
           (None, w1) \<Rightarrow> (True, Suc left, w1, op_pump ops s, drained)
         | (Some Record, w1) \<Rightarrow>
             if IsValidLine (Some Record) \<and> \<not> op_has_room ops (length Record) s then
               (True, Suc left, w1, op_pump ops s, drained)
             else case op_ack ops w1 of
               (False, w2) \<Rightarrow> (True, Suc left, w2, op_pump ops s, drained)
             | (True, w2) \<Rightarrow> DrainInner ops left (w2, snd (op_enqueue ops (Some Record) s), Suc drained))
      else (False, Suc left, w, s, drained))"

lemma DrainInner_left:
  "DrainInner ops left (w, s, d) = (ret, left', w', s', d') \<Longrightarrow>
     left' \<le> left \<and> (\<not> ret \<and> 0 < left \<and> op_lines ops s < LOW_WATER \<longrightarrow> left' < left) \<and>
     (\<not> ret \<and> \<not> op_lines ops s < LOW_WATER \<longrightarrow> s' = s)"
proof (induction ops left "(w, s, d)" arbitrary: w s d rule: DrainInner.induct)
  case (2 ops left w s d)
  show ?case
  proof (cases "\<exists>r w1 w2. op_lines ops s < LOW_WATER \<and> op_peek ops w = (Some r, w1) \<and>
      \<not> (IsValidLine (Some r) \<and> \<not> op_has_room ops (length r) s) \<and> op_ack ops w1 = (True, w2)")
    case True
    then obtain r w1 w2 where c: "op_lines ops s < LOW_WATER" "op_peek ops w = (Some r, w1)"
      "\<not> (IsValidLine (Some r) \<and> \<not> op_has_room ops (length r) s)" "op_ack ops w1 = (True, w2)"
      by blast
    then have "DrainInner ops left (w2, snd (op_enqueue ops (Some r) s), Suc d) = (ret, left', w', s', d')"
      using "2.prems" by (cases "IsValidLine (Some r)") auto
    from "2.hyps" [OF c(1) c(2) [symmetric] refl c(3) c(4) [symmetric] refl this] c(1) show ?thesis
      by simp
  next
    case False
    then show ?thesis
      using "2.prems" by (auto split: if_splits option.splits prod.splits bool.splits)
  qed
qed simp

function DrainOuter :: "('w, 's) drain_ops \<Rightarrow> nat \<Rightarrow> 'w \<times> 's \<times> nat \<Rightarrow> 'w \<times> 's \<times> nat" where
  "DrainOuter ops left (w, s, drained) =
     (if left = 0 then (w, s, drained)
      else case DrainInner ops left (w, s, drained) of
        (ret, left', w', s', drained') \<Rightarrow>
          if ret then (w', s', drained')
          else
            let s'' = op_pump ops s'
            in if op_lines ops s'' \<ge> LOW_WATER \<or> \<not> op_connected ops s'' then (w', s'', drained')
               else DrainOuter ops left' (w', s'', drained'))"
  by pat_completeness auto
termination
  by (relation "measure (\<lambda>(ops, left, w, s, d). 2 * left + (if op_lines ops s < LOW_WATER then 0 else 1))")
    (auto dest!: DrainInner_left [OF sym])

declare DrainOuter.simps [simp del]

definition wal_sender_ops :: "(wal, sender) drain_ops" where
  "wal_sender_ops = \<lparr>op_peek = Peek, op_ack = Ack, op_has_room = HasRoom, op_enqueue = Enqueue, op_pump = Pump,
     op_lines = GetQueuedLines, op_connected = IsConnected\<rparr>"

definition Drain :: "wal \<Rightarrow> durable \<Rightarrow> durable" where
  "Drain w s =
     (if \<not> IsConnected (m_Sender s) \<or> \<not> IsReplayPending w then s
      else case DrainOuter wal_sender_ops DRAIN_MAX (w, m_Sender s, m_Drained s) of
        (w', q', n') \<Rightarrow> s\<lparr>m_pWal := Some w', m_Sender := q', m_Drained := n'\<rparr>)"

definition Durable_Pump :: "durable \<Rightarrow> durable" where
  "Durable_Pump s =
     (let s1 = s\<lparr>m_Sender := Pump (m_Sender s)\<rparr>
      in case m_pWal s1 of None \<Rightarrow> s1 | Some w \<Rightarrow> Drain w s1)"

section \<open>Flush and Close\<close>

text \<open>Moves the lines of the queue to the WAL. \<open>DropUnsent\<close> takes a line off, so the number of lines is enough fuel.\<close>

fun MoveUnsent :: "nat \<Rightarrow> wal \<Rightarrow> durable \<Rightarrow> durable" where
  "MoveUnsent 0 w s = s"
| "MoveUnsent (Suc fuel) w s =
     (case PeekUnsent (m_Sender s) of
        None \<Rightarrow> s
      | Some l \<Rightarrow>
          (case Append l w of
             (False, w') \<Rightarrow> s\<lparr>m_pWal := Some w', m_WalRefused := m_WalRefused s + 1\<rparr>
           | (True, w') \<Rightarrow>
               MoveUnsent fuel w' (s\<lparr>m_pWal := Some w', m_Sender := DropUnsent (m_Sender s), m_Spilled := m_Spilled s + 1\<rparr>)))"

definition Durable_Flush :: "nat \<Rightarrow> nat \<Rightarrow> durable \<Rightarrow> (bool \<times> durable) option" where
  "Durable_Flush fuel TimeoutMs s =
     (case Flush fuel TimeoutMs (m_Sender s) of
        None \<Rightarrow> None
      | Some (True, q) \<Rightarrow> Some (True, s\<lparr>m_Sender := q\<rparr>)
      | Some (False, q) \<Rightarrow>
          (case m_pWal s of
             None \<Rightarrow> Some (False, s\<lparr>m_Sender := q\<rparr>)
           | Some w \<Rightarrow>
               let s1 = MoveUnsent (Suc (GetQueuedLines q)) w (s\<lparr>m_Sender := q\<rparr>)
               in Some (GetQueuedLines (m_Sender s1) = 0, s1)))"

text \<open>Closing also runs the destructor of the WAL; the files are what it leaves.\<close>

definition Durable_Close :: "durable \<Rightarrow> disk option \<times> durable" where
  "Durable_Close s = (map_option (\<lambda>w. Disk (Close w)) (m_pWal s), s\<lparr>m_Sender := SenderClose (m_Sender s), m_pWal := None\<rparr>)"

definition Durable_GetDropped :: "durable \<Rightarrow> nat" where
  "Durable_GetDropped s = m_Dropped (m_Sender s) + m_WalRefused s"

definition Durable_GetWalSize :: "durable \<Rightarrow> nat" where
  "Durable_GetWalSize s = (case m_pWal s of None \<Rightarrow> 0 | Some w \<Rightarrow> fst (GetSize w))"

end
