(* ===== verification/DurableProofs.thy ===== *)
theory DurableProofs imports Durable WalProperties begin

text \<open>
  The lines which wait in the WAL and in the queue are one queue. The locales say what the drain needs of a store and
  of a sink; the WAL provides the store (\<open>fifo\<close>), the line sender the sink (\<open>sender_inv\<close>).
\<close>

section \<open>The contracts\<close>

locale record_store =
  fixes store_inv :: "'w \<Rightarrow> bytes list \<Rightarrow> bool \<Rightarrow> bool"
    and peek :: "'w \<Rightarrow> bytes option \<times> 'w"
    and ack :: "'w \<Rightarrow> bool \<times> 'w"
  assumes peek_front: "store_inv w q p \<Longrightarrow>
      \<exists>w'. peek w = (case q of [] \<Rightarrow> None | r # _ \<Rightarrow> Some r, w') \<and> store_inv w' q (q \<noteq> [])"
    and ack_front: "store_inv w q p \<Longrightarrow> \<exists>w'. ack w = (p, w') \<and> store_inv w' (if p then tl q else q) False"
begin

text \<open>One record is taken out by a \<open>peek\<close> and an \<open>ack\<close>.\<close>

lemma take_front:
  assumes "store_inv w (r # q) p"
  shows "\<exists>w1 w2. peek w = (Some r, w1) \<and> ack w1 = (True, w2) \<and> store_inv w1 (r # q) True \<and> store_inv w2 q False"
proof -
  from peek_front [OF assms] obtain w1 where w1: "peek w = (Some r, w1)" "store_inv w1 (r # q) True"
    by auto
  from ack_front [OF w1(2)] obtain w2 where "ack w1 = (True, w2)" "store_inv w2 q False"
    by auto
  with w1 show ?thesis
    by blast
qed

lemma take_nothing:
  assumes "store_inv w [] p"
  shows "\<exists>w1. peek w = (None, w1) \<and> store_inv w1 [] False"
  using peek_front [OF assms] by simp

end

locale line_sink =
  fixes sink_inv :: "'s \<Rightarrow> bytes list \<Rightarrow> bool"
    and sent :: "'s \<Rightarrow> bytes list"
    and enqueue :: "bytes option \<Rightarrow> 's \<Rightarrow> bool \<times> 's"
    and has_room :: "nat \<Rightarrow> 's \<Rightarrow> bool"
    and pump :: "'s \<Rightarrow> 's"
  assumes enqueue_room: "sink_inv s L \<Longrightarrow> valid_line l \<Longrightarrow> has_room (length l) s \<Longrightarrow>
      \<exists>s'. enqueue (Some l) s = (True, s') \<and> sink_inv s' (L @ [l]) \<and> sent s' = sent s"
    and enqueue_invalid: "sink_inv s L \<Longrightarrow> \<not> valid_line l \<Longrightarrow>
      \<exists>s'. enqueue (Some l) s = (False, s') \<and> sink_inv s' L \<and> sent s' = sent s"
    and pump_sends: "sink_inv s L \<Longrightarrow> \<exists>k \<le> length L. sink_inv (pump s) (drop k L) \<and> sent (pump s) = sent s @ take k L"
begin

text \<open>What was sent and what is queued are one sequence.\<close>

definition all_lines :: "'s \<Rightarrow> bytes list \<Rightarrow> bytes list" where
  "all_lines s L = sent s @ L"

lemma pump_keeps: "sink_inv s L \<Longrightarrow> \<exists>L'. sink_inv (pump s) L' \<and> all_lines (pump s) L' = all_lines s L"
  using pump_sends [of s L] by (auto simp: all_lines_def)

lemma enqueue_adds:
  assumes "sink_inv s L" and "valid_line l \<Longrightarrow> has_room (length l) s"
  shows "\<exists>L'. sink_inv (snd (enqueue (Some l) s)) L' \<and>
    all_lines (snd (enqueue (Some l) s)) L' = all_lines s L @ filter valid_line [l]"
proof (cases "valid_line l")
  case True
  from enqueue_room [OF assms(1) True assms(2) [OF True]] True show ?thesis
    by (auto simp: all_lines_def)
next
  case False
  from enqueue_invalid [OF assms(1) False] False show ?thesis
    by (auto simp: all_lines_def)
qed

end

locale drain = record_store store_inv "op_peek ops" "op_ack ops" +
    line_sink sink_inv sent "op_enqueue ops" "op_has_room ops" "op_pump ops"
  for store_inv :: "'w \<Rightarrow> bytes list \<Rightarrow> bool \<Rightarrow> bool" and sink_inv :: "'s \<Rightarrow> bytes list \<Rightarrow> bool"
    and sent :: "'s \<Rightarrow> bytes list" and ops :: "('w, 's) drain_ops"
begin

text \<open>The drain moves lines from the front of the store to the end of the queue: their sequence stays the same, apart
  from records which are not lines, which are thrown away.\<close>

lemma inner_keeps:
  assumes "DrainInner ops left (w, s, d) = (ret, left', w', s', d')" and "store_inv w q p" and "sink_inv s L"
  shows "\<exists>q' p' L'. store_inv w' q' p' \<and> sink_inv s' L' \<and>
    all_lines s' L' @ filter valid_line q' = all_lines s L @ filter valid_line q \<and> d' + length q' = d + length q"
  using assms
proof (induction left arbitrary: w s d q p L)
  case 0
  then show ?case by auto
next
  case (Suc left)
  note run = Suc.prems(1) and W = Suc.prems(2) and S = Suc.prems(3)
  have pump: "\<exists>L'. sink_inv (op_pump ops s) L' \<and> all_lines (op_pump ops s) L' = all_lines s L"
    by (rule pump_keeps [OF S])
  show ?case
  proof (cases "op_lines ops s < LOW_WATER")
    case False
    then show ?thesis
      using run W S by auto
  next
    case low: True
    show ?thesis
    proof (cases q)
      case Nil
      from take_nothing [OF W [unfolded Nil]] obtain w1 where "op_peek ops w = (None, w1)" "store_inv w1 [] False"
        by blast
      then have "w' = w1" "s' = op_pump ops s" "d' = d"
        using run low by simp_all
      then show ?thesis
        using pump \<open>store_inv w1 [] False\<close> Nil by (metis add.right_neutral)
    next
      case (Cons r q1)
      from take_front [OF W [unfolded Cons]] obtain w1 w2 where k: "op_peek ops w = (Some r, w1)"
        "op_ack ops w1 = (True, w2)" "store_inv w1 (r # q1) True" "store_inv w2 q1 False"
        by blast
      have v: "IsValidLine (Some r) \<longleftrightarrow> valid_line r"
        by (auto simp: IsValidLine_def valid_line_def find_index_None)
      show ?thesis
      proof (cases "valid_line r \<and> \<not> op_has_room ops (length r) s")
        case True
        then have "w' = w1" "s' = op_pump ops s" "d' = d"
          using run low k(1) v by simp_all
        moreover obtain L' where "sink_inv (op_pump ops s) L'" "all_lines (op_pump ops s) L' = all_lines s L"
          using pump by blast
        ultimately show ?thesis
          using k(3) unfolding Cons by (intro exI [of _ "r # q1"] exI [of _ True] exI [of _ L']) simp
      next
        case False
        let ?s = "snd (op_enqueue ops (Some r) s)"
        have rec: "DrainInner ops left (w2, ?s, Suc d) = (ret, left', w', s', d')"
          using run low k(1,2) v False by auto
        from enqueue_adds [OF S] False obtain L1 where
          L1: "sink_inv ?s L1" "all_lines ?s L1 = all_lines s L @ filter valid_line [r]"
          by blast
        from Suc.IH [OF rec k(4) L1(1)] obtain q' p' L' where IH: "store_inv w' q' p'" "sink_inv s' L'"
          "all_lines s' L' @ filter valid_line q' = all_lines ?s L1 @ filter valid_line q1" "d' + length q' = Suc d + length q1"
          by blast
        have "all_lines ?s L1 @ filter valid_line q1 = all_lines s L @ filter valid_line q"
          unfolding L1(2) Cons by simp
        then show ?thesis
          using IH Cons by (intro exI [of _ q'] exI [of _ p'] exI [of _ L']) simp
      qed
    qed
  qed
qed

lemma outer_keeps:
  assumes "DrainOuter ops left (w, s, d) = (w', s', d')" and "store_inv w q p" and "sink_inv s L"
  shows "\<exists>q' p' L'. store_inv w' q' p' \<and> sink_inv s' L' \<and>
    all_lines s' L' @ filter valid_line q' = all_lines s L @ filter valid_line q \<and> d' + length q' = d + length q"
  using assms
proof (induction "2 * left + (if op_lines ops s < LOW_WATER then 0 else 1 :: nat)" arbitrary: left w s d q p L rule: less_induct)
  case less
  note run = less.prems(1) and W = less.prems(2) and S = less.prems(3)
  show ?case
  proof (cases "left = 0")
    case True
    then show ?thesis
      using run W S by (subst (asm) DrainOuter.simps) auto
  next
    case False
    obtain ret left1 w1 s1 d1 where i: "DrainInner ops left (w, s, d) = (ret, left1, w1, s1, d1)"
      by (metis prod_cases5)
    from inner_keeps [OF i W S] obtain q1 p1 L1 where I: "store_inv w1 q1 p1" "sink_inv s1 L1"
      "all_lines s1 L1 @ filter valid_line q1 = all_lines s L @ filter valid_line q" "d1 + length q1 = d + length q"
      by blast
    show ?thesis
    proof (cases ret)
      case True
      then have "w' = w1" "s' = s1" "d' = d1"
        using run False i by (simp_all add: DrainOuter.simps [of ops left])
      then show ?thesis
        using I by blast
    next
      case nr: False
      let ?s = "op_pump ops s1"
      from pump_keeps [OF I(2)] obtain L2 where P: "sink_inv ?s L2" "all_lines ?s L2 = all_lines s1 L1"
        by blast
      show ?thesis
      proof (cases "op_lines ops ?s \<ge> LOW_WATER \<or> \<not> op_connected ops ?s")
        case True
        then have "w' = w1" "s' = ?s" "d' = d1"
          using run False i nr by (auto simp: DrainOuter.simps [of ops left] Let_def)
        then show ?thesis
          using I P by metis
      next
        case again: False
        then have rec: "DrainOuter ops left1 (w1, ?s, d1) = (w', s', d')"
          using run False i nr by (simp add: DrainOuter.simps [of ops left] Let_def)
        have "2 * left1 + (if op_lines ops ?s < LOW_WATER then 0 else 1) <
            2 * left + (if op_lines ops s < LOW_WATER then 0 else 1 :: nat)"
          using DrainInner_left [OF i] nr again False by (cases "op_lines ops s < LOW_WATER") auto
        from less.hyps [OF this rec I(1) P(1)] obtain q' p' L' where "store_inv w' q' p'" "sink_inv s' L'"
          "all_lines s' L' @ filter valid_line q' = all_lines ?s L2 @ filter valid_line q1" "d' + length q' = d1 + length q1"
          by blast
        then show ?thesis
          using I(3,4) P(2) by metis
      qed
    qed
  qed
qed

end

section \<open>The WAL and the sender keep the contracts\<close>

interpretation wal_store: record_store "fifo n" Peek Ack for n
  by unfold_locales (use fifo_Peek fifo_Ack in blast)+

definition socket_inv :: "sender \<Rightarrow> bytes list \<Rightarrow> bool" where
  "socket_inv s L \<longleftrightarrow> sender_inv s L \<and> m_bConfigured s"

lemma socket_enqueue:
  assumes "socket_inv s L"
  shows "\<exists>s'. Enqueue (Some l) s = (valid_line l \<and> HasRoom (length l) s, s') \<and>
    socket_inv s' (if valid_line l \<and> HasRoom (length l) s then L @ [l] else L) \<and> wire_lines s' = wire_lines s"
proof -
  obtain ok s' where e: "Enqueue (Some l) s = (ok, s')" by force
  have q: "queue_inv s L" and c: "m_bConfigured s" and i: "sender_inv s L"
    using assms by (simp_all add: socket_inv_def sender_inv_def)
  have "ok \<longleftrightarrow> valid_line l \<and> HasRoom (length l) s"
    using Enqueue_cases [OF q c, of l] e HasRoom_iff [OF q, of l] c by auto
  then show ?thesis
    using Enqueue_inv [OF i c e] e by (simp add: socket_inv_def)
qed

lemma socket_pump:
  assumes "socket_inv s L"
  shows "\<exists>k \<le> length L. socket_inv (Pump s) (drop k L) \<and> wire_lines (Pump s) = wire_lines s @ take k L"
  using Pump_moves [of s L] assms by (auto simp: socket_inv_def moves_lines_def)

interpretation socket_sink: line_sink socket_inv wire_lines Enqueue HasRoom Pump
proof
  show "\<exists>s'. Enqueue (Some l) s = (True, s') \<and> socket_inv s' (L @ [l]) \<and> wire_lines s' = wire_lines s"
    if "socket_inv s L" "valid_line l" "HasRoom (length l) s" for s L l
    using socket_enqueue [OF that(1), of l] that(2,3) by simp
  show "\<exists>s'. Enqueue (Some l) s = (False, s') \<and> socket_inv s' L \<and> wire_lines s' = wire_lines s"
    if "socket_inv s L" "\<not> valid_line l" for s L l
    using socket_enqueue [OF that(1), of l] that(2) by simp
  show "\<exists>k \<le> length L. socket_inv (Pump s) (drop k L) \<and> wire_lines (Pump s) = wire_lines s @ take k L"
    if "socket_inv s L" for s L
    using that by (rule socket_pump)
qed

lemma wal_sender_ops_simps [simp]:
  "op_peek wal_sender_ops = Peek" "op_ack wal_sender_ops = Ack" "op_has_room wal_sender_ops = HasRoom"
  "op_enqueue wal_sender_ops = Enqueue" "op_pump wal_sender_ops = Pump" "op_lines wal_sender_ops = GetQueuedLines"
  "op_connected wal_sender_ops = IsConnected"
  by (simp_all add: wal_sender_ops_def)

interpretation wal_drain: drain "fifo n" socket_inv wire_lines wal_sender_ops for n
  by unfold_locales
    (simp_all add: wal_store.peek_front wal_store.ack_front socket_sink.enqueue_room socket_sink.enqueue_invalid
      socket_sink.pump_sends)

end
