(* ===== verification/DurableTheorems.thy ===== *)
theory DurableTheorems imports DurableProofs begin

text \<open>The properties of the durable sender.\<close>

section \<open>Send and Pump keep one sequence of lines\<close>

text \<open>\<open>durable_inv n s all\<close>: the lines on the wire, in the queue, and in the WAL are together the lines \<open>all\<close>, in
  this order. Records of the WAL which are not lines do not count.\<close>

definition durable_inv :: "nat \<Rightarrow> durable \<Rightarrow> bytes list \<Rightarrow> bool" where
  "durable_inv n s all \<longleftrightarrow> (\<exists>w q p L. m_pWal s = Some w \<and> fifo n w q p \<and> socket_inv (m_Sender s) L \<and>
     wire_lines (m_Sender s) @ L @ filter valid_line q = all)"

lemma fifo_not_pending: "fifo n w q p \<Longrightarrow> \<not> IsReplayPending w \<Longrightarrow> q = []"
  by (auto simp: fifo_def IsReplayPending_def)

lemma IsValidLine_iff: "IsValidLine (Some l) \<longleftrightarrow> valid_line l"
  by (auto simp: IsValidLine_def valid_line_def find_index_None)

lemma Durable_Send_inv:
  assumes "durable_inv n s all" and "length l < 2 ^ 32" and "n + 4 + length l \<le> MAX_OFF"
  shows "\<exists>t. Durable_Send (Some l) s = (valid_line l, t) \<and> durable_inv (n + 4 + length l) t (all @ filter valid_line [l])"
proof -
  from assms(1) obtain w q p L where I: "m_pWal s = Some w" "fifo n w q p" "socket_inv (m_Sender s) L"
    "wire_lines (m_Sender s) @ L @ filter valid_line q = all"
    by (auto simp: durable_inv_def)
  from socket_enqueue [OF I(3), of l] obtain s' where e:
    "Enqueue (Some l) (m_Sender s) = (valid_line l \<and> HasRoom (length l) (m_Sender s), s')"
    "socket_inv s' (if valid_line l \<and> HasRoom (length l) (m_Sender s) then L @ [l] else L)"
    "wire_lines s' = wire_lines (m_Sender s)"
    by blast
  have f: "fifo (n + 4 + length l) w q p"
    by (rule fifo_mono [OF I(2)]) simp
  consider (invalid) "\<not> valid_line l"
    | (fast) "valid_line l" "IsConnected (m_Sender s) \<and> \<not> IsReplayPending w \<and> HasRoom (length l) (m_Sender s)"
    | (spill) "valid_line l" "\<not> (IsConnected (m_Sender s) \<and> \<not> IsReplayPending w \<and> HasRoom (length l) (m_Sender s))"
    by blast
  then show ?thesis
  proof cases
    case invalid
    then have "Durable_Send (Some l) s = (False, s\<lparr>m_Sender := s'\<rparr>)"
      using I(1) e(1) by (simp add: Durable_Send_def IsValidLine_iff)
    moreover have "durable_inv (n + 4 + length l) (s\<lparr>m_Sender := s'\<rparr>) all"
      unfolding durable_inv_def using I(1,4) e(2,3) f invalid by auto
    ultimately show ?thesis
      using invalid by simp
  next
    case fast
    then have "Durable_Send (Some l) s = (True, s\<lparr>m_Sender := s'\<rparr>)"
      using I(1) e(1) by (simp add: Durable_Send_def IsValidLine_iff)
    moreover have "q = []"
      using fifo_not_pending [OF I(2)] fast(2) by blast
    then have "durable_inv (n + 4 + length l) (s\<lparr>m_Sender := s'\<rparr>) (all @ [l])"
      unfolding durable_inv_def using I(1,4) e(2,3) f fast by (intro exI [of _ w] exI [of _ q] exI [of _ p] exI [of _ "L @ [l]"]) auto
    ultimately show ?thesis
      using fast(1) by simp
  next
    case spill
    have "valid_record l"
      using spill(1) assms(2) by (simp add: valid_record_def valid_line_def)
    from fifo_Append [OF I(2) this assms(3)] obtain w' where a: "Append l w = (True, w')"
      "fifo (n + 4 + length l) w' (q @ [l]) p"
      by blast
    let ?t = "s\<lparr>m_pWal := Some w', m_Spilled := m_Spilled s + 1\<rparr>"
    have "Durable_Send (Some l) s = Spill l w s"
      using I(1) spill by (auto simp: Durable_Send_def IsValidLine_iff Let_def)
    also have "\<dots> = (True, ?t)"
      using assms(2) a(1) by (simp add: Spill_def)
    finally have "Durable_Send (Some l) s = (True, ?t)" .
    moreover have "durable_inv (n + 4 + length l) ?t (all @ [l])"
      unfolding durable_inv_def using I(3,4) a(2) spill(1)
      by (intro exI [of _ w'] exI [of _ "q @ [l]"] exI [of _ p] exI [of _ L]) auto
    ultimately show ?thesis
      using spill(1) by simp
  qed
qed

lemma Durable_Pump_inv:
  assumes "durable_inv n s all"
  shows "durable_inv n (Durable_Pump s) all"
proof -
  from assms obtain w q p L where I: "m_pWal s = Some w" "fifo n w q p" "socket_inv (m_Sender s) L"
    "wire_lines (m_Sender s) @ L @ filter valid_line q = all"
    by (auto simp: durable_inv_def)
  let ?s1 = "s\<lparr>m_Sender := Pump (m_Sender s)\<rparr>"
  from socket_sink.pump_keeps [OF I(3)] obtain L1 where P: "socket_inv (Pump (m_Sender s)) L1"
    "wire_lines (Pump (m_Sender s)) @ L1 = wire_lines (m_Sender s) @ L"
    by (auto simp: socket_sink.all_lines_def)
  have D: "Durable_Pump s = Drain w ?s1"
    using I(1) by (simp add: Durable_Pump_def)
  show ?thesis
  proof (cases "IsConnected (m_Sender ?s1) \<and> IsReplayPending w")
    case False
    then have "Durable_Pump s = ?s1"
      unfolding D by (auto simp: Drain_def)
    moreover have "wire_lines (Pump (m_Sender s)) @ L1 @ filter valid_line q = all"
      using P(2) I(4) by (metis append_assoc)
    ultimately show ?thesis
      unfolding durable_inv_def using I(1,2) P(1) by auto
  next
    case True
    obtain w' s' d' where o: "DrainOuter wal_sender_ops DRAIN_MAX (w, Pump (m_Sender s), m_Drained s) = (w', s', d')"
      by (metis prod_cases3)
    from wal_drain.outer_keeps [OF o I(2) P(1)] obtain q' p' L' where K: "fifo n w' q' p'" "socket_inv s' L'"
      "wire_lines s' @ L' @ filter valid_line q' = wire_lines (Pump (m_Sender s)) @ L1 @ filter valid_line q"
      by (auto simp: socket_sink.all_lines_def)
    have "Durable_Pump s = ?s1\<lparr>m_pWal := Some w', m_Sender := s', m_Drained := d'\<rparr>"
      unfolding D using True o by (simp add: Drain_def)
    moreover have "wire_lines s' @ L' @ filter valid_line q' = all"
      using K(3) P(2) I(4) by (metis append_assoc)
    ultimately show ?thesis
      unfolding durable_inv_def using K(1,2) by auto
  qed
qed

section \<open>A run of the durable sender\<close>

datatype durable_op = OpSend bytes | OpDurablePump

fun durable_run :: "durable_op list \<Rightarrow> durable \<Rightarrow> bool list \<times> durable" where
  "durable_run [] s = ([], s)"
| "durable_run (OpSend l # xs) s =
     (case Durable_Send (Some l) s of (b, t) \<Rightarrow> (case durable_run xs t of (bs, u) \<Rightarrow> (b # bs, u)))"
| "durable_run (OpDurablePump # xs) s = durable_run xs (Durable_Pump s)"

fun sent_to :: "durable_op list \<Rightarrow> bytes list" where
  "sent_to [] = []"
| "sent_to (OpSend l # xs) = l # sent_to xs"
| "sent_to (OpDurablePump # xs) = sent_to xs"

lemma durable_run_inv:
  assumes "durable_inv n s all" and "list_all (\<lambda>l. length l < 2 ^ 32) (sent_to xs)"
    and "n + sum_list (map (\<lambda>l. 4 + length l) (sent_to xs)) \<le> MAX_OFF"
  shows "fst (durable_run xs s) = map valid_line (sent_to xs) \<and>
    (\<exists>m. durable_inv m (snd (durable_run xs s)) (all @ filter valid_line (sent_to xs)))"
  using assms
proof (induction xs arbitrary: n s all)
  case Nil
  then show ?case by auto
next
  case (Cons x xs)
  show ?case
  proof (cases x)
    case (OpSend l)
    have "length l < 2 ^ 32" "n + 4 + length l \<le> MAX_OFF"
      using Cons.prems OpSend by simp_all
    from Durable_Send_inv [OF Cons.prems(1) this] obtain t where t: "Durable_Send (Some l) s = (valid_line l, t)"
      "durable_inv (n + 4 + length l) t (all @ filter valid_line [l])"
      by blast
    have r: "list_all (\<lambda>l. length l < 2 ^ 32) (sent_to xs)"
      "n + 4 + length l + sum_list (map (\<lambda>l. 4 + length l) (sent_to xs)) \<le> MAX_OFF"
      using Cons.prems OpSend by simp_all
    from Cons.IH [OF t(2) r] t(1) OpSend show ?thesis
      by (cases "durable_run xs t") (auto split: if_splits)
  next
    case OpDurablePump
    then show ?thesis
      using Cons.IH [OF Durable_Pump_inv [OF Cons.prems(1)]] Cons.prems by simp
  qed
qed

text \<open>The lines which wait: those of the queue, and those of the WAL.\<close>

definition waiting :: "durable \<Rightarrow> bytes list" where
  "waiting s = queued_lines (m_Sender s) @
     (case m_pWal s of None \<Rightarrow> [] | Some w \<Rightarrow> filter valid_line (recovered (Disk w)))"

lemma durable_inv_waiting: "durable_inv n s all \<Longrightarrow> wire_lines (m_Sender s) @ waiting s = all"
  by (auto simp: durable_inv_def waiting_def socket_inv_def queued_lines_inv fifo_pending)

text \<open>A configured sender with the files \<open>d\<close> of an earlier run.\<close>

definition with_wal :: "sender \<Rightarrow> disk \<Rightarrow> durable" where
  "with_wal q d = OpenWal True d 0 (Durable q)"

lemma with_wal_inv:
  assumes "SenderConfigure p4 p6 mem spec log ML MB EL (Sender net clock ticks) = (None, q)"
    and "Script d = []" and "crash_inv d pre rs []" and "length (contents CORRUPT_FILE d) \<le> MAX_OFF"
  shows "durable_inv (length (contents WAL_FILE d)) (with_wal q d) (filter valid_line (recovered d))"
proof -
  define w0 where "w0 = SetMaxSize 0 (SetLogFunction True (SimpleWAL d))"
  have d0: "Disk w0 = d" and f0: "fresh_wal w0"
    using assms(2) by (simp_all add: w0_def SetMaxSize_def SetLogFunction_def fresh_wal_def SimpleWAL_def)
  from Init_fifo [OF f0, unfolded d0, OF assms(3,4)] obtain w where w: "Init w0 = (True, w)"
    "fifo (length (contents WAL_FILE d)) w (recovered d) False"
    by blast
  have "with_wal q d = (Durable q)\<lparr>m_pWal := Some w\<rparr>"
    unfolding with_wal_def OpenWal_def w0_def [symmetric] w(1) by simp
  moreover note w(2)
  moreover have "socket_inv q []" "wire_lines q = []"
    using configured_inv [OF assms(1)] by (simp_all add: socket_inv_def)
  ultimately show ?thesis
    by (auto simp: durable_inv_def Durable_def)
qed

lemma run_lines_in_order:
  assumes "SenderConfigure p4 p6 mem spec log ML MB EL (Sender net clock ticks) = (None, q)"
    and "Script d = []" and "crash_inv d pre rs []" and "length (contents CORRUPT_FILE d) \<le> MAX_OFF"
    and "list_all (\<lambda>l. length l < 2 ^ 32) (sent_to xs)"
    and "length (contents WAL_FILE d) + sum_list (map (\<lambda>l. 4 + length l) (sent_to xs)) \<le> MAX_OFF"
  shows "fst (durable_run xs (with_wal q d)) = map valid_line (sent_to xs) \<and>
    wire_lines (m_Sender (snd (durable_run xs (with_wal q d)))) @ waiting (snd (durable_run xs (with_wal q d))) =
      filter valid_line (recovered d @ sent_to xs)"
proof -
  from durable_run_inv [OF with_wal_inv [OF assms(1-4)] assms(5,6)] obtain m where
    r: "fst (durable_run xs (with_wal q d)) = map valid_line (sent_to xs)"
    "durable_inv m (snd (durable_run xs (with_wal q d))) (filter valid_line (recovered d) @ filter valid_line (sent_to xs))"
    by blast
  with durable_inv_waiting [OF r(2)] show ?thesis
    by simp
qed



end
