(* ===== verification/FileReader.thy ===== *)
theory FileReader imports Disk begin

text \<open>
  \<^verbatim>\<open>FileReader\<close> (\<^verbatim>\<open>filereader/file_reader.hpp\<close>, \<^verbatim>\<open>filereader/file_reader.cpp\<close>): follows a text file. The world is a
  record: the contents of the files by device and inode, where the path leads to, the state file and its temporary
  file, and the script of the outcomes of the calls (as for the disk of the WAL). What the writer of the file does is
  a change of the world between two calls of the reader. The fields of the object have the prefix \<open>fr_\<close>.
\<close>

unbundle bit_operations_syntax

section \<open>The world and the object\<close>

datatype path_entry = NoFile | RegularFile nat nat | NotRegular

record rworld =
  r_Content :: "nat \<times> nat \<Rightarrow> string"
  r_Path :: path_entry
  r_State :: "string option"
  r_Temp :: "string option"
  r_Script :: "outcome list"

datatype reader_message =
    CannotOpen nat | CannotStat | NotRegularFile | OtherFile | Shorter nat | StartChanged | CannotRead
  | FileReset string | BehindLines nat nat | StateUnreadable nat | StateUnusable string | StateDamaged string
  | StateVersion nat | StateIncomplete | CannotSave nat

record reader =
  World :: rworld
  fr_Path :: string
  fr_StatePath :: string
  fr_MaxLineLength :: nat
  fr_bStartAtEnd :: bool
  fr_IncompleteSec :: nat
  fr_LogFunction :: bool
  fr_bOpened :: bool
  fr_bFirstOpen :: bool
  fr_Fd :: "(nat \<times> nat) option"        \<comment> \<open>the device and the inode behind the descriptor\<close>
  fr_Device :: nat
  fr_Inode :: nat
  fr_Generation :: nat
  fr_Head :: string
  fr_Buffer :: string
  fr_Pos :: nat
  fr_BufferStart :: nat
  fr_ScanFrom :: nat
  fr_bSkipping :: bool
  fr_bRotationSeen :: bool
  fr_tIncompleteSince :: nat
  fr_Committed :: nat
  fr_bSaveFailed :: bool
  fr_LastOpenError :: nat
  fr_Log :: "reader_message list"

record file_line =
  Text :: string
  Generation :: nat
  EndOffset :: nat
  bTruncated :: bool

record SavedState =
  Device :: nat
  Inode :: nat
  Offset :: nat
  HeadLen :: nat
  HeadHash :: nat

datatype StateResult = STATE_NONE | STATE_INVALID | STATE_OK

abbreviation DEFAULT_MAX_LINE :: nat where "DEFAULT_MAX_LINE \<equiv> 1024 * 1024"
abbreviation READER_CHUNK :: nat where "READER_CHUNK \<equiv> 64 * 1024"
abbreviation HEAD_MAX :: nat where "HEAD_MAX \<equiv> 256"
abbreviation STATE_VERSION :: nat where "STATE_VERSION \<equiv> 1"
abbreviation STATE_MAX :: nat where "STATE_MAX \<equiv> 4096"
abbreviation NL :: char where "NL \<equiv> CHR 0x0A"
abbreviation CR :: char where "CR \<equiv> CHR 0x0D"

definition FileReader :: "rworld \<Rightarrow> reader" where
  "FileReader w = \<lparr>World = w, fr_Path = [], fr_StatePath = [], fr_MaxLineLength = DEFAULT_MAX_LINE, fr_bStartAtEnd = False,
     fr_IncompleteSec = 0, fr_LogFunction = False, fr_bOpened = False, fr_bFirstOpen = True, fr_Fd = None, fr_Device = 0,
     fr_Inode = 0, fr_Generation = 0, fr_Head = [], fr_Buffer = [], fr_Pos = 0, fr_BufferStart = 0, fr_ScanFrom = 0,
     fr_bSkipping = False, fr_bRotationSeen = False, fr_tIncompleteSince = 0, fr_Committed = 0, fr_bSaveFailed = False,
     fr_LastOpenError = 0, fr_Log = []\<rparr>"

section \<open>The calls\<close>

definition r_next :: "rworld \<Rightarrow> outcome \<times> rworld" where
  "r_next w = (case r_Script w of [] \<Rightarrow> (Done, w) | out # outs \<Rightarrow> (out, w\<lparr>r_Script := outs\<rparr>))"

text \<open>A call which works or fails as a whole, on the world of the reader: the errno, or \<open>None\<close>.\<close>

definition r_call :: "reader \<Rightarrow> nat option \<times> reader" where
  "r_call s = (case r_next (World s) of
       (Fails e, w) \<Rightarrow> (Some e, s\<lparr>World := w\<rparr>)
     | (_, w) \<Rightarrow> (None, s\<lparr>World := w\<rparr>))"

definition FileReader_Log :: "reader_message \<Rightarrow> reader \<Rightarrow> reader" where
  "FileReader_Log m s = s\<lparr>fr_Log := fr_Log s @ [m]\<rparr>"

text \<open>FNV-1a with 64 bits.\<close>

definition HashBytes :: "string \<Rightarrow> 64 word" where
  "HashBytes s = fold (\<lambda>c h. (h XOR of_char c) * 1099511628211) s 14695981039346656037"

text \<open>\<^verbatim>\<open>EINTR\<close> (4) is tried again. The script is finite, so this ends.\<close>

function ReadAt :: "string \<Rightarrow> nat \<Rightarrow> nat \<Rightarrow> rworld \<Rightarrow> string option \<times> rworld" where
  "ReadAt content Len Off w =
     (case r_Script w of
        [] \<Rightarrow> (Some (take Len (drop Off content)), w)
      | Done # outs \<Rightarrow> (Some (take Len (drop Off content)), w\<lparr>r_Script := outs\<rparr>)
      | Part k # outs \<Rightarrow> (Some (take (min k Len) (drop Off content)), w\<lparr>r_Script := outs\<rparr>)
      | Fails e # outs \<Rightarrow> if e = 4 then ReadAt content Len Off (w\<lparr>r_Script := outs\<rparr>) else (None, w\<lparr>r_Script := outs\<rparr>))"
  by pat_completeness auto
termination
  by (relation "measure (\<lambda>(c, l, off, w). length (r_Script w))") auto

declare ReadAt.simps [simp del]

text \<open>\<^verbatim>\<open>WriteAll\<close> to the temporary file; the second result is the errno of a failure.\<close>

function FileReader_WriteAll :: "string \<Rightarrow> rworld \<Rightarrow> nat option \<times> rworld" where
  "FileReader_WriteAll data w =
     (if data = [] then (None, w)
      else
        let put = (\<lambda>n w'. w'\<lparr>r_Temp := map_option (\<lambda>t. t @ take n data) (r_Temp w')\<rparr>)
        in case r_Script w of
             [] \<Rightarrow> (None, put (length data) w)
           | Done # outs \<Rightarrow> (None, put (length data) (w\<lparr>r_Script := outs\<rparr>))
           | Part k # outs \<Rightarrow> FileReader_WriteAll (drop k data) (put k (w\<lparr>r_Script := outs\<rparr>))
           | Fails e # outs \<Rightarrow> if e = 4 then FileReader_WriteAll data (w\<lparr>r_Script := outs\<rparr>) else (Some e, w\<lparr>r_Script := outs\<rparr>))"
  by pat_completeness auto
termination
  by (relation "measure (\<lambda>(d, w). length (r_Script w))") auto

declare FileReader_WriteAll.simps [simp del]

section \<open>Settings\<close>

definition SetMaxLineLength :: "nat \<Rightarrow> reader \<Rightarrow> reader" where
  "SetMaxLineLength n s = s\<lparr>fr_MaxLineLength := (if n \<noteq> 0 then n else DEFAULT_MAX_LINE)\<rparr>"

definition SetStartAtEnd :: "bool \<Rightarrow> reader \<Rightarrow> reader" where
  "SetStartAtEnd b s = s\<lparr>fr_bStartAtEnd := b\<rparr>"

definition SetIncompleteLineSeconds :: "nat \<Rightarrow> reader \<Rightarrow> reader" where
  "SetIncompleteLineSeconds n s = s\<lparr>fr_IncompleteSec := n\<rparr>"

definition FileReader_SetLogFunction :: "bool \<Rightarrow> reader \<Rightarrow> reader" where
  "FileReader_SetLogFunction b s = s\<lparr>fr_LogFunction := b\<rparr>"

section \<open>Opening and closing\<close>

definition ClearBuffer :: "reader \<Rightarrow> reader" where
  "ClearBuffer s = s\<lparr>fr_Buffer := [], fr_Pos := 0, fr_ScanFrom := 0\<rparr>"

definition CloseFile :: "reader \<Rightarrow> reader" where
  "CloseFile s = (ClearBuffer (s\<lparr>fr_Fd := None\<rparr>))\<lparr>fr_BufferStart := 0, fr_bSkipping := False, fr_bRotationSeen := False,
     fr_tIncompleteSince := 0, fr_Head := []\<rparr>"

definition FileReader_Close :: "reader \<Rightarrow> reader" where
  "FileReader_Close s = (CloseFile s)\<lparr>fr_bOpened := False\<rparr>"

definition FileReader_Open :: "string \<Rightarrow> string \<Rightarrow> reader \<Rightarrow> bool \<times> reader" where
  "FileReader_Open Path StatePath s0 =
     (let s = FileReader_Close s0
      in if Path = [] \<or> StatePath = [] then (False, s)
         else (True, s\<lparr>fr_Path := Path, fr_StatePath := StatePath, fr_bOpened := True, fr_bFirstOpen := True,
                       fr_Generation := 0, fr_Committed := 0, fr_bSaveFailed := False, fr_LastOpenError := 0\<rparr>))"

definition Pending :: "reader \<Rightarrow> nat" where
  "Pending s = length (fr_Buffer s) - fr_Pos s"

text \<open>The bytes behind the descriptor.\<close>

definition fd_content :: "reader \<Rightarrow> string" where
  "fd_content s = (case fr_Fd s of None \<Rightarrow> [] | Some di \<Rightarrow> r_Content (World s) di)"

definition fd_read :: "nat \<Rightarrow> nat \<Rightarrow> reader \<Rightarrow> string option \<times> reader" where
  "fd_read Len Off s = (case ReadAt (fd_content s) Len Off (World s) of (r, w) \<Rightarrow> (r, s\<lparr>World := w\<rparr>))"

section \<open>The state file\<close>

definition state_text :: "reader \<Rightarrow> string" where
  "state_text s =
     (let HeadLen = (if fr_Committed s < length (fr_Head s) then fr_Committed s else length (fr_Head s))
      in ''version='' @ dec_text STATE_VERSION @ [NL] @
         ''device='' @ dec_text (fr_Device s) @ [NL] @
         ''inode='' @ dec_text (fr_Inode s) @ [NL] @
         ''offset='' @ dec_text (fr_Committed s) @ [NL] @
         ''headlen='' @ dec_text HeadLen @ [NL] @
         ''headhash='' @ dec_text (unat (HashBytes (take HeadLen (fr_Head s)))) @ [NL])"

text \<open>The file is written under another name, flushed, and renamed. The steps in order, each only if those before worked.\<close>

definition SaveState :: "reader \<Rightarrow> bool \<times> reader" where
  "SaveState s =
     (let fail = (\<lambda>e t. (False, if fr_bSaveFailed t then t else FileReader_Log (CannotSave e) (t\<lparr>fr_bSaveFailed := True\<rparr>)));
          discard = (\<lambda>e t. case r_call t of
              (None, t1) \<Rightarrow> fail e (t1\<lparr>World := (World t1)\<lparr>r_Temp := None\<rparr>\<rparr>)
            | (Some _, t1) \<Rightarrow> fail e t1)
      in case r_call s of
           (Some e, s1) \<Rightarrow> fail e s1
         | (None, s1) \<Rightarrow>
             (case FileReader_WriteAll (state_text s) ((World s1)\<lparr>r_Temp := Some []\<rparr>) of
                (written, w) \<Rightarrow>
                  let s2 = s1\<lparr>World := w\<rparr>
                  in case (case written of Some e \<Rightarrow> (Some e, s2) | None \<Rightarrow> r_call s2) of
                       (err1, s3) \<Rightarrow>
                         (case r_call s3 of
                            (closed, s4) \<Rightarrow>
                              (case (if err1 = None then closed else err1) of
                                 Some e \<Rightarrow> discard e s4
                               | None \<Rightarrow>
                                   (case r_call s4 of
                                      (Some e, s5) \<Rightarrow> discard e s5
                                    | (None, s5) \<Rightarrow>
                                        (True, s5\<lparr>World := (World s5)\<lparr>r_State := r_Temp (World s5), r_Temp := None\<rparr>,
                                                  fr_bSaveFailed := False\<rparr>))))))"

text \<open>\<^verbatim>\<open>strtok (text, "\n")\<close>: the parts between new lines which are not empty, up to a zero byte.\<close>

fun split_on :: "char \<Rightarrow> string \<Rightarrow> string list" where
  "split_on c [] = [[]]"
| "split_on c (x # xs) = (if x = c then [] # split_on c xs
     else case split_on c xs of [] \<Rightarrow> [[x]] | y # ys \<Rightarrow> (x # y) # ys)"

definition state_tokens :: "string \<Rightarrow> string list" where
  "state_tokens text = filter (\<lambda>t. t \<noteq> []) (split_on NL (c_str text))"

text \<open>\<^verbatim>\<open>strtoull\<close> with the checks behind it: a number which is only digits and fits in 64 bits.\<close>

definition state_number :: "string \<Rightarrow> nat option" where
  "state_number v =
     (case c_strtoul v of (Number, rest) \<Rightarrow>
        if dec_value (takeWhile is_digit v) \<ge> 2 ^ 64 \<or> rest = v \<or> rest \<noteq> [] \<or> \<not> (v \<noteq> [] \<and> is_digit (hd v)) then None
        else Some Number)"

datatype state_field = FVersion | FDevice | FInode | FOffset | FHeadLen | FHeadHash

definition state_field_of :: "string \<Rightarrow> state_field option" where
  "state_field_of name =
     (if name = ''version'' then Some FVersion else if name = ''device'' then Some FDevice
      else if name = ''inode'' then Some FInode else if name = ''offset'' then Some FOffset
      else if name = ''headlen'' then Some FHeadLen else if name = ''headhash'' then Some FHeadHash else None)"

fun set_field :: "state_field \<Rightarrow> nat \<Rightarrow> SavedState \<Rightarrow> SavedState" where
  "set_field FVersion n st = st"
| "set_field FDevice n st = st\<lparr>Device := n\<rparr>"
| "set_field FInode n st = st\<lparr>Inode := n\<rparr>"
| "set_field FOffset n st = st\<lparr>Offset := n\<rparr>"
| "set_field FHeadLen n st = st\<lparr>HeadLen := n\<rparr>"
| "set_field FHeadHash n st = st\<lparr>HeadHash := n\<rparr>"

text \<open>The loop over the lines: the fields which were found, or the message of the first line which is not usable.\<close>

fun parse_state :: "string list \<Rightarrow> state_field list \<times> SavedState \<Rightarrow> reader_message + (state_field list \<times> SavedState)" where
  "parse_state [] acc = Inr acc"
| "parse_state (line # ls) (found, st) =
     (case find_index CHR ''='' line of
        None \<Rightarrow> parse_state ls (found, st)
      | Some i \<Rightarrow>
          (case state_number (drop (Suc i) line) of
             None \<Rightarrow> Inl (StateDamaged (take i line))
           | Some n \<Rightarrow>
               (case state_field_of (take i line) of
                  None \<Rightarrow> parse_state ls (found, st)
                | Some f \<Rightarrow>
                    if f = FVersion \<and> n \<noteq> STATE_VERSION then Inl (StateVersion n)
                    else parse_state ls (f # found, set_field f n st))))"

definition empty_state :: SavedState where
  "empty_state = \<lparr>Device = 0, Inode = 0, Offset = 0, HeadLen = 0, HeadHash = 0\<rparr>"

definition check_state :: "string \<Rightarrow> reader_message + SavedState" where
  "check_state text =
     (case parse_state (state_tokens text) ([], empty_state) of
        Inl m \<Rightarrow> Inl m
      | Inr (found, st) \<Rightarrow>
          if \<not> list_all (\<lambda>f. f \<in> set found) [FVersion, FDevice, FInode, FOffset, FHeadLen, FHeadHash] \<or>
             HeadLen st > HEAD_MAX \<or> HeadLen st > Offset st
          then Inl StateIncomplete else Inr st)"

definition LoadState :: "reader \<Rightarrow> StateResult \<times> SavedState \<times> reader" where
  "LoadState s =
     (case r_call s of
        (Some e, s1) \<Rightarrow>
          if e = ENOENT then (STATE_NONE, empty_state, s1)
          else (STATE_INVALID, empty_state, FileReader_Log (StateUnreadable e) s1)
      | (None, s1) \<Rightarrow>
          (case r_State (World s1) of
             None \<Rightarrow> (STATE_NONE, empty_state, s1)
           | Some text \<Rightarrow>
               (case ReadAt text (STATE_MAX + 1) 0 (World s1) of
                  (None, w) \<Rightarrow> (STATE_INVALID, empty_state, FileReader_Log (StateUnusable ''cannot be read'') (s1\<lparr>World := w\<rparr>))
                | (Some bs, w) \<Rightarrow>
                    if length bs > STATE_MAX then
                      (STATE_INVALID, empty_state, FileReader_Log (StateUnusable ''too large'') (s1\<lparr>World := w\<rparr>))
                    else
                      (case check_state bs of
                         Inl m \<Rightarrow> (STATE_INVALID, empty_state, FileReader_Log m (s1\<lparr>World := w\<rparr>))
                       | Inr st \<Rightarrow> (STATE_OK, st, s1\<lparr>World := w\<rparr>)))))"

definition ResolveStart :: "nat \<times> nat \<Rightarrow> nat \<Rightarrow> reader \<Rightarrow> nat \<times> reader" where
  "ResolveStart dev_ino Size s =
     (case LoadState s of
        (Result, Saved, s1) \<Rightarrow>
          if Result = STATE_NONE \<or> Result = STATE_INVALID then ((if fr_bStartAtEnd s1 then Size else 0), s1)
          else if (Device Saved, Inode Saved) \<noteq> dev_ino then (0, FileReader_Log OtherFile s1)
          else if Offset Saved > Size then (0, FileReader_Log (Shorter (Offset Saved)) s1)
          else case fd_read (HeadLen Saved) 0 s1 of
            (Some Head, s2) \<Rightarrow>
              if length Head \<noteq> HeadLen Saved \<or> unat (HashBytes Head) \<noteq> HeadHash Saved then (0, FileReader_Log StartChanged s2)
              else (Offset Saved, s2)
          | (None, s2) \<Rightarrow> (0, FileReader_Log StartChanged s2))"

definition OpenFile :: "reader \<Rightarrow> bool \<times> reader" where
  "OpenFile s =
     (case r_call s of
        (err, s1) \<Rightarrow>
          let failed = (\<lambda>e. (False,
                (if e \<noteq> ENOENT \<and> e \<noteq> fr_LastOpenError s1 then FileReader_Log (CannotOpen e) s1 else s1)\<lparr>fr_LastOpenError := e\<rparr>))
          in case err of
               Some e \<Rightarrow> failed e
             | None \<Rightarrow>
                 if r_Path (World s1) = NoFile then failed ENOENT
                 else case r_call s1 of
                   (Some e, s2) \<Rightarrow> (False, FileReader_Log CannotStat s2)
                 | (None, s2) \<Rightarrow>
                     (case r_Path (World s2) of
                        RegularFile dev ino \<Rightarrow>
                          let s3 = s2\<lparr>fr_LastOpenError := 0, fr_Fd := Some (dev, ino), fr_Device := dev, fr_Inode := ino,
                                      fr_Generation := fr_Generation s2 + 1\<rparr>
                          in case (if fr_bFirstOpen s3
                                   then ResolveStart (dev, ino) (length (r_Content (World s2) (dev, ino))) (s3\<lparr>fr_bFirstOpen := False\<rparr>)
                                   else (0, s3)) of
                               (Off, s4) \<Rightarrow>
                                 (case fd_read HEAD_MAX 0 s4 of
                                    (Head, s5) \<Rightarrow>
                                      (True, snd (SaveState ((ClearBuffer (s5\<lparr>fr_Head := (case Head of None \<Rightarrow> [] | Some h \<Rightarrow> h)\<rparr>))
                                         \<lparr>fr_BufferStart := Off, fr_Committed := Off\<rparr>))))
                      | _ \<Rightarrow> (False, (if fr_LastOpenError s2 \<noteq> 21 then FileReader_Log NotRegularFile s2 else s2)\<lparr>fr_LastOpenError := 21\<rparr>)))"

section \<open>Lines\<close>

text \<open>The next line of the buffer. The loop of the code goes round at most once more, after the rest of a line which was
  too long: \<open>m_bSkipping\<close> is false then.\<close>

definition ExtractPlain :: "reader \<Rightarrow> file_line option \<times> reader" where
  "ExtractPlain s =
     (case map_option (\<lambda>i. fr_Pos s + fr_ScanFrom s + i) (find_index NL (drop (fr_Pos s + fr_ScanFrom s) (fr_Buffer s))) of
        None \<Rightarrow>
          if Pending s > fr_MaxLineLength s then
            (Some \<lparr>Text = take (fr_MaxLineLength s) (drop (fr_Pos s) (fr_Buffer s)), Generation = fr_Generation s,
                   EndOffset = fr_BufferStart s + fr_MaxLineLength s, bTruncated = True\<rparr>,
             s\<lparr>fr_BufferStart := fr_BufferStart s + fr_MaxLineLength s, fr_Pos := fr_Pos s + fr_MaxLineLength s,
               fr_ScanFrom := 0, fr_bSkipping := True\<rparr>)
          else (None, s\<lparr>fr_ScanFrom := Pending s\<rparr>)
      | Some Pos \<Rightarrow>
          let Len = Pos - fr_Pos s;
              trunc = Len > fr_MaxLineLength s;
              Len' = (if trunc then fr_MaxLineLength s
                      else if Len > 0 \<and> fr_Buffer s ! (fr_Pos s + Len - 1) = CR then Len - 1 else Len);
              start = fr_BufferStart s + (Pos + 1 - fr_Pos s)
          in (Some \<lparr>Text = take Len' (drop (fr_Pos s) (fr_Buffer s)), Generation = fr_Generation s, EndOffset = start,
                    bTruncated = trunc\<rparr>,
              s\<lparr>fr_BufferStart := start, fr_Pos := Pos + 1, fr_ScanFrom := 0\<rparr>))"

definition ExtractLine :: "reader \<Rightarrow> file_line option \<times> reader" where
  "ExtractLine s =
     (if fr_bSkipping s then
        (case map_option (\<lambda>i. fr_Pos s + fr_ScanFrom s + i) (find_index NL (drop (fr_Pos s + fr_ScanFrom s) (fr_Buffer s))) of
           None \<Rightarrow> (None, ClearBuffer (s\<lparr>fr_BufferStart := fr_BufferStart s + Pending s\<rparr>))
         | Some Pos \<Rightarrow>
             ExtractPlain (s\<lparr>fr_BufferStart := fr_BufferStart s + (Pos + 1 - fr_Pos s), fr_Pos := Pos + 1, fr_ScanFrom := 0,
                             fr_bSkipping := False\<rparr>))
      else ExtractPlain s)"

definition EmitRemainder :: "reader \<Rightarrow> file_line \<times> reader" where
  "EmitRemainder s =
     (let Len = Pending s;
          Len' = (if Len > 0 \<and> fr_Buffer s ! (fr_Pos s + Len - 1) = CR then Len - 1 else Len);
          start = fr_BufferStart s + Pending s
      in (\<lparr>Text = take Len' (drop (fr_Pos s) (fr_Buffer s)), Generation = fr_Generation s, EndOffset = start, bTruncated = False\<rparr>,
          (ClearBuffer (s\<lparr>fr_BufferStart := start\<rparr>))\<lparr>fr_tIncompleteSince := 0\<rparr>))"

text \<open>The number of bytes which were read, or \<open>None\<close> for an error.\<close>

definition FillBuffer :: "reader \<Rightarrow> nat option \<times> reader" where
  "FillBuffer s =
     (case fd_read READER_CHUNK (fr_BufferStart s + Pending s) s of
        (None, s1) \<Rightarrow> (None, FileReader_Log CannotRead s1)
      | (Some bs, s1) \<Rightarrow>
          let s2 = (if fr_Pos s1 > 0 then s1\<lparr>fr_Buffer := drop (fr_Pos s1) (fr_Buffer s1), fr_Pos := 0\<rparr> else s1)
          in (Some (length bs), s2\<lparr>fr_Buffer := fr_Buffer s2 @ bs\<rparr>))"

definition RefreshHead :: "reader \<Rightarrow> bool \<times> reader" where
  "RefreshHead s =
     (case fd_read HEAD_MAX 0 s of
        (None, s1) \<Rightarrow> (True, s1)
      | (Some h, s1) \<Rightarrow>
          if length h < length (fr_Head s1) then (False, s1)
          else if take (length (fr_Head s1)) h \<noteq> fr_Head s1 then (False, s1)
          else (True, s1\<lparr>fr_Head := h\<rparr>))"

definition ResetFile :: "string \<Rightarrow> reader \<Rightarrow> reader" where
  "ResetFile reason s0 =
     (let s = FileReader_Log (FileReset reason) s0;
          s1 = (ClearBuffer (s\<lparr>fr_Generation := fr_Generation s + 1\<rparr>))\<lparr>fr_BufferStart := 0, fr_bSkipping := False,
                 fr_bRotationSeen := False, fr_tIncompleteSince := 0, fr_Head := [], fr_Committed := 0\<rparr>
      in snd (SaveState (snd (RefreshHead s1))))"

definition CheckFile :: "reader \<Rightarrow> bool \<times> reader" where
  "CheckFile s =
     (case r_call s of
        (Some e, s1) \<Rightarrow> (True, s1)
      | (None, s1) \<Rightarrow>
          if length (fd_content s1) < fr_BufferStart s1 + Pending s1 then (False, ResetFile ''was truncated'' s1)
          else case RefreshHead s1 of
            (False, s2) \<Rightarrow> (False, ResetFile ''was written again (its start has changed)'' s2)
          | (True, s2) \<Rightarrow> (True, s2))"

definition PathReplaced :: "reader \<Rightarrow> bool \<times> reader" where
  "PathReplaced s =
     (case r_call s of
        (Some e, s1) \<Rightarrow> (False, s1)
      | (None, s1) \<Rightarrow>
          (case r_Path (World s1) of
             NoFile \<Rightarrow> (False, s1)
           | NotRegular \<Rightarrow> (True, s1)
           | RegularFile dev ino \<Rightarrow> (dev \<noteq> fr_Device s1 \<or> ino \<noteq> fr_Inode s1, s1)))"

text \<open>The loop of \<^verbatim>\<open>ReadLine\<close> with the largest number of turns; the outer \<open>None\<close>: they were not enough.\<close>

fun ReadLineLoop :: "nat \<Rightarrow> nat \<Rightarrow> reader \<Rightarrow> (file_line option \<times> reader) option" where
  "ReadLineLoop 0 tNow s = None"
| "ReadLineLoop (Suc fuel) tNow s0 =
     (case (if fr_Fd s0 = None then OpenFile s0 else (True, s0)) of
        (False, s) \<Rightarrow> Some (None, s)
      | (True, s) \<Rightarrow>
          (case ExtractLine s of
             (Some line, s1) \<Rightarrow> Some (Some line, s1)
           | (None, s1) \<Rightarrow>
               (case CheckFile s1 of
                  (False, s2) \<Rightarrow> ReadLineLoop fuel tNow s2
                | (True, s2) \<Rightarrow>
                    (case FillBuffer s2 of
                       (None, s3) \<Rightarrow> Some (None, s3)
                     | (Some n, s3) \<Rightarrow>
                         if n > 0 then ReadLineLoop fuel tNow (s3\<lparr>fr_bRotationSeen := False, fr_tIncompleteSince := 0\<rparr>)
                         else case PathReplaced s3 of
                           (True, s4) \<Rightarrow>
                             if \<not> fr_bRotationSeen s4 then Some (None, s4\<lparr>fr_bRotationSeen := True\<rparr>)
                             else if Pending s4 > 0 \<and> \<not> fr_bSkipping s4 then
                               (case EmitRemainder s4 of (line, s5) \<Rightarrow> Some (Some line, s5))
                             else ReadLineLoop fuel tNow (CloseFile s4)
                         | (False, s4) \<Rightarrow>
                             let s5 = s4\<lparr>fr_bRotationSeen := False\<rparr>
                             in if fr_IncompleteSec s5 > 0 \<and> Pending s5 > 0 \<and> \<not> fr_bSkipping s5 then
                                  (if fr_tIncompleteSince s5 = 0 then Some (None, s5\<lparr>fr_tIncompleteSince := tNow\<rparr>)
                                   else if tNow - fr_tIncompleteSince s5 \<ge> fr_IncompleteSec s5 then
                                     (case EmitRemainder s5 of (line, s6) \<Rightarrow> Some (Some line, s6))
                                   else Some (None, s5))
                                else Some (None, s5)))))"

definition ReadLine :: "nat \<Rightarrow> nat \<Rightarrow> reader \<Rightarrow> (file_line option \<times> reader) option" where
  "ReadLine fuel tNow s = (if \<not> fr_bOpened s then Some (None, s) else ReadLineLoop fuel tNow s)"

definition Commit :: "nat \<Rightarrow> nat \<Rightarrow> reader \<Rightarrow> bool \<times> reader" where
  "Commit Gen End s =
     (if \<not> fr_bOpened s then (False, s)
      else if Gen \<noteq> fr_Generation s then (True, s)
      else if End > fr_BufferStart s then (False, FileReader_Log (BehindLines End (fr_BufferStart s)) s)
      else if End \<le> fr_Committed s then (True, s)
      else case SaveState (s\<lparr>fr_Committed := End\<rparr>) of
        (True, s1) \<Rightarrow> (True, s1)
      | (False, s1) \<Rightarrow> (False, s1\<lparr>fr_Committed := fr_Committed s\<rparr>))"

end
