(* ===== verification/FileReaderProofs.thy ===== *)
theory FileReaderProofs imports FileReader begin

text \<open>
  The lines of a text as a list (\<open>text_lines\<close>), and the proof that the reader takes them out of the file one after the
  other, whatever pieces the file is read in.
\<close>

section \<open>The lines of a text\<close>

definition strip_cr :: "string \<Rightarrow> string" where
  "strip_cr s = (if s \<noteq> [] \<and> last s = CR then butlast s else s)"

text \<open>The lines with their mark for a line which was cut. \<open>skip\<close>: the text starts in the rest of such a line.\<close>

function text_lines :: "nat \<Rightarrow> bool \<Rightarrow> string \<Rightarrow> (string \<times> bool) list" where
  "text_lines m skip s =
     (case find_index NL s of
        None \<Rightarrow> if \<not> skip \<and> length s > m then [(take m s, True)] else []
      | Some i \<Rightarrow>
          (if skip then [] else [if i > m then (take m s, True) else (strip_cr (take i s), False)]) @
          text_lines m False (drop (Suc i) s))"
  by pat_completeness auto
termination
  by (relation "measure (\<lambda>(m, k, s). length s)") (auto dest: find_index_Some_D)

declare text_lines.simps [simp del]

lemma text_lines_None:
  "NL \<notin> set s \<Longrightarrow> text_lines m skip s = (if \<not> skip \<and> length s > m then [(take m s, True)] else [])"
  by (simp add: text_lines.simps [of m skip s] find_index_None [THEN iffD2])

lemma text_lines_Some:
  "find_index NL s = Some i \<Longrightarrow> text_lines m skip s =
     (if skip then [] else [if i > m then (take m s, True) else (strip_cr (take i s), False)]) @ text_lines m False (drop (Suc i) s)"
  by (simp add: text_lines.simps [of m skip s])

lemma text_lines_cut:
  assumes "NL \<notin> set p" and "length p > m"
  shows "text_lines m False (p @ u) = (take m p, True) # text_lines m True (drop m p @ u)"
proof (cases "find_index NL u")
  case None
  then have "NL \<notin> set (p @ u)" "NL \<notin> set (drop m p @ u)"
    using assms(1) by (auto simp: find_index_None dest: in_set_dropD)
  then show ?thesis
    using assms(2) by (simp add: text_lines_None)
next
  case (Some i)
  have d: "NL \<notin> set (drop m p)"
    using assms(1) by (auto dest: in_set_dropD)
  have "find_index NL (p @ u) = Some (length p + i)"
    using Some by (simp add: find_index_append_right [OF assms(1)])
  moreover have "find_index NL (drop m p @ u) = Some (length p - m + i)"
    using Some by (simp add: find_index_append_right [OF d])
  ultimately show ?thesis
    using assms(2) by (simp add: text_lines_Some)
qed

lemma text_lines_skip:
  assumes "NL \<notin> set p"
  shows "text_lines m True (p @ u) = text_lines m True u"
proof (cases "find_index NL u")
  case None
  then have "NL \<notin> set (p @ u)" "NL \<notin> set u"
    using assms(1) by (auto simp: find_index_None)
  then show ?thesis
    by (simp add: text_lines_None)
next
  case (Some i)
  have "find_index NL (p @ u) = Some (length p + i)"
    using Some by (simp add: find_index_append_right [OF assms(1)])
  then show ?thesis
    using Some by (simp add: text_lines_Some)
qed

text \<open>What is appended to a file changes no line which is there already.\<close>

lemma text_lines_grow: "\<exists>later. text_lines m skip (s @ u) = text_lines m skip s @ later"
proof (induction m skip s rule: text_lines.induct)
  case (1 m skip s)
  show ?case
  proof (cases "find_index NL s")
    case None
    then have n: "NL \<notin> set s"
      by (simp add: find_index_None)
    show ?thesis
    proof (cases "\<not> skip \<and> length s > m")
      case True
      then show ?thesis
        using text_lines_cut [OF n, of m u] by (simp add: text_lines_None [OF n])
    next
      case False
      then have "text_lines m skip s = []"
        by (auto simp: text_lines_None [OF n])
      then show ?thesis
        by simp
    qed
  next
    case (Some i)
    then have i: "i < length s" "NL \<in> set s"
      using find_index_Some_D [OF Some] nth_mem by metis+
    then have "find_index NL (s @ u) = Some i"
      using Some by (simp add: find_index_append_left)
    with 1 [OF Some] i Some show ?thesis
      by (auto simp: text_lines_Some)
  qed
qed

section \<open>The buffer\<close>

definition pend :: "reader \<Rightarrow> string" where
  "pend s = drop (fr_Pos s) (fr_Buffer s)"

lemma Pending_pend: "Pending s = length (pend s)"
  by (simp add: Pending_def pend_def)

lemma fd_content_updates [simp]:
  "fd_content (fr_BufferStart_update g1 s) = fd_content s"
  "fd_content (fr_Pos_update g2 s) = fd_content s"
  "fd_content (fr_ScanFrom_update g3 s) = fd_content s"
  "fd_content (fr_bSkipping_update g4 s) = fd_content s"
  "fd_content (fr_Buffer_update g5 s) = fd_content s"
  "fd_content (fr_bRotationSeen_update g6 s) = fd_content s"
  "fd_content (fr_tIncompleteSince_update g7 s) = fd_content s"
  "fd_content (fr_Head_update g8 s) = fd_content s"
  "fd_content (fr_Committed_update g9 s) = fd_content s"
  "fd_content (fr_Log_update g10 s) = fd_content s"
  "fd_content (fr_bSaveFailed_update g11 s) = fd_content s"
  "fd_content (fr_bFirstOpen_update g12 s) = fd_content s"
  "fd_content (fr_Generation_update g13 s) = fd_content s"
  "fd_content (fr_LastOpenError_update g14 s) = fd_content s"
  "fd_content (fr_Device_update g15 s) = fd_content s"
  "fd_content (fr_Inode_update g16 s) = fd_content s"
  by (simp_all add: fd_content_def split: option.split)

lemma pend_updates [simp]:
  "pend (fr_BufferStart_update g17 s) = pend s"
  "pend (fr_ScanFrom_update g18 s) = pend s"
  "pend (fr_bSkipping_update g19 s) = pend s"
  "pend (fr_bRotationSeen_update g20 s) = pend s"
  "pend (fr_tIncompleteSince_update g21 s) = pend s"
  "pend (fr_Head_update g22 s) = pend s"
  "pend (fr_Committed_update g23 s) = pend s"
  "pend (fr_Log_update g24 s) = pend s"
  "pend (fr_bSaveFailed_update g25 s) = pend s"
  "pend (fr_bFirstOpen_update g26 s) = pend s"
  "pend (fr_Generation_update g27 s) = pend s"
  "pend (fr_LastOpenError_update g28 s) = pend s"
  "pend (fr_Device_update g29 s) = pend s"
  "pend (fr_Inode_update g30 s) = pend s"
  by (simp_all add: pend_def)

lemma Pending_updates [simp]:
  "Pending (fr_BufferStart_update g31 s) = Pending s"
  "Pending (fr_ScanFrom_update g32 s) = Pending s"
  "Pending (fr_bSkipping_update g33 s) = Pending s"
  "Pending (fr_bRotationSeen_update g34 s) = Pending s"
  "Pending (fr_tIncompleteSince_update g35 s) = Pending s"
  "Pending (fr_Head_update g36 s) = Pending s"
  "Pending (fr_Committed_update g37 s) = Pending s"
  "Pending (fr_Log_update g38 s) = Pending s"
  "Pending (fr_bSaveFailed_update g39 s) = Pending s"
  "Pending (fr_bFirstOpen_update g40 s) = Pending s"
  "Pending (fr_Generation_update g41 s) = Pending s"
  "Pending (fr_LastOpenError_update g42 s) = Pending s"
  "Pending (fr_Device_update g43 s) = Pending s"
  "Pending (fr_Inode_update g44 s) = Pending s"
  by (simp_all add: Pending_def)

text \<open>The buffer holds a part of the file, with nothing before it which was not returned, and the part which was searched
  has no new line.\<close>

definition follows :: "string \<Rightarrow> reader \<Rightarrow> bool" where
  "follows C s \<longleftrightarrow> fr_Fd s \<noteq> None \<and> fd_content s = C \<and> fr_Pos s \<le> length (fr_Buffer s) \<and> fr_ScanFrom s \<le> Pending s \<and>
     NL \<notin> set (take (fr_ScanFrom s) (pend s)) \<and> fr_BufferStart s + Pending s \<le> length C \<and>
     pend s = take (Pending s) (drop (fr_BufferStart s) C) \<and> fr_Head s = take (length (fr_Head s)) C \<and>
     length (fr_Head s) \<le> HEAD_MAX"

definition upcoming :: "string \<Rightarrow> reader \<Rightarrow> (string \<times> bool) list" where
  "upcoming later s = text_lines (fr_MaxLineLength s) (fr_bSkipping s) (drop (fr_BufferStart s) (fd_content s) @ later)"

text \<open>(\<open>later\<close> is what is still to be written to the file.) What reading does not touch:\<close>

definition same_file :: "reader \<Rightarrow> reader \<Rightarrow> bool" where
  "same_file s t \<longleftrightarrow> World t = World s \<and> fr_Fd t = fr_Fd s \<and> fr_Device t = fr_Device s \<and> fr_Inode t = fr_Inode s \<and>
     fr_Generation t = fr_Generation s \<and> fr_MaxLineLength t = fr_MaxLineLength s \<and> fr_Committed t = fr_Committed s \<and>
     fr_IncompleteSec t = fr_IncompleteSec s \<and> fr_bOpened t = fr_bOpened s \<and> fr_bFirstOpen t = fr_bFirstOpen s \<and>
     fr_Path t = fr_Path s \<and> fr_StatePath t = fr_StatePath s \<and> fr_bSaveFailed t = fr_bSaveFailed s"

lemma same_file_refl [simp]: "same_file s s"
  by (simp add: same_file_def)

lemma same_file_trans: "same_file s t \<Longrightarrow> same_file t u \<Longrightarrow> same_file s u"
  by (simp add: same_file_def)

lemma scan_find:
  assumes "fr_ScanFrom s \<le> Pending s" and "NL \<notin> set (take (fr_ScanFrom s) (pend s))"
  shows "map_option (\<lambda>i. fr_Pos s + fr_ScanFrom s + i) (find_index NL (drop (fr_Pos s + fr_ScanFrom s) (fr_Buffer s))) =
    map_option (\<lambda>i. fr_Pos s + i) (find_index NL (pend s))"
proof -
  have d: "drop (fr_Pos s + fr_ScanFrom s) (fr_Buffer s) = drop (fr_ScanFrom s) (pend s)"
    by (simp add: pend_def add.commute)
  have l: "length (take (fr_ScanFrom s) (pend s)) = fr_ScanFrom s"
    using assms(1) by (simp add: Pending_pend)
  have f: "find_index NL (pend s) = map_option (\<lambda>i. fr_ScanFrom s + i) (find_index NL (drop (fr_ScanFrom s) (pend s)))"
    using find_index_append_right [OF assms(2), of "drop (fr_ScanFrom s) (pend s)"]
    unfolding append_take_drop_id l .
  show ?thesis
    unfolding d f by (simp add: option.map_comp comp_def add.assoc)
qed

lemma strip_cr_take:
  assumes "i \<le> length p"
  shows "take (if i > 0 \<and> p ! (i - 1) = CR then i - 1 else i) p = strip_cr (take i p)"
proof (cases i)
  case (Suc k)
  then have "take i p = take k p @ [p ! k]"
    using assms by (simp add: take_Suc_conv_app_nth)
  with Suc show ?thesis
    by (simp add: strip_cr_def)
qed (simp add: strip_cr_def)

lemma ExtractPlain_None:
  assumes "fr_ScanFrom s \<le> Pending s" and "NL \<notin> set (take (fr_ScanFrom s) (pend s))" and "find_index NL (pend s) = None"
  shows "ExtractPlain s = (if Pending s > fr_MaxLineLength s then
      (Some \<lparr>Text = take (fr_MaxLineLength s) (pend s), Generation = fr_Generation s,
             EndOffset = fr_BufferStart s + fr_MaxLineLength s, bTruncated = True\<rparr>,
       s\<lparr>fr_BufferStart := fr_BufferStart s + fr_MaxLineLength s, fr_Pos := fr_Pos s + fr_MaxLineLength s,
         fr_ScanFrom := 0, fr_bSkipping := True\<rparr>)
    else (None, s\<lparr>fr_ScanFrom := Pending s\<rparr>))"
  unfolding ExtractPlain_def scan_find [OF assms(1,2)] assms(3) pend_def [symmetric] by simp

lemma ExtractPlain_Some:
  assumes "fr_ScanFrom s \<le> Pending s" and "NL \<notin> set (take (fr_ScanFrom s) (pend s))" and i: "find_index NL (pend s) = Some i"
  shows "ExtractPlain s =
    (Some \<lparr>Text = (if i > fr_MaxLineLength s then take (fr_MaxLineLength s) (pend s) else strip_cr (take i (pend s))),
           Generation = fr_Generation s, EndOffset = fr_BufferStart s + Suc i, bTruncated = (i > fr_MaxLineLength s)\<rparr>,
     s\<lparr>fr_BufferStart := fr_BufferStart s + Suc i, fr_Pos := fr_Pos s + Suc i, fr_ScanFrom := 0\<rparr>)"
proof -
  have l: "i < length (pend s)"
    using find_index_Some_D [OF i] by simp
  have n: "i > 0 \<Longrightarrow> fr_Buffer s ! (fr_Pos s + i - 1) = pend s ! (i - 1)"
    using l by (simp add: pend_def)
  have t: "take (if i > 0 \<and> fr_Buffer s ! (fr_Pos s + i - 1) = CR then i - 1 else i) (pend s) = strip_cr (take i (pend s))"
    using strip_cr_take [of i "pend s"] l n by (cases "i > 0") auto
  show ?thesis
    unfolding ExtractPlain_def scan_find [OF assms(1,2)] i pend_def [symmetric] using t by (simp add: Let_def)
qed

lemma follows_content: "follows C s \<Longrightarrow> drop (fr_BufferStart s) C = pend s @ drop (fr_BufferStart s + Pending s) C"
  using append_take_drop_id [of "Pending s" "drop (fr_BufferStart s) C"] by (simp add: follows_def add.commute)

text \<open>Going \<open>n\<close> bytes forward in the buffer.\<close>

lemma follows_step:
  assumes "follows C s" and "n \<le> Pending s" and "fr_BufferStart t = fr_BufferStart s + n" and "fr_Pos t = fr_Pos s + n"
    and "fr_ScanFrom t = 0" and "fr_Buffer t = fr_Buffer s" and "World t = World s" "fr_Fd t = fr_Fd s" "fr_Head t = fr_Head s"
  shows "follows C t \<and> Pending t = Pending s - n \<and> pend t = drop n (pend s) \<and>
    (\<forall>later. upcoming later t =
       text_lines (fr_MaxLineLength t) (fr_bSkipping t) (drop n (pend s) @ drop (fr_BufferStart s + Pending s) C @ later))"
proof -
  have p: "pend t = drop n (pend s)"
    using assms(4,6) by (simp add: pend_def add.commute)
  have P: "Pending t = Pending s - n"
    unfolding Pending_pend p by simp
  have "pend s = take (Pending s) (drop (fr_BufferStart s) C)"
    using assms(1) by (simp add: follows_def)
  then have "pend t = take (Pending s - n) (drop (fr_BufferStart s + n) C)"
    unfolding p by (simp add: drop_take add.commute)
  then have f: "follows C t"
    using assms P p by (auto simp: follows_def fd_content_def Pending_def)
  have "fr_BufferStart t + Pending t = fr_BufferStart s + Pending s"
    using assms(2,3) P by simp
  then have "drop (fr_BufferStart t) C = drop n (pend s) @ drop (fr_BufferStart s + Pending s) C"
    using follows_content [OF f] p by simp
  moreover have "fd_content t = C"
    using f unfolding follows_def by blast
  ultimately show ?thesis
    using f P p by (simp add: upcoming_def)
qed

lemma follows_clear:
  assumes "follows C s" and "fr_BufferStart t = fr_BufferStart s + Pending s" and "fr_Pos t = 0" and "fr_ScanFrom t = 0"
    and "fr_Buffer t = []" and "World t = World s" "fr_Fd t = fr_Fd s" "fr_Head t = fr_Head s"
  shows "follows C t \<and> Pending t = 0"
  using assms by (auto simp: follows_def fd_content_def Pending_def pend_def)

section \<open>One line out of the buffer\<close>

definition extracted :: "string \<Rightarrow> reader \<Rightarrow> file_line option \<times> reader \<Rightarrow> bool" where
  "extracted C s res = (case res of (r, t) \<Rightarrow> same_file s t \<and> follows C t \<and>
     (case r of
        None \<Rightarrow> (\<forall>later. upcoming later t = upcoming later s) \<and> fr_BufferStart t + Pending t = fr_BufferStart s + Pending s \<and> NL \<notin> set (pend t) \<and>
          Pending t \<le> fr_MaxLineLength t \<and> fr_BufferStart s \<le> fr_BufferStart t \<and> fr_bRotationSeen t = fr_bRotationSeen s \<and>
          fr_tIncompleteSince t = fr_tIncompleteSince s
      | Some l \<Rightarrow> (\<forall>later. upcoming later s = (Text l, bTruncated l) # upcoming later t) \<and> EndOffset l = fr_BufferStart t \<and>
          Generation l = fr_Generation s \<and> (fr_bSkipping t \<longrightarrow> bTruncated l) \<and> fr_BufferStart s < fr_BufferStart t))"

lemma ExtractPlain_extracted:
  assumes f: "follows C s" and k: "\<not> fr_bSkipping s" and m: "fr_MaxLineLength s > 0"
  shows "extracted C s (ExtractPlain s)"
proof -
  have sc: "fr_ScanFrom s \<le> Pending s" "NL \<notin> set (take (fr_ScanFrom s) (pend s))" and fd: "fd_content s = C"
    using f unfolding follows_def by blast+
  let ?m = "fr_MaxLineLength s"
  let ?rest = "drop (fr_BufferStart s + Pending s) C"
  have up: "\<And>later. upcoming later s = text_lines ?m False (pend s @ ?rest @ later)"
    using k follows_content [OF f] fd by (simp add: upcoming_def)
  show ?thesis
  proof (cases "find_index NL (pend s)")
    case None
    then have nl: "NL \<notin> set (pend s)"
      by (simp add: find_index_None)
    show ?thesis
    proof (cases "Pending s > ?m")
      case True
      let ?t = "s\<lparr>fr_BufferStart := fr_BufferStart s + ?m, fr_Pos := fr_Pos s + ?m, fr_ScanFrom := 0, fr_bSkipping := True\<rparr>"
      have st: "follows C ?t \<and> Pending ?t = Pending s - ?m \<and> pend ?t = drop ?m (pend s) \<and>
        (\<forall>later. upcoming later ?t = text_lines (fr_MaxLineLength ?t) (fr_bSkipping ?t) (drop ?m (pend s) @ ?rest @ later))"
        by (rule follows_step [OF f, of ?m]) (use True in simp_all)
      have "\<And>later. upcoming later ?t = text_lines ?m True (drop ?m (pend s) @ ?rest @ later)"
        using follows_step [OF f, of ?m ?t] True by simp
      then have "\<And>later. upcoming later s = (take ?m (pend s), True) # upcoming later ?t"
        unfolding up using text_lines_cut [OF nl, of ?m] True by (simp add: Pending_pend)
      then show ?thesis
        unfolding ExtractPlain_None [OF sc None] using True st m by (simp add: extracted_def same_file_def)
    next
      case False
      let ?t = "s\<lparr>fr_ScanFrom := Pending s\<rparr>"
      have "follows C ?t"
        using f nl by (auto simp: follows_def pend_def Pending_def fd_content_def dest: in_set_takeD)
      then show ?thesis
        unfolding ExtractPlain_None [OF sc None] using False nl
        by (simp add: extracted_def same_file_def upcoming_def pend_def Pending_def)
    qed
  next
    case (Some i)
    then have i: "i < length (pend s)" "NL \<in> set (pend s)"
      using find_index_Some_D [OF Some] nth_mem by metis+
    let ?t = "s\<lparr>fr_BufferStart := fr_BufferStart s + Suc i, fr_Pos := fr_Pos s + Suc i, fr_ScanFrom := 0\<rparr>"
    have st: "follows C ?t \<and> Pending ?t = Pending s - Suc i \<and> pend ?t = drop (Suc i) (pend s) \<and>
        (\<forall>later. upcoming later ?t = text_lines (fr_MaxLineLength ?t) (fr_bSkipping ?t) (drop (Suc i) (pend s) @ ?rest @ later))"
      by (rule follows_step [OF f, of "Suc i"]) (use i in \<open>simp_all add: Pending_pend\<close>)
    have "\<And>later. find_index NL (pend s @ ?rest @ later) = Some i"
      using Some i by (simp add: find_index_append_left)
    then have "\<And>later. upcoming later s = (if i > ?m then (take ?m (pend s), True) else (strip_cr (take i (pend s)), False)) #
        text_lines ?m False (drop (Suc i) (pend s) @ ?rest @ later)"
      unfolding up using i by (simp add: text_lines_Some)
    moreover have "\<And>later. upcoming later ?t = text_lines ?m False (drop (Suc i) (pend s) @ ?rest @ later)"
      using follows_step [OF f, of "Suc i" ?t] i k by (simp add: Pending_pend)
    ultimately show ?thesis
      unfolding ExtractPlain_Some [OF sc Some] using st k by (simp add: extracted_def same_file_def)
  qed
qed

lemma ExtractLine_extracted:
  assumes f: "follows C s" and m: "fr_MaxLineLength s > 0"
  shows "extracted C s (ExtractLine s)"
proof (cases "fr_bSkipping s")
  case False
  then show ?thesis
    using ExtractPlain_extracted [OF f _ m] by (simp add: ExtractLine_def)
next
  case True
  have sc: "fr_ScanFrom s \<le> Pending s" "NL \<notin> set (take (fr_ScanFrom s) (pend s))" and fd: "fd_content s = C"
    using f unfolding follows_def by blast+
  let ?rest = "drop (fr_BufferStart s + Pending s) C"
  have up: "\<And>later. upcoming later s = text_lines (fr_MaxLineLength s) True (pend s @ ?rest @ later)"
    using True follows_content [OF f] fd by (simp add: upcoming_def)
  show ?thesis
  proof (cases "find_index NL (pend s)")
    case None
    then have nl: "NL \<notin> set (pend s)"
      by (simp add: find_index_None)
    let ?t = "ClearBuffer (s\<lparr>fr_BufferStart := fr_BufferStart s + Pending s\<rparr>)"
    have st: "follows C ?t \<and> Pending ?t = 0"
      by (rule follows_clear [OF f]) (simp_all add: ClearBuffer_def)
    have "\<And>later. upcoming later ?t = upcoming later s"
      unfolding up text_lines_skip [OF nl] using True fd by (simp add: upcoming_def ClearBuffer_def)
    then show ?thesis
      unfolding ExtractLine_def scan_find [OF sc] None using True st m
      by (simp add: extracted_def same_file_def ClearBuffer_def Pending_pend)
  next
    case (Some i)
    then have i: "i < length (pend s)" "NL \<in> set (pend s)"
      using find_index_Some_D [OF Some] nth_mem by metis+
    let ?u = "s\<lparr>fr_BufferStart := fr_BufferStart s + Suc i, fr_Pos := fr_Pos s + Suc i, fr_ScanFrom := 0, fr_bSkipping := False\<rparr>"
    have st: "follows C ?u \<and> Pending ?u = Pending s - Suc i \<and> pend ?u = drop (Suc i) (pend s) \<and>
        (\<forall>later. upcoming later ?u = text_lines (fr_MaxLineLength ?u) (fr_bSkipping ?u) (drop (Suc i) (pend s) @ ?rest @ later))"
      by (rule follows_step [OF f, of "Suc i"]) (use i in \<open>simp_all add: Pending_pend\<close>)
    have "\<And>later. find_index NL (pend s @ ?rest @ later) = Some i"
      using Some i by (simp add: find_index_append_left)
    then have "\<And>later. upcoming later s = text_lines (fr_MaxLineLength s) False (drop (Suc i) (pend s) @ ?rest @ later)"
      unfolding up using i by (simp add: text_lines_Some)
    then have u: "\<And>later. upcoming later ?u = upcoming later s"
      using follows_step [OF f, of "Suc i" ?u] i by (simp add: Pending_pend)
    have e: "ExtractLine s = ExtractPlain ?u"
      unfolding ExtractLine_def scan_find [OF sc] Some using True by simp
    have "extracted C ?u (ExtractPlain ?u)"
      using ExtractPlain_extracted [of C ?u] st m by simp
    moreover have "same_file s ?u" "fr_bRotationSeen ?u = fr_bRotationSeen s" "fr_tIncompleteSince ?u = fr_tIncompleteSince s"
      "fr_BufferStart ?u + Pending ?u = fr_BufferStart s + Pending s" "fr_Generation ?u = fr_Generation s"
      "fr_BufferStart s < fr_BufferStart ?u"
      using st i by (simp_all add: same_file_def Pending_pend)
    ultimately show ?thesis
      unfolding e extracted_def using u same_file_trans by (fastforce split: option.splits prod.splits)
  qed
qed

section \<open>Reading without failures\<close>

text \<open>No call fails, and the path still leads to the file which is open.\<close>

definition undisturbed :: "reader \<Rightarrow> bool" where
  "undisturbed s \<longleftrightarrow> r_Script (World s) = [] \<and> r_Path (World s) = RegularFile (fr_Device s) (fr_Inode s)"

lemma undisturbed_same: "same_file s t \<Longrightarrow> undisturbed s \<Longrightarrow> undisturbed t"
  by (simp add: same_file_def undisturbed_def)

lemma r_call_ok: "r_Script (World s) = [] \<Longrightarrow> r_call s = (None, s)"
  by (simp add: r_call_def r_next_def)

lemma ReadAt_ok: "r_Script w = [] \<Longrightarrow> ReadAt content Len Off w = (Some (take Len (drop Off content)), w)"
  by (simp add: ReadAt.simps [of content Len Off w])

lemma fd_read_ok: "r_Script (World s) = [] \<Longrightarrow> fd_read Len Off s = (Some (take Len (drop Off (fd_content s))), s)"
  by (simp add: fd_read_def ReadAt_ok)

lemma CheckFile_ok:
  assumes f: "follows C s" and u: "undisturbed s"
  shows "CheckFile s = (True, s\<lparr>fr_Head := take HEAD_MAX C\<rparr>)"
proof -
  have fd: "fd_content s = C" and p: "fr_BufferStart s + Pending s \<le> length C"
    and h: "fr_Head s = take (length (fr_Head s)) C" "length (fr_Head s) \<le> HEAD_MAX"
    using f unfolding follows_def by blast+
  have "length (fr_Head s) \<le> length C"
    using h(1) by (metis length_take min.cobounded1)
  then have g: "\<not> length (take HEAD_MAX C) < length (fr_Head s)"
    using h(2) by simp
  have "take (length (fr_Head s)) (take HEAD_MAX C) = fr_Head s"
    using h by (simp add: min_absorb1)
  with g have "RefreshHead s = (True, s\<lparr>fr_Head := take HEAD_MAX C\<rparr>)"
    using u fd by (simp add: RefreshHead_def fd_read_ok undisturbed_def)
  then show ?thesis
    using u p fd by (simp add: CheckFile_def r_call_ok undisturbed_def)
qed

lemma follows_head: "follows C s \<Longrightarrow> follows C (s\<lparr>fr_Head := take HEAD_MAX C\<rparr>)"
  by (auto simp: follows_def min_def)

lemma FillBuffer_ok:
  assumes f: "follows C s" and u: "undisturbed s"
  obtains t where "FillBuffer s = (Some (min READER_CHUNK (length C - (fr_BufferStart s + Pending s))), t)" "same_file s t"
    "follows C t" "\<And>later. upcoming later t = upcoming later s" "fr_BufferStart t = fr_BufferStart s"
    "Pending t = Pending s + min READER_CHUNK (length C - (fr_BufferStart s + Pending s))"
    "fr_bRotationSeen t = fr_bRotationSeen s" "fr_bSkipping t = fr_bSkipping s"
    "pend t = pend s @ take READER_CHUNK (drop (fr_BufferStart s + Pending s) C)"
proof -
  have fd: "fd_content s = C" and p: "fr_BufferStart s + Pending s \<le> length C" "fr_Pos s \<le> length (fr_Buffer s)"
    "fr_ScanFrom s \<le> Pending s" "NL \<notin> set (take (fr_ScanFrom s) (pend s))"
    and c: "pend s = take (Pending s) (drop (fr_BufferStart s) C)"
    and h: "fr_Head s = take (length (fr_Head s)) C" "length (fr_Head s) \<le> HEAD_MAX" and o: "fr_Fd s \<noteq> None"
    using f unfolding follows_def by blast+
  define bs where "bs = take READER_CHUNK (drop (fr_BufferStart s + Pending s) C)"
  define t where "t = (if fr_Pos s > 0 then s\<lparr>fr_Buffer := drop (fr_Pos s) (fr_Buffer s) @ bs, fr_Pos := 0\<rparr>
    else s\<lparr>fr_Buffer := fr_Buffer s @ bs\<rparr>)"
  have r: "FillBuffer s = (Some (length bs), t)"
    using u fd by (simp add: FillBuffer_def fd_read_ok undisturbed_def bs_def t_def Let_def)
  have l: "length bs = min READER_CHUNK (length C - (fr_BufferStart s + Pending s))"
    by (simp add: bs_def min.commute)
  have pt: "pend t = pend s @ bs"
    using p(2) by (simp add: t_def pend_def)
  have Pt: "Pending t = Pending s + length bs"
    unfolding Pending_pend pt by simp
  have "bs = take (length bs) (drop (Pending s) (drop (fr_BufferStart s) C))"
    by (simp add: bs_def add.commute min_def)
  then have ct: "pend t = take (Pending t) (drop (fr_BufferStart s) C)"
    unfolding pt Pt take_add using c by simp
  have sf: "same_file s t" and bt: "fr_BufferStart t = fr_BufferStart s" "fr_ScanFrom t = fr_ScanFrom s" "fr_Head t = fr_Head s"
    "fr_bSkipping t = fr_bSkipping s" "fr_bRotationSeen t = fr_bRotationSeen s" "fr_Pos t \<le> length (fr_Buffer t)"
    using p(2) by (simp_all add: t_def same_file_def)
  have fdt: "fd_content t = C"
    using fd by (simp add: t_def)
  have "NL \<notin> set (take (fr_ScanFrom t) (pend t))"
    unfolding pt bt using p(3,4) by (simp add: Pending_pend)
  then have "follows C t"
    unfolding follows_def using fdt bt ct Pt p h sf o l by (auto simp: same_file_def)
  moreover have "upcoming later t = upcoming later s" for later
    using fdt fd bt sf by (simp add: upcoming_def same_file_def)
  ultimately show thesis
    using that [of t] r l sf bt Pt pt bs_def by simp
qed

lemma PathReplaced_ok: "undisturbed s \<Longrightarrow> PathReplaced s = (False, s)"
  by (simp add: PathReplaced_def r_call_ok undisturbed_def)

text \<open>All of the file is in the buffer, and there is no line in it.\<close>

lemma nothing_upcoming:
  assumes "follows C s" and "fr_BufferStart s + Pending s = length C" and "NL \<notin> set (pend s)"
    and "Pending s \<le> fr_MaxLineLength s"
  shows "upcoming [] s = []"
proof -
  have "fd_content s = C"
    using assms(1) unfolding follows_def by blast
  with follows_content [OF assms(1)] assms(2-4) show ?thesis
    by (simp add: upcoming_def text_lines_None Pending_pend)
qed

text \<open>What \<open>ReadLine\<close> promises: the next line of the file, or nothing if there is none yet.\<close>

definition reads_next :: "string \<Rightarrow> reader \<Rightarrow> file_line option \<times> reader \<Rightarrow> bool" where
  "reads_next C s res = (case res of (r, t) \<Rightarrow> same_file s t \<and> follows C t \<and>
     (case r of
        None \<Rightarrow> (\<forall>later. upcoming later t = upcoming later s) \<and> upcoming [] t = [] \<and> fr_BufferStart s \<le> fr_BufferStart t
      | Some l \<Rightarrow> (\<forall>later. upcoming later s = (Text l, bTruncated l) # upcoming later t) \<and> EndOffset l = fr_BufferStart t \<and>
          Generation l = fr_Generation s \<and> (fr_bSkipping t \<longrightarrow> bTruncated l) \<and> fr_BufferStart s < fr_BufferStart t))"

lemma reads_next_trans:
  assumes "same_file s t" and "fr_BufferStart s \<le> fr_BufferStart t" and "\<And>later. upcoming later t = upcoming later s" and "reads_next C t res"
  shows "reads_next C s res"
  using assms(1,2,4) same_file_trans [OF assms(1)] unfolding reads_next_def assms(3)
  by (auto simp: same_file_def split: prod.splits option.splits)

lemma ReadLineLoop_reads_next:
  assumes "follows C s" "undisturbed s" "fr_MaxLineLength s > 0" "fr_IncompleteSec s = 0"
    and "fuel > length C - (fr_BufferStart s + Pending s)"
  shows "\<exists>res. ReadLineLoop fuel tNow s = Some res \<and> reads_next C s res"
  using assms
proof (induction fuel arbitrary: s)
  case 0
  then show ?case by simp
next
  case (Suc fuel s)
  have o: "fr_Fd s \<noteq> None"
    using Suc.prems(1) unfolding follows_def by blast
  obtain r s1 where e: "ExtractLine s = (r, s1)" by force
  have x: "extracted C s (r, s1)"
    using ExtractLine_extracted [OF Suc.prems(1,3)] e by simp
  show ?case
  proof (cases r)
    case (Some l)
    then show ?thesis
      using x o e by (auto simp: extracted_def reads_next_def)
  next
    case None
    have sf: "same_file s s1" and f1: "follows C s1" and up: "\<And>later. upcoming later s1 = upcoming later s"
      and b1: "fr_BufferStart s1 + Pending s1 = fr_BufferStart s + Pending s" and n1: "NL \<notin> set (pend s1)"
      "Pending s1 \<le> fr_MaxLineLength s1"
      using x None by (simp_all add: extracted_def)
    have ge: "fr_BufferStart s \<le> fr_BufferStart s1"
      using x None by (simp add: extracted_def)
    have u1: "undisturbed s1"
      using undisturbed_same [OF sf Suc.prems(2)] .
    let ?s2 = "s1\<lparr>fr_Head := take HEAD_MAX C\<rparr>"
    have f2: "follows C ?s2" and u2: "undisturbed ?s2"
      using follows_head [OF f1] u1 by (simp_all add: undisturbed_def)
    let ?n = "min READER_CHUNK (length C - (fr_BufferStart s1 + Pending s1))"
    obtain s3 where fb: "FillBuffer ?s2 = (Some ?n, s3)" "same_file ?s2 s3" "follows C s3"
      "\<And>later. upcoming later s3 = upcoming later ?s2" "fr_BufferStart s3 = fr_BufferStart s1" "Pending s3 = Pending s1 + ?n"
      "pend s3 = pend s1 @ take READER_CHUNK (drop (fr_BufferStart s1 + Pending s1) C)"
      by (rule FillBuffer_ok [OF f2 u2]) simp
    have sf3: "same_file s s3"
      using same_file_trans [OF sf, of s3] fb(2) by (simp add: same_file_def)
    have up3: "\<And>later. upcoming later s3 = upcoming later s"
      using fb(4) up by (simp add: upcoming_def)
    have le: "fr_BufferStart s1 + Pending s1 \<le> length C"
      using f1 unfolding follows_def by blast
    obtain di where di: "fr_Fd s = Some di"
      using o by blast
    have pr: "PathReplaced s3 = (False, s3)"
      using PathReplaced_ok [OF undisturbed_same [OF fb(2) u2]] .
    have inc: "fr_IncompleteSec s3 = 0"
      using Suc.prems(4) sf3 by (simp add: same_file_def)
    have step: "ReadLineLoop (Suc fuel) tNow s =
        (if ?n > 0 then ReadLineLoop fuel tNow (s3\<lparr>fr_bRotationSeen := False, fr_tIncompleteSince := 0\<rparr>)
         else Some (None, s3\<lparr>fr_bRotationSeen := False\<rparr>))"
      by (simp add: di e None CheckFile_ok [OF f1 u1] fb(1) pr inc Let_def)
    show ?thesis
    proof (cases "?n > 0")
      case True
      let ?s4 = "s3\<lparr>fr_bRotationSeen := False, fr_tIncompleteSince := 0\<rparr>"
      have f4: "follows C ?s4"
        using fb(3) by (auto simp: follows_def)
      have sf4: "same_file s ?s4" and up4: "\<And>later. upcoming later ?s4 = upcoming later s"
        using sf3 up3 by (simp_all add: same_file_def upcoming_def)
      have "length C - (fr_BufferStart ?s4 + Pending ?s4) < fuel"
        using Suc.prems(5) b1 fb(5,6) True by simp
      then have "\<exists>res. ReadLineLoop fuel tNow ?s4 = Some res \<and> reads_next C ?s4 res"
        using Suc.IH [OF f4 undisturbed_same [OF sf4 Suc.prems(2)]] Suc.prems(3,4) sf4 by (simp add: same_file_def)
      then show ?thesis
        unfolding step using True reads_next_trans [OF sf4 _ up4] ge fb(5) by auto
    next
      case False
      let ?s5 = "s3\<lparr>fr_bRotationSeen := False\<rparr>"
      have z: "fr_BufferStart s1 + Pending s1 = length C" "?n = 0"
        using False le by auto
      have f5: "follows C ?s5"
        using fb(3) by (auto simp: follows_def)
      have "pend s3 = pend s1"
        using fb(7) z by simp
      then have "upcoming [] ?s5 = []"
        using nothing_upcoming [OF f5] n1 fb(5,6) z sf3 sf by (simp add: same_file_def)
      moreover have "same_file s ?s5" "\<And>later. upcoming later ?s5 = upcoming later s"
        using sf3 up3 by (simp_all add: same_file_def upcoming_def)
      ultimately show ?thesis
        unfolding step using False f5 ge fb(5) by (simp add: reads_next_def)
    qed
  qed
qed

end
