(* ===== verification/FileReaderState.thy ===== *)
theory FileReaderState imports FileReaderProofs begin

text \<open>
  The state file of the reader: what \<open>SaveState\<close> writes is what \<open>LoadState\<close> reads, a save which fails leaves the old
  file, and a reader which is opened on a saved state goes on behind it.
\<close>

section \<open>The text of the state file\<close>

lemma split_on_append: "c \<notin> set a \<Longrightarrow> split_on c (a @ c # b) = a # split_on c b"
  by (induction a) auto

lemma takeWhile_digits: "list_all is_digit ds \<Longrightarrow> (r = [] \<or> \<not> is_digit (hd r)) \<Longrightarrow>
    takeWhile is_digit (ds @ r) = ds \<and> dropWhile is_digit (ds @ r) = r"
  by (induction ds) (auto simp: takeWhile_eq_Nil_iff dropWhile_eq_self_iff)

lemma digit_not:
  assumes "is_digit c"
  shows "c \<noteq> CHR ''-'' \<and> c \<noteq> CHR ''+'' \<and> c \<noteq> NL \<and> c \<noteq> CHR ''='' \<and> c \<noteq> CHR 0x00 \<and> \<not> is_space c"
  using assms by (auto simp: is_digit_def is_space_def)

lemma dec_text_set: "c \<in> set (dec_text n) \<Longrightarrow> is_digit c"
  using dec_text_digits [of n] by (simp add: list_all_iff)

lemma dec_text_hd: "is_digit (hd (dec_text n))"
  by (rule dec_text_set) (rule hd_in_set, rule dec_text_not_Nil)

text \<open>A decimal text in front of something else is read by \<^verbatim>\<open>strtoul\<close> and \<^verbatim>\<open>strtol\<close>, also behind blanks.\<close>

lemma dec_text_in_front:
  assumes "rest = [] \<or> \<not> is_digit (hd rest)"
  shows "takeWhile is_digit (dec_text n @ rest) = dec_text n" "dropWhile is_digit (dec_text n @ rest) = rest"
    "dropWhile is_space (dec_text n @ rest) = dec_text n @ rest" "hd (dec_text n @ rest) \<noteq> CHR ''-''" "hd (dec_text n @ rest) \<noteq> CHR ''+''"
proof -
  show "takeWhile is_digit (dec_text n @ rest) = dec_text n" "dropWhile is_digit (dec_text n @ rest) = rest"
    using takeWhile_digits [of "dec_text n" rest] dec_text_digits assms by simp_all
  have h: "hd (dec_text n) \<noteq> CHR ''-''" "hd (dec_text n) \<noteq> CHR ''+''" "\<not> is_space (hd (dec_text n))"
    using digit_not [OF dec_text_hd] by blast+
  then show "dropWhile is_space (dec_text n @ rest) = dec_text n @ rest"
    by (cases "dec_text n") auto
  show "hd (dec_text n @ rest) \<noteq> CHR ''-''" "hd (dec_text n @ rest) \<noteq> CHR ''+''"
    using h(1,2) by simp_all
qed

lemma c_strtoul_dec_text: "n < 2 ^ 64 \<Longrightarrow> rest = [] \<or> \<not> is_digit (hd rest) \<Longrightarrow> c_strtoul (dec_text n @ rest) = (n, rest)"
  using dec_text_in_front [of rest n] by (simp add: c_strtoul_def Let_def dec_value_dec_text)

lemma c_strtol_dec_text:
  "n < 2 ^ 63 \<Longrightarrow> rest = [] \<or> \<not> is_digit (hd rest) \<Longrightarrow> c_strtol (dec_text n @ rest) = (int n, rest, False)"
  using dec_text_in_front [of rest n] by (simp add: c_strtol_def Let_def dec_value_dec_text)

lemma state_number_dec_text:
  assumes "n < 2 ^ 64"
  shows "state_number (dec_text n) = Some n"
proof -
  have t: "takeWhile is_digit (dec_text n) = dec_text n"
    using dec_text_in_front(1) [of "[]" n] by simp
  show ?thesis
    using assms dec_text_hd [of n] c_strtoul_dec_text [OF assms, of "[]"]
    by (simp add: state_number_def t dec_value_dec_text dec_text_not_Nil [symmetric])
qed

definition head_len :: "reader \<Rightarrow> nat" where
  "head_len s = min (fr_Committed s) (length (fr_Head s))"

definition saved_state :: "reader \<Rightarrow> SavedState" where
  "saved_state s = \<lparr>Device = fr_Device s, Inode = fr_Inode s, Offset = fr_Committed s, HeadLen = head_len s,
     HeadHash = unat (HashBytes (take (head_len s) (fr_Head s)))\<rparr>"

definition state_line :: "string \<Rightarrow> nat \<Rightarrow> string" where
  "state_line name n = name @ CHR ''='' # dec_text n"

lemma state_text_lines:
  "state_text s = concat (map (\<lambda>l. l @ [NL]) [state_line ''version'' 1, state_line ''device'' (fr_Device s),
     state_line ''inode'' (fr_Inode s), state_line ''offset'' (fr_Committed s), state_line ''headlen'' (head_len s),
     state_line ''headhash'' (unat (HashBytes (take (head_len s) (fr_Head s))))])"
proof -
  have "(if fr_Committed s < length (fr_Head s) then fr_Committed s else length (fr_Head s)) = head_len s"
    by (simp add: head_len_def)
  then show ?thesis
    by (simp add: state_text_def Let_def state_line_def)
qed

lemma split_on_lines:
  "list_all (\<lambda>l. NL \<notin> set l) ls \<Longrightarrow> split_on NL (concat (map (\<lambda>l. l @ [NL]) ls)) = ls @ [[]]"
  by (induction ls) (simp_all add: split_on_append)

lemma c_str_id: "CHR 0x00 \<notin> set s \<Longrightarrow> c_str s = s"
  by (auto simp: c_str_def intro: takeWhile_eq_all_conv [THEN iffD2])

lemma set_state_line:
  assumes "x \<notin> set name" and "\<not> is_digit x" and "x \<noteq> CHR ''=''"
  shows "x \<notin> set (state_line name n)"
  using assms by (auto simp: state_line_def dest: dec_text_set)

lemma state_tokens_text: "state_tokens (state_text s) =
    [state_line ''version'' 1, state_line ''device'' (fr_Device s),
     state_line ''inode'' (fr_Inode s), state_line ''offset'' (fr_Committed s), state_line ''headlen'' (head_len s),
     state_line ''headhash'' (unat (HashBytes (take (head_len s) (fr_Head s))))]"
proof -
  have nz: "x \<notin> set (state_line name n)" if "x \<in> {NL, CHR 0x00}" "x \<notin> set name" for x name n
    using that by (intro set_state_line) (auto simp: is_digit_def)
  have ne: "state_line name n \<noteq> []" for name n
    by (simp add: state_line_def)
  have "c_str (state_text s) = state_text s"
    by (rule c_str_id) (simp add: state_text_lines nz)
  then show ?thesis
    unfolding state_tokens_def by (simp only:, unfold state_text_lines, subst split_on_lines) (simp_all add: nz ne)
qed

lemma parse_state_line:
  assumes "CHR ''='' \<notin> set name" and "state_field_of name = Some f" and "n < 2 ^ 64" and "f = FVersion \<longrightarrow> n = 1"
  shows "parse_state (state_line name n # ls) (found, st) = parse_state ls (f # found, set_field f n st)"
proof -
  have "find_index CHR ''='' (state_line name n) = Some (length name)"
    unfolding state_line_def using assms(1) by (rule find_index_append)
  then show ?thesis
    using assms state_number_dec_text [OF assms(3)] by (cases "f = FVersion") (simp_all add: state_line_def)
qed

lemma check_state_text:
  assumes "fr_Device s < 2 ^ 64" "fr_Inode s < 2 ^ 64" "fr_Committed s < 2 ^ 64" "length (fr_Head s) \<le> HEAD_MAX"
  shows "check_state (state_text s) = Inr (saved_state s)"
proof -
  have h: "head_len s < 2 ^ 64"
    using assms(3) by (simp add: head_len_def)
  have "unat (HashBytes (take (head_len s) (fr_Head s))) < 2 ^ 64"
    using unsigned_less [of "HashBytes (take (head_len s) (fr_Head s))"] by simp
  with h have "parse_state (state_tokens (state_text s)) ([], empty_state) =
      Inr ([FHeadHash, FHeadLen, FOffset, FInode, FDevice, FVersion], saved_state s)"
    unfolding state_tokens_text using assms
    by (simp add: parse_state_line state_field_of_def empty_state_def saved_state_def del: parse_state.simps(2))
  then show ?thesis
    using assms(3,4) by (simp add: check_state_def saved_state_def head_len_def)
qed

section \<open>Saving\<close>

lemma FileReader_WriteAll_result:
  "FileReader_WriteAll data w = (e, w') \<Longrightarrow>
     r_Content w' = r_Content w \<and> r_Path w' = r_Path w \<and> r_State w' = r_State w \<and>
     (e = None \<longrightarrow> r_Temp w' = map_option (\<lambda>t. t @ data) (r_Temp w))"
proof (induction data w arbitrary: e w' rule: FileReader_WriteAll.induct)
  case (1 data w)
  note IH = 1(1,2) and r = 1(3)
  have id: "map_option (\<lambda>t. t) x = x" for x :: "string option"
    by (cases x) auto
  show ?case
  proof (cases "data = []")
    case True
    then show ?thesis
      using r by (auto simp: FileReader_WriteAll.simps [of "[]" w] id)
  next
    case False
    show ?thesis
    proof (cases "r_Script w")
      case Nil
      with False r show ?thesis
        by (auto simp: FileReader_WriteAll.simps [of data w])
    next
      case (Cons out outs)
      show ?thesis
      proof (cases out)
        case Done
        with False r Cons show ?thesis
          by (auto simp: FileReader_WriteAll.simps [of data w])
      next
        case (Part k)
        let ?w = "w\<lparr>r_Script := outs, r_Temp := map_option (\<lambda>t. t @ take k data) (r_Temp w)\<rparr>"
        have e: "FileReader_WriteAll data w = FileReader_WriteAll (drop k data) ?w"
          using False Cons Part by (simp add: FileReader_WriteAll.simps [of data w])
        have "map_option (\<lambda>t. t @ drop k data) (r_Temp ?w) = map_option (\<lambda>t. t @ data) (r_Temp w)"
          by (cases "r_Temp w") simp_all
        then show ?thesis
          using IH(1) [OF False refl Cons Part, of e w'] r unfolding e by simp
      next
        case (Fails x)
        show ?thesis
        proof (cases "x = 4")
          case True
          have e: "FileReader_WriteAll data w = FileReader_WriteAll data (w\<lparr>r_Script := outs\<rparr>)"
            using False Cons Fails True by (simp add: FileReader_WriteAll.simps [of data w])
          show ?thesis
            using IH(2) [OF False refl Cons Fails True, of e w'] r unfolding e by simp
        next
          case x: False
          show ?thesis
            using r False Cons Fails x by (auto simp: FileReader_WriteAll.simps [of data w])
        qed
      qed
    qed
  qed
qed

text \<open>What a save leaves alone.\<close>

definition kept_by_save :: "reader \<Rightarrow> reader \<Rightarrow> bool" where
  "kept_by_save s t \<longleftrightarrow> r_Content (World t) = r_Content (World s) \<and> r_Path (World t) = r_Path (World s) \<and>
     t\<lparr>World := World s, fr_bSaveFailed := fr_bSaveFailed s, fr_Log := fr_Log s\<rparr> = s"

lemma kept_by_save_refl [simp]: "kept_by_save s s"
  by (simp add: kept_by_save_def)

lemma kept_by_save_trans:
  assumes "kept_by_save s t" and "kept_by_save t u"
  shows "kept_by_save s u"
proof -
  have "u\<lparr>World := World s, fr_bSaveFailed := fr_bSaveFailed s, fr_Log := fr_Log s\<rparr> =
      (u\<lparr>World := World t, fr_bSaveFailed := fr_bSaveFailed t, fr_Log := fr_Log t\<rparr>)
        \<lparr>World := World s, fr_bSaveFailed := fr_bSaveFailed s, fr_Log := fr_Log s\<rparr>"
    by simp
  also have "\<dots> = s"
    using assms by (simp add: kept_by_save_def)
  finally show ?thesis
    using assms by (simp add: kept_by_save_def)
qed

lemma kept_by_save_fields:
  assumes "kept_by_save s t"
  shows "fr_Committed t = fr_Committed s \<and> fr_BufferStart t = fr_BufferStart s \<and> fr_Generation t = fr_Generation s \<and> fr_bOpened t = fr_bOpened s \<and>
    fr_Head t = fr_Head s \<and> fr_Device t = fr_Device s \<and> fr_Inode t = fr_Inode s \<and> fr_Fd t = fr_Fd s \<and>
    fr_Buffer t = fr_Buffer s \<and> fr_Pos t = fr_Pos s \<and> fr_MaxLineLength t = fr_MaxLineLength s \<and> fr_IncompleteSec t = fr_IncompleteSec s \<and>
    fr_bSkipping t = fr_bSkipping s \<and> fr_ScanFrom t = fr_ScanFrom s \<and> fr_bFirstOpen t = fr_bFirstOpen s \<and> fr_bStartAtEnd t = fr_bStartAtEnd s \<and>
    fr_bRotationSeen t = fr_bRotationSeen s"
proof -
  have e: "t\<lparr>World := World s, fr_bSaveFailed := fr_bSaveFailed s, fr_Log := fr_Log s\<rparr> = s"
    using assms by (simp add: kept_by_save_def)
  show ?thesis
    using arg_cong [OF e, of fr_Committed] arg_cong [OF e, of fr_BufferStart] arg_cong [OF e, of fr_Generation]
      arg_cong [OF e, of fr_bOpened] arg_cong [OF e, of fr_Head] arg_cong [OF e, of fr_Device]
      arg_cong [OF e, of fr_Inode] arg_cong [OF e, of fr_Fd] arg_cong [OF e, of fr_Buffer]
      arg_cong [OF e, of fr_Pos] arg_cong [OF e, of fr_MaxLineLength] arg_cong [OF e, of fr_IncompleteSec]
      arg_cong [OF e, of fr_bSkipping] arg_cong [OF e, of fr_ScanFrom] arg_cong [OF e, of fr_bFirstOpen]
      arg_cong [OF e, of fr_bStartAtEnd] arg_cong [OF e, of fr_bRotationSeen] by simp
qed

lemma r_call_kept:
  assumes "r_call s = (e, t)"
  shows "kept_by_save s t \<and> r_State (World t) = r_State (World s) \<and> r_Temp (World t) = r_Temp (World s)"
  using assms by (auto simp: r_call_def r_next_def kept_by_save_def split: list.splits outcome.splits)

lemma SaveState_result:
  assumes "SaveState s = (ok, t)"
  shows "kept_by_save s t \<and> r_State (World t) = (if ok then Some (state_text s) else r_State (World s))"
proof -
  define fail where "fail = (\<lambda>e t. (False, if fr_bSaveFailed t then t else FileReader_Log (CannotSave e) (t\<lparr>fr_bSaveFailed := True\<rparr>)))"
  define discard where "discard = (\<lambda>e t. case r_call t of
      (None, t1) \<Rightarrow> fail e (t1\<lparr>World := (World t1)\<lparr>r_Temp := None\<rparr>\<rparr>) | (Some _, t1) \<Rightarrow> fail e t1)"
  define good where "good = (\<lambda>u (r :: bool \<times> reader). kept_by_save u (snd r) \<and> \<not> fst r \<and> r_State (World (snd r)) = r_State (World u))"
  have f: "good u (fail e u)" for u e
    by (simp add: good_def fail_def kept_by_save_def FileReader_Log_def)
  have d: "good u (discard e u)" for u e
  proof -
    obtain x v where c: "r_call u = (x, v)" by force
    note k = r_call_kept [OF c]
    show ?thesis
    proof (cases x)
      case None
      have "kept_by_save u (v\<lparr>World := (World v)\<lparr>r_Temp := None\<rparr>\<rparr>)"
        using k by (simp add: kept_by_save_def)
      then show ?thesis
        using k f [of "v\<lparr>World := (World v)\<lparr>r_Temp := None\<rparr>\<rparr>" e] None c kept_by_save_trans
        by (auto simp: good_def discard_def)
    next
      case (Some y)
      then show ?thesis
        using k f [of v e] c kept_by_save_trans by (auto simp: good_def discard_def)
    qed
  qed
  have lift: "kept_by_save s t \<and> r_State (World t) = (if ok then Some (state_text s) else r_State (World s))"
    if "good u (ok, t)" "kept_by_save s u" "r_State (World u) = r_State (World s)" for u
    using that kept_by_save_trans [of s u t] by (simp add: good_def)
  obtain e1 s1 where c1: "r_call s = (e1, s1)" by force
  note k1 = r_call_kept [OF c1]
  show ?thesis
  proof (cases e1)
    case (Some e)
    then have "(ok, t) = fail e s1"
      using assms c1 by (simp add: SaveState_def fail_def)
    with f [of s1 e] k1 show ?thesis
      using lift by metis
  next
    case None
    obtain written w where w: "FileReader_WriteAll (state_text s) ((World s1)\<lparr>r_Temp := Some []\<rparr>) = (written, w)" by force
    note W = FileReader_WriteAll_result [OF w]
    let ?s2 = "s1\<lparr>World := w\<rparr>"
    have k2: "kept_by_save s ?s2" "r_State (World ?s2) = r_State (World s)"
      using k1 W by (simp_all add: kept_by_save_def)
    obtain err1 s3 where c3: "(case written of Some e \<Rightarrow> (Some e, ?s2) | None \<Rightarrow> r_call ?s2) = (err1, s3)" by force
    have k3: "kept_by_save s s3" "r_State (World s3) = r_State (World s)" "r_Temp (World s3) = r_Temp w"
      and w3: "err1 = None \<Longrightarrow> written = None"
      using c3 k2 r_call_kept [of ?s2 err1 s3] kept_by_save_trans [of s ?s2 s3] by (auto split: option.splits)
    obtain closed s4 where c4: "r_call s3 = (closed, s4)" by force
    have k4: "kept_by_save s s4" "r_State (World s4) = r_State (World s)" "r_Temp (World s4) = r_Temp w"
      using r_call_kept [OF c4] k3 kept_by_save_trans [of s s3 s4] by auto
    have r: "(ok, t) = (case (if err1 = None then closed else err1) of
        Some e \<Rightarrow> discard e s4
      | None \<Rightarrow> (case r_call s4 of
            (Some e, s5) \<Rightarrow> discard e s5
          | (None, s5) \<Rightarrow> (True, s5\<lparr>World := (World s5)\<lparr>r_State := r_Temp (World s5), r_Temp := None\<rparr>, fr_bSaveFailed := False\<rparr>)))"
      using assms unfolding SaveState_def Let_def fail_def discard_def c1 None prod.case option.case w c3 c4 by simp
    show ?thesis
    proof (cases "if err1 = None then closed else err1")
      case (Some e)
      with r d [of s4 e] k4 lift show ?thesis
        by simp
    next
      case ok: None
      obtain e5 s5 where c5: "r_call s4 = (e5, s5)" by force
      have k5: "kept_by_save s s5" "r_State (World s5) = r_State (World s)" "r_Temp (World s5) = r_Temp w"
        using r_call_kept [OF c5] k4 kept_by_save_trans [of s s4 s5] by auto
      show ?thesis
      proof (cases e5)
        case (Some e)
        with r d [of s5 e] k5 lift ok c5 show ?thesis
          by simp
      next
        case None
        have "written = None"
          using ok w3 by (simp split: if_splits)
        then have "r_Temp w = Some (state_text s)"
          using W by simp
        with r ok c5 None k5 show ?thesis
          by (simp add: kept_by_save_def)
      qed
    qed
  qed
qed

lemma FileReader_WriteAll_ok:
  "r_Script w = [] \<Longrightarrow> FileReader_WriteAll data w = (None, w\<lparr>r_Temp := map_option (\<lambda>t. t @ data) (r_Temp w)\<rparr>)"
  by (cases "data = []"; cases "r_Temp w") (simp_all add: FileReader_WriteAll.simps [of data w] FileReader_WriteAll.simps [of "[]" w])

lemma SaveState_ok:
  assumes "r_Script (World s) = []"
  shows "SaveState s = (True, s\<lparr>World := (World s)\<lparr>r_State := Some (state_text s), r_Temp := None\<rparr>, fr_bSaveFailed := False\<rparr>)"
  using assms by (simp add: SaveState_def r_call_ok FileReader_WriteAll_ok)

section \<open>Opening\<close>

lemma length_dec_text: "n < 10 ^ Suc k \<Longrightarrow> length (dec_text n) \<le> Suc k"
proof (induction k arbitrary: n)
  case 0
  then show ?case
    by (simp add: dec_text.simps [of n])
next
  case (Suc k)
  then have "n div 10 < 10 ^ Suc k"
    by (simp add: less_mult_imp_div_less)
  with Suc.IH [of "n div 10"] show ?case
    by (subst dec_text.simps) simp
qed

lemma length_dec_text_64: "n < 2 ^ 64 \<Longrightarrow> length (dec_text n) \<le> 20"
  using length_dec_text [of n 19] by simp

lemma state_line_length: "n < 2 ^ 64 \<Longrightarrow> length name \<le> 8 \<Longrightarrow> length (state_line name n) \<le> 29"
  using length_dec_text_64 [of n] by (simp add: state_line_def)

lemma state_text_length:
  assumes "fr_Device s < 2 ^ 64" "fr_Inode s < 2 ^ 64" "fr_Committed s < 2 ^ 64"
  shows "length (state_text s) \<le> STATE_MAX"
proof -
  have "head_len s < 2 ^ 64"
    using assms(3) by (simp add: head_len_def)
  moreover have "unat (HashBytes (take (head_len s) (fr_Head s))) < 2 ^ 64"
    using unsigned_less [of "HashBytes (take (head_len s) (fr_Head s))"] by simp
  ultimately show ?thesis
    using assms state_line_length [of 1 "''version''"] state_line_length [of "fr_Device s" "''device''"]
      state_line_length [of "fr_Inode s" "''inode''"] state_line_length [of "fr_Committed s" "''offset''"]
      state_line_length [of "head_len s" "''headlen''"]
      state_line_length [of "unat (HashBytes (take (head_len s) (fr_Head s)))" "''headhash''"]
    by (simp add: state_text_lines)
qed

text \<open>The state of a reader \<open>old\<close> which belongs to the file with the contents \<open>C\<close>.\<close>

definition state_of_file :: "nat \<Rightarrow> nat \<Rightarrow> string \<Rightarrow> reader \<Rightarrow> bool" where
  "state_of_file dev ino C old \<longleftrightarrow> fr_Device old = dev \<and> fr_Inode old = ino \<and> dev < 2 ^ 64 \<and> ino < 2 ^ 64 \<and>
     fr_Committed old \<le> length C \<and> length C < 2 ^ 64 \<and> length (fr_Head old) \<le> HEAD_MAX \<and>
     fr_Head old = take (length (fr_Head old)) C"

lemma LoadState_ok:
  assumes "r_Script (World s) = []" and "r_State (World s) = Some (state_text old)" and "state_of_file dev ino C old"
  shows "LoadState s = (STATE_OK, saved_state old, s)"
proof -
  have b: "fr_Device old < 2 ^ 64" "fr_Inode old < 2 ^ 64" "fr_Committed old < 2 ^ 64" "length (fr_Head old) \<le> HEAD_MAX"
    using assms(3) by (auto simp: state_of_file_def)
  have l: "length (state_text old) \<le> STATE_MAX"
    by (rule state_text_length [OF b(1-3)])
  then have "take (STATE_MAX + 1) (drop 0 (state_text old)) = state_text old"
    by simp
  with assms(1,2) l check_state_text [OF b] show ?thesis
    by (simp add: LoadState_def r_call_ok ReadAt_ok)
qed

lemma ResolveStart_ok:
  assumes "r_Script (World s) = []" and "r_State (World s) = Some (state_text old)" and "state_of_file dev ino C old"
    and "fd_content s = C"
  shows "ResolveStart (dev, ino) (length C) s = (fr_Committed old, s)"
proof -
  have h: "head_len old \<le> length (fr_Head old)" "fr_Head old = take (length (fr_Head old)) C"
    using assms(3) by (auto simp: state_of_file_def head_len_def)
  then have t: "take (head_len old) C = take (head_len old) (fr_Head old)"
    by (metis min.absorb1 take_take)
  have "length (fr_Head old) \<le> length C"
    using h(2) by (metis length_take min.cobounded1)
  with h have "length (take (head_len old) C) = head_len old"
    by simp
  with t LoadState_ok [OF assms(1-3)] assms show ?thesis
    by (simp add: ResolveStart_def saved_state_def state_of_file_def fd_read_ok)
qed

text \<open>The reader after the first opening of a file, at the position \<open>Off\<close>.\<close>

definition opened_at :: "nat \<Rightarrow> nat \<Rightarrow> string \<Rightarrow> nat \<Rightarrow> reader \<Rightarrow> reader \<Rightarrow> bool" where
  "opened_at dev ino C Off s t \<longleftrightarrow> follows C t \<and> undisturbed t \<and> fr_Fd t = Some (dev, ino) \<and> fr_BufferStart t = Off \<and>
     fr_Committed t = Off \<and> fr_Device t = dev \<and> fr_Inode t = ino \<and> fr_Head t = take HEAD_MAX C \<and> \<not> fr_bSkipping t \<and>
     fr_MaxLineLength t = fr_MaxLineLength s \<and> fr_IncompleteSec t = fr_IncompleteSec s \<and> fr_bOpened t = fr_bOpened s \<and>
     r_State (World t) = Some (state_text t) \<and> r_Content (World t) = r_Content (World s) \<and>
     r_Path (World t) = r_Path (World s) \<and> fr_Generation t = fr_Generation s + 1"

lemma state_text_cong:
  "fr_Committed t = fr_Committed s \<Longrightarrow> fr_Head t = fr_Head s \<Longrightarrow> fr_Device t = fr_Device s \<Longrightarrow> fr_Inode t = fr_Inode s \<Longrightarrow>
   state_text t = state_text s"
  by (simp add: state_text_def)

lemma OpenFile_at:
  assumes w: "r_Script (World s) = []" "r_Path (World s) = RegularFile dev ino" "r_Content (World s) (dev, ino) = C"
    and k: "fr_bFirstOpen s" "\<not> fr_bSkipping s" and off: "Off \<le> length C"
    and rs: "\<And>u. World u = World s \<Longrightarrow> fr_Fd u = Some (dev, ino) \<Longrightarrow> fr_bStartAtEnd u = fr_bStartAtEnd s \<Longrightarrow>
      ResolveStart (dev, ino) (length C) u = (Off, u)"
  shows "\<exists>t. OpenFile s = (True, t) \<and> opened_at dev ino C Off s t"
proof -
  define s3 where "s3 = s\<lparr>fr_LastOpenError := 0, fr_Fd := Some (dev, ino), fr_Device := dev, fr_Inode := ino,
    fr_Generation := fr_Generation s + 1, fr_bFirstOpen := False\<rparr>"
  have r: "ResolveStart (dev, ino) (length C) s3 = (Off, s3)"
    by (rule rs) (simp_all add: s3_def)
  have fd: "fd_content s3 = C"
    using w by (simp add: s3_def fd_content_def)
  define u where "u = (ClearBuffer (s3\<lparr>fr_Head := take HEAD_MAX C\<rparr>))\<lparr>fr_BufferStart := Off, fr_Committed := Off\<rparr>"
  have wu: "World u = World s"
    by (simp add: u_def s3_def ClearBuffer_def)
  have rd: "fd_read HEAD_MAX 0 s3 = (Some (take HEAD_MAX C), s3)"
    using fd_read_ok [of s3 HEAD_MAX 0] w fd by (simp add: s3_def)
  have o: "OpenFile s = (True, snd (SaveState u))"
    using w k r rd by (simp add: OpenFile_def r_call_ok s3_def u_def Let_def)
  define t where "t = snd (SaveState u)"
  have t: "t = u\<lparr>World := (World u)\<lparr>r_State := Some (state_text u), r_Temp := None\<rparr>, fr_bSaveFailed := False\<rparr>"
    using SaveState_ok [of u] w wu by (simp add: t_def)
  have st: "state_text t = state_text u"
    by (rule state_text_cong) (simp_all add: t)
  have "fd_content t = C"
    using w by (simp add: t u_def s3_def ClearBuffer_def fd_content_def)
  then have "follows C t"
    using off by (simp add: follows_def t u_def s3_def ClearBuffer_def Pending_def pend_def min_def)
  then have "opened_at dev ino C Off s t"
    using w k st wu by (simp add: opened_at_def undisturbed_def) (simp add: t u_def s3_def ClearBuffer_def)
  then show ?thesis
    using o t_def by blast
qed

lemma opened_upcoming:
  assumes "opened_at dev ino C Off s t"
  shows "upcoming later t = text_lines (fr_MaxLineLength s) False (drop Off C @ later)"
proof -
  have "fd_content t = C"
    using assms unfolding opened_at_def follows_def by blast
  with assms show ?thesis
    by (simp add: opened_at_def upcoming_def)
qed

end
