(* ===== verification/FileReaderTheorems.thy ===== *)
theory FileReaderTheorems imports FileReaderState begin

text \<open>The properties of the file reader.\<close>

section \<open>A reader and a writer\<close>

text \<open>The program which writes the file appends to it; the reader is called between the writes. \<open>ReadCalled\<close> has the
  time of the call. The loop of \<open>ReadLine\<close> needs at most one turn for each byte of the file, and one more.\<close>

datatype file_event = Written string | ReadCalled nat

definition write_file :: "nat \<times> nat \<Rightarrow> string \<Rightarrow> rworld \<Rightarrow> rworld" where
  "write_file di u w = w\<lparr>r_Content := (r_Content w)(di := r_Content w di @ u)\<rparr>"

fun follow_run :: "nat \<times> nat \<Rightarrow> file_event list \<Rightarrow> reader \<Rightarrow> (file_line list \<times> reader) option" where
  "follow_run di [] s = Some ([], s)"
| "follow_run di (Written u # es) s = follow_run di es (s\<lparr>World := write_file di u (World s)\<rparr>)"
| "follow_run di (ReadCalled tNow # es) s =
     (case ReadLine (Suc (length (r_Content (World s) di))) tNow s of
        None \<Rightarrow> None
      | Some (r, t) \<Rightarrow>
          (case follow_run di es t of
             None \<Rightarrow> None
           | Some (ls, u) \<Rightarrow> Some ((case r of None \<Rightarrow> ls | Some l \<Rightarrow> l # ls), u)))"

fun written :: "file_event list \<Rightarrow> string" where
  "written [] = []"
| "written (Written u # es) = u @ written es"
| "written (ReadCalled tNow # es) = written es"

abbreviation line_text :: "file_line \<Rightarrow> string \<times> bool" where
  "line_text l \<equiv> (Text l, bTruncated l)"

definition running :: "nat \<times> nat \<Rightarrow> string \<Rightarrow> reader \<Rightarrow> bool" where
  "running di C s \<longleftrightarrow> follows C s \<and> undisturbed s \<and> fr_Fd s = Some di \<and> (fr_Device s, fr_Inode s) = di \<and> fr_MaxLineLength s > 0 \<and>
     fr_IncompleteSec s = 0 \<and> fr_bOpened s"

lemma running_write:
  assumes "running di C s"
  shows "running di (C @ u) (s\<lparr>World := write_file di u (World s)\<rparr>) \<and>
    upcoming later (s\<lparr>World := write_file di u (World s)\<rparr>) = upcoming (u @ later) s"
proof -
  let ?t = "s\<lparr>World := write_file di u (World s)\<rparr>"
  have f: "fr_Fd s = Some di" "fd_content s = C" "fr_BufferStart s + Pending s \<le> length C" "fr_Pos s \<le> length (fr_Buffer s)"
    "fr_ScanFrom s \<le> Pending s" "NL \<notin> set (take (fr_ScanFrom s) (pend s))"
    and c: "pend s = take (Pending s) (drop (fr_BufferStart s) C)"
    and h: "fr_Head s = take (length (fr_Head s)) C" "length (fr_Head s) \<le> HEAD_MAX"
    using assms unfolding running_def follows_def by blast+
  have fd: "fd_content ?t = C @ u"
    using f(1,2) by (simp add: fd_content_def write_file_def)
  have p: "Pending ?t = Pending s" "pend ?t = pend s"
    by (simp_all add: Pending_def pend_def)
  have c': "pend s = take (Pending s) (drop (fr_BufferStart s) (C @ u))"
    using c f(3) by simp
  have "length (fr_Head s) \<le> length C"
    using h(1) by (metis length_take min.cobounded1)
  then have h': "fr_Head s = take (length (fr_Head s)) (C @ u)"
    using h(1) by simp
  have "follows (C @ u) ?t"
    unfolding follows_def fd p using f c' h' h(2) by simp
  moreover have "undisturbed ?t"
    using assms by (simp add: running_def undisturbed_def write_file_def)
  moreover have "upcoming later ?t = upcoming (u @ later) s"
    unfolding upcoming_def fd f(2) using f(3) by simp
  ultimately show ?thesis
    using assms by (simp add: running_def)
qed

lemma running_read:
  assumes "running di C s"
  shows "\<exists>r t. ReadLine (Suc (length (r_Content (World s) di))) tNow s = Some (r, t) \<and> reads_next C s (r, t) \<and> running di C t"
proof -
  have fd: "r_Content (World s) di = C" and f: "follows C s"
    using assms by (auto simp: running_def follows_def fd_content_def)
  obtain r t where rt: "ReadLineLoop (Suc (length C)) tNow s = Some (r, t)" "reads_next C s (r, t)"
    using ReadLineLoop_reads_next [OF f, of "Suc (length C)" tNow] assms unfolding running_def by force
  then have "same_file s t" "follows C t"
    by (simp_all add: reads_next_def)
  then have "running di C t"
    using assms undisturbed_same unfolding running_def same_file_def by metis
  then show ?thesis
    using rt assms fd by (simp add: ReadLine_def running_def del: ReadLineLoop.simps)
qed

text \<open>The lines behind a line which was not cut are those of the text behind its end.\<close>

definition resumable :: "nat \<Rightarrow> string \<Rightarrow> file_line list \<Rightarrow> reader \<Rightarrow> bool" where
  "resumable m C ls t \<longleftrightarrow> (\<forall>ls1 l ls2 later. ls = ls1 @ l # ls2 \<longrightarrow> \<not> bTruncated l \<longrightarrow>
     text_lines m False (drop (EndOffset l) C @ later) = map line_text ls2 @ upcoming later t)"

lemma follow_run_ok:
  assumes "running di C s"
  shows "\<exists>ls t. follow_run di es s = Some (ls, t) \<and> running di (C @ written es) t \<and>
    (\<forall>later. upcoming (written es @ later) s = map line_text ls @ upcoming later t) \<and>
    fr_Committed t = fr_Committed s \<and> fr_Generation t = fr_Generation s \<and> fr_MaxLineLength t = fr_MaxLineLength s \<and>
    fr_BufferStart s \<le> fr_BufferStart t \<and>
    (\<forall>l \<in> set ls. Generation l = fr_Generation s \<and> fr_BufferStart s < EndOffset l \<and> EndOffset l \<le> fr_BufferStart t) \<and>
    resumable (fr_MaxLineLength s) (C @ written es) ls t"
  using assms
proof (induction di es s arbitrary: C rule: follow_run.induct)
  case (1 di s)
  then show ?case
    by (simp add: resumable_def)
next
  case (2 di u es s)
  note w = running_write [OF 2(2), of u]
  from 2(1) [of "C @ u"] w show ?case
    by auto
next
  case (3 di tNow es s)
  obtain r t where rt: "ReadLine (Suc (length (r_Content (World s) di))) tNow s = Some (r, t)" "reads_next C s (r, t)" "running di C t"
    using running_read [OF 3(2)] by blast
  obtain ls u where run: "follow_run di es t = Some (ls, u)" "running di (C @ written es) u"
    "\<And>later. upcoming (written es @ later) t = map line_text ls @ upcoming later u"
    "fr_Committed u = fr_Committed t" "fr_Generation u = fr_Generation t" "fr_MaxLineLength u = fr_MaxLineLength t"
    "fr_BufferStart t \<le> fr_BufferStart u"
    "\<forall>l \<in> set ls. Generation l = fr_Generation t \<and> fr_BufferStart t < EndOffset l \<and> EndOffset l \<le> fr_BufferStart u"
    "resumable (fr_MaxLineLength t) (C @ written es) ls u"
    using 3(1) [OF rt(1) refl rt(3)] by blast
  have sf: "same_file s t"
    using rt(2) by (simp add: reads_next_def)
  show ?case
  proof (cases r)
    case None
    with rt run sf show ?thesis
      by (auto simp: reads_next_def same_file_def)
  next
    case (Some l)
    have l: "\<And>later. upcoming later s = line_text l # upcoming later t" "EndOffset l = fr_BufferStart t"
      "Generation l = fr_Generation s" "fr_bSkipping t \<longrightarrow> bTruncated l" "fr_BufferStart s < fr_BufferStart t"
      using rt(2) Some by (simp_all add: reads_next_def)
    have fd: "fd_content t = C" and le: "fr_BufferStart t \<le> length C"
      using rt(3) by (auto simp: running_def follows_def)
    have "text_lines (fr_MaxLineLength s) False (drop (EndOffset l) (C @ written es) @ later) = map line_text ls @ upcoming later u"
      if "\<not> bTruncated l" for later
      using run(3) [of later] that l(2,4) le fd sf by (simp add: upcoming_def same_file_def)
    then have "resumable (fr_MaxLineLength s) (C @ written es) (l # ls) u"
      using run(9) sf unfolding resumable_def same_file_def by (auto simp: Cons_eq_append_conv)
    with rt run sf l Some show ?thesis
      by (auto simp: same_file_def)
  qed
qed

declare follow_run.simps [simp del]

section \<open>The lines of a growing file\<close>

text \<open>A reader as a program makes it: the longest line is set (0 for the default), then it is opened.\<close>

definition new_reader :: "nat \<Rightarrow> string \<Rightarrow> string \<Rightarrow> rworld \<Rightarrow> reader" where
  "new_reader m path statepath w = snd (FileReader_Open path statepath (SetMaxLineLength m (FileReader w)))"

definition longest_line :: "nat \<Rightarrow> nat" where
  "longest_line m = (if m \<noteq> 0 then m else DEFAULT_MAX_LINE)"

lemma new_reader_fields:
  assumes "path \<noteq> []" and "statepath \<noteq> []"
  shows "World (new_reader m path statepath w) = w \<and> fr_bFirstOpen (new_reader m path statepath w) \<and>
    fr_bOpened (new_reader m path statepath w) \<and> \<not> fr_bSkipping (new_reader m path statepath w) \<and>
    fr_MaxLineLength (new_reader m path statepath w) = longest_line m \<and> fr_IncompleteSec (new_reader m path statepath w) = 0 \<and>
    \<not> fr_bStartAtEnd (new_reader m path statepath w) \<and> fr_Fd (new_reader m path statepath w) = None \<and>
    fr_Generation (new_reader m path statepath w) = 0"
  using assms by (simp add: new_reader_def FileReader_Open_def FileReader_Close_def CloseFile_def ClearBuffer_def
      FileReader_def SetMaxLineLength_def longest_line_def Let_def)

text \<open>The first call of \<open>ReadLine\<close> opens the file.\<close>

lemma first_read:
  assumes r: "path \<noteq> []" "statepath \<noteq> []" and o: "OpenFile (new_reader m path statepath w) = (True, s)"
    and at: "opened_at dev ino C Off (new_reader m path statepath w) s"
  shows "follow_run (dev, ino) (ReadCalled t0 # es) (new_reader m path statepath w) = follow_run (dev, ino) (ReadCalled t0 # es) s \<and>
    running (dev, ino) C s \<and> (\<forall>later. upcoming later s = text_lines (longest_line m) False (drop Off C @ later)) \<and>
    fr_MaxLineLength s = longest_line m"
proof -
  note n = new_reader_fields [OF r, of m w]
  have fd: "fr_Fd s = Some (dev, ino)" and w: "r_Content (World s) = r_Content w" and b: "fr_bOpened s"
    using at n by (auto simp: opened_at_def)
  have "ReadLineLoop (Suc f) t0 (new_reader m path statepath w) = ReadLineLoop (Suc f) t0 s" for f
    using n o fd by (simp only: ReadLineLoop.simps) simp
  then have "follow_run (dev, ino) (ReadCalled t0 # es) (new_reader m path statepath w) = follow_run (dev, ino) (ReadCalled t0 # es) s"
    using n b w by (simp add: ReadLine_def follow_run.simps(3) del: ReadLineLoop.simps)
  moreover have "running (dev, ino) C s"
    using at n by (simp add: opened_at_def running_def longest_line_def)
  ultimately show ?thesis
    using opened_upcoming [OF at] n at by (simp add: opened_at_def)
qed

lemma first_run:
  assumes r: "path \<noteq> []" "statepath \<noteq> []" and o: "OpenFile (new_reader m path statepath w) = (True, s)"
    and at: "opened_at dev ino C Off (new_reader m path statepath w) s"
  obtains ls t where "follow_run (dev, ino) (ReadCalled t0 # es) (new_reader m path statepath w) = Some (ls, t)"
    "running (dev, ino) (C @ written es) t"
    "\<And>later. text_lines (longest_line m) False (drop Off C @ written es @ later) = map line_text ls @ upcoming later t"
    "fr_Committed t = Off" "fr_Generation t = 1"
    "\<And>l. l \<in> set ls \<Longrightarrow> Generation l = 1 \<and> Off < EndOffset l \<and> EndOffset l \<le> fr_BufferStart t"
    "resumable (longest_line m) (C @ written es) ls t"
proof -
  have f: "follow_run (dev, ino) (ReadCalled t0 # es) (new_reader m path statepath w) = follow_run (dev, ino) (ReadCalled t0 # es) s"
    "running (dev, ino) C s" "\<And>later. upcoming later s = text_lines (longest_line m) False (drop Off C @ later)"
    "fr_MaxLineLength s = longest_line m"
    using first_read [OF r o at, of t0 es] by blast+
  have g: "fr_Committed s = Off" "fr_Generation s = 1" "fr_BufferStart s = Off"
    using at new_reader_fields [OF r, of m w] by (simp_all add: opened_at_def)
  obtain ls t where x: "follow_run (dev, ino) (ReadCalled t0 # es) s = Some (ls, t)" "running (dev, ino) (C @ written es) t"
    "\<forall>later. upcoming (written es @ later) s = map line_text ls @ upcoming later t" "fr_Committed t = Off" "fr_Generation t = 1"
    "\<forall>l \<in> set ls. Generation l = 1 \<and> Off < EndOffset l \<and> EndOffset l \<le> fr_BufferStart t"
    "resumable (fr_MaxLineLength s) (C @ written es) ls t"
    using follow_run_ok [OF f(2), of "ReadCalled t0 # es"] unfolding written.simps g by blast
  show thesis
    by (rule that [of ls t]) (use x f in simp_all)
qed

lemma open_without_state:
  assumes "path \<noteq> []" "statepath \<noteq> []" "r_Script w = []" "r_Path w = RegularFile dev ino" "r_Content w (dev, ino) = C" "r_State w = None"
  shows "\<exists>s. OpenFile (new_reader m path statepath w) = (True, s) \<and> opened_at dev ino C 0 (new_reader m path statepath w) s"
proof (rule OpenFile_at)
  fix u :: reader
  assume "World u = World (new_reader m path statepath w)" "fr_bStartAtEnd u = fr_bStartAtEnd (new_reader m path statepath w)"
  then show "ResolveStart (dev, ino) (length C) u = (0, u)"
    using assms new_reader_fields [of path statepath m w] by (simp add: ResolveStart_def LoadState_def r_call_ok)
qed (use assms new_reader_fields [of path statepath m w] in simp_all)

text \<open>C10. Lines are delivered once, whole and in order while the file grows: for every interleaving of the writes of the
  program with the calls of a new reader, the delivered lines, followed by those which the reader has yet to deliver,
  are the lines of the text of the file. The reader returns nothing exactly when every line which is complete was
  delivered. The loop of \<open>ReadLine\<close> ends.\<close>

theorem growing_file_lines:
  assumes "path \<noteq> []" "statepath \<noteq> []" "r_Script w = []" "r_Path w = RegularFile dev ino" "r_Content w (dev, ino) = C" "r_State w = None"
  shows "\<exists>ls t r u. follow_run (dev, ino) (ReadCalled t0 # es) (new_reader m path statepath w) = Some (ls, t) \<and>
    text_lines (longest_line m) False (C @ written es) = map line_text ls @ upcoming [] t \<and>
    ReadLine (Suc (length (C @ written es))) tNow t = Some (r, u) \<and>
    (r = None \<longleftrightarrow> text_lines (longest_line m) False (C @ written es) = map line_text ls)"
proof -
  obtain s where s: "OpenFile (new_reader m path statepath w) = (True, s)" "opened_at dev ino C 0 (new_reader m path statepath w) s"
    using open_without_state [OF assms] by blast
  obtain ls t where run: "follow_run (dev, ino) (ReadCalled t0 # es) (new_reader m path statepath w) = Some (ls, t)"
    "running (dev, ino) (C @ written es) t"
    "\<And>later. text_lines (longest_line m) False (drop 0 C @ written es @ later) = map line_text ls @ upcoming later t"
    by (rule first_run [OF assms(1,2) s]) blast
  have fd: "r_Content (World t) (dev, ino) = C @ written es"
    using run(2) by (auto simp: running_def follows_def fd_content_def)
  obtain r u where r: "ReadLine (Suc (length (C @ written es))) tNow t = Some (r, u)" "reads_next (C @ written es) t (r, u)"
    using running_read [OF run(2), of tNow] fd by auto
  have "r = None \<longleftrightarrow> upcoming [] t = []"
    using r(2) by (cases r) (auto simp: reads_next_def)
  then show ?thesis
    using run(1) run(3) [of "[]"] r(1) by auto
qed

definition small_world :: rworld where
  "small_world = \<lparr>r_Content = (\<lambda>_. ''a'' @ [CR, NL]), r_Path = RegularFile 1 2, r_State = None, r_Temp = None, r_Script = []\<rparr>"

theorem growing_file_lines_witness:
  "\<exists>ls t r u. follow_run (1, 2) (ReadCalled 0 # [Written ''b'', ReadCalled 1, Written [NL], ReadCalled 2]) (new_reader 0 ''log'' ''state'' small_world) = Some (ls, t) \<and>
    text_lines (longest_line 0) False ((''a'' @ [CR, NL]) @ written [Written ''b'', ReadCalled 1, Written [NL], ReadCalled 2]) = map line_text ls @ upcoming [] t \<and>
    ReadLine (Suc (length ((''a'' @ [CR, NL]) @ written [Written ''b'', ReadCalled 1, Written [NL], ReadCalled 2]))) 3 t = Some (r, u) \<and>
    (r = None \<longleftrightarrow> text_lines (longest_line 0) False ((''a'' @ [CR, NL]) @ written [Written ''b'', ReadCalled 1, Written [NL], ReadCalled 2]) = map line_text ls)"
  by (rule growing_file_lines) (simp_all add: small_world_def)

section \<open>Commit\<close>

text \<open>C11. \<open>Commit\<close> under any failures: a position which was not read yet is refused; the position only goes forward and
  never past what was read; if the state file cannot be written the old position counts, in the object and in the
  file, and the call can be repeated; a position of an earlier file is ignored.\<close>

theorem Commit_saves_position:
  assumes "Commit Gen End s = (ok, t)" and "fr_bOpened s" and "fr_Committed s \<le> fr_BufferStart s"
  shows "fr_Committed s \<le> fr_Committed t \<and> fr_Committed t \<le> fr_BufferStart t \<and> fr_BufferStart t = fr_BufferStart s \<and>
    (Gen \<noteq> fr_Generation s \<longrightarrow> ok \<and> t = s) \<and>
    (Gen = fr_Generation s \<and> End > fr_BufferStart s \<longrightarrow> \<not> ok) \<and>
    (Gen = fr_Generation s \<and> ok \<longrightarrow> fr_Committed t = max End (fr_Committed s)) \<and>
    (if fr_Committed t = fr_Committed s then r_State (World t) = r_State (World s) else r_State (World t) = Some (state_text t)) \<and>
    (\<not> ok \<longrightarrow> fr_Committed t = fr_Committed s)"
proof (cases "Gen = fr_Generation s \<and> fr_Committed s < End \<and> End \<le> fr_BufferStart s")
  case False
  then show ?thesis
    using assms by (auto simp: Commit_def FileReader_Log_def split: if_splits)
next
  case True
  let ?u = "s\<lparr>fr_Committed := End\<rparr>"
  obtain b v where sv: "SaveState ?u = (b, v)" by force
  have c: "(ok, t) = (if b then (True, v) else (False, v\<lparr>fr_Committed := fr_Committed s\<rparr>))"
    using assms True sv by (cases b) (simp_all add: Commit_def)
  note R = SaveState_result [OF sv]
  have k: "fr_Committed v = End" "fr_BufferStart v = fr_BufferStart s" "fr_Head v = fr_Head s" "fr_Device v = fr_Device s"
    "fr_Inode v = fr_Inode s"
    using kept_by_save_fields [of ?u v] R by auto
  have "state_text v = state_text ?u"
    using k by (intro state_text_cong) auto
  with c k R True show ?thesis
    by (cases b) auto
qed

theorem Commit_saves_position_witness:
  "\<exists>t. Commit 1 3 ((FileReader small_world)\<lparr>fr_bOpened := True, fr_Generation := 1, fr_BufferStart := 5\<rparr>) = (True, t) \<and> fr_Committed t = 3 \<and>
     r_State (World t) = Some (state_text t)"
proof -
  let ?s = "(FileReader small_world)\<lparr>fr_bOpened := True, fr_Generation := 1, fr_BufferStart := 5\<rparr>"
  have f: "fr_bOpened ?s" "fr_Committed ?s = 0" "fr_BufferStart ?s = 5" "fr_Generation ?s = 1"
    by (simp_all add: FileReader_def)
  have "r_Script (World (?s\<lparr>fr_Committed := 3\<rparr>)) = []"
    by (simp add: FileReader_def small_world_def)
  from SaveState_ok [OF this] obtain t where c: "Commit 1 3 ?s = (True, t)"
    using f by (simp add: Commit_def)
  show ?thesis
    using Commit_saves_position [OF c f(1)] f c by simp
qed

section \<open>A restart\<close>

lemma head_of_content:
  assumes "follows C s"
  shows "fr_Head s = take (length (fr_Head s)) C \<and> length (fr_Head s) \<le> HEAD_MAX \<and> length (fr_Head s) \<le> length C"
proof -
  have "fr_Head s = take (length (fr_Head s)) C" "length (fr_Head s) \<le> HEAD_MAX"
    using assms unfolding follows_def by blast+
  then show ?thesis
    by (metis length_take min.cobounded1)
qed

lemma Commit_ok:
  assumes "running (dev, ino) C t" and "fr_Committed t < End" and "End \<le> fr_BufferStart t" and "Gen = fr_Generation t"
  shows "\<exists>t'. Commit Gen End t = (True, t') \<and> fr_Committed t' = End \<and> r_State (World t') = Some (state_text t') \<and>
    fr_Head t' = fr_Head t \<and> fr_Device t' = dev \<and> fr_Inode t' = ino \<and> r_Script (World t') = [] \<and>
    r_Path (World t') = RegularFile dev ino \<and> r_Content (World t') = r_Content (World t)"
proof -
  have u: "r_Script (World t) = []" "r_Path (World t) = RegularFile dev ino" "fr_Device t = dev" "fr_Inode t = ino" "fr_bOpened t"
    using assms(1) by (auto simp: running_def undisturbed_def)
  let ?u = "t\<lparr>fr_Committed := End\<rparr>"
  let ?v = "?u\<lparr>World := (World ?u)\<lparr>r_State := Some (state_text ?u), r_Temp := None\<rparr>, fr_bSaveFailed := False\<rparr>"
  have "SaveState ?u = (True, ?v)"
    by (rule SaveState_ok) (simp add: u)
  then have "Commit Gen End t = (True, ?v)"
    using assms u by (simp add: Commit_def)
  moreover have "state_text ?v = state_text ?u"
    by (rule state_text_cong) simp_all
  ultimately show ?thesis
    using u by simp
qed


lemma small_run_running:
  obtains l t where "follow_run (1, 2) (ReadCalled 0 # []) (new_reader 0 ''log'' ''state'' small_world) = Some ([] @ l # [], t)"
    "line_text l = (''a'', False)" "running (1, 2) (''a'' @ [CR, NL]) t" "Generation l = fr_Generation t"
proof -
  have nn: "''log'' \<noteq> []" "''state'' \<noteq> []"
    by simp_all
  have w: "r_Script small_world = []" "r_Path small_world = RegularFile 1 2" "r_Content small_world (1, 2) = ''a'' @ [CR, NL]"
    "r_State small_world = None"
    by (simp_all add: small_world_def)
  obtain s where s: "OpenFile (new_reader 0 ''log'' ''state'' small_world) = (True, s)"
    "opened_at 1 2 (''a'' @ [CR, NL]) 0 (new_reader 0 ''log'' ''state'' small_world) s"
    using open_without_state [OF nn w] by blast
  have f: "follow_run (1, 2) (ReadCalled 0 # []) (new_reader 0 ''log'' ''state'' small_world) = follow_run (1, 2) (ReadCalled 0 # []) s"
    "running (1, 2) (''a'' @ [CR, NL]) s"
    "\<And>later. upcoming later s = text_lines (longest_line 0) False (drop 0 (''a'' @ [CR, NL]) @ later)"
    using first_read [OF nn s, of 0 "[]"] by blast+
  have "text_lines (longest_line 0) False (''a'' @ [CR, NL]) = [(''a'', False)]"
    by (simp add: text_lines.simps [of _ _ "_ # _"] text_lines.simps [of _ _ "[]"] longest_line_def strip_cr_def)
  then have up: "upcoming [] s = [(''a'', False)]"
    using f(3) [of "[]"] by simp
  obtain r t where r: "ReadLine (Suc (length (r_Content (World s) (1, 2)))) 0 s = Some (r, t)" "reads_next (''a'' @ [CR, NL]) s (r, t)"
    "running (1, 2) (''a'' @ [CR, NL]) t"
    using running_read [OF f(2)] by blast
  have "r \<noteq> None"
    using r(2) up by (cases r) (auto simp: reads_next_def)
  then obtain l where l: "r = Some l" "line_text l = (''a'', False)"
    using r(2) up by (auto simp: reads_next_def)
  have "Generation l = fr_Generation t"
    using r(2) l(1) by (simp add: reads_next_def same_file_def)
  then show thesis
    using that [of l t] f(1) r(1,3) l by (simp add: follow_run.simps)
qed

lemma small_run:
  obtains l t where "follow_run (1, 2) (ReadCalled 0 # []) (new_reader 0 ''log'' ''state'' small_world) = Some ([] @ l # [], t)"
    "line_text l = (''a'', False)"
  by (rule small_run_running)


end
