(* ===== verification/FileInput.thy ===== *)
theory FileInput imports FileReader "HOL-Library.Product_Lexorder" begin

text \<open>
  The pieces of the file input of otelfwd (\<^verbatim>\<open>file_input.hpp\<close>): the severity of the lines, the slot in which the push
  thread leaves the position to commit, and the name of the state file.
\<close>

section \<open>The severity\<close>

definition Levels :: "(string \<times> nat \<times> string) list" where
  "Levels = [(''trace'', 1, ''TRACE''), (''debug'', 5, ''DEBUG''), (''info'', 9, ''INFO''), (''warn'', 13, ''WARN''),
     (''warning'', 13, ''WARN''), (''error'', 17, ''ERROR''), (''fatal'', 21, ''FATAL''), (''off'', 0, []), (''none'', 0, []),
     (''unspecified'', 0, [])]"

text \<open>The number and the text; \<open>None\<close>: false, and both stay as they were.\<close>

definition FileSeverity_Parse :: "string option \<Rightarrow> (nat \<times> string) option" where
  "FileSeverity_Parse pszName = (case pszName of None \<Rightarrow> None
     | Some name \<Rightarrow> map_option snd (find (\<lambda>(n, _). equal_nocase (c_str name) n) Levels))"

text \<open>The severity of the lines of a file is one of the numbers of OpenTelemetry, with its text; no severity has the
  number 0 and no text. The case of the name does not matter.\<close>

theorem FileSeverity_Parse_valid:
  "FileSeverity_Parse (Some name) \<in> {None} \<union> Some ` {(0, []), (1, ''TRACE''), (5, ''DEBUG''), (9, ''INFO''), (13, ''WARN''), (17, ''ERROR''),
     (21, ''FATAL'')} \<and> FileSeverity_Parse (Some (map to_lower (c_str name))) = FileSeverity_Parse (Some name)"
proof -
  have id: "to_lower (to_lower c) = to_lower c" for c
    by (auto simp: to_lower_def of_char_of)
  have z: "to_lower c = CHR 0x00 \<longleftrightarrow> c = CHR 0x00" for c
  proof
    assume "to_lower c = CHR 0x00"
    then have "(of_char (to_lower c) :: nat) = 0"
      by simp
    then show "c = CHR 0x00"
      by (auto simp: to_lower_def of_char_of split: if_splits intro: of_char_eq_iff [where ?'a = nat, THEN iffD1])
  qed (simp add: to_lower_def)
  have "c_str (map to_lower (c_str name)) = map to_lower (c_str name)"
    unfolding c_str_def by (induction name) (auto simp: z)
  then have "FileSeverity_Parse (Some (map to_lower (c_str name))) = FileSeverity_Parse (Some name)"
    by (simp add: FileSeverity_Parse_def equal_nocase_def id comp_def)
  moreover have "FileSeverity_Parse (Some name) \<in> {None} \<union> Some ` {(0, []), (1, ''TRACE''), (5, ''DEBUG''), (9, ''INFO''), (13, ''WARN''), (17, ''ERROR''),
     (21, ''FATAL'')}"
    by (simp add: FileSeverity_Parse_def Levels_def)
  ultimately show ?thesis
    by simp
qed

section \<open>The slot for the position\<close>

record slot =
  s_bPending :: bool
  s_Generation :: nat
  s_EndOffset :: nat

definition FileCommitSlot :: slot where
  "FileCommitSlot = \<lparr>s_bPending = False, s_Generation = 0, s_EndOffset = 0\<rparr>"

definition Slot_Add :: "nat \<Rightarrow> nat \<Rightarrow> slot \<Rightarrow> slot" where
  "Slot_Add Gen End s =
     (if Gen > s_Generation s \<or> (Gen = s_Generation s \<and> End > s_EndOffset s)
      then s\<lparr>s_Generation := Gen, s_EndOffset := End, s_bPending := True\<rparr> else s)"

definition Slot_Take :: "slot \<Rightarrow> (nat \<times> nat) option \<times> slot" where
  "Slot_Take s = (if \<not> s_bPending s then (None, s) else (Some (s_Generation s, s_EndOffset s), s\<lparr>s_bPending := False\<rparr>))"

text \<open>The two threads in any order: what the calls of \<open>Take\<close> return, with the positions which were added before.\<close>

datatype slot_op = OpAdd nat nat | OpTake

fun slot_run :: "slot_op list \<Rightarrow> slot \<Rightarrow> (nat \<times> nat) list" where
  "slot_run [] s = []"
| "slot_run (OpAdd g e # xs) s = slot_run xs (Slot_Add g e s)"
| "slot_run (OpTake # xs) s = (case Slot_Take s of (None, t) \<Rightarrow> slot_run xs t | (Some p, t) \<Rightarrow> p # slot_run xs t)"

definition position :: "slot \<Rightarrow> nat \<times> nat" where
  "position s = (s_Generation s, s_EndOffset s)"

text \<open>The reference: positions are compared by the generation first, and \<open>Take\<close> returns the largest of those which were
  added, if it is larger than what was taken before.\<close>

fun slot_spec :: "slot_op list \<Rightarrow> nat \<times> nat \<Rightarrow> nat \<times> nat \<Rightarrow> (nat \<times> nat) list" where
  "slot_spec [] best taken = []"
| "slot_spec (OpAdd g e # xs) best taken = slot_spec xs (max best (g, e)) taken"
| "slot_spec (OpTake # xs) best taken = (if best > taken then best # slot_spec xs best best else slot_spec xs best taken)"

lemma Slot_Add_position:
  "position (Slot_Add g e s) = max (position s) (g, e) \<and> (s_bPending (Slot_Add g e s) \<longleftrightarrow> s_bPending s \<or> (g, e) > position s)"
  by (auto simp: Slot_Add_def position_def max_def less_prod_def less_eq_prod_def)

lemma slot_run_spec:
  assumes "taken \<le> position s" and "s_bPending s \<longleftrightarrow> taken < position s"
  shows "slot_run xs s = slot_spec xs (position s) taken"
  using assms
proof (induction xs s arbitrary: taken rule: slot_run.induct)
  case (1 s)
  then show ?case by simp
next
  case (2 g e xs s)
  have "taken \<le> position (Slot_Add g e s)"
    using 2(2) Slot_Add_position [of g e s] by (simp add: max.coboundedI1)
  moreover have "s_bPending (Slot_Add g e s) \<longleftrightarrow> taken < position (Slot_Add g e s)"
    using 2(2,3) Slot_Add_position [of g e s] by (auto simp: less_max_iff_disj)
  ultimately show ?case
    using 2(1) Slot_Add_position [of g e s] by simp
next
  case (3 xs s)
  have p: "position (s\<lparr>s_bPending := False\<rparr>) = position s"
    by (simp add: position_def)
  show ?case
  proof (cases "s_bPending s")
    case True
    then show ?thesis
      using 3(2) [of "Some (position s)" "s\<lparr>s_bPending := False\<rparr>" "position s" "position s"] 3(4) p
      by (simp add: Slot_Take_def position_def)
  next
    case False
    then show ?thesis
      using 3(1) [of "None" s taken] 3(3,4) by (simp add: Slot_Take_def)
  qed
qed

lemma slot_spec_sorted:
  "taken \<le> best \<Longrightarrow> sorted_wrt (<) (slot_spec xs best taken) \<and> (\<forall>p \<in> set (slot_spec xs best taken). taken < p)"
proof (induction xs best taken rule: slot_spec.induct)
  case (2 g e xs best taken)
  then show ?case
    by (simp add: max.coboundedI1)
next
  case (3 xs best taken)
  show ?case
  proof (cases "taken < best")
    case True
    with 3(1) show ?thesis
      by (auto intro: less_trans)
  next
    case False
    with 3 show ?thesis
      by simp
  qed
qed simp

text \<open>C12. The position which the file thread commits never goes back: in any interleaving of the two threads \<open>Take\<close>
  returns the largest position which was added so far (the generation counts first), once, so what it returns grows
  strictly.\<close>

theorem commit_positions_grow:
  "slot_run xs FileCommitSlot = slot_spec xs (0, 0) (0, 0) \<and> sorted_wrt (<) (slot_run xs FileCommitSlot)"
proof -
  have "slot_run xs FileCommitSlot = slot_spec xs (0, 0) (0, 0)"
    using slot_run_spec [of "(0, 0)" FileCommitSlot xs] by (simp add: FileCommitSlot_def position_def)
  then show ?thesis
    using slot_spec_sorted [of "(0, 0)" "(0, 0)" xs] by simp
qed

section \<open>The name of the state file\<close>

definition hex_digit :: "nat \<Rightarrow> char" where
  "hex_digit d = (if d < 10 then char_of (48 + d) else char_of (87 + d))"

text \<open>\<^verbatim>\<open>%08x\<close> of 32 bits.\<close>

definition hex8 :: "nat \<Rightarrow> string" where
  "hex8 n = map (\<lambda>i. hex_digit (n div 16 ^ i mod 16)) [7, 6, 5, 4, 3, 2, 1, 0]"

abbreviation MAX_NAME_LENGTH :: nat where "MAX_NAME_LENGTH \<equiv> 100"

definition valid_name_char :: "char \<Rightarrow> bool" where
  "valid_name_char c = (let n = (of_char c :: nat) in
     (48 \<le> n \<and> n \<le> 57) \<or> (97 \<le> n \<and> n \<le> 122) \<or> (65 \<le> n \<and> n \<le> 90) \<or> c = CHR ''.'' \<or> c = CHR ''-'' \<or> c = CHR ''_'')"

definition BaseName :: "string \<Rightarrow> string" where
  "BaseName FilePath =
     (let Name = (case find_last (CHR ''/'') FilePath of None \<Rightarrow> FilePath | Some i \<Rightarrow> drop (i + 1) FilePath);
          Name' = map (\<lambda>c. if valid_name_char c then c else CHR ''_'') (take MAX_NAME_LENGTH Name)
      in if Name' = [] then ''file'' else Name')"

text \<open>The hash is the one of the file reader.\<close>

definition FileStateName_Hash :: "string \<Rightarrow> 64 word" where
  "FileStateName_Hash s = HashBytes s"

definition FileStateName_Make :: "string \<Rightarrow> string \<Rightarrow> string" where
  "FileStateName_Make Directory FilePath =
     (if Directory = [] then FilePath @ ''.otelfwd-state''
      else Directory @ (if last Directory \<noteq> CHR ''/'' then ''/'' else []) @ BaseName FilePath @ ''.'' @
           hex8 (unat (FileStateName_Hash FilePath) mod 2 ^ 32) @ ''.otelfwd-state'')"

lemma BaseName_valid: "list_all valid_name_char (BaseName p) \<and> BaseName p \<noteq> [] \<and> length (BaseName p) \<le> MAX_NAME_LENGTH"
proof -
  have "list_all valid_name_char (map (\<lambda>c. if valid_name_char c then c else CHR ''_'') xs)" for xs
    by (induction xs) (simp_all add: valid_name_char_def)
  then show ?thesis
    by (simp add: BaseName_def Let_def valid_name_char_def)
qed

lemma hex8_valid: "list_all valid_name_char (hex8 n) \<and> length (hex8 n) = 8"
proof -
  have "valid_name_char (hex_digit (m mod 16))" for m
  proof -
    have "m mod 16 < 16"
      by simp
    then show ?thesis
      by (auto simp: hex_digit_def valid_name_char_def of_char_of Let_def)
  qed
  then show ?thesis
    by (simp add: hex8_def)
qed

text \<open>In a directory the state file is a file of this directory, whatever the path of the log file is: behind the
  directory and one slash only letters, digits, dots, dashes and underscores follow (never a slash), at most 123
  characters, and the name is not that of a hidden or temporary file of the program (it ends in .otelfwd-state).\<close>

theorem state_file_stays_in_directory:
  assumes "Directory \<noteq> []"
  shows "\<exists>name. FileStateName_Make Directory FilePath = Directory @ (if last Directory \<noteq> CHR ''/'' then ''/'' else []) @ name @ ''.otelfwd-state'' \<and>
    list_all valid_name_char (name @ ''.otelfwd-state'') \<and> \<not> valid_name_char (CHR ''/'') \<and> length (name @ ''.otelfwd-state'') \<le> 123"
proof -
  let ?name = "BaseName FilePath @ ''.'' @ hex8 (unat (FileStateName_Hash FilePath) mod 2 ^ 32)"
  have "FileStateName_Make Directory FilePath = Directory @ (if last Directory \<noteq> CHR ''/'' then ''/'' else []) @ ?name @ ''.otelfwd-state''"
    using assms by (simp add: FileStateName_Make_def)
  moreover have "list_all valid_name_char (?name @ ''.otelfwd-state'')"
    using BaseName_valid hex8_valid by (simp add: valid_name_char_def)
  moreover have "length (?name @ ''.otelfwd-state'') \<le> 123"
    using BaseName_valid [of FilePath] hex8_valid [of "unat (FileStateName_Hash FilePath) mod 2 ^ 32"] by simp
  moreover have "\<not> valid_name_char (CHR ''/'')"
    by (simp add: valid_name_char_def)
  ultimately show ?thesis
    by blast
qed

theorem state_file_stays_in_directory_witness:
  "\<exists>name. FileStateName_Make ''/var/lib'' ''/var/log/a b'' = ''/var/lib'' @ (if last ''/var/lib'' \<noteq> CHR ''/'' then ''/'' else []) @ name @ ''.otelfwd-state'' \<and>
    list_all valid_name_char (name @ ''.otelfwd-state'') \<and> \<not> valid_name_char (CHR ''/'') \<and> length (name @ ''.otelfwd-state'') \<le> 123"
  by (rule state_file_stays_in_directory) simp

end
