(* ===== verification/Health.thy ===== *)
theory Health imports Prelude begin

text \<open>
  \<^verbatim>\<open>HealthMonitor\<close> (\<^verbatim>\<open>health.hpp\<close>): the health state for alerting. The fill of the WAL is a comparison of \<^verbatim>\<open>double\<close>
  numbers in the code; it is one of whole numbers here, which is the same for sizes below 2 to the 46 (64 TB). Times are
  \<^verbatim>\<open>time_t\<close>, 0 is used for "none" by the code.
\<close>

datatype health = OK | WARNING | ERROR

text \<open>\<^verbatim>\<open>HEALTH_OK\<close> 0, \<^verbatim>\<open>HEALTH_WARNING\<close> 1, \<^verbatim>\<open>HEALTH_ERROR\<close> 2: the order is the one of the numbers.\<close>

fun health_number :: "health \<Rightarrow> nat" where
  "health_number OK = 0" | "health_number WARNING = 1" | "health_number ERROR = 2"

instantiation health :: linorder
begin
definition less_eq_health :: "health \<Rightarrow> health \<Rightarrow> bool" where
  "less_eq_health a b = (health_number a \<le> health_number b)"
definition less_health :: "health \<Rightarrow> health \<Rightarrow> bool" where
  "less_health a b = (health_number a < health_number b)"
instance
proof
  fix x y :: health
  show "x \<le> y \<Longrightarrow> y \<le> x \<Longrightarrow> x = y"
    by (cases x; cases y) (simp_all add: less_eq_health_def)
qed (auto simp: less_eq_health_def less_health_def)
end

record HealthInput =
  bUnreachable :: bool
  bWalFailed :: bool
  WalBytes :: nat
  WalMaxBytes :: nat
  Dropped :: nat
  Rejected :: nat

record HealthMonitor =
  h_State :: health
  h_tUnreachableSince :: int
  h_tLastDropped :: int
  h_tLastRejected :: int
  h_LastDropped :: nat
  h_LastRejected :: nat
  h_Log :: "string list"

definition new_HealthMonitor :: HealthMonitor where
  "new_HealthMonitor = \<lparr>h_State = OK, h_tUnreachableSince = 0, h_tLastDropped = 0, h_tLastRejected = 0, h_LastDropped = 0,
     h_LastRejected = 0, h_Log = []\<rparr>"

abbreviation WARN_DOWN_SEC :: int where "WARN_DOWN_SEC \<equiv> 15 * 60"
abbreviation ERROR_DOWN_SEC :: int where "ERROR_DOWN_SEC \<equiv> 30 * 60"
abbreviation LOST_WINDOW_SEC :: int where "LOST_WINDOW_SEC \<equiv> 10 * 60"

definition Raise :: "health \<Rightarrow> string \<Rightarrow> health \<times> string \<Rightarrow> health \<times> string" where
  "Raise NewState reason sr = (if NewState > fst sr then (NewState, reason) else sr)"

fun Health_GetName :: "health \<Rightarrow> string" where
  "Health_GetName ERROR = ''ERROR''" | "Health_GetName WARNING = ''WARNING''" | "Health_GetName OK = ''OK''"

text \<open>The state and the reason of the times and the input; then \<open>Update\<close>. \<open>log\<close>: there is a log function.\<close>

definition Health_rules :: "int \<Rightarrow> HealthInput \<Rightarrow> HealthMonitor \<Rightarrow> health \<times> string" where
  "Health_rules tNow inp h =
     (let s0 = (OK, []);
          s1 = (if bWalFailed inp then Raise ERROR ''the WAL could not be opened, nothing is kept while the receiver is not reachable'' s0 else s0);
          s2 = (if h_tLastDropped h \<noteq> 0 \<and> tNow - h_tLastDropped h \<le> LOST_WINDOW_SEC then Raise ERROR ''data was dropped in the last 10 minutes'' s1 else s1);
          s3 = (if h_tLastRejected h \<noteq> 0 \<and> tNow - h_tLastRejected h \<le> LOST_WINDOW_SEC then Raise WARNING ''data was rejected in the last 10 minutes'' s2 else s2);
          s4 = (if h_tUnreachableSince h \<noteq> 0 then
                  (if tNow - h_tUnreachableSince h > ERROR_DOWN_SEC then Raise ERROR ''the receiver is not reachable for more than 30 minutes'' s3
                   else if tNow - h_tUnreachableSince h > WARN_DOWN_SEC then Raise WARNING ''the receiver is not reachable for more than 15 minutes'' s3
                   else s3)
                else s3)
      in if WalMaxBytes inp > 0 then
           (if 100 * WalBytes inp \<ge> 50 * WalMaxBytes inp then Raise ERROR ''the WAL is more than half full'' s4
            else if 100 * WalBytes inp \<ge> 25 * WalMaxBytes inp then Raise WARNING ''the WAL is more than a quarter full'' s4
            else s4)
         else s4)"

definition Update :: "bool \<Rightarrow> int \<Rightarrow> HealthInput \<Rightarrow> HealthMonitor \<Rightarrow> health \<times> HealthMonitor" where
  "Update log tNow inp h =
     (let h1 = (if bUnreachable inp then (if h_tUnreachableSince h = 0 then h\<lparr>h_tUnreachableSince := tNow\<rparr> else h)
                else h\<lparr>h_tUnreachableSince := 0\<rparr>);
          h2 = (if Dropped inp > h_LastDropped h1 then h1\<lparr>h_tLastDropped := tNow\<rparr> else h1);
          h3 = (if Rejected inp > h_LastRejected h2 then h2\<lparr>h_tLastRejected := tNow\<rparr> else h2);
          h4 = h3\<lparr>h_LastDropped := Dropped inp, h_LastRejected := Rejected inp\<rparr>
      in case Health_rules tNow inp h4 of (State, Reason) \<Rightarrow>
           let h5 = (if State \<noteq> h_State h4 \<and> log
                     then h4\<lparr>h_Log := h_Log h4 @ [''Health: '' @ Health_GetName State @ (if Reason \<noteq> [] then '' ('' @ Reason @ '')'' else [])]\<rparr>
                     else h4)
           in (State, h5\<lparr>h_State := State\<rparr>))"

section \<open>The rules over the history\<close>

fun Updates :: "bool \<Rightarrow> (int \<times> HealthInput) list \<Rightarrow> HealthMonitor \<Rightarrow> HealthMonitor" where
  "Updates log [] h = h"
| "Updates log ((t, inp) # us) h = Updates log us (snd (Update log t inp h))"

text \<open>The reference reads the whole history of the updates (the newest first): since when the receiver is not reachable
  without a break, and when a counter grew the last time.\<close>

fun down_since :: "(int \<times> HealthInput) list \<Rightarrow> int option" where
  "down_since [] = None"
| "down_since ((t, inp) # us) = (if bUnreachable inp then (case down_since us of None \<Rightarrow> Some t | Some t0 \<Rightarrow> Some t0) else None)"

fun grew_at :: "(HealthInput \<Rightarrow> nat) \<Rightarrow> (int \<times> HealthInput) list \<Rightarrow> int option" where
  "grew_at f [] = None"
| "grew_at f ((t, inp) # us) = (if f inp > (case us of [] \<Rightarrow> 0 | (_, old) # _ \<Rightarrow> f old) then Some t else grew_at f us)"

definition within :: "int \<Rightarrow> int option \<Rightarrow> bool" where
  "within now t = (case t of None \<Rightarrow> False | Some t0 \<Rightarrow> now - t0 \<le> LOST_WINDOW_SEC)"

definition down_for :: "int \<Rightarrow> int \<Rightarrow> int option \<Rightarrow> bool" where
  "down_for limit now t = (case t of None \<Rightarrow> False | Some t0 \<Rightarrow> now - t0 > limit)"

definition health_spec :: "(int \<times> HealthInput) list \<Rightarrow> health" where
  "health_spec hist = (case hist of [] \<Rightarrow> OK | (now, inp) # _ \<Rightarrow>
     if bWalFailed inp \<or> within now (grew_at Dropped hist) \<or> down_for ERROR_DOWN_SEC now (down_since hist) \<or>
        (WalMaxBytes inp > 0 \<and> 2 * WalBytes inp \<ge> WalMaxBytes inp) then ERROR
     else if within now (grew_at Rejected hist) \<or> down_for WARN_DOWN_SEC now (down_since hist) \<or>
        (WalMaxBytes inp > 0 \<and> 4 * WalBytes inp \<ge> WalMaxBytes inp) then WARNING
     else OK)"

definition time_of :: "int option \<Rightarrow> int" where
  "time_of t = (case t of None \<Rightarrow> 0 | Some t0 \<Rightarrow> t0)"

definition follows_history :: "(int \<times> HealthInput) list \<Rightarrow> HealthMonitor \<Rightarrow> bool" where
  "follows_history hist h \<longleftrightarrow> h_State h = health_spec hist \<and> h_tUnreachableSince h = time_of (down_since hist) \<and>
     h_tLastDropped h = time_of (grew_at Dropped hist) \<and> h_tLastRejected h = time_of (grew_at Rejected hist) \<and>
     h_LastDropped h = (case hist of [] \<Rightarrow> 0 | (_, inp) # _ \<Rightarrow> Dropped inp) \<and>
     h_LastRejected h = (case hist of [] \<Rightarrow> 0 | (_, inp) # _ \<Rightarrow> Rejected inp)"

lemma Raise_fst: "fst (Raise st r sr) = max (fst sr) st"
  by (auto simp: Raise_def max_def)

lemma max_health [simp]: "max OK x = x" "max x OK = x" "max ERROR x = ERROR" "max x ERROR = ERROR" "max WARNING WARNING = WARNING"
  by (cases x; simp add: max_def less_eq_health_def)+

lemma Raise_if:
  "fst (if c then Raise st r sr else sr) = max (fst sr) (if c then st else OK)"
  "fst (if c then (if d then Raise st r sr else if e then Raise st' r' sr else sr) else sr) =
     max (fst sr) (if c then (if d then st else if e then st' else OK) else OK)"
  by (simp_all add: Raise_fst)

lemma health_max:
  "max (max (max (max (if a then ERROR else OK) (if b then ERROR else OK)) (if c then WARNING else OK))
      (if d then (if e then ERROR else if f then WARNING else OK) else OK)) (if g then (if i then ERROR else if j then WARNING else OK) else OK) =
   (if a \<or> b \<or> d \<and> e \<or> g \<and> i then ERROR else if c \<or> d \<and> f \<or> g \<and> j then WARNING else OK)"
  by (cases a; cases b; cases c; cases d; cases e; cases f; simp; cases g; cases i; cases j; simp)

lemma rules_fst: "fst (Health_rules tNow inp h) =
    (if bWalFailed inp \<or> (h_tLastDropped h \<noteq> 0 \<and> tNow - h_tLastDropped h \<le> LOST_WINDOW_SEC) \<or>
        (h_tUnreachableSince h \<noteq> 0 \<and> tNow - h_tUnreachableSince h > ERROR_DOWN_SEC) \<or>
        (WalMaxBytes inp > 0 \<and> 2 * WalBytes inp \<ge> WalMaxBytes inp) then ERROR
     else if (h_tLastRejected h \<noteq> 0 \<and> tNow - h_tLastRejected h \<le> LOST_WINDOW_SEC) \<or>
        (h_tUnreachableSince h \<noteq> 0 \<and> tNow - h_tUnreachableSince h > WARN_DOWN_SEC) \<or>
        (WalMaxBytes inp > 0 \<and> 4 * WalBytes inp \<ge> WalMaxBytes inp) then WARNING
     else OK)"
proof -
  have "(100 * WalBytes inp \<ge> 50 * WalMaxBytes inp) = (2 * WalBytes inp \<ge> WalMaxBytes inp)"
    "(100 * WalBytes inp \<ge> 25 * WalMaxBytes inp) = (4 * WalBytes inp \<ge> WalMaxBytes inp)"
    by linarith+
  then show ?thesis
    unfolding Health_rules_def Let_def Raise_if fst_conv max_health health_max by simp
qed

lemma time_of_positive:
  "\<forall>(t, inp) \<in> set hist. t > 0 \<Longrightarrow> down_since hist = Some t0 \<Longrightarrow> t0 > 0"
  "\<forall>(t, inp) \<in> set hist. t > 0 \<Longrightarrow> grew_at f hist = Some t0 \<Longrightarrow> t0 > 0"
  by (induction hist) (auto split: if_splits option.splits)

text \<open>One update: the times are set first, then the rules decide.\<close>

definition set_times :: "int \<Rightarrow> HealthInput \<Rightarrow> HealthMonitor \<Rightarrow> HealthMonitor" where
  "set_times tNow inp h = h\<lparr>
     h_tUnreachableSince := (if bUnreachable inp then (if h_tUnreachableSince h = 0 then tNow else h_tUnreachableSince h) else 0),
     h_tLastDropped := (if Dropped inp > h_LastDropped h then tNow else h_tLastDropped h),
     h_tLastRejected := (if Rejected inp > h_LastRejected h then tNow else h_tLastRejected h),
     h_LastDropped := Dropped inp, h_LastRejected := Rejected inp\<rparr>"

lemma Update_cases:
  "Update log tNow inp h = (let State = fst (Health_rules tNow inp (set_times tNow inp h)) in
     (State, (set_times tNow inp h)\<lparr>h_State := State, h_Log := h_Log h @
        (if State \<noteq> h_State h \<and> log then [''Health: '' @ Health_GetName State @
           (if snd (Health_rules tNow inp (set_times tNow inp h)) \<noteq> [] then '' ('' @ snd (Health_rules tNow inp (set_times tNow inp h)) @ '')'' else [])]
         else [])\<rparr>))"
proof -
  define h1 where "h1 = (if bUnreachable inp then (if h_tUnreachableSince h = 0 then h\<lparr>h_tUnreachableSince := tNow\<rparr> else h)
                else h\<lparr>h_tUnreachableSince := 0\<rparr>)"
  define h2 where "h2 = (if Dropped inp > h_LastDropped h1 then h1\<lparr>h_tLastDropped := tNow\<rparr> else h1)"
  define h3 where "h3 = (if Rejected inp > h_LastRejected h2 then h2\<lparr>h_tLastRejected := tNow\<rparr> else h2)"
  have t: "h3\<lparr>h_LastDropped := Dropped inp, h_LastRejected := Rejected inp\<rparr> = set_times tNow inp h"
    by (simp add: h3_def h2_def h1_def set_times_def)
  obtain st r where sr: "Health_rules tNow inp (set_times tNow inp h) = (st, r)" by force
  have k: "h_State (set_times tNow inp h) = h_State h" "h_Log (set_times tNow inp h) = h_Log h"
    by (simp_all add: set_times_def)
  show ?thesis
    unfolding Update_def Let_def h1_def [symmetric] h2_def [symmetric] h3_def [symmetric] t sr prod.case fst_conv snd_conv k
    by (simp add: set_times_def)
qed

lemma Update_follows:
  assumes f: "follows_history hist h" and pos: "\<forall>(t, i) \<in> set hist. t > 0" and now: "tNow > 0"
  shows "follows_history ((tNow, inp) # hist) (snd (Update log tNow inp h))"
proof -
  let ?hist = "(tNow, inp) # hist"
  have z: "time_of (down_since hist) = 0 \<longleftrightarrow> down_since hist = None"
    using time_of_positive(1) [OF pos] by (cases "down_since hist") (auto simp: time_of_def)
  have u: "h_tUnreachableSince (set_times tNow inp h) = time_of (down_since ?hist)"
    using f z by (cases "down_since hist") (auto simp: set_times_def follows_history_def time_of_def)
  have d: "h_tLastDropped (set_times tNow inp h) = time_of (grew_at Dropped ?hist)"
    using f by (auto simp: set_times_def follows_history_def time_of_def split: list.splits)
  have r: "h_tLastRejected (set_times tNow inp h) = time_of (grew_at Rejected ?hist)"
    using f by (auto simp: set_times_def follows_history_def time_of_def split: list.splits)
  have pos': "\<forall>(t, i) \<in> set ?hist. t > 0"
    using pos now by auto
  have w: "(time_of (grew_at g ?hist) \<noteq> 0 \<and> tNow - time_of (grew_at g ?hist) \<le> LOST_WINDOW_SEC) = within tNow (grew_at g ?hist)" for g
    using time_of_positive(2) [OF pos', of g] by (cases "grew_at g ?hist") (auto simp: within_def time_of_def)
  have dn: "(time_of (down_since ?hist) \<noteq> 0 \<and> tNow - time_of (down_since ?hist) > limit) = down_for limit tNow (down_since ?hist)" for limit
    using time_of_positive(1) [OF pos'] by (cases "down_since ?hist") (auto simp: down_for_def time_of_def)
  have "fst (Health_rules tNow inp (set_times tNow inp h)) = health_spec ?hist"
    unfolding rules_fst u d r w dn by (simp add: health_spec_def)
  then show ?thesis
    using u d r by (simp add: Update_cases Let_def follows_history_def) (simp add: set_times_def)
qed

lemma Updates_follows:
  assumes "follows_history hist h" and "\<forall>(t, i) \<in> set hist. t > 0" and "\<forall>(t, i) \<in> set us. t > 0"
  shows "follows_history (rev us @ hist) (Updates log us h)"
  using assms
proof (induction us arbitrary: hist h)
  case (Cons u us)
  obtain t inp where u: "u = (t, inp)" by force
  have "follows_history ((t, inp) # hist) (snd (Update log t inp h))"
    using Update_follows [OF Cons.prems(1,2)] Cons.prems(3) u by simp
  then show ?case
    using Cons.IH [of "(t, inp) # hist" "snd (Update log t inp h)"] Cons.prems u by simp
qed simp

lemma new_follows: "follows_history [] new_HealthMonitor"
  by (simp add: follows_history_def new_HealthMonitor_def health_spec_def time_of_def)

text \<open>C13. The health state is the worst of the rules of the header file, read over the whole history of the updates: the
  time without the receiver counts from the first update of this outage, lost and rejected data from the last update
  in which a counter grew. A line is logged exactly when the state changes.\<close>

theorem health_is_worst_rule:
  assumes "\<forall>(t, i) \<in> set us. t > 0" and "tNow > 0"
  shows "fst (Update log tNow inp (Updates log us new_HealthMonitor)) = health_spec ((tNow, inp) # rev us) \<and>
    (h_Log (snd (Update log tNow inp (Updates log us new_HealthMonitor))) \<noteq> h_Log (Updates log us new_HealthMonitor) \<longleftrightarrow>
       log \<and> health_spec ((tNow, inp) # rev us) \<noteq> health_spec (rev us))"
proof -
  let ?h = "Updates log us new_HealthMonitor"
  have f: "follows_history (rev us) ?h"
    using Updates_follows [OF new_follows _ assms(1)] by simp
  have pos: "\<forall>(t, i) \<in> set (rev us). t > 0"
    using assms(1) by simp
  have s: "fst (Update log tNow inp ?h) = health_spec ((tNow, inp) # rev us)"
    using Update_follows [OF f pos assms(2), of inp log] by (simp add: follows_history_def Update_cases Let_def)
  moreover have "h_State ?h = health_spec (rev us)"
    using f by (simp add: follows_history_def)
  ultimately show ?thesis
    by (auto simp: Update_cases Let_def)
qed

theorem health_is_worst_rule_witness:
  "fst (Update True 2000 \<lparr>bUnreachable = True, bWalFailed = False, WalBytes = 0, WalMaxBytes = 0, Dropped = 0, Rejected = 0\<rparr>
      (Updates True [(100, \<lparr>bUnreachable = True, bWalFailed = False, WalBytes = 0, WalMaxBytes = 0, Dropped = 0, Rejected = 0\<rparr>)] new_HealthMonitor)) = ERROR"
proof -
  let ?i = "\<lparr>bUnreachable = True, bWalFailed = False, WalBytes = 0, WalMaxBytes = 0, Dropped = 0, Rejected = 0\<rparr>"
  have "health_spec ((2000, ?i) # rev [(100, ?i)]) = ERROR"
    by (simp add: health_spec_def down_for_def)
  with health_is_worst_rule [of "[(100, ?i)]" 2000 True ?i] show ?thesis
    by simp
qed

end
