(* ===== verification/PromLabel.thy ===== *)
theory PromLabel imports Prelude begin

text \<open>
  The instance label of the metrics (\<^verbatim>\<open>prom_label.hpp\<close>): escaping, adding and removing one label in the name of a metric.
  \<^verbatim>\<open>std::string::find\<close> of a text is \<open>find_from\<close>.
\<close>

abbreviation QUOTE :: char where "QUOTE \<equiv> CHR 0x22"
abbreviation BACKSLASH :: char where "BACKSLASH \<equiv> CHR 0x5C"

definition PromEscapeLabelValue :: "string \<Rightarrow> string" where
  "PromEscapeLabelValue Value = concat (map (\<lambda>c.
     if c = BACKSLASH then [BACKSLASH, BACKSLASH] else if c = QUOTE then [BACKSLASH, QUOTE]
     else if c = CHR 0x0A then BACKSLASH # ''n'' else [c]) Value)"

definition PromAddLabel :: "string \<Rightarrow> string \<Rightarrow> string \<Rightarrow> string" where
  "PromAddLabel Name Label Value =
     (if Label = [] \<or> Value = [] then Name
      else
        let NewLabel = Label @ ''='' @ [QUOTE] @ PromEscapeLabelValue Value @ [QUOTE]
        in case find_index CHR ''{'' Name of
             None \<Rightarrow> Name @ ''{'' @ NewLabel @ ''}''
           | Some Brace \<Rightarrow>
               let Base = take Brace Name; Rest = drop (Brace + 1) Name
               in if Rest = [] then Base @ ''{'' @ NewLabel @ ''}''
                  else if hd Rest = CHR ''}'' then Base @ ''{'' @ NewLabel @ Rest
                  else Base @ ''{'' @ NewLabel @ '','' @ Rest)"

text \<open>The first index from \<open>start\<close> on where the text \<open>p\<close> begins.\<close>

function find_from :: "string \<Rightarrow> nat \<Rightarrow> string \<Rightarrow> nat option" where
  "find_from p start s =
     (if start > length s then None
      else if take (length p) (drop start s) = p then Some start
      else find_from p (start + 1) s)"
  by pat_completeness auto
termination
  by (relation "measure (\<lambda>(p, start, s). Suc (length s) - start)") auto

declare find_from.simps [simp del]

text \<open>The loop to the closing quote of the value.\<close>

function value_end :: "string \<Rightarrow> nat \<Rightarrow> nat" where
  "value_end Name i =
     (if i < length Name \<and> Name ! i \<noteq> QUOTE then value_end Name ((if Name ! i = BACKSLASH then i + 1 else i) + 1) else i)"
  by pat_completeness auto
termination
  by (relation "measure (\<lambda>(n, i). length n - i)") auto

declare value_end.simps [simp del]

definition PromRemoveLabel :: "string \<Rightarrow> string \<Rightarrow> string" where
  "PromRemoveLabel Name Label =
     (case find_index CHR ''{'' Name of
        None \<Rightarrow> Name
      | Some Brace \<Rightarrow>
          if Label = [] then Name
          else
            let Prefix = Label @ ''='' @ [QUOTE]
            in case find_from Prefix (Brace + 1) Name of
                 None \<Rightarrow> Name
               | Some Start \<Rightarrow>
                   let Before = Name ! (Start - 1)
                   in if Before \<noteq> CHR ''{'' \<and> Before \<noteq> CHR '','' then Name
                      else
                        let i = value_end Name (Start + length Prefix)
                        in if i \<ge> length Name then Name
                           else
                             let End = i + 1
                             in if End < length Name \<and> Name ! End = CHR '','' then take Start Name @ drop (End + 1) Name
                                else if Before = CHR '','' then take (Start - 1) Name @ drop End Name
                                else if End < length Name \<and> Name ! End = CHR ''}'' then take Brace Name @ drop (End + 1) Name
                                else take Start Name @ drop End Name)"

section \<open>Adding and removing\<close>

lemma value_end_escaped:
  "value_end (pre @ PromEscapeLabelValue v @ QUOTE # post) (length pre) = length pre + length (PromEscapeLabelValue v)"
proof (induction v arbitrary: pre)
  case Nil
  show ?case
    by (simp add: PromEscapeLabelValue_def value_end.simps [of _ "length pre"])
next
  case (Cons c v)
  let ?e = "\<lambda>c. if c = BACKSLASH then [BACKSLASH, BACKSLASH] else if c = QUOTE then [BACKSLASH, QUOTE]
     else if c = CHR 0x0A then BACKSLASH # ''n'' else [c]"
  have e: "PromEscapeLabelValue (c # v) = ?e c @ PromEscapeLabelValue v"
    by (simp add: PromEscapeLabelValue_def)
  have "value_end (pre @ PromEscapeLabelValue (c # v) @ QUOTE # post) (length pre) =
      value_end ((pre @ ?e c) @ PromEscapeLabelValue v @ QUOTE # post) (length (pre @ ?e c))"
    unfolding e by (simp add: value_end.simps [of _ "length pre"] nth_append)
  with Cons.IH [of "pre @ ?e c"] show ?case
    unfolding e by simp
qed

lemma find_from_here: "find_from p (length b) (b @ p @ r) = Some (length b)"
  by (simp add: find_from.simps [of p "length b"])

lemma behind:
  assumes "length xs = n"
  shows "drop n (xs @ r # rs) = r # rs" "drop (n + 1) (xs @ r # rs) = rs" "(xs @ r # rs) ! n = r" "n < length (xs @ r # rs)"
  using assms by (auto simp: nth_append)

text \<open>What \<open>PromRemoveLabel\<close> does to a label which is the first one.\<close>

lemma remove_first_label:
  assumes b: "CHR ''{'' \<notin> set Base" and l: "Label \<noteq> []" and rest: "rest \<noteq> []"
  shows "PromRemoveLabel (Base @ ''{'' @ (Label @ ''='' @ [QUOTE] @ PromEscapeLabelValue v @ [QUOTE]) @ rest) Label =
    (if hd rest = CHR '','' then Base @ ''{'' @ tl rest else if hd rest = CHR ''}'' then Base @ tl rest else Base @ ''{'' @ rest)"
proof -
  let ?P = "Label @ ''='' @ [QUOTE]"
  let ?N = "Base @ ''{'' @ (Label @ ''='' @ [QUOTE] @ PromEscapeLabelValue v @ [QUOTE]) @ rest"
  have N: "?N = (Base @ ''{'') @ ?P @ (PromEscapeLabelValue v @ QUOTE # rest)"
    "?N = (Base @ ''{'' @ ?P) @ PromEscapeLabelValue v @ QUOTE # rest"
    by simp_all
  have br: "find_index CHR ''{'' ?N = Some (length Base)"
    using find_index_append [OF b] by simp
  have st: "find_from ?P (length Base + 1) ?N = Some (length Base + 1)"
    unfolding N(1) using find_from_here [of ?P "Base @ ''{''" "PromEscapeLabelValue v @ QUOTE # rest"] by simp
  have en: "value_end ?N (length Base + 1 + length ?P) = length Base + 1 + length ?P + length (PromEscapeLabelValue v)"
    unfolding N(2) using value_end_escaped [of "Base @ ''{'' @ ?P" v rest] by simp
  obtain r rs where r: "rest = r # rs"
    using rest by (cases rest) auto
  let ?k = "length Base + 1 + length ?P + length (PromEscapeLabelValue v)"
  let ?X = "Base @ ''{'' @ ?P @ PromEscapeLabelValue v @ [QUOTE]"
  define N where "N = ?X @ r # rs"
  define k where "k = ?k"
  have NN: "?N = N"
    by (simp add: N_def r)
  have bef: "?N ! (length Base + 1 - 1) = CHR ''{''"
    by (simp add: nth_append)
  have tk: "take (length Base + 1) ?N = Base @ ''{''" "take (length Base) ?N = Base"
    by simp_all
  have "length ?X = k + 1"
    by (simp add: k_def)
  note nx = behind [OF this, of r rs, folded N_def]
  note f = br st en bef tk
  have "PromRemoveLabel N Label = (if r = CHR '','' then Base @ ''{'' @ rs else if r = CHR ''}'' then Base @ rs else Base @ ''{'' @ rest)"
    using l nx f [unfolded NN, folded k_def] r by (simp add: PromRemoveLabel_def Let_def)
  then show ?thesis
    unfolding NN unfolding r by simp
qed

text \<open>A label which was added is removed again by its name, whatever the characters of the label and its value are
  (quotes, backslashes, braces, commas, new lines), for every name of a metric which has no braces or at least one label.\<close>

theorem remove_label_undoes_add:
  assumes "Label \<noteq> []" and "Value \<noteq> []"
    and "case find_index CHR ''{'' Name of None \<Rightarrow> True | Some i \<Rightarrow> drop (i + 1) Name \<noteq> [] \<and> hd (drop (i + 1) Name) \<noteq> CHR ''}''"
  shows "PromRemoveLabel (PromAddLabel Name Label Value) Label = Name"
proof (cases "find_index CHR ''{'' Name")
  case None
  then have "CHR ''{'' \<notin> set Name"
    by (simp add: find_index_None)
  from remove_first_label [OF this assms(1), of "''}''" Value] None assms(1,2) show ?thesis
    by (simp add: PromAddLabel_def)
next
  case (Some i)
  let ?B = "take i Name" and ?R = "drop (i + 1) Name"
  have b: "CHR ''{'' \<notin> set ?B"
    using find_index_Some_D [OF Some] by simp
  have n: "Name = ?B @ ''{'' @ ?R"
    using find_index_split [OF Some] by simp
  have "PromAddLabel Name Label Value =
      ?B @ ''{'' @ (Label @ ''='' @ [QUOTE] @ PromEscapeLabelValue Value @ [QUOTE]) @ '','' @ ?R"
    using Some assms by (simp add: PromAddLabel_def Let_def)
  with remove_first_label [OF b assms(1), of "'','' @ ?R" Value] n show ?thesis
    by simp
qed

theorem remove_label_undoes_add_witness:
  "PromRemoveLabel (PromAddLabel ''push_total{result=1}'' ''instance'' [CHR ''a'', QUOTE, BACKSLASH, CHR ''}'']) ''instance'' = ''push_total{result=1}''"
  by (rule remove_label_undoes_add) simp_all

text \<open>Removing looks only at the first place where the label name and its quote are found: if the name of an earlier
  label ends in the name of the label, the label stays, although it is there.\<close>

theorem remove_label_misses_after_longer_name:
  "PromRemoveLabel (''m{my_id='' @ [QUOTE] @ ''a'' @ [QUOTE] @ '',id='' @ [QUOTE] @ ''b'' @ [QUOTE] @ ''}'') ''id'' =
    ''m{my_id='' @ [QUOTE] @ ''a'' @ [QUOTE] @ '',id='' @ [QUOTE] @ ''b'' @ [QUOTE] @ ''}''"
  by (simp add: PromRemoveLabel_def find_from.simps Let_def)

end
