(* ===== verification/LogLine.thy ===== *)
theory LogLine imports Prelude begin

text \<open>
  The lines which otelfwd writes to its console (\<^verbatim>\<open>log_line.hpp\<close>). The civil time of a \<^verbatim>\<open>time_t\<close> (\<^verbatim>\<open>gmtime_r\<close>) is an
  argument: year, month, day, hour, minute and second, or \<open>None\<close> if it cannot be represented.
\<close>

type_synonym civil_time = "nat \<times> nat \<times> nat \<times> nat \<times> nat \<times> nat"

text \<open>A number with leading zeros, as \<^verbatim>\<open>%02d\<close>.\<close>

definition pad_dec :: "nat \<Rightarrow> nat \<Rightarrow> string" where
  "pad_dec w n = replicate (w - length (dec_text n)) CHR ''0'' @ dec_text n"

text \<open>\<^verbatim>\<open>%Y\<close> of \<^verbatim>\<open>strftime\<close> does not pad.\<close>

definition FormatLogTime :: "civil_time option \<Rightarrow> string" where
  "FormatLogTime Tm = (case Tm of None \<Rightarrow> ''0000-00-00T00:00:00Z''
     | Some (y, mo, d, h, mi, s) \<Rightarrow> dec_text y @ ''-'' @ pad_dec 2 mo @ ''-'' @ pad_dec 2 d @ ''T'' @ pad_dec 2 h @ '':'' @
         pad_dec 2 mi @ '':'' @ pad_dec 2 s @ ''Z'')"

definition opt_text :: "string option \<Rightarrow> string" where
  "opt_text p = (case p of None \<Rightarrow> [] | Some s \<Rightarrow> s)"

definition FormatLogLine :: "civil_time option \<Rightarrow> string option \<Rightarrow> string option \<Rightarrow> string option \<Rightarrow> string option \<Rightarrow> string" where
  "FormatLogLine Time pszPrefix pszLevel pszMessage pszText =
     FormatLogTime Time @ ''  '' @
     (if opt_text pszPrefix \<noteq> [] then opt_text pszPrefix @ '': '' else []) @
     (if opt_text pszLevel \<noteq> [] then ''['' @ opt_text pszLevel @ ''] '' else []) @
     opt_text pszMessage @
     (if opt_text pszText \<noteq> [] then '': '' @ opt_text pszText else []) @ [CHR 0x0A]"

record log_console =
  LogPrefix :: string
  Stderr :: string

definition SetLogPrefix :: "string option \<Rightarrow> log_console \<Rightarrow> log_console" where
  "SetLogPrefix p c = c\<lparr>LogPrefix := opt_text p\<rparr>"

definition WriteLogLine :: "civil_time option \<Rightarrow> string option \<Rightarrow> string option \<Rightarrow> string option \<Rightarrow> log_console \<Rightarrow> log_console" where
  "WriteLogLine now pszLevel pszMessage pszText c =
     c\<lparr>Stderr := Stderr c @ FormatLogLine now (Some (LogPrefix c)) pszLevel pszMessage pszText\<rparr>"

lemma no_newline_dec: "CHR 0x0A \<notin> set (dec_text n)"
  using dec_text_digits [of n] by (auto simp: list_all_iff is_digit_def)

text \<open>A message is one line of the console: if the parts have no new line in them, exactly one new line is written, at
  the end; and a missing part (a null pointer) is the same as an empty one.\<close>

theorem message_is_one_line:
  assumes "CHR 0x0A \<notin> set (opt_text Prefix) \<union> set (opt_text Level) \<union> set (opt_text Message) \<union> set (opt_text Txt)"
  shows "(\<exists>line. FormatLogLine Time Prefix Level Message Txt = line @ [CHR 0x0A] \<and> CHR 0x0A \<notin> set line) \<and>
    FormatLogLine Time Prefix Level Message Txt = FormatLogLine Time (Some (opt_text Prefix)) (Some (opt_text Level)) (Some (opt_text Message)) (Some (opt_text Txt))"
proof -
  have "CHR 0x0A \<notin> set (FormatLogTime Time)"
    by (auto simp: FormatLogTime_def pad_dec_def no_newline_dec split: option.splits prod.splits)
  with assms show ?thesis
    by (auto simp: FormatLogLine_def opt_text_def)
qed

theorem message_is_one_line_witness:
  "(\<exists>line. FormatLogLine (Some (2026, 9, 19, 21, 5, 3)) (Some ''otelfwd'') None (Some ''started'') None = line @ [CHR 0x0A] \<and> CHR 0x0A \<notin> set line) \<and>
    FormatLogLine (Some (2026, 9, 19, 21, 5, 3)) (Some ''otelfwd'') None (Some ''started'') None =
      FormatLogLine (Some (2026, 9, 19, 21, 5, 3)) (Some (opt_text (Some ''otelfwd''))) (Some (opt_text None)) (Some (opt_text (Some ''started''))) (Some (opt_text None))"
  by (rule message_is_one_line) (simp add: opt_text_def)

end
