(* ===== verification/Json.thy ===== *)
theory Json imports Prelude begin

text \<open>
  JSON values as \<^verbatim>\<open>rapidjson\<close> holds them. The parser and the writer of this library are not part of the repository: they are
  arguments of the definitions which use them. A number without a fraction and an exponent which fits into 64 bits is an
  integer (\<open>JInt\<close>, from \<open>- 2 ^ 63\<close> to \<open>2 ^ 64 - 1\<close>), every other one is a \<^verbatim>\<open>double\<close> (its 64 bits). The members of an
  object are in the order of the text, a name can appear more than once.
\<close>

datatype json = JNull | JBool bool | JInt int | JDouble "64 word" | JStr string | JArr "json list" | JObj "(string \<times> json) list"

text \<open>\<^verbatim>\<open>FindMember\<close>: the first member with this name.\<close>

definition Find :: "string \<Rightarrow> json \<Rightarrow> json option" where
  "Find name v = (case v of JObj ms \<Rightarrow> map_of ms name | _ \<Rightarrow> None)"

definition IsUint64 :: "json \<Rightarrow> bool" where
  "IsUint64 v = (case v of JInt n \<Rightarrow> 0 \<le> n \<and> n < 2 ^ 64 | _ \<Rightarrow> False)"

definition IsInt64 :: "json \<Rightarrow> bool" where
  "IsInt64 v = (case v of JInt n \<Rightarrow> - (2 ^ 63) \<le> n \<and> n < 2 ^ 63 | _ \<Rightarrow> False)"

definition IsInt :: "json \<Rightarrow> bool" where
  "IsInt v = (case v of JInt n \<Rightarrow> - (2 ^ 31) \<le> n \<and> n < 2 ^ 31 | _ \<Rightarrow> False)"

text \<open>Results which are an error text or a value.\<close>

definition and_then :: "'e + 'a \<Rightarrow> ('a \<Rightarrow> 'e + 'b) \<Rightarrow> 'e + 'b" where
  "and_then r f = (case r of Inl e \<Rightarrow> Inl e | Inr x \<Rightarrow> f x)"

lemma and_then_simps [simp]: "and_then (Inl e) f = Inl e" "and_then (Inr x) f = f x"
  by (simp_all add: and_then_def)

lemma and_then_Inr: "and_then r f = Inr y \<longleftrightarrow> (\<exists>x. r = Inr x \<and> f x = Inr y)"
  by (cases r) simp_all

text \<open>A function on the elements of a list; the first error ends it.\<close>

fun each :: "('a \<Rightarrow> 'e + 'b) \<Rightarrow> 'a list \<Rightarrow> 'e + 'b list" where
  "each f [] = Inr []"
| "each f (x # xs) = and_then (f x) (\<lambda>y. and_then (each f xs) (\<lambda>ys. Inr (y # ys)))"

lemma each_Inr: "each f xs = Inr ys \<longleftrightarrow> list_all2 (\<lambda>x y. f x = Inr y) xs ys"
  by (induction xs arbitrary: ys) (auto simp: and_then_Inr list_all2_Cons1)

end
