(* ===== verification/OtlpProtobuf.thy ===== *)
theory OtlpProtobuf imports Json begin

text \<open>
  The converter from OTLP/HTTP JSON to protobuf (\<^verbatim>\<open>otlp_protobuf.hpp\<close>). The functions of the code append to a string and
  return whether they worked; here they return the bytes which they append, or the text of the error. The parser of
  \<^verbatim>\<open>rapidjson\<close> and the conversion of an integer to a \<^verbatim>\<open>double\<close> are arguments.
\<close>

unbundle bit_operations_syntax

section \<open>The protobuf writer\<close>

function AddVarint :: "64 word \<Rightarrow> bytes" where
  "AddVarint v = (if v \<ge> 0x80 then ucast ((v AND 0x7F) OR 0x80) # AddVarint (drop_bit 7 v) else [ucast v])"
  by pat_completeness auto
termination
proof (relation "measure unat", goal_cases)
  case (2 v)
  then have "unat v \<ge> 128"
    by (simp add: word_le_nat_alt)
  then show ?case
    by (simp add: drop_bit_eq_div unat_div)
qed simp

declare AddVarint.simps [simp del]

definition AddTag :: "nat \<Rightarrow> nat \<Rightarrow> bytes" where
  "AddTag fld WireType = AddVarint (push_bit 3 (of_nat fld) OR of_nat WireType)"

definition AddVarintField :: "nat \<Rightarrow> 64 word \<Rightarrow> bytes" where
  "AddVarintField fld v = AddTag fld 0 @ AddVarint v"

definition AddFixed64Field :: "nat \<Rightarrow> 64 word \<Rightarrow> bytes" where
  "AddFixed64Field fld v = AddTag fld 1 @ map (\<lambda>i. ucast (drop_bit (8 * i) v AND 0xFF)) [0..<8]"

definition AddBytesField :: "nat \<Rightarrow> bytes \<Rightarrow> bytes" where
  "AddBytesField fld bs = AddTag fld 2 @ AddVarint (of_nat (length bs)) @ bs"

section \<open>Reading the JSON\<close>

definition quoted :: "string \<Rightarrow> string" where
  "quoted s = [CHR 0x22] @ s @ [CHR 0x22]"

text \<open>The known members are compared as C strings.\<close>

definition CheckObject :: "json \<Rightarrow> string \<Rightarrow> string list \<Rightarrow> string + unit" where
  "CheckObject Value What Known =
     (case Value of
        JObj ms \<Rightarrow>
          (case find (\<lambda>(name, _). c_str name \<notin> set Known) ms of
             None \<Rightarrow> Inr ()
           | Some (name, _) \<Rightarrow> Inl (''unknown member '' @ quoted (c_str name) @ '' in '' @ quoted What))
      | _ \<Rightarrow> Inl (quoted What @ '' is not a JSON object''))"

definition CheckArray :: "json \<Rightarrow> string \<Rightarrow> string + json list" where
  "CheckArray Value Name = (case Value of JArr vs \<Rightarrow> Inr vs | _ \<Rightarrow> Inl (quoted Name @ '' is not a JSON array''))"

definition CheckString :: "json \<Rightarrow> string \<Rightarrow> string + string" where
  "CheckString Value Name = (case Value of JStr s \<Rightarrow> Inr s | _ \<Rightarrow> Inl (quoted Name @ '' is not a string''))"

definition IsDecimalText :: "string \<Rightarrow> bool \<Rightarrow> bool" where
  "IsDecimalText s bSigned =
     (CHR 0x00 \<notin> set s \<and>
      (let ds = (if bSigned \<and> s \<noteq> [] \<and> hd s = CHR ''-'' then tl s else s) in ds \<noteq> [] \<and> list_all is_digit ds))"

text \<open>\<^verbatim>\<open>strtoull\<close> and \<^verbatim>\<open>strtoll\<close> on such a text; a number which is too large sets errno.\<close>

definition GetUint64 :: "json \<Rightarrow> string \<Rightarrow> string + 64 word" where
  "GetUint64 Value Name =
     (let failed = Inl (quoted Name @ '' is not an unsigned 64 bit integer'')
      in if IsUint64 Value then (case Value of JInt n \<Rightarrow> Inr (of_int n) | _ \<Rightarrow> failed)
         else case Value of
           JStr s \<Rightarrow> if IsDecimalText s False \<and> dec_value s < 2 ^ 64 then Inr (of_nat (dec_value s)) else failed
         | _ \<Rightarrow> failed)"

definition text_int :: "string \<Rightarrow> int" where
  "text_int s = (if hd s = CHR ''-'' then - int (dec_value (tl s)) else int (dec_value s))"

definition GetInt64 :: "json \<Rightarrow> string \<Rightarrow> string + 64 word" where
  "GetInt64 Value Name =
     (let failed = Inl (quoted Name @ '' is not a signed 64 bit integer'')
      in if IsInt64 Value then (case Value of JInt n \<Rightarrow> Inr (of_int n) | _ \<Rightarrow> failed)
         else case Value of
           JStr s \<Rightarrow> if IsDecimalText s True \<and> - (2 ^ 63) \<le> text_int s \<and> text_int s < 2 ^ 63 then Inr (of_int (text_int s)) else failed
         | _ \<Rightarrow> failed)"

text \<open>A member which may be missing.\<close>

definition opt_member :: "string \<Rightarrow> json \<Rightarrow> (json \<Rightarrow> string + bytes) \<Rightarrow> string + bytes" where
  "opt_member name v f = (case Find name v of None \<Rightarrow> Inr [] | Some p \<Rightarrow> f p)"

section \<open>The messages\<close>

definition ConvertAnyValue :: "(int \<Rightarrow> 64 word) \<Rightarrow> json \<Rightarrow> string \<Rightarrow> string + bytes" where
  "ConvertAnyValue int_double Value What =
     and_then (CheckObject Value What [''stringValue'', ''intValue'', ''doubleValue'', ''boolValue'']) (\<lambda>_.
     if (case Value of JObj ms \<Rightarrow> length ms > 1 | _ \<Rightarrow> False) then Inl (quoted What @ '' has more than one value'')
     else and_then (opt_member ''stringValue'' Value (\<lambda>p. and_then (CheckString p ''stringValue'') (\<lambda>s. Inr (AddBytesField 1 (to_bytes s))))) (\<lambda>o1.
          and_then (opt_member ''boolValue'' Value (\<lambda>p. case p of JBool b \<Rightarrow> Inr (AddVarintField 2 (if b then 1 else 0))
             | _ \<Rightarrow> Inl (quoted ''boolValue'' @ '' is not true or false''))) (\<lambda>o2.
          and_then (opt_member ''intValue'' Value (\<lambda>p. and_then (GetInt64 p ''intValue'') (\<lambda>n. Inr (AddVarintField 3 n)))) (\<lambda>o3.
          and_then (opt_member ''doubleValue'' Value (\<lambda>p. case p of JDouble d \<Rightarrow> Inr (AddFixed64Field 4 d)
             | JInt n \<Rightarrow> Inr (AddFixed64Field 4 (int_double n))
             | _ \<Rightarrow> Inl (quoted ''doubleValue'' @ '' is not a number''))) (\<lambda>o4.
          Inr (o1 @ o2 @ o3 @ o4))))))"

definition ConvertKeyValue :: "(int \<Rightarrow> 64 word) \<Rightarrow> json \<Rightarrow> string + bytes" where
  "ConvertKeyValue int_double Value =
     and_then (CheckObject Value ''attribute'' [''key'', ''value'']) (\<lambda>_.
     case Find ''key'' Value of
       None \<Rightarrow> Inl (''attribute without '' @ quoted ''key'')
     | Some k \<Rightarrow>
         and_then (CheckString k ''key'') (\<lambda>s.
         and_then (opt_member ''value'' Value (\<lambda>p. and_then (ConvertAnyValue int_double p ''value'') (\<lambda>any. Inr (AddBytesField 2 any)))) (\<lambda>v.
         Inr (AddBytesField 1 (to_bytes s) @ v))))"

definition ConvertAttributes :: "(int \<Rightarrow> 64 word) \<Rightarrow> json \<Rightarrow> nat \<Rightarrow> string + bytes" where
  "ConvertAttributes int_double Value fld =
     and_then (CheckArray Value ''attributes'') (\<lambda>vs.
     and_then (each (ConvertKeyValue int_double) vs) (\<lambda>kvs. Inr (concat (map (AddBytesField fld) kvs))))"

definition ConvertLogRecord :: "(int \<Rightarrow> 64 word) \<Rightarrow> json \<Rightarrow> string + bytes" where
  "ConvertLogRecord int_double Value =
     and_then (CheckObject Value ''logRecord'' [''timeUnixNano'', ''observedTimeUnixNano'', ''severityNumber'', ''severityText'', ''body'', ''attributes'']) (\<lambda>_.
     and_then (opt_member ''timeUnixNano'' Value (\<lambda>p. and_then (GetUint64 p ''timeUnixNano'') (\<lambda>t. Inr (AddFixed64Field 1 t)))) (\<lambda>o1.
     and_then (opt_member ''severityNumber'' Value (\<lambda>p. if IsInt p then (case p of JInt n \<Rightarrow> Inr (AddVarintField 2 (of_int n)) | _ \<Rightarrow> Inr [])
        else Inl (quoted ''severityNumber'' @ '' is not an integer''))) (\<lambda>o2.
     and_then (opt_member ''severityText'' Value (\<lambda>p. and_then (CheckString p ''severityText'') (\<lambda>s. Inr (AddBytesField 3 (to_bytes s))))) (\<lambda>o3.
     and_then (opt_member ''body'' Value (\<lambda>p. and_then (ConvertAnyValue int_double p ''body'') (\<lambda>any. Inr (AddBytesField 5 any)))) (\<lambda>o5.
     and_then (opt_member ''attributes'' Value (\<lambda>p. ConvertAttributes int_double p 6)) (\<lambda>o6.
     and_then (opt_member ''observedTimeUnixNano'' Value (\<lambda>p. and_then (GetUint64 p ''observedTimeUnixNano'') (\<lambda>t. Inr (AddFixed64Field 11 t)))) (\<lambda>o11.
     Inr (o1 @ o2 @ o3 @ o5 @ o6 @ o11))))))))"

definition ConvertScope :: "json \<Rightarrow> string + bytes" where
  "ConvertScope Value =
     and_then (CheckObject Value ''scope'' [''name'', ''version'']) (\<lambda>_.
     and_then (opt_member ''name'' Value (\<lambda>p. and_then (CheckString p ''name'') (\<lambda>s. Inr (AddBytesField 1 (to_bytes s))))) (\<lambda>o1.
     and_then (opt_member ''version'' Value (\<lambda>p. and_then (CheckString p ''version'') (\<lambda>s. Inr (AddBytesField 2 (to_bytes s))))) (\<lambda>o2.
     Inr (o1 @ o2))))"

definition ConvertScopeLogs :: "(int \<Rightarrow> 64 word) \<Rightarrow> json \<Rightarrow> string + bytes" where
  "ConvertScopeLogs int_double Value =
     and_then (CheckObject Value ''scopeLogs'' [''scope'', ''logRecords'']) (\<lambda>_.
     and_then (opt_member ''scope'' Value (\<lambda>p. and_then (ConvertScope p) (\<lambda>sc. Inr (AddBytesField 1 sc)))) (\<lambda>o1.
     and_then (opt_member ''logRecords'' Value (\<lambda>p. and_then (CheckArray p ''logRecords'') (\<lambda>vs.
        and_then (each (ConvertLogRecord int_double) vs) (\<lambda>rs. Inr (concat (map (AddBytesField 2) rs)))))) (\<lambda>o2.
     Inr (o1 @ o2))))"

definition ConvertResource :: "(int \<Rightarrow> 64 word) \<Rightarrow> json \<Rightarrow> string + bytes" where
  "ConvertResource int_double Value =
     and_then (CheckObject Value ''resource'' [''attributes'']) (\<lambda>_.
     opt_member ''attributes'' Value (\<lambda>p. ConvertAttributes int_double p 1))"

definition ConvertResourceLogs :: "(int \<Rightarrow> 64 word) \<Rightarrow> json \<Rightarrow> string + bytes" where
  "ConvertResourceLogs int_double Value =
     and_then (CheckObject Value ''resourceLogs'' [''resource'', ''scopeLogs'']) (\<lambda>_.
     and_then (opt_member ''resource'' Value (\<lambda>p. and_then (ConvertResource int_double p) (\<lambda>r. Inr (AddBytesField 1 r)))) (\<lambda>o1.
     and_then (opt_member ''scopeLogs'' Value (\<lambda>p. and_then (CheckArray p ''scopeLogs'') (\<lambda>vs.
        and_then (each (ConvertScopeLogs int_double) vs) (\<lambda>rs. Inr (concat (map (AddBytesField 2) rs)))))) (\<lambda>o2.
     Inr (o1 @ o2))))"

text \<open>The parser gives the text of its error and the offset, or the value.\<close>

type_synonym json_parser = "string \<Rightarrow> (string \<times> nat) + json"

definition ConvertRequest :: "json_parser \<Rightarrow> (int \<Rightarrow> 64 word) \<Rightarrow> string option \<Rightarrow> string + bytes" where
  "ConvertRequest parse int_double pszJson =
     (case pszJson of
        None \<Rightarrow> Inl ''no input''
      | Some js \<Rightarrow>
          (case parse js of
             Inl (e, off) \<Rightarrow> Inl (''not valid JSON: '' @ e @ '' (offset '' @ dec_text off @ '')'')
           | Inr Doc \<Rightarrow>
               and_then (CheckObject Doc ''request'' [''resourceLogs'']) (\<lambda>_.
               opt_member ''resourceLogs'' Doc (\<lambda>p. and_then (CheckArray p ''resourceLogs'') (\<lambda>vs.
                 and_then (each (ConvertResourceLogs int_double) vs) (\<lambda>rs. Inr (concat (map (AddBytesField 1) rs))))))))"

definition ConvertOtlpJsonToProtobuf :: "json_parser \<Rightarrow> (int \<Rightarrow> 64 word) \<Rightarrow> string option \<Rightarrow> string + bytes" where
  "ConvertOtlpJsonToProtobuf parse int_double pszJson =
     (case ConvertRequest parse int_double pszJson of
        Inl e \<Rightarrow> Inl (if e = [] then ''conversion failed'' else e)
      | Inr out \<Rightarrow> Inr out)"

end
