(* ===== verification/OtlpProtobufProofs.thy ===== *)
theory OtlpProtobufProofs imports OtlpProtobuf "HOL-Library.Monad_Syntax" begin

text \<open>
  The meaning of the two formats: the log data which an OTLP JSON value stands for (\<open>json_request\<close>), a reader of protobuf
  messages (\<open>read_message\<close>) and the log data which protobuf bytes stand for (\<open>decode_request\<close>). The converter takes the
  one to the other.
\<close>

section \<open>Reading protobuf\<close>

fun read_varint :: "bytes \<Rightarrow> (nat \<times> bytes) option" where
  "read_varint [] = None"
| "read_varint (b # bs) =
     (if unat b \<ge> 128 then map_option (\<lambda>(n, r). (unat b - 128 + 128 * n, r)) (read_varint bs) else Some (unat b, bs))"

datatype wire = WVarint nat | WFixed64 nat | WLen bytes

definition read_field :: "bytes \<Rightarrow> ((nat \<times> wire) \<times> bytes) option" where
  "read_field bs =
     (case read_varint bs of
        None \<Rightarrow> None
      | Some (t, r) \<Rightarrow>
          if t mod 8 = 0 then map_option (\<lambda>(n, r'). ((t div 8, WVarint n), r')) (read_varint r)
          else if t mod 8 = 1 then (if length r \<ge> 8 then Some ((t div 8, WFixed64 (le_value (take 8 r))), drop 8 r) else None)
          else if t mod 8 = 2 then
            (case read_varint r of None \<Rightarrow> None
             | Some (n, r') \<Rightarrow> if n \<le> length r' then Some ((t div 8, WLen (take n r')), drop n r') else None)
          else None)"

function read_message :: "bytes \<Rightarrow> (nat \<times> wire) list option" where
  "read_message bs =
     (if bs = [] then Some []
      else case read_field bs of
        None \<Rightarrow> None
      | Some (f, r) \<Rightarrow> if length r < length bs then map_option (Cons f) (read_message r) else None)"
  by pat_completeness auto
termination
  by (relation "measure length") auto

declare read_message.simps [simp del]

lemma read_message_Nil [simp]: "read_message [] = Some []"
  by (simp add: read_message.simps [of "[]"])

lemma low_bits_set: "unat (ucast ((v AND 0x7F) OR 0x80) :: byte) = unat (v :: 64 word) mod 128 + 128"
proof -
  have a: "v AND 0x7F = take_bit 7 v"
    by (simp add: take_bit_eq_mask mask_numeral)
  have p: "(0x80 :: 64 word) = push_bit 7 1"
    by simp
  have "take_bit 7 v AND push_bit 7 1 = 0"
    by (rule bit_eqI) (simp only: bit_and_iff bit_take_bit_iff bit_push_bit_iff bit_0_eq, auto)
  then have "take_bit 7 v OR 0x80 = take_bit 7 v + 0x80"
    unfolding p by (rule disjunctive_add_eq_or [symmetric])
  moreover have t: "unat (take_bit 7 v) = unat v mod 128"
    by (simp add: take_bit_eq_mod unat_mod)
  ultimately have "unat ((v AND 0x7F) OR 0x80) = unat v mod 128 + 128"
    unfolding a by (simp add: unat_word_ariths)
  moreover have "unat v mod 128 + 128 < 256"
    using mod_less_divisor [of 128 "unat v"] by simp
  ultimately show ?thesis
    by (simp add: unsigned_ucast_eq take_bit_eq_mod)
qed

lemma read_varint_AddVarint: "read_varint (AddVarint v @ r) = Some (unat v, r)"
proof (induction v rule: AddVarint.induct)
  case (1 v)
  show ?case
  proof (cases "v \<ge> 0x80")
    case True
    have "unat (drop_bit 7 v) = unat v div 128"
      by (simp add: drop_bit_eq_div unat_div)
    then have "128 * unat (drop_bit 7 v) + unat v mod 128 = unat v"
      by simp
    with 1 [OF True] True show ?thesis
      by (simp add: AddVarint.simps [of v] low_bits_set)
  next
    case False
    then have "unat v < 128"
      by (simp add: word_le_nat_alt)
    then have "unat (ucast v :: byte) = unat v"
      by (simp add: unsigned_ucast_eq take_bit_eq_mod)
    with False \<open>unat v < 128\<close> show ?thesis
      by (simp add: AddVarint.simps [of v])
  qed
qed

lemma AddVarint_not_Nil [simp]: "AddVarint v \<noteq> []"
  by (simp add: AddVarint.simps [of v])

lemma AddTag_value:
  assumes "f < 2 ^ 60" and "w < 8"
  shows "unat (push_bit 3 (of_nat f) OR of_nat w :: 64 word) = 8 * f + w"
proof -
  have "take_bit 3 (of_nat w :: 64 word) = of_nat w"
    using assms(2) by (simp add: take_bit_of_nat take_bit_nat_eq_self)
  then have w: "\<And>n. bit (of_nat w :: 64 word) n \<Longrightarrow> n < 3"
    by (metis bit_take_bit_iff)
  have "push_bit 3 (of_nat f) AND (of_nat w :: 64 word) = 0"
    by (rule bit_eqI) (auto simp: bit_and_iff bit_push_bit_iff dest: w)
  then have "push_bit 3 (of_nat f) OR of_nat w = push_bit 3 (of_nat f) + (of_nat w :: 64 word)"
    by (rule disjunctive_add_eq_or [symmetric])
  also have "\<dots> = of_nat (8 * f + w)"
    by (simp add: push_bit_eq_mult mult.commute)
  finally have e: "push_bit 3 (of_nat f) OR of_nat w = (of_nat (8 * f + w) :: 64 word)" .
  show ?thesis
    unfolding e unat_of_nat using assms by simp
qed

lemma le_bytes_map: "le_bytes n v = map (\<lambda>i. of_nat (v div 256 ^ i mod 256)) [0..<n]"
proof (induction n arbitrary: v)
  case (Suc n)
  have "[0..<Suc n] = 0 # map Suc [0..<n]"
    by (simp add: upt_conv_Cons map_Suc_upt del: upt_Suc)
  with Suc [of "v div 256"] show ?case
    by (simp add: div_mult2_eq [symmetric] comp_def del: upt_Suc)
qed simp

lemma fixed64_bytes: "map (\<lambda>i. ucast (drop_bit (8 * i) v AND 0xFF)) [0..<8] = le_bytes 8 (unat (v :: 64 word))"
proof -
  have "(ucast (drop_bit (8 * i) v AND 0xFF) :: byte) = of_nat (unat v div 256 ^ i mod 256)" for i
  proof -
    have m: "drop_bit (8 * i) v AND 0xFF = take_bit 8 (drop_bit (8 * i) v)"
      by (simp add: take_bit_eq_mask mask_numeral)
    have "unat (drop_bit (8 * i) v) = unat v div 256 ^ i"
      unfolding unat_drop_bit_eq by (simp add: drop_bit_eq_div power_mult)
    then have "unat (ucast (drop_bit (8 * i) v AND 0xFF) :: byte) = unat v div 256 ^ i mod 256"
      unfolding m by (simp add: unsigned_ucast_eq take_bit_eq_mod unat_mod)
    then show ?thesis
      by (simp add: word_unat_eq_iff)
  qed
  then have "map (\<lambda>i. ucast (drop_bit (8 * i) v AND 0xFF) :: byte) [0..<8] = map (\<lambda>i. of_nat (unat v div 256 ^ i mod 256)) [0..<8]"
    by simp
  also have "\<dots> = le_bytes 8 (unat v)"
    by (rule le_bytes_map [symmetric])
  finally show ?thesis .
qed

text \<open>A field which was written is read back, and the rest of the message is what follows.\<close>

lemma read_varint_tag:
  assumes "f < 2 ^ 60" and "w < 8"
  shows "read_varint (AddTag f w @ r) = Some (8 * f + w, r)"
  unfolding AddTag_def read_varint_AddVarint AddTag_value [OF assms] by simp

lemma read_message_field:
  assumes "read_field (bs @ r) = Some (f, r)" and "bs \<noteq> []"
  shows "read_message (bs @ r) = map_option (Cons f) (read_message r)"
proof -
  have "length r < length (bs @ r)"
    using assms(2) by (cases bs) simp_all
  with assms show ?thesis
    by (simp add: read_message.simps [of "bs @ r"])
qed

lemma AddTag_not_Nil [simp]: "AddTag f w \<noteq> []"
  by (simp add: AddTag_def)

lemma read_varint_field:
  assumes "f < 2 ^ 60"
  shows "read_message (AddVarintField f v @ r) = map_option (Cons (f, WVarint (unat v))) (read_message r)"
  by (rule read_message_field)
    (use read_varint_tag [OF assms, of 0 "AddVarint v @ r"] in \<open>simp_all add: AddVarintField_def read_field_def read_varint_AddVarint\<close>)

lemma read_fixed_field:
  assumes "f < 2 ^ 60"
  shows "read_message (AddFixed64Field f v @ r) = map_option (Cons (f, WFixed64 (unat v))) (read_message r)"
proof (rule read_message_field)
  have u: "unat v < 256 ^ 8"
    using unsigned_less [of v] by simp
  have "(8 * f + 1) mod 8 = 1" "(8 * f + 1) div 8 = f"
    by presburger+
  then show "read_field (AddFixed64Field f v @ r) = Some ((f, WFixed64 (unat v)), r)"
    using read_varint_tag [OF assms, of 1 "le_bytes 8 (unat v) @ r"] u
    unfolding AddFixed64Field_def fixed64_bytes read_field_def by simp
qed (simp add: AddFixed64Field_def)

lemma read_bytes_field:
  assumes "f < 2 ^ 60" and "length bs < 2 ^ 64"
  shows "read_message (AddBytesField f bs @ r) = map_option (Cons (f, WLen bs)) (read_message r)"
proof (rule read_message_field)
  have u: "unat (of_nat (length bs) :: 64 word) = length bs"
    using assms(2) by (simp add: unat_of_nat)
  have "(8 * f + 2) mod 8 = 2" "(8 * f + 2) div 8 = f"
    by presburger+
  then show "read_field (AddBytesField f bs @ r) = Some ((f, WLen bs), r)"
    using read_varint_tag [OF assms(1), of 2 "AddVarint (of_nat (length bs)) @ bs @ r"] u
    unfolding AddBytesField_def read_field_def by (simp add: read_varint_AddVarint)
qed (simp add: AddBytesField_def)

lemmas read_fields = read_varint_field read_fixed_field read_bytes_field

lemma read_bytes_fields:
  assumes "f < 2 ^ 60" and "\<forall>b \<in> set bss. length b < 2 ^ 64"
  shows "read_message (concat (map (AddBytesField f) bss) @ r) = map_option (\<lambda>fs. map (\<lambda>b. (f, WLen b)) bss @ fs) (read_message r)"
  using assms(2)
proof (induction bss)
  case Nil
  then show ?case
    by (simp add: option.map_ident)
next
  case (Cons b bss)
  then show ?case
    by (simp add: read_bytes_field [OF assms(1)] option.map_comp comp_def)
qed

section \<open>The log data\<close>

datatype any_value = AnyEmpty | AnyString string | AnyBool bool | AnyInt int | AnyDouble "64 word"

type_synonym key_value = "string \<times> any_value option"

record log_data =
  l_time :: "nat option"
  l_sevnum :: "int option"
  l_sevtext :: "string option"
  l_body :: "any_value option"
  l_attrs :: "key_value list"
  l_observed :: "nat option"

type_synonym scope_data = "string option \<times> string option"
type_synonym scope_logs = "scope_data option \<times> log_data list"
type_synonym resource_logs = "key_value list option \<times> scope_logs list"

section \<open>What a JSON value stands for\<close>

definition only :: "string list \<Rightarrow> json \<Rightarrow> bool" where
  "only Known v = (case v of JObj ms \<Rightarrow> list_all (\<lambda>(n, _). c_str n \<in> set Known) ms | _ \<Rightarrow> False)"

definition opt :: "string \<Rightarrow> json \<Rightarrow> (json \<Rightarrow> 'a option) \<Rightarrow> 'a option option" where
  "opt name v f = (case Find name v of None \<Rightarrow> Some None | Some p \<Rightarrow> map_option Some (f p))"

definition json_string :: "json \<Rightarrow> string option" where
  "json_string v = (case v of JStr s \<Rightarrow> Some s | _ \<Rightarrow> None)"

definition json_list :: "(json \<Rightarrow> 'a option) \<Rightarrow> json \<Rightarrow> 'a list option" where
  "json_list f v = (case v of JArr vs \<Rightarrow> those (map f vs) | _ \<Rightarrow> None)"

definition json_u64 :: "json \<Rightarrow> nat option" where
  "json_u64 v = (case v of
     JInt n \<Rightarrow> if 0 \<le> n \<and> n < 2 ^ 64 then Some (nat n) else None
   | JStr s \<Rightarrow> if IsDecimalText s False \<and> dec_value s < 2 ^ 64 then Some (dec_value s) else None
   | _ \<Rightarrow> None)"

definition json_i64 :: "json \<Rightarrow> int option" where
  "json_i64 v = (case v of
     JInt n \<Rightarrow> if - (2 ^ 63) \<le> n \<and> n < 2 ^ 63 then Some n else None
   | JStr s \<Rightarrow> if IsDecimalText s True \<and> - (2 ^ 63) \<le> text_int s \<and> text_int s < 2 ^ 63 then Some (text_int s) else None
   | _ \<Rightarrow> None)"

definition json_i32 :: "json \<Rightarrow> int option" where
  "json_i32 v = (case v of JInt n \<Rightarrow> if - (2 ^ 31) \<le> n \<and> n < 2 ^ 31 then Some n else None | _ \<Rightarrow> None)"

text \<open>An object with one member, by the kind of the value.\<close>

definition json_any :: "(int \<Rightarrow> 64 word) \<Rightarrow> json \<Rightarrow> any_value option" where
  "json_any int_double v =
     (if \<not> only [''stringValue'', ''intValue'', ''doubleValue'', ''boolValue''] v then None
      else case v of
        JObj [] \<Rightarrow> Some AnyEmpty
      | JObj [(n, p)] \<Rightarrow>
          if n = ''stringValue'' then map_option AnyString (json_string p)
          else if n = ''boolValue'' then (case p of JBool b \<Rightarrow> Some (AnyBool b) | _ \<Rightarrow> None)
          else if n = ''intValue'' then map_option AnyInt (json_i64 p)
          else if n = ''doubleValue'' then (case p of JDouble d \<Rightarrow> Some (AnyDouble d) | JInt i \<Rightarrow> Some (AnyDouble (int_double i)) | _ \<Rightarrow> None)
          else Some AnyEmpty
      | _ \<Rightarrow> None)"

definition json_kv :: "(int \<Rightarrow> 64 word) \<Rightarrow> json \<Rightarrow> key_value option" where
  "json_kv int_double v =
     (if \<not> only [''key'', ''value''] v then None
      else do { k \<leftarrow> Find ''key'' v; s \<leftarrow> json_string k; a \<leftarrow> opt ''value'' v (json_any int_double); Some (s, a) })"

definition the_list :: "'a list option \<Rightarrow> 'a list" where
  "the_list xs = (case xs of None \<Rightarrow> [] | Some ys \<Rightarrow> ys)"

definition json_log :: "(int \<Rightarrow> 64 word) \<Rightarrow> json \<Rightarrow> log_data option" where
  "json_log int_double v =
     (if \<not> only [''timeUnixNano'', ''observedTimeUnixNano'', ''severityNumber'', ''severityText'', ''body'', ''attributes''] v then None
      else do {
        t \<leftarrow> opt ''timeUnixNano'' v json_u64;
        n \<leftarrow> opt ''severityNumber'' v json_i32;
        x \<leftarrow> opt ''severityText'' v json_string;
        b \<leftarrow> opt ''body'' v (json_any int_double);
        a \<leftarrow> opt ''attributes'' v (json_list (json_kv int_double));
        r \<leftarrow> opt ''observedTimeUnixNano'' v json_u64;
        Some \<lparr>l_time = t, l_sevnum = n, l_sevtext = x, l_body = b, l_attrs = the_list a, l_observed = r\<rparr> })"

definition json_scope :: "json \<Rightarrow> scope_data option" where
  "json_scope v = (if \<not> only [''name'', ''version''] v then None
     else do { n \<leftarrow> opt ''name'' v json_string; w \<leftarrow> opt ''version'' v json_string; Some (n, w) })"

definition json_scope_logs :: "(int \<Rightarrow> 64 word) \<Rightarrow> json \<Rightarrow> scope_logs option" where
  "json_scope_logs int_double v = (if \<not> only [''scope'', ''logRecords''] v then None
     else do { sc \<leftarrow> opt ''scope'' v json_scope; rs \<leftarrow> opt ''logRecords'' v (json_list (json_log int_double)); Some (sc, the_list rs) })"

definition json_resource :: "(int \<Rightarrow> 64 word) \<Rightarrow> json \<Rightarrow> key_value list option" where
  "json_resource int_double v = (if \<not> only [''attributes''] v then None
     else map_option the_list (opt ''attributes'' v (json_list (json_kv int_double))))"

definition json_resource_logs :: "(int \<Rightarrow> 64 word) \<Rightarrow> json \<Rightarrow> resource_logs option" where
  "json_resource_logs int_double v = (if \<not> only [''resource'', ''scopeLogs''] v then None
     else do { r \<leftarrow> opt ''resource'' v (json_resource int_double); ss \<leftarrow> opt ''scopeLogs'' v (json_list (json_scope_logs int_double)); Some (r, the_list ss) })"

definition json_request :: "(int \<Rightarrow> 64 word) \<Rightarrow> json \<Rightarrow> resource_logs list option" where
  "json_request int_double v = (if \<not> only [''resourceLogs''] v then None
     else map_option the_list (opt ''resourceLogs'' v (json_list (json_resource_logs int_double))))"

section \<open>What the converter writes for it\<close>

definition opt_bytes :: "('a \<Rightarrow> bytes) \<Rightarrow> 'a option \<Rightarrow> bytes" where
  "opt_bytes f x = (case x of None \<Rightarrow> [] | Some y \<Rightarrow> f y)"

fun enc_any :: "any_value \<Rightarrow> bytes" where
  "enc_any AnyEmpty = []"
| "enc_any (AnyString s) = AddBytesField 1 (to_bytes s)"
| "enc_any (AnyBool b) = AddVarintField 2 (if b then 1 else 0)"
| "enc_any (AnyInt n) = AddVarintField 3 (of_int n)"
| "enc_any (AnyDouble d) = AddFixed64Field 4 d"

definition enc_kv :: "key_value \<Rightarrow> bytes" where
  "enc_kv kv = AddBytesField 1 (to_bytes (fst kv)) @ opt_bytes (\<lambda>a. AddBytesField 2 (enc_any a)) (snd kv)"

definition enc_log :: "log_data \<Rightarrow> bytes" where
  "enc_log r = opt_bytes (\<lambda>t. AddFixed64Field 1 (of_nat t)) (l_time r) @ opt_bytes (\<lambda>n. AddVarintField 2 (of_int n)) (l_sevnum r) @
     opt_bytes (\<lambda>s. AddBytesField 3 (to_bytes s)) (l_sevtext r) @ opt_bytes (\<lambda>a. AddBytesField 5 (enc_any a)) (l_body r) @
     concat (map (AddBytesField 6) (map enc_kv (l_attrs r))) @ opt_bytes (\<lambda>t. AddFixed64Field 11 (of_nat t)) (l_observed r)"

definition enc_scope :: "scope_data \<Rightarrow> bytes" where
  "enc_scope sc = opt_bytes (\<lambda>s. AddBytesField 1 (to_bytes s)) (fst sc) @ opt_bytes (\<lambda>s. AddBytesField 2 (to_bytes s)) (snd sc)"

definition enc_scope_logs :: "scope_logs \<Rightarrow> bytes" where
  "enc_scope_logs sl = opt_bytes (\<lambda>sc. AddBytesField 1 (enc_scope sc)) (fst sl) @ concat (map (AddBytesField 2) (map enc_log (snd sl)))"

definition enc_resource :: "key_value list \<Rightarrow> bytes" where
  "enc_resource kvs = concat (map (AddBytesField 1) (map enc_kv kvs))"

definition enc_resource_logs :: "resource_logs \<Rightarrow> bytes" where
  "enc_resource_logs rl = opt_bytes (\<lambda>r. AddBytesField 1 (enc_resource r)) (fst rl) @ concat (map (AddBytesField 2) (map enc_scope_logs (snd rl)))"

definition enc_request :: "resource_logs list \<Rightarrow> bytes" where
  "enc_request rls = concat (map (AddBytesField 1) (map enc_resource_logs rls))"

definition to_option :: "'e + 'a \<Rightarrow> 'a option" where
  "to_option r = (case r of Inl e \<Rightarrow> None | Inr x \<Rightarrow> Some x)"

lemma to_option_simps [simp]: "to_option (Inl e) = None" "to_option (Inr x) = Some x"
  by (simp_all add: to_option_def)

lemma to_option_and_then [simp]: "to_option (and_then r f) = Option.bind (to_option r) (\<lambda>x. to_option (f x))"
  by (cases r) simp_all

lemma to_option_each: "to_option (each f xs) = those (map (\<lambda>x. to_option (f x)) xs)"
proof (induction xs)
  case (Cons x xs)
  then show ?case
    by (cases "to_option (f x)"; cases "those (map (\<lambda>x. to_option (f x)) xs)") simp_all
qed simp

lemma those_map_map_option: "those (map (\<lambda>x. map_option g (f x)) xs) = map_option (map g) (those (map f xs))"
proof (induction xs)
  case (Cons x xs)
  then show ?case
    by (cases "f x"; cases "those (map f xs)") simp_all
qed simp

lemma CheckObject_only: "to_option (CheckObject v w ks) = (if only ks v then Some () else None)"
proof (cases v)
  case (JObj ms)
  have "find (\<lambda>(n, _). c_str n \<notin> set ks) ms = None \<longleftrightarrow> list_all (\<lambda>(n, _). c_str n \<in> set ks) ms"
    by (auto simp: find_None_iff list_all_iff)
  then show ?thesis
    using JObj by (auto simp: CheckObject_def only_def split: option.splits)
qed (simp_all add: CheckObject_def only_def)

lemma opt_member_opt:
  assumes "\<And>p. Find name v = Some p \<Longrightarrow> to_option (f p) = map_option e (g p)"
  shows "to_option (opt_member name v f) = map_option (opt_bytes e) (opt name v g)"
  using assms by (cases "Find name v") (simp_all add: opt_member_def opt_def opt_bytes_def option.map_comp comp_def)

lemma CheckString_json: "to_option (CheckString p n) = json_string p"
  by (cases p) (simp_all add: CheckString_def json_string_def)

lemma GetUint64_json: "to_option (GetUint64 p n) = map_option of_nat (json_u64 p)"
  by (cases p) (auto simp: GetUint64_def json_u64_def IsUint64_def)

lemma GetInt64_json: "to_option (GetInt64 p n) = map_option of_int (json_i64 p)"
  by (cases p) (auto simp: GetInt64_def json_i64_def IsInt64_def)

lemma bind_map_option: "Option.bind x (\<lambda>y. Some (f y)) = map_option f x"
  by (cases x) simp_all

end
