(* ===== verification/OtlpProtobufTheorems.thy ===== *)
theory OtlpProtobufTheorems imports OtlpProtobufProofs begin

text \<open>The converter writes what the JSON value stands for, and it is read back from the bytes.\<close>

section \<open>The converter and the log data\<close>

lemma only_False_opt: "(if only ks v then Some () else None) = Some x \<longleftrightarrow> only ks v"
  by simp

lemma AnyValue_converts: "to_option (ConvertAnyValue d v w) = map_option enc_any (json_any d v)"
proof (cases "only [''stringValue'', ''intValue'', ''doubleValue'', ''boolValue''] v")
  case False
  then show ?thesis
    by (simp add: ConvertAnyValue_def CheckObject_only json_any_def)
next
  case True
  then obtain ms where v: "v = JObj ms"
    by (cases v) (simp_all add: only_def)
  consider "ms = []" | n p where "ms = [(n, p)]" | "length ms > 1"
    by (cases ms rule: remdups_adj.cases) auto
  then show ?thesis
  proof cases
    case 1
    then show ?thesis
      using True v by (simp add: ConvertAnyValue_def CheckObject_only json_any_def opt_member_def Find_def)
  next
    case (2 n p)
    then show ?thesis
      using True v
      by (cases p) (auto simp: ConvertAnyValue_def CheckObject_only json_any_def opt_member_def Find_def json_string_def
          CheckString_def GetInt64_json option.map_comp comp_def bind_map_option)
  next
    case 3
    then obtain a b r where "ms = a # b # r"
      by (cases ms rule: remdups_adj.cases) auto
    then show ?thesis
      using True v by (simp add: ConvertAnyValue_def CheckObject_only json_any_def)
  qed
qed

lemma member_string: "to_option (opt_member n v (\<lambda>p. and_then (CheckString p m) (\<lambda>s. Inr (AddBytesField f (to_bytes s))))) =
    map_option (opt_bytes (\<lambda>s. AddBytesField f (to_bytes s))) (opt n v json_string)"
  by (rule opt_member_opt) (simp add: CheckString_json bind_map_option)

lemma member_u64: "to_option (opt_member n v (\<lambda>p. and_then (GetUint64 p m) (\<lambda>t. Inr (AddFixed64Field f t)))) =
    map_option (opt_bytes (\<lambda>t. AddFixed64Field f (of_nat t))) (opt n v json_u64)"
  by (rule opt_member_opt) (simp add: GetUint64_json bind_map_option option.map_comp comp_def)

lemma member_any: "to_option (opt_member n v (\<lambda>p. and_then (ConvertAnyValue d p m) (\<lambda>any. Inr (AddBytesField f any)))) =
    map_option (opt_bytes (\<lambda>a. AddBytesField f (enc_any a))) (opt n v (json_any d))"
  by (rule opt_member_opt) (simp add: AnyValue_converts bind_map_option option.map_comp comp_def)

lemma KeyValue_converts: "to_option (ConvertKeyValue d v) = map_option enc_kv (json_kv d v)"
proof (cases "only [''key'', ''value''] v")
  case False
  then show ?thesis
    by (simp add: ConvertKeyValue_def CheckObject_only json_kv_def)
next
  case True
  show ?thesis
  proof (cases "Find ''key'' v")
    case None
    with True show ?thesis
      by (simp add: ConvertKeyValue_def CheckObject_only json_kv_def)
  next
    case (Some k)
    with True show ?thesis
      by (cases "json_string k"; cases "opt ''value'' v (json_any d)")
        (simp_all add: ConvertKeyValue_def CheckObject_only json_kv_def CheckString_json member_any enc_kv_def)
  qed
qed

lemma list_converts:
  assumes "\<And>x. to_option (g x) = map_option e (h x)"
  shows "to_option (and_then (CheckArray p n) (\<lambda>vs. and_then (each g vs) (\<lambda>rs. Inr (concat (map (AddBytesField f) rs))))) =
    map_option (\<lambda>xs. concat (map (AddBytesField f) (map e xs))) (json_list h p)"
  by (cases p) (simp_all add: CheckArray_def json_list_def to_option_each assms those_map_map_option bind_map_option option.map_comp comp_def)

lemma Attributes_converts: "to_option (ConvertAttributes d p f) =
    map_option (\<lambda>xs. concat (map (AddBytesField f) (map enc_kv xs))) (json_list (json_kv d) p)"
  unfolding ConvertAttributes_def by (rule list_converts) (rule KeyValue_converts)

lemma opt_bytes_the_list: "opt_bytes (\<lambda>xs. concat (map g xs)) ys = concat (map g (the_list ys))"
  by (cases ys) (simp_all add: opt_bytes_def the_list_def)

lemma member_list:
  assumes "\<And>x. to_option (g x) = map_option e (h x)"
  shows "to_option (opt_member n v (\<lambda>p. and_then (CheckArray p m) (\<lambda>vs. and_then (each g vs) (\<lambda>rs. Inr (concat (map (AddBytesField f) rs)))))) =
    map_option (\<lambda>xs. concat (map (AddBytesField f) (map e (the_list xs)))) (opt n v (json_list h))"
proof -
  have "opt_bytes (\<lambda>xs. concat (map (AddBytesField f) (map e xs))) = (\<lambda>xs. concat (map (AddBytesField f) (map e (the_list xs))))"
    by (rule ext) (simp add: opt_bytes_the_list comp_def)
  then show ?thesis
    using opt_member_opt [of n v _ "\<lambda>xs. concat (map (AddBytesField f) (map e xs))" "json_list h"] list_converts [OF assms]
    by simp
qed

lemma member_attributes: "to_option (opt_member n v (\<lambda>p. ConvertAttributes d p f)) =
    map_option (\<lambda>xs. concat (map (AddBytesField f) (map enc_kv (the_list xs)))) (opt n v (json_list (json_kv d)))"
  unfolding ConvertAttributes_def by (rule member_list) (rule KeyValue_converts)

lemma member_i32: "to_option (opt_member n v (\<lambda>p. if IsInt p then (case p of JInt n \<Rightarrow> Inr (AddVarintField 2 (of_int n)) | _ \<Rightarrow> Inr []) else Inl e)) =
    map_option (opt_bytes (\<lambda>n. AddVarintField 2 (of_int n))) (opt n v json_i32)"
proof (rule opt_member_opt)
  fix p
  show "to_option (if IsInt p then (case p of JInt n \<Rightarrow> Inr (AddVarintField 2 (of_int n)) | _ \<Rightarrow> Inr []) else Inl e) =
      map_option (\<lambda>n. AddVarintField 2 (of_int n)) (json_i32 p)"
    by (cases p) (simp_all add: IsInt_def json_i32_def)
qed

lemma LogRecord_converts: "to_option (ConvertLogRecord d v) = map_option enc_log (json_log d v)"
proof (cases "only [''timeUnixNano'', ''observedTimeUnixNano'', ''severityNumber'', ''severityText'', ''body'', ''attributes''] v")
  case False
  then show ?thesis
    by (simp add: ConvertLogRecord_def CheckObject_only json_log_def)
next
  case True
  show ?thesis
    unfolding ConvertLogRecord_def json_log_def to_option_and_then CheckObject_only member_u64 member_i32 member_string member_any
      member_attributes to_option_simps using True
    by (simp add: enc_log_def Option.bind_map_option map_option_bind comp_def split: option.splits)
qed

lemma Scope_converts: "to_option (ConvertScope v) = map_option enc_scope (json_scope v)"
proof (cases "only [''name'', ''version''] v")
  case True
  then show ?thesis
    unfolding ConvertScope_def json_scope_def to_option_and_then CheckObject_only member_string to_option_simps
    by (simp add: enc_scope_def Option.bind_map_option map_option_bind comp_def split: option.splits)
qed (simp add: ConvertScope_def CheckObject_only json_scope_def)

lemma ScopeLogs_converts: "to_option (ConvertScopeLogs d v) = map_option enc_scope_logs (json_scope_logs d v)"
proof (cases "only [''scope'', ''logRecords''] v")
  case True
  have sc: "to_option (opt_member ''scope'' v (\<lambda>p. and_then (ConvertScope p) (\<lambda>sc. Inr (AddBytesField 1 sc)))) =
      map_option (opt_bytes (\<lambda>sc. AddBytesField 1 (enc_scope sc))) (opt ''scope'' v json_scope)"
    by (rule opt_member_opt) (simp add: Scope_converts bind_map_option option.map_comp comp_def)
  show ?thesis
    unfolding ConvertScopeLogs_def json_scope_logs_def to_option_and_then CheckObject_only sc
      member_list [of "ConvertLogRecord d", OF LogRecord_converts] to_option_simps using True
    by (simp add: enc_scope_logs_def Option.bind_map_option map_option_bind comp_def split: option.splits)
qed (simp add: ConvertScopeLogs_def CheckObject_only json_scope_logs_def)

lemma Resource_converts: "to_option (ConvertResource d v) = map_option enc_resource (json_resource d v)"
proof (cases "only [''attributes''] v")
  case True
  then show ?thesis
    unfolding ConvertResource_def json_resource_def to_option_and_then CheckObject_only member_attributes
    by (simp add: enc_resource_def option.map_comp comp_def)
qed (simp add: ConvertResource_def CheckObject_only json_resource_def)

lemma ResourceLogs_converts: "to_option (ConvertResourceLogs d v) = map_option enc_resource_logs (json_resource_logs d v)"
proof (cases "only [''resource'', ''scopeLogs''] v")
  case True
  have r: "to_option (opt_member ''resource'' v (\<lambda>p. and_then (ConvertResource d p) (\<lambda>r. Inr (AddBytesField 1 r)))) =
      map_option (opt_bytes (\<lambda>r. AddBytesField 1 (enc_resource r))) (opt ''resource'' v (json_resource d))"
    by (rule opt_member_opt) (simp add: Resource_converts bind_map_option option.map_comp comp_def)
  show ?thesis
    unfolding ConvertResourceLogs_def json_resource_logs_def to_option_and_then CheckObject_only r
      member_list [of "ConvertScopeLogs d", OF ScopeLogs_converts] to_option_simps using True
    by (simp add: enc_resource_logs_def Option.bind_map_option map_option_bind comp_def split: option.splits)
qed (simp add: ConvertResourceLogs_def CheckObject_only json_resource_logs_def)

lemma Request_converts:
  "to_option (ConvertOtlpJsonToProtobuf parse d (Some js)) =
     Option.bind (to_option (parse js)) (\<lambda>j. map_option enc_request (json_request d j))"
proof -
  have e: "to_option (ConvertOtlpJsonToProtobuf parse d (Some js)) = to_option (ConvertRequest parse d (Some js))"
    by (simp add: ConvertOtlpJsonToProtobuf_def to_option_def split: sum.splits)
  show ?thesis
  proof (cases "parse js")
    case (Inl x)
    then show ?thesis
      unfolding e by (cases x) (simp add: ConvertRequest_def)
  next
    case (Inr j)
    show ?thesis
    proof (cases "only [''resourceLogs''] j")
      case True
      then show ?thesis
        unfolding e using Inr
        by (simp add: ConvertRequest_def CheckObject_only member_list [of "ConvertResourceLogs d", OF ResourceLogs_converts]
            json_request_def enc_request_def option.map_comp comp_def)
    next
      case False
      then show ?thesis
        unfolding e using Inr by (simp add: ConvertRequest_def CheckObject_only json_request_def)
    qed
  qed
qed

section \<open>Reading the bytes\<close>

text \<open>The values of the fields with one number, in order; the readers of the kinds of values; then the messages.\<close>

definition values_of :: "nat \<Rightarrow> (nat \<times> wire) list \<Rightarrow> wire list" where
  "values_of f fs = map snd (filter (\<lambda>(g, _). g = f) fs)"

definition as_text :: "wire \<Rightarrow> string option" where
  "as_text w = (case w of WLen bs \<Rightarrow> Some (map (\<lambda>b. char_of (unat b)) bs) | _ \<Rightarrow> None)"

definition as_bytes :: "wire \<Rightarrow> bytes option" where
  "as_bytes w = (case w of WLen bs \<Rightarrow> Some bs | _ \<Rightarrow> None)"

definition as_fixed :: "wire \<Rightarrow> nat option" where
  "as_fixed w = (case w of WFixed64 n \<Rightarrow> Some n | _ \<Rightarrow> None)"

definition as_int :: "wire \<Rightarrow> int option" where
  "as_int w = (case w of WVarint n \<Rightarrow> Some (if n < 2 ^ 63 then int n else int n - 2 ^ 64) | _ \<Rightarrow> None)"

definition at_most_one :: "(wire \<Rightarrow> 'a option) \<Rightarrow> wire list \<Rightarrow> 'a option option" where
  "at_most_one f ws = (case ws of [] \<Rightarrow> Some None | [w] \<Rightarrow> map_option Some (f w) | _ \<Rightarrow> None)"

definition decode_any :: "bytes \<Rightarrow> any_value option" where
  "decode_any bs = do { fs \<leftarrow> read_message bs;
     (case fs of
        [] \<Rightarrow> Some AnyEmpty
      | [(f, w)] \<Rightarrow> if f = 1 then map_option AnyString (as_text w)
                    else if f = 2 then (case w of WVarint n \<Rightarrow> Some (AnyBool (n \<noteq> 0)) | _ \<Rightarrow> None)
                    else if f = 3 then map_option AnyInt (as_int w)
                    else if f = 4 then map_option (\<lambda>n. AnyDouble (of_nat n)) (as_fixed w)
                    else None
      | _ \<Rightarrow> None) }"

definition decode_kv :: "bytes \<Rightarrow> key_value option" where
  "decode_kv bs = do { fs \<leftarrow> read_message bs; k \<leftarrow> at_most_one as_text (values_of 1 fs);
     a \<leftarrow> at_most_one (\<lambda>w. do { b \<leftarrow> as_bytes w; decode_any b }) (values_of 2 fs);
     map_option (\<lambda>s. (s, a)) k }"

definition decode_list :: "(bytes \<Rightarrow> 'a option) \<Rightarrow> wire list \<Rightarrow> 'a list option" where
  "decode_list f ws = those (map (\<lambda>w. do { b \<leftarrow> as_bytes w; f b }) ws)"

definition decode_log :: "bytes \<Rightarrow> log_data option" where
  "decode_log bs = do { fs \<leftarrow> read_message bs;
     t \<leftarrow> at_most_one as_fixed (values_of 1 fs);
     n \<leftarrow> at_most_one as_int (values_of 2 fs);
     x \<leftarrow> at_most_one as_text (values_of 3 fs);
     b \<leftarrow> at_most_one (\<lambda>w. do { c \<leftarrow> as_bytes w; decode_any c }) (values_of 5 fs);
     a \<leftarrow> decode_list decode_kv (values_of 6 fs);
     r \<leftarrow> at_most_one as_fixed (values_of 11 fs);
     Some \<lparr>l_time = t, l_sevnum = n, l_sevtext = x, l_body = b, l_attrs = a, l_observed = r\<rparr> }"

definition decode_scope :: "bytes \<Rightarrow> scope_data option" where
  "decode_scope bs = do { fs \<leftarrow> read_message bs; n \<leftarrow> at_most_one as_text (values_of 1 fs);
     v \<leftarrow> at_most_one as_text (values_of 2 fs); Some (n, v) }"

definition decode_scope_logs :: "bytes \<Rightarrow> scope_logs option" where
  "decode_scope_logs bs = do { fs \<leftarrow> read_message bs;
     sc \<leftarrow> at_most_one (\<lambda>w. do { c \<leftarrow> as_bytes w; decode_scope c }) (values_of 1 fs);
     rs \<leftarrow> decode_list decode_log (values_of 2 fs); Some (sc, rs) }"

definition decode_resource :: "bytes \<Rightarrow> key_value list option" where
  "decode_resource bs = do { fs \<leftarrow> read_message bs; decode_list decode_kv (values_of 1 fs) }"

definition decode_resource_logs :: "bytes \<Rightarrow> resource_logs option" where
  "decode_resource_logs bs = do { fs \<leftarrow> read_message bs;
     r \<leftarrow> at_most_one (\<lambda>w. do { c \<leftarrow> as_bytes w; decode_resource c }) (values_of 1 fs);
     ss \<leftarrow> decode_list decode_scope_logs (values_of 2 fs); Some (r, ss) }"

definition decode_request :: "bytes \<Rightarrow> resource_logs list option" where
  "decode_request bs = do { fs \<leftarrow> read_message bs; decode_list decode_resource_logs (values_of 1 fs) }"

text \<open>The values which the code can write: numbers in range.\<close>

fun valid_any :: "any_value \<Rightarrow> bool" where
  "valid_any (AnyInt n) \<longleftrightarrow> - (2 ^ 63) \<le> n \<and> n < 2 ^ 63"
| "valid_any _ \<longleftrightarrow> True"

definition valid_kv :: "key_value \<Rightarrow> bool" where
  "valid_kv kv \<longleftrightarrow> pred_option valid_any (snd kv)"

definition valid_log :: "log_data \<Rightarrow> bool" where
  "valid_log r \<longleftrightarrow> pred_option (\<lambda>t. t < 2 ^ 64) (l_time r) \<and> pred_option (\<lambda>n. - (2 ^ 31) \<le> n \<and> n < 2 ^ 31) (l_sevnum r) \<and>
     pred_option valid_any (l_body r) \<and> list_all valid_kv (l_attrs r) \<and> pred_option (\<lambda>t. t < 2 ^ 64) (l_observed r)"

definition valid_resource_logs :: "resource_logs \<Rightarrow> bool" where
  "valid_resource_logs rl \<longleftrightarrow> pred_option (list_all valid_kv) (fst rl) \<and> list_all (\<lambda>sl. list_all valid_log (snd sl)) (snd rl)"

text \<open>What is read from a message which starts with fields.\<close>

definition reads_as :: "bytes \<Rightarrow> (nat \<times> wire) list \<Rightarrow> bool" where
  "reads_as bs fs \<longleftrightarrow> (\<forall>r. read_message (bs @ r) = map_option (\<lambda>gs. fs @ gs) (read_message r))"

lemma reads_as_append: "reads_as a fs \<Longrightarrow> reads_as b gs \<Longrightarrow> reads_as (a @ b) (fs @ gs)"
  by (simp add: reads_as_def option.map_comp comp_def)

lemma reads_as_message: "reads_as a fs \<Longrightarrow> read_message a = Some fs"
  using reads_as_def [of a fs] by (metis append_Nil2 option.simps(9) read_message_Nil)

lemma reads_as_Nil: "reads_as [] []"
  by (simp add: reads_as_def option.map_ident)

lemma reads_as_varint: "f < 2 ^ 60 \<Longrightarrow> reads_as (AddVarintField f v) [(f, WVarint (unat v))]"
  by (simp add: reads_as_def read_varint_field)

lemma reads_as_fixed: "f < 2 ^ 60 \<Longrightarrow> reads_as (AddFixed64Field f v) [(f, WFixed64 (unat v))]"
  by (simp add: reads_as_def read_fixed_field)

lemma reads_as_bytes: "f < 2 ^ 60 \<Longrightarrow> length b < 2 ^ 64 \<Longrightarrow> reads_as (AddBytesField f b) [(f, WLen b)]"
  by (simp add: reads_as_def read_bytes_field)

lemma reads_as_opt: "(\<And>y. x = Some y \<Longrightarrow> reads_as (f y) [g y]) \<Longrightarrow> reads_as (opt_bytes f x) (case x of None \<Rightarrow> [] | Some y \<Rightarrow> [g y])"
  by (cases x) (simp_all add: opt_bytes_def reads_as_Nil)

lemma reads_as_list: "f < 2 ^ 60 \<Longrightarrow> \<forall>b \<in> set bs. length b < 2 ^ 64 \<Longrightarrow> reads_as (concat (map (AddBytesField f) bs)) (map (\<lambda>b. (f, WLen b)) bs)"
  by (simp add: reads_as_def read_bytes_fields)

lemma length_AddBytesField: "length b < length (AddBytesField f b)"
proof -
  have "AddVarint (of_nat (length b)) \<noteq> []"
    by simp
  then show ?thesis
    by (simp add: AddBytesField_def)
qed

lemma length_in_list:
  assumes "b \<in> set bs"
  shows "length b < length (concat (map (AddBytesField f) bs))"
proof -
  obtain us vs where "bs = us @ b # vs"
    using split_list [OF assms] by blast
  then show ?thesis
    using length_AddBytesField [of b f] by simp
qed

lemma length_in_opt: "length (f y) \<le> length (opt_bytes f (Some y))"
  by (simp add: opt_bytes_def)

definition opt_field :: "nat \<Rightarrow> ('a \<Rightarrow> wire) \<Rightarrow> 'a option \<Rightarrow> (nat \<times> wire) list" where
  "opt_field f w x = (case x of None \<Rightarrow> [] | Some y \<Rightarrow> [(f, w y)])"

lemma reads_as_opt_field: "(\<And>y. x = Some y \<Longrightarrow> reads_as (e y) [(f, w y)]) \<Longrightarrow> reads_as (opt_bytes e x) (opt_field f w x)"
  by (cases x) (simp_all add: opt_bytes_def opt_field_def reads_as_Nil)

lemma values_of_simps [simp]:
  "values_of f [] = []"
  "values_of f (a @ b) = values_of f a @ values_of f b"
  "values_of f ((g, w) # r) = (if g = f then w # values_of f r else values_of f r)"
  "values_of f (map (\<lambda>b. (g, h b)) bs) = (if g = f then map h bs else [])"
  "values_of f (opt_field g v x) = (if g = f then (case x of None \<Rightarrow> [] | Some y \<Rightarrow> [v y]) else [])"
  by (simp_all add: values_of_def opt_field_def filter_map comp_def split: option.splits)

lemma at_most_one_case [simp]:
  "(\<And>y. x = Some y \<Longrightarrow> f (v y) = Some y) \<Longrightarrow> at_most_one f (case x of None \<Rightarrow> [] | Some y \<Rightarrow> [v y]) = Some x"
  by (cases x) (simp_all add: at_most_one_def)

lemma decode_list_map:
  assumes "\<And>x. x \<in> set xs \<Longrightarrow> f (e x) = Some x"
  shows "decode_list f (map (\<lambda>b. WLen (e b)) xs) = Some xs"
  using assms by (induction xs) (simp_all add: decode_list_def as_bytes_def)

lemma as_text_to_bytes [simp]: "as_text (WLen (to_bytes s)) = Some s"
proof -
  have "unat (of_char c :: byte) = of_char c" for c
  proof -
    have "(of_char c :: byte) = of_nat (of_char c)"
      by (rule of_nat_of_char [symmetric])
    then show ?thesis
      by (simp only: unat_of_nat) simp
  qed
  then show ?thesis
    by (simp add: as_text_def to_bytes_def comp_def)
qed

lemma as_int_of_int:
  assumes "- (2 ^ 63) \<le> n" and "n < 2 ^ 63"
  shows "as_int (WVarint (unat (of_int n :: 64 word))) = Some n"
proof (cases "n < 0")
  case True
  then have "(n + 2 ^ 64) mod 2 ^ 64 = n + 2 ^ 64"
    using assms(1) by (intro mod_pos_pos_trivial) auto
  then have "n mod 2 ^ 64 = n + 2 ^ 64"
    by simp
  then have "unat (of_int n :: 64 word) = nat (n + 2 ^ 64)"
    by (simp add: uint_word_of_int flip: nat_uint_eq)
  then show ?thesis
    using assms True by (simp add: as_int_def)
next
  case False
  then have "unat (of_int n :: 64 word) = nat n"
    using assms(2) by (simp add: uint_word_of_int flip: nat_uint_eq)
  then show ?thesis
    using assms False by (simp add: as_int_def)
qed

lemma decode_any_enc:
  assumes "valid_any a" and "length (enc_any a) < 2 ^ 64"
  shows "decode_any (enc_any a) = Some a"
proof (cases a)
  case AnyEmpty
  then show ?thesis
    by (simp add: decode_any_def)
next
  case (AnyString s)
  then have "read_message (enc_any a) = Some [(1, WLen (to_bytes s))]"
    using reads_as_message [OF reads_as_bytes [of 1 "to_bytes s"]] assms(2) length_AddBytesField [of "to_bytes s" 1] by simp
  then show ?thesis
    using AnyString by (simp add: decode_any_def)
next
  case (AnyBool b)
  then have "read_message (enc_any a) = Some [(2, WVarint (if b then 1 else 0))]"
    using reads_as_message [OF reads_as_varint [of 2 "if b then 1 else 0"]] by (cases b) simp_all
  then show ?thesis
    using AnyBool by (simp add: decode_any_def)
next
  case (AnyInt n)
  then have "read_message (enc_any a) = Some [(3, WVarint (unat (of_int n :: 64 word)))]"
    using reads_as_message [OF reads_as_varint [of 3 "of_int n"]] by simp
  then show ?thesis
    using AnyInt assms(1) as_int_of_int [of n] by (simp add: decode_any_def)
next
  case (AnyDouble d)
  then have "read_message (enc_any a) = Some [(4, WFixed64 (unat d))]"
    using reads_as_message [OF reads_as_fixed [of 4 d]] by simp
  then show ?thesis
    using AnyDouble by (simp add: decode_any_def as_fixed_def)
qed

lemma decode_kv_enc:
  assumes "valid_kv kv" and "length (enc_kv kv) < 2 ^ 64"
  shows "decode_kv (enc_kv kv) = Some kv"
proof -
  obtain k a where kv: "kv = (k, a)" by force
  have l: "length (to_bytes k) < 2 ^ 64" "\<And>y. a = Some y \<Longrightarrow> length (enc_any y) < 2 ^ 64"
    using assms(2) kv length_AddBytesField [of "to_bytes k" 1] length_AddBytesField [of "enc_any (the a)" 2]
    by (auto simp: enc_kv_def opt_bytes_def)
  have v: "\<And>y. a = Some y \<Longrightarrow> valid_any y"
    using assms(1) kv by (simp add: valid_kv_def)
  have "reads_as (enc_kv kv) ([(1, WLen (to_bytes k))] @ opt_field 2 (\<lambda>a. WLen (enc_any a)) a)"
    unfolding enc_kv_def kv fst_conv snd_conv
    by (intro reads_as_append reads_as_bytes reads_as_opt_field) (use l in simp_all)
  from reads_as_message [OF this] show ?thesis
    using kv decode_any_enc [OF v l(2)] by (simp add: decode_kv_def at_most_one_def [of as_text] as_bytes_def)
qed

lemma unat_of_nat_64: "n < 2 ^ 64 \<Longrightarrow> unat (of_nat n :: 64 word) = n"
  by (simp add: unat_of_nat)

lemma bytes_in_field: "length (AddBytesField f b) < 2 ^ 64 \<Longrightarrow> length b < 2 ^ 64"
  using length_AddBytesField [of b f] by simp

lemma bytes_in_opt:
  assumes "length (opt_bytes (\<lambda>y. AddBytesField f (e y)) x) < 2 ^ 64" and "x = Some y"
  shows "length (e y) < 2 ^ 64"
  by (rule bytes_in_field [of f]) (use assms in \<open>simp add: opt_bytes_def\<close>)

lemma bytes_in_list: "length (concat (map (AddBytesField f) bs)) < 2 ^ 64 \<Longrightarrow> \<forall>b \<in> set bs. length b < 2 ^ 64"
  using length_in_list [of _ bs f] less_trans by blast

lemma decode_log_enc:
  assumes v: "valid_log r" and l: "length (enc_log r) < 2 ^ 64"
  shows "decode_log (enc_log r) = Some r"
proof -
  have pieces: "length (opt_bytes (\<lambda>s. AddBytesField 3 (to_bytes s)) (l_sevtext r)) < 2 ^ 64"
    "length (opt_bytes (\<lambda>a. AddBytesField 5 (enc_any a)) (l_body r)) < 2 ^ 64"
    "length (concat (map (AddBytesField 6) (map enc_kv (l_attrs r)))) < 2 ^ 64"
    using l by (simp_all add: enc_log_def)
  have s3: "\<And>s. l_sevtext r = Some s \<Longrightarrow> length (to_bytes s) < 2 ^ 64"
    by (rule bytes_in_opt [OF pieces(1)])
  have s5: "\<And>a. l_body r = Some a \<Longrightarrow> length (enc_any a) < 2 ^ 64"
    by (rule bytes_in_opt [OF pieces(2)])
  have s6: "\<forall>b \<in> set (map enc_kv (l_attrs r)). length b < 2 ^ 64"
    by (rule bytes_in_list [OF pieces(3)])
  have "reads_as (enc_log r)
      (opt_field 1 (\<lambda>t. WFixed64 (unat (of_nat t :: 64 word))) (l_time r) @ opt_field 2 (\<lambda>n. WVarint (unat (of_int n :: 64 word))) (l_sevnum r) @
       opt_field 3 (\<lambda>s. WLen (to_bytes s)) (l_sevtext r) @ opt_field 5 (\<lambda>a. WLen (enc_any a)) (l_body r) @
       map (\<lambda>b. (6, WLen b)) (map enc_kv (l_attrs r)) @ opt_field 11 (\<lambda>t. WFixed64 (unat (of_nat t :: 64 word))) (l_observed r))"
    unfolding enc_log_def
    by (intro reads_as_append reads_as_opt_field reads_as_list reads_as_fixed reads_as_varint reads_as_bytes) (use s3 s5 s6 in simp_all)
  note m = reads_as_message [OF this]
  have t: "\<And>y. l_time r = Some y \<Longrightarrow> as_fixed (WFixed64 (unat (of_nat y :: 64 word))) = Some y"
    "\<And>y. l_observed r = Some y \<Longrightarrow> as_fixed (WFixed64 (unat (of_nat y :: 64 word))) = Some y"
    using v by (simp_all add: valid_log_def as_fixed_def unat_of_nat_64)
  have n: "\<And>y. l_sevnum r = Some y \<Longrightarrow> as_int (WVarint (unat (of_int y :: 64 word))) = Some y"
    using v by (intro as_int_of_int) (auto simp: valid_log_def)
  have b: "\<And>y. l_body r = Some y \<Longrightarrow> Option.bind (as_bytes (WLen (enc_any y))) decode_any = Some y"
    using v s5 by (simp add: valid_log_def as_bytes_def decode_any_enc)
  have a: "decode_list decode_kv (map (\<lambda>kv. WLen (enc_kv kv)) (l_attrs r)) = Some (l_attrs r)"
    by (rule decode_list_map) (use v s6 decode_kv_enc in \<open>auto simp: valid_log_def list_all_iff\<close>)
  show ?thesis
    unfolding decode_log_def m by (simp add: t n b a comp_def)
qed

lemma decode_scope_enc:
  assumes "length (enc_scope sc) < 2 ^ 64"
  shows "decode_scope (enc_scope sc) = Some sc"
proof -
  obtain a b where sc: "sc = (a, b)" by force
  have l: "length (opt_bytes (\<lambda>s. AddBytesField 1 (to_bytes s)) a) < 2 ^ 64" "length (opt_bytes (\<lambda>s. AddBytesField 2 (to_bytes s)) b) < 2 ^ 64"
    using assms sc by (simp_all add: enc_scope_def)
  have s: "\<And>s. a = Some s \<Longrightarrow> length (to_bytes s) < 2 ^ 64" "\<And>s. b = Some s \<Longrightarrow> length (to_bytes s) < 2 ^ 64"
    using bytes_in_opt [OF l(1)] bytes_in_opt [OF l(2)] by blast+
  have "reads_as (enc_scope sc) (opt_field 1 (\<lambda>s. WLen (to_bytes s)) a @ opt_field 2 (\<lambda>s. WLen (to_bytes s)) b)"
    unfolding enc_scope_def sc fst_conv snd_conv by (intro reads_as_append reads_as_opt_field reads_as_bytes) (use s in simp_all)
  from reads_as_message [OF this] show ?thesis
    using sc by (simp add: decode_scope_def)
qed

lemma decode_scope_logs_enc:
  assumes v: "list_all valid_log (snd sl)" and l: "length (enc_scope_logs sl) < 2 ^ 64"
  shows "decode_scope_logs (enc_scope_logs sl) = Some sl"
proof -
  obtain sc rs where sl: "sl = (sc, rs)" by force
  have pieces: "length (opt_bytes (\<lambda>sc. AddBytesField 1 (enc_scope sc)) sc) < 2 ^ 64" "length (concat (map (AddBytesField 2) (map enc_log rs))) < 2 ^ 64"
    using l sl by (simp_all add: enc_scope_logs_def)
  have s1: "\<And>x. sc = Some x \<Longrightarrow> length (enc_scope x) < 2 ^ 64"
    by (rule bytes_in_opt [OF pieces(1)])
  have s2: "\<forall>b \<in> set (map enc_log rs). length b < 2 ^ 64"
    by (rule bytes_in_list [OF pieces(2)])
  have "reads_as (enc_scope_logs sl) (opt_field 1 (\<lambda>x. WLen (enc_scope x)) sc @ map (\<lambda>b. (2, WLen b)) (map enc_log rs))"
    unfolding enc_scope_logs_def sl fst_conv snd_conv
    by (intro reads_as_append reads_as_opt_field reads_as_list reads_as_bytes) (use s1 s2 in simp_all)
  note m = reads_as_message [OF this]
  have a: "decode_list decode_log (map (\<lambda>r. WLen (enc_log r)) rs) = Some rs"
    by (rule decode_list_map) (use v sl s2 decode_log_enc in \<open>auto simp: list_all_iff\<close>)
  show ?thesis
    unfolding decode_scope_logs_def m using sl s1 by (simp add: a as_bytes_def decode_scope_enc comp_def)
qed

lemma decode_resource_enc:
  assumes v: "list_all valid_kv kvs" and l: "length (enc_resource kvs) < 2 ^ 64"
  shows "decode_resource (enc_resource kvs) = Some kvs"
proof -
  have s: "\<forall>b \<in> set (map enc_kv kvs). length b < 2 ^ 64"
    using l unfolding enc_resource_def by (rule bytes_in_list)
  have "reads_as (enc_resource kvs) (map (\<lambda>b. (1, WLen b)) (map enc_kv kvs))"
    unfolding enc_resource_def by (rule reads_as_list) (use s in simp_all)
  note m = reads_as_message [OF this]
  have "decode_list decode_kv (map (\<lambda>kv. WLen (enc_kv kv)) kvs) = Some kvs"
    by (rule decode_list_map) (use v s decode_kv_enc in \<open>auto simp: list_all_iff\<close>)
  then show ?thesis
    unfolding decode_resource_def m by (simp add: comp_def)
qed

lemma decode_resource_logs_enc:
  assumes v: "valid_resource_logs rl" and l: "length (enc_resource_logs rl) < 2 ^ 64"
  shows "decode_resource_logs (enc_resource_logs rl) = Some rl"
proof -
  obtain r ss where rl: "rl = (r, ss)" by force
  have pieces: "length (opt_bytes (\<lambda>r. AddBytesField 1 (enc_resource r)) r) < 2 ^ 64" "length (concat (map (AddBytesField 2) (map enc_scope_logs ss))) < 2 ^ 64"
    using l rl by (simp_all add: enc_resource_logs_def)
  have s1: "\<And>x. r = Some x \<Longrightarrow> length (enc_resource x) < 2 ^ 64"
    by (rule bytes_in_opt [OF pieces(1)])
  have s2: "\<forall>b \<in> set (map enc_scope_logs ss). length b < 2 ^ 64"
    by (rule bytes_in_list [OF pieces(2)])
  have "reads_as (enc_resource_logs rl) (opt_field 1 (\<lambda>x. WLen (enc_resource x)) r @ map (\<lambda>b. (2, WLen b)) (map enc_scope_logs ss))"
    unfolding enc_resource_logs_def rl fst_conv snd_conv
    by (intro reads_as_append reads_as_opt_field reads_as_list reads_as_bytes) (use s1 s2 in simp_all)
  note m = reads_as_message [OF this]
  have a: "decode_list decode_scope_logs (map (\<lambda>s. WLen (enc_scope_logs s)) ss) = Some ss"
    by (rule decode_list_map) (use v rl s2 decode_scope_logs_enc in \<open>auto simp: list_all_iff valid_resource_logs_def\<close>)
  have "\<And>x. r = Some x \<Longrightarrow> Option.bind (as_bytes (WLen (enc_resource x))) decode_resource = Some x"
    using v rl s1 by (simp add: valid_resource_logs_def as_bytes_def decode_resource_enc)
  with a show ?thesis
    unfolding decode_resource_logs_def m using rl by (simp add: comp_def)
qed

lemma decode_request_enc:
  assumes v: "list_all valid_resource_logs rls" and l: "length (enc_request rls) < 2 ^ 64"
  shows "decode_request (enc_request rls) = Some rls"
proof -
  have s: "\<forall>b \<in> set (map enc_resource_logs rls). length b < 2 ^ 64"
    using l unfolding enc_request_def by (rule bytes_in_list)
  have "reads_as (enc_request rls) (map (\<lambda>b. (1, WLen b)) (map enc_resource_logs rls))"
    unfolding enc_request_def by (rule reads_as_list) (use s in simp_all)
  note m = reads_as_message [OF this]
  have "decode_list decode_resource_logs (map (\<lambda>kv. WLen (enc_resource_logs kv)) rls) = Some rls"
    by (rule decode_list_map) (use v s decode_resource_logs_enc in \<open>auto simp: list_all_iff\<close>)
  then show ?thesis
    unfolding decode_request_def m by (simp add: comp_def)
qed

section \<open>Numbers are in range\<close>

lemma opt_pred: "opt n v f = Some x \<Longrightarrow> (\<And>p y. f p = Some y \<Longrightarrow> P y) \<Longrightarrow> pred_option P x"
  by (auto simp: opt_def split: option.splits)

lemma those_all: "those (map f vs) = Some xs \<Longrightarrow> (\<And>p y. f p = Some y \<Longrightarrow> P y) \<Longrightarrow> list_all P xs"
  by (induction vs arbitrary: xs) (auto split: option.splits)

lemma json_list_all: "json_list f v = Some xs \<Longrightarrow> (\<And>p y. f p = Some y \<Longrightarrow> P y) \<Longrightarrow> list_all P xs"
  by (cases v) (auto simp: json_list_def intro: those_all)

lemma opt_list_all:
  assumes "opt n v (json_list f) = Some x" and "\<And>p y. f p = Some y \<Longrightarrow> P y"
  shows "pred_option (list_all P) x \<and> list_all P (the_list x)"
proof -
  have "pred_option (list_all P) x"
    by (rule opt_pred [OF assms(1)]) (rule json_list_all, assumption, rule assms(2))
  then show ?thesis
    by (cases x) (simp_all add: the_list_def)
qed

lemma json_u64_range: "json_u64 v = Some n \<Longrightarrow> n < 2 ^ 64"
  by (cases v) (auto simp: json_u64_def split: if_splits)

lemma json_i32_range: "json_i32 v = Some n \<Longrightarrow> - (2 ^ 31) \<le> n \<and> n < 2 ^ 31"
  by (cases v) (auto simp: json_i32_def split: if_splits)

lemma json_i64_range: "json_i64 v = Some n \<Longrightarrow> valid_any (AnyInt n)"
  by (cases v) (auto simp: json_i64_def split: if_splits)

lemma json_any_range: "json_any d v = Some a \<Longrightarrow> valid_any a"
  using json_i64_range by (fastforce simp: json_any_def split: if_splits json.splits list.splits prod.splits)

lemma json_kv_range: "json_kv d v = Some kv \<Longrightarrow> valid_kv kv"
  by (auto simp: json_kv_def valid_kv_def bind_eq_Some_conv split: if_splits dest!: opt_pred [where P = valid_any] intro: json_any_range)

lemma json_log_range:
  assumes "json_log d v = Some r"
  shows "valid_log r"
proof -
  from assms obtain t n x b a q where
    o: "opt ''timeUnixNano'' v json_u64 = Some t" "opt ''severityNumber'' v json_i32 = Some n" "opt ''body'' v (json_any d) = Some b"
      "opt ''attributes'' v (json_list (json_kv d)) = Some a" "opt ''observedTimeUnixNano'' v json_u64 = Some q"
    and r: "r = \<lparr>l_time = t, l_sevnum = n, l_sevtext = x, l_body = b, l_attrs = the_list a, l_observed = q\<rparr>"
    by (auto simp: json_log_def bind_eq_Some_conv split: if_splits)
  show ?thesis
    unfolding r valid_log_def
    using opt_pred [OF o(1) json_u64_range] opt_pred [OF o(2) json_i32_range] opt_pred [OF o(3) json_any_range]
      opt_list_all [OF o(4) json_kv_range] opt_pred [OF o(5) json_u64_range] by simp
qed

lemma json_resource_range: "json_resource d v = Some kvs \<Longrightarrow> list_all valid_kv kvs"
  by (auto simp: json_resource_def split: if_splits dest: opt_list_all [OF _ json_kv_range])

lemma json_scope_logs_range: "json_scope_logs d v = Some sl \<Longrightarrow> list_all valid_log (snd sl)"
  by (auto simp: json_scope_logs_def bind_eq_Some_conv split: if_splits dest: opt_list_all [OF _ json_log_range])

lemma json_resource_logs_range: "json_resource_logs d v = Some rl \<Longrightarrow> valid_resource_logs rl"
  by (auto simp: json_resource_logs_def valid_resource_logs_def bind_eq_Some_conv split: if_splits
      dest: opt_list_all [OF _ json_scope_logs_range] opt_pred [OF _ json_resource_range])

lemma json_request_range: "json_request d v = Some rls \<Longrightarrow> list_all valid_resource_logs rls"
  by (auto simp: json_request_def split: if_splits dest: opt_list_all [OF _ json_resource_logs_range])

section \<open>The properties\<close>

text \<open>C14. Nothing is lost or changed in the conversion: the protobuf which is made from a JSON request is read back, by a
  reader of the protobuf format and the messages of OTLP, as the log data which the JSON stands for: all resources,
  scopes, records, their order, times, severities, bodies and attributes.\<close>

theorem protobuf_has_the_log_data:
  assumes "ConvertOtlpJsonToProtobuf parse int_double (Some js) = Inr out" and "length out < 2 ^ 64"
  shows "\<exists>j data. parse js = Inr j \<and> json_request int_double j = Some data \<and> decode_request out = Some data"
proof -
  have "Option.bind (to_option (parse js)) (\<lambda>j. map_option enc_request (json_request int_double j)) = Some out"
    using Request_converts [of parse int_double js] assms(1) by simp
  then obtain j data where "parse js = Inr j" "json_request int_double j = Some data" "out = enc_request data"
    by (auto simp: bind_eq_Some_conv to_option_def split: sum.splits)
  then show ?thesis
    using decode_request_enc [OF json_request_range] assms(2) by blast
qed

definition small_json :: json where
  "small_json = JObj [(''resourceLogs'', JArr [JObj [(''scopeLogs'', JArr [JObj [(''logRecords'', JArr [JObj
     [(''severityNumber'', JInt 9), (''body'', JObj [(''stringValue'', JStr ''hi'')])]])]])]])]"

lemma small_json_converts:
  "ConvertOtlpJsonToProtobuf (\<lambda>_. Inr small_json) (\<lambda>_. 0) (Some ''x'') =
     Inr [10, 12, 18, 10, 18, 8, 16, 9, 42, 4, 10, 2, 104, 105]"
  by (simp add: ConvertOtlpJsonToProtobuf_def ConvertRequest_def small_json_def CheckObject_def CheckArray_def opt_member_def Find_def
      ConvertResourceLogs_def ConvertScopeLogs_def ConvertLogRecord_def ConvertAnyValue_def CheckString_def IsInt_def c_str_def
      AddBytesField_def AddVarintField_def AddTag_def AddVarint.simps)

theorem protobuf_has_the_log_data_witness:
  "\<exists>data. json_request (\<lambda>_. 0) small_json = Some data \<and> decode_request [10, 12, 18, 10, 18, 8, 16, 9, 42, 4, 10, 2, 104, 105] = Some data"
  using protobuf_has_the_log_data [OF small_json_converts] by simp


text \<open>Two kinds of members are lost without an error: one whose name is a known name followed by a zero byte and more
  (the check compares C strings, the search does not), and the second one of two members with the same name.\<close>

theorem converter_loses_members_silently:
  "ConvertOtlpJsonToProtobuf (\<lambda>_. Inr (JObj [(''resourceLogs'' @ [CHR 0x00] @ ''x'', JArr [JNull])])) int_double (Some js) = Inr [] \<and>
   ConvertOtlpJsonToProtobuf (\<lambda>_. Inr (JObj [(''resourceLogs'', JArr []), (''resourceLogs'', JArr [JNull])])) int_double (Some js) = Inr []"
  by (simp add: ConvertOtlpJsonToProtobuf_def ConvertRequest_def CheckObject_def CheckArray_def opt_member_def Find_def c_str_def)

end
