(* ===== verification/MailLog.thy ===== *)
theory MailLog imports Prelude FileInput begin

text \<open>
  \<^verbatim>\<open>MailLog\<close> (\<^verbatim>\<open>mail-log/mail_log.hpp\<close>, \<^verbatim>\<open>mail-log/mail_log.cpp\<close>): collects the data of a mail message and builds one
  record, a line of JSON. The fields of the object have the prefix \<open>ml_\<close>. A spam score is the text which
  \<^verbatim>\<open>std::to_chars\<close> writes for the \<^verbatim>\<open>double\<close>, or \<open>None\<close> for a value which is not finite.
\<close>

section \<open>The object\<close>

type_synonym AttributeList = "(string \<times> string list) list"

record Recipient =
  rc_Address :: string
  rc_Status :: string
  rc_Code :: int
  rc_EnhancedStatus :: string
  rc_Text :: string

record Attachment =
  at_Name :: string
  at_Size :: int
  at_Sha256 :: string
  at_ContentType :: string

record mail_log =
  ml_Body :: string
  ml_SeverityNumber :: int
  ml_SeverityText :: string
  ml_TimeUnixNano :: int
  ml_ObservedTimeUnixNano :: int
  ml_Size :: int
  ml_ClientPort :: int
  ml_ServerPort :: int
  ml_NetworkLocalPort :: int
  ml_NetworkPeerPort :: int
  ml_SmtpResponseCode :: int
  ml_bSigned :: bool
  ml_bSignedSet :: bool
  ml_bEncrypted :: bool
  ml_bEncryptedSet :: bool
  ml_bTlsEstablished :: bool
  ml_bTlsEstablishedSet :: bool
  ml_SpamScore :: "string option"
  ml_bSpamScoreSet :: bool
  ml_bVirusChecked :: bool
  ml_bVirusCheckedSet :: bool
  ml_Resource :: AttributeList
  ml_Attributes :: AttributeList
  ml_Recipients :: "Recipient list"
  ml_Attachments :: "Attachment list"

definition new_MailLog :: mail_log where
  "new_MailLog = \<lparr>ml_Body = [], ml_SeverityNumber = 0, ml_SeverityText = [], ml_TimeUnixNano = 0, ml_ObservedTimeUnixNano = 0,
     ml_Size = 0, ml_ClientPort = 0, ml_ServerPort = 0, ml_NetworkLocalPort = 0, ml_NetworkPeerPort = 0, ml_SmtpResponseCode = 0,
     ml_bSigned = False, ml_bSignedSet = False, ml_bEncrypted = False, ml_bEncryptedSet = False, ml_bTlsEstablished = False,
     ml_bTlsEstablishedSet = False, ml_SpamScore = Some ''0'', ml_bSpamScoreSet = False, ml_bVirusChecked = False,
     ml_bVirusCheckedSet = False, ml_Resource = [], ml_Attributes = [], ml_Recipients = [], ml_Attachments = []\<rparr>"

section \<open>Attribute lists\<close>

text \<open>The values of a key, \<open>None\<close> for a null pointer.\<close>

fun FindValues :: "AttributeList \<Rightarrow> string \<Rightarrow> string list option" where
  "FindValues [] key = None"
| "FindValues ((k, vs) # es) key = (if k = key then Some vs else FindValues es key)"

fun SetValue :: "AttributeList \<Rightarrow> string \<Rightarrow> string \<Rightarrow> AttributeList" where
  "SetValue [] key v = [(key, [v])]"
| "SetValue ((k, vs) # es) key v = (if k = key then (k, [v]) # es else (k, vs) # SetValue es key v)"

fun AddValue :: "AttributeList \<Rightarrow> string \<Rightarrow> string \<Rightarrow> AttributeList" where
  "AddValue [] key v = [(key, [v])]"
| "AddValue ((k, vs) # es) key v = (if k = key then (k, vs @ [v]) # es else (k, vs) # AddValue es key v)"

definition IsRecipientKey :: "string \<Rightarrow> bool" where
  "IsRecipientKey Key \<longleftrightarrow> Key = ''email.to.addresses'' \<or> Key = ''email.cc.addresses'' \<or> Key = ''email.bcc.addresses''"

definition NormalizeHeaderName :: "string \<Rightarrow> string" where
  "NormalizeHeaderName Name = map (\<lambda>c. let n = (of_char c :: nat) in
     if 97 \<le> n \<and> n \<le> 122 then c
     else if 65 \<le> n \<and> n \<le> 90 then char_of (n - 65 + 97)
     else if 48 \<le> n \<and> n \<le> 57 \<or> c = CHR ''_'' then c
     else CHR ''_'') Name"

section \<open>The setters\<close>

text \<open>The pattern of most setters: an empty text is ignored, any other one becomes the value of a key.\<close>

definition set_resource :: "string \<Rightarrow> string \<Rightarrow> mail_log \<Rightarrow> mail_log" where
  "set_resource key v m = (if v = [] then m else m\<lparr>ml_Resource := SetValue (ml_Resource m) key v\<rparr>)"

definition set_attribute :: "string \<Rightarrow> string \<Rightarrow> mail_log \<Rightarrow> mail_log" where
  "set_attribute key v m = (if v = [] then m else m\<lparr>ml_Attributes := SetValue (ml_Attributes m) key v\<rparr>)"

definition add_attribute :: "string \<Rightarrow> string \<Rightarrow> mail_log \<Rightarrow> mail_log" where
  "add_attribute key v m = (if v = [] then m else m\<lparr>ml_Attributes := AddValue (ml_Attributes m) key v\<rparr>)"

definition SetHostName :: "string \<Rightarrow> mail_log \<Rightarrow> mail_log" where
  "SetHostName v = set_resource ''host.name'' v"

definition SetServiceName :: "string \<Rightarrow> mail_log \<Rightarrow> mail_log" where
  "SetServiceName v = set_resource ''service.name'' v"

definition SetServiceNamespace :: "string \<Rightarrow> mail_log \<Rightarrow> mail_log" where
  "SetServiceNamespace v = set_resource ''service.namespace'' v"

definition SetServiceInstanceId :: "string \<Rightarrow> mail_log \<Rightarrow> mail_log" where
  "SetServiceInstanceId v = set_resource ''service.instance.id'' v"

definition SetFrom :: "string \<Rightarrow> mail_log \<Rightarrow> mail_log" where
  "SetFrom v = set_attribute ''email.from.address'' v"

definition AddTo :: "string \<Rightarrow> mail_log \<Rightarrow> mail_log" where
  "AddTo v = add_attribute ''email.to.addresses'' v"

definition AddCc :: "string \<Rightarrow> mail_log \<Rightarrow> mail_log" where
  "AddCc v = add_attribute ''email.cc.addresses'' v"

definition AddBcc :: "string \<Rightarrow> mail_log \<Rightarrow> mail_log" where
  "AddBcc v = add_attribute ''email.bcc.addresses'' v"

definition SetEnvelopeFrom :: "string \<Rightarrow> mail_log \<Rightarrow> mail_log" where
  "SetEnvelopeFrom v = set_attribute ''email.envelope.from.address'' v"

definition SetSubject :: "string \<Rightarrow> mail_log \<Rightarrow> mail_log" where
  "SetSubject v = set_attribute ''email.subject'' v"

definition SetMessageId :: "string \<Rightarrow> mail_log \<Rightarrow> mail_log" where
  "SetMessageId v = set_attribute ''email.message.id'' v"

definition SetQueueId :: "string \<Rightarrow> mail_log \<Rightarrow> mail_log" where
  "SetQueueId v = set_attribute ''email.queue.id'' v"

definition SetEvent :: "string \<Rightarrow> mail_log \<Rightarrow> mail_log" where
  "SetEvent v = set_attribute ''email.event'' v"

definition SetDirection :: "string \<Rightarrow> mail_log \<Rightarrow> mail_log" where
  "SetDirection v = set_attribute ''email.direction'' v"

definition SetSize :: "int \<Rightarrow> mail_log \<Rightarrow> mail_log" where
  "SetSize n m = (if n \<le> 0 then m else m\<lparr>ml_Size := n\<rparr>)"

definition SetSigned :: "bool \<Rightarrow> mail_log \<Rightarrow> mail_log" where
  "SetSigned b m = m\<lparr>ml_bSigned := b, ml_bSignedSet := True\<rparr>"

definition SetEncrypted :: "bool \<Rightarrow> mail_log \<Rightarrow> mail_log" where
  "SetEncrypted b m = m\<lparr>ml_bEncrypted := b, ml_bEncryptedSet := True\<rparr>"

definition SetCryptoProtocol :: "string \<Rightarrow> mail_log \<Rightarrow> mail_log" where
  "SetCryptoProtocol v = set_attribute ''email.crypto.protocol.name'' v"

definition SetTlsEstablished :: "bool \<Rightarrow> mail_log \<Rightarrow> mail_log" where
  "SetTlsEstablished b m = m\<lparr>ml_bTlsEstablished := b, ml_bTlsEstablishedSet := True\<rparr>"

definition SetTlsProtocolName :: "string \<Rightarrow> mail_log \<Rightarrow> mail_log" where
  "SetTlsProtocolName v = set_attribute ''tls.protocol.name'' v"

definition SetTlsProtocolVersion :: "string \<Rightarrow> mail_log \<Rightarrow> mail_log" where
  "SetTlsProtocolVersion v = set_attribute ''tls.protocol.version'' v"

definition SetTlsCipher :: "string \<Rightarrow> mail_log \<Rightarrow> mail_log" where
  "SetTlsCipher v = set_attribute ''tls.cipher'' v"

definition SetTlsClientSubject :: "string \<Rightarrow> mail_log \<Rightarrow> mail_log" where
  "SetTlsClientSubject v = set_attribute ''tls.client.subject'' v"

definition SetTlsClientIssuer :: "string \<Rightarrow> mail_log \<Rightarrow> mail_log" where
  "SetTlsClientIssuer v = set_attribute ''tls.client.issuer'' v"

definition SetTlsClientSha256 :: "string \<Rightarrow> mail_log \<Rightarrow> mail_log" where
  "SetTlsClientSha256 v = set_attribute ''tls.client.hash.sha256'' v"

definition SetTlsClientNotBefore :: "string \<Rightarrow> mail_log \<Rightarrow> mail_log" where
  "SetTlsClientNotBefore v = set_attribute ''tls.client.not_before'' v"

definition SetTlsClientNotAfter :: "string \<Rightarrow> mail_log \<Rightarrow> mail_log" where
  "SetTlsClientNotAfter v = set_attribute ''tls.client.not_after'' v"

definition SetTlsServerSubject :: "string \<Rightarrow> mail_log \<Rightarrow> mail_log" where
  "SetTlsServerSubject v = set_attribute ''tls.server.subject'' v"

definition SetTlsServerIssuer :: "string \<Rightarrow> mail_log \<Rightarrow> mail_log" where
  "SetTlsServerIssuer v = set_attribute ''tls.server.issuer'' v"

definition SetTlsServerSha256 :: "string \<Rightarrow> mail_log \<Rightarrow> mail_log" where
  "SetTlsServerSha256 v = set_attribute ''tls.server.hash.sha256'' v"

definition SetTlsServerNotBefore :: "string \<Rightarrow> mail_log \<Rightarrow> mail_log" where
  "SetTlsServerNotBefore v = set_attribute ''tls.server.not_before'' v"

definition SetTlsServerNotAfter :: "string \<Rightarrow> mail_log \<Rightarrow> mail_log" where
  "SetTlsServerNotAfter v = set_attribute ''tls.server.not_after'' v"

definition SetClientAddress :: "string \<Rightarrow> mail_log \<Rightarrow> mail_log" where
  "SetClientAddress v = set_attribute ''client.address'' v"

definition SetClientPort :: "int \<Rightarrow> mail_log \<Rightarrow> mail_log" where
  "SetClientPort n m = (if n \<le> 0 then m else m\<lparr>ml_ClientPort := n\<rparr>)"

definition SetServerAddress :: "string \<Rightarrow> mail_log \<Rightarrow> mail_log" where
  "SetServerAddress v = set_attribute ''server.address'' v"

definition SetServerPort :: "int \<Rightarrow> mail_log \<Rightarrow> mail_log" where
  "SetServerPort n m = (if n \<le> 0 then m else m\<lparr>ml_ServerPort := n\<rparr>)"

definition SetNetworkLocalAddress :: "string \<Rightarrow> mail_log \<Rightarrow> mail_log" where
  "SetNetworkLocalAddress v = set_attribute ''network.local.address'' v"

definition SetNetworkLocalPort :: "int \<Rightarrow> mail_log \<Rightarrow> mail_log" where
  "SetNetworkLocalPort n m = (if n \<le> 0 then m else m\<lparr>ml_NetworkLocalPort := n\<rparr>)"

definition SetNetworkPeerAddress :: "string \<Rightarrow> mail_log \<Rightarrow> mail_log" where
  "SetNetworkPeerAddress v = set_attribute ''network.peer.address'' v"

definition SetNetworkPeerPort :: "int \<Rightarrow> mail_log \<Rightarrow> mail_log" where
  "SetNetworkPeerPort n m = (if n \<le> 0 then m else m\<lparr>ml_NetworkPeerPort := n\<rparr>)"

definition SetSmtpHelo :: "string \<Rightarrow> mail_log \<Rightarrow> mail_log" where
  "SetSmtpHelo v = set_attribute ''email.smtp.helo'' v"

definition SetSmtpResponseCode :: "int \<Rightarrow> mail_log \<Rightarrow> mail_log" where
  "SetSmtpResponseCode n m = (if n \<le> 0 then m else m\<lparr>ml_SmtpResponseCode := n\<rparr>)"

definition SetSmtpEnhancedStatus :: "string \<Rightarrow> mail_log \<Rightarrow> mail_log" where
  "SetSmtpEnhancedStatus v = set_attribute ''email.smtp.response.enhanced_status_code'' v"

definition SetSmtpResponseText :: "string \<Rightarrow> mail_log \<Rightarrow> mail_log" where
  "SetSmtpResponseText v = set_attribute ''email.smtp.response.text'' v"

definition SetSpamResult :: "string \<Rightarrow> mail_log \<Rightarrow> mail_log" where
  "SetSpamResult v = set_attribute ''email.spam.result'' v"

definition SetSpfResult :: "string \<Rightarrow> mail_log \<Rightarrow> mail_log" where
  "SetSpfResult v = set_attribute ''email.spf.result'' v"

definition SetDkimResult :: "string \<Rightarrow> mail_log \<Rightarrow> mail_log" where
  "SetDkimResult v = set_attribute ''email.dkim.result'' v"

definition SetDmarcResult :: "string \<Rightarrow> mail_log \<Rightarrow> mail_log" where
  "SetDmarcResult v = set_attribute ''email.dmarc.result'' v"

definition SetSpfDomain :: "string \<Rightarrow> mail_log \<Rightarrow> mail_log" where
  "SetSpfDomain v = set_attribute ''email.spf.domain'' v"

definition SetDkimDomain :: "string \<Rightarrow> mail_log \<Rightarrow> mail_log" where
  "SetDkimDomain v = set_attribute ''email.dkim.domain'' v"

definition SetDkimSelector :: "string \<Rightarrow> mail_log \<Rightarrow> mail_log" where
  "SetDkimSelector v = set_attribute ''email.dkim.selector'' v"

definition SetVirusChecked :: "bool \<Rightarrow> mail_log \<Rightarrow> mail_log" where
  "SetVirusChecked b m = m\<lparr>ml_bVirusChecked := b, ml_bVirusCheckedSet := True\<rparr>"

definition SetVirusResult :: "string \<Rightarrow> mail_log \<Rightarrow> mail_log" where
  "SetVirusResult v = set_attribute ''email.virus.result'' v"

definition SetSpamEngine :: "string \<Rightarrow> mail_log \<Rightarrow> mail_log" where
  "SetSpamEngine v = set_attribute ''email.spam.engine.name'' v"

definition SetVirusEngine :: "string \<Rightarrow> mail_log \<Rightarrow> mail_log" where
  "SetVirusEngine v = set_attribute ''email.virus.engine.name'' v"

definition SetVirusName :: "string \<Rightarrow> mail_log \<Rightarrow> mail_log" where
  "SetVirusName v = set_attribute ''email.virus.threat.name'' v"

definition SetClassification :: "string \<Rightarrow> mail_log \<Rightarrow> mail_log" where
  "SetClassification v = set_attribute ''email.classification'' v"

definition SetAutoSubmitted :: "string \<Rightarrow> mail_log \<Rightarrow> mail_log" where
  "SetAutoSubmitted v = set_attribute ''email.auto_submitted'' v"

definition SetAction :: "string \<Rightarrow> mail_log \<Rightarrow> mail_log" where
  "SetAction v = set_attribute ''email.action'' v"

definition SetReason :: "string \<Rightarrow> mail_log \<Rightarrow> mail_log" where
  "SetReason v = set_attribute ''email.reason'' v"

definition SetPolicyName :: "string \<Rightarrow> mail_log \<Rightarrow> mail_log" where
  "SetPolicyName v = set_attribute ''email.policy.name'' v"

definition SetPolicyId :: "string \<Rightarrow> mail_log \<Rightarrow> mail_log" where
  "SetPolicyId v = set_attribute ''email.policy.id'' v"

definition SetTime :: "int \<Rightarrow> mail_log \<Rightarrow> mail_log" where
  "SetTime n m = (if n \<le> 0 then m else m\<lparr>ml_TimeUnixNano := n\<rparr>)"

definition SetObservedTime :: "int \<Rightarrow> mail_log \<Rightarrow> mail_log" where
  "SetObservedTime n m = (if n \<le> 0 then m else m\<lparr>ml_ObservedTimeUnixNano := n\<rparr>)"

definition SetResourceAttribute :: "string \<Rightarrow> string \<Rightarrow> mail_log \<Rightarrow> mail_log" where
  "SetResourceAttribute Key v m =
     (if Key = [] \<or> v = [] then m else m\<lparr>ml_Resource := SetValue (ml_Resource m) Key v\<rparr>)"

definition SetEnvelopeFromEmpty :: "mail_log \<Rightarrow> mail_log" where
  "SetEnvelopeFromEmpty m = m\<lparr>ml_Attributes := SetValue (ml_Attributes m) ''email.envelope.from.address'' []\<rparr>"

definition AddRecipient :: "string \<Rightarrow> string \<Rightarrow> int \<Rightarrow> string \<Rightarrow> string \<Rightarrow> mail_log \<Rightarrow> mail_log" where
  "AddRecipient Address Status Code EnhancedStatus Txt m =
     (if Address = [] then m
      else m\<lparr>ml_Recipients := ml_Recipients m @ [\<lparr>rc_Address = Address, rc_Status = Status, rc_Code = (if Code > 0 then Code else 0),
             rc_EnhancedStatus = EnhancedStatus, rc_Text = Txt\<rparr>]\<rparr>)"

definition AddAttachment :: "string \<Rightarrow> int \<Rightarrow> string \<Rightarrow> string \<Rightarrow> mail_log \<Rightarrow> mail_log" where
  "AddAttachment Name Bytes Sha256 ContentType m =
     (if Name = [] then m
      else m\<lparr>ml_Attachments := ml_Attachments m @ [\<lparr>at_Name = Name, at_Size = (if Bytes > 0 then Bytes else 0), at_Sha256 = Sha256,
             at_ContentType = ContentType\<rparr>]\<rparr>)"

definition AddHeader :: "string \<Rightarrow> string \<Rightarrow> mail_log \<Rightarrow> mail_log" where
  "AddHeader Name v m =
     (if Name = [] \<or> v = [] then m
      else m\<lparr>ml_Attributes := AddValue (ml_Attributes m) (''email.header.'' @ NormalizeHeaderName Name) v\<rparr>)"

definition SetSpamScore :: "string option \<Rightarrow> mail_log \<Rightarrow> mail_log" where
  "SetSpamScore Score m = m\<lparr>ml_SpamScore := Score, ml_bSpamScoreSet := True\<rparr>"

definition SetBody :: "string \<Rightarrow> mail_log \<Rightarrow> mail_log" where
  "SetBody Txt m = (if Txt = [] then m else m\<lparr>ml_Body := Txt\<rparr>)"

definition SetSeverity :: "int \<Rightarrow> string \<Rightarrow> mail_log \<Rightarrow> mail_log" where
  "SetSeverity Number Txt m =
     (if Number \<le> 0 \<or> Number > 24 then m else m\<lparr>ml_SeverityNumber := Number, ml_SeverityText := Txt\<rparr>)"

definition MailLog_Clear :: "mail_log \<Rightarrow> mail_log" where
  "MailLog_Clear m = m\<lparr>ml_Body := [], ml_SeverityNumber := 0, ml_SeverityText := [], ml_TimeUnixNano := 0, ml_ObservedTimeUnixNano := 0,
     ml_Size := 0, ml_ClientPort := 0, ml_ServerPort := 0, ml_NetworkLocalPort := 0, ml_NetworkPeerPort := 0, ml_SmtpResponseCode := 0,
     ml_bSigned := False, ml_bSignedSet := False, ml_bEncrypted := False, ml_bEncryptedSet := False, ml_bTlsEstablished := False,
     ml_bTlsEstablishedSet := False, ml_SpamScore := Some ''0'', ml_bSpamScoreSet := False, ml_bVirusChecked := False,
     ml_bVirusCheckedSet := False, ml_Resource := [], ml_Attributes := [], ml_Recipients := [], ml_Attachments := []\<rparr>"

section \<open>The record\<close>

text \<open>The characters of the JSON text: the quote is 0x22, the backslash 0x5C. Names in quotes.\<close>

definition in_quotes :: "string \<Rightarrow> string" where
  "in_quotes s = CHR 0x22 # s @ [CHR 0x22]"

definition json_escape :: "char \<Rightarrow> string" where
  "json_escape c =
     (if c = CHR 0x22 then [CHR 0x5C, CHR 0x22] else if c = CHR 0x5C then [CHR 0x5C, CHR 0x5C]
      else if c = CHR 0x08 then CHR 0x5C # ''b'' else if c = CHR 0x0C then CHR 0x5C # ''f''
      else if c = CHR 0x0A then CHR 0x5C # ''n'' else if c = CHR 0x0D then CHR 0x5C # ''r''
      else if c = CHR 0x09 then CHR 0x5C # ''t''
      else if (of_char c :: nat) < 0x20 then CHR 0x5C # ''u00'' @ [hex_digit (of_char c div 16), hex_digit (of_char c mod 16)]
      else [c])"

definition AppendJsonString :: "string \<Rightarrow> string" where
  "AppendJsonString Txt = CHR 0x22 # concat (map json_escape Txt) @ [CHR 0x22]"

text \<open>The parts with commas between them.\<close>

fun with_commas :: "string list \<Rightarrow> string" where
  "with_commas [] = []"
| "with_commas [x] = x"
| "with_commas (x # y # ys) = x @ '','' @ with_commas (y # ys)"

definition AppendRecipient :: "Recipient \<Rightarrow> string" where
  "AppendRecipient e =
     ''{'' @ in_quotes ''address'' @ '':'' @ AppendJsonString (rc_Address e) @
     (if rc_Status e \<noteq> [] then '','' @ in_quotes ''status'' @ '':'' @ AppendJsonString (rc_Status e) else []) @
     (if rc_Code e \<noteq> 0 then '','' @ in_quotes ''code'' @ '':'' @ int_text (rc_Code e) else []) @
     (if rc_EnhancedStatus e \<noteq> [] then '','' @ in_quotes ''enhanced_status_code'' @ '':'' @ AppendJsonString (rc_EnhancedStatus e) else []) @
     (if rc_Text e \<noteq> [] then '','' @ in_quotes ''text'' @ '':'' @ AppendJsonString (rc_Text e) else []) @ ''}''"

definition AppendAttachment :: "Attachment \<Rightarrow> string" where
  "AppendAttachment e =
     ''{'' @ in_quotes ''name'' @ '':'' @ AppendJsonString (at_Name e) @
     (if at_Size e \<noteq> 0 then '','' @ in_quotes ''size_bytes'' @ '':'' @ int_text (at_Size e) else []) @
     (if at_Sha256 e \<noteq> [] then '','' @ in_quotes ''sha256'' @ '':'' @ AppendJsonString (at_Sha256 e) else []) @
     (if at_ContentType e \<noteq> [] then '','' @ in_quotes ''content_type'' @ '':'' @ AppendJsonString (at_ContentType e) else []) @ ''}''"

text \<open>Every resource key has exactly one value; \<open>second[0]\<close> is the first one.\<close>

definition AppendResource :: "AttributeList \<Rightarrow> string" where
  "AppendResource res = ''{'' @ with_commas (map (\<lambda>(k, vs). AppendJsonString k @ '':'' @ AppendJsonString (hd vs)) res) @ ''}''"

definition BuildDefaultBody :: "mail_log \<Rightarrow> string" where
  "BuildDefaultBody m =
     (let AddPart = (\<lambda>part Txt. (if Txt \<noteq> [] then Txt @ '' '' else Txt) @ part);
          find_it = FindValues (ml_Attributes m);
          t1 = (case find_it ''email.event'' of None \<Rightarrow> [] | Some vs \<Rightarrow> AddPart (hd vs) []);
          t2 = (case find_it ''email.action'' of None \<Rightarrow> t1 | Some vs \<Rightarrow> AddPart (hd vs) t1);
          t3 = (case find_it ''email.envelope.from.address'' of
                  Some vs \<Rightarrow> AddPart (''from=<'' @ hd vs @ ''>'') t2
                | None \<Rightarrow> (case find_it ''email.from.address'' of None \<Rightarrow> t2 | Some vs \<Rightarrow> AddPart (''from='' @ hd vs) t2));
          t4 = (case find_it ''email.message.id'' of None \<Rightarrow> t3 | Some vs \<Rightarrow> AddPart (''message-id='' @ hd vs) t3);
          n = (if ml_Recipients m \<noteq> [] then length (ml_Recipients m)
               else sum_list (map (\<lambda>k. case find_it k of None \<Rightarrow> 0 | Some vs \<Rightarrow> length vs)
                      [''email.to.addresses'', ''email.cc.addresses'', ''email.bcc.addresses'']))
      in if n > 0 then AddPart (''nrcpt='' @ dec_text n) t4 else t4)"

definition attribute_field :: "string \<times> string list \<Rightarrow> string" where
  "attribute_field e = (case e of (k, vs) \<Rightarrow>
     AppendJsonString k @ '':'' @
     (if length vs = 1 \<and> \<not> IsRecipientKey k then AppendJsonString (hd vs)
      else ''['' @ with_commas (map AppendJsonString vs) @ '']''))"

definition number_field :: "string \<Rightarrow> int \<Rightarrow> string list" where
  "number_field name n = (if n \<noteq> 0 then [in_quotes name @ '':'' @ int_text n] else [])"

definition bool_field :: "string \<Rightarrow> bool \<Rightarrow> bool \<Rightarrow> string list" where
  "bool_field name is_set b = (if is_set then [in_quotes name @ '':'' @ (if b then ''true'' else ''false'')] else [])"

definition score_text :: "string \<Rightarrow> string" where
  "score_text s = (if \<exists>c \<in> set s. c = CHR ''.'' \<or> c = CHR ''e'' \<or> c = CHR ''E'' then s else s @ ''.0'')"

definition attribute_fields :: "mail_log \<Rightarrow> string list" where
  "attribute_fields m =
     map attribute_field (ml_Attributes m) @
     number_field ''email.size_bytes'' (ml_Size m) @
     (if ml_Attachments m \<noteq> [] then [in_quotes ''email.attachments'' @ '':['' @ with_commas (map AppendAttachment (ml_Attachments m)) @ '']''] else []) @
     (if ml_Recipients m \<noteq> [] then [in_quotes ''email.envelope.recipients'' @ '':['' @ with_commas (map AppendRecipient (ml_Recipients m)) @ '']''] else []) @
     number_field ''client.port'' (ml_ClientPort m) @ number_field ''server.port'' (ml_ServerPort m) @
     number_field ''network.local.port'' (ml_NetworkLocalPort m) @ number_field ''network.peer.port'' (ml_NetworkPeerPort m) @
     number_field ''email.smtp.response.code'' (ml_SmtpResponseCode m) @
     bool_field ''email.signed'' (ml_bSignedSet m) (ml_bSigned m) @ bool_field ''email.encrypted'' (ml_bEncryptedSet m) (ml_bEncrypted m) @
     bool_field ''tls.established'' (ml_bTlsEstablishedSet m) (ml_bTlsEstablished m) @
     (if ml_bSpamScoreSet m then (case ml_SpamScore m of None \<Rightarrow> [] | Some s \<Rightarrow> [in_quotes ''email.spam.score'' @ '':'' @ score_text s]) else []) @
     bool_field ''email.virus.checked'' (ml_bVirusCheckedSet m) (ml_bVirusChecked m)"

definition MailLog_Build :: "mail_log \<Rightarrow> string" where
  "MailLog_Build m =
     (let Body = (if ml_Body m = [] then BuildDefaultBody m else ml_Body m);
          Fields =
            [in_quotes ''scope'' @ '':{'' @ in_quotes ''name'' @ '':'' @ in_quotes ''mail-log'' @ '','' @ in_quotes ''version'' @ '':'' @ in_quotes ''0.1.0'' @ ''}''] @
            (if ml_Resource m \<noteq> [] then [in_quotes ''resource'' @ '':'' @ AppendResource (ml_Resource m)] else []) @
            (if ml_TimeUnixNano m \<noteq> 0 then [in_quotes ''time_unix_nano'' @ '':'' @ in_quotes (int_text (ml_TimeUnixNano m))] else []) @
            (if ml_ObservedTimeUnixNano m \<noteq> 0 then [in_quotes ''observed_time_unix_nano'' @ '':'' @ in_quotes (int_text (ml_ObservedTimeUnixNano m))] else []) @
            (if ml_SeverityNumber m \<noteq> 0 then
               [in_quotes ''severity_number'' @ '':'' @ int_text (ml_SeverityNumber m)] @
               (if ml_SeverityText m \<noteq> [] then [in_quotes ''severity_text'' @ '':'' @ AppendJsonString (ml_SeverityText m)] else [])
             else []) @
            (if Body \<noteq> [] then [in_quotes ''body'' @ '':'' @ AppendJsonString Body] else []) @
            (if attribute_fields m \<noteq> [] then [in_quotes ''attributes'' @ '':{'' @ with_commas (attribute_fields m) @ ''}''] else [])
      in ''{'' @ with_commas Fields @ ''}'')"

end
