(* ===== verification/MailLogProofs.thy ===== *)
theory MailLogProofs imports MailLog begin

text \<open>
  A reader of JSON text, the members of a record (\<open>mail_tree\<close>), and the proof that the text which is built is read back as
  these members.
\<close>

section \<open>JSON text\<close>

datatype jtree = TStr string | TLit string | TArr "jtree list" | TObj "(string \<times> jtree) list"

fun tree_text :: "jtree \<Rightarrow> string" where
  "tree_text (TStr s) = AppendJsonString s"
| "tree_text (TLit l) = l"
| "tree_text (TArr ts) = ''['' @ with_commas (map tree_text ts) @ '']''"
| "tree_text (TObj ms) = ''{'' @ with_commas (map (\<lambda>(k, t). AppendJsonString k @ '':'' @ tree_text t) ms) @ ''}''"

text \<open>The grammar of numbers: a minus, digits without a leading zero, a fraction, an exponent.\<close>

definition is_json_number :: "string \<Rightarrow> bool" where
  "is_json_number s =
     (let t = (if s \<noteq> [] \<and> hd s = CHR ''-'' then tl s else s);
          whole = takeWhile is_digit t; r1 = dropWhile is_digit t;
          frac_ok = (r1 = [] \<or> hd r1 \<noteq> CHR ''.'' \<or> takeWhile is_digit (tl r1) \<noteq> []);
          r2 = (if r1 \<noteq> [] \<and> hd r1 = CHR ''.'' then dropWhile is_digit (tl r1) else r1);
          ex = (if r2 \<noteq> [] \<and> (hd r2 = CHR ''e'' \<or> hd r2 = CHR ''E'') then
                  (if tl r2 \<noteq> [] \<and> (hd (tl r2) = CHR ''+'' \<or> hd (tl r2) = CHR ''-'') then tl (tl r2) else tl r2) else [])
      in whole \<noteq> [] \<and> (length whole > 1 \<longrightarrow> hd whole \<noteq> CHR ''0'') \<and> frac_ok \<and>
         (r2 = [] \<or> (hd r2 = CHR ''e'' \<or> hd r2 = CHR ''E'') \<and> ex \<noteq> [] \<and> list_all is_digit ex))"

definition is_literal :: "string \<Rightarrow> bool" where
  "is_literal l \<longleftrightarrow> l = ''true'' \<or> l = ''false'' \<or> l = ''null'' \<or> is_json_number l"

definition lit_char :: "char \<Rightarrow> bool" where
  "lit_char c \<longleftrightarrow> is_digit c \<or> (97 \<le> (of_char c :: nat) \<and> (of_char c :: nat) \<le> 122) \<or> c \<in> {CHR ''-'', CHR ''+'', CHR ''.'', CHR ''E''}"

definition hex_value :: "char \<Rightarrow> nat option" where
  "hex_value c = (let n = (of_char c :: nat) in
     if 48 \<le> n \<and> n \<le> 57 then Some (n - 48) else if 97 \<le> n \<and> n \<le> 102 then Some (n - 87) else None)"

definition escaped_char :: "char \<Rightarrow> char option" where
  "escaped_char c =
     (if c = CHR 0x22 \<or> c = CHR 0x5C \<or> c = CHR ''/'' then Some c else if c = CHR ''b'' then Some (CHR 0x08)
      else if c = CHR ''f'' then Some (CHR 0x0C) else if c = CHR ''n'' then Some (CHR 0x0A)
      else if c = CHR ''r'' then Some (CHR 0x0D) else if c = CHR ''t'' then Some (CHR 0x09) else None)"

text \<open>The text of a string behind its first quote, and what is left behind the last one. Of the \<^verbatim>\<open>\u\<close> escapes only those
  of one byte are read.\<close>

fun read_chars :: "string \<Rightarrow> (string \<times> string) option" where
  "read_chars [] = None"
| "read_chars (c # cs) =
     (if c = CHR 0x22 then Some ([], cs)
      else if c = CHR 0x5C then
        (case cs of
           [] \<Rightarrow> None
         | e # r \<Rightarrow>
             if e = CHR ''u'' then
               (case r of
                  z1 # z2 # h # l # r' \<Rightarrow>
                    (case (hex_value h, hex_value l) of
                       (Some a, Some b) \<Rightarrow>
                         if z1 = CHR ''0'' \<and> z2 = CHR ''0'' then map_option (\<lambda>(s, q). (char_of (16 * a + b) # s, q)) (read_chars r') else None
                     | _ \<Rightarrow> None)
                | _ \<Rightarrow> None)
             else (case escaped_char e of None \<Rightarrow> None | Some x \<Rightarrow> map_option (\<lambda>(s, q). (x # s, q)) (read_chars r)))
      else if (of_char c :: nat) < 0x20 then None
      else map_option (\<lambda>(s, q). (c # s, q)) (read_chars cs))"

fun read_value :: "nat \<Rightarrow> string \<Rightarrow> (jtree \<times> string) option"
  and read_elements :: "nat \<Rightarrow> string \<Rightarrow> (jtree list \<times> string) option"
  and read_members :: "nat \<Rightarrow> string \<Rightarrow> ((string \<times> jtree) list \<times> string) option"
where
  "read_value 0 s = None"
| "read_value (Suc n) s =
     (case s of
        [] \<Rightarrow> None
      | c # cs \<Rightarrow>
          if c = CHR 0x22 then map_option (\<lambda>(x, r). (TStr x, r)) (read_chars cs)
          else if c = CHR ''['' then
            (if cs \<noteq> [] \<and> hd cs = CHR '']'' then Some (TArr [], tl cs) else map_option (\<lambda>(ts, r). (TArr ts, r)) (read_elements n cs))
          else if c = CHR ''{'' then
            (if cs \<noteq> [] \<and> hd cs = CHR ''}'' then Some (TObj [], tl cs) else map_option (\<lambda>(ms, r). (TObj ms, r)) (read_members n cs))
          else if is_literal (takeWhile lit_char s) then Some (TLit (takeWhile lit_char s), dropWhile lit_char s)
          else None)"
| "read_elements 0 s = None"
| "read_elements (Suc n) s =
     (case read_value n s of
        Some (t, c # r) \<Rightarrow>
          if c = CHR '','' then map_option (\<lambda>(ts, q). (t # ts, q)) (read_elements n r)
          else if c = CHR '']'' then Some ([t], r) else None
      | _ \<Rightarrow> None)"
| "read_members 0 s = None"
| "read_members (Suc n) s =
     (case s of
        [] \<Rightarrow> None
      | q # cs \<Rightarrow>
          if q \<noteq> CHR 0x22 then None
          else case read_chars cs of
            Some (k, d # r) \<Rightarrow>
              if d \<noteq> CHR '':'' then None
              else (case read_value n r of
                      Some (t, c # r') \<Rightarrow>
                        if c = CHR '','' then map_option (\<lambda>(ms, q'). ((k, t) # ms, q')) (read_members n r')
                        else if c = CHR ''}'' then Some ([(k, t)], r') else None
                    | _ \<Rightarrow> None)
          | _ \<Rightarrow> None)"

declare read_value.simps(2) [simp del] read_elements.simps(2) [simp del] read_members.simps(2) [simp del]

text \<open>A whole text. Each nested value takes at least one character, so the length is enough for the recursion.\<close>

definition read_json :: "string \<Rightarrow> jtree option" where
  "read_json s = (case read_value (length s) s of Some (t, []) \<Rightarrow> Some t | _ \<Rightarrow> None)"

section \<open>Reading what was written\<close>

lemma hex_value_digit: "d < 16 \<Longrightarrow> hex_value (hex_digit d) = Some d"
  by (auto simp: hex_value_def hex_digit_def of_char_of Let_def)

lemma read_chars_escape: "read_chars (json_escape c @ r) = map_option (\<lambda>(s, q). (c # s, q)) (read_chars r)"
proof (cases "c \<in> {CHR 0x22, CHR 0x5C, CHR 0x08, CHR 0x0C, CHR 0x0A, CHR 0x0D, CHR 0x09}")
  case True
  then show ?thesis
    by (auto simp: json_escape_def escaped_char_def)
next
  case False
  show ?thesis
  proof (cases "(of_char c :: nat) < 0x20")
    case True
    have "16 * (of_char c div 16) + of_char c mod 16 = (of_char c :: nat)"
      by simp
    then have "char_of (16 * (of_char c div 16) + of_char c mod 16 :: nat) = c"
      by (simp only: char_of_char)
    with True False show ?thesis
      by (simp add: json_escape_def hex_value_digit)
  next
    case big: False
    with False show ?thesis
      by (simp add: json_escape_def)
  qed
qed

lemma read_chars_string: "read_chars (concat (map json_escape s) @ CHR 0x22 # r) = Some (s, r)"
  by (induction s) (simp_all add: read_chars_escape)

lemma read_string: "read_value (Suc n) (AppendJsonString s @ r) = Some (TStr s, r)"
  by (simp add: read_value.simps(2) AppendJsonString_def read_chars_string)

fun tree_ok :: "jtree \<Rightarrow> bool" where
  "tree_ok (TStr s) \<longleftrightarrow> True"
| "tree_ok (TLit l) \<longleftrightarrow> is_literal l \<and> list_all lit_char l"
| "tree_ok (TArr ts) \<longleftrightarrow> list_all tree_ok ts"
| "tree_ok (TObj ms) \<longleftrightarrow> list_all (\<lambda>(k, t). tree_ok t) ms"

fun tree_need :: "jtree \<Rightarrow> nat" where
  "tree_need (TStr s) = 1"
| "tree_need (TLit l) = 1"
| "tree_need (TArr ts) = Suc (sum_list (map (\<lambda>t. Suc (tree_need t)) ts))"
| "tree_need (TObj ms) = Suc (sum_list (map (\<lambda>(k, t). Suc (tree_need t)) ms))"


abbreviation ends_literal :: "string \<Rightarrow> bool" where
  "ends_literal r \<equiv> r = [] \<or> \<not> lit_char (hd r)"

lemma ends_literal_marks [simp]:
  "\<not> lit_char (CHR '','')" "\<not> lit_char (CHR '']'')" "\<not> lit_char (CHR ''}'')" "\<not> lit_char (CHR 0x22)"
  "\<not> lit_char (CHR ''['')" "\<not> lit_char (CHR ''{'')" "\<not> lit_char (CHR '':'')"
  by (simp_all add: lit_char_def is_digit_def)

lemma is_literal_not_Nil: "is_literal l \<Longrightarrow> l \<noteq> []"
  by (auto simp: is_literal_def is_json_number_def Let_def)

lemma read_literal:
  assumes "is_literal l" "list_all lit_char l" "ends_literal r"
  shows "read_value (Suc n) (l @ r) = Some (TLit l, r)"
proof -
  obtain c cs where l: "l = c # cs" "lit_char c"
    using is_literal_not_Nil [OF assms(1)] assms(2) by (cases l) auto
  have all: "\<And>x. x \<in> set l \<Longrightarrow> lit_char x"
    using assms(2) by (simp add: list_all_iff)
  have t: "takeWhile lit_char (l @ r) = l" "dropWhile lit_char (l @ r) = r"
    using assms(3) all by (cases r; simp add: takeWhile_append2 dropWhile_append2)+
  have c: "c \<noteq> CHR 0x22" "c \<noteq> CHR ''[''" "c \<noteq> CHR ''{''"
    using l(2) ends_literal_marks by blast+
  have "read_value (Suc n) (l @ r) = (if is_literal (takeWhile lit_char (l @ r))
      then Some (TLit (takeWhile lit_char (l @ r)), dropWhile lit_char (l @ r)) else None)"
    using c by (simp add: read_value.simps(2) l(1))
  with assms(1) t show ?thesis
    by simp
qed

lemma tree_text_hd:
  assumes "tree_ok t"
  shows "tree_text t \<noteq> [] \<and> hd (tree_text t) \<noteq> CHR '']''"
proof (cases t)
  case (TLit l)
  have "l \<noteq> []" "list_all lit_char l"
    using assms TLit is_literal_not_Nil by auto
  then have "lit_char (hd l)"
    by (cases l) auto
  with \<open>l \<noteq> []\<close> TLit show ?thesis
    by auto
qed (simp_all add: AppendJsonString_def)

definition reads_back :: "jtree \<Rightarrow> bool" where
  "reads_back t \<longleftrightarrow> (\<forall>n r. tree_need t \<le> n \<longrightarrow> ends_literal r \<longrightarrow> read_value n (tree_text t @ r) = Some (t, r))"

lemma reads_backD: "reads_back t \<Longrightarrow> tree_need t \<le> n \<Longrightarrow> ends_literal r \<Longrightarrow> read_value n (tree_text t @ r) = Some (t, r)"
  unfolding reads_back_def by blast

lemma with_commas_Cons: "ys \<noteq> [] \<Longrightarrow> with_commas (x # ys) = x @ '','' @ with_commas ys"
  by (cases ys) simp_all

lemma read_elements_text:
  assumes "ts \<noteq> []" "\<forall>t \<in> set ts. reads_back t" "sum_list (map (\<lambda>t. Suc (tree_need t)) ts) \<le> n"
  shows "read_elements n (with_commas (map tree_text ts) @ CHR '']'' # r) = Some (ts, r)"
  using assms
proof (induction ts arbitrary: n)
  case (Cons t ts)
  then obtain k where n: "n = Suc k" "tree_need t \<le> k"
    by (cases n) auto
  show ?case
  proof (cases "ts = []")
    case True
    have "read_value k (tree_text t @ CHR '']'' # r) = Some (t, CHR '']'' # r)"
      using Cons.prems(2) n(2) by (intro reads_backD) simp_all
    with True show ?thesis
      by (simp add: n(1) read_elements.simps(2))
  next
    case False
    define rest where "rest = with_commas (map tree_text ts) @ CHR '']'' # r"
    have "read_value k (tree_text t @ CHR '','' # rest) = Some (t, CHR '','' # rest)"
      using Cons.prems(2) n(2) by (intro reads_backD) simp_all
    moreover have "read_elements k rest = Some (ts, r)"
      unfolding rest_def using Cons.prems n(1) False by (intro Cons.IH) simp_all
    moreover have "with_commas (map tree_text (t # ts)) @ CHR '']'' # r = tree_text t @ CHR '','' # rest"
      using False by (simp add: rest_def with_commas_Cons)
    ultimately show ?thesis
      by (simp add: n(1) read_elements.simps(2))
  qed
qed simp

abbreviation member_text :: "string \<times> jtree \<Rightarrow> string" where
  "member_text m \<equiv> (case m of (k, t) \<Rightarrow> AppendJsonString k @ '':'' @ tree_text t)"

lemma read_members_text:
  assumes "ms \<noteq> []" "\<forall>m \<in> set ms. reads_back (snd m)" "sum_list (map (\<lambda>(k, t). Suc (tree_need t)) ms) \<le> n"
  shows "read_members n (with_commas (map member_text ms) @ CHR ''}'' # r) = Some (ms, r)"
  using assms
proof (induction ms arbitrary: n)
  case (Cons m ms)
  obtain key t where m: "m = (key, t)"
    by (cases m)
  with Cons.prems obtain k where n: "n = Suc k" "tree_need t \<le> k"
    by (cases n) auto
  have step: "read_members (Suc k) (member_text m @ c # rest) =
      (if c = CHR '','' then map_option (\<lambda>(ms, q'). ((key, t) # ms, q')) (read_members k rest)
       else if c = CHR ''}'' then Some ([(key, t)], rest) else None)" if "\<not> lit_char c" for c rest
  proof -
    have "read_value k (tree_text t @ c # rest) = Some (t, c # rest)"
      using Cons.prems(2) n(2) m that by (intro reads_backD) simp_all
    then show ?thesis
      by (simp add: m read_members.simps(2) AppendJsonString_def read_chars_string)
  qed
  show ?case
  proof (cases "ms = []")
    case True
    then show ?thesis
      using step [of "CHR ''}''" r] by (simp add: n(1) m)
  next
    case False
    define rest where "rest = with_commas (map member_text ms) @ CHR ''}'' # r"
    have "read_members k rest = Some (ms, r)"
      unfolding rest_def using Cons.prems n(1) False m by (intro Cons.IH) simp_all
    moreover have "with_commas (map member_text (m # ms)) @ CHR ''}'' # r = member_text m @ CHR '','' # rest"
      using False by (simp add: rest_def with_commas_Cons)
    ultimately show ?thesis
      using step [of "CHR '',''" rest] by (simp add: n(1) m)
  qed
qed simp

lemma reads_back_tree: "tree_ok t \<Longrightarrow> reads_back t"
proof (induction t)
  case (TStr s)
  have "read_value n (AppendJsonString s @ r) = Some (TStr s, r)" if "1 \<le> n" for n r
    using that read_string by (cases n) simp_all
  then show ?case
    unfolding reads_back_def by simp
next
  case (TLit l)
  have "read_value n (l @ r) = Some (TLit l, r)" if "1 \<le> n" "ends_literal r" for n r
    using that TLit read_literal by (cases n) simp_all
  then show ?case
    unfolding reads_back_def by simp
next
  case (TArr ts)
  have members: "\<forall>t \<in> set ts. reads_back t"
    using TArr by (auto simp: list_all_iff)
  show ?case
    unfolding reads_back_def
  proof (intro allI impI)
    fix n and r :: string
    assume n: "tree_need (TArr ts) \<le> n"
    then obtain k where k: "n = Suc k" "sum_list (map (\<lambda>t. Suc (tree_need t)) ts) \<le> k"
      by (cases n) auto
    show "read_value n (tree_text (TArr ts) @ r) = Some (TArr ts, r)"
    proof (cases ts)
      case Nil
      then show ?thesis
        by (simp add: k(1) read_value.simps(2))
    next
      case (Cons t us)
      have "tree_text t \<noteq> []" "hd (tree_text t) \<noteq> CHR '']''"
        using tree_text_hd [of t] TArr.prems Cons by auto
      then have hd: "hd (with_commas (map tree_text ts) @ CHR '']'' # r) \<noteq> CHR '']''"
        using Cons by (cases us) (simp_all add: with_commas_Cons)
      have "read_elements k (with_commas (map tree_text ts) @ CHR '']'' # r) = Some (ts, r)"
        using members k(2) Cons by (intro read_elements_text) simp_all
      with hd show ?thesis
        by (simp add: k(1) read_value.simps(2))
    qed
  qed
next
  case (TObj ms)
  have members: "\<forall>m \<in> set ms. reads_back (snd m)"
    using TObj by (fastforce simp: list_all_iff)
  show ?case
    unfolding reads_back_def
  proof (intro allI impI)
    fix n and r :: string
    assume n: "tree_need (TObj ms) \<le> n"
    then obtain k where k: "n = Suc k" "sum_list (map (\<lambda>(k, t). Suc (tree_need t)) ms) \<le> k"
      by (cases n) auto
    show "read_value n (tree_text (TObj ms) @ r) = Some (TObj ms, r)"
    proof (cases ms)
      case Nil
      then show ?thesis
        by (simp add: k(1) read_value.simps(2))
    next
      case (Cons m us)
      have hd: "hd (with_commas (map member_text ms) @ CHR ''}'' # r) \<noteq> CHR ''}''"
        using Cons by (cases us) (simp_all add: with_commas_Cons AppendJsonString_def split: prod.splits)
      have "read_members k (with_commas (map member_text ms) @ CHR ''}'' # r) = Some (ms, r)"
        using members k(2) Cons by (intro read_members_text) simp_all
      with hd show ?thesis
        by (simp add: k(1) read_value.simps(2))
    qed
  qed
qed

lemma length_with_commas: "length (with_commas xs) + 1 \<ge> sum_list (map (\<lambda>x. Suc (length x)) xs)"
  by (induction xs rule: with_commas.induct) auto

lemma tree_need_le_length: "tree_ok t \<Longrightarrow> tree_need t \<le> length (tree_text t)"
proof (induction t)
  case (TLit l)
  then have "l \<noteq> []"
    using is_literal_not_Nil by simp
  then show ?case
    by (cases l) simp_all
next
  case (TArr ts)
  have "sum_list (map (\<lambda>t. Suc (tree_need t)) ts) \<le> sum_list (map (\<lambda>t. Suc (length (tree_text t))) ts)"
    using TArr by (intro sum_list_mono) (simp add: list_all_iff)
  then show ?case
    using length_with_commas [of "map tree_text ts"] by (simp add: comp_def)
next
  case (TObj ms)
  have "sum_list (map (\<lambda>(k, t). Suc (tree_need t)) ms) \<le> sum_list (map (\<lambda>m. Suc (length (member_text m))) ms)"
    using TObj by (intro sum_list_mono) (fastforce simp: list_all_iff)
  then show ?case
    using length_with_commas [of "map member_text ms"] by (simp add: comp_def)
qed (simp_all add: AppendJsonString_def)

lemma read_json_tree_text: "tree_ok t \<Longrightarrow> read_json (tree_text t) = Some t"
  using reads_backD [OF reads_back_tree tree_need_le_length, of t "[]"] by (simp add: read_json_def)

end
