(* ===== verification/MailLogTree.thy ===== *)
theory MailLogTree imports MailLogProofs begin

text \<open>
  The members of a mail log record (\<open>mail_tree\<close>), as the table of \<^verbatim>\<open>mail-log/README.md\<close> lists them,
  and the proof that \<^verbatim>\<open>MailLog::Build\<close> writes exactly these.
\<close>

section \<open>Members\<close>

definition text_member :: "string \<Rightarrow> string \<Rightarrow> (string \<times> jtree) list" where
  "text_member name s = (if s = [] then [] else [(name, TStr s)])"

definition number_member :: "string \<Rightarrow> int \<Rightarrow> (string \<times> jtree) list" where
  "number_member name n = (if n = 0 then [] else [(name, TLit (int_text n))])"

definition bool_member :: "string \<Rightarrow> bool \<Rightarrow> bool \<Rightarrow> (string \<times> jtree) list" where
  "bool_member name is_set b = (if is_set then [(name, TLit (if b then ''true'' else ''false''))] else [])"

definition list_member :: "string \<Rightarrow> ('a \<Rightarrow> jtree) \<Rightarrow> 'a list \<Rightarrow> (string \<times> jtree) list" where
  "list_member name f xs = (if xs = [] then [] else [(name, TArr (map f xs))])"

definition object_member :: "string \<Rightarrow> (string \<times> jtree) list \<Rightarrow> (string \<times> jtree) list" where
  "object_member name ms = (if ms = [] then [] else [(name, TObj ms)])"

definition recipient_tree :: "Recipient \<Rightarrow> jtree" where
  "recipient_tree e = TObj ((''address'', TStr (rc_Address e)) # text_member ''status'' (rc_Status e) @ number_member ''code'' (rc_Code e) @
     text_member ''enhanced_status_code'' (rc_EnhancedStatus e) @ text_member ''text'' (rc_Text e))"

definition attachment_tree :: "Attachment \<Rightarrow> jtree" where
  "attachment_tree e = TObj ((''name'', TStr (at_Name e)) # number_member ''size_bytes'' (at_Size e) @
     text_member ''sha256'' (at_Sha256 e) @ text_member ''content_type'' (at_ContentType e))"

text \<open>One value is a text, several values (and the recipient lists always) are an array.\<close>

definition attribute_member :: "string \<times> string list \<Rightarrow> string \<times> jtree" where
  "attribute_member e = (case e of (k, vs) \<Rightarrow> (k, if length vs = 1 \<and> \<not> IsRecipientKey k then TStr (hd vs) else TArr (map TStr vs)))"

definition attribute_members :: "mail_log \<Rightarrow> (string \<times> jtree) list" where
  "attribute_members m =
     map attribute_member (ml_Attributes m) @
     number_member ''email.size_bytes'' (ml_Size m) @
     list_member ''email.attachments'' attachment_tree (ml_Attachments m) @
     list_member ''email.envelope.recipients'' recipient_tree (ml_Recipients m) @
     number_member ''client.port'' (ml_ClientPort m) @ number_member ''server.port'' (ml_ServerPort m) @
     number_member ''network.local.port'' (ml_NetworkLocalPort m) @ number_member ''network.peer.port'' (ml_NetworkPeerPort m) @
     number_member ''email.smtp.response.code'' (ml_SmtpResponseCode m) @
     bool_member ''email.signed'' (ml_bSignedSet m) (ml_bSigned m) @ bool_member ''email.encrypted'' (ml_bEncryptedSet m) (ml_bEncrypted m) @
     bool_member ''tls.established'' (ml_bTlsEstablishedSet m) (ml_bTlsEstablished m) @
     (case (ml_bSpamScoreSet m, ml_SpamScore m) of (True, Some s) \<Rightarrow> [(''email.spam.score'', TLit (score_text s))] | _ \<Rightarrow> []) @
     bool_member ''email.virus.checked'' (ml_bVirusCheckedSet m) (ml_bVirusChecked m)"

definition mail_body :: "mail_log \<Rightarrow> string" where
  "mail_body m = (if ml_Body m = [] then BuildDefaultBody m else ml_Body m)"

text \<open>The times are texts: their numbers are too large for the numbers of JSON.\<close>

definition mail_members :: "mail_log \<Rightarrow> (string \<times> jtree) list" where
  "mail_members m =
     (''scope'', TObj [(''name'', TStr ''mail-log''), (''version'', TStr ''0.1.0'')]) #
     object_member ''resource'' (map (\<lambda>(k, vs). (k, TStr (hd vs))) (ml_Resource m)) @
     (if ml_TimeUnixNano m = 0 then [] else [(''time_unix_nano'', TStr (int_text (ml_TimeUnixNano m)))]) @
     (if ml_ObservedTimeUnixNano m = 0 then [] else [(''observed_time_unix_nano'', TStr (int_text (ml_ObservedTimeUnixNano m)))]) @
     number_member ''severity_number'' (ml_SeverityNumber m) @
     (if ml_SeverityNumber m = 0 then [] else text_member ''severity_text'' (ml_SeverityText m)) @
     text_member ''body'' (mail_body m) @
     object_member ''attributes'' (attribute_members m)"

definition mail_tree :: "mail_log \<Rightarrow> jtree" where
  "mail_tree m = TObj (mail_members m)"

section \<open>The text of the members\<close>

definition plain_char :: "char \<Rightarrow> bool" where
  "plain_char c \<longleftrightarrow> 0x20 \<le> (of_char c :: nat) \<and> c \<noteq> CHR 0x22 \<and> c \<noteq> CHR 0x5C"

lemma json_escape_plain: "plain_char c \<Longrightarrow> json_escape c = [c]"
  by (auto simp: plain_char_def json_escape_def)

lemma AppendJsonString_plain: "list_all plain_char s \<Longrightarrow> AppendJsonString s = in_quotes s"
  by (induction s) (simp_all add: AppendJsonString_def in_quotes_def json_escape_plain)

lemma plain_digit: "is_digit c \<Longrightarrow> plain_char c"
  by (auto simp: plain_char_def is_digit_def)

lemma plain_dec: "list_all plain_char (dec_text n)"
  using dec_text_digits [of n] plain_digit by (auto simp: list_all_iff)

lemma plain_int: "list_all plain_char (int_text i)"
  using plain_dec by (simp add: int_text_def plain_char_def)

lemma AppendJsonString_int: "AppendJsonString (int_text i) = in_quotes (int_text i)"
  by (rule AppendJsonString_plain [OF plain_int])

abbreviation "plain s \<equiv> list_all plain_char s"

lemma text_member_text: "plain name \<Longrightarrow>
    map member_text (text_member name s) = (if s \<noteq> [] then [in_quotes name @ '':'' @ AppendJsonString s] else [])"
  by (simp add: text_member_def AppendJsonString_plain)

lemma number_member_text: "plain name \<Longrightarrow> map member_text (number_member name n) = number_field name n"
  by (simp add: number_member_def number_field_def AppendJsonString_plain)

lemma bool_member_text: "plain name \<Longrightarrow> map member_text (bool_member name b v) = bool_field name b v"
  by (simp add: bool_member_def bool_field_def AppendJsonString_plain)

lemma list_member_text: "plain name \<Longrightarrow> map member_text (list_member name f xs) =
    (if xs \<noteq> [] then [in_quotes name @ '':['' @ with_commas (map (\<lambda>x. tree_text (f x)) xs) @ '']''] else [])"
  by (simp add: list_member_def AppendJsonString_plain comp_def)

lemma object_member_text: "plain name \<Longrightarrow> map member_text (object_member name ms) =
    (if ms \<noteq> [] then [in_quotes name @ '':{'' @ with_commas (map member_text ms) @ ''}''] else [])"
  by (simp add: object_member_def AppendJsonString_plain)

lemmas member_texts = text_member_text number_member_text bool_member_text list_member_text object_member_text

lemma plain_names [simp]:
  "plain []" "plain (c # s) \<longleftrightarrow> plain_char c \<and> plain s"
  by simp_all

lemma with_commas_rest: "with_commas (x # ys) = x @ concat (map (\<lambda>y. '','' @ y) ys)"
  by (induction ys arbitrary: x) simp_all

lemma recipient_tree_text: "tree_text (recipient_tree e) = AppendRecipient e"
  by (simp add: recipient_tree_def AppendRecipient_def text_member_def number_member_def with_commas_rest AppendJsonString_plain plain_char_def)

lemma attachment_tree_text: "tree_text (attachment_tree e) = AppendAttachment e"
  by (simp add: attachment_tree_def AppendAttachment_def text_member_def number_member_def with_commas_rest AppendJsonString_plain plain_char_def)

lemma attribute_member_text: "member_text (attribute_member e) = attribute_field e"
  by (cases e) (simp add: attribute_member_def attribute_field_def comp_def)

lemma score_member_text:
  "map member_text (case (b, s) of (True, Some t) \<Rightarrow> [(''email.spam.score'', TLit (score_text t))] | _ \<Rightarrow> []) =
     (if b then (case s of None \<Rightarrow> [] | Some t \<Rightarrow> [in_quotes ''email.spam.score'' @ '':'' @ score_text t]) else [])"
  by (cases b; cases s) (simp_all add: AppendJsonString_plain plain_char_def)

lemma attribute_members_text: "map member_text (attribute_members m) = attribute_fields m"
proof -
  have "plain ''email.size_bytes''" "plain ''email.attachments''" "plain ''email.envelope.recipients''" "plain ''client.port''"
    "plain ''server.port''" "plain ''network.local.port''" "plain ''network.peer.port''" "plain ''email.smtp.response.code''"
    "plain ''email.signed''" "plain ''email.encrypted''" "plain ''tls.established''" "plain ''email.virus.checked''"
    by (simp_all add: plain_char_def)
  then show ?thesis
    unfolding attribute_members_def attribute_fields_def map_append
    by (simp only: number_member_text bool_member_text list_member_text score_member_text recipient_tree_text attachment_tree_text
        map_map comp_def attribute_member_text)
qed

lemma attribute_fields_Nil: "attribute_fields m = [] \<longleftrightarrow> attribute_members m = []"
  using attribute_members_text [of m] by (metis list.map_disc_iff)

lemma Build_text: "MailLog_Build m = tree_text (mail_tree m)"
proof -
  have names: "plain ''resource''" "plain ''severity_number''" "plain ''severity_text''" "plain ''body''" "plain ''attributes''"
    "plain ''scope''" "plain ''name''" "plain ''version''" "plain ''mail-log''" "plain ''0.1.0''" "plain ''time_unix_nano''"
    "plain ''observed_time_unix_nano''"
    by (simp_all add: plain_char_def)
  have scope: "member_text (''scope'', TObj [(''name'', TStr ''mail-log''), (''version'', TStr ''0.1.0'')]) =
      in_quotes ''scope'' @ '':{'' @ in_quotes ''name'' @ '':'' @ in_quotes ''mail-log'' @ '','' @ in_quotes ''version'' @ '':'' @ in_quotes ''0.1.0'' @ ''}''"
    by (simp add: AppendJsonString_plain plain_char_def)
  have res: "map member_text (map (\<lambda>(k, vs). (k, TStr (hd vs))) rs) = map (\<lambda>(k, vs). AppendJsonString k @ '':'' @ AppendJsonString (hd vs)) rs"
    for rs :: AttributeList
    by (simp add: comp_def case_prod_beta)
  have fields: "map member_text (mail_members m) =
      [in_quotes ''scope'' @ '':{'' @ in_quotes ''name'' @ '':'' @ in_quotes ''mail-log'' @ '','' @ in_quotes ''version'' @ '':'' @ in_quotes ''0.1.0'' @ ''}''] @
      (if ml_Resource m \<noteq> [] then [in_quotes ''resource'' @ '':'' @ AppendResource (ml_Resource m)] else []) @
      (if ml_TimeUnixNano m \<noteq> 0 then [in_quotes ''time_unix_nano'' @ '':'' @ in_quotes (int_text (ml_TimeUnixNano m))] else []) @
      (if ml_ObservedTimeUnixNano m \<noteq> 0 then [in_quotes ''observed_time_unix_nano'' @ '':'' @ in_quotes (int_text (ml_ObservedTimeUnixNano m))] else []) @
      (if ml_SeverityNumber m \<noteq> 0 then
         [in_quotes ''severity_number'' @ '':'' @ int_text (ml_SeverityNumber m)] @
         (if ml_SeverityText m \<noteq> [] then [in_quotes ''severity_text'' @ '':'' @ AppendJsonString (ml_SeverityText m)] else [])
       else []) @
      (if mail_body m \<noteq> [] then [in_quotes ''body'' @ '':'' @ AppendJsonString (mail_body m)] else []) @
      (if attribute_fields m \<noteq> [] then [in_quotes ''attributes'' @ '':{'' @ with_commas (attribute_fields m) @ ''}''] else [])"
    unfolding mail_members_def list.map map_append scope object_member_text [OF names(1)] object_member_text [OF names(5)]
      text_member_text [OF names(3)] text_member_text [OF names(4)] number_member_text [OF names(2)] res attribute_members_text
    by (simp add: attribute_fields_Nil AppendResource_def number_field_def AppendJsonString_int AppendJsonString_plain [OF names(11)]
        AppendJsonString_plain [OF names(12)] if_distrib [of "map member_text"] text_member_def AppendJsonString_plain [OF names(3)])
  show ?thesis
    unfolding MailLog_Build_def Let_def mail_tree_def tree_text.simps(4) fields [unfolded mail_body_def] by (rule refl)
qed

end
