(* ===== verification/MailLogTheorems.thy ===== *)
theory MailLogTheorems imports MailLogTree begin

text \<open>
  Properties of mail log records: the line is JSON with exactly the members which were set, a setter changes its own
  attribute only, and whatever is called in whatever order no attribute occurs twice.
\<close>

section \<open>One line of JSON\<close>

text \<open>What \<^verbatim>\<open>std::to_chars\<close> writes for a finite \<^verbatim>\<open>double\<close> is a number of the JSON grammar.\<close>

definition score_ok :: "mail_log \<Rightarrow> bool" where
  "score_ok m = (case ml_SpamScore m of None \<Rightarrow> True | Some s \<Rightarrow> is_json_number s \<and> list_all lit_char s)"

lemma digit_lit: "is_digit c \<Longrightarrow> lit_char c"
  by (simp add: lit_char_def)

lemma dec_text_lit: "list_all lit_char (dec_text n)"
  using dec_text_digits [of n] digit_lit by (auto simp: list_all_iff)

lemma dec_text_no_zero: "10 \<le> n \<Longrightarrow> hd (dec_text n) \<noteq> CHR ''0''"
proof (induction n rule: dec_text.induct)
  case (1 n)
  show ?case
  proof (cases "n < 100")
    case True
    with 1 have n: "0 < n div 10" "n div 10 < 10"
      by auto
    then have "dec_text (n div 10) = [digit_char (n div 10)]"
      by (subst dec_text.simps) simp
    moreover have "digit_char d \<noteq> CHR ''0''" if "0 < d" "d < 10" for d
    proof
      assume "digit_char d = CHR ''0''"
      then have "digit_value (digit_char d) = digit_value (CHR ''0'')"
        by simp
      with that show False
        by (simp add: digit_value_def [of "CHR ''0''"])
    qed
    ultimately show ?thesis
      using 1(2) n by (subst dec_text.simps) simp
  next
    case False
    with 1 show ?thesis
      by (subst dec_text.simps) simp
  qed
qed

lemma dec_text_short: "n < 10 \<Longrightarrow> length (dec_text n) = 1"
  by (subst dec_text.simps) simp

lemma digits_whole:
  assumes "list_all is_digit d" "r = [] \<or> \<not> is_digit (hd r)"
  shows "takeWhile is_digit (d @ r) = d" "dropWhile is_digit (d @ r) = r"
  using assms by (induction d) (cases r; simp)+

lemma digits_hd: "list_all is_digit d \<Longrightarrow> d \<noteq> [] \<Longrightarrow> hd d \<noteq> CHR ''-''"
  by (cases d) (auto simp: is_digit_def)

lemma number_dec_text:
  "is_json_number (dec_text n)" "is_json_number (CHR ''-'' # dec_text n)"
proof -
  have d: "takeWhile is_digit (dec_text n) = dec_text n" "dropWhile is_digit (dec_text n) = []"
    using digits_whole [OF dec_text_digits, of "[]" n] by simp_all
  have "length (dec_text n) > 1 \<longrightarrow> hd (dec_text n) \<noteq> CHR ''0''"
    using dec_text_no_zero [of n] dec_text_short [of n] by linarith
  then show "is_json_number (dec_text n)" "is_json_number (CHR ''-'' # dec_text n)"
    using digits_hd [OF dec_text_digits dec_text_not_Nil, of n] dec_text_digits [of n]
    by (simp_all add: is_json_number_def Let_def d list_all_iff)
qed

lemma number_int_text: "is_json_number (int_text i)" "list_all lit_char (int_text i)"
  using number_dec_text dec_text_lit by (simp_all add: int_text_def lit_char_def)

lemma number_fraction:
  assumes "list_all is_digit d" "d \<noteq> []" "length d > 1 \<longrightarrow> hd d \<noteq> CHR ''0''"
  shows "is_json_number (d @ ''.0'')" "is_json_number (CHR ''-'' # d @ ''.0'')"
proof -
  define r where "r = ''.0''"
  have dig: "is_digit (CHR ''0'')" "\<not> is_digit (CHR ''.'')"
    by (simp_all add: is_digit_def)
  then have r: "r \<noteq> []" "hd r = CHR ''.''" "takeWhile is_digit (tl r) \<noteq> []" "dropWhile is_digit (tl r) = []" "\<not> is_digit (hd r)"
    by (simp_all add: r_def)
  have w: "takeWhile is_digit (d @ r) = d" "dropWhile is_digit (d @ r) = r"
    using digits_whole [OF assms(1), of r] r by simp_all
  have hd: "hd d \<noteq> CHR ''-''" "hd (d @ r) = hd d"
    using digits_hd [OF assms(1,2)] assms(2) by simp_all
  have "is_json_number (d @ r)" "is_json_number (CHR ''-'' # d @ r)"
    unfolding is_json_number_def Let_def using w hd r assms(2,3)
    by (simp_all only: list.sel list.simps append_is_Nil_conv if_True if_False simp_thms)
  then show "is_json_number (d @ ''.0'')" "is_json_number (CHR ''-'' # d @ ''.0'')"
    unfolding r_def by blast+
qed

lemma number_score_text:
  assumes "is_json_number s" "list_all lit_char s"
  shows "is_json_number (score_text s)" "list_all lit_char (score_text s)"
proof -
  show "list_all lit_char (score_text s)"
    using assms(2) by (simp add: score_text_def lit_char_def is_digit_def)
  define t where "t = (if s \<noteq> [] \<and> hd s = CHR ''-'' then tl s else s)"
  define whole where "whole = takeWhile is_digit t"
  define r1 where "r1 = dropWhile is_digit t"
  have t: "t = whole @ r1" "set t \<subseteq> set s" "list_all is_digit whole"
    by (auto simp: t_def whole_def r1_def list_all_iff dest: set_takeWhileD list.set_sel(2))
  show "is_json_number (score_text s)"
  proof (cases "\<exists>c \<in> set s. c = CHR ''.'' \<or> c = CHR ''e'' \<or> c = CHR ''E''")
    case True
    with assms(1) show ?thesis
      by (simp add: score_text_def)
  next
    case False
    have whole: "whole \<noteq> []" "length whole > 1 \<longrightarrow> hd whole \<noteq> CHR ''0''"
      "r1 = [] \<or> hd r1 \<in> {CHR ''.'', CHR ''e'', CHR ''E''}"
      using assms(1) unfolding is_json_number_def Let_def t_def [symmetric] whole_def [symmetric] r1_def [symmetric]
      by (auto split: if_splits)
    have "r1 = []"
    proof (rule ccontr)
      assume "r1 \<noteq> []"
      then have "hd r1 \<in> set s"
        using t by auto
      with whole(3) False \<open>r1 \<noteq> []\<close> show False
        by auto
    qed
    then have s: "s = whole \<or> s = CHR ''-'' # whole"
      using t(1) by (auto simp: t_def split: if_splits) (metis list.collapse)+
    have "is_json_number (whole @ ''.0'')" "is_json_number (CHR ''-'' # whole @ ''.0'')"
      by (rule number_fraction [OF t(3) whole(1,2)])+
    then have "is_json_number (s @ ''.0'')"
      using s by (metis append_Cons)
    moreover have "score_text s = s @ ''.0''"
      unfolding score_text_def using False by (rule if_not_P)
    ultimately show ?thesis
      by (simp only:)
  qed
qed

lemma literal_number: "is_json_number s \<Longrightarrow> is_literal s"
  by (simp add: is_literal_def)

lemma tree_ok_members [simp]:
  "list_all (\<lambda>(k, t). tree_ok t) (text_member name s)"
  "list_all (\<lambda>(k, t). tree_ok t) (number_member name i)"
  "list_all (\<lambda>(k, t). tree_ok t) (bool_member name b v)"
  "list_all (\<lambda>(k, t). tree_ok t) (list_member name f xs) \<longleftrightarrow> list_all tree_ok (map f xs)"
  "list_all (\<lambda>(k, t). tree_ok t) (object_member name ms) \<longleftrightarrow> list_all (\<lambda>(k, t). tree_ok t) ms"
  using number_int_text [of i] literal_number [of "int_text i"]
  by (auto simp: text_member_def number_member_def bool_member_def list_member_def object_member_def is_literal_def lit_char_def is_digit_def)

lemma tree_ok_parts [simp]: "tree_ok (recipient_tree e)" "tree_ok (attachment_tree a)" "(case attribute_member x of (k, t) \<Rightarrow> tree_ok t)"
  by (simp_all add: recipient_tree_def attachment_tree_def attribute_member_def list_all_iff [of _ "map _ _"] split: prod.split)

lemma tree_ok_score:
  assumes "score_ok m"
  shows "list_all (\<lambda>(k, t). tree_ok t)
    (case (ml_bSpamScoreSet m, ml_SpamScore m) of (True, Some s) \<Rightarrow> [(''email.spam.score'', TLit (score_text s))] | _ \<Rightarrow> [])"
  using assms number_score_text
  by (auto simp: score_ok_def literal_number split: option.split bool.split)

lemma tree_ok_mail: "score_ok m \<Longrightarrow> tree_ok (mail_tree m)"
proof -
  assume "score_ok m"
  then have "list_all (\<lambda>(k, t). tree_ok t) (attribute_members m)"
    using tree_ok_score [of m] unfolding attribute_members_def list_all_append
    by (simp add: list_all_iff [of _ "map _ _"] del: tree_ok.simps)
  then show ?thesis
    by (simp add: mail_tree_def mail_members_def list_all_iff [of _ "map _ _"] split: prod.splits)
qed

definition printable :: "char \<Rightarrow> bool" where
  "printable c \<longleftrightarrow> 0x20 \<le> (of_char c :: nat)"

lemma printable_hex: "d < 16 \<Longrightarrow> printable (hex_digit d)"
  by (auto simp: hex_digit_def printable_def of_char_of Let_def)

lemma printable_escape: "list_all printable (json_escape c)"
  using printable_hex [of "of_char c div 16"] printable_hex [of "of_char c mod 16"]
  by (auto simp: json_escape_def printable_def)

lemma printable_string: "list_all printable (AppendJsonString s)"
  using printable_escape by (auto simp: AppendJsonString_def list_all_iff printable_def)

lemma printable_commas: "list_all printable (with_commas xs) \<longleftrightarrow> list_all (list_all printable) xs"
  by (induction xs rule: with_commas.induct) (auto simp: printable_def)

lemma printable_tree: "tree_ok t \<Longrightarrow> list_all printable (tree_text t)"
proof (induction t)
  case (TStr s)
  show ?case
    by (simp add: printable_string)
next
  case (TLit l)
  have "lit_char c \<Longrightarrow> printable c" for c
    by (auto simp: lit_char_def printable_def is_digit_def)
  with TLit show ?case
    by (auto simp: list_all_iff)
next
  case (TArr ts)
  then show ?case
    by (simp add: printable_commas list_all_iff [of _ "map _ _"]) (auto simp: printable_def list_all_iff)
next
  case (TObj ms)
  have "list_all printable (member_text m)" if "m \<in> set ms" for m
  proof -
    have "tree_ok (snd m)"
      using TObj.prems that by (auto simp: list_all_iff)
    then have "list_all printable (tree_text (snd m))"
      using TObj.IH [of m "snd m"] that by (cases m) auto
    then show ?thesis
      by (cases m) (simp add: printable_string printable_def)
  qed
  then have "list_all (list_all printable) (map member_text ms)"
    by (simp add: list_all_iff)
  then show ?case
    by (simp add: printable_commas) (simp add: printable_def)
qed

text \<open>C16. The text which Build returns is one line without control characters, and it is JSON: read back, it has the members
  which the object holds, in their order, each text as it was given, whatever bytes it has. Texts with quotes, backslashes or line ends cannot break
  out of their member. The spam score is a number of the JSON grammar.\<close>

theorem mail_record_reads_back:
  assumes "score_ok m"
  shows "read_json (MailLog_Build m) = Some (mail_tree m) \<and> list_all printable (MailLog_Build m)"
  using read_json_tree_text [OF tree_ok_mail [OF assms]] printable_tree [OF tree_ok_mail [OF assms]] by (simp add: Build_text)

theorem mail_record_reads_back_witness:
  "score_ok (SetSubject (CHR 0x22 # CHR 0x0A # ''x'') (SetSpamScore (Some ''7'') new_MailLog)) \<and>
   read_json (MailLog_Build (SetSubject (CHR 0x22 # CHR 0x0A # ''x'') (SetSpamScore (Some ''7'') new_MailLog))) =
     Some (TObj [(''scope'', TObj [(''name'', TStr ''mail-log''), (''version'', TStr ''0.1.0'')]),
       (''attributes'', TObj [(''email.subject'', TStr (CHR 0x22 # CHR 0x0A # ''x'')), (''email.spam.score'', TLit ''7.0'')])])"
proof -
  define m where "m = SetSubject (CHR 0x22 # CHR 0x0A # ''x'') (SetSpamScore (Some ''7'') new_MailLog)"
  have ok: "score_ok m"
    by (simp add: m_def score_ok_def SetSubject_def SetSpamScore_def set_attribute_def new_MailLog_def is_json_number_def lit_char_def is_digit_def)
  have body: "mail_body m = []"
    by (simp add: m_def mail_body_def SetSubject_def SetSpamScore_def set_attribute_def new_MailLog_def BuildDefaultBody_def)
  have "mail_tree m = TObj [(''scope'', TObj [(''name'', TStr ''mail-log''), (''version'', TStr ''0.1.0'')]),
       (''attributes'', TObj [(''email.subject'', TStr (CHR 0x22 # CHR 0x0A # ''x'')), (''email.spam.score'', TLit ''7.0'')])]"
    unfolding mail_tree_def mail_members_def body
    by (simp add: m_def SetSubject_def SetSpamScore_def set_attribute_def new_MailLog_def attribute_members_def attribute_member_def
        text_member_def number_member_def bool_member_def list_member_def object_member_def IsRecipientKey_def score_text_def)
  with ok mail_record_reads_back [OF ok] show ?thesis
    by (simp add: m_def)
qed

section \<open>Attributes\<close>

text \<open>The setters of an attribute with one value and their keys, the setters which add a value, and the setters of resources.\<close>

definition attribute_setters :: "(string \<times> (string \<Rightarrow> mail_log \<Rightarrow> mail_log)) list" where
  "attribute_setters =
    [(''email.from.address'', SetFrom),
     (''email.envelope.from.address'', SetEnvelopeFrom),
     (''email.subject'', SetSubject),
     (''email.message.id'', SetMessageId),
     (''email.queue.id'', SetQueueId),
     (''email.event'', SetEvent),
     (''email.direction'', SetDirection),
     (''email.crypto.protocol.name'', SetCryptoProtocol),
     (''tls.protocol.name'', SetTlsProtocolName),
     (''tls.protocol.version'', SetTlsProtocolVersion),
     (''tls.cipher'', SetTlsCipher),
     (''tls.client.subject'', SetTlsClientSubject),
     (''tls.client.issuer'', SetTlsClientIssuer),
     (''tls.client.hash.sha256'', SetTlsClientSha256),
     (''tls.client.not_before'', SetTlsClientNotBefore),
     (''tls.client.not_after'', SetTlsClientNotAfter),
     (''tls.server.subject'', SetTlsServerSubject),
     (''tls.server.issuer'', SetTlsServerIssuer),
     (''tls.server.hash.sha256'', SetTlsServerSha256),
     (''tls.server.not_before'', SetTlsServerNotBefore),
     (''tls.server.not_after'', SetTlsServerNotAfter),
     (''client.address'', SetClientAddress),
     (''server.address'', SetServerAddress),
     (''network.local.address'', SetNetworkLocalAddress),
     (''network.peer.address'', SetNetworkPeerAddress),
     (''email.smtp.helo'', SetSmtpHelo),
     (''email.smtp.response.enhanced_status_code'', SetSmtpEnhancedStatus),
     (''email.smtp.response.text'', SetSmtpResponseText),
     (''email.spam.result'', SetSpamResult),
     (''email.spf.result'', SetSpfResult),
     (''email.dkim.result'', SetDkimResult),
     (''email.dmarc.result'', SetDmarcResult),
     (''email.spf.domain'', SetSpfDomain),
     (''email.dkim.domain'', SetDkimDomain),
     (''email.dkim.selector'', SetDkimSelector),
     (''email.virus.result'', SetVirusResult),
     (''email.spam.engine.name'', SetSpamEngine),
     (''email.virus.engine.name'', SetVirusEngine),
     (''email.virus.threat.name'', SetVirusName),
     (''email.classification'', SetClassification),
     (''email.auto_submitted'', SetAutoSubmitted),
     (''email.action'', SetAction),
     (''email.reason'', SetReason),
     (''email.policy.name'', SetPolicyName),
     (''email.policy.id'', SetPolicyId)]"

definition attribute_adders :: "(string \<times> (string \<Rightarrow> mail_log \<Rightarrow> mail_log)) list" where
  "attribute_adders = [(''email.to.addresses'', AddTo), (''email.cc.addresses'', AddCc), (''email.bcc.addresses'', AddBcc)]"

definition resource_setters :: "(string \<Rightarrow> mail_log \<Rightarrow> mail_log) list" where
  "resource_setters = [SetHostName, SetServiceName, SetServiceNamespace, SetServiceInstanceId]"

definition number_setters :: "(int \<Rightarrow> mail_log \<Rightarrow> mail_log) list" where
  "number_setters = [SetSize, SetClientPort, SetServerPort, SetNetworkLocalPort, SetNetworkPeerPort, SetSmtpResponseCode, SetTime, SetObservedTime]"

definition bool_setters :: "(bool \<Rightarrow> mail_log \<Rightarrow> mail_log) list" where
  "bool_setters = [SetSigned, SetEncrypted, SetTlsEstablished, SetVirusChecked]"

lemma attribute_setter_sets: "list_all (\<lambda>(k, f). f = set_attribute k) attribute_setters"
  unfolding attribute_setters_def
  by (simp add: fun_eq_iff SetFrom_def SetEnvelopeFrom_def SetSubject_def SetMessageId_def SetQueueId_def SetEvent_def SetDirection_def SetCryptoProtocol_def SetTlsProtocolName_def SetTlsProtocolVersion_def SetTlsCipher_def SetTlsClientSubject_def SetTlsClientIssuer_def SetTlsClientSha256_def SetTlsClientNotBefore_def SetTlsClientNotAfter_def SetTlsServerSubject_def SetTlsServerIssuer_def SetTlsServerSha256_def SetTlsServerNotBefore_def SetTlsServerNotAfter_def SetClientAddress_def SetServerAddress_def SetNetworkLocalAddress_def SetNetworkPeerAddress_def SetSmtpHelo_def SetSmtpEnhancedStatus_def SetSmtpResponseText_def SetSpamResult_def SetSpfResult_def SetDkimResult_def SetDmarcResult_def SetSpfDomain_def SetDkimDomain_def SetDkimSelector_def SetVirusResult_def SetSpamEngine_def SetVirusEngine_def SetVirusName_def SetClassification_def SetAutoSubmitted_def SetAction_def SetReason_def SetPolicyName_def SetPolicyId_def)

lemma attribute_adder_adds: "list_all (\<lambda>(k, f). f = add_attribute k) attribute_adders"
  unfolding attribute_adders_def by (simp add: fun_eq_iff AddTo_def AddCc_def AddBcc_def)

definition attribute_keys :: "string list" where
  "attribute_keys = map fst attribute_setters @ map fst attribute_adders"

lemma map_of_SetValue:
  "\<not> IsRecipientKey k \<Longrightarrow> map_of (map attribute_member (SetValue as k v)) = (map_of (map attribute_member as))(k \<mapsto> TStr v)"
  by (induction as k v rule: SetValue.induct) (auto simp: attribute_member_def fun_eq_iff)

lemma single_keys: "list_all (\<lambda>(k, f). \<not> IsRecipientKey k) attribute_setters"
  unfolding attribute_setters_def by (simp add: IsRecipientKey_def)

lemma map_of_set_attribute:
  assumes "v \<noteq> []" "\<not> IsRecipientKey k"
  shows "map_of (attribute_members (set_attribute k v m)) = (map_of (attribute_members m))(k \<mapsto> TStr v)"
proof -
  obtain rest where "attribute_members m = map attribute_member (ml_Attributes m) @ rest"
    and "attribute_members (set_attribute k v m) = map attribute_member (SetValue (ml_Attributes m) k v) @ rest"
    using assms(1) by (simp add: attribute_members_def set_attribute_def)
  then show ?thesis
    using assms(2) by (simp add: map_of_SetValue)
qed

text \<open>Each of the setters of one value gives its own attribute the text and leaves every other attribute of the record alone, and an empty text
  changes nothing. No two of them share a key.\<close>

theorem setter_changes_its_attribute_only:
  assumes "(k, f) \<in> set attribute_setters"
  shows "map_of (attribute_members (f v m)) = (if v = [] then map_of (attribute_members m) else (map_of (attribute_members m))(k \<mapsto> TStr v)) \<and>
         distinct (map fst attribute_setters)"
proof -
  have "f = set_attribute k" "\<not> IsRecipientKey k"
    using assms attribute_setter_sets single_keys by (auto simp: list_all_iff)
  moreover have "distinct (map fst attribute_setters)"
    unfolding attribute_setters_def by simp
  ultimately show ?thesis
    using map_of_set_attribute by (simp add: set_attribute_def)
qed

theorem setter_changes_its_attribute_only_witness:
  "(''email.subject'', SetSubject) \<in> set attribute_setters \<and>
   map_of (attribute_members (SetSubject ''hello'' (SetSize 5 new_MailLog))) ''email.subject'' = Some (TStr ''hello'')"
proof -
  have "(''email.subject'', SetSubject) \<in> set attribute_setters"
    by (simp add: attribute_setters_def)
  then show ?thesis
    using setter_changes_its_attribute_only [of "''email.subject''" SetSubject "''hello''" "SetSize 5 new_MailLog"] by simp
qed

section \<open>Whatever is called\<close>

inductive built :: "mail_log \<Rightarrow> bool" where
  built_new: "built new_MailLog"
| built_attribute: "built m \<Longrightarrow> (k, f) \<in> set attribute_setters \<or> (k, f) \<in> set attribute_adders \<Longrightarrow> built (f v m)"
| built_resource: "built m \<Longrightarrow> f \<in> set resource_setters \<Longrightarrow> built (f v m)"
| built_number: "built m \<Longrightarrow> g \<in> set number_setters \<Longrightarrow> built (g n m)"
| built_bool: "built m \<Longrightarrow> h \<in> set bool_setters \<Longrightarrow> built (h b m)"
| built_resource_key: "built m \<Longrightarrow> built (SetResourceAttribute k v m)"
| built_from_empty: "built m \<Longrightarrow> built (SetEnvelopeFromEmpty m)"
| built_recipient: "built m \<Longrightarrow> built (AddRecipient a st c e t m)"
| built_attachment: "built m \<Longrightarrow> built (AddAttachment a n sha ct m)"
| built_header: "built m \<Longrightarrow> built (AddHeader a v m)"
| built_score: "built m \<Longrightarrow> built (SetSpamScore sc m)"
| built_body: "built m \<Longrightarrow> built (SetBody t m)"
| built_severity: "built m \<Longrightarrow> built (SetSeverity n t m)"
| built_clear: "built m \<Longrightarrow> built (MailLog_Clear m)"

definition attribute_key :: "string \<Rightarrow> bool" where
  "attribute_key k \<longleftrightarrow> k \<in> set attribute_keys \<or> take 13 k = ''email.header.''"

definition lists_ok :: "AttributeList \<Rightarrow> AttributeList \<Rightarrow> bool" where
  "lists_ok res as \<longleftrightarrow>
     distinct (map fst res) \<and> (\<forall>e \<in> set res. length (snd e) = 1) \<and>
     distinct (map fst as) \<and> (\<forall>e \<in> set as. snd e \<noteq> [] \<and> attribute_key (fst e))"

lemma keys_SetValue: "set (map fst (SetValue as k v)) = insert k (set (map fst as))"
  by (induction as k v rule: SetValue.induct) auto

lemma keys_AddValue: "set (map fst (AddValue as k v)) = insert k (set (map fst as))"
  by (induction as k v rule: AddValue.induct) auto

lemma distinct_SetValue: "distinct (map fst as) \<Longrightarrow> distinct (map fst (SetValue as k v))"
proof (induction as k v rule: SetValue.induct)
  case (2 k0 vs es key v)
  then show ?case
    using keys_SetValue [of es key v] by auto
qed simp

lemma distinct_AddValue: "distinct (map fst as) \<Longrightarrow> distinct (map fst (AddValue as k v))"
proof (induction as k v rule: AddValue.induct)
  case (2 k0 vs es key v)
  then show ?case
    using keys_AddValue [of es key v] by auto
qed simp

lemma set_SetValue: "e \<in> set (SetValue as k v) \<Longrightarrow> e = (k, [v]) \<or> e \<in> set as"
  by (induction as k v rule: SetValue.induct) (auto split: if_splits)

lemma set_AddValue: "e \<in> set (AddValue as k v) \<Longrightarrow> e \<in> set as \<or> fst e = k \<and> snd e \<noteq> []"
  by (induction as k v rule: AddValue.induct) (auto split: if_splits)

lemma lists_ok_resource: "lists_ok res as \<Longrightarrow> lists_ok (SetValue res k v) as"
  unfolding lists_ok_def using distinct_SetValue set_SetValue by fastforce

lemma lists_ok_set: "lists_ok res as \<Longrightarrow> attribute_key k \<Longrightarrow> lists_ok res (SetValue as k v)"
  unfolding lists_ok_def using distinct_SetValue set_SetValue by fastforce

lemma lists_ok_add: "lists_ok res as \<Longrightarrow> attribute_key k \<Longrightarrow> lists_ok res (AddValue as k v)"
  unfolding lists_ok_def using distinct_AddValue set_AddValue by metis

abbreviation "mail_ok m \<equiv> lists_ok (ml_Resource m) (ml_Attributes m)"

lemma number_setters_keep: "list_all (\<lambda>g. \<forall>n m. ml_Resource (g n m) = ml_Resource m \<and> ml_Attributes (g n m) = ml_Attributes m) number_setters"
  unfolding number_setters_def by (simp add: SetSize_def SetClientPort_def SetServerPort_def SetNetworkLocalPort_def SetNetworkPeerPort_def SetSmtpResponseCode_def SetTime_def SetObservedTime_def)

lemma bool_setters_keep: "list_all (\<lambda>g. \<forall>n m. ml_Resource (g n m) = ml_Resource m \<and> ml_Attributes (g n m) = ml_Attributes m) bool_setters"
  unfolding bool_setters_def by (simp add: SetSigned_def SetEncrypted_def SetTlsEstablished_def SetVirusChecked_def)

lemma resource_setters_set: "list_all (\<lambda>f. \<exists>k. f = set_resource k) resource_setters"
  unfolding resource_setters_def by (simp add: fun_eq_iff SetHostName_def SetServiceName_def SetServiceNamespace_def SetServiceInstanceId_def) blast

lemma built_ok: "built m \<Longrightarrow> mail_ok m"
proof (induction rule: built.induct)
  case (built_attribute m k f v)
  then have "attribute_key k" "f = set_attribute k \<or> f = add_attribute k"
    using attribute_setter_sets attribute_adder_adds by (auto simp: attribute_key_def attribute_keys_def list_all_iff) (metis fst_conv imageI)+
  then show ?case
    using built_attribute.IH lists_ok_set lists_ok_add by (auto simp: set_attribute_def add_attribute_def)
next
  case (built_resource m f v)
  then obtain k where "f = set_resource k"
    using resource_setters_set by (auto simp: list_all_iff)
  then show ?case
    using built_resource.IH lists_ok_resource by (simp add: set_resource_def)
next
  case (built_number m g n)
  then show ?case
    using number_setters_keep by (simp add: list_all_iff)
next
  case (built_bool m h b)
  then show ?case
    using bool_setters_keep by (simp add: list_all_iff)
next
  case (built_from_empty m)
  have "attribute_key ''email.envelope.from.address''"
    by (simp add: attribute_key_def attribute_keys_def attribute_setters_def)
  then show ?case
    using built_from_empty lists_ok_set by (simp add: SetEnvelopeFromEmpty_def)
next
  case (built_header m a v)
  have "attribute_key (''email.header.'' @ NormalizeHeaderName a)"
    by (simp add: attribute_key_def)
  then show ?case
    using built_header lists_ok_add by (simp add: AddHeader_def)
next
  case built_new
  show ?case
    by (simp add: lists_ok_def new_MailLog_def)
next
  case (built_clear m)
  show ?case
    by (simp add: lists_ok_def MailLog_Clear_def)
qed (simp_all add: SetResourceAttribute_def lists_ok_resource AddRecipient_def AddAttachment_def SetSpamScore_def SetBody_def SetSeverity_def)

text \<open>The names of the members which are no attribute lists, in their order.\<close>

definition other_keys :: "string list" where
  "other_keys = [''email.size_bytes'', ''email.attachments'', ''email.envelope.recipients'', ''client.port'', ''server.port'',
     ''network.local.port'', ''network.peer.port'', ''email.smtp.response.code'', ''email.signed'', ''email.encrypted'', ''tls.established'',
     ''email.spam.score'', ''email.virus.checked'']"

definition at_most :: "string \<Rightarrow> (string \<times> jtree) list \<Rightarrow> bool" where
  "at_most k ms \<longleftrightarrow> ms = [] \<or> (\<exists>t. ms = [(k, t)])"

lemma at_most_member:
  "at_most name (number_member name i)" "at_most name (bool_member name b v)" "at_most name (list_member name f xs)"
  by (simp_all add: at_most_def number_member_def bool_member_def list_member_def)

lemma at_most_score: "at_most ''email.spam.score'' (case (b, s) of (True, Some t) \<Rightarrow> [(''email.spam.score'', TLit (score_text t))] | _ \<Rightarrow> [])"
  by (simp add: at_most_def split: bool.split option.split)

lemma at_most_keys:
  assumes "list_all2 at_most ks mss" "distinct ks"
  shows "distinct (map fst (concat mss)) \<and> set (map fst (concat mss)) \<subseteq> set ks"
  using assms
proof (induction rule: list_all2_induct)
  case (Cons k ks ms mss)
  then have IH: "distinct (map fst (concat mss))" "set (map fst (concat mss)) \<subseteq> set ks" and k: "k \<notin> set ks" and ms: "set (map fst ms) \<subseteq> {k}" "distinct (map fst ms)"
    by (auto simp: at_most_def)
  then have "set (map fst ms) \<inter> set (map fst (concat mss)) = {}"
    by blast
  with IH ms show ?case
    unfolding concat.simps map_append distinct_append set_append list.set by blast
qed simp

lemma other_keys_not_attributes: "list_all (\<lambda>k. \<not> attribute_key k) other_keys"
  unfolding other_keys_def attribute_key_def attribute_keys_def attribute_setters_def attribute_adders_def by simp

text \<open>C17. Whatever is called, in whatever order and with whatever texts, the record has every attribute and every resource key at most once: JSON
  objects with a repeated name are read differently by different receivers. No sequence of setters and headers can produce one.\<close>

theorem no_attribute_twice:
  assumes "built m"
  shows "distinct (map fst (attribute_members m)) \<and> distinct (map fst (ml_Resource m))"
proof -
  have ok: "mail_ok m"
    by (rule built_ok [OF assms])
  define mss where "mss =
    [number_member ''email.size_bytes'' (ml_Size m), list_member ''email.attachments'' attachment_tree (ml_Attachments m),
     list_member ''email.envelope.recipients'' recipient_tree (ml_Recipients m), number_member ''client.port'' (ml_ClientPort m),
     number_member ''server.port'' (ml_ServerPort m), number_member ''network.local.port'' (ml_NetworkLocalPort m),
     number_member ''network.peer.port'' (ml_NetworkPeerPort m), number_member ''email.smtp.response.code'' (ml_SmtpResponseCode m),
     bool_member ''email.signed'' (ml_bSignedSet m) (ml_bSigned m), bool_member ''email.encrypted'' (ml_bEncryptedSet m) (ml_bEncrypted m),
     bool_member ''tls.established'' (ml_bTlsEstablishedSet m) (ml_bTlsEstablished m),
     (case (ml_bSpamScoreSet m, ml_SpamScore m) of (True, Some s) \<Rightarrow> [(''email.spam.score'', TLit (score_text s))] | _ \<Rightarrow> []),
     bool_member ''email.virus.checked'' (ml_bVirusCheckedSet m) (ml_bVirusChecked m)]"
  have "list_all2 at_most other_keys mss"
    unfolding other_keys_def mss_def by (intro list_all2_Cons [THEN iffD2] conjI list_all2_Nil [THEN iffD2] TrueI refl at_most_member at_most_score)
  moreover have "distinct other_keys"
    by (simp add: other_keys_def)
  ultimately have other: "distinct (map fst (concat mss))" "set (map fst (concat mss)) \<subseteq> set other_keys"
    using at_most_keys by blast+
  have members: "attribute_members m = map attribute_member (ml_Attributes m) @ concat mss"
    by (simp add: attribute_members_def mss_def)
  have keys: "map fst (map attribute_member as) = map fst as" for as
    by (simp add: attribute_member_def split: prod.split)
  have "attribute_key k" if "k \<in> set (map fst (ml_Attributes m))" for k
    using ok that by (auto simp: lists_ok_def)
  then have "set (map fst (ml_Attributes m)) \<inter> set (map fst (concat mss)) = {}"
    using other(2) other_keys_not_attributes unfolding list_all_iff by blast
  then have "distinct (map fst (attribute_members m))"
    unfolding members map_append keys distinct_append using ok other(1) by (simp add: lists_ok_def)
  with ok show ?thesis
    by (simp add: lists_ok_def)
qed

theorem no_attribute_twice_witness:
  "built (AddHeader ''X-Mailer'' ''a'' (SetSubject ''s'' new_MailLog)) \<and>
   distinct (map fst (attribute_members (AddHeader ''X-Mailer'' ''a'' (SetSubject ''s'' new_MailLog))))"
proof -
  have "(''email.subject'', SetSubject) \<in> set attribute_setters"
    by (simp add: attribute_setters_def)
  then have "built (AddHeader ''X-Mailer'' ''a'' (SetSubject ''s'' new_MailLog))"
    using built_header [OF built_attribute [OF built_new, of _ SetSubject "''s''"], of "''email.subject''" "''X-Mailer''" "''a''"] by blast
  then show ?thesis
    using no_attribute_twice [of "AddHeader ''X-Mailer'' ''a'' (SetSubject ''s'' new_MailLog)"] by (iprover)
qed

end
