(* ===== verification/OtelRecord.thy ===== *)
theory OtelRecord imports Json begin

text \<open>
  Log records of otelfwd and the OTLP request which is made of them (\<^verbatim>\<open>otelfwd.cpp\<close>): \<^verbatim>\<open>LogRecord\<close>,
  \<^verbatim>\<open>log_fifo\<close>, \<^verbatim>\<open>ToValidUtf8\<close>, \<^verbatim>\<open>BuildOtlpPayload\<close>, and the decoder of flat records. The writer
  and the parser of \<^verbatim>\<open>rapidjson\<close> are arguments. A \<^verbatim>\<open>double\<close> is its 64 bits.
\<close>

section \<open>Records\<close>

datatype OtelValueType = OTEL_TYPE_STRING | OTEL_TYPE_INT | OTEL_TYPE_DOUBLE | OTEL_TYPE_BOOL

record OtelKV =
  kv_Key :: string
  kv_Type :: OtelValueType
  kv_StrValue :: string
  kv_IntValue :: int
  kv_DblValue :: "64 word"
  kv_BoolValue :: bool

definition new_OtelKV :: OtelKV where
  "new_OtelKV = \<lparr>kv_Key = [], kv_Type = OTEL_TYPE_STRING, kv_StrValue = [], kv_IntValue = 0, kv_DblValue = 0, kv_BoolValue = False\<rparr>"

datatype LogSource = LOG_SOURCE_STDIN | LOG_SOURCE_SOCKET | LOG_SOURCE_FILE

record LogRecord =
  lr_Source :: LogSource
  lr_TimeNs :: int
  lr_ObservedTimeNs :: int
  lr_Line :: string
  lr_Pid :: int
  lr_Process :: string
  lr_SeverityNumber :: int
  lr_SeverityText :: string
  lr_ScopeName :: string
  lr_ScopeVersion :: string
  lr_Resource :: "OtelKV list"
  lr_Attributes :: "OtelKV list"
  lr_FileGeneration :: nat
  lr_FileEndOffset :: nat

definition new_LogRecord :: LogRecord where
  "new_LogRecord = \<lparr>lr_Source = LOG_SOURCE_STDIN, lr_TimeNs = 0, lr_ObservedTimeNs = 0, lr_Line = [], lr_Pid = 0, lr_Process = [],
     lr_SeverityNumber = 0, lr_SeverityText = [], lr_ScopeName = [], lr_ScopeVersion = [], lr_Resource = [], lr_Attributes = [],
     lr_FileGeneration = 0, lr_FileEndOffset = 0\<rparr>"

text \<open>The texts of the process which every request carries.\<close>

record identity =
  g_szTask :: string
  g_szVersion :: string
  g_szOtlpServiceName :: string
  g_szServiceNamespace :: string
  g_szServiceInstanceId :: string
  g_szHostname :: string
  g_szProcessEmpty :: string

section \<open>The queue of records\<close>

text \<open>\<^verbatim>\<open>log_fifo\<close>. The mutex makes every operation one step.\<close>

record log_fifo =
  m_queue :: "LogRecord list"
  m_bShutdown :: bool

definition new_log_fifo :: log_fifo where
  "new_log_fifo = \<lparr>m_queue = [], m_bShutdown = False\<rparr>"

definition fifo_push :: "LogRecord \<Rightarrow> log_fifo \<Rightarrow> log_fifo" where
  "fifo_push Record q = q\<lparr>m_queue := m_queue q @ [Record]\<rparr>"

definition fifo_try_push :: "LogRecord \<Rightarrow> nat \<Rightarrow> log_fifo \<Rightarrow> bool \<times> log_fifo" where
  "fifo_try_push Record MaxSize q = (if length (m_queue q) \<ge> MaxSize then (False, q) else (True, fifo_push Record q))"

text \<open>The loop of \<^verbatim>\<open>pop_batch\<close>: what is taken so far, the bytes so far, the queue.\<close>

fun pop_loop :: "nat \<Rightarrow> nat \<Rightarrow> LogRecord list \<Rightarrow> nat \<Rightarrow> LogRecord list \<Rightarrow> LogRecord list \<times> LogRecord list" where
  "pop_loop MaxRecords MaxBytes taken Bytes [] = (taken, [])"
| "pop_loop MaxRecords MaxBytes taken Bytes (r # rs) =
     (if length taken < MaxRecords then
        (if taken \<noteq> [] \<and> Bytes + length (lr_Line r) > MaxBytes then (taken, r # rs)
         else pop_loop MaxRecords MaxBytes (taken @ [r]) (Bytes + length (lr_Line r)) rs)
      else (taken, r # rs))"

text \<open>\<open>None\<close>: the call waits. The batch is \<open>None\<close> when it returns false.\<close>

definition pop_batch :: "nat \<Rightarrow> nat \<Rightarrow> log_fifo \<Rightarrow> (LogRecord list option \<times> log_fifo) option" where
  "pop_batch MaxRecords MaxBytes q =
     (if m_queue q = [] then (if m_bShutdown q then Some (None, q) else None)
      else case pop_loop MaxRecords MaxBytes [] 0 (m_queue q) of (taken, rest) \<Rightarrow> Some (Some taken, q\<lparr>m_queue := rest\<rparr>))"

definition fifo_size :: "log_fifo \<Rightarrow> nat" where
  "fifo_size q = length (m_queue q)"

definition fifo_shutdown :: "log_fifo \<Rightarrow> log_fifo" where
  "fifo_shutdown q = q\<lparr>m_bShutdown := True\<rparr>"

section \<open>Valid UTF-8\<close>

text \<open>The length which the first byte of a sequence gives, 0 for a byte which cannot start one.\<close>

definition utf8_len :: "char \<Rightarrow> nat" where
  "utf8_len ch = (let c = (of_char ch :: nat) in
     if c < 0x80 then 1
     else if c \<ge> 0xC2 \<and> c \<le> 0xDF then 2
     else if c \<ge> 0xE0 \<and> c \<le> 0xEF then 3
     else if c \<ge> 0xF0 \<and> c \<le> 0xF4 then 4
     else 0)"

definition utf8_cont :: "char \<Rightarrow> bool" where
  "utf8_cont ch = (let c = (of_char ch :: nat) in c div 0x40 = 2)"

definition utf8_ok :: "char \<Rightarrow> string \<Rightarrow> bool" where
  "utf8_ok ch rest =
     (let len = utf8_len ch; c = (of_char ch :: nat); c1 = (of_char (hd rest) :: nat) in
      len > 0 \<and> len - 1 \<le> length rest \<and> list_all utf8_cont (take (len - 1) rest) \<and>
      (len = 3 \<longrightarrow> \<not> (c = 0xE0 \<and> c1 < 0xA0) \<and> \<not> (c = 0xED \<and> c1 \<ge> 0xA0)) \<and>
      (len = 4 \<longrightarrow> \<not> (c = 0xF0 \<and> c1 < 0x90) \<and> \<not> (c = 0xF4 \<and> c1 \<ge> 0x90)))"

definition REPLACEMENT :: string where
  "REPLACEMENT = [CHR 0xEF, CHR 0xBF, CHR 0xBD]"

fun ToValidUtf8 :: "string \<Rightarrow> string" where
  "ToValidUtf8 [] = []"
| "ToValidUtf8 (c # s) =
     (if utf8_ok c s then c # take (utf8_len c - 1) s @ ToValidUtf8 (drop (utf8_len c - 1) s)
      else REPLACEMENT @ ToValidUtf8 s)"

section \<open>Attributes\<close>

definition MakeStringKV :: "string \<Rightarrow> string \<Rightarrow> OtelKV" where
  "MakeStringKV pszKey Value = new_OtelKV\<lparr>kv_Key := pszKey, kv_Type := OTEL_TYPE_STRING, kv_StrValue := Value\<rparr>"

definition MakeIntKV :: "string \<Rightarrow> int \<Rightarrow> OtelKV" where
  "MakeIntKV pszKey Value = new_OtelKV\<lparr>kv_Key := pszKey, kv_Type := OTEL_TYPE_INT, kv_IntValue := Value\<rparr>"

text \<open>Comparing two \<^verbatim>\<open>double\<close>s: the two zeros are equal, a NaN is not equal to itself.\<close>

definition is_nan :: "64 word \<Rightarrow> bool" where
  "is_nan d = (unat d mod 2 ^ 63 > 0x7FF * 2 ^ 52)"

definition same_double :: "64 word \<Rightarrow> 64 word \<Rightarrow> bool" where
  "same_double a b = (\<not> is_nan a \<and> \<not> is_nan b \<and> (a = b \<or> unat a mod 2 ^ 63 = 0 \<and> unat b mod 2 ^ 63 = 0))"

definition SameKV :: "OtelKV \<Rightarrow> OtelKV \<Rightarrow> bool" where
  "SameKV A B =
     (if kv_Type A \<noteq> kv_Type B \<or> kv_Key A \<noteq> kv_Key B then False
      else case kv_Type A of
        OTEL_TYPE_INT \<Rightarrow> kv_IntValue A = kv_IntValue B
      | OTEL_TYPE_DOUBLE \<Rightarrow> same_double (kv_DblValue A) (kv_DblValue B)
      | OTEL_TYPE_BOOL \<Rightarrow> kv_BoolValue A = kv_BoolValue B
      | OTEL_TYPE_STRING \<Rightarrow> kv_StrValue A = kv_StrValue B)"

definition SameKVs :: "OtelKV list \<Rightarrow> OtelKV list \<Rightarrow> bool" where
  "SameKVs A B = (if length A \<noteq> length B then False else list_all (\<lambda>i. SameKV (A ! i) (B ! i)) [0..<length A])"

definition GetDefaultResource :: "identity \<Rightarrow> OtelKV list" where
  "GetDefaultResource g =
     [MakeStringKV ''service.name'' (g_szOtlpServiceName g), MakeStringKV ''service.namespace'' (g_szServiceNamespace g),
      MakeStringKV ''service.instance.id'' (g_szServiceInstanceId g), MakeStringKV ''host.name'' (g_szHostname g),
      MakeStringKV ''os.type'' ''linux'']"

definition SetStdinAttributes :: "identity \<Rightarrow> LogRecord \<Rightarrow> LogRecord" where
  "SetStdinAttributes g r =
     r\<lparr>lr_Attributes := (if lr_Pid r > 0 then [MakeIntKV ''process.pid'' (lr_Pid r)] else []) @
       [MakeStringKV ''domino.task'' (if lr_Process r = [] then g_szProcessEmpty g else lr_Process r)]\<rparr>"

section \<open>The request\<close>

definition MakeUtf8Value :: "string \<Rightarrow> json" where
  "MakeUtf8Value Txt = JStr (ToValidUtf8 Txt)"

text \<open>The element which is added to the array of attributes.\<close>

definition AddOtlpKV :: "OtelKV \<Rightarrow> json" where
  "AddOtlpKV KV =
     (let Val = (case kv_Type KV of
            OTEL_TYPE_INT \<Rightarrow> JObj [(''intValue'', JStr (int_text (kv_IntValue KV)))]
          | OTEL_TYPE_DOUBLE \<Rightarrow> JObj [(''doubleValue'', JDouble (kv_DblValue KV))]
          | OTEL_TYPE_BOOL \<Rightarrow> JObj [(''boolValue'', JBool (kv_BoolValue KV))]
          | OTEL_TYPE_STRING \<Rightarrow> JObj [(''stringValue'', MakeUtf8Value (kv_StrValue KV))])
      in JObj [(''key'', MakeUtf8Value (kv_Key KV)), (''value'', Val)])"

definition same_group :: "LogRecord \<Rightarrow> LogRecord \<Rightarrow> bool" where
  "same_group First r = (lr_ScopeName First = lr_ScopeName r \<and> lr_ScopeVersion First = lr_ScopeVersion r \<and> SameKVs (lr_Resource First) (lr_Resource r))"

fun add_to_groups :: "LogRecord \<Rightarrow> LogRecord list list \<Rightarrow> LogRecord list list" where
  "add_to_groups r [] = [[r]]"
| "add_to_groups r (g # gs) = (if same_group (hd g) r then (g @ [r]) # gs else g # add_to_groups r gs)"

definition Groups :: "LogRecord list \<Rightarrow> LogRecord list list" where
  "Groups Records = fold add_to_groups Records []"

definition resource_json :: "identity \<Rightarrow> LogRecord \<Rightarrow> json" where
  "resource_json g First =
     JObj [(''attributes'', JArr (map AddOtlpKV (if lr_Resource First = [] then GetDefaultResource g else lr_Resource First)))]"

definition scope_json :: "identity \<Rightarrow> LogRecord \<Rightarrow> json" where
  "scope_json g First =
     (if lr_ScopeName First = [] then JObj [(''name'', JStr (g_szTask g)), (''version'', JStr (g_szVersion g))]
      else JObj ([(''name'', MakeUtf8Value (lr_ScopeName First))] @
                 (if lr_ScopeVersion First \<noteq> [] then [(''version'', MakeUtf8Value (lr_ScopeVersion First))] else [])))"

definition record_json :: "LogRecord \<Rightarrow> json" where
  "record_json r =
     (let TimeNs = (if lr_TimeNs r \<noteq> 0 then lr_TimeNs r else lr_ObservedTimeNs r);
          ObservedNs = (if lr_ObservedTimeNs r \<noteq> 0 then lr_ObservedTimeNs r else lr_TimeNs r)
      in JObj ([(''timeUnixNano'', JStr (int_text TimeNs)), (''observedTimeUnixNano'', JStr (int_text ObservedNs))] @
               (if lr_SeverityNumber r > 0 then [(''severityNumber'', JInt (lr_SeverityNumber r))] else []) @
               (if lr_SeverityText r \<noteq> [] then [(''severityText'', MakeUtf8Value (lr_SeverityText r))] else []) @
               [(''body'', JObj [(''stringValue'', MakeUtf8Value (lr_Line r))]),
                (''attributes'', JArr (map AddOtlpKV (lr_Attributes r)))]))"

definition group_json :: "identity \<Rightarrow> LogRecord list \<Rightarrow> json" where
  "group_json g Group =
     JObj [(''resource'', resource_json g (hd Group)),
           (''scopeLogs'', JArr [JObj [(''scope'', scope_json g (hd Group)), (''logRecords'', JArr (map record_json Group))]])]"

definition payload_json :: "identity \<Rightarrow> LogRecord list \<Rightarrow> json" where
  "payload_json g Records = JObj [(''resourceLogs'', JArr (map (group_json g) (Groups Records)))]"

definition BuildOtlpPayload :: "(json \<Rightarrow> string) \<Rightarrow> identity \<Rightarrow> LogRecord list \<Rightarrow> string" where
  "BuildOtlpPayload write g Records = c_str (write (payload_json g Records))"

section \<open>Flat records\<close>

fun nano_digits :: "nat \<Rightarrow> string \<Rightarrow> nat option" where
  "nano_digits n [] = Some n"
| "nano_digits n (c # cs) =
     (if \<not> is_digit c then None
      else if n > (2 ^ 64 - 1 - digit_value c) div 10 then None
      else nano_digits (n * 10 + digit_value c) cs)"

text \<open>\<open>None\<close>: false, and the number of the caller stays as it was.\<close>

definition GetUnixNanoFromJson :: "json \<Rightarrow> int option" where
  "GetUnixNanoFromJson Val =
     (let checked = (\<lambda>n. if n > 2 ^ 63 - 1 then None else Some n)
      in case Val of
           JStr s \<Rightarrow> if c_str s = [] then None else (case nano_digits 0 (c_str s) of None \<Rightarrow> None | Some n \<Rightarrow> checked (int n))
         | JInt n \<Rightarrow> if IsUint64 Val then checked n else None
         | _ \<Rightarrow> None)"

text \<open>One member of an object; a null has no attribute.\<close>

definition kv_of_json :: "(json \<Rightarrow> string) \<Rightarrow> string \<times> json \<Rightarrow> OtelKV list" where
  "kv_of_json write m =
     (case m of (Key, Val) \<Rightarrow>
        let KV = new_OtelKV\<lparr>kv_Key := Key\<rparr> in
        case Val of
          JNull \<Rightarrow> []
        | JBool b \<Rightarrow> [KV\<lparr>kv_Type := OTEL_TYPE_BOOL, kv_BoolValue := b\<rparr>]
        | JStr s \<Rightarrow> [KV\<lparr>kv_Type := OTEL_TYPE_STRING, kv_StrValue := s\<rparr>]
        | JInt n \<Rightarrow>
            if IsInt64 Val then [KV\<lparr>kv_Type := OTEL_TYPE_INT, kv_IntValue := n\<rparr>]
            else if IsUint64 Val then [KV\<lparr>kv_Type := OTEL_TYPE_STRING, kv_StrValue := int_text n\<rparr>]
            else [KV\<lparr>kv_Type := OTEL_TYPE_STRING, kv_StrValue := write Val\<rparr>]
        | JDouble d \<Rightarrow> [KV\<lparr>kv_Type := OTEL_TYPE_DOUBLE, kv_DblValue := d\<rparr>]
        | _ \<Rightarrow> [KV\<lparr>kv_Type := OTEL_TYPE_STRING, kv_StrValue := write Val\<rparr>])"

definition AddKVsFromJsonObject :: "(json \<Rightarrow> string) \<Rightarrow> json \<Rightarrow> OtelKV list \<Rightarrow> OtelKV list" where
  "AddKVsFromJsonObject write v KVs = (case v of JObj ms \<Rightarrow> KVs @ concat (map (kv_of_json write) ms) | _ \<Rightarrow> KVs)"

definition text_of :: "json option \<Rightarrow> string" where
  "text_of v = (case v of Some (JStr s) \<Rightarrow> s | _ \<Rightarrow> [])"

definition nano_of :: "json option \<Rightarrow> int" where
  "nano_of v = (case v of None \<Rightarrow> 0 | Some w \<Rightarrow> (case GetUnixNanoFromJson w of None \<Rightarrow> 0 | Some n \<Rightarrow> n))"

definition DecodeFlatRecord :: "(string \<Rightarrow> json option) \<Rightarrow> (json \<Rightarrow> string) \<Rightarrow> string \<Rightarrow> int \<Rightarrow> LogRecord option" where
  "DecodeFlatRecord parse write Txt ArrivalNs =
     (case parse (c_str Txt) of
        Some (JObj ms) \<Rightarrow>
          let doc = JObj ms;
              TimeNs = nano_of (Find ''time_unix_nano'' doc);
              ObservedNs = nano_of (Find ''observed_time_unix_nano'' doc);
              Sev = (case Find ''severity_number'' doc of
                       Some (JInt n) \<Rightarrow> if IsInt (JInt n) \<and> n \<ge> 0 \<and> n \<le> 24 then n else 0
                     | _ \<Rightarrow> 0);
              Line = (case Find ''body'' doc of
                        None \<Rightarrow> []
                      | Some JNull \<Rightarrow> []
                      | Some (JStr s) \<Rightarrow> s
                      | Some v \<Rightarrow> write v);
              scope = (case Find ''scope'' doc of Some (JObj sc) \<Rightarrow> JObj sc | _ \<Rightarrow> JObj []);
              kvs = (\<lambda>name. case Find name doc of None \<Rightarrow> [] | Some v \<Rightarrow> AddKVsFromJsonObject write v []);
              Observed = (if ObservedNs \<noteq> 0 then ObservedNs else ArrivalNs)
          in Some (new_LogRecord\<lparr>lr_Source := LOG_SOURCE_SOCKET, lr_SeverityNumber := Sev, lr_SeverityText := text_of (Find ''severity_text'' doc),
               lr_Line := Line, lr_ScopeName := text_of (Find ''name'' scope), lr_ScopeVersion := text_of (Find ''version'' scope),
               lr_Resource := kvs ''resource'', lr_Attributes := kvs ''attributes'', lr_ObservedTimeNs := Observed,
               lr_TimeNs := (if TimeNs \<noteq> 0 then TimeNs else Observed)\<rparr>)
      | _ \<Rightarrow> None)"

end
