(* ===== verification/Utf8.thy ===== *)
theory Utf8 imports OtelRecord begin

text \<open>
  The reference for \<^verbatim>\<open>ToValidUtf8\<close>: the encoding of Unicode scalar values by the table of the standard. The result is
  always the encoding of some scalar values, and what is already an encoding is not changed.
\<close>

definition scalar :: "nat \<Rightarrow> bool" where
  "scalar cp \<longleftrightarrow> cp < 0xD800 \<or> 0xE000 \<le> cp \<and> cp < 0x110000"

definition utf8_encode :: "nat \<Rightarrow> string" where
  "utf8_encode cp =
     (if cp < 0x80 then [char_of cp]
      else if cp < 0x800 then [char_of (0xC0 + cp div 64), char_of (0x80 + cp mod 64)]
      else if cp < 0x10000 then [char_of (0xE0 + cp div 4096), char_of (0x80 + cp div 64 mod 64), char_of (0x80 + cp mod 64)]
      else [char_of (0xF0 + cp div 262144), char_of (0x80 + cp div 4096 mod 64), char_of (0x80 + cp div 64 mod 64), char_of (0x80 + cp mod 64)])"

lemma of_char_less: "(of_char c :: nat) < 256"
  using nat_of_char_less_256 [of c] by simp

lemma char_by_code: "n = of_char c \<Longrightarrow> char_of (n :: nat) = c"
  by simp

lemma cont_code: "utf8_cont c \<Longrightarrow> 0x80 \<le> (of_char c :: nat) \<and> (of_char c :: nat) < 0xC0"
  by (simp add: utf8_cont_def Let_def) linarith

lemma utf8_len_cases:
  assumes "0 < utf8_len c"
  obtains (one) "utf8_len c = 1" "(of_char c :: nat) < 0x80"
    | (two) "utf8_len c = 2" "0xC2 \<le> (of_char c :: nat)" "(of_char c :: nat) \<le> 0xDF"
    | (three) "utf8_len c = 3" "0xE0 \<le> (of_char c :: nat)" "(of_char c :: nat) \<le> 0xEF"
    | (four) "utf8_len c = 4" "0xF0 \<le> (of_char c :: nat)" "(of_char c :: nat) \<le> 0xF4"
  using assms by (auto simp: utf8_len_def Let_def split: if_splits)

lemma digits_64:
  assumes "b < 64"
  shows "((a :: nat) * 64 + b) div 64 = a" "(a * 64 + b) mod 64 = b"
  using assms by simp_all

lemma div_4096: "n div 4096 = n div 64 div (64 :: nat)"
  by (simp flip: div_mult2_eq)

lemma div_262144: "n div 262144 = n div 64 div 64 div (64 :: nat)"
  by (simp flip: div_mult2_eq)

lemma utf8_encode_2: "0x80 \<le> cp \<Longrightarrow> cp < 0x800 \<Longrightarrow> cp div 64 = a \<Longrightarrow> cp mod 64 = b \<Longrightarrow>
    utf8_encode cp = [char_of (0xC0 + a), char_of (0x80 + b)]"
  by (auto simp: utf8_encode_def)

lemma utf8_encode_3: "0x800 \<le> cp \<Longrightarrow> cp < 0x10000 \<Longrightarrow> cp div 4096 = a \<Longrightarrow> cp div 64 mod 64 = b \<Longrightarrow> cp mod 64 = d \<Longrightarrow>
    utf8_encode cp = [char_of (0xE0 + a), char_of (0x80 + b), char_of (0x80 + d)]"
  by (auto simp: utf8_encode_def)

lemma utf8_encode_4: "0x10000 \<le> cp \<Longrightarrow> cp div 262144 = a \<Longrightarrow> cp div 4096 mod 64 = b \<Longrightarrow> cp div 64 mod 64 = d \<Longrightarrow> cp mod 64 = e \<Longrightarrow>
    utf8_encode cp = [char_of (0xF0 + a), char_of (0x80 + b), char_of (0x80 + d), char_of (0x80 + e)]"
  by (auto simp: utf8_encode_def)

lemma encode_two:
  fixes x y :: nat
  assumes "0xC2 \<le> x" "x \<le> 0xDF" "0x80 \<le> y" "y < 0xC0"
  shows "\<exists>cp. scalar cp \<and> utf8_encode cp = [char_of x, char_of y]"
proof -
  define a b where "a = x - 0xC0" and "b = y - 0x80"
  have ab: "x = 0xC0 + a" "y = 0x80 + b" "b < 64" "2 \<le> a" "a < 32"
    using assms by (simp_all add: a_def b_def)
  define cp where "cp = a * 64 + b"
  have r: "0x80 \<le> cp" "cp < 0x800" "cp div 64 = a" "cp mod 64 = b"
    using ab by (simp_all add: cp_def)
  then have "scalar cp \<and> utf8_encode cp = [char_of x, char_of y]"
    using utf8_encode_2 [OF r] by (simp add: scalar_def ab(1,2))
  then show ?thesis ..
qed

lemma encode_three:
  fixes x y z :: nat
  assumes "0xE0 \<le> x" "x \<le> 0xEF" "0x80 \<le> y" "y < 0xC0" "0x80 \<le> z" "z < 0xC0" "\<not> (x = 0xE0 \<and> y < 0xA0)" "\<not> (x = 0xED \<and> y \<ge> 0xA0)"
  shows "\<exists>cp. scalar cp \<and> utf8_encode cp = [char_of x, char_of y, char_of z]"
proof -
  define a b d where "a = x - 0xE0" and "b = y - 0x80" and "d = z - 0x80"
  have ab: "x = 0xE0 + a" "y = 0x80 + b" "z = 0x80 + d" "b < 64" "d < 64" "a < 16" "a = 0 \<longrightarrow> 32 \<le> b" "a = 13 \<longrightarrow> b < 32"
    using assms by (auto simp: a_def b_def d_def)
  define cp where "cp = (a * 64 + b) * 64 + d"
  have r: "0x800 \<le> cp" "cp < 0x10000"
    using ab by (auto simp: cp_def)
  have "a \<le> 12 \<or> a = 13 \<or> 14 \<le> a"
    by arith
  then have sc: "scalar cp"
    using ab r(2) by (elim disjE) (simp_all add: cp_def scalar_def)
  have "cp div 4096 = a" "cp div 64 mod 64 = b" "cp mod 64 = d"
    unfolding cp_def div_4096 by (simp_all only: digits_64 [OF ab(4)] digits_64 [OF ab(5)])
  note utf8_encode_3 [OF r this]
  then have "utf8_encode cp = [char_of x, char_of y, char_of z]"
    by (simp only: ab(1-3))
  with sc show ?thesis
    by blast
qed

lemma encode_four:
  fixes x y z w :: nat
  assumes "0xF0 \<le> x" "x \<le> 0xF4" "0x80 \<le> y" "y < 0xC0" "0x80 \<le> z" "z < 0xC0" "0x80 \<le> w" "w < 0xC0"
    "\<not> (x = 0xF0 \<and> y < 0x90)" "\<not> (x = 0xF4 \<and> y \<ge> 0x90)"
  shows "\<exists>cp. scalar cp \<and> utf8_encode cp = [char_of x, char_of y, char_of z, char_of w]"
proof -
  define a b d e where "a = x - 0xF0" and "b = y - 0x80" and "d = z - 0x80" and "e = w - 0x80"
  have ab: "x = 0xF0 + a" "y = 0x80 + b" "z = 0x80 + d" "w = 0x80 + e" "b < 64" "d < 64" "e < 64" "a \<le> 4" "a = 0 \<longrightarrow> 16 \<le> b" "a = 4 \<longrightarrow> b < 16"
    using assms by (auto simp: a_def b_def d_def e_def)
  define cp where "cp = ((a * 64 + b) * 64 + d) * 64 + e"
  have r: "0x10000 \<le> cp" "scalar cp"
    using ab by (auto simp: cp_def scalar_def)
  have "cp div 262144 = a" "cp div 4096 mod 64 = b" "cp div 64 mod 64 = d" "cp mod 64 = e"
    unfolding cp_def div_4096 div_262144 by (simp_all only: digits_64 [OF ab(5)] digits_64 [OF ab(6)] digits_64 [OF ab(7)])
  note utf8_encode_4 [OF r(1) this]
  then have "utf8_encode cp = [char_of x, char_of y, char_of z, char_of w]"
    by (simp only: ab(1-4))
  with r(2) show ?thesis
    by blast
qed

lemma utf8_ok_encode:
  assumes "utf8_ok c s"
  shows "\<exists>cp. scalar cp \<and> utf8_encode cp = c # take (utf8_len c - 1) s"
proof -
  have len: "0 < utf8_len c" "utf8_len c - 1 \<le> length s" and conts: "\<And>d. d \<in> set (take (utf8_len c - 1) s) \<Longrightarrow> utf8_cont d"
    using assms by (simp_all add: utf8_ok_def Let_def list_all_iff)
  from len(1) show ?thesis
  proof (cases rule: utf8_len_cases)
    case one
    then have "scalar (of_char c) \<and> utf8_encode (of_char c) = [c]"
      by (simp add: scalar_def utf8_encode_def)
    with one show ?thesis
      by (intro exI [of _ "of_char c"]) simp
  next
    case two
    with len(2) obtain y r where s: "s = y # r"
      by (cases s) auto
    have "utf8_cont y"
      using conts two s by simp
    then obtain cp where "scalar cp" "utf8_encode cp = [c, y]"
      using encode_two [OF two(2,3)] cont_code by fastforce
    then show ?thesis
      using s two(1) by auto
  next
    case three
    with len(2) obtain y z r where s: "s = y # z # r"
      by (cases s; cases "tl s") auto
    have "utf8_cont y" "utf8_cont z"
      using conts three s by (simp_all add: numeral_2_eq_2)
    then have "0x80 \<le> (of_char y :: nat)" "of_char y < (0xC0 :: nat)" "0x80 \<le> (of_char z :: nat)" "of_char z < (0xC0 :: nat)"
      using cont_code by blast+
    moreover have "\<not> (of_char c = (0xE0 :: nat) \<and> of_char y < (0xA0 :: nat))" "\<not> (of_char c = (0xED :: nat) \<and> of_char y \<ge> (0xA0 :: nat))"
      using assms three(1) unfolding utf8_ok_def Let_def s list.sel by blast+
    ultimately obtain cp where "scalar cp" "utf8_encode cp = [c, y, z]"
      using encode_three [OF three(2,3)] by (metis char_of_char)
    then show ?thesis
      using s three(1) by (intro exI [of _ cp]) (simp add: numeral_2_eq_2)
  next
    case four
    with len(2) obtain y z w r where s: "s = y # z # w # r"
      by (cases s; cases "tl s"; cases "tl (tl s)") auto
    have "utf8_cont y" "utf8_cont z" "utf8_cont w"
      using conts four s by (simp_all add: numeral_3_eq_3)
    then have "0x80 \<le> (of_char y :: nat)" "of_char y < (0xC0 :: nat)" "0x80 \<le> (of_char z :: nat)" "of_char z < (0xC0 :: nat)"
      "0x80 \<le> (of_char w :: nat)" "of_char w < (0xC0 :: nat)"
      using cont_code by blast+
    moreover have "\<not> (of_char c = (0xF0 :: nat) \<and> of_char y < (0x90 :: nat))" "\<not> (of_char c = (0xF4 :: nat) \<and> of_char y \<ge> (0x90 :: nat))"
      using assms four(1) unfolding utf8_ok_def Let_def s list.sel by blast+
    ultimately obtain cp where "scalar cp" "utf8_encode cp = [c, y, z, w]"
      using encode_four [OF four(2,3)] by (metis char_of_char)
    then show ?thesis
      using s four(1) by (intro exI [of _ cp]) (simp add: numeral_3_eq_3)
  qed
qed

lemma utf8_encode_ok:
  assumes "scalar cp"
  shows "\<exists>c s. utf8_encode cp = c # s \<and> utf8_len c = Suc (length s) \<and> (\<forall>r. utf8_ok c (s @ r))"
proof -
  have code: "(of_char (char_of n :: char) :: nat) = n" if "n < 256" for n
    using that by (simp add: of_char_of)
  have u: "cp < 0x110000"
    using assms by (auto simp: scalar_def)
  consider (one) "cp < 0x80" | (two) "0x80 \<le> cp" "cp < 0x800" | (three) "0x800 \<le> cp" "cp < 0x10000" | (four) "0x10000 \<le> cp" "cp < 0x110000"
    using u by (meson not_less)
  then show ?thesis
  proof cases
    case one
    then show ?thesis
      by (simp add: utf8_encode_def utf8_ok_def utf8_len_def Let_def code)
  next
    case two
    define a b where "a = cp div 64" and "b = cp mod 64"
    have ab: "2 \<le> a" "a < 32" "b < 64"
      using two by (auto simp: a_def b_def)
    have "utf8_encode cp = [char_of (0xC0 + a), char_of (0x80 + b)]"
      using two by (simp add: utf8_encode_def a_def b_def)
    then show ?thesis
      using ab by (simp add: utf8_ok_def utf8_len_def utf8_cont_def Let_def code)
  next
    case three
    define a b d where "a = cp div 64 div 64" and "b = cp div 64 mod 64" and "d = cp mod 64"
    have cp: "cp = (a * 64 + b) * 64 + d"
      by (simp add: a_def b_def d_def)
    have ab: "a < 16" "b < 64" "d < 64"
      using three by (auto simp: a_def b_def d_def)
    have edge: "a = 0 \<longrightarrow> 32 \<le> b" "a = 13 \<longrightarrow> b < 32"
      using three assms cp ab by (auto simp: scalar_def)
    have "utf8_encode cp = [char_of (0xE0 + a), char_of (0x80 + b), char_of (0x80 + d)]"
      using three by (simp add: utf8_encode_def a_def b_def d_def div_4096)
    then show ?thesis
      using ab edge by (auto simp: utf8_ok_def utf8_len_def utf8_cont_def Let_def code)
  next
    case four
    define a b d e where "a = cp div 64 div 64 div 64" and "b = cp div 64 div 64 mod 64" and "d = cp div 64 mod 64" and "e = cp mod 64"
    have cp: "cp = ((a * 64 + b) * 64 + d) * 64 + e"
      by (simp add: a_def b_def d_def e_def)
    have ab: "b < 64" "d < 64" "e < 64"
      by (auto simp: b_def d_def e_def)
    have edge: "a \<le> 4" "a = 0 \<longrightarrow> 16 \<le> b" "a = 4 \<longrightarrow> b < 16"
      using four cp ab by auto
    have "utf8_encode cp = [char_of (0xF0 + a), char_of (0x80 + b), char_of (0x80 + d), char_of (0x80 + e)]"
      using four by (simp add: utf8_encode_def a_def b_def d_def e_def div_4096 div_262144)
    then show ?thesis
      using ab edge by (auto simp: utf8_ok_def utf8_len_def utf8_cont_def Let_def code)
  qed
qed

lemma ToValidUtf8_valid: "\<exists>cps. list_all scalar cps \<and> ToValidUtf8 s = concat (map utf8_encode cps)"
proof (induction s rule: ToValidUtf8.induct)
  case (2 c s)
  show ?case
  proof (cases "utf8_ok c s")
    case True
    then obtain cps where "list_all scalar cps" "ToValidUtf8 (drop (utf8_len c - 1) s) = concat (map utf8_encode cps)"
      using 2(1) by blast
    moreover obtain cp where "scalar cp" "utf8_encode cp = c # take (utf8_len c - 1) s"
      using utf8_ok_encode [OF True] by blast
    ultimately show ?thesis
      using True by (intro exI [of _ "cp # cps"]) simp
  next
    case False
    then obtain cps where "list_all scalar cps" "ToValidUtf8 s = concat (map utf8_encode cps)"
      using 2(2) by blast
    moreover have "scalar 0xFFFD"
      by (simp add: scalar_def)
    moreover have "utf8_encode 0xFFFD = REPLACEMENT"
      by (simp add: utf8_encode_def REPLACEMENT_def char_by_code)
    ultimately show ?thesis
      using False by (intro exI [of _ "0xFFFD # cps"]) simp
  qed
qed (simp add: exI [of _ "[]"])

lemma ToValidUtf8_encoded: "list_all scalar cps \<Longrightarrow> ToValidUtf8 (concat (map utf8_encode cps)) = concat (map utf8_encode cps)"
proof (induction cps)
  case (Cons cp cps)
  then obtain c s where e: "utf8_encode cp = c # s" "utf8_len c = Suc (length s)" "\<forall>r. utf8_ok c (s @ r)"
    using utf8_encode_ok [of cp] by auto
  then show ?case
    using Cons by simp
qed simp

text \<open>Whatever bytes a log line has, the text which goes into a request is UTF-8: the encoding of Unicode scalar values (no surrogates,
  nothing overlong, nothing above U+10FFFF). Text which is already UTF-8 is not changed.\<close>

theorem ToValidUtf8_is_utf8:
  "(\<exists>cps. list_all scalar cps \<and> ToValidUtf8 s = concat (map utf8_encode cps)) \<and>
   (ToValidUtf8 s = s \<longleftrightarrow> (\<exists>cps. list_all scalar cps \<and> s = concat (map utf8_encode cps)))"
  using ToValidUtf8_valid [of s] ToValidUtf8_encoded by metis

end
