(* ===== verification/OtelRecordTheorems.thy ===== *)
theory OtelRecordTheorems imports Utf8 OtlpProtobufTheorems FileReaderState "HOL-Library.Multiset" "HOL-Library.Sublist" begin

text \<open>
  Properties of records and requests: every record is in the request, whatever the encoding; decoding a flat record; the queue.
\<close>

section \<open>The log data of records\<close>

definition kv_data :: "OtelKV \<Rightarrow> key_value" where
  "kv_data KV = (ToValidUtf8 (kv_Key KV),
     Some (case kv_Type KV of OTEL_TYPE_INT \<Rightarrow> AnyInt (kv_IntValue KV) | OTEL_TYPE_DOUBLE \<Rightarrow> AnyDouble (kv_DblValue KV)
             | OTEL_TYPE_BOOL \<Rightarrow> AnyBool (kv_BoolValue KV) | OTEL_TYPE_STRING \<Rightarrow> AnyString (ToValidUtf8 (kv_StrValue KV))))"

definition event_time :: "LogRecord \<Rightarrow> int" where
  "event_time r = (if lr_TimeNs r \<noteq> 0 then lr_TimeNs r else lr_ObservedTimeNs r)"

definition observed_time :: "LogRecord \<Rightarrow> int" where
  "observed_time r = (if lr_ObservedTimeNs r \<noteq> 0 then lr_ObservedTimeNs r else lr_TimeNs r)"

definition record_data :: "LogRecord \<Rightarrow> log_data" where
  "record_data r = \<lparr>l_time = Some (nat (event_time r)),
     l_sevnum = (if lr_SeverityNumber r > 0 then Some (lr_SeverityNumber r) else None),
     l_sevtext = (if lr_SeverityText r \<noteq> [] then Some (ToValidUtf8 (lr_SeverityText r)) else None),
     l_body = Some (AnyString (ToValidUtf8 (lr_Line r))), l_attrs = map kv_data (lr_Attributes r), l_observed = Some (nat (observed_time r))\<rparr>"

definition group_data :: "identity \<Rightarrow> LogRecord list \<Rightarrow> resource_logs" where
  "group_data g Group =
     (Some (map kv_data (if lr_Resource (hd Group) = [] then GetDefaultResource g else lr_Resource (hd Group))),
      [(Some (if lr_ScopeName (hd Group) = [] then (Some (g_szTask g), Some (g_szVersion g))
              else (Some (ToValidUtf8 (lr_ScopeName (hd Group))),
                    if lr_ScopeVersion (hd Group) \<noteq> [] then Some (ToValidUtf8 (lr_ScopeVersion (hd Group))) else None)),
        map record_data Group)])"

text \<open>The numbers are in the range of their C++ types, and no time is before 1970.\<close>

definition kv_ok :: "OtelKV \<Rightarrow> bool" where
  "kv_ok KV \<longleftrightarrow> - (2 ^ 63) \<le> kv_IntValue KV \<and> kv_IntValue KV < 2 ^ 63"

definition record_ok :: "LogRecord \<Rightarrow> bool" where
  "record_ok r \<longleftrightarrow> 0 \<le> lr_TimeNs r \<and> lr_TimeNs r < 2 ^ 63 \<and> 0 \<le> lr_ObservedTimeNs r \<and> lr_ObservedTimeNs r < 2 ^ 63 \<and>
     lr_SeverityNumber r < 2 ^ 31 \<and> list_all kv_ok (lr_Resource r) \<and> list_all kv_ok (lr_Attributes r)"

section \<open>What the converter sees\<close>

lemma no_zero_dec: "CHR 0x00 \<notin> set (dec_text n)"
  using dec_text_digits [of n] by (auto simp: list_all_iff is_digit_def)

lemma decimal_int_text: "IsDecimalText (int_text i) True"
  using no_zero_dec dec_text_digits digit_not [OF dec_text_hd] by (auto simp: IsDecimalText_def int_text_def Let_def)

lemma decimal_nat_text: "0 \<le> i \<Longrightarrow> IsDecimalText (int_text i) False"
  using no_zero_dec dec_text_digits by (auto simp: IsDecimalText_def int_text_def Let_def)

lemma text_int_int_text: "text_int (int_text i) = i"
  using digit_not [OF dec_text_hd] by (auto simp: text_int_def int_text_def dec_value_dec_text)

lemma json_i64_text: "- (2 ^ 63) \<le> i \<Longrightarrow> i < 2 ^ 63 \<Longrightarrow> json_i64 (JStr (int_text i)) = Some i"
  by (simp add: json_i64_def decimal_int_text text_int_int_text)

lemma json_u64_text:
  assumes "0 \<le> i" "i < 2 ^ 63"
  shows "json_u64 (JStr (int_text i)) = Some (nat i)"
proof -
  have "dec_value (int_text i) = nat i"
    using assms by (simp add: int_text_def dec_value_dec_text)
  moreover have "nat i < 2 ^ 64"
    using assms by (simp add: nat_less_iff)
  ultimately show ?thesis
    by (simp add: json_u64_def decimal_nat_text [OF assms(1)])
qed

lemma c_str_plain: "CHR 0x00 \<notin> set s \<Longrightarrow> c_str s = s"
  by (auto simp: c_str_def takeWhile_eq_all_conv)

lemma json_any_simps:
  "json_any d (JObj [(''stringValue'', JStr s)]) = Some (AnyString s)"
  "json_any d (JObj [(''boolValue'', JBool b)]) = Some (AnyBool b)"
  "json_any d (JObj [(''doubleValue'', JDouble x)]) = Some (AnyDouble x)"
  "json_any d (JObj [(''intValue'', v)]) = map_option AnyInt (json_i64 v)"
  by (simp_all add: json_any_def only_def c_str_def json_string_def)

lemma json_kv_simp: "json_kv d (JObj [(''key'', JStr k), (''value'', v)]) = map_option (\<lambda>a. (k, Some a)) (json_any d v)"
  by (cases "json_any d v") (simp_all add: json_kv_def only_def c_str_def json_string_def opt_def Find_def)

lemma json_kv_AddOtlpKV: "kv_ok KV \<Longrightarrow> json_kv d (AddOtlpKV KV) = Some (kv_data KV)"
  by (cases "kv_Type KV") (simp_all add: AddOtlpKV_def kv_data_def MakeUtf8Value_def json_kv_simp json_any_simps json_i64_text kv_ok_def)

lemma those_Some: "(\<And>x. x \<in> set xs \<Longrightarrow> f x = Some (g x)) \<Longrightarrow> those (map f xs) = Some (map g xs)"
  by (induction xs) simp_all

lemma json_list_map: "(\<And>x. x \<in> set xs \<Longrightarrow> f (h x) = Some (g x)) \<Longrightarrow> json_list f (JArr (map h xs)) = Some (map g xs)"
  using those_Some [of xs "\<lambda>x. f (h x)" g] by (simp add: json_list_def comp_def)

lemma json_kvs: "list_all kv_ok kvs \<Longrightarrow> json_list (json_kv d) (JArr (map AddOtlpKV kvs)) = Some (map kv_data kvs)"
  by (rule json_list_map) (auto simp: list_all_iff json_kv_AddOtlpKV)

lemma json_log_record_json:
  assumes "record_ok r"
  shows "json_log d (record_json r) = Some (record_data r)"
proof -
  have e: "0 \<le> event_time r" "event_time r < 2 ^ 63" "0 \<le> observed_time r" "observed_time r < 2 ^ 63"
    using assms by (auto simp: record_ok_def event_time_def observed_time_def)
  define v where "v = record_json r"
  have v: "v = JObj ([(''timeUnixNano'', JStr (int_text (event_time r))), (''observedTimeUnixNano'', JStr (int_text (observed_time r)))] @
       (if lr_SeverityNumber r > 0 then [(''severityNumber'', JInt (lr_SeverityNumber r))] else []) @
       (if lr_SeverityText r \<noteq> [] then [(''severityText'', MakeUtf8Value (lr_SeverityText r))] else []) @
       [(''body'', JObj [(''stringValue'', MakeUtf8Value (lr_Line r))]), (''attributes'', JArr (map AddOtlpKV (lr_Attributes r)))])"
    by (simp add: v_def record_json_def event_time_def observed_time_def Let_def)
  have "only [''timeUnixNano'', ''observedTimeUnixNano'', ''severityNumber'', ''severityText'', ''body'', ''attributes''] v"
    by (simp add: v only_def c_str_def)
  moreover have "opt ''timeUnixNano'' v json_u64 = Some (Some (nat (event_time r)))"
    by (simp add: opt_def Find_def v json_u64_text [OF e(1,2)])
  moreover have "opt ''observedTimeUnixNano'' v json_u64 = Some (Some (nat (observed_time r)))"
    by (simp add: opt_def Find_def v json_u64_text [OF e(3,4)])
  moreover have "opt ''severityNumber'' v json_i32 = Some (if lr_SeverityNumber r > 0 then Some (lr_SeverityNumber r) else None)"
    using assms by (simp add: v opt_def Find_def json_i32_def record_ok_def)
  moreover have "opt ''severityText'' v json_string = Some (if lr_SeverityText r \<noteq> [] then Some (ToValidUtf8 (lr_SeverityText r)) else None)"
    by (simp add: v opt_def Find_def json_string_def MakeUtf8Value_def)
  moreover have "opt ''body'' v (json_any d) = Some (Some (AnyString (ToValidUtf8 (lr_Line r))))"
    by (simp add: v opt_def Find_def MakeUtf8Value_def json_any_simps)
  moreover have "opt ''attributes'' v (json_list (json_kv d)) = Some (Some (map kv_data (lr_Attributes r)))"
    using assms by (simp add: v opt_def Find_def json_kvs record_ok_def)
  ultimately show ?thesis
    unfolding v_def [symmetric] json_log_def by (simp add: record_data_def the_list_def)
qed

lemma kv_ok_default: "list_all kv_ok (GetDefaultResource g)"
  by (simp add: GetDefaultResource_def kv_ok_def MakeStringKV_def new_OtelKV_def)

lemma json_group:
  assumes "Group \<noteq> []" "list_all record_ok Group"
  shows "json_resource_logs d (group_json g Group) = Some (group_data g Group)"
proof -
  have hd: "record_ok (hd Group)"
    using assms by (cases Group) simp_all
  have kvs: "list_all kv_ok (if lr_Resource (hd Group) = [] then GetDefaultResource g else lr_Resource (hd Group))"
    using hd kv_ok_default by (simp add: record_ok_def)
  have res: "json_resource d (resource_json g (hd Group)) =
      Some (map kv_data (if lr_Resource (hd Group) = [] then GetDefaultResource g else lr_Resource (hd Group)))"
    using json_kvs [OF kvs] by (simp add: resource_json_def json_resource_def only_def c_str_def opt_def Find_def the_list_def)
  have scope: "json_scope (scope_json g (hd Group)) =
      Some (if lr_ScopeName (hd Group) = [] then (Some (g_szTask g), Some (g_szVersion g))
              else (Some (ToValidUtf8 (lr_ScopeName (hd Group))),
                    if lr_ScopeVersion (hd Group) \<noteq> [] then Some (ToValidUtf8 (lr_ScopeVersion (hd Group))) else None))"
    by (simp add: scope_json_def json_scope_def only_def c_str_def opt_def Find_def json_string_def MakeUtf8Value_def)
  have recs: "json_list (json_log d) (JArr (map record_json Group)) = Some (map record_data Group)"
    using assms(2) by (intro json_list_map) (auto simp: list_all_iff json_log_record_json)
  have "json_scope_logs d (JObj [(''scope'', scope_json g (hd Group)), (''logRecords'', JArr (map record_json Group))]) =
      Some (Some (if lr_ScopeName (hd Group) = [] then (Some (g_szTask g), Some (g_szVersion g))
              else (Some (ToValidUtf8 (lr_ScopeName (hd Group))),
                    if lr_ScopeVersion (hd Group) \<noteq> [] then Some (ToValidUtf8 (lr_ScopeVersion (hd Group))) else None)),
        map record_data Group)"
    using scope recs by (simp add: json_scope_logs_def only_def c_str_def opt_def Find_def the_list_def)
  with res show ?thesis
    unfolding group_json_def group_data_def json_resource_logs_def
    by (simp add: only_def c_str_def opt_def Find_def the_list_def json_list_def [of "json_scope_logs d"])
qed

section \<open>Groups\<close>

lemma add_to_groups_spec:
  assumes "\<forall>G \<in> set gs. G \<noteq> [] \<and> subseq G rs \<and> (\<forall>r \<in> set (tl G). same_group (hd G) r)"
  shows "(\<forall>G \<in> set (add_to_groups r gs). G \<noteq> [] \<and> subseq G (rs @ [r]) \<and> (\<forall>x \<in> set (tl G). same_group (hd G) x)) \<and>
         mset (concat (add_to_groups r gs)) = add_mset r (mset (concat gs))"
  using assms
proof (induction gs)
  case Nil
  show ?case
    by (simp add: list_emb_append2)
next
  case (Cons G gs)
  show ?case
  proof (cases "same_group (hd G) r")
    case True
    have "subseq (G @ [r]) (rs @ [r])" "tl (G @ [r]) = tl G @ [r]" "hd (G @ [r]) = hd G"
      using Cons.prems by (auto intro: list_emb_append_mono)
    moreover have "\<forall>H \<in> set gs. H \<noteq> [] \<and> subseq H (rs @ [r]) \<and> (\<forall>x \<in> set (tl H). same_group (hd H) x)"
      using Cons.prems by (auto intro: list_emb_append2)
    ultimately show ?thesis
      using True Cons.prems by auto
  next
    case False
    have "subseq G (rs @ [r])"
      using Cons.prems by (auto intro: list_emb_append2)
    then show ?thesis
      using False Cons by auto
  qed
qed

lemma Groups_spec:
  "(\<forall>G \<in> set (Groups rs). G \<noteq> [] \<and> subseq G rs \<and> (\<forall>r \<in> set (tl G). same_group (hd G) r)) \<and> mset (concat (Groups rs)) = mset rs"
proof (induction rs rule: rev_induct)
  case Nil
  show ?case
    by (simp add: Groups_def)
next
  case (snoc r rs)
  have "Groups (rs @ [r]) = add_to_groups r (Groups rs)"
    by (simp add: Groups_def)
  then show ?case
    using add_to_groups_spec [of "Groups rs" rs r] snoc by simp
qed

lemma Groups_members:
  assumes "G \<in> set (Groups rs)"
  shows "set G \<subseteq> set rs"
proof -
  have "set (concat (Groups rs)) = set rs"
    using Groups_spec [of rs] by (metis mset_eq_setD)
  with assms show ?thesis
    by auto
qed

lemma json_request_payload:
  assumes "list_all record_ok rs"
  shows "json_request d (payload_json g rs) = Some (map (group_data g) (Groups rs))"
proof -
  have "json_resource_logs d (group_json g G) = Some (group_data g G)" if "G \<in> set (Groups rs)" for G
  proof (rule json_group)
    show "G \<noteq> []"
      using Groups_spec [of rs] that by blast
    show "list_all record_ok G"
      using Groups_members [OF that] assms by (auto simp: list_all_iff)
  qed
  then have "json_list (json_resource_logs d) (JArr (map (group_json g) (Groups rs))) = Some (map (group_data g) (Groups rs))"
    by (rule json_list_map)
  then show ?thesis
    by (simp add: json_request_def payload_json_def only_def c_str_def opt_def Find_def the_list_def)
qed

section \<open>The properties\<close>


definition some_identity :: identity where
  "some_identity = \<lparr>g_szTask = ''otelfwd'', g_szVersion = ''1'', g_szOtlpServiceName = ''domino'', g_szServiceNamespace = ''domino'',
     g_szServiceInstanceId = ''h'', g_szHostname = ''h'', g_szProcessEmpty = ''unknown''\<rparr>"


lemma nano_range: "0 \<le> nano_of v \<and> nano_of v < 2 ^ 63"
proof -
  have "GetUnixNanoFromJson w = Some n \<Longrightarrow> 0 \<le> n \<and> n < 2 ^ 63" for w n
    by (auto simp: GetUnixNanoFromJson_def IsUint64_def Let_def split: json.splits if_splits option.splits)
  then show ?thesis
    by (auto simp: nano_of_def split: option.splits)
qed

lemma kv_of_json_ok: "list_all kv_ok (kv_of_json write (k, v))"
  by (cases v) (auto simp: kv_of_json_def kv_ok_def new_OtelKV_def IsInt64_def Let_def)

lemma kvs_of_json_ok: "list_all kv_ok (AddKVsFromJsonObject write v [])"
proof (cases v)
  case (JObj ms)
  then show ?thesis
    using kv_of_json_ok by (fastforce simp: AddKVsFromJsonObject_def list_all_iff)
qed (simp_all add: AddKVsFromJsonObject_def)

lemma flat_record_can_be_sent:
  assumes "DecodeFlatRecord parse write Txt ArrivalNs = Some r" and "0 < ArrivalNs" "ArrivalNs < 2 ^ 63"
  shows "record_ok r \<and> 0 \<le> lr_SeverityNumber r \<and> lr_SeverityNumber r \<le> 24 \<and> 0 < lr_TimeNs r \<and> 0 < lr_ObservedTimeNs r \<and>
    lr_Source r = LOG_SOURCE_SOCKET \<and> lr_FileGeneration r = 0"
proof -
  from assms(1) obtain ms where "parse (c_str Txt) = Some (JObj ms)"
    by (auto simp: DecodeFlatRecord_def split: option.splits json.splits)
  note r = assms(1) [unfolded DecodeFlatRecord_def this option.case json.case Let_def option.inject, symmetric]
  have "0 \<le> lr_SeverityNumber r \<and> lr_SeverityNumber r \<le> 24"
    unfolding r by (auto split: option.splits json.splits)
  moreover have "list_all kv_ok (lr_Resource r)" "list_all kv_ok (lr_Attributes r)"
    unfolding r using kvs_of_json_ok by (auto split: option.splits)
  moreover have "0 < lr_TimeNs r \<and> lr_TimeNs r < 2 ^ 63" "0 < lr_ObservedTimeNs r \<and> lr_ObservedTimeNs r < 2 ^ 63"
    unfolding r using assms(2,3) nano_range [of "Find ''time_unix_nano'' (JObj ms)"] nano_range [of "Find ''observed_time_unix_nano'' (JObj ms)"]
    by auto
  moreover have "lr_Source r = LOG_SOURCE_SOCKET" "lr_FileGeneration r = 0"
    unfolding r by (simp_all add: new_LogRecord_def)
  ultimately show ?thesis
    by (simp add: record_ok_def)
qed

section \<open>The queue\<close>

definition line_bytes :: "LogRecord list \<Rightarrow> nat" where
  "line_bytes rs = sum_list (map (\<lambda>r. length (lr_Line r)) rs)"

lemma pop_loop_spec:
  assumes "pop_loop MaxRecords MaxBytes taken Bytes rs = (out, rest)" "Bytes = line_bytes taken" "length taken \<le> MaxRecords"
    "length taken \<le> 1 \<or> Bytes \<le> MaxBytes"
  shows "taken @ rs = out @ rest \<and> length taken \<le> length out \<and> length out \<le> MaxRecords \<and> (length out \<le> 1 \<or> line_bytes out \<le> MaxBytes) \<and>
    (case rest of [] \<Rightarrow> True | r # _ \<Rightarrow> length out = MaxRecords \<or> out \<noteq> [] \<and> line_bytes (out @ [r]) > MaxBytes)"
  using assms
proof (induction rs arbitrary: taken Bytes)
  case (Cons r rs)
  show ?case
  proof (cases "length taken < MaxRecords \<and> \<not> (taken \<noteq> [] \<and> Bytes + length (lr_Line r) > MaxBytes)")
    case True
    then have "pop_loop MaxRecords MaxBytes (taken @ [r]) (Bytes + length (lr_Line r)) rs = (out, rest)"
      using Cons.prems(1) by (simp split: if_splits)
    moreover have "length (taken @ [r]) \<le> 1 \<or> Bytes + length (lr_Line r) \<le> MaxBytes"
      using True by auto
    ultimately show ?thesis
      using Cons.IH [of "taken @ [r]" "Bytes + length (lr_Line r)"] Cons.prems(2) True by (simp add: line_bytes_def)
  next
    case False
    then show ?thesis
      using Cons.prems by (auto simp: line_bytes_def split: if_splits)
  qed
qed auto

text \<open>A batch has records, it is the front of the queue in its order and the rest stays, it keeps the limit of the records and, if it has
  more than one record, the limit of the bytes; and it is as large as these limits allow.\<close>

theorem pop_batch_takes_the_front:
  assumes "pop_batch MaxRecords MaxBytes q = Some (Some batch, q')" and "0 < MaxRecords"
  shows "m_queue q = batch @ m_queue q' \<and> batch \<noteq> [] \<and> length batch \<le> MaxRecords \<and> (length batch = 1 \<or> line_bytes batch \<le> MaxBytes) \<and>
    (case m_queue q' of [] \<Rightarrow> True | r # _ \<Rightarrow> length batch = MaxRecords \<or> line_bytes (batch @ [r]) > MaxBytes)"
proof -
  from assms(1) obtain r rs rest where q: "m_queue q = r # rs" and l: "pop_loop MaxRecords MaxBytes [] 0 (m_queue q) = (batch, rest)"
    and q': "m_queue q' = rest"
    by (cases "m_queue q") (auto simp: pop_batch_def split: if_splits prod.splits)
  have s: "m_queue q = batch @ rest" "length batch \<le> MaxRecords" "length batch \<le> 1 \<or> line_bytes batch \<le> MaxBytes"
    "case rest of [] \<Rightarrow> True | r # _ \<Rightarrow> length batch = MaxRecords \<or> batch \<noteq> [] \<and> line_bytes (batch @ [r]) > MaxBytes"
    using pop_loop_spec [OF l] by (simp_all add: line_bytes_def)
  have ne: "batch \<noteq> []"
    using s(1,4) q assms(2) by (auto split: list.splits)
  with s(3) have "length batch = 1 \<or> line_bytes batch \<le> MaxBytes"
    by (cases batch) auto
  with s ne q' show ?thesis
    by (auto split: list.splits)
qed

theorem pop_batch_takes_the_front_witness:
  "\<exists>batch q'. pop_batch 2 5 (fifo_push (new_LogRecord\<lparr>lr_Line := ''abc''\<rparr>) (fifo_push (new_LogRecord\<lparr>lr_Line := ''abcd''\<rparr>) new_log_fifo)) = Some (Some batch, q') \<and>
     length batch = 1 \<and> batch @ m_queue q' = [new_LogRecord\<lparr>lr_Line := ''abcd''\<rparr>, new_LogRecord\<lparr>lr_Line := ''abc''\<rparr>]"
proof -
  define q where "q = fifo_push (new_LogRecord\<lparr>lr_Line := ''abc''\<rparr>) (fifo_push (new_LogRecord\<lparr>lr_Line := ''abcd''\<rparr>) new_log_fifo)"
  have e: "pop_batch 2 5 q = Some (Some [new_LogRecord\<lparr>lr_Line := ''abcd''\<rparr>], q\<lparr>m_queue := [new_LogRecord\<lparr>lr_Line := ''abc''\<rparr>]\<rparr>)"
    by (simp add: q_def pop_batch_def fifo_push_def new_log_fifo_def)
  have "m_queue q = [new_LogRecord\<lparr>lr_Line := ''abcd''\<rparr>] @ [new_LogRecord\<lparr>lr_Line := ''abc''\<rparr>]"
    using pop_batch_takes_the_front [OF e] by simp
  with e show ?thesis
    unfolding q_def [symmetric] by auto
qed

end
