(* ===== verification/PidMap.thy ===== *)
theory PidMap imports OtelRecord begin

text \<open>
  The process names of Domino (\<^verbatim>\<open>pid.nbf\<close>): \<^verbatim>\<open>ParsePid\<close>, \<^verbatim>\<open>HasFileChanged\<close>, \<^verbatim>\<open>LoadPidMap\<close>,
  \<^verbatim>\<open>ExtractProcessId\<close> and \<^verbatim>\<open>GetProcessName\<close> of \<^verbatim>\<open>otelfwd.cpp\<close>. What the file is when it is opened and
  when its status is asked for are two arguments: it can change in between.
\<close>

type_synonym PidMap = "int \<rightharpoonup> string"

text \<open>A conversion to \<^verbatim>\<open>pid_t\<close>, which has 32 bits.\<close>

definition to_pid :: "int \<Rightarrow> int" where
  "to_pid n = signed_take_bit 31 n"

definition ParsePid :: "string \<Rightarrow> int option" where
  "ParsePid txt = (case c_strtol (c_str txt) of (v, rest, range_error) \<Rightarrow>
     if range_error \<or> rest = c_str txt \<or> rest \<noteq> [] then None else if v < 0 then None else Some (to_pid v))"

text \<open>The parts of \<^verbatim>\<open>struct stat\<close> which are compared. Times are seconds and nanoseconds.\<close>

record file_stat =
  st_ino :: nat
  st_size :: int
  st_mtim :: "int \<times> int"
  st_ctim :: "int \<times> int"

definition HasFileChanged :: "string option \<Rightarrow> file_stat option \<Rightarrow> file_stat \<Rightarrow> bool \<times> file_stat" where
  "HasFileChanged pszFile Current Last =
     (if pszFile = None \<or> pszFile = Some [] then (False, Last)
      else case Current of
        None \<Rightarrow> (False, Last)
      | Some c \<Rightarrow>
          (if st_ino Last = 0 then True
           else if st_ino c \<noteq> st_ino Last then True
           else if st_size c \<noteq> st_size Last then True
           else if st_mtim c \<noteq> st_mtim Last then True
           else if st_ctim c \<noteq> st_ctim Last then True
           else False, c))"

text \<open>\<^verbatim>\<open>std::getline\<close>: the lines of a text; a last line without a line end counts if it is not empty.\<close>

fun getlines :: "string \<Rightarrow> string \<Rightarrow> string list" where
  "getlines acc [] = (if acc = [] then [] else [acc])"
| "getlines acc (c # cs) = (if c = CHR 0x0A then acc # getlines [] cs else getlines (acc @ [c]) cs)"

text \<open>The words which \<^verbatim>\<open>operator>>\<close> reads one after the other.\<close>

fun words_of :: "string \<Rightarrow> string \<Rightarrow> string list" where
  "words_of acc [] = (if acc = [] then [] else [acc])"
| "words_of acc (c # cs) =
     (if is_space c then (if acc = [] then words_of [] cs else acc # words_of [] cs) else words_of (acc @ [c]) cs)"

definition pid_line :: "string \<Rightarrow> PidMap \<Rightarrow> PidMap" where
  "pid_line line pidMap =
     (case words_of [] line of
        running # pidText # ppid # processName # _ \<Rightarrow>
          (case ParsePid pidText of None \<Rightarrow> pidMap | Some pid \<Rightarrow> pidMap(pid \<mapsto> processName))
      | _ \<Rightarrow> pidMap)"

text \<open>The result, the map, the status which is remembered, and whether an error is logged. \<open>Opened\<close> is the content of the file
  when it was opened, \<open>None\<close> if it cannot be opened.\<close>

definition LoadPidMap :: "string \<Rightarrow> string option \<Rightarrow> file_stat option \<Rightarrow> PidMap \<times> file_stat \<Rightarrow> bool \<times> bool \<times> PidMap \<times> file_stat" where
  "LoadPidMap pszPidFile Opened Current = (\<lambda>(pidMap, Last).
     if pszPidFile = [] then (False, False, pidMap, Last)
     else case HasFileChanged (Some pszPidFile) Current Last of
       (False, Last') \<Rightarrow> (False, False, pidMap, Last')
     | (True, Last') \<Rightarrow>
         (case Opened of
            None \<Rightarrow> (False, True, pidMap, Last')
          | Some content \<Rightarrow> (True, False, fold pid_line (filter (\<lambda>l. l \<noteq> []) (getlines [] content)) pidMap, Last')))"

text \<open>The number behind the bracket. An overflow of the 32 bits wraps, as the compilers of the program do it; the language leaves it undefined.\<close>

fun pid_digits :: "int \<Rightarrow> string \<Rightarrow> int" where
  "pid_digits pid [] = 0"
| "pid_digits pid (c # cs) =
     (if c = CHR '':'' then pid
      else if \<not> is_digit c then 0
      else pid_digits (to_pid (pid * 10 + int (digit_value c))) cs)"

definition kMaxPrefixLen :: nat where
  "kMaxPrefixLen = 40"

definition ExtractProcessId :: "string \<Rightarrow> int" where
  "ExtractProcessId line =
     (if line = [] \<or> hd line \<noteq> CHR ''['' then 0
      else pid_digits 0 (drop 1 (take (min (length line) kMaxPrefixLen) line)))"

text \<open>The found flag, the name.\<close>

definition GetProcessNameFromMap :: "PidMap \<Rightarrow> int \<Rightarrow> bool \<times> string" where
  "GetProcessNameFromMap pidMap pid = (case pidMap pid of None \<Rightarrow> (False, []) | Some name \<Rightarrow> (True, name))"

definition GetProcessName :: "string \<Rightarrow> string option \<Rightarrow> file_stat option \<Rightarrow> int \<Rightarrow> PidMap \<times> file_stat \<Rightarrow> bool \<times> string \<times> bool \<times> PidMap \<times> file_stat" where
  "GetProcessName pszPidFile Opened Current pid = (\<lambda>(pidMap, Last).
     case GetProcessNameFromMap pidMap pid of
       (True, name) \<Rightarrow> (True, name, False, pidMap, Last)
     | (False, _) \<Rightarrow>
         (case LoadPidMap pszPidFile Opened Current (pidMap, Last) of
            (False, logged, pidMap', Last') \<Rightarrow> (False, [], logged, pidMap', Last')
          | (True, logged, pidMap', Last') \<Rightarrow>
              (case GetProcessNameFromMap pidMap' pid of (b, name) \<Rightarrow> (b, name, logged, pidMap', Last'))))"

section \<open>Properties\<close>

lemma signed_take_bit_31: "- (2 ^ 31) \<le> n \<Longrightarrow> n < 2 ^ 31 \<Longrightarrow> to_pid n = n"
  by (simp add: to_pid_def signed_take_bit_int_eq_self)

lemma to_pid_range: "- (2 ^ 31) \<le> to_pid n \<and> to_pid n < 2 ^ 31"
  unfolding to_pid_def using signed_take_bit_int_greater_eq_minus_exp [of 31 n] signed_take_bit_int_less_exp [of 31 n] by simp

lemma pid_digits_dec:
  assumes "list_all is_digit ds" "int (fold (\<lambda>c n. n * 10 + digit_value c) ds p) < 2 ^ 31"
  shows "pid_digits (int p) (ds @ CHR '':'' # r) = int (fold (\<lambda>c n. n * 10 + digit_value c) ds p)"
  using assms
proof (induction ds arbitrary: p)
  case (Cons c ds)
  have mono: "p \<le> fold (\<lambda>c n. n * 10 + digit_value c) ds p" for p
  proof (induction ds arbitrary: p)
    case (Cons c ds)
    have "p \<le> p * 10 + digit_value c"
      by simp
    with Cons [of "p * 10 + digit_value c"] show ?case
      by (simp only: fold_simps comp_apply)
  qed simp
  have "int (p * 10 + digit_value c) < 2 ^ 31"
    using Cons.prems(2) mono [of "p * 10 + digit_value c"] by simp
  then have "to_pid (int p * 10 + int (digit_value c)) = int (p * 10 + digit_value c)"
    by (subst signed_take_bit_31) simp_all
  moreover have "c \<noteq> CHR '':''"
    using Cons.prems(1) by (auto simp: is_digit_def)
  moreover have "pid_digits (int (p * 10 + digit_value c)) (ds @ CHR '':'' # r) = int (fold (\<lambda>c n. n * 10 + digit_value c) ds (p * 10 + digit_value c))"
    using Cons.IH [of "p * 10 + digit_value c"] Cons.prems by simp
  ultimately show ?case
    using Cons.prems(1) by simp
qed simp

lemma ExtractProcessId_prefix:
  assumes "pid < 2 ^ 31"
  shows "ExtractProcessId (CHR ''['' # dec_text pid @ CHR '':'' # r) = int pid"
proof -
  have l: "length (dec_text n) \<le> 10" if "n < 2 ^ 31" for n
  proof -
    have "length (dec_text n) \<le> Suc k" if "n < 10 ^ Suc k" for k n
      using that
    proof (induction k arbitrary: n)
      case 0
      then show ?case
        by (simp add: dec_text.simps [of n])
    next
      case (Suc k)
      then show ?case
        by (subst dec_text.simps) simp
    qed
    from this [of n 9] that show ?thesis
      by simp
  qed
  have "fold (\<lambda>c n. n * 10 + digit_value c) (dec_text pid) 0 = pid"
    using dec_value_dec_text [of pid] by (simp add: dec_value_def)
  moreover have "drop 1 (take (min (length line) kMaxPrefixLen) line) = dec_text pid @ CHR '':'' # take (38 - length (dec_text pid)) r"
    if "line = CHR ''['' # dec_text pid @ CHR '':'' # r" for line
  proof -
    have "take (min (length line) 40) line = take 40 line"
      by (simp add: min_def)
    also have "\<dots> = CHR ''['' # dec_text pid @ take (39 - length (dec_text pid)) (CHR '':'' # r)"
      using l [OF assms] by (simp add: that)
    also have "39 - length (dec_text pid) = Suc (38 - length (dec_text pid))"
      using l [OF assms] by simp
    finally show ?thesis
      by (simp add: kMaxPrefixLen_def)
  qed
  ultimately show ?thesis
    using pid_digits_dec [OF dec_text_digits [of pid], of 0 "take (38 - length (dec_text pid)) r"] assms
    by (simp add: ExtractProcessId_def)
qed

end
