(* ===== verification/PushThread.thy ===== *)
theory PushThread imports PidMap Push WalTheorems FileInput OtlpProtobuf begin

text \<open>
  The push thread and the WAL thread of otelfwd (\<^verbatim>\<open>otelfwd.cpp\<close>): \<^verbatim>\<open>SendPushPayload\<close>,
  \<^verbatim>\<open>SendPushRequest\<close>, \<^verbatim>\<open>PushThread\<close>, \<^verbatim>\<open>PushWalEntries\<close>, \<^verbatim>\<open>WalThread\<close>. They use the models of
  the WAL, of the failover, of the converter and of the slot for the position of the file input.

  What is outside of the program (libcurl with the network behind it, \<^verbatim>\<open>rapidjson\<close>, the clock, the file \<^verbatim>\<open>pid.nbf\<close>) is a
  record of functions, \<open>outside\<close>. The values which change by themselves are functions of a counter of the calls.
\<close>

section \<open>The outside\<close>

record http_request =
  hr_URL :: string
  hr_ContentType :: string
  hr_Body :: string
  hr_Token :: "string option"
  hr_CaFile :: "string option"
  hr_Timeout :: int
  hr_ConnectTimeout :: int

text \<open>No answer, with the text of libcurl, or the HTTP status and the pieces of the answer.\<close>

datatype answer = NoAnswer string | Answered int "string list"

record 'n outside =
  perform :: "http_request \<Rightarrow> 'n \<Rightarrow> answer \<times> 'n"
  json_parse :: json_parser
  json_write :: "json \<Rightarrow> string"
  double_of :: "int \<Rightarrow> 64 word"
  time_at :: "nat \<Rightarrow> int"
  nano_at :: "nat \<Rightarrow> int"
  won_at :: "nat \<Rightarrow> bool"
  pid_opened :: "nat \<Rightarrow> string option"
  pid_stat :: "nat \<Rightarrow> file_stat option"

text \<open>The settings which these threads use.\<close>

record push_config =
  g_szOtlpPushApiURL :: string
  g_szOtlpPushApiURLBackup :: string
  g_szOtlpPushToken :: string
  g_szOtlpCaFile :: string
  g_bPushProtobuf :: bool
  g_FailbackSec :: nat
  g_WalRetrySec :: nat
  g_szPidNbfFile :: string
  g_identity :: identity

datatype log_entry = Message string | ErrorLine string "string option"

record 'n forwarder =
  o_Net :: 'n
  o_Ticks :: nat
  o_Fifo :: log_fifo
  o_Wal :: wal
  o_Failover :: PushFailover
  o_Slot :: slot
  o_PidMap :: PidMap
  o_PidStat :: file_stat
  o_Log :: "log_entry list"
  o_tLastRejected :: int
  o_tLastConvert :: int
  o_LogLines :: nat
  o_PushSuccess :: nat
  o_PushErrors :: nat
  o_PushRetrySuccess :: nat
  o_PushRetryErrors :: nat
  o_PushRejected :: nat
  o_WalRefused :: nat
  o_PushConvertErrors :: nat

definition IsNullStr :: "string \<Rightarrow> bool" where
  "IsNullStr s = (c_str s = [])"

definition otel_log :: "log_entry \<Rightarrow> 'n forwarder \<Rightarrow> 'n forwarder" where
  "otel_log e s = s\<lparr>o_Log := o_Log s @ [e]\<rparr>"

definition LogError :: "string \<Rightarrow> string \<Rightarrow> 'n forwarder \<Rightarrow> 'n forwarder" where
  "LogError msg txt = otel_log (if IsNullStr txt then ErrorLine msg None else ErrorLine msg (Some txt))"

text \<open>\<^verbatim>\<open>time (NULL)\<close>.\<close>

definition get_time :: "'n outside \<Rightarrow> 'n forwarder \<Rightarrow> int \<times> 'n forwarder" where
  "get_time w s = (time_at w (o_Ticks s), s\<lparr>o_Ticks := o_Ticks s + 1\<rparr>)"

text \<open>The clock in nanoseconds.\<close>

definition GetEpochNanoseconds :: "'n outside \<Rightarrow> 'n forwarder \<Rightarrow> int \<times> 'n forwarder" where
  "GetEpochNanoseconds w s = (nano_at w (o_Ticks s), s\<lparr>o_Ticks := o_Ticks s + 1\<rparr>)"

section \<open>One request\<close>

definition OTELFWD_PUSH_RESPONSE_MAX :: nat where
  "OTELFWD_PUSH_RESPONSE_MAX = 512"

text \<open>The length which is returned, and what is kept of the answer.\<close>

definition PushWriteCallback :: "string \<Rightarrow> string \<Rightarrow> nat \<times> string" where
  "PushWriteCallback piece Response =
     (length piece, if length Response < OTELFWD_PUSH_RESPONSE_MAX
                    then Response @ take (min (length piece) (OTELFWD_PUSH_RESPONSE_MAX - length Response)) piece else Response)"

definition printable_answer :: "string \<Rightarrow> string" where
  "printable_answer Response =
     rev (dropWhile (\<lambda>c. c = CHR '' '') (rev (map (\<lambda>c. if (of_char c :: nat) < 0x20 \<or> (of_char c :: nat) = 0x7F then CHR '' '' else c) Response)))"

text \<open>At most one message in 10 seconds: \<open>Some\<close> new time if this one is logged. The exchange can fail because of the other thread.\<close>

definition rate_limit :: "'n outside \<Rightarrow> nat \<Rightarrow> int \<Rightarrow> int \<Rightarrow> int option" where
  "rate_limit w tick tNow tLast = (if tNow - tLast < 10 \<or> \<not> won_at w tick then None else Some tNow)"

definition LogPushStatus :: "'n outside \<Rightarrow> PushAction \<Rightarrow> int \<Rightarrow> string \<Rightarrow> 'n forwarder \<Rightarrow> 'n forwarder" where
  "LogPushStatus w Action HttpCode Response s =
     (let Answer = printable_answer Response;
          Txt = ''HTTP status '' @ int_text HttpCode @ (if Answer \<noteq> [] then '': '' @ Answer else [])
      in if Action = PUSH_REJECTED then
           (case get_time w s of (tNow, s1) \<Rightarrow>
              case rate_limit w (o_Ticks s) tNow (o_tLastRejected s1) of
                None \<Rightarrow> s1
              | Some t \<Rightarrow> LogError ''The receiver refused the push request as bad data. The data is dropped'' Txt (s1\<lparr>o_tLastRejected := t\<rparr>))
         else LogError ''Push request was not accepted'' Txt s)"

definition LogConvertError :: "'n outside \<Rightarrow> string \<Rightarrow> 'n forwarder \<Rightarrow> 'n forwarder" where
  "LogConvertError w err s =
     (case get_time w s of (tNow, s1) \<Rightarrow>
        case rate_limit w (o_Ticks s) tNow (o_tLastConvert s1) of
          None \<Rightarrow> s1
        | Some t \<Rightarrow> LogError ''A push request cannot be converted from JSON to protobuf. The data is dropped'' err (s1\<lparr>o_tLastConvert := t\<rparr>))"

text \<open>\<open>pCurl\<close>: there is a handle.\<close>

definition SendPushPayload :: "'n outside \<Rightarrow> bool \<Rightarrow> string \<Rightarrow> string \<Rightarrow> string \<Rightarrow> string \<Rightarrow> string \<Rightarrow> int \<Rightarrow> 'n forwarder \<Rightarrow> PushAction \<times> 'n forwarder" where
  "SendPushPayload w pCurl pszURL pszPushToken pszCaFile pszContentType Body TimeoutSec s =
     (if IsNullStr Body then (PUSH_RETRY, s)
      else if \<not> pCurl then (PUSH_RETRY, otel_log (ErrorLine ''No curl handle specified'' None) s)
      else if IsNullStr pszURL then (PUSH_RETRY, otel_log (ErrorLine ''No Push URL specified'' None) s)
      else
        let req = \<lparr>hr_URL = pszURL, hr_ContentType = pszContentType, hr_Body = Body,
              hr_Token = (if IsNullStr pszPushToken then None else Some pszPushToken),
              hr_CaFile = (if IsNullStr pszCaFile then None else Some pszCaFile),
              hr_Timeout = TimeoutSec, hr_ConnectTimeout = 3\<rparr>
        in case perform w req (o_Net s) of
             (NoAnswer szErrorBuffer, n) \<Rightarrow> (PUSH_RETRY, LogError ''Curl operation failed'' szErrorBuffer (s\<lparr>o_Net := n\<rparr>))
           | (Answered HttpCode pieces, n) \<Rightarrow>
               (let Response = fold (\<lambda>p R. snd (PushWriteCallback p R)) pieces [];
                    Action = GetPushAction HttpCode;
                    s1 = s\<lparr>o_Net := n\<rparr>
                in (Action, if Action \<noteq> PUSH_ACCEPTED then LogPushStatus w Action HttpCode Response s1 else s1)))"

definition OTELFWD_PUSH_TIMEOUT_SEC :: int where
  "OTELFWD_PUSH_TIMEOUT_SEC = 15"

definition OTELFWD_PUSH_PROBE_TIMEOUT_SEC :: int where
  "OTELFWD_PUSH_PROBE_TIMEOUT_SEC = 5"

text \<open>The body of the requests and its type, or the error of the converter.\<close>

definition push_body :: "'n outside \<Rightarrow> push_config \<Rightarrow> string \<Rightarrow> string + string \<times> string" where
  "push_body w c Buffer =
     (if g_bPushProtobuf c then
        (case ConvertOtlpJsonToProtobuf (json_parse w) (double_of w) (Some Buffer) of
           Inl e \<Rightarrow> Inl e
         | Inr Converted \<Rightarrow> Inr (map (\<lambda>b. char_of (unat b)) Converted, ''application/x-protobuf''))
      else Inr (Buffer, ''application/json''))"

definition SendPushRequest :: "'n outside \<Rightarrow> push_config \<Rightarrow> bool \<Rightarrow> string \<Rightarrow> 'n forwarder \<Rightarrow> PushAction \<times> 'n forwarder" where
  "SendPushRequest w c pCurl Buffer s =
     (case push_body w c Buffer of
        Inl e \<Rightarrow> (PUSH_REJECTED, LogConvertError w e (s\<lparr>o_PushConvertErrors := o_PushConvertErrors s + 1\<rparr>))
      | Inr (Body, ContentType) \<Rightarrow>
          let SendTo = (\<lambda>Endpoint bProbe t.
                SendPushPayload w pCurl (if Endpoint = PUSH_PRIMARY then g_szOtlpPushApiURL c else g_szOtlpPushApiURLBackup c)
                  (g_szOtlpPushToken c) (g_szOtlpCaFile c) ContentType Body
                  (if bProbe then OTELFWD_PUSH_PROBE_TIMEOUT_SEC else OTELFWD_PUSH_TIMEOUT_SEC) t)
          in case get_time w s of (Now, s1) \<Rightarrow>
             case PushFailover_Send SendTo Now (won_at w (o_Ticks s1)) (o_Failover s1, s1) of
               (Action, SwitchedTo, f, s2) \<Rightarrow>
                 let s3 = s2\<lparr>o_Failover := f\<rparr>
                 in (Action, case SwitchedTo of
                       None \<Rightarrow> s3
                     | Some PUSH_BACKUP \<Rightarrow> otel_log (Message (''The primary endpoint failed. Using the backup endpoint '' @ g_szOtlpPushApiURLBackup c @
                         ''. The primary is tried again every '' @ dec_text (g_FailbackSec c) @ '' seconds'')) s3
                     | Some PUSH_PRIMARY \<Rightarrow> otel_log (Message (''The primary endpoint '' @ g_szOtlpPushApiURL c @
                         '' accepts requests again. Using it again'')) s3))"

section \<open>A batch\<close>

definition SendPayloadToWAL :: "string \<Rightarrow> 'n forwarder \<Rightarrow> bool \<times> 'n forwarder" where
  "SendPayloadToWAL payload s =
     (case Append (to_bytes payload) (o_Wal s) of
        (True, wl) \<Rightarrow> (True, s\<lparr>o_Wal := wl\<rparr>)
      | (False, wl) \<Rightarrow> (False, s\<lparr>o_Wal := wl, o_WalRefused := o_WalRefused s + 1\<rparr>))"

definition HandOverFilePositions :: "LogRecord list \<Rightarrow> slot \<Rightarrow> slot" where
  "HandOverFilePositions Batch sl =
     fold (\<lambda>r t. if lr_Source r = LOG_SOURCE_FILE then Slot_Add (lr_FileGeneration r) (lr_FileEndOffset r) t else t) Batch sl"

text \<open>The annotation of a record of stdin.\<close>

definition annotate :: "'n outside \<Rightarrow> push_config \<Rightarrow> LogRecord \<Rightarrow> 'n forwarder \<Rightarrow> LogRecord \<times> 'n forwarder" where
  "annotate w c r s =
     (if lr_Source r = LOG_SOURCE_STDIN then
        let r1 = r\<lparr>lr_Pid := ExtractProcessId (lr_Line r)\<rparr>
        in case GetProcessName (g_szPidNbfFile c) (pid_opened w (o_Ticks s)) (pid_stat w (o_Ticks s)) (lr_Pid r1) (o_PidMap s, o_PidStat s) of
             (_, name, logged, pm, st) \<Rightarrow>
               let s1 = s\<lparr>o_PidMap := pm, o_PidStat := st, o_Ticks := o_Ticks s + 1\<rparr>;
                   s2 = (if logged then LogError ''Cannot open the pid file'' (g_szPidNbfFile c) s1 else s1)
               in (SetStdinAttributes (g_identity c) (r1\<lparr>lr_Process := name\<rparr>), s2)
      else (r, s))"

definition contains :: "string \<Rightarrow> string \<Rightarrow> bool" where
  "contains part s = (\<exists>i \<le> length s. take (length part) (drop i s) = part)"

text \<open>The loop over the batch: the annotated records, the ones to push, and \<^verbatim>\<open>bBatchSafe\<close>.\<close>

fun collect :: "'n outside \<Rightarrow> push_config \<Rightarrow> LogRecord list \<Rightarrow> LogRecord list \<times> LogRecord list \<times> bool \<Rightarrow> 'n forwarder
    \<Rightarrow> (LogRecord list \<times> LogRecord list \<times> bool) \<times> 'n forwarder" where
  "collect w c [] acc s = (acc, s)"
| "collect w c (r0 # rs) (batch, otlp, safe) s =
     (case annotate w c r0 s of (r, s1) \<Rightarrow>
        if IsNullStr (g_szOtlpPushApiURL c) then collect w c rs (batch @ [r], otlp, safe) s1
        else if contains ''WAL-TESTING'' (lr_Line r) then
          (case SendPayloadToWAL (BuildOtlpPayload (json_write w) (g_identity c) [r]) (otel_log (Message ''WAL-TESTING string received'') s1) of
             (ok, s2) \<Rightarrow> collect w c rs (batch @ [r], otlp, safe \<and> ok) s2)
        else collect w c rs (batch @ [r], otlp @ [r], safe) s1)"

text \<open>The push of the collected records: whether they are safe.\<close>

definition push_records :: "'n outside \<Rightarrow> push_config \<Rightarrow> LogRecord list \<Rightarrow> 'n forwarder \<Rightarrow> bool \<times> 'n forwarder" where
  "push_records w c otlp s =
     (if otlp = [] then (True, s)
      else
        let payload = BuildOtlpPayload (json_write w) (g_identity c) otlp
        in case SendPushRequest w c True payload s of
             (PUSH_ACCEPTED, s1) \<Rightarrow> (True, s1\<lparr>o_PushSuccess := o_PushSuccess s1 + length otlp\<rparr>)
           | (PUSH_REJECTED, s1) \<Rightarrow> (True, s1\<lparr>o_PushRejected := o_PushRejected s1 + 1\<rparr>)
           | (PUSH_RETRY, s1) \<Rightarrow> SendPayloadToWAL payload (s1\<lparr>o_PushErrors := o_PushErrors s1 + length otlp\<rparr>))"

definition handle_batch :: "'n outside \<Rightarrow> push_config \<Rightarrow> LogRecord list \<Rightarrow> 'n forwarder \<Rightarrow> 'n forwarder" where
  "handle_batch w c Batch s =
     (case collect w c Batch ([], [], True) (s\<lparr>o_LogLines := o_LogLines s + length Batch\<rparr>) of
        ((batch, otlp, safe), s1) \<Rightarrow>
          (case push_records w c otlp s1 of
             (ok, s2) \<Rightarrow> if safe \<and> ok then s2\<lparr>o_Slot := HandOverFilePositions batch (o_Slot s2)\<rparr> else s2))"

definition OTELFWD_MAX_BATCH_RECORDS :: nat where
  "OTELFWD_MAX_BATCH_RECORDS = 100"

definition OTELFWD_MAX_BATCH_BYTES :: nat where
  "OTELFWD_MAX_BATCH_BYTES = 512 * 1024"

text \<open>One turn of the thread: \<open>None\<close> while it waits for records, false when it ends. The handle of libcurl exists.\<close>

definition PushThread_turn :: "'n outside \<Rightarrow> push_config \<Rightarrow> 'n forwarder \<Rightarrow> (bool \<times> 'n forwarder) option" where
  "PushThread_turn w c s =
     (case pop_batch OTELFWD_MAX_BATCH_RECORDS OTELFWD_MAX_BATCH_BYTES (o_Fifo s) of
        None \<Rightarrow> None
      | Some (None, q) \<Rightarrow> Some (False, s\<lparr>o_Fifo := q\<rparr>)
      | Some (Some Batch, q) \<Rightarrow> Some (True, handle_batch w c Batch (s\<lparr>o_Fifo := q\<rparr>)))"

section \<open>The WAL\<close>

text \<open>The function which \<^verbatim>\<open>Replay\<close> calls for a record. The state beside the WAL is that of the other parts.\<close>

definition push_record :: "'n outside \<Rightarrow> push_config \<Rightarrow> 'n forwarder consumer" where
  "push_record w c Record = (\<lambda>(wl, s).
     case SendPushRequest w c True (map (\<lambda>b. char_of (unat b)) Record) s of
       (PUSH_ACCEPTED, s1) \<Rightarrow> (Accepted, wl, s1\<lparr>o_PushRetrySuccess := o_PushRetrySuccess s1 + 1\<rparr>)
     | (PUSH_REJECTED, s1) \<Rightarrow> (Accepted, wl, s1\<lparr>o_PushRejected := o_PushRejected s1 + 1\<rparr>)
     | (PUSH_RETRY, s1) \<Rightarrow> (Refused, wl, s1\<lparr>o_PushRetryErrors := o_PushRetryErrors s1 + 1\<rparr>))"

text \<open>\<open>bCurl\<close>: \<^verbatim>\<open>curl_easy_init\<close> gives a handle. The outer \<open>None\<close>: the fuel was not enough.\<close>

definition PushWalEntries :: "nat \<Rightarrow> 'n outside \<Rightarrow> push_config \<Rightarrow> bool \<Rightarrow> 'n forwarder \<Rightarrow> (bool \<times> 'n forwarder) option" where
  "PushWalEntries fuel w c bCurl s =
     (if \<not> IsReplayPending (o_Wal s) then Some (True, s)
      else if \<not> bCurl then Some (False, otel_log (ErrorLine ''curl_easy_init failed'' None) s)
      else case Replay fuel (push_record w c) (o_Wal s, s) of
        None \<Rightarrow> None
      | Some (r, wl, s1) \<Rightarrow> Some (r = Some True, s1\<lparr>o_Wal := wl\<rparr>))"

text \<open>One turn of the thread: how many seconds it waits afterwards.\<close>

definition WalThread_turn :: "nat \<Rightarrow> 'n outside \<Rightarrow> push_config \<Rightarrow> bool \<Rightarrow> 'n forwarder \<Rightarrow> (nat \<times> 'n forwarder) option" where
  "WalThread_turn fuel w c bCurl s =
     (if IsReplayPending (o_Wal s) then
        (case PushWalEntries fuel w c bCurl s of
           None \<Rightarrow> None
         | Some (True, s1) \<Rightarrow> Some (1, s1)
         | Some (False, s1) \<Rightarrow>
             Some (g_WalRetrySec c + 1, otel_log (ErrorLine (''Cannot send the WAL to the receiver. Trying again in '' @ dec_text (g_WalRetrySec c) @ '' seconds'') None) s1))
      else Some (1, s))"

end
