(* ===== verification/PushProofs.thy ===== *)
theory PushProofs imports PushThread begin

text \<open>
  What the parts of the push thread leave alone, and what the receiver or the WAL has after a batch.
\<close>

section \<open>Frames\<close>

text \<open>What every single request keeps is kept by all of a call.\<close>

lemma Send_keeps:
  assumes "\<And>e b t. P t \<Longrightarrow> P (snd (SendTo e b t))" and "P s"
  shows "P (snd (snd (snd (PushFailover_Send SendTo Now bWon (f, s)))))"
proof -
  have one: "P (snd (snd (PushFailover_Try SendTo e b x)))" if "P (snd x)" for e b and x :: "PushFailover \<times> 'a"
    using assms(1) [OF that, of e b] by (simp add: PushFailover_Try_def case_prod_beta)
  have fin: "P (snd (snd (snd (PushFailover_finish e n x))))" if "P (snd (snd x))" for e n and x :: "PushAction \<times> PushFailover \<times> 'a"
    using that by (simp add: PushFailover_finish_def case_prod_beta)
  show ?thesis
    using assms(2) by (simp add: PushFailover_Send_def Let_def case_prod_beta one fin)
qed

definition same_front :: "'n forwarder \<Rightarrow> 'n forwarder \<Rightarrow> bool" where
  "same_front s t \<longleftrightarrow> o_Fifo t = o_Fifo s \<and> o_Slot t = o_Slot s"

definition same_wal :: "'n forwarder \<Rightarrow> 'n forwarder \<Rightarrow> bool" where
  "same_wal s t \<longleftrightarrow> o_Wal t = o_Wal s \<and> o_WalRefused t = o_WalRefused s"

lemma same_front_refl [simp]: "same_front s s" and same_wal_refl [simp]: "same_wal s s"
  by (simp_all add: same_front_def same_wal_def)

lemma same_front_trans: "same_front a b \<Longrightarrow> same_front b c \<Longrightarrow> same_front a c"
  by (simp add: same_front_def)

lemma same_wal_trans: "same_wal a b \<Longrightarrow> same_wal b c \<Longrightarrow> same_wal a c"
  by (simp add: same_wal_def)

lemma LogPushStatus_frame: "same_front s (LogPushStatus w a h r s) \<and> same_wal s (LogPushStatus w a h r s) \<and> o_Net (LogPushStatus w a h r s) = o_Net s"
  by (simp add: LogPushStatus_def LogError_def otel_log_def get_time_def same_front_def same_wal_def Let_def split: option.split)

lemma LogConvertError_frame: "same_front s (LogConvertError w e s) \<and> same_wal s (LogConvertError w e s) \<and> o_Net (LogConvertError w e s) = o_Net s"
  by (simp add: LogConvertError_def LogError_def otel_log_def get_time_def same_front_def same_wal_def Let_def split: option.split)

lemma SendPushPayload_frame:
  "same_front s (snd (SendPushPayload w h u tok ca ct b n s)) \<and> same_wal s (snd (SendPushPayload w h u tok ca ct b n s))"
proof -
  define R where "R = (\<lambda>t. same_front s t \<and> same_wal s t)"
  have l: "R (LogPushStatus w a k r (s\<lparr>o_Net := x\<rparr>))" for a k r x
    using LogPushStatus_frame [where s = "s\<lparr>o_Net := x\<rparr>" and w = w and a = a and h = k and r = r] by (simp add: R_def same_front_def same_wal_def)
  have e: "R (LogError m y (s\<lparr>o_Net := x\<rparr>))" "R (otel_log z s)" "R (s\<lparr>o_Net := x\<rparr>)" "R s" for m y x z
    by (simp_all add: R_def LogError_def otel_log_def same_front_def same_wal_def)
  have "R (snd (SendPushPayload w h u tok ca ct b n s))"
  proof (cases "IsNullStr b \<or> \<not> h \<or> IsNullStr u")
    case True
    then show ?thesis
      using e(2,4) by (auto simp: SendPushPayload_def)
  next
    case False
    define req where "req = \<lparr>hr_URL = u, hr_ContentType = ct, hr_Body = b, hr_Token = (if IsNullStr tok then None else Some tok),
        hr_CaFile = (if IsNullStr ca then None else Some ca), hr_Timeout = n, hr_ConnectTimeout = 3\<rparr>"
    obtain ans x where p: "perform w req (o_Net s) = (ans, x)" by force
    show ?thesis
      using False e(1,3) l p by (cases ans) (simp_all add: SendPushPayload_def req_def [symmetric] Let_def)
  qed
  then show ?thesis
    unfolding R_def .
qed

lemma SendPushRequest_frame:
  assumes "SendPushRequest w c h b s = (a, t)"
  shows "same_front s t \<and> same_wal s t"
proof (cases "push_body w c b")
  case (Inl e)
  then show ?thesis
    using assms LogConvertError_frame [of "s\<lparr>o_PushConvertErrors := o_PushConvertErrors s + 1\<rparr>" w e]
    by (auto simp: SendPushRequest_def same_front_def same_wal_def)
next
  case (Inr p)
  obtain body ct where p: "p = (body, ct)"
    by (cases p)
  define SendTo where "SendTo = (\<lambda>Endpoint bProbe t.
      SendPushPayload w h (if Endpoint = PUSH_PRIMARY then g_szOtlpPushApiURL c else g_szOtlpPushApiURLBackup c)
        (g_szOtlpPushToken c) (g_szOtlpCaFile c) ct body (if bProbe then OTELFWD_PUSH_PROBE_TIMEOUT_SEC else OTELFWD_PUSH_TIMEOUT_SEC) (t :: 'a forwarder))"
  define R where "R = (\<lambda>s t :: 'a forwarder. same_front s t \<and> same_wal s t)"
  obtain now s1 where n: "get_time w s = (now, s1)" by force
  obtain a' sw f s2 where f: "PushFailover_Send SendTo now (won_at w (o_Ticks s1)) (o_Failover s1, s1) = (a', sw, f, s2)"
    by (cases "PushFailover_Send SendTo now (won_at w (o_Ticks s1)) (o_Failover s1, s1)")
  have trans: "R a b \<Longrightarrow> R b d \<Longrightarrow> R a d" for a b d
    unfolding R_def using same_front_trans same_wal_trans by blast
  have "R t (snd (SendTo e b t))" for e b t
    unfolding R_def SendTo_def by (rule SendPushPayload_frame)
  then have "R s1 t \<Longrightarrow> R s1 (snd (SendTo e b t))" for e b t
    using trans by blast
  then have "R s1 s2"
    using Send_keeps [where P = "R s1" and SendTo = SendTo and s = s1 and f = "o_Failover s1" and Now = now and bWon = "won_at w (o_Ticks s1)"] f
    by (simp add: R_def)
  moreover have "R s s1"
    using n by (auto simp: R_def get_time_def same_front_def same_wal_def)
  ultimately have "R s s2"
    by (auto simp: R_def intro: same_front_trans same_wal_trans)
  moreover have "R s2 t"
    using assms Inr p n f by (auto simp: SendPushRequest_def SendTo_def [symmetric] R_def otel_log_def same_front_def same_wal_def Let_def
        split: option.splits PushEndpoint.splits)
  ultimately show ?thesis
    by (auto simp: R_def intro: same_front_trans same_wal_trans)
qed

lemma SendPayloadToWAL_frame: "SendPayloadToWAL p s = (ok, t) \<Longrightarrow> same_front s t"
  by (auto simp: SendPayloadToWAL_def same_front_def split: prod.splits bool.splits)

lemma push_records_frame:
  assumes "push_records w c rs s = (ok, t)"
  shows "same_front s t"
proof (cases "rs = []")
  case True
  then show ?thesis
    using assms by (simp add: push_records_def)
next
  case False
  obtain a u where r: "SendPushRequest w c True (BuildOtlpPayload (json_write w) (g_identity c) rs) s = (a, u)" by force
  note f = SendPushRequest_frame [OF r]
  show ?thesis
  proof (cases a)
    case PUSH_RETRY
    then have "SendPayloadToWAL (BuildOtlpPayload (json_write w) (g_identity c) rs) (u\<lparr>o_PushErrors := o_PushErrors u + length rs\<rparr>) = (ok, t)"
      using assms False r by (simp add: push_records_def)
    from SendPayloadToWAL_frame [OF this] f show ?thesis
      by (simp add: same_front_def)
  qed (use assms False r f in \<open>auto simp: push_records_def same_front_def\<close>)
qed

section \<open>The records of a batch\<close>

definition file_part :: "LogRecord \<Rightarrow> LogSource \<times> nat \<times> nat" where
  "file_part r = (lr_Source r, lr_FileGeneration r, lr_FileEndOffset r)"

lemma annotate_frame:
  assumes "annotate w c r s = (r', t)"
  shows "file_part r' = file_part r \<and> same_front s t \<and> same_wal s t \<and> lr_Line r' = lr_Line r"
  using assms
  by (auto simp: annotate_def file_part_def SetStdinAttributes_def LogError_def otel_log_def same_front_def same_wal_def Let_def
      split: if_splits prod.splits)

lemma collect_frame:
  assumes "collect w c rs (batch, otlp, safe) s = ((batch', otlp', safe'), t)"
  shows "map file_part batch' = map file_part batch @ map file_part rs \<and> same_front s t"
  using assms
proof (induction rs arbitrary: batch otlp safe s)
  case Nil
  then show ?case
    by simp
next
  case (Cons r0 rs)
  obtain r s1 where a: "annotate w c r0 s = (r, s1)" by force
  note A = annotate_frame [OF a]
  have step: "map file_part batch' = map file_part (batch @ [r]) @ map file_part rs \<and> same_front s2 t"
    if "collect w c rs (batch @ [r], o2, sf) s2 = ((batch', otlp', safe'), t)" for o2 sf s2
    by (rule Cons.IH [OF that])
  show ?case
  proof (cases "IsNullStr (g_szOtlpPushApiURL c) \<or> \<not> contains ''WAL-TESTING'' (lr_Line r)")
    case True
    then obtain o2 where "collect w c rs (batch @ [r], o2, safe) s1 = ((batch', otlp', safe'), t)"
      using Cons.prems a by (auto split: if_splits)
    from step [OF this] A show ?thesis
      using same_front_trans [of s s1 t] by simp
  next
    case False
    obtain ok s2 where p: "SendPayloadToWAL (BuildOtlpPayload (json_write w) (g_identity c) [r]) (otel_log (Message ''WAL-TESTING string received'') s1) = (ok, s2)"
      by force
    have "same_front s1 s2"
      using SendPayloadToWAL_frame [OF p] by (simp add: otel_log_def same_front_def)
    moreover have "collect w c rs (batch @ [r], otlp, safe \<and> ok) s2 = ((batch', otlp', safe'), t)"
      using Cons.prems a False p by simp
    ultimately show ?thesis
      using step [of otlp "safe \<and> ok" s2] A same_front_trans [of s s1 s2] same_front_trans [of s s2 t] by simp
  qed
qed

lemma HandOver_same_parts:
  "map file_part B = map file_part B' \<Longrightarrow> HandOverFilePositions B sl = HandOverFilePositions B' sl"
proof (induction B arbitrary: B' sl)
  case (Cons r B)
  then obtain r' B'' where B': "B' = r' # B''" "file_part r = file_part r'" "map file_part B = map file_part B''"
    by (cases B') auto
  have "lr_Source r = lr_Source r'" "lr_FileGeneration r = lr_FileGeneration r'" "lr_FileEndOffset r = lr_FileEndOffset r'"
    using B'(2) by (simp_all add: file_part_def)
  then show ?case
    using Cons.IH [OF B'(3)] B'(1) by (simp add: HandOverFilePositions_def)
qed (simp add: HandOverFilePositions_def)

lemma handle_batch_slot:
  "o_Fifo (handle_batch w c B s) = o_Fifo s \<and>
   (o_Slot (handle_batch w c B s) = o_Slot s \<or> o_Slot (handle_batch w c B s) = HandOverFilePositions B (o_Slot s))"
proof -
  obtain batch otlp safe s1 where c: "collect w c B ([], [], True) (s\<lparr>o_LogLines := o_LogLines s + length B\<rparr>) = ((batch, otlp, safe), s1)"
    by (metis surj_pair)
  obtain ok s2 where p: "push_records w c otlp s1 = (ok, s2)" by force
  have C: "map file_part batch = map file_part B" "same_front s s1"
    using collect_frame [OF c] by (auto simp: same_front_def)
  have "same_front s s2"
    using C(2) push_records_frame [OF p] same_front_trans by blast
  moreover have "handle_batch w c B s = (if safe \<and> ok then s2\<lparr>o_Slot := HandOverFilePositions batch (o_Slot s2)\<rparr> else s2)"
    by (simp add: handle_batch_def c p)
  ultimately show ?thesis
    using HandOver_same_parts [OF C(1), of "o_Slot s"] by (simp add: same_front_def)
qed

section \<open>The WAL thread\<close>

lemma push_record_frame: "push_record w c Rec (wl, s) = (a, wl', s') \<Longrightarrow> same_front s s' \<and> wl' = wl"
  using SendPushRequest_frame [where h = True]
  by (fastforce simp: push_record_def same_front_def split: prod.splits PushAction.splits)

lemma ReplayLoop_front:
  "ReplayLoop fuel (push_record w c) off did (wl, s) = Some (how, off', did', wl', s') \<Longrightarrow> same_front s s'"
proof (induction fuel arbitrary: off did wl s)
  case (Suc fuel)
  obtain rr wl1 where r: "ReadRecord off wl = (rr, wl1)" by force
  show ?case
  proof (cases rr)
    case (READ_RECORD Rec)
    obtain a wl2 s2 where p: "push_record w c Rec (wl1, s) = (a, wl2, s2)" by (metis prod_cases3)
    have f: "same_front s s2"
      using push_record_frame [OF p] by simp
    show ?thesis
    proof (cases a)
      case Accepted
      then have "ReplayLoop fuel (push_record w c) (off + 4 + length Rec) True (wl2, s2) = Some (how, off', did', wl', s')"
        using Suc.prems r READ_RECORD p by simp
      from Suc.IH [OF this] f show ?thesis
        by (rule same_front_trans [rotated])
    qed (use Suc.prems r READ_RECORD p f in auto)
  qed (use Suc.prems r in auto)
qed simp

lemma WalThread_turn_front:
  assumes "WalThread_turn fuel w c h s = Some (n, t)"
  shows "same_front s t"
proof -
  have "same_front s t" if e: "PushWalEntries fuel w c h s = Some (ok, t)" for ok t
  proof (cases "IsReplayPending (o_Wal s) \<and> h")
    case False
    then show ?thesis
      using e by (auto simp: PushWalEntries_def otel_log_def same_front_def split: if_splits)
  next
    case True
    then obtain r wl s1 where R: "Replay fuel (push_record w c) (o_Wal s, s) = Some (r, wl, s1)" "t = s1\<lparr>o_Wal := wl\<rparr>"
      using e by (auto simp: PushWalEntries_def split: option.splits)
    have "same_front s s1"
      using R(1) ReplayLoop_front by (fastforce simp: Replay_def split: prod.splits option.splits)
    then show ?thesis
      using R(2) by (simp add: same_front_def)
  qed
  then show ?thesis
    using assms by (auto simp: WalThread_turn_def otel_log_def same_front_def split: if_splits option.splits bool.splits)
qed

end
