(* ===== verification/PushTheorems.thy ===== *)
theory PushTheorems imports PushProofs WalProperties begin

text \<open>
  The fate of a batch: it was accepted, refused for good, or is in the WAL; if not, its position in the file is not handed over.
\<close>

lemma Send_last_try:
  assumes "PushFailover_Send SendTo Now bWon (f, s) = (Action, sw, f', s')"
  shows "\<exists>e b t. SendTo e b t = (Action, s')"
proof -
  define Q where "Q = (\<lambda>a y. \<exists>e b t. SendTo e b t = (a, y))"
  have one: "Q a y" if "PushFailover_Try SendTo e b x = (a, g, y)" for e b x a g y
    using that by (cases x) (auto simp: PushFailover_Try_def Q_def split: prod.splits)
  have fin: "a' = a \<and> y' = y" if "PushFailover_finish e n (a, g, y) = (a', w, g', y')" for e n a g and y :: 'a and a' w g' y'
    using that by (auto simp: PushFailover_finish_def split: prod.splits if_splits)
  have fin_one: "Q a y" if "PushFailover_finish e n (PushFailover_Try SendTo e' b x) = (a, w, g, y)" for e n e' b x a w g y
    using that fin one by (cases "PushFailover_Try SendTo e' b x") metis
  have "Q Action s'"
    using assms unfolding PushFailover_Send_def Let_def
    by (auto split: prod.splits if_splits dest: one fin_one dest!: fin)
  then show ?thesis
    by (simp add: Q_def)
qed

text \<open>The receiver answered with this meaning to a request with this body, sent to one of the two endpoints.\<close>

definition answered :: "'n outside \<Rightarrow> push_config \<Rightarrow> PushAction \<Rightarrow> string \<Rightarrow> 'n \<Rightarrow> bool" where
  "answered w c Action Body n \<longleftrightarrow>
     (\<exists>req m status pieces. perform w req m = (Answered status pieces, n) \<and> GetPushAction status = Action \<and> hr_Body req = Body \<and>
        hr_URL req \<in> {g_szOtlpPushApiURL c, g_szOtlpPushApiURLBackup c})"

lemma SendPushPayload_answered:
  assumes "SendPushPayload w h u tok ca ct b n s = (Action, t)" "Action \<noteq> PUSH_RETRY" "u \<in> {g_szOtlpPushApiURL c, g_szOtlpPushApiURLBackup c}"
  shows "answered w c Action b (o_Net t)"
proof -
  define req where "req = \<lparr>hr_URL = u, hr_ContentType = ct, hr_Body = b, hr_Token = (if IsNullStr tok then None else Some tok),
      hr_CaFile = (if IsNullStr ca then None else Some ca), hr_Timeout = n, hr_ConnectTimeout = 3\<rparr>"
  obtain ans x where p: "perform w req (o_Net s) = (ans, x)" by force
  have g: "\<not> IsNullStr b" "h" "\<not> IsNullStr u"
    using assms(1,2) by (auto simp: SendPushPayload_def split: if_splits)
  show ?thesis
  proof (cases ans)
    case (NoAnswer e)
    then show ?thesis
      using assms(1,2) g p by (simp add: SendPushPayload_def req_def [symmetric] Let_def)
  next
    case (Answered st ps)
    define Response where "Response = fold (\<lambda>p R. snd (PushWriteCallback p R)) ps []"
    define s1 where "s1 = s\<lparr>o_Net := x\<rparr>"
    have r: "Action = GetPushAction st" "t = (if Action \<noteq> PUSH_ACCEPTED then LogPushStatus w Action st Response s1 else s1)"
      using assms(1) g p Answered by (auto simp: SendPushPayload_def req_def [symmetric] Response_def s1_def Let_def)
    have "o_Net t = x"
      using LogPushStatus_frame [where s = s1] unfolding r(2) by (simp add: s1_def)
    moreover have "hr_Body req = b" "hr_URL req = u"
      by (simp_all add: req_def)
    ultimately show ?thesis
      unfolding answered_def using p Answered r(1) assms(3) by blast
  qed
qed

lemma SendPushRequest_result:
  assumes "SendPushRequest w c h b s = (Action, t)" "Action \<noteq> PUSH_RETRY"
  shows "case push_body w c b of Inl e \<Rightarrow> Action = PUSH_REJECTED | Inr (Body, ContentType) \<Rightarrow> answered w c Action Body (o_Net t)"
proof (cases "push_body w c b")
  case (Inl e)
  then show ?thesis
    using assms by (simp add: SendPushRequest_def)
next
  case (Inr p)
  obtain body ct where p: "p = (body, ct)"
    by (cases p)
  define SendTo where "SendTo = (\<lambda>Endpoint bProbe t.
      SendPushPayload w h (if Endpoint = PUSH_PRIMARY then g_szOtlpPushApiURL c else g_szOtlpPushApiURLBackup c)
        (g_szOtlpPushToken c) (g_szOtlpCaFile c) ct body (if bProbe then OTELFWD_PUSH_PROBE_TIMEOUT_SEC else OTELFWD_PUSH_TIMEOUT_SEC) (t :: 'a forwarder))"
  obtain now s1 where n: "get_time w s = (now, s1)" by force
  obtain a' sw f s2 where f: "PushFailover_Send SendTo now (won_at w (o_Ticks s1)) (o_Failover s1, s1) = (a', sw, f, s2)"
    by (cases "PushFailover_Send SendTo now (won_at w (o_Ticks s1)) (o_Failover s1, s1)")
  have r: "a' = Action" "o_Net t = o_Net s2"
    using assms Inr p n f by (auto simp: SendPushRequest_def SendTo_def [symmetric] otel_log_def Let_def split: option.splits PushEndpoint.splits)
  obtain e bp x where x: "SendTo e bp x = (Action, s2)"
    using Send_last_try [OF f] r(1) by blast
  have "answered w c Action body (o_Net s2)"
    by (rule SendPushPayload_answered [OF x [unfolded SendTo_def] assms(2)]) simp
  then show ?thesis
    using Inr p r(2) by simp
qed

lemma collect_plain:
  assumes "collect w c rs (batch, otlp, safe) s = ((batch', otlp', safe'), t)" "\<not> IsNullStr (g_szOtlpPushApiURL c)"
    "\<forall>r \<in> set rs. \<not> contains ''WAL-TESTING'' (lr_Line r)"
  shows "\<exists>b. batch' = batch @ b \<and> otlp' = otlp @ b \<and> safe' = safe \<and> map file_part b = map file_part rs \<and> map lr_Line b = map lr_Line rs \<and>
    same_front s t \<and> same_wal s t"
  using assms
proof (induction rs arbitrary: batch otlp safe s)
  case Nil
  then show ?case
    by auto
next
  case (Cons r0 rs)
  obtain r s1 where a: "annotate w c r0 s = (r, s1)" by force
  note A = annotate_frame [OF a]
  have "collect w c rs (batch @ [r], otlp @ [r], safe) s1 = ((batch', otlp', safe'), t)"
    using Cons.prems a A by simp
  from Cons.IH [OF this Cons.prems(2)] obtain b where b: "batch' = (batch @ [r]) @ b" "otlp' = (otlp @ [r]) @ b" "safe' = safe"
    "map file_part b = map file_part rs" "map lr_Line b = map lr_Line rs" "same_front s1 t" "same_wal s1 t"
    using Cons.prems(3) by auto
  have "same_front s t" "same_wal s t"
    using A b(6,7) same_front_trans same_wal_trans by blast+
  with b A show ?case
    by (intro exI [of _ "r # b"]) simp
qed

text \<open>What became of the records of a batch, which are in one request.\<close>

definition batch_accepted :: "'n outside \<Rightarrow> push_config \<Rightarrow> string \<Rightarrow> 'n forwarder \<Rightarrow> bool" where
  "batch_accepted w c payload t \<longleftrightarrow> (case push_body w c payload of Inl e \<Rightarrow> False | Inr (Body, ct) \<Rightarrow> answered w c PUSH_ACCEPTED Body (o_Net t))"

definition batch_refused :: "'n outside \<Rightarrow> push_config \<Rightarrow> string \<Rightarrow> 'n forwarder \<Rightarrow> bool" where
  "batch_refused w c payload t \<longleftrightarrow> (case push_body w c payload of Inl e \<Rightarrow> True | Inr (Body, ct) \<Rightarrow> answered w c PUSH_REJECTED Body (o_Net t))"

lemma batch_fate_net:
  assumes "o_Net t = o_Net u"
  shows "batch_accepted w c p t = batch_accepted w c p u" "batch_refused w c p t = batch_refused w c p u"
  unfolding batch_accepted_def batch_refused_def assms by (rule refl)+

text \<open>C19. When the push thread is done with a batch of lines, every line was accepted by a receiver (it answered 2xx to the request with
  them), or the receiver refused the request for good (400, or it cannot be converted), or the request is the last record of the WAL, behind all
  others, which are still there. Only then the positions of the lines are handed over to the file thread. If the WAL did not take it, the
  positions stay and the loss is counted.\<close>

theorem batch_is_safe_or_not_handed_over:
  assumes "Batch \<noteq> []" and "\<not> IsNullStr (g_szOtlpPushApiURL c)" and "\<forall>r \<in> set Batch. \<not> contains ''WAL-TESTING'' (lr_Line r)"
    and "crash_inv (Disk (o_Wal s)) done rs []" and "m_fd (o_Wal s)"
  shows "\<exists>batch payload. map lr_Line batch = map lr_Line Batch \<and> payload = BuildOtlpPayload (json_write w) (g_identity c) batch \<and>
    (let t = handle_batch w c Batch s in
      (batch_accepted w c payload t \<or> batch_refused w c payload t) \<and> o_Wal t = o_Wal s \<and> o_Slot t = HandOverFilePositions Batch (o_Slot s) \<or>
      (valid_record (to_bytes payload) \<longrightarrow> crash_inv (Disk (o_Wal t)) done (rs @ [to_bytes payload]) []) \<and>
        o_Slot t = HandOverFilePositions Batch (o_Slot s) \<or>
      o_Slot t = o_Slot s \<and> o_WalRefused t = o_WalRefused s + 1)"
proof -
  define s0 where "s0 = s\<lparr>o_LogLines := o_LogLines s + length Batch\<rparr>"
  obtain batch otlp safe s1 where col: "collect w c Batch ([], [], True) s0 = ((batch, otlp, safe), s1)"
    by (metis surj_pair)
  from collect_plain [OF col assms(2,3)] have C: "otlp = batch" "safe" "map file_part batch = map file_part Batch"
    "map lr_Line batch = map lr_Line Batch" "same_front s0 s1" "same_wal s0 s1"
    by auto
  define payload where "payload = BuildOtlpPayload (json_write w) (g_identity c) batch"
  have ne: "batch \<noteq> []"
    using C(4) assms(1) by auto
  obtain Action s2 where r: "SendPushRequest w c True payload s1 = (Action, s2)" by force
  have F: "o_Slot s2 = o_Slot s" "o_Wal s2 = o_Wal s" "o_WalRefused s2 = o_WalRefused s"
    using SendPushRequest_frame [OF r] C(5,6) by (simp_all add: same_front_def same_wal_def s0_def)
  have H: "HandOverFilePositions batch sl = HandOverFilePositions Batch sl" for sl
    by (rule HandOver_same_parts [OF C(3)])
  define t where "t = handle_batch w c Batch s"
  have t: "t = (case push_records w c batch s1 of (ok, s3) \<Rightarrow> if ok then s3\<lparr>o_Slot := HandOverFilePositions batch (o_Slot s3)\<rparr> else s3)"
    using col C(1,2) by (simp add: t_def handle_batch_def s0_def)
  have "(batch_accepted w c payload t \<or> batch_refused w c payload t) \<and> o_Wal t = o_Wal s \<and> o_Slot t = HandOverFilePositions Batch (o_Slot s) \<or>
      (valid_record (to_bytes payload) \<longrightarrow> crash_inv (Disk (o_Wal t)) done (rs @ [to_bytes payload]) []) \<and>
        o_Slot t = HandOverFilePositions Batch (o_Slot s) \<or>
      o_Slot t = o_Slot s \<and> o_WalRefused t = o_WalRefused s + 1"
  proof (cases Action)
    case PUSH_RETRY
    obtain ok wl where ap: "Append (to_bytes payload) (o_Wal s) = (ok, wl)" by force
    have p: "push_records w c batch s1 = SendPayloadToWAL payload (s2\<lparr>o_PushErrors := o_PushErrors s2 + length batch\<rparr>)"
      using ne r PUSH_RETRY by (simp add: push_records_def payload_def [symmetric])
    show ?thesis
    proof (cases ok)
      case True
      have "crash_inv (Disk wl) done (rs @ [to_bytes payload]) []" if "valid_record (to_bytes payload)"
        using Append_keeps_inv [OF assms(4,5) that ap] True by auto
      moreover have "o_Wal t = wl" "o_Slot t = HandOverFilePositions Batch (o_Slot s)"
        using p ap True F H unfolding t by (simp_all add: SendPayloadToWAL_def)
      ultimately show ?thesis
        by simp
    next
      case False
      then have "o_Slot t = o_Slot s" "o_WalRefused t = o_WalRefused s + 1"
        using p ap F unfolding t by (simp_all add: SendPayloadToWAL_def)
      then show ?thesis
        by simp
    qed
  next
    case PUSH_ACCEPTED
    have "o_Wal t = o_Wal s" "o_Slot t = HandOverFilePositions Batch (o_Slot s)" "o_Net t = o_Net s2"
      using ne r PUSH_ACCEPTED F H unfolding t by (simp_all add: push_records_def payload_def [symmetric])
    moreover have "batch_accepted w c payload s2"
      using SendPushRequest_result [OF r] PUSH_ACCEPTED by (auto simp: batch_accepted_def split: sum.splits)
    ultimately have "batch_accepted w c payload t" "o_Wal t = o_Wal s" "o_Slot t = HandOverFilePositions Batch (o_Slot s)"
      using batch_fate_net [of t s2] by simp_all
    then show ?thesis
      by blast
  next
    case PUSH_REJECTED
    have "o_Wal t = o_Wal s" "o_Slot t = HandOverFilePositions Batch (o_Slot s)" "o_Net t = o_Net s2"
      using ne r PUSH_REJECTED F H unfolding t by (simp_all add: push_records_def payload_def [symmetric])
    moreover have "batch_refused w c payload s2"
      using SendPushRequest_result [OF r] PUSH_REJECTED by (auto simp: batch_refused_def split: sum.splits)
    ultimately have "batch_refused w c payload t" "o_Wal t = o_Wal s" "o_Slot t = HandOverFilePositions Batch (o_Slot s)"
      using batch_fate_net [of t s2] by simp_all
    then show ?thesis
      by blast
  qed
  then show ?thesis
    using C(4) unfolding t_def payload_def Let_def by blast
qed


definition some_outside :: "unit outside" where
  "some_outside = \<lparr>perform = (\<lambda>req n. (Answered 503 [''busy''], n)), json_parse = (\<lambda>_. Inr JNull), json_write = (\<lambda>_. ''{}''), double_of = (\<lambda>_. 0),
     time_at = (\<lambda>n. int n), nano_at = (\<lambda>n. 1), won_at = (\<lambda>_. True), pid_opened = (\<lambda>_. None), pid_stat = (\<lambda>_. None)\<rparr>"

definition some_config :: push_config where
  "some_config = \<lparr>g_szOtlpPushApiURL = ''http://a'', g_szOtlpPushApiURLBackup = [], g_szOtlpPushToken = [], g_szOtlpCaFile = [], g_bPushProtobuf = False,
     g_FailbackSec = 60, g_WalRetrySec = 60, g_szPidNbfFile = [], g_identity = \<lparr>g_szTask = ''otelfwd'', g_szVersion = ''1'', g_szOtlpServiceName = ''d'',
       g_szServiceNamespace = ''d'', g_szServiceInstanceId = ''h'', g_szHostname = ''h'', g_szProcessEmpty = ''unknown''\<rparr>\<rparr>"

definition some_forwarder :: "unit forwarder" where
  "some_forwarder = \<lparr>o_Net = (), o_Ticks = 0, o_Fifo = new_log_fifo, o_Wal = opened [], o_Failover = PushFailover_init, o_Slot = FileCommitSlot,
     o_PidMap = Map.empty, o_PidStat = \<lparr>st_ino = 0, st_size = 0, st_mtim = (0, 0), st_ctim = (0, 0)\<rparr>, o_Log = [], o_tLastRejected = 0, o_tLastConvert = 0,
     o_LogLines = 0, o_PushSuccess = 0, o_PushErrors = 0, o_PushRetrySuccess = 0, o_PushRetryErrors = 0, o_PushRejected = 0, o_WalRefused = 0,
     o_PushConvertErrors = 0\<rparr>"

definition some_line :: LogRecord where
  "some_line = new_LogRecord\<lparr>lr_Source := LOG_SOURCE_FILE, lr_Line := ''hi'', lr_FileGeneration := 1, lr_FileEndOffset := 3\<rparr>"

theorem batch_is_safe_or_not_handed_over_witness:
  "\<exists>batch :: LogRecord list. map lr_Line batch = [''hi''] \<and>
    (o_Slot (handle_batch some_outside some_config [some_line] some_forwarder) = FileCommitSlot \<or>
     o_Slot (handle_batch some_outside some_config [some_line] some_forwarder) = \<lparr>s_bPending = True, s_Generation = 1, s_EndOffset = 3\<rparr>)"
proof -
  have url: "\<not> IsNullStr (g_szOtlpPushApiURL some_config)"
    by (simp add: some_config_def IsNullStr_def c_str_def)
  have plain: "\<forall>r \<in> set [some_line]. \<not> contains ''WAL-TESTING'' (lr_Line r)"
    by (auto simp: some_line_def contains_def take_Cons' drop_Cons' split: if_splits)
  have inv: "crash_inv (Disk (o_Wal some_forwarder)) [] [[1], [2, 3]] []" "m_fd (o_Wal some_forwarder)"
    using two_records_inv [of "[]"] by (simp_all add: some_forwarder_def opened_def SimpleWAL_def)
  have ne: "[some_line] \<noteq> []"
    by simp
  obtain batch :: "LogRecord list" where lines: "map lr_Line batch = map lr_Line [some_line]"
    and fate: "o_Slot (handle_batch some_outside some_config [some_line] some_forwarder) = HandOverFilePositions [some_line] (o_Slot some_forwarder) \<or>
     o_Slot (handle_batch some_outside some_config [some_line] some_forwarder) = o_Slot some_forwarder"
    using batch_is_safe_or_not_handed_over [OF ne url plain inv, of some_outside] unfolding Let_def
    by blast
  have hand: "HandOverFilePositions [some_line] (o_Slot some_forwarder) = \<lparr>s_bPending = True, s_Generation = 1, s_EndOffset = 3\<rparr>"
    by (simp add: HandOverFilePositions_def some_line_def some_forwarder_def Slot_Add_def FileCommitSlot_def)
  have slot: "o_Slot some_forwarder = FileCommitSlot"
    by (simp add: some_forwarder_def)
  have "map lr_Line batch = [''hi'']"
    using lines by (simp add: some_line_def)
  then show ?thesis
    using fate unfolding hand unfolding slot by iprover
qed

end
