(* ===== verification/FileThread.thy ===== *)
theory FileThread imports PushThread begin

text \<open>
  The thread of the file input (\<^verbatim>\<open>FileThread\<close> of \<^verbatim>\<open>otelfwd.cpp\<close>): it reads lines while the queue has room, and commits
  the positions which the push thread leaves in the slot.
\<close>

record file_config =
  g_szFileInput :: string
  g_FileSeverityNumber :: int
  g_szFileSeverityText :: string
  g_szFileService :: string
  g_SocketQueueMax :: nat

text \<open>The reader, the local variables of the thread, and the counters which only it writes.\<close>

record file_thread =
  ft_Reader :: reader
  ft_bRetry :: bool
  ft_Generation :: nat
  ft_EndOffset :: nat
  ft_FileLines :: nat
  ft_FileTruncated :: nat
  ft_FileCommitted :: nat
  ft_FileOpen :: bool

definition new_file_thread :: "reader \<Rightarrow> file_thread" where
  "new_file_thread rd = \<lparr>ft_Reader = rd, ft_bRetry = False, ft_Generation = 0, ft_EndOffset = 0, ft_FileLines = 0, ft_FileTruncated = 0,
     ft_FileCommitted = 0, ft_FileOpen = False\<rparr>"

definition CommitDeliveredFilePositions :: "'n forwarder \<times> file_thread \<Rightarrow> 'n forwarder \<times> file_thread" where
  "CommitDeliveredFilePositions = (\<lambda>(s, t).
     (case Slot_Take (o_Slot s) of
        (taken, sl) \<Rightarrow>
          let s1 = s\<lparr>o_Slot := sl\<rparr>;
              t1 = (case taken of None \<Rightarrow> t | Some (g, e) \<Rightarrow> t\<lparr>ft_Generation := g, ft_EndOffset := e, ft_bRetry := True\<rparr>)
          in if ft_bRetry t1 then
               (case Commit (ft_Generation t1) (ft_EndOffset t1) (ft_Reader t1) of
                  (True, rd) \<Rightarrow> (s1, t1\<lparr>ft_Reader := rd, ft_bRetry := False, ft_FileCommitted := fr_Committed rd\<rparr>)
                | (False, rd) \<Rightarrow> (s1, t1\<lparr>ft_Reader := rd\<rparr>))
             else (s1, t1)))"

definition GetFileResource :: "identity \<Rightarrow> file_config \<Rightarrow> OtelKV list" where
  "GetFileResource g c =
     (if IsNullStr (g_szFileService c) then []
      else map (\<lambda>KV. if kv_Key KV = ''service.name'' \<or> kv_Key KV = ''service.namespace'' then KV\<lparr>kv_StrValue := g_szFileService c\<rparr> else KV)
             (GetDefaultResource g))"

definition file_record :: "identity \<Rightarrow> file_config \<Rightarrow> int \<Rightarrow> file_line \<Rightarrow> LogRecord" where
  "file_record g c TimeNs line =
     new_LogRecord\<lparr>lr_Source := LOG_SOURCE_FILE, lr_TimeNs := TimeNs, lr_Line := Text line, lr_SeverityNumber := g_FileSeverityNumber c,
       lr_SeverityText := g_szFileSeverityText c, lr_Resource := GetFileResource g c, lr_FileGeneration := Generation line,
       lr_FileEndOffset := EndOffset line, lr_Attributes := [MakeStringKV ''log.file.path'' (g_szFileInput c)]\<rparr>"

definition OTELFWD_FILE_LINES_PER_ROUND :: nat where
  "OTELFWD_FILE_LINES_PER_ROUND = 1000"

text \<open>What is done with a line: an empty one has no record.\<close>

definition take_line :: "'n outside \<Rightarrow> identity \<Rightarrow> file_config \<Rightarrow> file_line \<Rightarrow> 'n forwarder \<times> file_thread \<Rightarrow> 'n forwarder \<times> file_thread" where
  "take_line w g c line = (\<lambda>(s, t).
     let t1 = (if bTruncated line then t\<lparr>ft_FileTruncated := ft_FileTruncated t + 1\<rparr> else t)
     in if Text line = [] then (s, t1)
        else case GetEpochNanoseconds w s of
          (ns, s1) \<Rightarrow> (s1\<lparr>o_Fifo := fifo_push (file_record g c ns line) (o_Fifo s1)\<rparr>, t1\<lparr>ft_FileLines := ft_FileLines t1 + 1\<rparr>))"

text \<open>The inner loop with the turns which are left: how many lines were read. The outer \<open>None\<close>: the fuel of \<open>ReadLine\<close> was not enough.\<close>

fun read_lines :: "nat \<Rightarrow> 'n outside \<Rightarrow> identity \<Rightarrow> file_config \<Rightarrow> nat \<Rightarrow> 'n forwarder \<times> file_thread \<Rightarrow> (nat \<times> 'n forwarder \<times> file_thread) option" where
  "read_lines fuel w g c 0 st = Some (0, st)"
| "read_lines fuel w g c (Suc n) (s, t) =
     (if fifo_size (o_Fifo s) < g_SocketQueueMax c then
        (case get_time w s of
           (now, s1) \<Rightarrow>
             (case ReadLine fuel (nat now) (ft_Reader t) of
                None \<Rightarrow> None
              | Some (None, rd) \<Rightarrow> Some (0, s1, t\<lparr>ft_Reader := rd\<rparr>)
              | Some (Some line, rd) \<Rightarrow>
                  map_option (\<lambda>(k, st). (Suc k, st)) (read_lines fuel w g c n (take_line w g c line (s1, t\<lparr>ft_Reader := rd\<rparr>)))))
      else Some (0, s, t))"

text \<open>One turn of the thread: whether it sleeps afterwards.\<close>

definition FileThread_turn :: "nat \<Rightarrow> 'n outside \<Rightarrow> identity \<Rightarrow> file_config \<Rightarrow> 'n forwarder \<times> file_thread \<Rightarrow> (bool \<times> 'n forwarder \<times> file_thread) option" where
  "FileThread_turn fuel w g c st =
     (case read_lines fuel w g c OTELFWD_FILE_LINES_PER_ROUND (CommitDeliveredFilePositions st) of
        None \<Rightarrow> None
      | Some (n, s, t) \<Rightarrow> Some (n = 0, s, t\<lparr>ft_FileOpen := (fr_Fd (ft_Reader t) \<noteq> None)\<rparr>))"

end
