(* ===== verification/FilePositions.thy ===== *)
theory FilePositions imports FileThread PushProofs FileReaderState begin

text \<open>
  The file thread and the push thread together: the position which is saved never passes a line which is still on its way.
  First the positions of the reader, then the invariant of the two threads.
\<close>

section \<open>The reader only goes forward\<close>

text \<open>Where the next line begins at the earliest: the file which is open, or the next one.\<close>

definition next_pos :: "reader \<Rightarrow> nat \<times> nat" where
  "next_pos s = (if fr_Fd s = None then (Suc (fr_Generation s), 0) else (fr_Generation s, fr_BufferStart s))"

definition place :: "reader \<Rightarrow> (nat \<times> nat) option \<times> nat \<times> nat \<times> nat \<times> nat" where
  "place s = (fr_Fd s, fr_Generation s, fr_BufferStart s, fr_Committed s, fr_MaxLineLength s)"

lemma place_updates [simp]:
  "place (s\<lparr>World := w\<rparr>) = place s" "place (FileReader_Log m s) = place s" "place (s\<lparr>fr_bRotationSeen := b\<rparr>) = place s"
  "place (s\<lparr>fr_tIncompleteSince := n\<rparr>) = place s" "place (s\<lparr>fr_ScanFrom := n\<rparr>) = place s" "place (s\<lparr>fr_Head := h\<rparr>) = place s"
  "place (s\<lparr>fr_LastOpenError := n\<rparr>) = place s" "place (ClearBuffer s) = place s" "place (s\<lparr>fr_bSkipping := b\<rparr>) = place s"
  "place (s\<lparr>fr_Pos := n\<rparr>) = place s" "place (s\<lparr>fr_Buffer := x\<rparr>) = place s" "place (s\<lparr>fr_bFirstOpen := b\<rparr>) = place s"
  by (simp_all add: place_def FileReader_Log_def ClearBuffer_def)

lemma place_kept: "kept_by_save s t \<Longrightarrow> place t = place s"
  using kept_by_save_fields [of s t] by (simp add: place_def)

lemma r_call_place: "r_call s = (e, t) \<Longrightarrow> place t = place s"
  using r_call_kept [of s e t] place_kept by blast

lemma fd_read_place: "fd_read n off s = (r, t) \<Longrightarrow> place t = place s"
  by (auto simp: fd_read_def split: prod.splits)

lemma SaveState_place [simp]: "place (snd (SaveState s)) = place s"
  using SaveState_result [of s "fst (SaveState s)" "snd (SaveState s)"] place_kept by simp

lemma RefreshHead_place: "RefreshHead s = (b, t) \<Longrightarrow> place t = place s"
  by (auto simp: RefreshHead_def split: prod.splits option.splits if_splits dest!: fd_read_place)

lemma LoadState_place: "LoadState s = (r, sv, t) \<Longrightarrow> place t = place s"
  unfolding LoadState_def by (auto split: prod.splits option.splits if_splits sum.splits dest!: r_call_place)

lemma ResolveStart_place: "ResolveStart di n s = (off, t) \<Longrightarrow> place t = place s"
  unfolding ResolveStart_def by (auto split: prod.splits option.splits if_splits dest!: LoadState_place fd_read_place)

lemma FillBuffer_place: "FillBuffer s = (r, t) \<Longrightarrow> place t = place s"
  unfolding FillBuffer_def by (auto simp: Let_def split: prod.splits option.splits if_splits dest!: fd_read_place)

lemma PathReplaced_place: "PathReplaced s = (b, t) \<Longrightarrow> place t = place s"
  unfolding PathReplaced_def by (auto split: prod.splits option.splits if_splits path_entry.splits dest!: r_call_place)

text \<open>Forward: the next line begins later, and the saved position is that of the same file, or the start of a later one.\<close>

definition forward :: "reader \<Rightarrow> reader \<Rightarrow> bool" where
  "forward s t \<longleftrightarrow> next_pos s \<le> next_pos t \<and> fr_Generation s \<le> fr_Generation t \<and> fr_MaxLineLength t = fr_MaxLineLength s \<and>
     (fr_Generation t = fr_Generation s \<longrightarrow> fr_Committed t = fr_Committed s) \<and>
     (fr_Generation t > fr_Generation s \<longrightarrow> (fr_Generation t, fr_Committed t) \<le> next_pos t)"

lemma forward_place: "place t = place s \<Longrightarrow> forward s t"
  by (simp add: forward_def place_def next_pos_def)


lemma forward_trans:
  assumes "forward s t" "forward t u"
  shows "forward s u"
proof -
  have "(fr_Generation u, fr_Committed u) \<le> next_pos u" if "fr_Generation u > fr_Generation s"
  proof (cases "fr_Generation u > fr_Generation t")
    case True
    with assms(2) show ?thesis
      by (simp add: forward_def)
  next
    case False
    with assms(2) have "fr_Generation u = fr_Generation t" "fr_Committed u = fr_Committed t" "next_pos t \<le> next_pos u"
      by (auto simp: forward_def)
    with assms(1) that show ?thesis
      by (metis forward_def order_trans)
  qed
  moreover have "fr_Committed u = fr_Committed s" if "fr_Generation u = fr_Generation s"
  proof -
    have "fr_Generation t = fr_Generation s"
      using assms that by (simp add: forward_def)
    with assms that show ?thesis
      by (simp add: forward_def)
  qed
  moreover have "next_pos s \<le> next_pos u"
    using assms order_trans [of "next_pos s" "next_pos t" "next_pos u"] by (simp add: forward_def)
  ultimately show ?thesis
    using assms by (simp add: forward_def)
qed

lemma OpenFile_forward:
  assumes "OpenFile s = (b, t)" "fr_Fd s = None"
  shows "forward s t \<and> (b \<longrightarrow> fr_Fd t \<noteq> None) \<and> (\<not> b \<longrightarrow> place t = place s)"
proof -
  obtain e1 s1 where c1: "r_call s = (e1, s1)" by force
  note p1 = r_call_place [OF c1]
  obtain e2 s2 where c2: "r_call s1 = (e2, s2)" by force
  note p2 = r_call_place [OF c2]
  show ?thesis
  proof (cases "e1 = None \<and> e2 = None \<and> (\<exists>dev ino. r_Path (World s2) = RegularFile dev ino) \<and> r_Path (World s1) \<noteq> NoFile")
    case False
    have "b = False \<and> place t = place s"
      using assms(1) False p1 p2
      by (auto simp: OpenFile_def c1 c2 Let_def split: option.splits if_splits path_entry.splits)
    then show ?thesis
      using forward_place by simp
  next
    case True
    then obtain dev ino where d: "r_Path (World s2) = RegularFile dev ino"
      by blast
    define s3 where "s3 = s2\<lparr>fr_LastOpenError := 0, fr_Fd := Some (dev, ino), fr_Device := dev, fr_Inode := ino, fr_Generation := fr_Generation s2 + 1\<rparr>"
    obtain Off s4 where r: "(if fr_bFirstOpen s3
        then ResolveStart (dev, ino) (length (r_Content (World s2) (dev, ino))) (s3\<lparr>fr_bFirstOpen := False\<rparr>) else (0, s3)) = (Off, s4)"
      by force
    have p4: "place s4 = place s3"
      using r ResolveStart_place [of _ _ "s3\<lparr>fr_bFirstOpen := False\<rparr>" Off s4] by (auto split: if_splits)
    obtain Head s5 where h: "fd_read HEAD_MAX 0 s4 = (Head, s5)" by force
    note p5 = fd_read_place [OF h]
    define s6 where "s6 = (ClearBuffer (s5\<lparr>fr_Head := (case Head of None \<Rightarrow> [] | Some h \<Rightarrow> h)\<rparr>))\<lparr>fr_BufferStart := Off, fr_Committed := Off\<rparr>"
    have "OpenFile s = (case (if fr_bFirstOpen s3
        then ResolveStart (dev, ino) (length (r_Content (World s2) (dev, ino))) (s3\<lparr>fr_bFirstOpen := False\<rparr>) else (0, s3)) of
        (Off, s4) \<Rightarrow> (case fd_read HEAD_MAX 0 s4 of (Head, s5) \<Rightarrow>
           (True, snd (SaveState ((ClearBuffer (s5\<lparr>fr_Head := (case Head of None \<Rightarrow> [] | Some h \<Rightarrow> h)\<rparr>))\<lparr>fr_BufferStart := Off, fr_Committed := Off\<rparr>)))))"
      using True d by (simp add: OpenFile_def c1 c2 Let_def s3_def)
    then have t: "b = True" "t = snd (SaveState s6)"
      using assms(1) unfolding r prod.case h s6_def [symmetric] by simp_all
    have "place s5 = (Some (dev, ino), Suc (fr_Generation s), fr_BufferStart s, fr_Committed s, fr_MaxLineLength s)"
      using p1 p2 p4 p5 by (simp add: place_def s3_def)
    then have "place t = (Some (dev, ino), Suc (fr_Generation s), Off, Off, fr_MaxLineLength s)"
      unfolding t(2) SaveState_place by (simp add: s6_def place_def ClearBuffer_def)
    then show ?thesis
      using assms(2) t(1) by (simp add: place_def forward_def next_pos_def)
  qed
qed

lemma ResetFile_forward: "fr_Fd s \<noteq> None \<Longrightarrow> forward s (ResetFile r s) \<and> fr_Fd (ResetFile r s) \<noteq> None"
proof -
  assume fd: "fr_Fd s \<noteq> None"
  define s1 where "s1 = (ClearBuffer ((FileReader_Log (FileReset r) s)\<lparr>fr_Generation := fr_Generation s + 1\<rparr>))\<lparr>fr_BufferStart := 0, fr_bSkipping := False,
      fr_bRotationSeen := False, fr_tIncompleteSince := 0, fr_Head := [], fr_Committed := 0\<rparr>"
  have "ResetFile r s = snd (SaveState (snd (RefreshHead s1)))"
    by (simp add: ResetFile_def s1_def Let_def FileReader_Log_def)
  then have "place (ResetFile r s) = place s1"
    using RefreshHead_place [of s1 "fst (RefreshHead s1)" "snd (RefreshHead s1)"] by simp
  then show ?thesis
    using fd by (simp add: place_def s1_def ClearBuffer_def FileReader_Log_def forward_def next_pos_def)
qed

lemma CheckFile_forward:
  assumes "CheckFile s = (b, t)" "fr_Fd s \<noteq> None"
  shows "forward s t \<and> fr_Fd t \<noteq> None"
proof -
  obtain e s1 where c: "r_call s = (e, s1)" by force
  note p1 = r_call_place [OF c]
  have f1: "forward s s1" "fr_Fd s1 \<noteq> None"
    using forward_place [OF p1] p1 assms(2) by (simp_all add: place_def)
  obtain b2 s2 where h: "RefreshHead s1 = (b2, s2)" by force
  note p2 = RefreshHead_place [OF h]
  have f2: "forward s s2" "fr_Fd s2 \<noteq> None"
    using forward_place [of s2 s] p1 p2 assms(2) by (simp_all add: place_def)
  show ?thesis
  proof (cases e)
    case (Some x)
    then show ?thesis
      using assms(1) f1 by (simp add: CheckFile_def c)
  next
    case None
    then have "t = ResetFile ''was truncated'' s1 \<or> t = ResetFile ''was written again (its start has changed)'' s2 \<or> t = s2"
      using assms(1) by (cases b2) (auto simp: CheckFile_def c h split: if_splits)
    then show ?thesis
      using f1 f2 ResetFile_forward [OF f1(2)] ResetFile_forward [OF f2(2)] forward_trans by blast
  qed
qed

lemma CloseFile_forward: "fr_Fd s \<noteq> None \<Longrightarrow> forward s (CloseFile s)"
  by (simp add: forward_def CloseFile_def ClearBuffer_def next_pos_def)

definition line_pos :: "file_line \<Rightarrow> nat \<times> nat" where
  "line_pos l = (Generation l, EndOffset l)"

definition reads :: "reader \<Rightarrow> file_line option \<Rightarrow> reader \<Rightarrow> bool" where
  "reads s r t \<longleftrightarrow> forward s t \<and> (\<forall>l. r = Some l \<longrightarrow> next_pos s < line_pos l \<and> line_pos l \<le> next_pos t \<and> Generation l = fr_Generation t \<and>
     (fr_Generation t > fr_Generation s \<longrightarrow> (fr_Generation t, fr_Committed t) < line_pos l))"

lemma forward_reads:
  assumes "forward s u" "reads u r t"
  shows "reads s r t"
proof -
  have "(fr_Generation t, fr_Committed t) < line_pos l" if l: "r = Some l" and g: "fr_Generation t > fr_Generation s" for l
  proof (cases "fr_Generation t > fr_Generation u")
    case True
    with assms(2) l show ?thesis
      by (simp add: reads_def)
  next
    case False
    with assms(2) have "fr_Generation t = fr_Generation u" "fr_Committed t = fr_Committed u"
      by (auto simp: reads_def forward_def)
    moreover have "next_pos u < line_pos l"
      using assms(2) l by (simp add: reads_def)
    ultimately show ?thesis
      using assms(1) g by (metis forward_def order_le_less_trans)
  qed
  moreover have "forward s t"
    using assms forward_trans by (auto simp: reads_def)
  moreover have "next_pos s \<le> next_pos u"
    using assms(1) by (simp add: forward_def)
  ultimately show ?thesis
    using assms(2) le_less_trans [of "next_pos s" "next_pos u"] by (cases r) (simp_all add: reads_def)
qed

lemma reads_None: "forward s t \<Longrightarrow> reads s None t"
  by (simp add: reads_def)

lemma reads_extracted:
  assumes "fr_Fd s \<noteq> None" "fr_Fd t = fr_Fd s" "fr_Generation t = fr_Generation s" "fr_Committed t = fr_Committed s"
    "fr_MaxLineLength t = fr_MaxLineLength s" "fr_BufferStart s < fr_BufferStart t" "Generation l = fr_Generation s" "EndOffset l = fr_BufferStart t"
  shows "reads s (Some l) t"
  using assms by (simp add: reads_def forward_def next_pos_def line_pos_def)

lemma ExtractPlain_reads:
  assumes "ExtractPlain s = (r, t)" "fr_Fd s \<noteq> None" "0 < fr_MaxLineLength s"
  shows "reads s r t \<and> fr_Fd t \<noteq> None"
proof (cases "map_option (\<lambda>i. fr_Pos s + fr_ScanFrom s + i) (find_index NL (drop (fr_Pos s + fr_ScanFrom s) (fr_Buffer s)))")
  case None
  show ?thesis
  proof (cases "Pending s > fr_MaxLineLength s")
    case True
    with assms None show ?thesis
      by (auto simp: ExtractPlain_def intro!: reads_extracted)
  next
    case False
    with assms None show ?thesis
      by (auto simp: ExtractPlain_def intro!: reads_None forward_place)
  qed
next
  case (Some Pos)
  then have "fr_Pos s \<le> Pos"
    by auto
  with assms Some show ?thesis
    by (auto simp: ExtractPlain_def Let_def intro!: reads_extracted)
qed

lemma ExtractLine_reads:
  assumes "ExtractLine s = (r, t)" "fr_Fd s \<noteq> None" "0 < fr_MaxLineLength s"
  shows "reads s r t \<and> fr_Fd t \<noteq> None"
proof (cases "fr_bSkipping s")
  case False
  then show ?thesis
    using assms ExtractPlain_reads by (simp add: ExtractLine_def)
next
  case True
  show ?thesis
  proof (cases "map_option (\<lambda>i. fr_Pos s + fr_ScanFrom s + i) (find_index NL (drop (fr_Pos s + fr_ScanFrom s) (fr_Buffer s)))")
    case None
    then have "r = None" "t = ClearBuffer (s\<lparr>fr_BufferStart := fr_BufferStart s + Pending s\<rparr>)"
      using assms(1) True by (simp_all add: ExtractLine_def)
    then show ?thesis
      using assms(2) by (simp add: reads_def forward_def next_pos_def ClearBuffer_def)
  next
    case (Some Pos)
    define u where "u = s\<lparr>fr_BufferStart := fr_BufferStart s + (Pos + 1 - fr_Pos s), fr_Pos := Pos + 1, fr_ScanFrom := 0, fr_bSkipping := False\<rparr>"
    have e: "ExtractPlain u = (r, t)"
      using assms(1) True Some by (simp add: ExtractLine_def u_def)
    have "forward s u" "fr_Fd u \<noteq> None" "0 < fr_MaxLineLength u"
      using assms(2,3) by (simp_all add: u_def forward_def next_pos_def)
    then show ?thesis
      using ExtractPlain_reads [OF e] forward_reads by blast
  qed
qed

lemma EmitRemainder_reads:
  assumes "EmitRemainder s = (l, t)" "fr_Fd s \<noteq> None" "0 < Pending s"
  shows "reads s (Some l) t"
  using assms by (auto simp: EmitRemainder_def Let_def ClearBuffer_def Pending_def intro!: reads_extracted)


lemma three_ways: "(if A \<and> P \<and> D then (if B then X else if C then Y else Z) else Z) = W \<Longrightarrow> X = W \<or> (P \<and> Y = W) \<or> Z = W"
  by (simp split: if_splits)

lemma ReadLineLoop_reads:
  "ReadLineLoop fuel tNow s = Some (r, t) \<Longrightarrow> 0 < fr_MaxLineLength s \<Longrightarrow> reads s r t"
proof (induction fuel arbitrary: s)
  case (Suc fuel)
  obtain b s1 where o: "(if fr_Fd s = None then OpenFile s else (True, s)) = (b, s1)" by force
  have f1: "forward s s1" and fd1: "b \<Longrightarrow> fr_Fd s1 \<noteq> None"
    using o OpenFile_forward [of s b s1] forward_place [of s s] by (auto split: if_splits)
  show ?case
  proof (cases b)
    case False
    with Suc.prems o f1 show ?thesis
      by (auto intro: reads_None)
  next
    case True
    note fd1 = fd1 [OF True]
    have m1: "0 < fr_MaxLineLength s1"
      using f1 Suc.prems(2) by (simp add: forward_def)
    obtain e s2 where x: "ExtractLine s1 = (e, s2)" by force
    note X = ExtractLine_reads [OF x fd1 m1]
    have next_step: "reads s r t" if "forward s2 u" "reads u r t" for u
    proof -
      have "forward s u"
        using f1 X that(1) forward_trans by (auto simp: reads_def)
      then show ?thesis
        using that(2) forward_reads by blast
    qed
    have loop: "reads s r t" if "forward s2 u" "ReadLineLoop fuel tNow u = Some (r, t)" for u
    proof -
      have "0 < fr_MaxLineLength u"
        using f1 X that(1) Suc.prems(2) by (simp add: reads_def forward_def)
      then show ?thesis
        using next_step [OF that(1)] Suc.IH [OF that(2)] by blast
    qed
    show ?thesis
    proof (cases e)
      case (Some l)
      then have "r = Some l" "t = s2"
        using Suc.prems(1) o True x by simp_all
      with X Some f1 show ?thesis
        using forward_reads by blast
    next
      case None
      obtain b3 s3 where c: "CheckFile s2 = (b3, s3)" by force
      have C: "forward s2 s3" "fr_Fd s3 \<noteq> None"
        using CheckFile_forward [OF c] X by auto
      show ?thesis
      proof (cases b3)
        case False
        then have "ReadLineLoop fuel tNow s3 = Some (r, t)"
          using Suc.prems(1) o True x None c by simp
        then show ?thesis
          by (rule loop [OF C(1)])
      next
        case b3: True
        obtain n s4 where fb: "FillBuffer s3 = (n, s4)" by force
        note p4 = FillBuffer_place [OF fb]
        have F4: "forward s2 s4" "fr_Fd s4 \<noteq> None"
          using C forward_trans [OF C(1) forward_place [OF p4]] p4 by (auto simp: place_def)
        obtain rep s5 where pr: "PathReplaced s4 = (rep, s5)" by force
        note p5 = PathReplaced_place [OF pr]
        have F5: "forward s2 s5" "fr_Fd s5 \<noteq> None"
          using F4 forward_trans [OF F4(1) forward_place [OF p5]] p5 by (auto simp: place_def)
        have same: "forward s2 u \<and> fr_Fd u \<noteq> None" if "place u = place s5" for u
          using F5 forward_trans [OF F5(1) forward_place [OF that]] that by (auto simp: place_def)
        have same4: "forward s2 u \<and> fr_Fd u \<noteq> None" if "place u = place s4" for u
          using F4 forward_trans [OF F4(1) forward_place [OF that]] that by (auto simp: place_def)
        have closed: "forward s2 (CloseFile s5)"
          using F5 CloseFile_forward forward_trans by blast
        have emitted: "reads s (Some l) v" if "EmitRemainder u = (l, v)" "place u = place s5" "0 < Pending u" "r = Some l" "t = v" for u l v
          using next_step [of u] EmitRemainder_reads [OF that(1)] same [OF that(2)] that(3,4,5) by auto
        have stop: "reads s None u" if "forward s2 u" for u
        proof (rule reads_None)
          show "forward s u"
            using f1 X that forward_trans by (auto simp: reads_def)
        qed
        have turn: "Some (r, t) = (case FillBuffer s3 of
                       (None, s3) \<Rightarrow> Some (None, s3)
                     | (Some n, s3) \<Rightarrow>
                         if n > 0 then ReadLineLoop fuel tNow (s3\<lparr>fr_bRotationSeen := False, fr_tIncompleteSince := 0\<rparr>)
                         else case PathReplaced s3 of
                           (True, s4) \<Rightarrow>
                             if \<not> fr_bRotationSeen s4 then Some (None, s4\<lparr>fr_bRotationSeen := True\<rparr>)
                             else if Pending s4 > 0 \<and> \<not> fr_bSkipping s4 then
                               (case EmitRemainder s4 of (line, s5) \<Rightarrow> Some (Some line, s5))
                             else ReadLineLoop fuel tNow (CloseFile s4)
                         | (False, s4) \<Rightarrow>
                             let s5 = s4\<lparr>fr_bRotationSeen := False\<rparr>
                             in if fr_IncompleteSec s5 > 0 \<and> Pending s5 > 0 \<and> \<not> fr_bSkipping s5 then
                                  (if fr_tIncompleteSince s5 = 0 then Some (None, s5\<lparr>fr_tIncompleteSince := tNow\<rparr>)
                                   else if tNow - fr_tIncompleteSince s5 \<ge> fr_IncompleteSec s5 then
                                     (case EmitRemainder s5 of (line, s6) \<Rightarrow> Some (Some line, s6))
                                   else Some (None, s5))
                                else Some (None, s5))"
          using Suc.prems(1) True None b3 by (simp only: ReadLineLoop.simps(2) o x c prod.case bool.case option.case)
        show ?thesis
        proof (cases n)
          case None
          with turn fb stop [OF F4(1)] show ?thesis
            by simp
        next
          case (Some k)
          show ?thesis
          proof (cases "k > 0")
            case True
            then have "ReadLineLoop fuel tNow (s4\<lparr>fr_bRotationSeen := False, fr_tIncompleteSince := 0\<rparr>) = Some (r, t)"
              using turn fb Some by simp
            moreover have "place (s4\<lparr>fr_bRotationSeen := False, fr_tIncompleteSince := 0\<rparr>) = place s4"
              by (simp only: place_updates)
            ultimately show ?thesis
              using loop same4 by blast
          next
            case k: False
            show ?thesis
            proof (cases rep)
              case True
              have "Some (r, t) = (if \<not> fr_bRotationSeen s5 then Some (None, s5\<lparr>fr_bRotationSeen := True\<rparr>)
                  else if Pending s5 > 0 \<and> \<not> fr_bSkipping s5 then (case EmitRemainder s5 of (line, s6) \<Rightarrow> Some (Some line, s6))
                  else ReadLineLoop fuel tNow (CloseFile s5))"
                using turn k True by (simp only: fb Some pr prod.case option.case bool.case if_False simp_thms)
              note turn' = this [symmetric]
              consider (seen) "(None, s5\<lparr>fr_bRotationSeen := True\<rparr>) = (r, t)"
                | (rest) l v where "EmitRemainder s5 = (l, v)" "0 < Pending s5" "(Some l, v) = (r, t)"
                | (closed) "ReadLineLoop fuel tNow (CloseFile s5) = Some (r, t)"
                using turn' by (cases "EmitRemainder s5") (simp split: if_split_asm)
              then show ?thesis
              proof cases
                case seen
                then have e: "r = None" "t = s5\<lparr>fr_bRotationSeen := True\<rparr>"
                  by simp_all
                have "forward s2 (s5\<lparr>fr_bRotationSeen := True\<rparr>)"
                  by (rule conjunct1 [OF same]) simp
                then show ?thesis
                  unfolding e by (rule stop)
              next
                case rest
                then show ?thesis
                  using emitted [OF rest(1) refl rest(2)] by simp
              next
                case closed
                show ?thesis
                  by (rule loop [OF \<open>forward s2 (CloseFile s5)\<close> closed])
              qed
            next
              case False
              define u where "u = s5\<lparr>fr_bRotationSeen := False\<rparr>"
              have pu: "place u = place s5"
                by (simp only: u_def place_updates)
              have "Some (r, t) = (if fr_IncompleteSec u > 0 \<and> Pending u > 0 \<and> \<not> fr_bSkipping u then
                  (if fr_tIncompleteSince u = 0 then Some (None, u\<lparr>fr_tIncompleteSince := tNow\<rparr>)
                   else if tNow - fr_tIncompleteSince u \<ge> fr_IncompleteSec u then (case EmitRemainder u of (line, s6) \<Rightarrow> Some (Some line, s6))
                   else Some (None, u))
                else Some (None, u))"
                using turn k False by (simp only: fb Some pr prod.case option.case bool.case if_False simp_thms Let_def u_def)
              note turn' = this [symmetric]
              consider (wait) "(None, u\<lparr>fr_tIncompleteSince := tNow\<rparr>) = (r, t)" | (still) "(None, u) = (r, t)"
                | (late) l v where "EmitRemainder u = (l, v)" "0 < Pending u" "(Some l, v) = (r, t)"
                using three_ways [OF turn'] by (cases "EmitRemainder u") (simp only: prod.case option.inject, blast)
              then show ?thesis
              proof cases
                case wait
                then have e: "r = None" "t = u\<lparr>fr_tIncompleteSince := tNow\<rparr>"
                  by simp_all
                have "forward s2 (u\<lparr>fr_tIncompleteSince := tNow\<rparr>)"
                  by (rule conjunct1 [OF same]) (simp add: pu)
                then show ?thesis
                  unfolding e by (rule stop)
              next
                case still
                then have e: "r = None" "t = u"
                  by simp_all
                have "forward s2 (u)"
                  by (rule conjunct1 [OF same]) (simp add: pu)
                then show ?thesis
                  unfolding e by (rule stop)
              next
                case late
                then show ?thesis
                  using emitted [OF late(1) pu late(2)] by simp
              qed
            qed
          qed
        qed
      qed
    qed
  qed
qed simp

lemma ReadLine_reads: "ReadLine fuel tNow s = Some (r, t) \<Longrightarrow> 0 < fr_MaxLineLength s \<Longrightarrow> reads s r t"
  using ReadLineLoop_reads forward_place [of s s] by (auto simp: ReadLine_def intro: reads_None split: if_splits)

end
