(* ===== verification/FilePositionsTheorems.thy ===== *)
theory FilePositionsTheorems imports FilePositions FileReaderTheorems PushTheorems begin

text \<open>
  The system of the file thread, the push thread and the WAL thread as a step relation, its invariant, and the safety
  of the position which is saved.
\<close>

section \<open>The steps\<close>

text \<open>The shared state, the batch which the push thread has popped and is working on, and the file thread.\<close>

type_synonym 'n file_system = "'n forwarder \<times> LogRecord list option \<times> file_thread"

text \<open>A turn of the file thread is a commit and then single lines (\<open>FileThread_turn_steps\<close>), so that the other threads come in between. The
  inputs from elsewhere add their records. The world of the reader (the log file, its directory) changes at any time.\<close>

inductive file_step :: "'n outside \<Rightarrow> push_config \<Rightarrow> identity \<Rightarrow> file_config \<Rightarrow> 'n file_system \<Rightarrow> 'n file_system \<Rightarrow> bool"
  for w c g fc where
  commit: "CommitDeliveredFilePositions (s, t) = (s', t') \<Longrightarrow> file_step w c g fc (s, B, t) (s', B, t')"
| read_line: "read_lines fuel w g fc 1 (s, t) = Some (k, s', t') \<Longrightarrow> file_step w c g fc (s, B, t) (s', B, t')"
| note_open: "file_step w c g fc (s, B, t) (s, B, t\<lparr>ft_FileOpen := (fr_Fd (ft_Reader t) \<noteq> None)\<rparr>)"
| world: "file_step w c g fc (s, B, t) (s, B, t\<lparr>ft_Reader := (ft_Reader t)\<lparr>World := wd\<rparr>\<rparr>)"
| other_input: "lr_Source r \<noteq> LOG_SOURCE_FILE \<Longrightarrow> file_step w c g fc (s, B, t) (s\<lparr>o_Fifo := fifo_push r (o_Fifo s)\<rparr>, B, t)"
| pop: "pop_batch OTELFWD_MAX_BATCH_RECORDS OTELFWD_MAX_BATCH_BYTES (o_Fifo s) = Some (Some batch, q) \<Longrightarrow>
    file_step w c g fc (s, None, t) (s\<lparr>o_Fifo := q\<rparr>, Some batch, t)"
| finish: "file_step w c g fc (s, Some batch, t) (handle_batch w c batch s, None, t)"
| wal_turn: "WalThread_turn fuel w c h s = Some (n, s') \<Longrightarrow> file_step w c g fc (s, B, t) (s', B, t)"

lemma read_lines_steps:
  "read_lines fuel w g fc n (s, t) = Some (k, s', t') \<Longrightarrow> (file_step w c g fc)\<^sup>*\<^sup>* (s, B, t) (s', B, t')"
proof (induction n arbitrary: s t k)
  case (Suc n)
  show ?case
  proof (cases "fifo_size (o_Fifo s) < g_SocketQueueMax fc")
    case True
    obtain now s1 where n: "get_time w s = (now, s1)" by force
    obtain r rd where R: "ReadLine fuel (nat now) (ft_Reader t) = Some (r, rd)"
      using Suc.prems True n by (auto split: option.splits prod.splits)
    show ?thesis
    proof (cases r)
      case None
      have "read_lines fuel w g fc 1 (s, t) = Some (0, s1, t\<lparr>ft_Reader := rd\<rparr>)"
        using True n R None by simp
      moreover have "s' = s1" "t' = t\<lparr>ft_Reader := rd\<rparr>"
        using Suc.prems True n R None by simp_all
      ultimately show ?thesis
        by (blast intro: file_step.read_line r_into_rtranclp)
    next
      case (Some l)
      obtain s2 t2 where l: "take_line w g fc l (s1, t\<lparr>ft_Reader := rd\<rparr>) = (s2, t2)" by force
      have one: "read_lines fuel w g fc 1 (s, t) = Some (1, s2, t2)"
        using True n R Some l by simp
      obtain k' where "read_lines fuel w g fc n (s2, t2) = Some (k', s', t')"
        using Suc.prems True n R Some l by (auto split: option.splits)
      from Suc.IH [OF this] one show ?thesis
        by (blast intro: file_step.read_line converse_rtranclp_into_rtranclp)
    qed
  next
    case False
    then show ?thesis
      using Suc.prems by simp
  qed
qed simp

lemma FileThread_turn_steps:
  assumes "FileThread_turn fuel w g fc (s, t) = Some (b, s', t')"
  shows "(file_step w c g fc)\<^sup>*\<^sup>* (s, B, t) (s', B, t')"
proof -
  obtain s1 t1 where c: "CommitDeliveredFilePositions (s, t) = (s1, t1)" by force
  obtain n t2 where r: "read_lines fuel w g fc OTELFWD_FILE_LINES_PER_ROUND (s1, t1) = Some (n, s', t2)"
    "t' = t2\<lparr>ft_FileOpen := (fr_Fd (ft_Reader t2) \<noteq> None)\<rparr>"
    using assms c by (auto simp: FileThread_turn_def split: option.splits)
  have "(file_step w c g fc)\<^sup>*\<^sup>* (s, B, t) (s', B, t2)"
    using file_step.commit [OF c] read_lines_steps [OF r(1)] by (meson converse_rtranclp_into_rtranclp)
  then show ?thesis
    unfolding r(2) using file_step.note_open rtranclp.rtrancl_into_rtrancl by metis
qed

section \<open>The invariant\<close>

definition file_places :: "LogRecord list \<Rightarrow> (nat \<times> nat) list" where
  "file_places rs = map (\<lambda>r. (lr_FileGeneration r, lr_FileEndOffset r)) (filter (\<lambda>r. lr_Source r = LOG_SOURCE_FILE) rs)"

definition on_the_way :: "'n file_system \<Rightarrow> LogRecord list" where
  "on_the_way = (\<lambda>(s, B, t). (case B of None \<Rightarrow> [] | Some batch \<Rightarrow> batch) @ m_queue (o_Fifo s))"

text \<open>The lines on the way are in the order of the file, behind the position which was handed over, and not beyond the reader.\<close>

definition lines_inv :: "(nat \<times> nat) list \<Rightarrow> nat \<times> nat \<Rightarrow> reader \<Rightarrow> bool" where
  "lines_inv ps p rd \<longleftrightarrow> sorted_wrt (<) ps \<and> p \<le> next_pos rd \<and> (fr_Generation rd, fr_Committed rd) \<le> next_pos rd \<and> 0 < fr_MaxLineLength rd \<and>
     (\<forall>q \<in> List.set ps. p < q \<and> q \<le> next_pos rd \<and> fst q \<le> fr_Generation rd \<and> (fst q = fr_Generation rd \<longrightarrow> fr_Committed rd < snd q))"

definition file_inv :: "'n file_system \<Rightarrow> bool" where
  "file_inv x \<longleftrightarrow> (case x of (s, B, t) \<Rightarrow>
     lines_inv (file_places (on_the_way x)) (position (o_Slot s)) (ft_Reader t) \<and>
     (ft_bRetry t \<longrightarrow> (ft_Generation t, ft_EndOffset t) \<le> position (o_Slot s)))"

lemma lines_inv_place: "place rd' = place rd \<Longrightarrow> lines_inv ps p rd' = lines_inv ps p rd"
  by (simp add: lines_inv_def place_def next_pos_def)

lemma lines_inv_forward:
  assumes "lines_inv ps p rd" "forward rd rd'"
  shows "lines_inv ps p rd'"
proof -
  have n: "next_pos rd \<le> next_pos rd'"
    using assms(2) by (simp add: forward_def)
  have c: "(fr_Generation rd', fr_Committed rd') \<le> next_pos rd'"
  proof (cases "fr_Generation rd' = fr_Generation rd")
    case True
    then have "fr_Committed rd' = fr_Committed rd"
      using assms(2) by (simp add: forward_def)
    then show ?thesis
      using True assms(1) n order_trans [of "(fr_Generation rd, fr_Committed rd)" "next_pos rd" "next_pos rd'"] by (simp add: lines_inv_def)
  next
    case False
    then show ?thesis
      using assms(2) by (simp add: forward_def)
  qed
  have "p < q \<and> q \<le> next_pos rd' \<and> fst q \<le> fr_Generation rd' \<and> (fst q = fr_Generation rd' \<longrightarrow> fr_Committed rd' < snd q)" if "q \<in> List.set ps" for q
  proof -
    have q: "p < q" "q \<le> next_pos rd" "fst q \<le> fr_Generation rd" "fst q = fr_Generation rd \<longrightarrow> fr_Committed rd < snd q"
      using assms(1) that by (auto simp: lines_inv_def)
    have "fr_Committed rd' < snd q" if e: "fst q = fr_Generation rd'"
    proof -
      have "fr_Generation rd' = fr_Generation rd"
        using e q(3) assms(2) by (simp add: forward_def)
      with assms(2) q(4) e show ?thesis
        by (simp add: forward_def)
    qed
    moreover have "fst q \<le> fr_Generation rd'"
      using q(3) assms(2) by (simp add: forward_def)
    ultimately show ?thesis
      using q(1,2) n order_trans by blast
  qed
  moreover have "p \<le> next_pos rd'" "0 < fr_MaxLineLength rd'" "sorted_wrt (<) ps"
    using assms n order_trans [of p "next_pos rd" "next_pos rd'"] by (simp_all add: lines_inv_def forward_def)
  ultimately show ?thesis
    using c by (simp add: lines_inv_def)
qed

lemma lines_inv_read:
  assumes "lines_inv ps p rd" "reads rd (Some l) rd'"
  shows "lines_inv (ps @ [line_pos l]) p rd'"
proof -
  have R: "forward rd rd'" "next_pos rd < line_pos l" "line_pos l \<le> next_pos rd'" "Generation l = fr_Generation rd'"
    "fr_Generation rd' > fr_Generation rd \<longrightarrow> (fr_Generation rd', fr_Committed rd') < line_pos l"
    using assms(2) by (auto simp: reads_def)
  note F = lines_inv_forward [OF assms(1) R(1)]
  have pos: "q < line_pos l" if "q \<in> List.set ps" for q
    using assms(1) that R(2) by (auto simp: lines_inv_def intro: order_le_less_trans)
  have p: "p < line_pos l"
    using assms(1) R(2) by (auto simp: lines_inv_def intro: order_le_less_trans)
  have "(fr_Generation rd', fr_Committed rd') < line_pos l"
  proof (cases "fr_Generation rd' = fr_Generation rd")
    case True
    then have "(fr_Generation rd', fr_Committed rd') \<le> next_pos rd"
      using assms(1) R(1) by (simp add: lines_inv_def forward_def)
    then show ?thesis
      using R(2) by (rule order_le_less_trans)
  next
    case False
    then show ?thesis
      using R(1,5) by (simp add: forward_def)
  qed
  then have "fr_Committed rd' < EndOffset l" "fst (line_pos l) = fr_Generation rd'"
    using R(4) by (simp_all add: line_pos_def)
  then show ?thesis
    using F pos p R(3) by (simp add: lines_inv_def sorted_wrt_append line_pos_def)
qed

lemma lines_inv_commit:
  assumes "lines_inv ps p rd" "Commit G E rd = (ok, rd')" "(G, E) \<le> p"
  shows "lines_inv ps p rd'"
proof -
  obtain b rs where sv: "SaveState (rd\<lparr>fr_Committed := E\<rparr>) = (b, rs)" by force
  have ps: "place rs = place (rd\<lparr>fr_Committed := E\<rparr>)"
    using SaveState_place [of "rd\<lparr>fr_Committed := E\<rparr>"] sv by simp
  have undone: "place (rs\<lparr>fr_Committed := fr_Committed rd\<rparr>) = place rd"
    using ps by (simp add: place_def)
  have "place rd' = place rd \<or> G = fr_Generation rd \<and> place rd' = place (rd\<lparr>fr_Committed := E\<rparr>)"
  proof (cases "\<not> fr_bOpened rd \<or> G \<noteq> fr_Generation rd \<or> E > fr_BufferStart rd \<or> E \<le> fr_Committed rd")
    case True
    then have "rd' = rd \<or> rd' = FileReader_Log (BehindLines E (fr_BufferStart rd)) rd"
      using assms(2) by (simp add: Commit_def split: if_split_asm)
    then show ?thesis
      by auto
  next
    case False
    then have n: "fr_bOpened rd" "\<not> G \<noteq> fr_Generation rd" "\<not> E > fr_BufferStart rd" "\<not> E \<le> fr_Committed rd"
      by blast+
    have "Commit G E rd = (if b then (True, rs) else (False, rs\<lparr>fr_Committed := fr_Committed rd\<rparr>))"
      unfolding Commit_def sv by (cases b) (simp_all only: n if_False not_True_eq_False prod.case bool.case if_True simp_thms)
    then have "rd' = rs \<or> rd' = rs\<lparr>fr_Committed := fr_Committed rd\<rparr>"
      unfolding assms(2) by (cases b) (simp_all only: if_True if_False prod.inject simp_thms)
    moreover have "G = fr_Generation rd"
      using n(2) by blast
    ultimately have "G = fr_Generation rd" "rd' = rs \<or> rd' = rs\<lparr>fr_Committed := fr_Committed rd\<rparr>"
      by blast+
    then show ?thesis
      unfolding ps [symmetric] undone [symmetric] by blast
  qed
  then consider (same) "place rd' = place rd" | (new) "G = fr_Generation rd" "place rd' = place (rd\<lparr>fr_Committed := E\<rparr>)"
    by blast
  then show ?thesis
  proof cases
    case same
    show ?thesis
      using lines_inv_place [OF same] assms(1) by blast
  next
    case new
    have "E < snd q" if "q \<in> List.set ps" "fst q = fr_Generation rd" for q
    proof -
      have "(G, E) < q"
        using assms(1,3) that(1) by (auto simp: lines_inv_def intro: order_le_less_trans)
      then show ?thesis
        using that(2) new(1) by (cases q) auto
    qed
    moreover have "(fr_Generation rd, E) \<le> next_pos rd"
      using assms(1,3) new(1) by (auto simp: lines_inv_def)
    moreover have "next_pos rd' = next_pos rd" "fr_Generation rd' = fr_Generation rd" "fr_Committed rd' = E" "fr_MaxLineLength rd' = fr_MaxLineLength rd"
      using new(2) by (simp_all add: place_def next_pos_def)
    ultimately show ?thesis
      using assms(1) by (simp add: lines_inv_def)
  qed
qed

lemma HandOver_position: "position (HandOverFilePositions B sl) = fold max (file_places B) (position sl)"
proof (induction B arbitrary: sl)
  case (Cons r B)
  have "position (HandOverFilePositions (r # B) sl) =
      position (HandOverFilePositions B (if lr_Source r = LOG_SOURCE_FILE then Slot_Add (lr_FileGeneration r) (lr_FileEndOffset r) sl else sl))"
    by (simp add: HandOverFilePositions_def)
  then show ?case
    unfolding Cons by (simp add: file_places_def Slot_Add_position max.commute)
qed (simp add: HandOverFilePositions_def file_places_def)

lemma lines_inv_hand_over:
  assumes "lines_inv (ps @ qs) p rd"
  shows "lines_inv qs (fold max ps p) rd" and "lines_inv qs p rd"
proof -
  show "lines_inv qs p rd"
    using assms by (auto simp: lines_inv_def sorted_wrt_append)
  show "lines_inv qs (fold max ps p) rd"
    using assms
  proof (induction ps arbitrary: p)
    case (Cons x ps)
    have "p < x" "x \<le> next_pos rd"
      using Cons.prems by (simp_all add: lines_inv_def)
    then have "max x p = x"
      by (simp add: max_absorb1 less_imp_le)
    moreover have "lines_inv (ps @ qs) x rd"
      using Cons.prems by (auto simp: lines_inv_def)
    ultimately show ?case
      using Cons.IH by simp
  qed simp
qed

section \<open>The steps keep the invariant\<close>

lemma pop_loop_same: "pop_loop m b xs n q = (ys, rest) \<Longrightarrow> ys @ rest = xs @ q"
  by (induction m b xs n q rule: pop_loop.induct) (auto split: if_splits)

lemma file_places_append [simp]: "file_places (xs @ ys) = file_places xs @ file_places ys"
  by (simp add: file_places_def)

lemma file_inv_same_front:
  "same_front s s' \<Longrightarrow> file_inv (s, B, t) \<Longrightarrow> file_inv (s', B, t)"
  by (simp add: file_inv_def on_the_way_def same_front_def)

lemma commit_inv:
  assumes "CommitDeliveredFilePositions (s, t) = (s', t')" "file_inv (s, B, t)"
  shows "file_inv (s', B, t')"
proof -
  define ps where "ps = file_places (on_the_way (s, B, t))"
  obtain taken sl where tk: "Slot_Take (o_Slot s) = (taken, sl)" by force
  define t1 where "t1 = (case taken of None \<Rightarrow> t | Some (g, e) \<Rightarrow> t\<lparr>ft_Generation := g, ft_EndOffset := e, ft_bRetry := True\<rparr>)"
  have p: "position sl = position (o_Slot s)" "taken = None \<or> taken = Some (position (o_Slot s))"
    using tk by (auto simp: Slot_Take_def position_def split: if_splits)
  have I: "lines_inv ps (position (o_Slot s)) (ft_Reader t)"
    "ft_bRetry t1 \<longrightarrow> (ft_Generation t1, ft_EndOffset t1) \<le> position (o_Slot s)" "ft_Reader t1 = ft_Reader t"
    using assms(2) p(2) by (auto simp: file_inv_def ps_def t1_def position_def)
  have way: "on_the_way (s\<lparr>o_Slot := sl\<rparr>, B, u) = on_the_way (s, B, t)" for u
    by (simp add: on_the_way_def)
  obtain ok rd where c: "Commit (ft_Generation t1) (ft_EndOffset t1) (ft_Reader t1) = (ok, rd)" by force
  show ?thesis
  proof (cases "ft_bRetry t1")
    case True
    have rd: "lines_inv ps (position (o_Slot s)) rd"
      using lines_inv_commit [OF _ c] I True by simp
    have "(s', t') = (s\<lparr>o_Slot := sl\<rparr>, if ok then t1\<lparr>ft_Reader := rd, ft_bRetry := False, ft_FileCommitted := fr_Committed rd\<rparr> else t1\<lparr>ft_Reader := rd\<rparr>)"
      unfolding assms(1) [symmetric] using True by (simp add: CommitDeliveredFilePositions_def tk t1_def [symmetric] c)
    then show ?thesis
      using rd I(2) p(1) way by (simp add: file_inv_def ps_def)
  next
    case False
    have "(s', t') = (s\<lparr>o_Slot := sl\<rparr>, t1)"
      unfolding assms(1) [symmetric] using False by (simp add: CommitDeliveredFilePositions_def tk t1_def [symmetric])
    then show ?thesis
      using False I p(1) way by (simp add: file_inv_def ps_def)
  qed
qed

lemma take_line_result:
  assumes "take_line w g fc l (s, t) = (s', t')"
  shows "o_Slot s' = o_Slot s \<and> ft_Reader t' = ft_Reader t \<and> ft_bRetry t' = ft_bRetry t \<and> ft_Generation t' = ft_Generation t \<and>
    ft_EndOffset t' = ft_EndOffset t \<and>
    (o_Fifo s' = o_Fifo s \<or> (\<exists>r. lr_Source r = LOG_SOURCE_FILE \<and> lr_FileGeneration r = Generation l \<and> lr_FileEndOffset r = EndOffset l \<and>
       o_Fifo s' = fifo_push r (o_Fifo s)))"
proof (cases "Text l = []")
  case True
  then show ?thesis
    using assms by (cases "bTruncated l") (auto simp: take_line_def Let_def)
next
  case False
  define r where "r = file_record g fc (nano_at w (o_Ticks s)) l"
  have "lr_Source r = LOG_SOURCE_FILE" "lr_FileGeneration r = Generation l" "lr_FileEndOffset r = EndOffset l"
    by (simp_all add: r_def file_record_def)
  moreover have "o_Fifo s' = fifo_push r (o_Fifo s)"
    using assms False by (auto simp: take_line_def Let_def GetEpochNanoseconds_def r_def)
  moreover have "o_Slot s' = o_Slot s \<and> ft_Reader t' = ft_Reader t \<and> ft_bRetry t' = ft_bRetry t \<and> ft_Generation t' = ft_Generation t \<and>
    ft_EndOffset t' = ft_EndOffset t"
    using assms False by (cases "bTruncated l") (auto simp: take_line_def Let_def GetEpochNanoseconds_def)
  ultimately show ?thesis
    by blast
qed

lemma lines_inv_snoc_subset: "lines_inv (ps @ [q]) p rd \<Longrightarrow> lines_inv ps p rd"
  by (simp add: lines_inv_def sorted_wrt_append)

lemma read_line_inv:
  assumes "read_lines fuel w g fc 1 (s, t) = Some (k, s', t')" "file_inv (s, B, t)"
  shows "file_inv (s', B, t')"
proof (cases "fifo_size (o_Fifo s) < g_SocketQueueMax fc")
  case False
  then show ?thesis
    using assms by simp
next
  case True
  define ps where "ps = file_places (on_the_way (s, B, t))"
  obtain now s1 where n: "get_time w s = (now, s1)" by force
  have s1: "o_Fifo s1 = o_Fifo s" "o_Slot s1 = o_Slot s"
    using n by (auto simp: get_time_def)
  obtain r rd where R: "ReadLine fuel (nat now) (ft_Reader t) = Some (r, rd)"
    using assms(1) True n by (auto split: option.splits prod.splits)
  have I: "lines_inv ps (position (o_Slot s)) (ft_Reader t)" "ft_bRetry t \<longrightarrow> (ft_Generation t, ft_EndOffset t) \<le> position (o_Slot s)"
    using assms(2) by (simp_all add: file_inv_def ps_def)
  have rd: "reads (ft_Reader t) r rd"
    by (rule ReadLine_reads [OF R]) (use I(1) in \<open>simp add: lines_inv_def\<close>)
  show ?thesis
  proof (cases r)
    case None
    then have e: "s' = s1" "t' = t\<lparr>ft_Reader := rd\<rparr>"
      using assms(1) True n R by simp_all
    have "lines_inv ps (position (o_Slot s)) rd"
      using lines_inv_forward [OF I(1)] rd by (simp add: reads_def)
    then show ?thesis
      using e s1 I(2) by (simp add: file_inv_def on_the_way_def ps_def)
  next
    case (Some l)
    then have L: "take_line w g fc l (s1, t\<lparr>ft_Reader := rd\<rparr>) = (s', t')"
      using assms(1) True n R by simp
    note T = take_line_result [OF L]
    have new: "lines_inv (ps @ [line_pos l]) (position (o_Slot s)) rd"
      using lines_inv_read [OF I(1)] rd Some by simp
    have "on_the_way (s', B, t') = on_the_way (s, B, t) \<or> (\<exists>r. lr_Source r = LOG_SOURCE_FILE \<and> (lr_FileGeneration r, lr_FileEndOffset r) = line_pos l \<and>
        on_the_way (s', B, t') = on_the_way (s, B, t) @ [r])"
      using T s1 by (auto simp: on_the_way_def fifo_push_def line_pos_def)
    then have "file_places (on_the_way (s', B, t')) = ps \<or> file_places (on_the_way (s', B, t')) = ps @ [line_pos l]"
      by (auto simp: ps_def) (simp add: file_places_def)
    then have "lines_inv (file_places (on_the_way (s', B, t'))) (position (o_Slot s')) (ft_Reader t')"
      using new lines_inv_snoc_subset [OF new] T s1 by auto
    then show ?thesis
      using T s1 I(2) by (simp add: file_inv_def)
  qed
qed

lemma finish_inv:
  assumes "file_inv (s, Some batch, t)"
  shows "file_inv (handle_batch w c batch s, None, t)"
proof -
  define s' where "s' = handle_batch w c batch s"
  have S: "o_Fifo s' = o_Fifo s" "o_Slot s' = o_Slot s \<or> o_Slot s' = HandOverFilePositions batch (o_Slot s)"
    using handle_batch_slot [of w c batch s] by (simp_all add: s'_def)
  define qs where "qs = file_places (m_queue (o_Fifo s))"
  have I: "lines_inv (file_places batch @ qs) (position (o_Slot s)) (ft_Reader t)"
    "ft_bRetry t \<longrightarrow> (ft_Generation t, ft_EndOffset t) \<le> position (o_Slot s)"
    using assms by (simp_all add: file_inv_def on_the_way_def qs_def)
  have "position (o_Slot s) \<le> fold max ps (position (o_Slot s))" for ps
    by (induction ps rule: rev_induct) (auto intro: order_trans max.cobounded2)
  then have p: "position (o_Slot s) \<le> position (o_Slot s')" "lines_inv qs (position (o_Slot s')) (ft_Reader t)"
    using S(2) lines_inv_hand_over [OF I(1)] HandOver_position [of batch "o_Slot s"] by auto
  have "on_the_way (s', None, t) = m_queue (o_Fifo s)"
    using S(1) by (simp add: on_the_way_def)
  then show ?thesis
    using p I(2) order_trans [of _ "position (o_Slot s)"] unfolding s'_def [symmetric] by (auto simp: file_inv_def qs_def)
qed

lemma file_step_inv: "file_step w c g fc x y \<Longrightarrow> file_inv x \<Longrightarrow> file_inv y"
proof (induction rule: file_step.induct)
  case (commit s t s' t' B)
  then show ?case
    by (rule commit_inv)
next
  case (read_line fuel s t k s' t' B)
  then show ?case
    by (rule read_line_inv)
next
  case (note_open s B t)
  then show ?case
    by (simp add: file_inv_def on_the_way_def)
next
  case (world s B t wd)
  have "place ((ft_Reader t)\<lparr>World := wd\<rparr>) = place (ft_Reader t)"
    by (rule place_updates(1))
  from lines_inv_place [OF this] show ?case
    using world by (simp add: file_inv_def on_the_way_def)
next
  case (other_input r s B t)
  then show ?case
    by (simp add: file_inv_def on_the_way_def fifo_push_def file_places_def)
next
  case (pop s batch q t)
  then obtain rest where r: "pop_loop OTELFWD_MAX_BATCH_RECORDS OTELFWD_MAX_BATCH_BYTES [] 0 (m_queue (o_Fifo s)) = (batch, rest)"
    "q = (o_Fifo s)\<lparr>m_queue := rest\<rparr>"
    by (auto simp: pop_batch_def split: if_splits prod.splits)
  then show ?case
    using pop(2) pop_loop_same [OF r(1)] by (simp add: file_inv_def on_the_way_def)
next
  case (finish s batch t)
  then show ?case
    by (rule finish_inv)
next
  case (wal_turn fuel h s n s' B t)
  then show ?case
    using WalThread_turn_front file_inv_same_front by blast
qed

lemma file_steps_inv: "(file_step w c g fc)\<^sup>*\<^sup>* x y \<Longrightarrow> file_inv x \<Longrightarrow> file_inv y"
  by (induction rule: rtranclp_induct) (auto intro: file_step_inv)

section \<open>The safety of the position\<close>

lemma file_inv_start:
  assumes "o_Fifo s = new_log_fifo" "o_Slot s = FileCommitSlot" "fr_Fd rd = None" "0 < fr_MaxLineLength rd"
  shows "file_inv (s, None, new_file_thread rd)"
  using assms by (simp add: file_inv_def on_the_way_def lines_inv_def file_places_def new_log_fifo_def FileCommitSlot_def new_file_thread_def
      next_pos_def position_def less_eq_prod_def)

text \<open>C18. In any interleaving of the file thread, the push thread, the WAL thread and the other inputs, whatever happens to the log file and whatever
  the receiver answers: the lines which are queued or in the batch in work are in the order of the file, each once, and the position which is saved
  for a restart is in front of the end of each line of the open file. So no line is passed by the position while it is only in memory.\<close>

theorem saved_position_is_behind_no_line_on_the_way:
  assumes "(file_step w c g fc)\<^sup>*\<^sup>* (s0, None, new_file_thread rd) (s, B, t)"
    and "o_Fifo s0 = new_log_fifo" and "o_Slot s0 = FileCommitSlot" and "fr_Fd rd = None" and "0 < fr_MaxLineLength rd"
  shows "sorted_wrt (<) (file_places (on_the_way (s, B, t))) \<and>
    (\<forall>r \<in> set (on_the_way (s, B, t)). lr_Source r = LOG_SOURCE_FILE \<and> lr_FileGeneration r = fr_Generation (ft_Reader t) \<longrightarrow>
       fr_Committed (ft_Reader t) < lr_FileEndOffset r)"
proof -
  have I: "lines_inv (file_places (on_the_way (s, B, t))) (position (o_Slot s)) (ft_Reader t)"
    using file_steps_inv [OF assms(1) file_inv_start [OF assms(2-5)]] by (simp add: file_inv_def)
  have "fr_Committed (ft_Reader t) < lr_FileEndOffset r"
    if "r \<in> set (on_the_way (s, B, t))" "lr_Source r = LOG_SOURCE_FILE" "lr_FileGeneration r = fr_Generation (ft_Reader t)" for r
  proof -
    have "(lr_FileGeneration r, lr_FileEndOffset r) \<in> set (file_places (on_the_way (s, B, t)))"
      using that(1,2) by (force simp: file_places_def)
    then show ?thesis
      using I that(3) by (force simp: lines_inv_def)
  qed
  then show ?thesis
    using I by (auto simp: lines_inv_def)
qed

definition some_file_config :: file_config where
  "some_file_config = \<lparr>g_szFileInput = ''log'', g_FileSeverityNumber = 9, g_szFileSeverityText = ''INFO'', g_szFileService = [], g_SocketQueueMax = 10\<rparr>"

lemma some_line_read:
  obtains s t r where
    "(file_step (some_outside\<lparr>perform := p\<rparr>) some_config (g_identity some_config) some_file_config)\<^sup>*\<^sup>*
       (some_forwarder, None, new_file_thread (new_reader 0 ''log'' ''state'' small_world)) (s, None, t)"
    "s = some_forwarder\<lparr>o_Ticks := 2, o_Fifo := fifo_push r new_log_fifo\<rparr>"
    "lr_Line r = ''a''" "lr_Source r = LOG_SOURCE_FILE" "lr_FileGeneration r = fr_Generation (ft_Reader t)" "running (1, 2) (''a'' @ [CR, NL]) (ft_Reader t)"
proof -
  let ?rd = "new_reader 0 ''log'' ''state'' small_world"
  let ?fuel = "Suc (length (r_Content (World ?rd) (1, 2)))"
  obtain l rd where "follow_run (1, 2) (ReadCalled 0 # []) ?rd = Some ([] @ l # [], rd)" and l: "line_text l = (''a'', False)"
    and run: "running (1, 2) (''a'' @ [CR, NL]) rd" "Generation l = fr_Generation rd"
    by (rule small_run_running)
  then have R: "ReadLine ?fuel 0 ?rd = Some (Some l, rd)"
    by (auto simp: follow_run.simps split: option.splits prod.splits)
  have L: "Text l = ''a''" "\<not> bTruncated l"
    using l by (simp_all)
  define r where "r = file_record (g_identity some_config) some_file_config 1 l"
  define s where "s = some_forwarder\<lparr>o_Ticks := 2, o_Fifo := fifo_push r new_log_fifo\<rparr>"
  define t where "t = (new_file_thread ?rd)\<lparr>ft_Reader := rd, ft_FileLines := 1\<rparr>"
  have "o_Fifo some_forwarder = new_log_fifo"
    by (simp add: some_forwarder_def)
  then have "read_lines ?fuel (some_outside\<lparr>perform := p\<rparr>) (g_identity some_config) some_file_config 1 (some_forwarder, new_file_thread ?rd) = Some (1, s, t)"
    using R L by (simp add: s_def t_def r_def new_log_fifo_def fifo_size_def some_file_config_def get_time_def some_outside_def
        take_line_def GetEpochNanoseconds_def new_file_thread_def some_forwarder_def Let_def)
  then have "file_step (some_outside\<lparr>perform := p\<rparr>) some_config (g_identity some_config) some_file_config (some_forwarder, None, new_file_thread ?rd) (s, None, t)"
    by (rule file_step.read_line)
  then have step: "(file_step (some_outside\<lparr>perform := p\<rparr>) some_config (g_identity some_config) some_file_config)\<^sup>*\<^sup>*
      (some_forwarder, None, new_file_thread ?rd) (s, None, t)"
    by (rule r_into_rtranclp)
  have "lr_Line r = ''a''" "lr_Source r = LOG_SOURCE_FILE" "lr_FileGeneration r = fr_Generation (ft_Reader t)" "running (1, 2) (''a'' @ [CR, NL]) (ft_Reader t)"
    using run by (simp_all add: r_def file_record_def L t_def)
  with step s_def show thesis
    by (rule that)
qed

lemma some_start:
  "o_Fifo some_forwarder = new_log_fifo" "o_Slot some_forwarder = FileCommitSlot" "fr_Fd (new_reader 0 ''log'' ''state'' small_world) = None"
  "0 < fr_MaxLineLength (new_reader 0 ''log'' ''state'' small_world)"
  by (simp_all add: some_forwarder_def new_reader_fields longest_line_def)

theorem saved_position_is_behind_no_line_on_the_way_witness:
  "\<exists>s t r. (file_step some_outside some_config (g_identity some_config) some_file_config)\<^sup>*\<^sup>*
      (some_forwarder, None, new_file_thread (new_reader 0 ''log'' ''state'' small_world)) (s, None, t) \<and>
    on_the_way (s, None, t) = [r] \<and> lr_Line r = ''a'' \<and> sorted_wrt (<) (file_places [r]) \<and> fr_Committed (ft_Reader t) < lr_FileEndOffset r"
proof -
  obtain s t r where s: "(file_step (some_outside\<lparr>perform := perform some_outside\<rparr>) some_config (g_identity some_config) some_file_config)\<^sup>*\<^sup>*
       (some_forwarder, None, new_file_thread (new_reader 0 ''log'' ''state'' small_world)) (s, None, t)"
    "s = some_forwarder\<lparr>o_Ticks := 2, o_Fifo := fifo_push r new_log_fifo\<rparr>"
    "lr_Line r = ''a''" "lr_Source r = LOG_SOURCE_FILE" "lr_FileGeneration r = fr_Generation (ft_Reader t)"
    by (rule some_line_read)
  have step: "(file_step some_outside some_config (g_identity some_config) some_file_config)\<^sup>*\<^sup>*
       (some_forwarder, None, new_file_thread (new_reader 0 ''log'' ''state'' small_world)) (s, None, t)"
    using s(1) by simp
  have way: "on_the_way (s, None, t) = [r]"
    by (simp add: on_the_way_def s(2) fifo_push_def new_log_fifo_def)
  show ?thesis
    using saved_position_is_behind_no_line_on_the_way [OF step some_start] step way s(3-5)
    by (intro exI [of _ s] exI [of _ t] exI [of _ r]) simp
qed

section \<open>A rotated file\<close>

lemma closed_commit:
  assumes "\<not> s_bPending (o_Slot s)" "ft_bRetry t" "fr_bOpened (ft_Reader t)" "ft_Generation t = fr_Generation (ft_Reader t)"
    "fr_BufferStart (ft_Reader t) < ft_EndOffset t"
  shows "CommitDeliveredFilePositions (s, t) =
    (s, t\<lparr>ft_Reader := FileReader_Log (BehindLines (ft_EndOffset t) (fr_BufferStart (ft_Reader t))) (ft_Reader t)\<rparr>)"
  using assms by (simp add: CommitDeliveredFilePositions_def Slot_Take_def Commit_def)

text \<open>A position of a rotated file which is delivered while the new file cannot be opened is refused with an error, and again in every turn of the
  thread: the file which is closed has the generation of the position, but no lines which were read.\<close>

theorem rotated_position_is_refused_every_turn:
  assumes "\<not> s_bPending (o_Slot s)" "ft_bRetry t" "ft_Reader t = CloseFile rd" "fr_bOpened rd" "ft_Generation t = fr_Generation rd" "0 < ft_EndOffset t"
  shows "fr_Log (ft_Reader (snd ((CommitDeliveredFilePositions ^^ k) (s, t)))) = fr_Log rd @ replicate k (BehindLines (ft_EndOffset t) 0)"
proof -
  define u where "u = (\<lambda>k. t\<lparr>ft_Reader := (CloseFile rd)\<lparr>fr_Log := fr_Log rd @ replicate k (BehindLines (ft_EndOffset t) 0)\<rparr>\<rparr>)"
  have rd: "fr_bOpened (CloseFile rd)" "fr_Generation (CloseFile rd) = fr_Generation rd" "fr_BufferStart (CloseFile rd) = 0" "fr_Log (CloseFile rd) = fr_Log rd"
    using assms(4) by (simp_all add: CloseFile_def ClearBuffer_def)
  have step: "CommitDeliveredFilePositions (s, u k) = (s, u (Suc k))" for k
    using closed_commit [of s "u k"] assms rd by (simp add: u_def FileReader_Log_def replicate_append_same)
  have zero: "u 0 = t"
    using rd(4) assms(3) by (simp add: u_def)
  have "(CommitDeliveredFilePositions ^^ k) (s, u 0) = (s, u k)" for k
    by (induction k) (simp_all add: step)
  then show ?thesis
    unfolding zero by (simp add: u_def)
qed

end
