(* ===== verification/Ingest.thy ===== *)
theory Ingest imports PushThread begin

text \<open>
  The socket inputs of otelfwd (\<^verbatim>\<open>otelfwd.cpp\<close>): \<^verbatim>\<open>IngestHandleLine\<close>,
  \<^verbatim>\<open>IngestProcessBuffer\<close> and the loop of \<^verbatim>\<open>IngestThread\<close>. What \<^verbatim>\<open>poll\<close>,
  \<^verbatim>\<open>recv\<close> and \<^verbatim>\<open>accept4\<close> return is the input of a turn.
\<close>

section \<open>Lines\<close>

definition OTELFWD_MAX_LINE_BYTES :: nat where
  "OTELFWD_MAX_LINE_BYTES = 1024 * 1024"

definition OTELFWD_MAX_CLIENTS_PER_INPUT :: nat where
  "OTELFWD_MAX_CLIENTS_PER_INPUT = 32"

record ingest_source =
  is_Accepted :: nat
  is_Dropped :: nat
  is_Invalid :: nat
  is_Connections :: nat
  is_Rejected :: nat

definition new_source :: ingest_source where
  "new_source = \<lparr>is_Accepted = 0, is_Dropped = 0, is_Invalid = 0, is_Connections = 0, is_Rejected = 0\<rparr>"

record ingest_client =
  ic_fd :: nat
  ic_Buffer :: string
  ic_bDiscarding :: bool

definition new_client :: "nat \<Rightarrow> ingest_client" where
  "new_client fd = \<lparr>ic_fd = fd, ic_Buffer = [], ic_bDiscarding = False\<rparr>"

definition doc_parse :: "'n outside \<Rightarrow> string \<Rightarrow> json option" where
  "doc_parse w txt = (case json_parse w txt of Inl e \<Rightarrow> None | Inr v \<Rightarrow> Some v)"

text \<open>The counters of the input and the shared state.\<close>

type_synonym 'n ingest_state = "ingest_source \<times> 'n forwarder"

definition push_record_of :: "nat \<Rightarrow> LogRecord option \<Rightarrow> 'n ingest_state \<Rightarrow> 'n ingest_state" where
  "push_record_of QueueMax Record = (\<lambda>(src, s).
     case Record of
       None \<Rightarrow> (src\<lparr>is_Invalid := is_Invalid src + 1\<rparr>, s)
     | Some r \<Rightarrow>
         (case fifo_try_push r QueueMax (o_Fifo s) of
            (True, q) \<Rightarrow> (src\<lparr>is_Accepted := is_Accepted src + 1\<rparr>, s\<lparr>o_Fifo := q\<rparr>)
          | (False, q) \<Rightarrow> (src\<lparr>is_Dropped := is_Dropped src + 1\<rparr>, s\<lparr>o_Fifo := q\<rparr>)))"

definition IngestHandleLine :: "'n outside \<Rightarrow> nat \<Rightarrow> string \<Rightarrow> 'n ingest_state \<Rightarrow> 'n ingest_state" where
  "IngestHandleLine w QueueMax Line0 = (\<lambda>(src, s).
     let Line = (if Line0 \<noteq> [] \<and> last Line0 = CR then butlast Line0 else Line0)
     in if Line = [] then (src, s)
        else case GetEpochNanoseconds w s of
          (ns, s1) \<Rightarrow> push_record_of QueueMax (DecodeFlatRecord (doc_parse w) (json_write w) Line ns) (src, s1))"

text \<open>The loop over the lines of the buffer. What is left of the buffer, and whether the next line is skipped.\<close>

function process_lines :: "(string \<Rightarrow> 'a \<Rightarrow> 'a) \<Rightarrow> string \<Rightarrow> bool \<Rightarrow> 'a \<Rightarrow> string \<times> bool \<times> 'a" where
  "process_lines handle Buffer bDiscarding st =
     (case find_index NL Buffer of
        None \<Rightarrow> (Buffer, bDiscarding, st)
      | Some Pos \<Rightarrow>
          if bDiscarding then process_lines handle (drop (Suc Pos) Buffer) False st
          else process_lines handle (drop (Suc Pos) Buffer) False (handle (take Pos Buffer) st))"
  by pat_completeness auto
termination
proof (relation "measure (\<lambda>(h, b, d, st). length b)")
  have "length Buffer - Suc Pos < length Buffer" if "find_index NL Buffer = Some Pos" for Buffer Pos
  proof -
    have "Pos < length Buffer"
      using find_index_Some_D [OF that] by blast
    then show ?thesis
      by arith
  qed
  then show "find_index NL Buffer = Some Pos \<Longrightarrow> bDiscarding \<Longrightarrow>
      ((handle, drop (Suc Pos) Buffer, False, st), handle, Buffer, bDiscarding, st) \<in> measure (\<lambda>(h, b, d, st). length b)"
    and "find_index NL Buffer = Some Pos \<Longrightarrow> \<not> bDiscarding \<Longrightarrow>
      ((handle, drop (Suc Pos) Buffer, False, handle (take Pos Buffer) st), handle, Buffer, bDiscarding, st) \<in> measure (\<lambda>(h, b, d, st). length b)"
    for handle :: "string \<Rightarrow> 'a \<Rightarrow> 'a" and Buffer bDiscarding st Pos
    by simp_all
qed simp

declare process_lines.simps [simp del]

definition count_invalid :: "'n ingest_state \<Rightarrow> 'n ingest_state" where
  "count_invalid = (\<lambda>(src, s). (src\<lparr>is_Invalid := is_Invalid src + 1\<rparr>, s))"

definition IngestProcessBuffer :: "'n outside \<Rightarrow> nat \<Rightarrow> bool \<Rightarrow> ingest_client \<times> 'n ingest_state \<Rightarrow> ingest_client \<times> 'n ingest_state" where
  "IngestProcessBuffer w QueueMax bEof = (\<lambda>(c, st).
     case process_lines (IngestHandleLine w QueueMax) (ic_Buffer c) (ic_bDiscarding c) st of
       (Buffer, bDiscarding, st1) \<Rightarrow>
         if bEof then
           (c\<lparr>ic_Buffer := [], ic_bDiscarding := bDiscarding\<rparr>,
            if \<not> bDiscarding \<and> Buffer \<noteq> [] then IngestHandleLine w QueueMax Buffer st1 else st1)
         else if bDiscarding then (c\<lparr>ic_Buffer := [], ic_bDiscarding := True\<rparr>, st1)
         else if length Buffer > OTELFWD_MAX_LINE_BYTES then (c\<lparr>ic_Buffer := [], ic_bDiscarding := True\<rparr>, count_invalid st1)
         else (c\<lparr>ic_Buffer := Buffer, ic_bDiscarding := False\<rparr>, st1))"

section \<open>Connections\<close>

text \<open>What \<^verbatim>\<open>recv\<close> gives: at most the 65536 bytes of the buffer, the end, or an error: to be tried again
  (\<^verbatim>\<open>EAGAIN\<close>, \<^verbatim>\<open>EINTR\<close>) or not.\<close>

datatype received = Received string | PeerClosed | RecvAgain | RecvFailed

text \<open>\<open>None\<close>: the connection is closed.\<close>

fun serve_client :: "'n outside \<Rightarrow> nat \<Rightarrow> received \<Rightarrow> ingest_client \<times> 'n ingest_state \<Rightarrow> ingest_client option \<times> 'n ingest_state" where
  "serve_client w m (Received chunk) (c, st) =
     (case IngestProcessBuffer w m False (c\<lparr>ic_Buffer := ic_Buffer c @ chunk\<rparr>, st) of (c1, st1) \<Rightarrow> (Some c1, st1))"
| "serve_client w m PeerClosed (c, st) = (case IngestProcessBuffer w m True (c, st) of (c1, st1) \<Rightarrow> (None, st1))"
| "serve_client w m RecvAgain (c, st) = (Some c, st)"
| "serve_client w m RecvFailed (c, st) = (None, st)"

text \<open>The clients from the last to the first. \<open>None\<close> in the list of results: there is nothing to read.\<close>

fun serve_clients :: "'n outside \<Rightarrow> nat \<Rightarrow> received option list \<Rightarrow> ingest_client list \<times> 'n ingest_state \<Rightarrow> ingest_client list \<times> 'n ingest_state" where
  "serve_clients w m (r # rs) (c # cs, st) =
     (case serve_clients w m rs (cs, st) of
        (cs1, st1) \<Rightarrow>
          (case r of
             None \<Rightarrow> (c # cs1, st1)
           | Some x \<Rightarrow> (case serve_client w m x (c, st1) of (None, st2) \<Rightarrow> (cs1, st2) | (Some c1, st2) \<Rightarrow> (c1 # cs1, st2))))"
| "serve_clients w m rs (cs, st) = (cs, st)"

text \<open>The new connections which \<^verbatim>\<open>accept4\<close> gives until it fails.\<close>

fun accept_clients :: "nat list \<Rightarrow> ingest_client list \<times> 'n ingest_state \<Rightarrow> ingest_client list \<times> 'n ingest_state" where
  "accept_clients [] x = x"
| "accept_clients (fd # fds) (cs, src, s) =
     (if length cs \<ge> OTELFWD_MAX_CLIENTS_PER_INPUT then accept_clients fds (cs, src\<lparr>is_Rejected := is_Rejected src + 1\<rparr>, s)
      else accept_clients fds (cs @ [new_client fd], src\<lparr>is_Connections := is_Connections src + 1\<rparr>, s))"

datatype polled = PollInterrupted | PollFailed string | PollTimeout | PollReady "received option list" "nat list"

text \<open>One turn of the loop: whether it goes on. The list of the results has one for each client.\<close>

fun IngestThread_turn :: "'n outside \<Rightarrow> nat \<Rightarrow> polled \<Rightarrow> ingest_client list \<times> 'n ingest_state \<Rightarrow> bool \<times> ingest_client list \<times> 'n ingest_state" where
  "IngestThread_turn w m PollInterrupted x = (True, x)"
| "IngestThread_turn w m (PollFailed err) (cs, src, s) = (False, cs, src, LogError ''poll failed'' err s)"
| "IngestThread_turn w m PollTimeout x = (True, x)"
| "IngestThread_turn w m (PollReady results accepted) x = (True, accept_clients accepted (serve_clients w m results x))"

end
