(* ===== verification/Syslog.thy ===== *)
theory Syslog imports Ingest begin

text \<open>
  The syslog input of otelfwd (\<^verbatim>\<open>otelfwd.cpp\<close>): \<^verbatim>\<open>ParseSyslogMessage\<close>,
  \<^verbatim>\<open>GetUnixNanoFromSeconds\<close>, \<^verbatim>\<open>DecodeSyslogMessage\<close> and the datagrams of \<^verbatim>\<open>SyslogThread\<close>.
\<close>

section \<open>The header\<close>

record SyslogMessage =
  sm_Pri :: int
  sm_Hostname :: string
  sm_Tag :: string
  sm_Text :: string

definition new_SyslogMessage :: SyslogMessage where
  "new_SyslogMessage = \<lparr>sm_Pri = -1, sm_Hostname = [], sm_Tag = [], sm_Text = []\<rparr>"

definition IsSyslogTag :: "string \<Rightarrow> bool" where
  "IsSyslogTag Token \<longleftrightarrow> length Token > 1 \<and> last Token = CHR '':''"

definition is_alpha :: "char \<Rightarrow> bool" where
  "is_alpha c \<longleftrightarrow> 65 \<le> (of_char c :: nat) \<and> (of_char c :: nat) \<le> 90 \<or> 97 \<le> (of_char c :: nat) \<and> (of_char c :: nat) \<le> 122"

text \<open>The text behind a time stamp of 16 characters, if there is one.\<close>

definition skip_stamp :: "string \<Rightarrow> string" where
  "skip_stamp s =
     (if length s \<ge> 16 \<and> is_alpha (s ! 0) \<and> s ! 3 = CHR '' '' \<and> s ! 9 = CHR '':'' \<and> s ! 12 = CHR '':'' \<and> s ! 15 = CHR '' '' then drop 16 s else s)"

definition strip_newlines :: "string \<Rightarrow> string" where
  "strip_newlines s = rev (dropWhile (\<lambda>c. c = NL \<or> c = CR) (rev s))"

text \<open>The text up to the first space, and what is behind the space.\<close>

definition cut_token :: "string \<Rightarrow> string \<times> string" where
  "cut_token s = (case find_index CHR '' '' s of None \<Rightarrow> (s, []) | Some Sp \<Rightarrow> (take Sp s, drop (Suc Sp) s))"

text \<open>A process id behind the tag is taken away.\<close>

definition plain_tag :: "string \<Rightarrow> string" where
  "plain_tag Tag =
     (if Tag \<noteq> [] \<and> last Tag = CHR '']'' then
        (case find_index CHR ''['' Tag of None \<Rightarrow> Tag | Some Bracket \<Rightarrow> if Bracket > 0 then take Bracket Tag else Tag)
      else Tag)"

text \<open>The parts of the text behind the time stamp: a tag, a host name and a tag, or only the message.\<close>

definition syslog_parts :: "nat \<Rightarrow> string \<Rightarrow> SyslogMessage" where
  "syslog_parts Pri Rest =
     (case cut_token Rest of (Token1, After) \<Rightarrow>
        let m = (if IsSyslogTag Token1 then new_SyslogMessage\<lparr>sm_Tag := butlast Token1, sm_Text := After\<rparr>
                 else case cut_token After of (Token2, After2) \<Rightarrow>
                   if IsSyslogTag Token2 then new_SyslogMessage\<lparr>sm_Hostname := Token1, sm_Tag := butlast Token2, sm_Text := After2\<rparr>
                   else new_SyslogMessage\<lparr>sm_Text := Rest\<rparr>)
        in m\<lparr>sm_Pri := int Pri, sm_Tag := plain_tag (sm_Tag m)\<rparr>)"

definition ParseSyslogMessage :: "string \<Rightarrow> SyslogMessage option" where
  "ParseSyslogMessage Msg =
     (if length Msg < 4 \<or> hd Msg \<noteq> CHR ''<'' then None
      else
        let ds = takeWhile is_digit (take 3 (drop 1 Msg));
            Pri = dec_value ds;
            Pos = 1 + length ds
        in if ds = [] \<or> Pos \<ge> length Msg \<or> Msg ! Pos \<noteq> CHR ''>'' \<or> Pri > 191 then None
           else
             Some (syslog_parts Pri (strip_newlines (skip_stamp (drop (Suc Pos) Msg)))))"

definition GetSyslogSeverity :: "nat \<Rightarrow> int \<times> string" where
  "GetSyslogSeverity Severity =
     (if Severity = 0 then (21, ''EMERG'') else if Severity = 1 then (21, ''ALERT'') else if Severity = 2 then (21, ''CRIT'')
      else if Severity = 3 then (17, ''ERROR'') else if Severity = 4 then (13, ''WARN'') else if Severity = 5 then (10, ''NOTICE'')
      else if Severity = 6 then (9, ''INFO'') else (5, ''DEBUG''))"

section \<open>The time\<close>

definition MaxSeconds :: nat where
  "MaxSeconds = 9000000000"

text \<open>The loop over the digits of the seconds: \<open>None\<close> if there are too many, or the number, whether there was a digit, and the rest.\<close>

fun second_digits :: "nat \<Rightarrow> bool \<Rightarrow> string \<Rightarrow> (nat \<times> bool \<times> string) option" where
  "second_digits Sec bDigits [] = Some (Sec, bDigits, [])"
| "second_digits Sec bDigits (c # cs) =
     (if is_digit c then (if Sec > MaxSeconds then None else second_digits (Sec * 10 + digit_value c) True cs)
      else Some (Sec, bDigits, c # cs))"

text \<open>The loop over the digits of the fraction, of which nine count.\<close>

fun fraction_digits :: "nat \<Rightarrow> nat \<Rightarrow> string \<Rightarrow> nat \<times> nat \<times> string" where
  "fraction_digits Frac FracDigits [] = (Frac, FracDigits, [])"
| "fraction_digits Frac FracDigits (c # cs) =
     (if is_digit c then
        (if FracDigits < 9 then fraction_digits (Frac * 10 + digit_value c) (FracDigits + 1) cs else fraction_digits Frac FracDigits cs)
      else (Frac, FracDigits, c # cs))"

definition seconds_text :: "string \<Rightarrow> nat option" where
  "seconds_text txt =
     (case second_digits 0 False txt of
        None \<Rightarrow> None
      | Some (Sec, bDigits, p) \<Rightarrow>
          if \<not> bDigits then None
          else case (if p \<noteq> [] \<and> hd p = CHR ''.'' then fraction_digits 0 0 (tl p) else (0, 0, p)) of
            (Frac, FracDigits, q) \<Rightarrow>
              if q \<noteq> [] \<or> Sec > MaxSeconds then None else Some (Sec * 1000000000 + Frac * 10 ^ (9 - FracDigits)))"

text \<open>A \<^verbatim>\<open>double\<close> by its bits, if it is finite and not negative: the value is the first number divided by two to the
  second. Infinity is read as a number above all others. The parser gives no NaN.\<close>

definition double_parts :: "64 word \<Rightarrow> nat \<times> nat" where
  "double_parts d =
     (let e = unat d div 2 ^ 52 mod 2048; m = unat d mod 2 ^ 52
      in if e = 0 then (m, 1074) else if e \<ge> 1075 then ((2 ^ 52 + m) * 2 ^ (e - 1075), 0) else (2 ^ 52 + m, 1075 - e))"

fun bit_length :: "nat \<Rightarrow> nat" where
  "bit_length n = (if n = 0 then 0 else Suc (bit_length (n div 2)))"

declare bit_length.simps [simp del]

text \<open>Rounding to the 53 bits of a \<^verbatim>\<open>double\<close>, to even in the middle.\<close>

definition round_53 :: "nat \<Rightarrow> nat" where
  "round_53 n =
     (let s = bit_length n - 53; q = n div 2 ^ s; r = n mod 2 ^ s
      in (if 2 * r > 2 ^ s \<or> 2 * r = 2 ^ s \<and> odd q then q + 1 else q) * 2 ^ s)"

definition seconds_double :: "64 word \<Rightarrow> nat option" where
  "seconds_double d =
     (case double_parts d of
        (k, t) \<Rightarrow>
          if unat d div 2 ^ 63 = 1 \<or> k = 0 \<or> k > MaxSeconds * 2 ^ t then None
          else Some (k div 2 ^ t * 1000000000 + round_53 (k mod 2 ^ t * 1000000000) div 2 ^ t))"

definition GetUnixNanoFromSeconds :: "(int \<Rightarrow> 64 word) \<Rightarrow> json \<Rightarrow> nat option" where
  "GetUnixNanoFromSeconds dbl Val =
     (case Val of
        JStr s \<Rightarrow> seconds_text (c_str s)
      | JInt n \<Rightarrow> seconds_double (dbl n)
      | JDouble d \<Rightarrow> seconds_double d
      | _ \<Rightarrow> None)"

section \<open>The record\<close>

definition GetSyslogResource :: "identity \<Rightarrow> string \<Rightarrow> OtelKV list" where
  "GetSyslogResource g Tag =
     (let Service = (case find_index CHR ''_'' Tag of None \<Rightarrow> Tag | Some i \<Rightarrow> take i Tag)
      in if Service = [] then GetDefaultResource g
         else map (\<lambda>KV. if kv_Key KV = ''service.name'' \<or> kv_Key KV = ''service.namespace'' then KV\<lparr>kv_StrValue := Service\<rparr> else KV)
                (GetDefaultResource g))"

text \<open>The attributes and the time which a JSON message carries.\<close>

definition syslog_json :: "'n outside \<Rightarrow> string \<Rightarrow> nat \<times> OtelKV list" where
  "syslog_json w txt =
     (if hd txt \<noteq> CHR ''{'' then (0, [])
      else case doc_parse w (c_str txt) of
        Some (JObj ms) \<Rightarrow>
          (case Find ''time'' (JObj ms) of
             None \<Rightarrow> 0
           | Some Val \<Rightarrow> (case GetUnixNanoFromSeconds (double_of w) Val of None \<Rightarrow> 0 | Some n \<Rightarrow> n),
           filter (\<lambda>KV. \<not> (kv_Key KV = ''time'' \<or> kv_Type KV = OTEL_TYPE_STRING \<and> kv_StrValue KV = []))
             (AddKVsFromJsonObject (json_write w) (JObj ms) []))
      | _ \<Rightarrow> (0, []))"

definition DecodeSyslogMessage :: "'n outside \<Rightarrow> identity \<Rightarrow> string \<Rightarrow> int \<Rightarrow> LogRecord option" where
  "DecodeSyslogMessage w g Datagram ArrivalNs =
     (case ParseSyslogMessage Datagram of
        None \<Rightarrow> None
      | Some Msg \<Rightarrow>
          if sm_Text Msg = [] then None
          else case (GetSyslogSeverity (nat (sm_Pri Msg) mod 8), syslog_json w (sm_Text Msg)) of
            ((SeverityNumber, SeverityText), TimeNs, Attributes) \<Rightarrow>
              Some (new_LogRecord\<lparr>lr_Source := LOG_SOURCE_SOCKET, lr_ObservedTimeNs := ArrivalNs, lr_Line := sm_Text Msg, lr_ScopeName := sm_Tag Msg,
                lr_Resource := GetSyslogResource g (sm_Tag Msg), lr_SeverityNumber := SeverityNumber, lr_SeverityText := SeverityText,
                lr_Attributes := Attributes, lr_TimeNs := (if TimeNs \<noteq> 0 then int TimeNs else ArrivalNs)\<rparr>))"

definition SyslogHandleDatagram :: "'n outside \<Rightarrow> identity \<Rightarrow> nat \<Rightarrow> string \<Rightarrow> 'n ingest_state \<Rightarrow> 'n ingest_state" where
  "SyslogHandleDatagram w g QueueMax Datagram = (\<lambda>(src, s).
     case GetEpochNanoseconds w s of
       (ns, s1) \<Rightarrow> push_record_of QueueMax (DecodeSyslogMessage w g Datagram ns) (src, s1))"

text \<open>The inner loop of \<^verbatim>\<open>SyslogThread\<close>: at most \<open>n\<close> of the datagrams which wait. One which is larger than the
  buffer of 65536 bytes is invalid, an empty one is nothing. The datagrams which still wait are returned.\<close>

fun syslog_round :: "'n outside \<Rightarrow> identity \<Rightarrow> nat \<Rightarrow> nat \<Rightarrow> string list \<Rightarrow> 'n ingest_state \<Rightarrow> string list \<times> 'n ingest_state" where
  "syslog_round w g m (Suc n) (d # ds) st =
     (if d = [] then syslog_round w g m n ds st
      else if length d > 65536 then syslog_round w g m n ds (count_invalid st)
      else syslog_round w g m n ds (SyslogHandleDatagram w g m d st))"
| "syslog_round w g m n ds st = (ds, st)"

end
