(* ===== verification/IngestTheorems.thy ===== *)
theory IngestTheorems imports Ingest FileReaderState PushTheorems begin

text \<open>
  The lines which a socket input handles do not depend on how the stream comes in pieces, and the memory for them is bounded.
\<close>

section \<open>The lines of a stream\<close>

text \<open>The reference: the stream is cut at the line ends; a last line without a line end counts if it is not empty.\<close>

definition complete :: "string \<Rightarrow> string list" where
  "complete xs = butlast (split_on NL xs)"

definition unfinished :: "string \<Rightarrow> string" where
  "unfinished xs = last (split_on NL xs)"

definition all_lines :: "string \<Rightarrow> string list" where
  "all_lines xs = complete xs @ (if unfinished xs = [] then [] else [unfinished xs])"

lemma split_on_not_Nil [simp]: "split_on c xs \<noteq> []"
  by (cases xs) (auto split: list.splits)

lemma split_on_join: "split_on c (xs @ ys) = butlast (split_on c xs) @ split_on c (last (split_on c xs) @ ys)"
proof (induction xs)
  case (Cons x xs)
  obtain z zs where s: "split_on c xs = z # zs"
    by (cases "split_on c xs") simp_all
  show ?case
  proof (cases "x = c")
    case True
    then show ?thesis
      using Cons by simp
  next
    case False
    show ?thesis
    proof (cases zs)
      case Nil
      with False Cons s show ?thesis
        by simp
    next
      case (Cons a as)
      with False Cons.IH s show ?thesis
        by simp
    qed
  qed
qed simp

lemma split_on_none: "c \<notin> set xs \<Longrightarrow> split_on c xs = [xs]"
  by (induction xs) auto

lemma unfinished_plain: "NL \<notin> set (unfinished xs)"
proof -
  have "c \<notin> set (last (split_on c ys))" for c ys
    by (induction ys) (auto split: list.splits)
  then show ?thesis
    by (simp add: unfinished_def)
qed

lemma complete_append: "complete (xs @ ys) = complete xs @ complete (unfinished xs @ ys)"
  and unfinished_append: "unfinished (xs @ ys) = unfinished (unfinished xs @ ys)"
  unfolding complete_def unfinished_def by (simp_all add: split_on_join [of NL xs ys] butlast_append)

lemma plain_lines: "NL \<notin> set xs \<Longrightarrow> complete xs = [] \<and> unfinished xs = xs"
  by (simp add: complete_def unfinished_def split_on_none)

lemma first_line:
  assumes "NL \<notin> set a"
  shows "complete (a @ NL # b) = a # complete b \<and> unfinished (a @ NL # b) = unfinished b"
  using assms by (simp add: complete_def unfinished_def split_on_append)

section \<open>The loop over the buffer\<close>

lemma process_lines_all: "process_lines h buf False st = (unfinished buf, False, fold h (complete buf) st)"
proof (induction "length buf" arbitrary: buf st rule: less_induct)
  case less
  show ?case
  proof (cases "find_index NL buf")
    case None
    then have "NL \<notin> set buf"
      by (simp add: find_index_None)
    then show ?thesis
      using None plain_lines [of buf] by (simp add: process_lines.simps [of h buf])
  next
    case (Some i)
    have b: "buf = take i buf @ NL # drop (Suc i) buf" "NL \<notin> set (take i buf)" "length (drop (Suc i) buf) < length buf"
      using find_index_split [OF Some] find_index_Some_D [OF Some] by auto
    have "complete buf = take i buf # complete (drop (Suc i) buf)" "unfinished buf = unfinished (drop (Suc i) buf)"
      using first_line [OF b(2), of "drop (Suc i) buf"] b(1) by simp_all
    then show ?thesis
      using less [OF b(3)] Some by (simp add: process_lines.simps [of h buf])
  qed
qed

lemma process_lines_skip: "NL \<notin> set a \<Longrightarrow> process_lines h (a @ NL # b) True st = (unfinished b, False, fold h (complete b) st)"
  by (subst process_lines.simps) (simp add: find_index_append process_lines_all)

lemma process_lines_none: "NL \<notin> set a \<Longrightarrow> process_lines h a d st = (a, d, st)"
  by (subst process_lines.simps) (simp add: find_index_None [THEN iffD2])

section \<open>A connection among others\<close>

text \<open>What happens in the program while there is a connection: it is served, or something else changes the counters and the shared state.\<close>

datatype 'n ingest_event = Serve received | Others "'n ingest_state \<Rightarrow> 'n ingest_state"

fun connection :: "'n outside \<Rightarrow> nat \<Rightarrow> 'n ingest_event list \<Rightarrow> ingest_client option \<times> 'n ingest_state \<Rightarrow> ingest_client option \<times> 'n ingest_state" where
  "connection w m [] x = x"
| "connection w m (Others f # es) (c, st) = connection w m es (c, f st)"
| "connection w m (Serve r # es) (None, st) = connection w m es (None, st)"
| "connection w m (Serve r # es) (Some c, st) = connection w m es (serve_client w m r (c, st))"

fun stream :: "'n ingest_event list \<Rightarrow> string" where
  "stream [] = []"
| "stream (Serve (Received x) # es) = x @ stream es"
| "stream (e # es) = stream es"

fun others :: "'n ingest_event list \<Rightarrow> ('n ingest_state \<Rightarrow> 'n ingest_state) list" where
  "others [] = []"
| "others (Others f # es) = f # others es"
| "others (e # es) = others es"

definition going_on :: "'n ingest_event list \<Rightarrow> bool" where
  "going_on es \<longleftrightarrow> Serve PeerClosed \<notin> set es \<and> Serve RecvFailed \<notin> set es"

text \<open>What is done: a line is handled, a line is skipped as too long, or something else.\<close>

datatype 'n ingest_op = Handle string | Skip | Other "'n ingest_state \<Rightarrow> 'n ingest_state"

fun apply_op :: "'n outside \<Rightarrow> nat \<Rightarrow> 'n ingest_op \<Rightarrow> 'n ingest_state \<Rightarrow> 'n ingest_state" where
  "apply_op w m (Handle l) st = IngestHandleLine w m l st"
| "apply_op w m Skip st = count_invalid st"
| "apply_op w m (Other f) st = f st"

definition line_ops :: "'n ingest_op list \<Rightarrow> 'n ingest_op list" where
  "line_ops ops = filter (\<lambda>x. case x of Other f \<Rightarrow> False | _ \<Rightarrow> True) ops"

definition other_ops :: "'n ingest_op list \<Rightarrow> ('n ingest_state \<Rightarrow> 'n ingest_state) list" where
  "other_ops ops = concat (map (\<lambda>x. case x of Other f \<Rightarrow> [f] | _ \<Rightarrow> []) ops)"

definition treats :: "'n ingest_op \<Rightarrow> string \<Rightarrow> bool" where
  "treats x l \<longleftrightarrow> x = Handle l \<or> x = Skip \<and> length l > OTELFWD_MAX_LINE_BYTES"

lemma ops_append [simp]:
  "line_ops (a @ b) = line_ops a @ line_ops b" "other_ops (a @ b) = other_ops a @ other_ops b"
  "line_ops (map Handle ls) = map Handle ls" "other_ops (map Handle ls) = []"
  "line_ops [Skip] = [Skip]" "other_ops [Skip] = []" "line_ops [Other f] = []" "other_ops [Other f] = [f]"
  by (auto simp: line_ops_def other_ops_def comp_def)

lemma fold_Handle: "fold (apply_op w m) (map Handle ls) st = fold (IngestHandleLine w m) ls st"
  by (induction ls arbitrary: st) simp_all

lemma treats_Handle: "list_all2 treats (map Handle ls) ls"
  by (induction ls) (simp_all add: treats_def)

text \<open>The invariant of a connection which has received \<open>P\<close>.\<close>

definition ingest_inv :: "'n outside \<Rightarrow> nat \<Rightarrow> string \<Rightarrow> ('n ingest_state \<Rightarrow> 'n ingest_state) list \<Rightarrow> 'n ingest_state \<Rightarrow> ingest_client \<Rightarrow> 'n ingest_state \<Rightarrow> bool" where
  "ingest_inv w m P fs st0 c st \<longleftrightarrow>
     (\<exists>ops. other_ops ops = fs \<and> st = fold (apply_op w m) ops st0 \<and>
       (if ic_bDiscarding c then ic_Buffer c = [] \<and> length (unfinished P) > OTELFWD_MAX_LINE_BYTES \<and>
          (\<exists>L. line_ops ops = L @ [Skip] \<and> list_all2 treats L (complete P))
        else ic_Buffer c = unfinished P \<and> length (ic_Buffer c) \<le> OTELFWD_MAX_LINE_BYTES \<and> list_all2 treats (line_ops ops) (complete P)))"

lemma ingest_inv_other: "ingest_inv w m P fs st0 c st \<Longrightarrow> ingest_inv w m P (fs @ [f]) st0 c (f st)"
  unfolding ingest_inv_def
proof (elim exE conjE, goal_cases)
  case (1 ops)
  then show ?case
    by (intro exI [of _ "ops @ [Other f]"]) auto
qed

lemma ingest_inv_chunk:
  assumes "ingest_inv w m P fs st0 c st" and "serve_client w m (Received x) (c, st) = (c', st')"
  shows "\<exists>c1. c' = Some c1 \<and> ingest_inv w m (P @ x) fs st0 c1 st'"
proof -
  let ?h = "IngestHandleLine w m"
  obtain ops where ops: "other_ops ops = fs" "st = fold (apply_op w m) ops st0"
    "if ic_bDiscarding c then ic_Buffer c = [] \<and> length (unfinished P) > OTELFWD_MAX_LINE_BYTES \<and>
          (\<exists>L. line_ops ops = L @ [Skip] \<and> list_all2 treats L (complete P))
        else ic_Buffer c = unfinished P \<and> length (ic_Buffer c) \<le> OTELFWD_MAX_LINE_BYTES \<and> list_all2 treats (line_ops ops) (complete P)"
    using assms(1) unfolding ingest_inv_def by blast
  define B where "B = ic_Buffer c @ x"
  have go: "\<exists>c1. c' = Some c1 \<and> ingest_inv w m (P @ x) fs st0 c1 st'"
    if pl: "process_lines ?h B (ic_bDiscarding c) st = (unfinished (P @ x), False, fold ?h ls st)"
      and all: "list_all2 treats (line_ops (ops @ map Handle ls)) (complete (P @ x))" for ls
  proof (cases "length (unfinished (P @ x)) > OTELFWD_MAX_LINE_BYTES")
    case True
    then have r: "c' = Some (c\<lparr>ic_Buffer := [], ic_bDiscarding := True\<rparr>)" "st' = count_invalid (fold ?h ls st)"
      using assms(2) pl by (simp_all add: IngestProcessBuffer_def B_def)
    have "ingest_inv w m (P @ x) fs st0 (c\<lparr>ic_Buffer := [], ic_bDiscarding := True\<rparr>) st'"
      unfolding ingest_inv_def using ops(1,2) True all r(2)
      by (intro exI [of _ "ops @ map Handle ls @ [Skip]"]) (simp add: fold_Handle)
    with r(1) show ?thesis
      by blast
  next
    case False
    then have r: "c' = Some (c\<lparr>ic_Buffer := unfinished (P @ x), ic_bDiscarding := False\<rparr>)" "st' = fold ?h ls st"
      using assms(2) pl by (simp_all add: IngestProcessBuffer_def B_def)
    have "ingest_inv w m (P @ x) fs st0 (c\<lparr>ic_Buffer := unfinished (P @ x), ic_bDiscarding := False\<rparr>) st'"
      unfolding ingest_inv_def using ops(1,2) False all r(2)
      by (intro exI [of _ "ops @ map Handle ls"]) (simp add: fold_Handle)
    with r(1) show ?thesis
      by blast
  qed
  show ?thesis
  proof (cases "ic_bDiscarding c")
    case False
    have B: "B = unfinished P @ x" and all: "list_all2 treats (line_ops ops) (complete P)"
      using ops(3) False by (simp_all add: B_def)
    show ?thesis
    proof (rule go)
      show "process_lines ?h B (ic_bDiscarding c) st = (unfinished (P @ x), False, fold ?h (complete B) st)"
        unfolding B using False by (simp add: process_lines_all unfinished_append [of P x])
      show "list_all2 treats (line_ops (ops @ map Handle (complete B))) (complete (P @ x))"
        unfolding B using all by (simp add: complete_append [of P x] list_all2_appendI treats_Handle)
    qed
  next
    case True
    then obtain L where L: "B = x" "length (unfinished P) > OTELFWD_MAX_LINE_BYTES" "line_ops ops = L @ [Skip]" "list_all2 treats L (complete P)"
      using ops(3) by (auto simp: B_def)
    show ?thesis
    proof (cases "NL \<in> set x")
      case True': True
      obtain a b where ab: "x = a @ NL # b" "NL \<notin> set a"
        using True' by (meson split_list_first)
      have ua: "NL \<notin> set (unfinished P @ a)"
        using unfinished_plain [of P] ab(2) by simp
      have cu: "complete (P @ x) = complete P @ (unfinished P @ a) # complete b" "unfinished (P @ x) = unfinished b"
        using first_line [OF ua, of b] by (simp_all add: ab(1) complete_append [of P] unfinished_append [of P])
      show ?thesis
      proof (rule go)
        show "process_lines ?h B (ic_bDiscarding c) st = (unfinished (P @ x), False, fold ?h (complete b) st)"
          using process_lines_skip [OF ab(2), of ?h b st] True unfolding L(1) cu(2) by (simp add: ab(1))
        have "treats Skip (unfinished P @ a)"
          using L(2) by (simp add: treats_def)
        then have "list_all2 treats ([Skip] @ map Handle (complete b)) ([unfinished P @ a] @ complete b)"
          by (simp add: treats_Handle)
        from list_all2_appendI [OF L(4) this]
        show "list_all2 treats (line_ops (ops @ map Handle (complete b))) (complete (P @ x))"
          by (simp add: cu L(3))
      qed
    next
      case False
      have ua: "NL \<notin> set (unfinished P @ x)"
        using unfinished_plain [of P] False by simp
      have r: "c' = Some (c\<lparr>ic_Buffer := [], ic_bDiscarding := True\<rparr>)" "st' = st"
        using assms(2) process_lines_none [OF False, of ?h] True by (simp_all add: IngestProcessBuffer_def B_def [symmetric] L(1))
      have "complete (P @ x) = complete P" "unfinished (P @ x) = unfinished P @ x"
        using plain_lines [OF ua] by (simp_all add: complete_append [of P] unfinished_append [of P])
      then have "ingest_inv w m (P @ x) fs st0 (c\<lparr>ic_Buffer := [], ic_bDiscarding := True\<rparr>) st'"
        unfolding ingest_inv_def using ops(1,2) L r(2) by (intro exI [of _ ops]) auto
      with r(1) show ?thesis
        by blast
    qed
  qed
qed

lemma ingest_inv_end:
  assumes "ingest_inv w m P fs st0 c st" and "serve_client w m PeerClosed (c, st) = (c', st')"
  shows "c' = None \<and> (\<exists>ops. other_ops ops = fs \<and> st' = fold (apply_op w m) ops st0 \<and> list_all2 treats (line_ops ops) (all_lines P))"
proof -
  let ?h = "IngestHandleLine w m"
  obtain ops where ops: "other_ops ops = fs" "st = fold (apply_op w m) ops st0"
    "if ic_bDiscarding c then ic_Buffer c = [] \<and> length (unfinished P) > OTELFWD_MAX_LINE_BYTES \<and>
          (\<exists>L. line_ops ops = L @ [Skip] \<and> list_all2 treats L (complete P))
        else ic_Buffer c = unfinished P \<and> length (ic_Buffer c) \<le> OTELFWD_MAX_LINE_BYTES \<and> list_all2 treats (line_ops ops) (complete P)"
    using assms(1) unfolding ingest_inv_def by blast
  have "NL \<notin> set (ic_Buffer c)"
    using ops(3) unfinished_plain [of P] by (auto split: if_splits)
  note pl = process_lines_none [OF this, of ?h "ic_bDiscarding c" st]
  show ?thesis
  proof (cases "ic_bDiscarding c")
    case True
    then obtain L where L: "length (unfinished P) > OTELFWD_MAX_LINE_BYTES" "line_ops ops = L @ [Skip]" "list_all2 treats L (complete P)"
      using ops(3) by auto
    then have "list_all2 treats (line_ops ops) (all_lines P)"
      by (auto simp: all_lines_def treats_def intro!: list_all2_appendI)
    moreover have "c' = None" "st' = st"
      using assms(2) pl True by (simp_all add: IngestProcessBuffer_def)
    ultimately show ?thesis
      using ops(1,2) by blast
  next
    case False
    then have b: "ic_Buffer c = unfinished P" "list_all2 treats (line_ops ops) (complete P)"
      using ops(3) by auto
    define more_ops :: "'a ingest_op list" where "more_ops = map Handle (if unfinished P = [] then [] else [unfinished P])"
    have "c' = None" "st' = fold (apply_op w m) (ops @ more_ops) st0"
      using assms(2) pl False b(1) ops(2) by (auto simp: IngestProcessBuffer_def more_ops_def)
    moreover have "list_all2 treats (line_ops (ops @ more_ops)) (all_lines P)"
      unfolding all_lines_def more_ops_def ops_append by (rule list_all2_appendI [OF b(2) treats_Handle])
    moreover have "other_ops (ops @ more_ops) = fs"
      using ops(1) by (simp only: more_ops_def ops_append append_Nil2)
    ultimately show ?thesis
      by blast
  qed
qed

lemma connection_inv:
  assumes "going_on es" and "ingest_inv w m P fs st0 c st"
  shows "\<exists>c1 st1. connection w m es (Some c, st) = (Some c1, st1) \<and> ingest_inv w m (P @ stream es) (fs @ others es) st0 c1 st1"
  using assms
proof (induction es arbitrary: P fs c st)
  case (Cons e es)
  have g: "going_on es" "e \<noteq> Serve PeerClosed" "e \<noteq> Serve RecvFailed"
    using Cons.prems(1) by (auto simp: going_on_def)
  consider (others) f where "e = Others f" | (chunk) x where "e = Serve (Received x)" | (again) "e = Serve RecvAgain"
    using g(2,3) by (metis ingest_event.exhaust received.exhaust)
  then show ?case
  proof cases
    case (others f)
    then show ?thesis
      using Cons.IH [OF g(1) ingest_inv_other [OF Cons.prems(2), of f]] by simp
  next
    case (chunk x)
    obtain c' st' where s: "serve_client w m (Received x) (c, st) = (c', st')" by (metis surj_pair)
    from ingest_inv_chunk [OF Cons.prems(2) s] obtain c1 where c1: "c' = Some c1" "ingest_inv w m (P @ x) fs st0 c1 st'"
      by blast
    show ?thesis
      using Cons.IH [OF g(1) c1(2)] chunk s c1(1) by simp
  next
    case again
    then show ?thesis
      using Cons.IH [OF g(1) Cons.prems(2)] by simp
  qed
qed simp

text \<open>C21. How the stream of a sender is cut into pieces does not matter: when the sender has closed the connection, its lines were handled whole, each
  once and in order, among what the other clients and threads did, and a line which was skipped instead (counted as invalid) was longer than the
  limit. So a stream of lines within the limit is handled the same however it comes, and no part of a line is ever taken for a line.\<close>

theorem ingest_does_not_depend_on_the_pieces:
  assumes "going_on es"
  shows "\<exists>ops st'. connection w m (es @ [Serve PeerClosed]) (Some (new_client fd), st) = (None, st') \<and>
    st' = fold (apply_op w m) ops st \<and> other_ops ops = others es \<and>
    list_all2 (\<lambda>x l. x = Handle l \<or> x = Skip \<and> length l > OTELFWD_MAX_LINE_BYTES) (line_ops ops) (all_lines (stream es))"
proof -
  have t: "(\<lambda>x l. x = Handle l \<or> x = Skip \<and> length l > OTELFWD_MAX_LINE_BYTES) = treats"
    by (intro ext) (simp add: treats_def)
  have "ingest_inv w m [] [] st (new_client fd) st"
    unfolding ingest_inv_def by (intro exI [of _ "[]"]) (simp add: new_client_def unfinished_def complete_def other_ops_def line_ops_def)
  from connection_inv [OF assms this] obtain c1 st1 where c1: "connection w m es (Some (new_client fd), st) = (Some c1, st1)"
    "ingest_inv w m (stream es) (others es) st c1 st1"
    by auto
  obtain c' st' where e: "serve_client w m PeerClosed (c1, st1) = (c', st')" by (metis surj_pair)
  have app: "connection w m (a @ b) x = connection w m b (connection w m a x)" for a b x
    by (induction w m a x rule: connection.induct) simp_all
  note E = ingest_inv_end [OF c1(2) e]
  have "connection w m (es @ [Serve PeerClosed]) (Some (new_client fd), st) = (None, st')"
    unfolding app c1(1) using e E by simp
  then show ?thesis
    using E unfolding t by blast
qed

theorem ingest_does_not_depend_on_the_pieces_witness:
  "\<exists>ops st'. connection some_outside 9 ([Serve (Received (''ab'' @ [NL, CHR ''c''])), Others id, Serve RecvAgain, Serve (Received ''d'')] @ [Serve PeerClosed])
      (Some (new_client 5), new_source, some_forwarder) = (None, st') \<and>
    st' = fold (apply_op some_outside 9) ops (new_source, some_forwarder) \<and> other_ops ops = [id] \<and> line_ops ops = [Handle ''ab'', Handle ''cd'']"
proof -
  let ?es = "[Serve (Received (''ab'' @ [NL, CHR ''c''])), Others id, Serve RecvAgain, Serve (Received ''d'')]"
  obtain ops :: "unit ingest_op list" and st' where r: "connection some_outside 9 (?es @ [Serve PeerClosed]) (Some (new_client 5), new_source, some_forwarder) = (None, st')"
    "st' = fold (apply_op some_outside 9) ops (new_source, some_forwarder)" "other_ops ops = others ?es"
    "list_all2 (\<lambda>x l. x = Handle l \<or> x = Skip \<and> length l > OTELFWD_MAX_LINE_BYTES) (line_ops ops) (all_lines (stream ?es))"
    using ingest_does_not_depend_on_the_pieces [of ?es some_outside 9 5 "(new_source, some_forwarder)"] by (auto simp: going_on_def)
  have "all_lines (stream ?es) = [''ab'', ''cd'']"
    by (simp add: all_lines_def complete_def unfinished_def)
  then have "line_ops ops = [Handle ''ab'', Handle ''cd'']"
    using r(4) by (auto simp: OTELFWD_MAX_LINE_BYTES_def list_all2_Cons2)
  then show ?thesis
    using r(1-3) by auto
qed

section \<open>The memory of an input\<close>

definition within_limits :: "ingest_client list \<Rightarrow> bool" where
  "within_limits cs \<longleftrightarrow> length cs \<le> OTELFWD_MAX_CLIENTS_PER_INPUT \<and> list_all (\<lambda>c. length (ic_Buffer c) \<le> OTELFWD_MAX_LINE_BYTES) cs"

lemma IngestProcessBuffer_limit:
  "IngestProcessBuffer w m bEof (c, st) = (c', st') \<Longrightarrow> length (ic_Buffer c') \<le> OTELFWD_MAX_LINE_BYTES"
  by (auto simp: IngestProcessBuffer_def split: prod.splits if_splits)

lemma serve_client_limit:
  "serve_client w m r (c, st) = (Some c', st') \<Longrightarrow> length (ic_Buffer c) \<le> OTELFWD_MAX_LINE_BYTES \<Longrightarrow> length (ic_Buffer c') \<le> OTELFWD_MAX_LINE_BYTES"
  by (cases r) (auto split: prod.splits dest: IngestProcessBuffer_limit)

lemma serve_clients_limit:
  "serve_clients w m rs (cs, st) = (cs', st') \<Longrightarrow> list_all (\<lambda>c. length (ic_Buffer c) \<le> OTELFWD_MAX_LINE_BYTES) cs \<Longrightarrow>
    length cs' \<le> length cs \<and> list_all (\<lambda>c. length (ic_Buffer c) \<le> OTELFWD_MAX_LINE_BYTES) cs'"
proof (induction rs arbitrary: cs cs' st st')
  case (Cons r rs)
  show ?case
  proof (cases cs)
    case (Cons c cs0)
    obtain cs1 st1 where s: "serve_clients w m rs (cs0, st) = (cs1, st1)" by (metis surj_pair)
    have L: "length cs1 \<le> length cs0" "list_all (\<lambda>c. length (ic_Buffer c) \<le> OTELFWD_MAX_LINE_BYTES) cs1" "length (ic_Buffer c) \<le> OTELFWD_MAX_LINE_BYTES"
      using Cons.IH [OF s] Cons.prems(2) Cons by simp_all
    show ?thesis
    proof (cases r)
      case None
      then show ?thesis
        using Cons.prems(1) Cons s L by auto
    next
      case (Some x)
      obtain c1 st2 where x: "serve_client w m x (c, st1) = (c1, st2)" by (metis surj_pair)
      show ?thesis
        using Cons.prems(1) Cons s L Some x serve_client_limit [of w m x c st1 _ st2] by (cases c1) auto
    qed
  qed (use Cons.prems in auto)
qed auto

lemma accept_clients_limit: "accept_clients fds (cs, src, s) = (cs', st') \<Longrightarrow> within_limits cs \<Longrightarrow> within_limits cs'"
proof (induction fds arbitrary: cs src)
  case (Cons fd fds)
  show ?case
  proof (cases "length cs \<ge> OTELFWD_MAX_CLIENTS_PER_INPUT")
    case True
    then show ?thesis
      using Cons by simp
  next
    case False
    then have "within_limits (cs @ [new_client fd])"
      using Cons.prems(2) by (simp add: within_limits_def new_client_def)
    then show ?thesis
      using Cons.IH [of "cs @ [new_client fd]"] Cons.prems(1) False by simp
  qed
qed simp

text \<open>C22. Whatever is sent to an input and by how many senders: after each turn it holds at most 32 connections, and at most 1 MiB of each.\<close>

theorem ingest_memory_is_bounded:
  assumes "within_limits cs" and "IngestThread_turn w m p (cs, st) = (go, cs', st')"
  shows "length cs' \<le> 32 \<and> (\<forall>c \<in> set cs'. length (ic_Buffer c) \<le> 1024 * 1024) \<and> within_limits cs'"
proof -
  obtain src s where st: "st = (src, s)"
    by (cases st)
  have "within_limits cs'"
  proof (cases p)
    case (PollReady rs fds)
    obtain cs1 src1 s1 where s1: "serve_clients w m rs (cs, st) = (cs1, src1, s1)" by (metis surj_pair)
    have "within_limits cs1"
      using serve_clients_limit [OF s1] assms(1) by (simp add: within_limits_def)
    then show ?thesis
      using accept_clients_limit [of fds cs1 src1 s1 cs' st'] assms(2) PollReady s1 by simp
  qed (use assms st in auto)
  then show ?thesis
    by (auto simp: within_limits_def OTELFWD_MAX_CLIENTS_PER_INPUT_def OTELFWD_MAX_LINE_BYTES_def list_all_iff)
qed

theorem ingest_memory_is_bounded_witness:
  "\<exists>cs st'. IngestThread_turn some_outside 9 (PollReady [] [3, 4]) ([], new_source, some_forwarder) = (True, cs, st') \<and> length cs = 2 \<and> length cs \<le> 32"
proof -
  have t: "IngestThread_turn some_outside 9 (PollReady [] [3, 4]) ([], new_source, some_forwarder) =
      (True, [new_client 3, new_client 4], new_source\<lparr>is_Connections := 2\<rparr>, some_forwarder)"
    by (simp add: OTELFWD_MAX_CLIENTS_PER_INPUT_def new_source_def)
  have "within_limits []"
    by (simp add: within_limits_def)
  from ingest_memory_is_bounded [OF this t] show ?thesis
    unfolding t by simp
qed

end
