(* ===== verification/SyslogTheorems.thy ===== *)
theory SyslogTheorems imports Syslog IngestTheorems OtelRecordTheorems begin

text \<open>
  The syslog input: the header of a message is read back, the decimal time is exact, and what is decoded can be sent.
\<close>

section \<open>The time in seconds\<close>

lemma leading_digits:
  shows "s = takeWhile is_digit s @ dropWhile is_digit s" "list_all is_digit (takeWhile is_digit s)"
    "dropWhile is_digit s = [] \<or> \<not> is_digit (hd (dropWhile is_digit s))"
proof -
  show "s = takeWhile is_digit s @ dropWhile is_digit s"
    by (rule takeWhile_dropWhile_id [symmetric])
  show "list_all is_digit (takeWhile is_digit s)"
    unfolding list_all_iff by (meson set_takeWhileD)
  show "dropWhile is_digit s = [] \<or> \<not> is_digit (hd (dropWhile is_digit s))"
    by (meson hd_dropWhile)
qed

lemma dec_fold: "fold (\<lambda>c n. n * 10 + digit_value c) ds v = v * 10 ^ length ds + dec_value ds"
proof (induction ds arbitrary: v)
  case (Cons d ds)
  have "dec_value (d # ds) = fold (\<lambda>c n. n * 10 + digit_value c) ds (digit_value d)"
    by (simp add: dec_value_def)
  then have one: "dec_value (d # ds) = digit_value d * 10 ^ length ds + dec_value ds"
    unfolding Cons .
  have "fold (\<lambda>c n. n * 10 + digit_value c) (d # ds) v = fold (\<lambda>c n. n * 10 + digit_value c) ds (v * 10 + digit_value d)"
    by simp
  also have "\<dots> = (v * 10 + digit_value d) * 10 ^ length ds + dec_value ds"
    by (rule Cons)
  finally show ?case
    unfolding one by (simp add: algebra_simps)
qed (simp add: dec_value_def)

lemma dec_value_append: "dec_value (xs @ ys) = dec_value xs * 10 ^ length ys + dec_value ys"
proof -
  have "dec_value (xs @ ys) = fold (\<lambda>c n. n * 10 + digit_value c) ys (dec_value xs)"
    by (simp add: dec_value_def)
  then show ?thesis
    by (simp only: dec_fold)
qed

lemma dec_value_zeros: "dec_value (replicate n CHR ''0'') = 0"
  by (induction n) (simp_all add: dec_value_def digit_value_def)

lemma second_digits_result:
  assumes "list_all is_digit ds" and "rest = [] \<or> \<not> is_digit (hd rest)"
  shows "second_digits v b (ds @ rest) = Some (v * 10 ^ length ds + dec_value ds, b \<or> ds \<noteq> [], rest) \<or>
    second_digits v b (ds @ rest) = None \<and> v * 10 ^ length ds + dec_value ds > MaxSeconds"
  using assms(1)
proof (induction ds arbitrary: v b)
  case Nil
  then show ?case
    using assms(2) by (cases rest) (simp_all add: dec_value_def)
next
  case (Cons d ds)
  have e: "v * 10 ^ length (d # ds) + dec_value (d # ds) = (v * 10 + digit_value d) * 10 ^ length ds + dec_value ds"
    using dec_fold [of "d # ds" v] dec_fold [of ds "v * 10 + digit_value d"] by simp
  show ?case
  proof (cases "v > MaxSeconds")
    case True
    have "v * 1 \<le> v * 10 ^ length (d # ds)"
      by (intro mult_le_mono2) simp
    then have "v * 10 ^ length (d # ds) + dec_value (d # ds) > MaxSeconds"
      using True by linarith
    then show ?thesis
      using True Cons.prems by simp
  next
    case False
    then show ?thesis
      using Cons.IH [of "v * 10 + digit_value d" True] Cons.prems unfolding e by simp
  qed
qed

lemma fraction_digits_result:
  assumes "list_all is_digit fs" and "rest = [] \<or> \<not> is_digit (hd rest)" and "n \<le> 9"
  shows "fraction_digits v n (fs @ rest) =
    (v * 10 ^ min (9 - n) (length fs) + dec_value (take (9 - n) fs), n + min (9 - n) (length fs), rest)"
  using assms(1,3)
proof (induction fs arbitrary: v n)
  case Nil
  then show ?case
    using assms(2) by (cases rest) (simp_all add: dec_value_def)
next
  case (Cons d fs)
  show ?case
  proof (cases "n < 9")
    case True
    then obtain k where k: "9 - n = Suc k" "9 - Suc n = k"
      by (cases "9 - n") simp_all
    have e: "dec_value (d # take k fs) = digit_value d * 10 ^ min k (length fs) + dec_value (take k fs)"
      using dec_value_append [of "[d]" "take k fs"] by (simp add: dec_value_def [of "[d]"] min.commute)
    show ?thesis
      using Cons.IH [of "Suc n" "v * 10 + digit_value d"] Cons.prems True k e by (simp add: algebra_simps)
  next
    case False
    then show ?thesis
      using Cons.IH [of n v] Cons.prems by (simp add: dec_value_def)
  qed
qed

lemma padded_fraction: "dec_value (take 9 fs) * 10 ^ (9 - min 9 (length fs)) = dec_value (take 9 (fs @ replicate 9 CHR ''0''))"
proof -
  have "take 9 (fs @ replicate 9 CHR ''0'') = take 9 fs @ replicate (9 - length fs) CHR ''0''"
    by (simp add: min_def)
  moreover have "9 - min 9 (length fs) = 9 - length fs"
    by simp
  ultimately show ?thesis
    by (simp only: dec_value_append dec_value_zeros length_replicate add_0_right)
qed

lemma seconds_text_exact:
  "seconds_text s =
    (let ds = takeWhile is_digit s; rest = dropWhile is_digit s in
     if ds = [] \<or> dec_value ds > 9000000000 \<or> \<not> (rest = [] \<or> hd rest = CHR ''.'' \<and> list_all is_digit (tl rest)) then None
     else Some (dec_value ds * 10 ^ 9 + dec_value (take 9 (tl rest @ replicate 9 CHR ''0''))))"
proof -
  define ds rest where d: "ds = takeWhile is_digit s" "rest = dropWhile is_digit s"
  have s: "s = ds @ rest" "list_all is_digit ds" "rest = [] \<or> \<not> is_digit (hd rest)"
    unfolding d by (rule leading_digits)+
  define fs more_text where f: "fs = takeWhile is_digit (tl rest)" "more_text = dropWhile is_digit (tl rest)"
  have t: "tl rest = fs @ more_text" "list_all is_digit fs" "more_text = [] \<or> \<not> is_digit (hd more_text)"
    unfolding f by (rule leading_digits)+
  have all: "list_all is_digit (tl rest) \<longleftrightarrow> more_text = []"
  proof
    assume "list_all is_digit (tl rest)"
    then show "more_text = []"
      using t by (cases more_text) auto
  qed (use t in simp)
  have frac: "fraction_digits 0 0 (tl rest) = (dec_value (take 9 fs), min 9 (length fs), more_text)"
    using fraction_digits_result [OF t(2,3), of 0 0] t(1) by simp
  have pad: "dec_value (take 9 fs) * 10 ^ (9 - min 9 (length fs)) = dec_value (take 9 (fs @ replicate 9 CHR ''0''))"
    by (rule padded_fraction)
  have "seconds_text s = (if ds = [] \<or> dec_value ds > 9000000000 \<or> \<not> (rest = [] \<or> hd rest = CHR ''.'' \<and> list_all is_digit (tl rest)) then None
     else Some (dec_value ds * 10 ^ 9 + dec_value (take 9 (tl rest @ replicate 9 CHR ''0''))))"
  proof (cases "second_digits 0 False s")
    case None
    then show ?thesis
      using second_digits_result [OF s(2,3), of 0 False] s(1) by (simp add: seconds_text_def MaxSeconds_def)
  next
    case (Some r)
    then have r: "second_digits 0 False s = Some (dec_value ds, ds \<noteq> [], rest)"
      using second_digits_result [OF s(2,3), of 0 False] s(1) by auto
    consider (whole) "rest = []" | (point) "rest \<noteq> []" "hd rest = CHR ''.''" | (bad) "rest \<noteq> []" "hd rest \<noteq> CHR ''.''"
      by blast
    then show ?thesis
    proof cases
      case whole
      then show ?thesis
        using r dec_value_zeros [of 9] by (simp add: seconds_text_def MaxSeconds_def)
    next
      case point
      show ?thesis
      proof (cases "more_text = []")
        case True
        then have "tl rest = fs"
          using t(1) by simp
        then show ?thesis
          using r point frac True all pad by (simp add: seconds_text_def MaxSeconds_def del: take_append)
      next
        case False
        then show ?thesis
          using r point frac all by (simp add: seconds_text_def)
      qed
    next
      case bad
      then show ?thesis
        using r by (simp add: seconds_text_def)
    qed
  qed
  then show ?thesis
    by (simp only: Let_def d)
qed



lemma dec_value_bound: "list_all is_digit ds \<Longrightarrow> dec_value ds < 10 ^ length ds"
proof (induction ds)
  case (Cons d ds)
  have "dec_value (d # ds) = digit_value d * 10 ^ length ds + dec_value ds"
    using dec_value_append [of "[d]" ds] by (simp add: dec_value_def [of "[d]"])
  moreover have "digit_value d \<le> 9"
    using Cons.prems by (auto simp: is_digit_def digit_value_def)
  then have "digit_value d * 10 ^ length ds \<le> 9 * 10 ^ length ds"
    by (rule mult_le_mono1)
  moreover have "dec_value ds < 10 ^ length ds"
    using Cons by simp
  moreover have "(10 :: nat) ^ length (d # ds) = 9 * 10 ^ length ds + 10 ^ length ds"
    by simp
  ultimately show ?case
    by linarith
qed (simp add: dec_value_def)

section \<open>The header\<close>

lemma cut_token_at: "CHR '' '' \<notin> set a \<Longrightarrow> cut_token (a @ CHR '' '' # b) = (a, b)"
  by (simp add: cut_token_def find_index_append)

lemma strip_newlines_append:
  assumes "set ends \<subseteq> {NL, CR}" and "s \<noteq> []" and "last s \<noteq> NL" and "last s \<noteq> CR"
  shows "strip_newlines (s @ ends) = s"
proof -
  have e: "dropWhile (\<lambda>c. c = NL \<or> c = CR) (rev ends @ rev s) = dropWhile (\<lambda>c. c = NL \<or> c = CR) (rev s)"
    by (rule dropWhile_append2) (use assms(1) in auto)
  obtain c t where "rev s = c # t" "c = last s"
    using assms(2) by (metis hd_rev list.exhaust_sel rev_is_Nil_conv)
  then have "dropWhile (\<lambda>c. c = NL \<or> c = CR) (rev s) = rev s"
    using assms(3,4) by (simp only: dropWhile.simps) simp
  then show ?thesis
    unfolding strip_newlines_def rev_append e by simp
qed

definition syslog_stamp :: "string \<Rightarrow> bool" where
  "syslog_stamp s \<longleftrightarrow> length s = 16 \<and> is_alpha (s ! 0) \<and> s ! 3 = CHR '' '' \<and> s ! 9 = CHR '':'' \<and> s ! 12 = CHR '':'' \<and> s ! 15 = CHR '' ''"

lemma skip_stamp_append: "syslog_stamp s \<Longrightarrow> skip_stamp (s @ t) = t"
  by (simp add: syslog_stamp_def skip_stamp_def nth_append)

lemma pri_digits:
  assumes "pri < 1000"
  shows "takeWhile is_digit (take 3 (dec_text pri @ CHR ''>'' # t)) = dec_text pri"
proof -
  have "length (dec_text pri) \<le> 3"
    using length_dec_text [of pri 2] assms by simp
  then have e: "take 3 (dec_text pri @ CHR ''>'' # t) = dec_text pri @ take (3 - length (dec_text pri)) (CHR ''>'' # t)"
    by simp
  have n: "takeWhile is_digit (take k (CHR ''>'' # t)) = []" for k
    by (cases k) (simp_all add: is_digit_def)
  have "takeWhile is_digit (dec_text pri @ u) = dec_text pri @ takeWhile is_digit u" for u
    by (rule takeWhile_append2) (use dec_text_digits [of pri] in \<open>simp add: list_all_iff\<close>)
  then show ?thesis
    unfolding e n by (simp only: n append_Nil2)
qed

lemma parse_header:
  assumes "pri \<le> 191" and "syslog_stamp stamp" and "rest \<noteq> []" and "last rest \<noteq> NL" and "last rest \<noteq> CR" and "set ends \<subseteq> {NL, CR}"
  shows "ParseSyslogMessage (CHR ''<'' # dec_text pri @ CHR ''>'' # stamp @ rest @ ends) =
    Some (syslog_parts pri rest)"
proof -
  let ?Msg = "CHR ''<'' # dec_text pri @ CHR ''>'' # stamp @ rest @ ends"
  have ds: "takeWhile is_digit (take 3 (drop 1 ?Msg)) = dec_text pri"
    using pri_digits [of pri "stamp @ rest @ ends"] assms(1) by simp
  have l: "\<not> (length ?Msg < 4 \<or> hd ?Msg \<noteq> CHR ''<'')"
    using assms(2) by (simp add: syslog_stamp_def)
  have nth: "?Msg ! (1 + length (dec_text pri)) = CHR ''>''" "1 + length (dec_text pri) < length ?Msg"
    by (simp_all add: nth_append)
  have ok: "\<not> (dec_text pri = [] \<or> 1 + length (dec_text pri) \<ge> length ?Msg \<or> ?Msg ! (1 + length (dec_text pri)) \<noteq> CHR ''>'' \<or> dec_value (dec_text pri) > 191)"
    using nth assms(1) by (simp add: dec_value_dec_text)
  have r: "strip_newlines (skip_stamp (drop (Suc (1 + length (dec_text pri))) ?Msg)) = rest"
    using skip_stamp_append [OF assms(2)] strip_newlines_append [OF assms(6,3,4,5)] by simp
  show ?thesis
    unfolding ParseSyslogMessage_def Let_def ds using l ok r by (simp only: if_False dec_value_dec_text)
qed

lemma plain_tag_pid:
  assumes "tag \<noteq> []" and "CHR ''['' \<notin> set tag" and "last tag \<noteq> CHR '']''"
  shows "plain_tag tag = tag" and "plain_tag (tag @ CHR ''['' # p @ '']'') = tag"
  using assms find_index_append [OF assms(2), of "p @ '']''"] by (simp_all add: plain_tag_def)

text \<open>C24. A message in the form of RFC 3164, as NGINX sends it, is read back: the priority, the host name if there is one, the tag without its process
  id, and the body without the line ends behind it.\<close>

theorem syslog_message_reads_back:
  fixes host pid :: "string option"
  assumes "pri \<le> 191" and "syslog_stamp stamp" and "\<forall>h. host = Some h \<longrightarrow> CHR '' '' \<notin> set h \<and> \<not> IsSyslogTag h"
    and "tag \<noteq> []" and "CHR '' '' \<notin> set tag" and "CHR ''['' \<notin> set tag" and "last tag \<noteq> CHR '']''" and "\<forall>p. pid = Some p \<longrightarrow> CHR '' '' \<notin> set p"
    and "body = [] \<or> last body \<noteq> NL \<and> last body \<noteq> CR" and "set ends \<subseteq> {NL, CR}"
  shows "ParseSyslogMessage (''<'' @ dec_text pri @ ''>'' @ stamp @ (case host of None \<Rightarrow> [] | Some h \<Rightarrow> h @ '' '') @
      tag @ (case pid of None \<Rightarrow> [] | Some p \<Rightarrow> ''['' @ p @ '']'') @ '': '' @ body @ ends) =
    Some \<lparr>sm_Pri = int pri, sm_Hostname = (case host of None \<Rightarrow> [] | Some h \<Rightarrow> h), sm_Tag = tag, sm_Text = body\<rparr>"
proof -
  define full where "full = tag @ (case pid of None \<Rightarrow> [] | Some p \<Rightarrow> ''['' @ p @ '']'')"
  define rest where "rest = (case host of None \<Rightarrow> [] | Some h \<Rightarrow> h @ '' '') @ (full @ '':'') @ CHR '' '' # body"
  have full: "CHR '' '' \<notin> set (full @ '':'')" "IsSyslogTag (full @ '':'')" "plain_tag full = tag"
    using assms(4-8) plain_tag_pid [OF assms(4,6,7)] by (auto simp: full_def IsSyslogTag_def split: option.splits)
  have rest: "rest \<noteq> []" "last rest \<noteq> NL" "last rest \<noteq> CR"
    using assms(9) by (auto simp: rest_def last_append split: option.splits if_splits)
  have msg: "''<'' @ dec_text pri @ ''>'' @ stamp @ (case host of None \<Rightarrow> [] | Some h \<Rightarrow> h @ '' '') @
      tag @ (case pid of None \<Rightarrow> [] | Some p \<Rightarrow> ''['' @ p @ '']'') @ '': '' @ body @ ends =
    CHR ''<'' # dec_text pri @ CHR ''>'' # stamp @ rest @ ends"
    by (simp add: rest_def full_def)
  note parse = parse_header [OF assms(1,2) rest assms(10)]
  show ?thesis
  proof (cases host)
    case None
    then have c: "cut_token rest = (full @ '':'', body)"
      using cut_token_at [OF full(1), of body] by (simp add: rest_def)
    show ?thesis
      unfolding msg parse syslog_parts_def c prod.case using None full by (simp add: new_SyslogMessage_def Let_def)
  next
    case (Some h)
    then have h: "CHR '' '' \<notin> set h" "\<not> IsSyslogTag h"
      using assms(3) by simp_all
    have c: "cut_token rest = (h, (full @ '':'') @ CHR '' '' # body)" "cut_token ((full @ '':'') @ CHR '' '' # body) = (full @ '':'', body)"
      using cut_token_at [OF h(1)] cut_token_at [OF full(1)] Some by (simp_all add: rest_def)
    show ?thesis
      unfolding msg parse syslog_parts_def c prod.case using Some h full by (simp add: new_SyslogMessage_def Let_def)
  qed
qed

theorem syslog_message_reads_back_witness:
  "ParseSyslogMessage (''<'' @ dec_text 190 @ ''>'' @ ''Mar 27 12:00:00 '' @ (case Some ''web1'' of None \<Rightarrow> [] | Some h \<Rightarrow> h @ '' '') @
      ''nginx'' @ (case Some ''77'' of None \<Rightarrow> [] | Some p \<Rightarrow> ''['' @ p @ '']'') @ '': '' @ ''GET /'' @ [NL]) =
    Some \<lparr>sm_Pri = 190, sm_Hostname = ''web1'', sm_Tag = ''nginx'', sm_Text = ''GET /''\<rparr>"
proof -
  have stamp: "syslog_stamp ''Mar 27 12:00:00 ''"
    by (simp add: syslog_stamp_def is_alpha_def)
  show ?thesis
    using syslog_message_reads_back [OF _ stamp, of 190 "Some ''web1''" "''nginx''" "Some ''77''" "''GET /''" "[NL]"] by (simp add: IsSyslogTag_def)
qed

section \<open>The record\<close>

lemma bit_length_bound: "0 < n \<Longrightarrow> 2 ^ (bit_length n - 1) \<le> n"
proof (induction n rule: bit_length.induct)
  case (1 n)
  show ?case
  proof (cases "n = 1")
    case True
    then show ?thesis
      by (simp add: bit_length.simps [of "Suc 0"] bit_length.simps [of 0])
  next
    case False
    with "1.prems" have h: "0 < n div 2" "n \<noteq> 0"
      by linarith+
    have b: "bit_length n = Suc (bit_length (n div 2))" "0 < bit_length (n div 2)"
      using h bit_length.simps [of n] bit_length.simps [of "n div 2"] by simp_all
    have "2 ^ (bit_length n - 1) = 2 * (2 :: nat) ^ (bit_length (n div 2) - 1)"
      using b by (cases "bit_length (n div 2)") simp_all
    also have "\<dots> \<le> 2 * (n div 2)"
      using "1.IH" [OF h(2,1)] by simp
    finally show ?thesis
      by simp
  qed
qed

lemma round_53_bound: "round_53 n \<le> 2 * n"
proof (cases "bit_length n \<le> 53")
  case True
  then show ?thesis
    by (simp add: round_53_def)
next
  case False
  define s where "s = bit_length n - 53"
  have n: "0 < n"
    using False by (cases n) (simp_all add: bit_length.simps [of 0])
  have "2 ^ s \<le> (2 :: nat) ^ (bit_length n - 1)"
    by (rule power_increasing) (simp_all add: s_def)
  then have "2 ^ s \<le> n"
    using bit_length_bound [OF n] by linarith
  moreover have "n div 2 ^ s * 2 ^ s \<le> n"
    by (rule div_times_less_eq_dividend)
  moreover have "(n div 2 ^ s + 1) * 2 ^ s = n div 2 ^ s * 2 ^ s + 2 ^ s"
    by simp
  ultimately have "(n div 2 ^ s + 1) * 2 ^ s \<le> 2 * n"
    by linarith
  moreover have "round_53 n \<le> (n div 2 ^ s + 1) * 2 ^ s"
    by (simp add: round_53_def s_def [symmetric] Let_def)
  ultimately show ?thesis
    by linarith
qed

lemma seconds_bound:
  assumes "GetUnixNanoFromSeconds dbl v = Some n"
  shows "n < 2 ^ 63"
proof -
  have dbl: "n < 2 ^ 63" if "seconds_double d = Some n" for d
  proof -
    obtain k t where k: "double_parts d = (k, t)" by force
    have n: "n = k div 2 ^ t * 1000000000 + round_53 (k mod 2 ^ t * 1000000000) div 2 ^ t" and le: "k \<le> MaxSeconds * 2 ^ t"
      using that k by (auto simp: seconds_double_def split: if_splits)
    have "k div 2 ^ t \<le> MaxSeconds * 2 ^ t div 2 ^ t"
      using le by (rule div_le_mono)
    then have sec: "k div 2 ^ t \<le> 9000000000"
      by (simp add: MaxSeconds_def)
    have "round_53 (k mod 2 ^ t * 1000000000) \<le> 2 * (k mod 2 ^ t * 1000000000)"
      by (rule round_53_bound)
    also have "\<dots> \<le> 2 ^ t * 2000000000"
      by (simp add: less_imp_le)
    finally have "round_53 (k mod 2 ^ t * 1000000000) div 2 ^ t \<le> 2 ^ t * 2000000000 div 2 ^ t"
      by (rule div_le_mono)
    then have "round_53 (k mod 2 ^ t * 1000000000) div 2 ^ t \<le> 2000000000"
      by simp
    moreover have "(2 :: nat) ^ 63 = 9223372036854775808"
      by simp
    ultimately show ?thesis
      unfolding n using sec by linarith
  qed
  show ?thesis
  proof (cases v)
    case (JStr body)
    define ds fs where d: "ds = takeWhile is_digit (c_str body)" "fs = take 9 (tl (dropWhile is_digit (c_str body)) @ replicate 9 CHR ''0'')"
    define rest where "rest = dropWhile is_digit (c_str body)"
    have "(if ds = [] \<or> dec_value ds > 9000000000 \<or> \<not> (rest = [] \<or> hd rest = CHR ''.'' \<and> list_all is_digit (tl rest)) then None
        else Some (dec_value ds * 10 ^ 9 + dec_value fs)) = Some n"
      using assms unfolding JStr GetUnixNanoFromSeconds_def json.case seconds_text_exact Let_def d rest_def .
    then have n: "dec_value ds \<le> 9000000000" "n = dec_value ds * 10 ^ 9 + dec_value fs" "rest = [] \<or> list_all is_digit (tl rest)"
      by (simp_all only: split: if_split_asm) auto
    have "list_all is_digit fs"
      using n(3) unfolding d(2) rest_def [symmetric] by (auto simp: list_all_iff is_digit_def dest!: in_set_takeD)
    then have "dec_value fs < 10 ^ length fs"
      by (rule dec_value_bound)
    moreover have "length fs = 9"
      by (simp add: d(2))
    ultimately show ?thesis
      using n(1,2) by simp
  qed (use assms dbl in \<open>auto simp: GetUnixNanoFromSeconds_def\<close>)
qed

lemma kv_ok_syslog_resource: "list_all kv_ok (GetSyslogResource g tag)"
  using kv_ok_default [of g] by (auto simp: GetSyslogResource_def Let_def list_all_iff kv_ok_def split: option.splits)

lemma syslog_json_ok: "syslog_json w t = (n, kvs) \<Longrightarrow> n < 2 ^ 63 \<and> list_all kv_ok kvs"
proof -
  assume e: "syslog_json w t = (n, kvs)"
  show ?thesis
  proof (cases "n = 0 \<and> kvs = []")
    case False
    then obtain ms where o: "hd t = CHR ''{''" "doc_parse w (c_str t) = Some (JObj ms)"
      using e by (auto simp: syslog_json_def split: if_split_asm option.split_asm json.split_asm)
    have ms: "n = (case Find ''time'' (JObj ms) of None \<Rightarrow> 0
           | Some Val \<Rightarrow> (case GetUnixNanoFromSeconds (double_of w) Val of None \<Rightarrow> 0 | Some n \<Rightarrow> n))"
      "kvs = filter (\<lambda>KV. \<not> (kv_Key KV = ''time'' \<or> kv_Type KV = OTEL_TYPE_STRING \<and> kv_StrValue KV = []))
             (AddKVsFromJsonObject (json_write w) (JObj ms) [])"
      using e unfolding syslog_json_def o option.case json.case by simp_all
    have "list_all kv_ok kvs"
      using kvs_of_json_ok [of "json_write w" "JObj ms"] unfolding ms(2) by (simp add: list_all_iff)
    moreover have "n < 2 ^ 63"
      unfolding ms(1) using seconds_bound by (auto split: option.split)
    ultimately show ?thesis
      by simp
  qed simp
qed

lemma syslog_record_can_be_sent:
  assumes "DecodeSyslogMessage w g Datagram ArrivalNs = Some r" and "0 < ArrivalNs" "ArrivalNs < 2 ^ 63"
  shows "record_ok r \<and> 0 \<le> lr_SeverityNumber r \<and> lr_SeverityNumber r \<le> 24 \<and> 0 < lr_TimeNs r \<and> 0 < lr_ObservedTimeNs r \<and>
    lr_Source r = LOG_SOURCE_SOCKET \<and> lr_FileGeneration r = 0"
proof -
  obtain Msg where m: "ParseSyslogMessage Datagram = Some Msg" "sm_Text Msg \<noteq> []"
    using assms(1) by (auto simp: DecodeSyslogMessage_def split: option.splits if_splits)
  obtain sev name where sv: "GetSyslogSeverity (nat (sm_Pri Msg) mod 8) = (sev, name)" by force
  obtain n kvs where j: "syslog_json w (sm_Text Msg) = (n, kvs)" by force
  have r: "r = new_LogRecord\<lparr>lr_Source := LOG_SOURCE_SOCKET, lr_ObservedTimeNs := ArrivalNs, lr_Line := sm_Text Msg, lr_ScopeName := sm_Tag Msg,
      lr_Resource := GetSyslogResource g (sm_Tag Msg), lr_SeverityNumber := sev, lr_SeverityText := name,
      lr_Attributes := kvs, lr_TimeNs := (if n \<noteq> 0 then int n else ArrivalNs)\<rparr>"
    using assms(1) unfolding DecodeSyslogMessage_def m(1) option.case if_not_P [OF m(2)] sv j prod.case option.inject by (rule sym)
  have "0 \<le> sev \<and> sev \<le> 24"
    using sv by (auto simp: GetSyslogSeverity_def split: if_splits)
  moreover have "n < 2 ^ 63" "list_all kv_ok kvs"
    using syslog_json_ok [OF j] by blast+
  moreover from \<open>n < 2 ^ 63\<close> have "int n < 2 ^ 63"
    by (metis of_nat_less_iff of_nat_numeral of_nat_power)
  ultimately show ?thesis
    unfolding r using assms(2,3) kv_ok_syslog_resource [of g] by (simp add: record_ok_def new_LogRecord_def)
qed



end
