(* ===== verification/Settings.thy ===== *)
theory Settings imports FileThread PromLabel begin

text \<open>
  The settings of otelfwd (\<^verbatim>\<open>otelfwd.cpp\<close>): the values which the environment gives, the checks which are made at the
  start, and the texts which are shown of them. The environment is a map. A text is kept in a buffer of a fixed size.
\<close>

section \<open>Values\<close>

type_synonym env = "string \<rightharpoonup> string"

text \<open>\<^verbatim>\<open>snprintf\<close> with \<^verbatim>\<open>"%s"\<close> into a buffer of \<open>Size\<close> bytes.\<close>

definition copy_to :: "nat \<Rightarrow> string \<Rightarrow> string" where
  "copy_to Size s = take (Size - 1) (c_str s)"

definition ParsePushEncoding :: "string \<Rightarrow> bool option" where
  "ParsePushEncoding v = (if equal_nocase v ''json'' then Some False else if equal_nocase v ''protobuf'' then Some True else None)"

definition ParseFileStart :: "string \<Rightarrow> bool option" where
  "ParseFileStart v = (if equal_nocase v ''begin'' then Some False else if equal_nocase v ''end'' then Some True else None)"

text \<open>\<open>Directory\<close>: what \<^verbatim>\<open>getcwd\<close> gives.\<close>

definition MakeAbsolutePath :: "string option \<Rightarrow> nat \<Rightarrow> string \<Rightarrow> string" where
  "MakeAbsolutePath Directory OutSize pszPath =
     (if pszPath \<noteq> [] \<and> hd pszPath = CHR ''/'' then copy_to OutSize pszPath
      else case Directory of None \<Rightarrow> copy_to OutSize pszPath | Some d \<Rightarrow> copy_to OutSize (d @ ''/'' @ pszPath))"

text \<open>A number in a range, and nothing behind it.\<close>

definition number_setting :: "int \<Rightarrow> int \<Rightarrow> string \<Rightarrow> nat option" where
  "number_setting MinValue MaxValue v =
     (case c_strtol v of (n, rest, range_error) \<Rightarrow>
        if rest = v \<or> rest \<noteq> [] \<or> n < MinValue \<or> n > MaxValue then None else Some (nat n))"

definition ParseSecondsSetting :: "string \<Rightarrow> int \<Rightarrow> nat option" where
  "ParseSecondsSetting v MaxValue = number_setting 1 MaxValue v"

definition ParseMegabytesSetting :: "string \<Rightarrow> int \<Rightarrow> nat option" where
  "ParseMegabytesSetting v MaxValue = number_setting 0 MaxValue v"

definition GetPushEncodingName :: "bool \<Rightarrow> string" where
  "GetPushEncodingName bPushProtobuf = (if bPushProtobuf then ''protobuf'' else ''json'')"

text \<open>\<^verbatim>\<open>atoi\<close>, as a \<^verbatim>\<open>size_t\<close>: a negative number is a very large one.\<close>

definition GetEnvironmentValue :: "env \<Rightarrow> string \<Rightarrow> nat" where
  "GetEnvironmentValue env name =
     (case env name of None \<Rightarrow> 0 | Some p \<Rightarrow> (case c_strtol (c_str p) of (n, _, _) \<Rightarrow> nat (to_pid n mod 2 ^ 64)))"

text \<open>\<^verbatim>\<open>strtoul (p, NULL, 8) & 0777\<close>.\<close>

definition octal_mode :: "string \<Rightarrow> nat" where
  "octal_mode p =
     (let t = dropWhile is_space p;
          neg = (t \<noteq> [] \<and> hd t = CHR ''-'');
          u = (if t \<noteq> [] \<and> (hd t = CHR ''-'' \<or> hd t = CHR ''+'') then tl t else t);
          ds = takeWhile (\<lambda>c. is_digit c \<and> digit_value c < 8) u;
          v = fold (\<lambda>c n. n * 8 + digit_value c) ds 0
      in (if v \<ge> 2 ^ 64 then 2 ^ 64 - 1 else if neg then 2 ^ 64 - v else v) mod 512)"

definition starts_nocase :: "string \<Rightarrow> string \<Rightarrow> bool" where
  "starts_nocase prefix s = (map to_lower (take (length prefix) s) = map to_lower prefix)"

section \<open>Texts for the log\<close>

text \<open>The first index of a character for which \<open>P\<close> holds.\<close>

definition find_first :: "('a \<Rightarrow> bool) \<Rightarrow> 'a list \<Rightarrow> nat option" where
  "find_first P xs = (let n = length (takeWhile (\<lambda>x. \<not> P x) xs) in if n < length xs then Some n else None)"

definition SanitizeUrlForLog :: "string \<Rightarrow> string" where
  "SanitizeUrlForLog pszURL =
     (let Url = (case find_first (\<lambda>c. c = CHR ''?'' \<or> c = CHR ''#'') pszURL of None \<Rightarrow> pszURL | Some Cut \<Rightarrow> take Cut pszURL);
          AuthStart = (case find_from ''://'' 0 Url of None \<Rightarrow> 0 | Some Scheme \<Rightarrow> Scheme + 3);
          AuthEnd = (case find_index CHR ''/'' (drop AuthStart Url) of None \<Rightarrow> length Url | Some i \<Rightarrow> AuthStart + i)
      in case find_last CHR ''@'' (take (max AuthEnd 1) Url) of
           None \<Rightarrow> Url
         | Some At \<Rightarrow> if At \<ge> AuthStart \<and> At < AuthEnd then take AuthStart Url @ drop (At + 1) Url else Url)"

section \<open>The configuration\<close>

record config =
  cf_LogLevel :: nat
  cf_Mirror2Stdout :: nat
  cf_ShutdownMaxWaitSec :: nat
  cf_SocketQueueMax :: nat
  cf_szDataDir :: string
  cf_szWalFile :: string
  cf_szMetricsFileName :: string
  cf_szHostname :: string
  cf_szPidNbfFile :: string
  cf_szOtlpPushApiURL :: string
  cf_szOtlpPushApiURLBackup :: string
  cf_FailbackSec :: nat
  cf_WalRetrySec :: nat
  cf_WalMaxMB :: nat
  cf_bPushProtobuf :: bool
  cf_szOtlpPushToken :: string
  cf_szOtlpCaFile :: string
  cf_szOtlpServiceName :: string
  cf_szServiceNamespace :: string
  cf_szServiceInstanceId :: string
  cf_szInstance :: string
  cf_szUnixSocketPath :: string
  cf_UnixSocketMode :: nat
  cf_szSyslogSocketPath :: string
  cf_SyslogSocketMode :: nat
  cf_szTcpListen :: string
  cf_szFileInput :: string
  cf_szFileStateDir :: string
  cf_bFileStartAtEnd :: bool
  cf_FileSeverityNumber :: nat
  cf_szFileSeverityText :: string
  cf_szFileService :: string
  cf_szFileStateFile :: string
  cf_szOutputLogFile :: string

definition OTELFWD_DEFAULT_FAILBACK_SEC :: nat where "OTELFWD_DEFAULT_FAILBACK_SEC = 60"
definition OTELFWD_MAX_FAILBACK_SEC :: int where "OTELFWD_MAX_FAILBACK_SEC = 86400"
definition OTELFWD_DEFAULT_WAL_RETRY_SEC :: nat where "OTELFWD_DEFAULT_WAL_RETRY_SEC = 60"
definition OTELFWD_MAX_WAL_RETRY_SEC :: int where "OTELFWD_MAX_WAL_RETRY_SEC = 86400"
definition OTELFWD_DEFAULT_WAL_MAX_MB :: nat where "OTELFWD_DEFAULT_WAL_MAX_MB = 128"
definition OTELFWD_MAX_WAL_MAX_MB :: int where "OTELFWD_MAX_WAL_MAX_MB = 1048576"
definition OTELFWD_DEFAULT_SHUTDOWN_MAX_WAIT_SEC :: nat where "OTELFWD_DEFAULT_SHUTDOWN_MAX_WAIT_SEC = 30"
definition OTELFWD_DEFAULT_SOCKET_QUEUE_MAX :: nat where "OTELFWD_DEFAULT_SOCKET_QUEUE_MAX = 100000"

text \<open>The two ways to read a text: a variable which is there counts, or only one which is not empty.\<close>

definition env_text :: "env \<Rightarrow> string \<Rightarrow> nat \<Rightarrow> string \<Rightarrow> string" where
  "env_text env name Size Default = (case env name of None \<Rightarrow> Default | Some p \<Rightarrow> copy_to Size p)"

definition env_value :: "env \<Rightarrow> string \<Rightarrow> string option" where
  "env_value env name = (case env name of None \<Rightarrow> None | Some p \<Rightarrow> if c_str p = [] then None else Some (c_str p))"

definition env_text_set :: "env \<Rightarrow> string \<Rightarrow> nat \<Rightarrow> string \<Rightarrow> string" where
  "env_text_set env name Size Default = (case env_value env name of None \<Rightarrow> Default | Some p \<Rightarrow> copy_to Size p)"

definition env_parsed :: "env \<Rightarrow> string \<Rightarrow> (string \<Rightarrow> 'a option) \<Rightarrow> 'a \<Rightarrow> 'a" where
  "env_parsed env name parse Default =
     (case env_value env name of None \<Rightarrow> Default | Some p \<Rightarrow> (case parse p of None \<Rightarrow> Default | Some v \<Rightarrow> v))"

definition or_default :: "nat \<Rightarrow> nat \<Rightarrow> nat" where
  "or_default n Default = (if n = 0 then Default else n)"

text \<open>\<open>Hostname\<close>: what \<^verbatim>\<open>gethostname\<close> gives; \<open>Directory\<close>: what \<^verbatim>\<open>getcwd\<close> gives.\<close>

definition ReadConfig :: "string option \<Rightarrow> string option \<Rightarrow> env \<Rightarrow> config" where
  "ReadConfig Hostname Directory env =
     (let DataDir = env_text env ''OTELFWD_DATA_DIR'' 1024 ''/local/notesdata'';
          Host = (case env ''OTELFWD_HOSTNAME'' of Some p \<Rightarrow> copy_to 1024 p
                  | None \<Rightarrow> (case Hostname of None \<Rightarrow> [] | Some h \<Rightarrow> copy_to 1024 h));
          FileInput = (case env_value env ''OTELFWD_FILE_INPUT'' of None \<Rightarrow> [] | Some p \<Rightarrow> MakeAbsolutePath Directory 2048 p);
          StateDir = (case env_value env ''OTELFWD_FILE_STATE_DIR'' of None \<Rightarrow> [] | Some p \<Rightarrow> MakeAbsolutePath Directory 1024 p);
          Severity = env_parsed env ''OTELFWD_FILE_SEVERITY'' (\<lambda>p. FileSeverity_Parse (Some p)) (9, ''INFO'')
      in \<lparr>cf_LogLevel = GetEnvironmentValue env ''OTELFWD_LOGLEVEL'',
          cf_Mirror2Stdout = GetEnvironmentValue env ''OTELFWD_MIRROR_STDOUT'',
          cf_ShutdownMaxWaitSec = or_default (GetEnvironmentValue env ''OTELFWD_SHUTDOWN_MAX_SEC'') OTELFWD_DEFAULT_SHUTDOWN_MAX_WAIT_SEC,
          cf_SocketQueueMax = or_default (GetEnvironmentValue env ''OTELFWD_SOCKET_QUEUE_MAX'') OTELFWD_DEFAULT_SOCKET_QUEUE_MAX,
          cf_szDataDir = DataDir,
          cf_szWalFile = copy_to 2048 (DataDir @ ''/otelfwd.wal''),
          cf_szMetricsFileName = env_text env ''OTELFWD_PROM_FILE'' 2048 (copy_to 2048 (DataDir @ ''/domino/stats/otelfwd.prom'')),
          cf_szHostname = Host,
          cf_szPidNbfFile = copy_to 2048 (DataDir @ ''/pid.nbf''),
          cf_szOtlpPushApiURL = env_text env ''OTLP_PUSH_API_URL'' 1024 [],
          cf_szOtlpPushApiURLBackup = env_text env ''OTLP_PUSH_API_URL_BACKUP'' 1024 [],
          cf_FailbackSec = env_parsed env ''OTLP_PUSH_FAILBACK_SEC'' (number_setting 1 OTELFWD_MAX_FAILBACK_SEC) OTELFWD_DEFAULT_FAILBACK_SEC,
          cf_WalRetrySec = env_parsed env ''OTLP_PUSH_WAL_RETRY_SEC'' (\<lambda>p. ParseSecondsSetting p OTELFWD_MAX_WAL_RETRY_SEC) OTELFWD_DEFAULT_WAL_RETRY_SEC,
          cf_WalMaxMB = env_parsed env ''OTLP_PUSH_WAL_MAX_MB'' (\<lambda>p. ParseMegabytesSetting p OTELFWD_MAX_WAL_MAX_MB) OTELFWD_DEFAULT_WAL_MAX_MB,
          cf_bPushProtobuf = env_parsed env ''OTLP_PUSH_ENCODING'' ParsePushEncoding False,
          cf_szOtlpPushToken = env_text env ''OTLP_PUSH_TOKEN'' 1024 [],
          cf_szOtlpCaFile = env_text env ''OTLP_CA_FILE'' 1024 [],
          cf_szOtlpServiceName = env_text_set env ''OTLP_SERVICE_NAME'' 1024 ''domino'',
          cf_szServiceNamespace = env_text_set env ''OTLP_SERVICE_NAMESPACE'' 1024 ''domino'',
          cf_szServiceInstanceId = env_text_set env ''OTLP_SERVICE_INSTANCE_ID'' 1024 Host,
          cf_szInstance = env_text_set env ''OTELFWD_INSTANCE'' 256 [],
          cf_szUnixSocketPath = env_text env ''OTELFWD_UNIX_SOCKET'' 1100 [],
          cf_UnixSocketMode = env_parsed env ''OTELFWD_UNIX_SOCKET_MODE'' (\<lambda>p. Some (octal_mode p)) 0x180,
          cf_szSyslogSocketPath = env_text env ''OTELFWD_SYSLOG_SOCKET'' 1024 [],
          cf_SyslogSocketMode = env_parsed env ''OTELFWD_SYSLOG_SOCKET_MODE'' (\<lambda>p. Some (octal_mode p)) 0x180,
          cf_szTcpListen = env_text env ''OTELFWD_TCP_LISTEN'' 256 [],
          cf_szFileInput = FileInput,
          cf_szFileStateDir = StateDir,
          cf_bFileStartAtEnd = env_parsed env ''OTELFWD_FILE_START'' ParseFileStart False,
          cf_FileSeverityNumber = fst Severity,
          cf_szFileSeverityText = copy_to 16 (snd Severity),
          cf_szFileService = env_text_set env ''OTELFWD_FILE_SERVICE'' 256 [],
          cf_szFileStateFile = (if FileInput = [] then [] else copy_to 3200 (FileStateName_Make StateDir FileInput)),
          cf_szOutputLogFile = env_text env ''OTELFWD_OUTPUT_LOG'' 2048 []\<rparr>)"

section \<open>The checks at the start\<close>

text \<open>What is logged.\<close>

definition ValidatePushEncoding :: "env \<Rightarrow> log_entry list" where
  "ValidatePushEncoding env =
     (case env_value env ''OTLP_PUSH_ENCODING'' of
        None \<Rightarrow> []
      | Some p \<Rightarrow> if ParsePushEncoding p = None
          then [ErrorLine ''OTLP_PUSH_ENCODING has to be json or protobuf. Using json'' (Some p)] else [])"

definition ValidateWalRetryConfig :: "env \<Rightarrow> log_entry list" where
  "ValidateWalRetryConfig env =
     (case env_value env ''OTLP_PUSH_WAL_RETRY_SEC'' of
        None \<Rightarrow> []
      | Some p \<Rightarrow> if ParseSecondsSetting p OTELFWD_MAX_WAL_RETRY_SEC = None
          then [ErrorLine ''OTLP_PUSH_WAL_RETRY_SEC has to be a number of seconds from 1 to 86400. Using the default of 60 seconds'' (Some p)] else [])"

definition ValidateWalMaxConfig :: "env \<Rightarrow> log_entry list" where
  "ValidateWalMaxConfig env =
     (case env_value env ''OTLP_PUSH_WAL_MAX_MB'' of
        None \<Rightarrow> []
      | Some p \<Rightarrow> if ParseMegabytesSetting p OTELFWD_MAX_WAL_MAX_MB = None
          then [ErrorLine ''OTLP_PUSH_WAL_MAX_MB has to be a number of MB from 0 (no limit) to 1048576. Using the default of 128 MB'' (Some p)] else [])"

definition ValidateFileConfig :: "env \<Rightarrow> log_entry list" where
  "ValidateFileConfig env =
     (case env_value env ''OTELFWD_FILE_START'' of
        None \<Rightarrow> []
      | Some p \<Rightarrow> if ParseFileStart p = None then [ErrorLine ''OTELFWD_FILE_START has to be begin or end. Using begin'' (Some p)] else []) @
     (case env_value env ''OTELFWD_FILE_SEVERITY'' of
        None \<Rightarrow> []
      | Some p \<Rightarrow> if FileSeverity_Parse (Some p) = None
          then [ErrorLine ''OTELFWD_FILE_SEVERITY has to be trace, debug, info, warn, error, fatal or off. Using info'' (Some p)] else [])"

text \<open>The check of the backup endpoint also changes the setting: an endpoint which cannot be used is removed.\<close>

definition ValidateBackupConfig :: "env \<Rightarrow> config \<Rightarrow> log_entry list \<times> config" where
  "ValidateBackupConfig env c =
     (let Failback = env_value env ''OTLP_PUSH_FAILBACK_SEC'';
          l1 = (case Failback of
                  None \<Rightarrow> []
                | Some p \<Rightarrow> (case c_strtol p of (n, rest, _) \<Rightarrow>
                    if rest \<noteq> [] \<or> n < 1 \<or> n > OTELFWD_MAX_FAILBACK_SEC
                    then [ErrorLine ''OTLP_PUSH_FAILBACK_SEC has to be a number of seconds from 1 to 86400. Using the default of 60 seconds'' (Some p)]
                    else []));
          Backup = cf_szOtlpPushApiURLBackup c
      in if Backup = [] then
           (l1 @ (if Failback \<noteq> None then [Message ''Warning: OTLP_PUSH_FAILBACK_SEC has no effect without OTLP_PUSH_API_URL_BACKUP''] else []), c)
         else if cf_szOtlpPushApiURL c = [] then
           (l1 @ [ErrorLine ''OTLP_PUSH_API_URL_BACKUP needs OTLP_PUSH_API_URL. The backup endpoint is not used'' None], c\<lparr>cf_szOtlpPushApiURLBackup := []\<rparr>)
         else if \<not> starts_nocase ''http://'' Backup \<and> \<not> starts_nocase ''https://'' Backup then
           (l1 @ [ErrorLine ''OTLP_PUSH_API_URL_BACKUP has to start with http:// or https://. The backup endpoint is not used'' (Some Backup)],
            c\<lparr>cf_szOtlpPushApiURLBackup := []\<rparr>)
         else if Backup = cf_szOtlpPushApiURL c then
           (l1 @ [Message ''Warning: OTLP_PUSH_API_URL_BACKUP is the same as OTLP_PUSH_API_URL. The backup endpoint is not used''],
            c\<lparr>cf_szOtlpPushApiURLBackup := []\<rparr>)
         else (l1, c))"

definition UseDefaultUnixSocket :: "bool \<Rightarrow> config \<Rightarrow> bool" where
  "UseDefaultUnixSocket NoStdin c \<longleftrightarrow>
     cf_szUnixSocketPath c = [] \<and> cf_szTcpListen c = [] \<and> cf_szSyslogSocketPath c = [] \<and> (NoStdin \<or> cf_szOtlpPushApiURL c \<noteq> [])"

definition GetDefaultUnixSocketPath :: "config \<Rightarrow> string" where
  "GetDefaultUnixSocketPath c = cf_szDataDir c @ ''/domino/otelfwd.sock''"

end
