(* ===== verification/TextSearch.thy ===== *)
theory TextSearch imports PromLabel begin

text \<open>
  Searches in texts which are made of parts, as the HTTP header and the URLs are: where \<^verbatim>\<open>std::string::find\<close> finds a text.
\<close>

lemma find_from_first:
  assumes "hd p \<notin> set a" and "p \<noteq> []"
  shows "find_from p 0 (a @ p @ b) = Some (length a)"
proof -
  have "find_from p i (a @ p @ b) = Some (length a)" if "i \<le> length a" for i
    using that
  proof (induction "length a - i" arbitrary: i)
    case 0
    then show ?case
      by (simp add: find_from.simps [of p i])
  next
    case (Suc n)
    then have i: "i < length a"
      by simp
    have "hd (drop i (a @ p @ b)) = a ! i"
      using i by (simp add: hd_drop_conv_nth nth_append)
    moreover have "a ! i \<noteq> hd p"
      using i assms(1) nth_mem by metis
    ultimately have "take (length p) (drop i (a @ p @ b)) \<noteq> p"
      using assms(2) by (metis hd_take length_greater_0_conv)
    then have "find_from p i (a @ p @ b) = find_from p (i + 1) (a @ p @ b)"
      using i by (subst find_from.simps) simp
    also have "\<dots> = Some (length a)"
      using Suc i by simp
    finally show ?case .
  qed
  then show ?thesis
    by simp
qed

lemma find_from_drop: "find_from p (n + i) s = map_option (\<lambda>j. n + j) (find_from p i (drop n s))" if "n \<le> length s"
  using that
proof (induction p i "drop n s" rule: find_from.induct)
  case (1 p i)
  show ?case
  proof (cases "n + i > length s \<or> take (length p) (drop (n + i) s) = p")
    case True
    then show ?thesis
      using 1(2) by (subst (1 2) find_from.simps) (auto simp: add.commute [of i n])
  next
    case False
    then have i: "\<not> length s - n < i"
      by auto
    with False have "find_from p (n + Suc i) s = map_option (\<lambda>j. n + j) (find_from p (Suc i) (drop n s))"
      using 1(1) [OF _ _ 1(2)] by (simp add: add.commute [of i n])
    then show ?thesis
      using False 1(2) i by (subst (1 2) find_from.simps) (simp add: add.commute [of i n])
  qed
qed

lemma find_from_behind: "find_from p (length a) (a @ s) = map_option (\<lambda>j. length a + j) (find_from p 0 s)"
  using find_from_drop [of "length a" "a @ s" p 0] by simp

lemma find_from_Cons_other: "take (length p) (c # s) \<noteq> p \<Longrightarrow> find_from p 0 (c # s) = map_option Suc (find_from p 0 s)"
  using find_from_behind [of p "[c]" s] by (subst find_from.simps) simp

text \<open>A part without the first character of the text is skipped.\<close>

lemma find_from_skip:
  assumes "hd p \<notin> set a" and "p \<noteq> []"
  shows "find_from p 0 (a @ s) = map_option (\<lambda>j. length a + j) (find_from p 0 s)"
  using assms(1)
proof (induction a)
  case Nil
  then show ?case
    by (cases "find_from p 0 s") simp_all
next
  case (Cons c a)
  then have "take (length p) (c # a @ s) \<noteq> p"
    using assms(2) by (cases p) auto
  then show ?case
    using Cons by (simp add: find_from_Cons_other option.map_comp comp_def)
qed

lemma find_from_Nil: "p \<noteq> [] \<Longrightarrow> find_from p 0 [] = None"
  by (subst find_from.simps) (simp add: find_from.simps)

lemma find_from_absent: "hd p \<notin> set a \<Longrightarrow> p \<noteq> [] \<Longrightarrow> find_from p 0 a = None"
  using find_from_skip [of p a "[]"] by (simp add: find_from_Nil)

lemma find_from_char: "find_from [c] 0 s = find_index c s"
proof (induction s)
  case (Cons d s)
  show ?case
  proof (cases "d = c")
    case True
    then show ?thesis
      by (subst find_from.simps) simp
  next
    case False
    then show ?thesis
      using Cons find_from_Cons_other [of "[c]" d s] by simp
  qed
qed (simp add: find_from_Nil)

text \<open>In the first bytes of a text it is found as soon as all of it is there.\<close>

lemma find_from_short: "length r < i + length p \<Longrightarrow> p \<noteq> [] \<Longrightarrow> find_from p i r = None"
proof (induction p i r rule: find_from.induct)
  case (1 p i r)
  have "take (length p) (drop i r) \<noteq> p"
    using 1(2,3) by (metis length_drop length_take min_less_iff_conj nat_neq_iff less_diff_conv2 length_greater_0_conv not_less linorder_le_cases add.commute diff_is_0_eq)
  then show ?case
    using 1 by (subst find_from.simps) simp
qed

lemma find_from_ge: "find_from p i s = Some j \<Longrightarrow> i \<le> j \<and> j \<le> length s"
  by (induction p i s rule: find_from.induct) (subst (asm) find_from.simps, fastforce split: if_splits)

lemma find_from_prefix:
  assumes "find_from p i (r @ s) = Some j" and "p \<noteq> []"
  shows "find_from p i r = (if j + length p \<le> length r then Some j else None)"
  using assms
proof (induction p i "r @ s" rule: find_from.induct)
  case (1 p i)
  show ?case
  proof (cases "length r < i + length p")
    case True
    then show ?thesis
      using find_from_short [OF True 1(3)] find_from_ge [OF 1(2)] by simp
  next
    case False
    then have same: "take (length p) (drop i (r @ s)) = take (length p) (drop i r)"
      by simp
    show ?thesis
    proof (cases "take (length p) (drop i r) = p")
      case True
      then have "j = i"
        using 1(2) False same by (subst (asm) find_from.simps) simp
      then show ?thesis
        using True False by (subst find_from.simps) simp
    next
      case no: False
      then have "find_from p (i + 1) (r @ s) = Some j"
        using 1(2) False same by (subst (asm) find_from.simps) (simp split: if_splits)
      then have "find_from p (i + 1) r = (if j + length p \<le> length r then Some j else None)"
        using 1(1) [OF _ _ _ 1(3)] no same False by simp
      then show ?thesis
        using no False by (subst find_from.simps) simp
    qed
  qed
qed

end
