(* ===== verification/SettingsTheorems.thy ===== *)
theory SettingsTheorems imports Settings TextSearch begin

text \<open>
  The settings: always in their range, an invalid one is reported and the default is used. A URL is shown without its secrets.
\<close>

section \<open>Ranges\<close>

lemma c_str_no_zero: "CHR 0x00 \<notin> set (c_str s)"
  by (induction s) (auto simp: c_str_def)

lemma copy_to_fits: "0 < n \<Longrightarrow> length (copy_to n s) < n \<and> CHR 0x00 \<notin> set (copy_to n s)"
  using c_str_no_zero [of s] by (auto simp: copy_to_def dest: in_set_takeD)

text \<open>A text which fits into a buffer of \<open>n\<close> bytes.\<close>

definition fits :: "nat \<Rightarrow> string \<Rightarrow> bool" where
  "fits n s \<longleftrightarrow> length s < n \<and> CHR 0x00 \<notin> set s"

lemma fits_copy: "0 < n \<Longrightarrow> fits n (copy_to n s)"
  by (simp add: fits_def copy_to_fits)

lemma fits_env_text: "0 < n \<Longrightarrow> fits n d \<Longrightarrow> fits n (env_text env name n d)"
  by (simp add: env_text_def fits_copy split: option.split)

lemma fits_env_text_set: "0 < n \<Longrightarrow> fits n d \<Longrightarrow> fits n (env_text_set env name n d)"
  by (simp add: env_text_set_def fits_copy split: option.split)

lemma number_setting_range: "number_setting a b v = Some n \<Longrightarrow> a \<le> int n \<and> int n \<le> b" if "0 \<le> a"
  using that by (auto simp: number_setting_def split: prod.splits if_splits)

lemma env_parsed_cases: "env_parsed env name parse d = d \<or> (\<exists>p. parse p = Some (env_parsed env name parse d))"
  by (auto simp: env_parsed_def split: option.split)

lemma octal_mode_small: "octal_mode p < 512"
  by (simp add: octal_mode_def Let_def)



section \<open>URLs\<close>

lemma find_last_append: "c \<notin> set ys \<Longrightarrow> find_last c (xs @ c # ys) = Some (length xs)"
  by (simp add: find_last_def find_index_append)

lemma find_last_none: "c \<notin> set xs \<Longrightarrow> find_last c xs = None"
  by (simp add: find_last_def find_index_None)

definition url_word :: "string \<Rightarrow> string \<Rightarrow> bool" where
  "url_word stops s \<longleftrightarrow> set s \<inter> set stops = {}"

text \<open>Of a URL with a user name and a password, a query or a fragment only the scheme, the host and the path are
  shown, whatever the secrets are. An @ in the path stays, and a URL without secrets is shown as it is.\<close>

lemma sanitized_url:
  fixes user :: "string option"
  assumes "url_word '':/?#@'' scheme" and "\<forall>u. user = Some u \<longrightarrow> url_word ''/?#'' u" and "url_word ''/?#@'' host"
    and "path = [] \<or> hd path = CHR ''/''" and "url_word ''?#'' path" and "rest = [] \<or> hd rest = CHR ''?'' \<or> hd rest = CHR ''#''"
  shows "SanitizeUrlForLog (scheme @ ''://'' @ (case user of None \<Rightarrow> [] | Some u \<Rightarrow> u @ ''@'') @ host @ path @ rest) = scheme @ ''://'' @ host @ path"
proof -
  define info where "info = (case user of None \<Rightarrow> [] | Some u \<Rightarrow> u @ ''@'')"
  have info: "url_word ''/?#'' info"
    using assms(2) by (auto simp: info_def url_word_def split: option.splits)
  define Url where "Url = (scheme @ ''://'') @ info @ host @ path"
  have plain: "\<forall>c \<in> set Url. \<not> (c = CHR ''?'' \<or> c = CHR ''#'')"
    using assms(1,3,5) info by (auto simp: Url_def url_word_def)
  have cut: "(case find_first (\<lambda>c. c = CHR ''?'' \<or> c = CHR ''#'') (Url @ rest) of None \<Rightarrow> Url @ rest | Some Cut \<Rightarrow> take Cut (Url @ rest)) = Url"
  proof -
    have "takeWhile (\<lambda>c. \<not> (c = CHR ''?'' \<or> c = CHR ''#'')) (Url @ rest) = Url @ takeWhile (\<lambda>c. \<not> (c = CHR ''?'' \<or> c = CHR ''#'')) rest"
      using plain by (intro takeWhile_append2) blast
    moreover have "takeWhile (\<lambda>c. \<not> (c = CHR ''?'' \<or> c = CHR ''#'')) rest = []"
      using assms(6) by (cases rest) auto
    ultimately have "find_first (\<lambda>c. c = CHR ''?'' \<or> c = CHR ''#'') (Url @ rest) = (if rest = [] then None else Some (length Url))"
      by (simp add: find_first_def)
    then show ?thesis
      by simp
  qed
  have start: "find_from ''://'' 0 Url = Some (length scheme)"
    using find_from_first [of "''://''" scheme "info @ host @ path"] assms(1) by (simp add: Url_def url_word_def)
  have drop: "drop (length scheme + 3) Url = info @ host @ path"
    by (simp add: Url_def)
  have "CHR ''/'' \<notin> set (info @ host)"
    using info assms(3) by (auto simp: url_word_def)
  then have slash: "(case find_index CHR ''/'' (info @ host @ path) of None \<Rightarrow> length Url | Some i \<Rightarrow> length scheme + 3 + i) =
      length scheme + 3 + length (info @ host)"
  proof (cases path)
    case Nil
    then show ?thesis
      using \<open>CHR ''/'' \<notin> set (info @ host)\<close> by (simp add: find_index_None [THEN iffD2] Url_def)
  next
    case (Cons c p)
    then have "path = CHR ''/'' # p"
      using assms(4) by simp
    then show ?thesis
      using find_index_append [OF \<open>CHR ''/'' \<notin> set (info @ host)\<close>, of p] by simp
  qed
  have front: "take (max (length scheme + 3 + length (info @ host)) 1) Url = (scheme @ ''://'') @ info @ host"
  proof -
    have e: "max (length scheme + 3 + length (info @ host)) 1 = length ((scheme @ ''://'') @ info @ host)"
      by simp
    have u: "Url = ((scheme @ ''://'') @ info @ host) @ path"
      by (simp add: Url_def)
    have "take (length xs) (xs @ path) = xs" for xs
      by simp
    then show ?thesis
      unfolding e u .
  qed
  have all: "SanitizeUrlForLog (Url @ rest) = (case find_last CHR ''@'' ((scheme @ ''://'') @ info @ host) of
           None \<Rightarrow> Url
         | Some At \<Rightarrow> if At \<ge> length scheme + 3 \<and> At < length scheme + 3 + length (info @ host) then take (length scheme + 3) Url @ drop (At + 1) Url else Url)"
    unfolding SanitizeUrlForLog_def cut Let_def start option.case drop slash front by (rule refl)
  have "SanitizeUrlForLog (Url @ rest) = scheme @ ''://'' @ host @ path"
  proof (cases user)
    case None
    have "CHR ''@'' \<notin> set ((scheme @ ''://'') @ info @ host)"
      using None assms(1,3) by (auto simp: info_def url_word_def)
    from find_last_none [OF this] show ?thesis
      unfolding all using None by (simp only: option.case) (simp add: info_def Url_def)
  next
    case (Some u)
    have "CHR ''@'' \<notin> set host"
      using assms(3) by (auto simp: url_word_def)
    from find_last_append [OF this, of "(scheme @ ''://'') @ u"]
    have "find_last CHR ''@'' ((scheme @ ''://'') @ info @ host) = Some (length scheme + 3 + length u)"
      by (simp add: info_def Some)
    note at = this
    have "drop (length xs) (xs @ ys) = ys" for xs ys :: string
      by simp
    from this [of "(scheme @ ''://'') @ u @ ''@''" "host @ path"] have d: "drop (length scheme + 3 + length u + 1) Url = host @ path"
      by (simp add: Url_def info_def Some add.assoc)
    have t: "take (length scheme + 3) Url = scheme @ ''://''"
      by (simp add: Url_def)
    have r: "length scheme + 3 \<le> length scheme + 3 + length u \<and> length scheme + 3 + length u < length scheme + 3 + length (info @ host)"
      by (simp add: info_def Some)
    show ?thesis
      unfolding all at option.case if_P [OF r] t d by simp
  qed
  then show ?thesis
    by (simp add: Url_def info_def)
qed

end
