(* ===== verification/Startup.thy ===== *)
theory Startup imports Settings Ingest begin

text \<open>
  The start of otelfwd (\<^verbatim>\<open>otelfwd.cpp\<close>): the listening sockets, the command line, and what \<^verbatim>\<open>main\<close> decides
  before the threads run. The results of the system calls are records of values, 0 is success, and what is done to the system is a list of effects.
\<close>

section \<open>Listening sockets\<close>

datatype sock_effect =
    Unlink string
  | Bind_unix string nat                     \<comment> \<open>the path and the umask\<close>
  | Chmod string nat
  | Bind_inet "nat list" nat                 \<comment> \<open>the bytes of the address, and the port\<close>

text \<open>\<open>ue_lstat\<close>: there is something at the path, and whether it is a socket. \<open>ue_connect\<close>: the errno of the probe.\<close>

record unix_env =
  ue_lstat :: "bool option"
  ue_probe :: nat
  ue_connect :: nat
  ue_socket :: nat
  ue_bind :: nat
  ue_chmod :: nat
  ue_listen :: nat

abbreviation EAGAIN :: nat where "EAGAIN \<equiv> 11"
abbreviation EINPROGRESS :: nat where "EINPROGRESS \<equiv> 115"
abbreviation ECONNREFUSED :: nat where "ECONNREFUSED \<equiv> 111"

text \<open>The size of \<^verbatim>\<open>sun_path\<close>.\<close>

definition SUN_PATH :: nat where
  "SUN_PATH = 108"

type_synonym listened = "bool \<times> sock_effect list \<times> log_entry list"

definition CreateUnixListener :: "(nat \<Rightarrow> string) \<Rightarrow> unix_env \<Rightarrow> string \<Rightarrow> string \<Rightarrow> nat \<Rightarrow> bool \<Rightarrow> listened" where
  "CreateUnixListener strerror u pszTitle pszPath Mode bDatagram =
     (let fail = (\<lambda>effs msg err. (False, effs, [ErrorLine msg (Some err)]));
          create = (\<lambda>effs.
            if ue_socket u \<noteq> 0 then fail effs ''Cannot create socket'' (strerror (ue_socket u))
            else
              let bound = effs @ [Bind_unix pszPath 0x7F]
              in if ue_bind u \<noteq> 0 then fail bound ''Cannot bind Unix socket'' (pszPath @ '': '' @ strerror (ue_bind u))
                 else if ue_chmod u \<noteq> 0 then
                   fail (bound @ [Unlink pszPath]) ''Cannot set up Unix socket'' (pszPath @ '': '' @ strerror (ue_chmod u))
                 else if \<not> bDatagram \<and> ue_listen u \<noteq> 0 then
                   fail (bound @ [Chmod pszPath Mode, Unlink pszPath]) ''Cannot set up Unix socket'' (pszPath @ '': '' @ strerror (ue_listen u))
                 else (True, bound @ [Chmod pszPath Mode],
                       [Message (''Input '' @ pszTitle @ '': Unix '' @ (if bDatagram then ''datagram'' else ''stream'') @ '' socket '' @ pszPath)]))
      in if length pszPath \<ge> SUN_PATH then fail [] ''Unix socket path is too long'' pszPath
         else case ue_lstat u of
           None \<Rightarrow> create []
         | Some is_socket \<Rightarrow>
             if \<not> is_socket then fail [] ''Unix socket path exists and is not a socket'' pszPath
             else if ue_probe u \<noteq> 0 then fail [] ''Cannot create socket'' (strerror (ue_probe u))
             else if ue_connect u = 0 \<or> ue_connect u = EAGAIN \<or> ue_connect u = EINPROGRESS then
               fail [] ''Unix socket is in use by another process'' pszPath
             else if ue_connect u \<noteq> ECONNREFUSED then fail [] ''Cannot check existing Unix socket'' (strerror (ue_connect u))
             else create [Unlink pszPath])"

record inet_env =
  ie_pton4 :: "string \<Rightarrow> nat list option"
  ie_pton6 :: "string \<Rightarrow> nat list option"
  ie_socket :: nat
  ie_bind :: nat
  ie_listen :: nat

definition LOOPBACK_ONLY :: string where
  "LOOPBACK_ONLY = ''TCP input only accepts loopback addresses (127.0.0.0/8 or ::1)''"

definition CreateTcpListener :: "(nat \<Rightarrow> string) \<Rightarrow> inet_env \<Rightarrow> string \<Rightarrow> string \<Rightarrow> listened" where
  "CreateTcpListener strerror e pszTitle pszSpec =
     (let fail = (\<lambda>msg. (False, [], [ErrorLine msg (Some pszSpec)]))
      in case find_last CHR '':'' pszSpec of
           None \<Rightarrow> fail ''TCP listen address needs the format address:port''
         | Some Colon \<Rightarrow>
             let Host0 = take Colon pszSpec;
                 PortText = drop (Colon + 1) pszSpec;
                 Host = (if length Host0 \<ge> 2 \<and> hd Host0 = CHR ''['' \<and> last Host0 = CHR '']'' then butlast (tl Host0) else Host0)
             in case c_strtoul PortText of (Port, rest) \<Rightarrow>
                if PortText = [] \<or> rest \<noteq> [] \<or> Port = 0 \<or> Port > 65535 then fail ''Invalid TCP listen port''
                else
                  let open_at = (\<lambda>addr.
                        if ie_socket e \<noteq> 0 then (False, [], [ErrorLine ''Cannot create socket'' (Some (strerror (ie_socket e)))])
                        else if ie_bind e \<noteq> 0 then (False, [Bind_inet addr Port], [ErrorLine ''Cannot listen on TCP address'' (Some (strerror (ie_bind e)))])
                        else if ie_listen e \<noteq> 0 then (False, [Bind_inet addr Port], [ErrorLine ''Cannot listen on TCP address'' (Some (strerror (ie_listen e)))])
                        else (True, [Bind_inet addr Port], [Message (''Input '' @ pszTitle @ '': TCP '' @ pszSpec)]))
                  in case ie_pton4 e Host of
                       Some a \<Rightarrow> if hd a \<noteq> 127 then fail LOOPBACK_ONLY else open_at a
                     | None \<Rightarrow>
                         (case ie_pton6 e Host of
                            Some a \<Rightarrow> if a \<noteq> replicate 15 0 @ [1] then fail LOOPBACK_ONLY else open_at a
                          | None \<Rightarrow> fail ''TCP listen address must be an IP address''))"

section \<open>The command line\<close>

datatype main_end = ReturnNow nat | EndDone nat | Running

datatype main_effect =
    Logged log_entry
  | PrintVersion | PrintHelp | DumpConfig bool
  | Sock sock_effect
  | MakeDirectories string
  | OpenWal string
  | OpenReader string string
  | WriteMetricsFile bool

fun ParseArgs :: "bool \<Rightarrow> string list \<Rightarrow> main_end \<times> bool \<times> main_effect list" where
  "ParseArgs NoStdin [] = (Running, NoStdin, [])"
| "ParseArgs NoStdin (p # ps) =
     (if equal_nocase p ''--version'' \<or> equal_nocase p ''-version'' then (EndDone 0, NoStdin, [PrintVersion])
      else if equal_nocase p ''-help'' \<or> equal_nocase p ''-h'' \<or> equal_nocase p ''-?'' then (ReturnNow 0, NoStdin, [PrintHelp])
      else if equal_nocase p ''-config'' \<or> equal_nocase p ''-cfg'' then (ReturnNow 0, NoStdin, [DumpConfig False])
      else if equal_nocase p ''-env'' then (ReturnNow 0, NoStdin, [DumpConfig True])
      else if equal_nocase p ''-nostdin'' then ParseArgs True ps
      else (ReturnNow 1, NoStdin, [Logged (ErrorLine ''Invalid parameter'' (Some p))]))"

section \<open>The start\<close>

record start_env =
  se_strerror :: "nat \<Rightarrow> string"
  se_hostname :: "string option"
  se_cwd :: "string option"
  se_writable :: "string \<Rightarrow> bool"           \<comment> \<open>a directory which can be written\<close>
  se_old_wal :: bool                          \<comment> \<open>there is an old WAL file which is not empty\<close>
  se_wal_init :: "string \<Rightarrow> bool"           \<comment> \<open>the WAL opens\<close>
  se_state_dir :: "string \<Rightarrow> bool"          \<comment> \<open>the directory exists and cannot be written\<close>
  se_unix :: unix_env
  se_syslog :: unix_env
  se_inet :: inet_env

record started =
  sd_Config :: config
  sd_NoStdin :: bool
  sd_bWalOpened :: bool
  sd_bFileInput :: bool
  sd_bUnix :: bool
  sd_bTcp :: bool
  sd_bSyslog :: bool

text \<open>The file input: whether it is enabled, and what is done.\<close>

definition StartFileInput :: "start_env \<Rightarrow> config \<Rightarrow> bool \<times> main_effect list" where
  "StartFileInput e c =
     (if cf_szFileInput c = [] then (False, [])
      else if cf_szOtlpPushApiURL c = [] then (False, [Logged (ErrorLine ''The file input needs OTLP_PUSH_API_URL. The file input is disabled'' None)])
      else
        let StateDir = (case find_last CHR ''/'' (cf_szFileStateFile c) of
              None \<Rightarrow> ''.'' | Some Slash \<Rightarrow> if Slash = 0 then ''/'' else take Slash (cf_szFileStateFile c));
            effs = (if cf_szFileStateDir c \<noteq> [] then [MakeDirectories (cf_szFileStateFile c)] else []) @
              (if se_state_dir e StateDir then [Logged (ErrorLine (''The directory of the state file of the file input is not writable: the position cannot be saved, '' @
                 ''and a restart reads the file again. Set OTELFWD_FILE_STATE_DIR'') (Some StateDir))] else [])
        in if cf_szFileStateFile c = [] then (False, effs @ [Logged (ErrorLine ''The file input cannot be started'' (Some (cf_szFileInput c)))])
           else (True, effs @ [OpenReader (cf_szFileInput c) (cf_szFileStateFile c)]))"

text \<open>The socket inputs: the settings with the default socket, which inputs are enabled, and what is done.\<close>

definition StartSockets :: "start_env \<Rightarrow> bool \<Rightarrow> config \<Rightarrow> config \<times> (bool \<times> bool \<times> bool) \<times> main_effect list" where
  "StartSockets e NoStdin c0 =
     (let c = (if UseDefaultUnixSocket NoStdin c0 then c0\<lparr>cf_szUnixSocketPath := copy_to 1100 (GetDefaultUnixSocketPath c0)\<rparr> else c0);
          dirs = (if UseDefaultUnixSocket NoStdin c0 then [MakeDirectories (cf_szUnixSocketPath c)] else []);
          run = (\<lambda>on listener. if on then listener else (False, [], []));
          effects = (\<lambda>(ok, effs, logs). map Sock effs @ map Logged logs)
      in if cf_szUnixSocketPath c = [] \<and> cf_szTcpListen c = [] \<and> cf_szSyslogSocketPath c = [] then (c, (False, False, False), dirs)
         else if cf_szOtlpPushApiURL c = [] then
           (c, (False, False, False), dirs @ [Logged (ErrorLine ''Socket inputs need OTLP_PUSH_API_URL. Socket inputs are disabled'' None)])
         else
           let u = run (cf_szUnixSocketPath c \<noteq> []) (CreateUnixListener (se_strerror e) (se_unix e) ''Unix'' (cf_szUnixSocketPath c) (cf_UnixSocketMode c) False);
               t = run (cf_szTcpListen c \<noteq> []) (CreateTcpListener (se_strerror e) (se_inet e) ''TCP'' (cf_szTcpListen c));
               y = run (cf_szSyslogSocketPath c \<noteq> [])
                     (CreateUnixListener (se_strerror e) (se_syslog e) ''Syslog'' (cf_szSyslogSocketPath c) (cf_SyslogSocketMode c) True)
           in (c, (fst u, fst t, fst y), dirs @ effects u @ effects t @ effects y))"

definition start_checks :: "start_env \<Rightarrow> env \<Rightarrow> bool \<Rightarrow> config \<Rightarrow> config \<times> main_effect list" where
  "start_checks e env NoStdin c0 =
     (case ValidateBackupConfig env c0 of (backup_log, c) \<Rightarrow>
        (c, map Logged
          ((if env ''LOKI_PUSH_API_URL'' \<noteq> None then [ErrorLine (''LOKI_PUSH_API_URL is not supported anymore. Version 2.0 only pushes to OTLP. '' @
              ''Please configure OTLP_PUSH_API_URL (see README)'') None] else []) @
           ValidatePushEncoding env @ ValidateWalRetryConfig env @ ValidateWalMaxConfig env @ ValidateFileConfig env @ backup_log @
           (if se_old_wal e then [Message (''Warning: Ignoring unsent data of a version before 2.0 in an old WAL file '' @
              ''(Loki push format is not supported anymore)'')] else []) @
           (if NoStdin \<and> (cf_Mirror2Stdout c \<noteq> 0 \<or> cf_szOutputLogFile c \<noteq> []) then
              [Message (''Warning: OTELFWD_MIRROR_STDOUT and OTELFWD_OUTPUT_LOG only apply to lines read from STDIN. '' @
                 ''They are ignored with -nostdin'')] else [])) @
          [MakeDirectories (cf_szMetricsFileName c)]))"

text \<open>The last part: the inputs, one of which a standalone instance needs.\<close>

definition StartInputs :: "start_env \<Rightarrow> bool \<Rightarrow> config \<Rightarrow> started \<Rightarrow> main_effect list \<Rightarrow> main_end \<times> started \<times> main_effect list" where
  "StartInputs e NoStdin c s1 effs1 =
     (case StartFileInput e c of (bFile, effs2) \<Rightarrow>
      case StartSockets e NoStdin c of (c2, (bUnix, bTcp, bSyslog), effs3) \<Rightarrow>
        let s2 = s1\<lparr>sd_Config := c2, sd_bFileInput := bFile, sd_bUnix := bUnix, sd_bTcp := bTcp, sd_bSyslog := bSyslog\<rparr>
        in if NoStdin \<and> \<not> bUnix \<and> \<not> bTcp \<and> \<not> bSyslog \<and> \<not> bFile then
             (EndDone 1, s2, effs1 @ effs2 @ effs3 @ [Logged (ErrorLine (''-nostdin needs at least one working input (OTELFWD_UNIX_SOCKET, '' @
                ''OTELFWD_TCP_LISTEN, OTELFWD_SYSLOG_SOCKET or OTELFWD_FILE_INPUT, and OTLP_PUSH_API_URL)'') None)])
           else (Running, s2, effs1 @ effs2 @ effs3))"

text \<open>\<^verbatim>\<open>main\<close> up to the start of the threads. The summary of the settings in the log is left out.\<close>

definition Start :: "start_env \<Rightarrow> env \<Rightarrow> string list \<Rightarrow> main_end \<times> started \<times> main_effect list" where
  "Start e env args =
     (let c0 = ReadConfig (se_hostname e) (se_cwd e) env;
          none = \<lparr>sd_Config = c0, sd_NoStdin = False, sd_bWalOpened = False, sd_bFileInput = False, sd_bUnix = False, sd_bTcp = False, sd_bSyslog = False\<rparr>
      in if \<not> se_writable e (cf_szDataDir c0) then
           (EndDone 0, none\<lparr>sd_Config := c0\<lparr>cf_szMetricsFileName := []\<rparr>\<rparr>,
            [Logged (ErrorLine ''Cannot write to the data directory (OTELFWD_DATA_DIR)'' None)])
         else case ParseArgs False args of
           (EndDone n, NoStdin, effs) \<Rightarrow> (EndDone n, none\<lparr>sd_NoStdin := NoStdin\<rparr>, effs)
         | (ReturnNow n, NoStdin, effs) \<Rightarrow> (ReturnNow n, none\<lparr>sd_NoStdin := NoStdin\<rparr>, effs)
         | (Running, NoStdin, effs) \<Rightarrow>
             (case start_checks e env NoStdin c0 of (c, checks) \<Rightarrow>
                let WalOpened = (cf_szOtlpPushApiURL c \<noteq> [] \<and> se_wal_init e (cf_szWalFile c));
                    effs1 = checks @ (if cf_szOtlpPushApiURL c \<noteq> [] then [OpenWal (cf_szWalFile c)] else []);
                    s1 = none\<lparr>sd_Config := c, sd_NoStdin := NoStdin, sd_bWalOpened := WalOpened\<rparr>
                in if NoStdin \<and> cf_szOtlpPushApiURL c \<noteq> [] \<and> \<not> WalOpened then
                     (EndDone 1, s1\<lparr>sd_bFileInput := (cf_szFileInput c \<noteq> [])\<rparr>, effs1 @ [Logged (ErrorLine (''-nostdin needs a WAL and it cannot be opened, see the message above. '' @
                        ''Every instance needs its own OTELFWD_DATA_DIR'') (Some (cf_szWalFile c)))])
                   else StartInputs e NoStdin c s1 effs1))"

text \<open>What follows behind the label \<^verbatim>\<open>Done\<close>, and the exit code.\<close>

definition Done_effects :: "started \<Rightarrow> main_effect list" where
  "Done_effects s = (if cf_szMetricsFileName (sd_Config s) \<noteq> [] then [WriteMetricsFile True] else []) @ [Logged (Message ''Shutdown completed'')]"

definition start_result :: "main_end \<times> started \<times> main_effect list \<Rightarrow> nat option \<times> main_effect list" where
  "start_result r =
     (case r of
        (ReturnNow n, s, effs) \<Rightarrow> (Some n, effs)
      | (EndDone n, s, effs) \<Rightarrow> (Some n, effs @ Done_effects s)
      | (Running, s, effs) \<Rightarrow> (None, effs))"

end
