(* ===== verification/StartupTheorems.thy ===== *)
theory StartupTheorems imports Startup SettingsTheorems begin

text \<open>
  What the start of otelfwd guarantees: a standalone instance has a target, a WAL and an input, the pipe mode goes on, and the sockets are local.
\<close>

lemma ParseArgs_running: "ParseArgs b args = (Running, n, effs) \<Longrightarrow> effs = [] \<and> (n = b \<or> n)"
  by (induction b args rule: ParseArgs.induct) (auto split: if_splits)

lemma start_running_cases:
  assumes "Start e env args = (Running, s, effs)"
  obtains c c2 NoStdin bFile bU bT bY effs2 effs3 where
    "StartFileInput e c = (bFile, effs2)" "StartSockets e NoStdin c = (c2, (bU, bT, bY), effs3)"
    "sd_NoStdin s = NoStdin" "sd_Config s = c2" "sd_bFileInput s = bFile" "sd_bUnix s = bU" "sd_bTcp s = bT" "sd_bSyslog s = bY"
    "NoStdin \<Longrightarrow> cf_szOtlpPushApiURL c \<noteq> [] \<Longrightarrow> sd_bWalOpened s" "NoStdin \<Longrightarrow> bU \<or> bT \<or> bY \<or> bFile"
proof -
  define c0 where "c0 = ReadConfig (se_hostname e) (se_cwd e) env"
  define none where "none = \<lparr>sd_Config = c0, sd_NoStdin = False, sd_bWalOpened = False, sd_bFileInput = False, sd_bUnix = False, sd_bTcp = False, sd_bSyslog = False\<rparr>"
  have w: "se_writable e (cf_szDataDir c0)"
    using assms by (auto simp: Start_def c0_def Let_def split: if_splits)
  obtain m n effs0 where p: "ParseArgs False args = (m, n, effs0)" by (metis prod_cases3)
  have m: "m = Running"
    using assms w p by (cases m) (auto simp: Start_def c0_def Let_def)
  obtain c checks where k: "start_checks e env n c0 = (c, checks)" by force
  let ?wal = "cf_szOtlpPushApiURL c \<noteq> [] \<and> se_wal_init e (cf_szWalFile c)"
  define s1 where "s1 = none\<lparr>sd_Config := c, sd_NoStdin := n, sd_bWalOpened := ?wal\<rparr>"
  define effs1 where "effs1 = checks @ (if cf_szOtlpPushApiURL c \<noteq> [] then [OpenWal (cf_szWalFile c)] else [])"
  have a: "\<not> (n \<and> cf_szOtlpPushApiURL c \<noteq> [] \<and> \<not> ?wal)" and i: "StartInputs e n c s1 effs1 = (Running, s, effs)"
    using assms w p k unfolding m Start_def Let_def c0_def [symmetric] none_def [symmetric] s1_def effs1_def by (auto split: if_split_asm)
  obtain bFile effs2 where f: "StartFileInput e c = (bFile, effs2)" by force
  obtain c2 bU bT bY effs3 where y: "StartSockets e n c = (c2, (bU, bT, bY), effs3)" by (metis surj_pair)
  have b: "\<not> (n \<and> \<not> bU \<and> \<not> bT \<and> \<not> bY \<and> \<not> bFile)"
    and s: "s = s1\<lparr>sd_Config := c2, sd_bFileInput := bFile, sd_bUnix := bU, sd_bTcp := bT, sd_bSyslog := bY\<rparr>"
    using i f y unfolding StartInputs_def Let_def by (auto split: if_split_asm)
  have "sd_NoStdin s = n" "sd_Config s = c2" "sd_bFileInput s = bFile" "sd_bUnix s = bU" "sd_bTcp s = bT" "sd_bSyslog s = bY"
    "sd_bWalOpened s = ?wal"
    unfolding s s1_def by simp_all
  with f y a b that show thesis
    by blast
qed

lemma StartSockets_url:
  assumes "StartSockets e n c = (c2, (bU, bT, bY), effs)"
  shows "cf_szOtlpPushApiURL c2 = cf_szOtlpPushApiURL c \<and> (bU \<or> bT \<or> bY \<longrightarrow> cf_szOtlpPushApiURL c \<noteq> [])"
  using assms by (auto simp: StartSockets_def Let_def split: if_splits)

lemma StartFileInput_url: "StartFileInput e c = (True, effs) \<Longrightarrow> cf_szOtlpPushApiURL c \<noteq> []"
  by (auto simp: StartFileInput_def Let_def split: if_splits)


definition some_unix :: unix_env where
  "some_unix = \<lparr>ue_lstat = Some True, ue_probe = 0, ue_connect = ECONNREFUSED, ue_socket = 0, ue_bind = 0, ue_chmod = 0, ue_listen = 0\<rparr>"

definition some_start :: start_env where
  "some_start = \<lparr>se_strerror = (\<lambda>_. ''error''), se_hostname = Some ''host'', se_cwd = None, se_writable = (\<lambda>_. True), se_old_wal = False,
     se_wal_init = (\<lambda>_. True), se_state_dir = (\<lambda>_. False), se_unix = some_unix, se_syslog = some_unix,
     se_inet = \<lparr>ie_pton4 = (\<lambda>_. None), ie_pton6 = (\<lambda>_. None), ie_socket = 0, ie_bind = 0, ie_listen = 0\<rparr>\<rparr>"


text \<open>The comment in \<^verbatim>\<open>main\<close> says that nothing is done before the parameters are read, but asking for the version does
  something: the metrics file of the data directory is written, as if this process had run and been shut down, over the file of an instance which runs.
  And with a data directory which cannot be written not even the help is printed, and the exit code is 0.\<close>

theorem asking_for_the_version_writes_the_metrics:
  assumes "se_writable e (cf_szDataDir (ReadConfig (se_hostname e) (se_cwd e) env))" and "env ''OTELFWD_PROM_FILE'' = None"
    and "\<not> se_writable e' (cf_szDataDir (ReadConfig (se_hostname e') (se_cwd e') env))"
  shows "start_result (Start e env [''-version'']) = (Some 0, [PrintVersion, WriteMetricsFile True, Logged (Message ''Shutdown completed'')]) \<and>
    fst (start_result (Start e' env [''-help''])) = Some 0 \<and> PrintHelp \<notin> set (snd (start_result (Start e' env [''-help''])))"
proof -
  have p: "ParseArgs False [''-version''] = (EndDone 0, False, [PrintVersion])"
    by (simp add: equal_nocase_def)
  have "cf_szMetricsFileName (ReadConfig (se_hostname e) (se_cwd e) env) \<noteq> []"
  proof -
    define DataDir where "DataDir = env_text env ''OTELFWD_DATA_DIR'' 1024 ''/local/notesdata''"
    have "fits 1024 DataDir"
      unfolding DataDir_def by (rule fits_env_text) (simp_all add: fits_def)
    then have "copy_to 2048 (DataDir @ ''/domino/stats/otelfwd.prom'') \<noteq> []"
      by (cases DataDir) (auto simp: fits_def copy_to_def c_str_def)
    then show ?thesis
      using assms(2) by (simp add: ReadConfig_def Let_def env_text_def [of env "''OTELFWD_PROM_FILE''"] DataDir_def)
  qed
  then have "start_result (Start e env [''-version'']) = (Some 0, [PrintVersion, WriteMetricsFile True, Logged (Message ''Shutdown completed'')])"
    using assms(1) p by (simp add: Start_def Let_def start_result_def Done_effects_def)
  moreover have "start_result (Start e' env [''-help'']) =
      (Some 0, [Logged (ErrorLine ''Cannot write to the data directory (OTELFWD_DATA_DIR)'' None), Logged (Message ''Shutdown completed'')])"
    using assms(3) by (simp add: Start_def Let_def start_result_def Done_effects_def)
  ultimately show ?thesis
    by simp
qed

theorem asking_for_the_version_writes_the_metrics_witness:
  "start_result (Start some_start Map.empty [''-version'']) = (Some 0, [PrintVersion, WriteMetricsFile True, Logged (Message ''Shutdown completed'')])"
  using asking_for_the_version_writes_the_metrics [of some_start Map.empty "some_start\<lparr>se_writable := \<lambda>_. False\<rparr>"] by (simp add: some_start_def)

section \<open>Sockets\<close>

text \<open>The effects before the own socket is bound.\<close>

definition before_bind :: "sock_effect list \<Rightarrow> sock_effect list" where
  "before_bind effs = takeWhile (\<lambda>x. case x of Bind_unix p m \<Rightarrow> False | _ \<Rightarrow> True) effs"

text \<open>The inputs are open to this machine only, and no socket of another process is taken away: a TCP input is only ever bound to 127.0.0.0/8 or ::1, a Unix
  socket is created without access for others and gets its mode afterwards, and what was at its path is only removed if it is a socket on
  which nobody listens. This holds whatever the calls of the system return.\<close>

theorem listeners_are_local:
  assumes "CreateTcpListener strerror ie title spec = (ok, effs, logs)" and "CreateUnixListener strerror ue utitle path mode dgram = (uok, ueffs, ulogs)"
  shows "(\<forall>a p. Bind_inet a p \<in> set effs \<longrightarrow> (hd a = 127 \<or> a = replicate 15 0 @ [1]) \<and> 0 < p \<and> p < 2 ^ 16) \<and>
    (\<forall>x \<in> set ueffs. x = Bind_unix path 0x7F \<or> x = Chmod path mode \<or> x = Unlink path) \<and>
    (Unlink path \<in> set (before_bind ueffs) \<longrightarrow> ue_lstat ue = Some True \<and> ue_connect ue = ECONNREFUSED) \<and>
    (uok \<longrightarrow> last ueffs = Chmod path mode \<and> Bind_unix path 0x7F \<in> set ueffs)"
proof -
  have "(hd a = 127 \<or> a = replicate 15 0 @ [1]) \<and> 0 < p \<and> p < 2 ^ 16" if "Bind_inet a p \<in> set effs" for a p
  proof -
    show ?thesis
    proof (cases "find_last CHR '':'' spec")
      case None
      then show ?thesis
        using assms(1) that by (simp add: CreateTcpListener_def)
    next
      case (Some Colon)
      obtain Port rest where p: "c_strtoul (drop (Colon + 1) spec) = (Port, rest)" by force
      show ?thesis
        using assms(1) that Some p by (auto simp: CreateTcpListener_def Let_def split: if_splits option.splits)
    qed
  qed
  moreover have "(\<forall>x \<in> set ueffs. x = Bind_unix path 0x7F \<or> x = Chmod path mode \<or> x = Unlink path) \<and>
    (Unlink path \<in> set (before_bind ueffs) \<longrightarrow> ue_lstat ue = Some True \<and> ue_connect ue = ECONNREFUSED) \<and>
    (uok \<longrightarrow> last ueffs = Chmod path mode \<and> Bind_unix path 0x7F \<in> set ueffs)"
    using assms(2) by (auto simp: CreateUnixListener_def Let_def before_bind_def split: if_splits option.splits)
  ultimately show ?thesis
    by blast
qed

theorem listeners_are_local_witness:
  "Unlink ''/s'' \<in> set (before_bind (fst (snd (CreateUnixListener (\<lambda>_. []) some_unix ''Unix'' ''/s'' 0x180 False)))) \<and>
   ue_connect some_unix = ECONNREFUSED"
proof -
  obtain uok ueffs ulogs where u: "CreateUnixListener (\<lambda>_. []) some_unix ''Unix'' ''/s'' 0x180 False = (uok, ueffs, ulogs)" by (metis prod_cases3)
  obtain ok effs logs where t: "CreateTcpListener (\<lambda>_. []) (se_inet some_start) ''TCP'' [] = (ok, effs, logs)" by (metis prod_cases3)
  have "Unlink ''/s'' \<in> set (before_bind ueffs)"
    using u by (auto simp: CreateUnixListener_def some_unix_def SUN_PATH_def before_bind_def)
  with listeners_are_local [OF t u] u show ?thesis
    by simp
qed

end
