(* ===== verification/Metrics.thy ===== *)
theory Metrics imports Startup Health PushTheorems begin

text \<open>
  The health and the metrics file of otelfwd (\<^verbatim>\<open>UpdateHealth\<close> and \<^verbatim>\<open>WriteMetrics\<close> of
  \<^verbatim>\<open>otelfwd.cpp\<close>). The file is written under another name and renamed; what is modelled is its text.
\<close>

section \<open>Health\<close>

text \<open>The static variables of \<^verbatim>\<open>UpdateHealth\<close>.\<close>

record push_health =
  ph_Success :: nat
  ph_Errors :: nat
  ph_bFailing :: bool

definition new_push_health :: push_health where
  "new_push_health = \<lparr>ph_Success = 0, ph_Errors = 0, ph_bFailing = False\<rparr>"

definition UpdateHealth :: "int \<Rightarrow> started \<Rightarrow> nat \<Rightarrow> 'n forwarder \<Rightarrow> push_health \<times> HealthMonitor \<Rightarrow> push_health \<times> HealthMonitor" where
  "UpdateHealth tNow d WalSize s = (\<lambda>(p, h).
     let NewSuccess = o_PushSuccess s + o_PushRetrySuccess s;
         NewErrors = o_PushErrors s + o_PushRetryErrors s;
         Failing = (if NewSuccess > ph_Success p then False else if NewErrors > ph_Errors p then True else ph_bFailing p);
         inp = \<lparr>bUnreachable = Failing, bWalFailed = (cf_szOtlpPushApiURL (sd_Config d) \<noteq> [] \<and> \<not> sd_bWalOpened d),
                WalBytes = (if sd_bWalOpened d then WalSize else 0), WalMaxBytes = cf_WalMaxMB (sd_Config d) * 1024 * 1024,
                Dropped = o_WalRefused s, Rejected = o_PushRejected s\<rparr>
     in (\<lparr>ph_Success = NewSuccess, ph_Errors = NewErrors, ph_bFailing = Failing\<rparr>, snd (Update True tNow inp h)))"

section \<open>The metrics file\<close>

text \<open>The names are without the prefix \<^verbatim>\<open>otelfwd_\<close>.\<close>

datatype metric_line = Help string string | TypeOf string string | Sample string nat

definition PromMetricName :: "string \<Rightarrow> string \<Rightarrow> string" where
  "PromMetricName Instance StatName = PromAddLabel (''otelfwd_'' @ StatName) ''otelfwd_instance'' Instance"

fun metric_text :: "string \<Rightarrow> metric_line \<Rightarrow> string" where
  "metric_text Instance (Help n d) = ''# HELP otelfwd_'' @ n @ '' '' @ d @ [CHR 0x0A]"
| "metric_text Instance (TypeOf n t) = ''# TYPE otelfwd_'' @ n @ '' '' @ t @ [CHR 0x0A]"
| "metric_text Instance (Sample n v) = PromMetricName Instance n @ '' '' @ dec_text v @ [CHR 0x0A]"

definition WriteHelpAndType :: "string \<Rightarrow> string \<Rightarrow> string \<Rightarrow> metric_line list" where
  "WriteHelpAndType StatName MetricType Description =
     (if StatName = [] then [] else [Help StatName Description, TypeOf StatName (if MetricType = [] then ''gauge'' else MetricType)])"

definition WriteStatsEntryToFile :: "nat \<Rightarrow> string \<Rightarrow> metric_line list" where
  "WriteStatsEntryToFile ValueNum StatName = [Sample StatName ValueNum]"

definition WriteStatsEntryToFileWithHelp :: "nat \<Rightarrow> string \<Rightarrow> string \<Rightarrow> string \<Rightarrow> metric_line list" where
  "WriteStatsEntryToFileWithHelp ValueNum StatName MetricType Description =
     WriteHelpAndType StatName MetricType Description @ [Sample StatName ValueNum]"

text \<open>The counters which are read: of the inputs, of the file thread and of the other threads.\<close>

record 'n measured =
  me_Started :: started
  me_tStart :: nat
  me_tNow :: nat
  me_Forwarder :: "'n forwarder"
  me_File :: file_thread
  me_WalSize :: nat
  me_Health :: HealthMonitor
  me_Unix :: ingest_source
  me_Tcp :: ingest_source
  me_Syslog :: ingest_source

definition quoted :: "string \<Rightarrow> string" where
  "quoted s = [QUOTE] @ s @ [QUOTE]"

definition WriteIngestMetrics :: "bool \<Rightarrow> string \<Rightarrow> ingest_source \<Rightarrow> metric_line list" where
  "WriteIngestMetrics bEnabled name src =
     (if \<not> bEnabled then []
      else
        let line = (\<lambda>result v. WriteStatsEntryToFile v (''socket_lines_total{source='' @ quoted name @ '',result='' @ quoted result @ ''}''))
        in line ''accepted'' (is_Accepted src) @ line ''dropped'' (is_Dropped src) @ line ''invalid'' (is_Invalid src))"

definition WriteIngestConnectionMetrics :: "bool \<Rightarrow> string \<Rightarrow> ingest_source \<Rightarrow> metric_line list" where
  "WriteIngestConnectionMetrics bEnabled name src =
     (if \<not> bEnabled then []
      else
        let line = (\<lambda>result v. WriteStatsEntryToFile v (''socket_connections_total{source='' @ quoted name @ '',result='' @ quoted result @ ''}''))
        in line ''accepted'' (is_Connections src) @ line ''rejected'' (is_Rejected src))"

definition labelled :: "string \<Rightarrow> string \<Rightarrow> nat \<Rightarrow> metric_line list" where
  "labelled name label v = WriteStatsEntryToFile v (name @ ''{result='' @ quoted label @ ''}'')"

definition endpoint_requests :: "PushFailover \<Rightarrow> metric_line list" where
  "endpoint_requests f =
     concat (map (\<lambda>(e, en). concat (map (\<lambda>(a, an). WriteStatsEntryToFile (nat (m_Requests f e a))
        (''push_endpoint_requests_total{endpoint='' @ quoted en @ '',result='' @ quoted an @ ''}''))
        [(PUSH_ACCEPTED, ''accepted''), (PUSH_RETRY, ''retry''), (PUSH_REJECTED, ''rejected'')]))
        [(PUSH_PRIMARY, ''primary''), (PUSH_BACKUP, ''backup'')])"

definition metrics_process :: "'n measured \<Rightarrow> metric_line list" where
  "metrics_process m =
     (let s = me_Forwarder m
      in WriteStatsEntryToFileWithHelp 20000 ''build_number'' ''gauge'' ''otelfwd Build Version 2.0.0'' @
         WriteStatsEntryToFileWithHelp (me_tStart m) ''started_timestamp_seconds'' ''gauge'' ''Unix timestamp when forwarder was started'' @
         WriteStatsEntryToFileWithHelp ((me_tNow m + 2 ^ 64 - me_tStart m) mod 2 ^ 64) ''uptime_seconds'' ''gauge'' ''Uptime in seconds'' @
         WriteStatsEntryToFileWithHelp (me_tNow m) ''lastupdate_timestamp_seconds'' ''gauge'' ''Unix timestamp for last metrics update'' @
         WriteStatsEntryToFileWithHelp (o_LogLines s) ''lines_received_total'' ''gauge'' ''Total number of log lines received by forwarder'' @
         WriteHelpAndType ''push_total'' ''counter'' ''Total number of log lines pushed to the destination, labeled by result'' @
         labelled ''push_total'' ''success'' (o_PushSuccess s) @ labelled ''push_total'' ''error'' (o_PushErrors s) @
         WriteHelpAndType ''push_retry_total'' ''counter''
           ''Total number of WAL records (one push request each) replayed to the destination, labeled by result'' @
         labelled ''push_retry_total'' ''success'' (o_PushRetrySuccess s) @ labelled ''push_retry_total'' ''error'' (o_PushRetryErrors s) @
         WriteStatsEntryToFileWithHelp (o_PushRejected s) ''push_rejected_total'' ''counter''
           (''Total number of push requests which are dropped for good, not kept in the WAL: the receiver refused them as bad data (HTTP 400), '' @
            ''or they could not be converted to protobuf''))"

definition metrics_file :: "'n measured \<Rightarrow> metric_line list" where
  "metrics_file m =
     (if \<not> sd_bFileInput (me_Started m) then []
      else
        WriteStatsEntryToFileWithHelp (ft_FileLines (me_File m)) ''file_lines_total'' ''counter''
          ''Total number of lines read from the file input and queued (empty lines are skipped)'' @
        WriteStatsEntryToFileWithHelp (ft_FileTruncated (me_File m)) ''file_lines_truncated_total'' ''counter''
          ''Total number of lines of the file input which were longer than 1 MB and were cut'' @
        WriteStatsEntryToFileWithHelp (ft_FileCommitted (me_File m)) ''file_committed_offset_bytes'' ''gauge''
          (''Position in the file up to which the lines were delivered (accepted, or kept in the WAL). '' @
           ''It starts again at 0 when the file is rotated or truncated'') @
        WriteStatsEntryToFileWithHelp (if ft_FileOpen (me_File m) then 1 else 0) ''file_open'' ''gauge''
          ''1 if the file of the file input is open, 0 if it does not exist'')"

definition metrics_push :: "'n measured \<Rightarrow> metric_line list" where
  "metrics_push m =
     (let s = me_Forwarder m; d = me_Started m; f = o_Failover s
      in (if cf_szOtlpPushApiURL (sd_Config d) \<noteq> [] then
            WriteStatsEntryToFileWithHelp (o_WalRefused s) ''wal_refused_total'' ''counter''
              ''Total number of push requests which the WAL did not take (it was full, or a failure). They are lost'' @
            WriteStatsEntryToFileWithHelp (if sd_bWalOpened d then me_WalSize m else 0) ''wal_bytes'' ''gauge''
              ''Size of the WAL: push requests which wait on disk for the receiver''
          else []) @
         WriteStatsEntryToFileWithHelp (health_number (h_State (me_Health m))) ''health'' ''gauge''
           ''Health for alerting: 0 is OK, 1 is a warning, 2 is an error'' @
         (if cf_bPushProtobuf (sd_Config d) then
            WriteStatsEntryToFileWithHelp (o_PushConvertErrors s) ''push_convert_errors_total'' ''counter''
              (''Total number of push requests which could not be converted from JSON to protobuf. They are dropped, '' @
               ''and counted in push_rejected_total too'')
          else []) @
         (if m_bHasBackup f then
            WriteStatsEntryToFileWithHelp (if m_Active f = PUSH_PRIMARY then 0 else 1) ''push_endpoint_active'' ''gauge''
              ''OTLP endpoint in use: 0 is the primary, 1 is the backup'' @
            WriteHelpAndType ''push_endpoint_requests_total'' ''counter''
              (''Total number of push requests to an OTLP endpoint, labeled by endpoint and result (accepted, retry, rejected). '' @
               ''A try of the primary while the backup is in use counts too'') @
            endpoint_requests f @
            WriteStatsEntryToFileWithHelp (nat (m_Failovers f)) ''push_failovers_total'' ''counter''
              ''Number of times the backup endpoint was taken into use because the primary failed'' @
            WriteStatsEntryToFileWithHelp (nat (m_Failbacks f)) ''push_failbacks_total'' ''counter''
              ''Number of times the primary endpoint was taken into use again''
          else []))"

definition metrics_sockets :: "'n measured \<Rightarrow> metric_line list" where
  "metrics_sockets m =
     (let d = me_Started m
      in if sd_bUnix d \<or> sd_bTcp d \<or> sd_bSyslog d then
           WriteHelpAndType ''socket_lines_total'' ''counter'' ''Total number of lines received on socket inputs, labeled by source and result'' @
           WriteIngestMetrics (sd_bUnix d) ''unix'' (me_Unix m) @ WriteIngestMetrics (sd_bTcp d) ''tcp'' (me_Tcp m) @
           WriteIngestMetrics (sd_bSyslog d) ''syslog'' (me_Syslog m) @
           (if sd_bUnix d \<or> sd_bTcp d then
              WriteHelpAndType ''socket_connections_total'' ''counter''
                ''Total number of connections on socket inputs, labeled by source and result'' @
              WriteIngestConnectionMetrics (sd_bUnix d) ''unix'' (me_Unix m) @ WriteIngestConnectionMetrics (sd_bTcp d) ''tcp'' (me_Tcp m)
            else [])
         else [])"

text \<open>\<open>None\<close>: false, nothing is written. \<open>bOpened\<close>: the temporary file can be opened.\<close>

definition WriteMetrics :: "bool \<Rightarrow> bool \<Rightarrow> 'n measured \<Rightarrow> metric_line list option" where
  "WriteMetrics bOpened bShutdown m =
     (if cf_szMetricsFileName (sd_Config (me_Started m)) = [] \<or> \<not> bOpened then None
      else Some (metrics_process m @ metrics_file m @ metrics_push m @ metrics_sockets m @
        (if bShutdown then
           WriteStatsEntryToFileWithHelp (me_tNow m) ''shutdown_timestamp_seconds'' ''gauge'' ''Unix timestamp when forwarder was shutdown'' else [])))"

section \<open>One group for each metric\<close>

text \<open>The format of Prometheus: a metric is announced once, with its help and its type, and its samples follow directly.\<close>

fun grouped :: "string \<Rightarrow> string list \<Rightarrow> metric_line list \<Rightarrow> bool" where
  "grouped current seen [] = True"
| "grouped current seen (Sample n v # ls) = (takeWhile (\<lambda>c. c \<noteq> CHR ''{'') n = current \<and> grouped current seen ls)"
| "grouped current seen (Help n d # TypeOf n' t # ls) = (n = n' \<and> n \<noteq> [] \<and> n \<notin> set seen \<and> grouped n (n # seen) ls)"
| "grouped current seen ls = False"

lemma names:
  "WriteHelpAndType n t d = (if n = [] then [] else [Help n d, TypeOf n (if t = [] then ''gauge'' else t)])"
  "WriteStatsEntryToFileWithHelp v n t d = WriteHelpAndType n t d @ [Sample n v]"
  "WriteStatsEntryToFile v n = [Sample n v]"
  by (simp_all add: WriteHelpAndType_def WriteStatsEntryToFileWithHelp_def WriteStatsEntryToFile_def)

definition process_names :: "string list" where
  "process_names = [''push_rejected_total'', ''push_retry_total'', ''push_total'', ''lines_received_total'', ''lastupdate_timestamp_seconds'',
     ''uptime_seconds'', ''started_timestamp_seconds'', ''build_number'']"

definition file_names :: "string list" where
  "file_names = [''file_open'', ''file_committed_offset_bytes'', ''file_lines_truncated_total'', ''file_lines_total'']"

lemma process_step:
  "grouped c [] (metrics_process m @ ls) = grouped ''push_rejected_total'' process_names ls"
  by (simp add: metrics_process_def names labelled_def Let_def process_names_def)

lemma file_step_names:
  "grouped c process_names (metrics_file m @ ls) =
     (if sd_bFileInput (me_Started m) then grouped ''file_open'' (file_names @ process_names) ls else grouped c process_names ls)"
  by (simp add: metrics_file_def names process_names_def file_names_def)

definition push_names :: "bool \<Rightarrow> bool \<Rightarrow> bool \<Rightarrow> string list" where
  "push_names url protobuf backup =
     (if backup then [''push_failbacks_total'', ''push_failovers_total'', ''push_endpoint_requests_total'', ''push_endpoint_active''] else []) @
     (if protobuf then [''push_convert_errors_total''] else []) @ [''health''] @
     (if url then [''wal_bytes'', ''wal_refused_total''] else [])"

lemma push_step_names:
  assumes "s \<in> {process_names, file_names @ process_names}"
  shows "grouped c s (metrics_push m @ ls) =
    grouped (hd (push_names (cf_szOtlpPushApiURL (sd_Config (me_Started m)) \<noteq> []) (cf_bPushProtobuf (sd_Config (me_Started m)))
       (m_bHasBackup (o_Failover (me_Forwarder m)))))
     (push_names (cf_szOtlpPushApiURL (sd_Config (me_Started m)) \<noteq> []) (cf_bPushProtobuf (sd_Config (me_Started m)))
       (m_bHasBackup (o_Failover (me_Forwarder m))) @ s) ls"
proof -
  define u where "u = (cf_szOtlpPushApiURL (sd_Config (me_Started m)) \<noteq> [])"
  define p where "p = cf_bPushProtobuf (sd_Config (me_Started m))"
  define b where "b = m_bHasBackup (o_Failover (me_Forwarder m))"
  have "grouped c s (metrics_push m @ ls) = grouped (hd (push_names u p b)) (push_names u p b @ s) ls"
    using assms unfolding metrics_push_def Let_def u_def [symmetric] p_def [symmetric] b_def [symmetric]
    by (cases u; cases p; cases b)
      (auto simp: names endpoint_requests_def quoted_def push_names_def process_names_def file_names_def)
  then show ?thesis by (simp add: u_def p_def b_def)
qed

definition other_names :: "string list" where
  "other_names = file_names @ process_names @ push_names True True True"

lemma socket_step_names:
  assumes "set s \<subseteq> set other_names"
  shows "\<exists>c' s'. set s' \<subseteq> set other_names \<union> {''socket_lines_total'', ''socket_connections_total''} \<and>
    grouped c s (metrics_sockets m @ ls) = grouped c' s' ls"
proof -
  have a: "''socket_lines_total'' \<notin> set s" "''socket_connections_total'' \<notin> set s"
    using assms by (auto simp: other_names_def push_names_def process_names_def file_names_def)
  define u where "u = sd_bUnix (me_Started m)"
  define t where "t = sd_bTcp (me_Started m)"
  define y where "y = sd_bSyslog (me_Started m)"
  define c' where "c' = (if u \<or> t then ''socket_connections_total'' else if y then ''socket_lines_total'' else c)"
  define s' where "s' = (if u \<or> t then [''socket_connections_total''] else []) @ (if u \<or> t \<or> y then [''socket_lines_total''] else []) @ s"
  have "grouped c s (metrics_sockets m @ ls) = grouped c' s' ls"
    unfolding metrics_sockets_def Let_def u_def [symmetric] t_def [symmetric] y_def [symmetric] c'_def s'_def
    by (cases u; cases t; cases y)
      (simp_all add: a names WriteIngestMetrics_def WriteIngestConnectionMetrics_def Let_def quoted_def)
  moreover have "set s' \<subseteq> set other_names \<union> {''socket_lines_total'', ''socket_connections_total''}"
    using assms by (auto simp: s'_def)
  ultimately show ?thesis by blast
qed

lemma shutdown_step:
  assumes "set s \<subseteq> set other_names \<union> {''socket_lines_total'', ''socket_connections_total''}"
  shows "grouped c s (WriteStatsEntryToFileWithHelp v ''shutdown_timestamp_seconds'' t d)"
proof -
  have "''shutdown_timestamp_seconds'' \<notin> set s"
    using assms by (auto simp: other_names_def push_names_def process_names_def file_names_def)
  then show ?thesis by (simp add: names)
qed

text \<open>C28. The metrics file is in the format of Prometheus, for every state of the program: each metric is announced exactly once, with its help and its type, and
  all its samples follow directly behind that.\<close>

theorem metrics_are_grouped:
  "case WriteMetrics bOpened bShutdown m of None \<Rightarrow> True | Some ls \<Rightarrow> grouped [] [] ls"
proof -
  define z where "z = (if bShutdown then
    WriteStatsEntryToFileWithHelp (me_tNow m) ''shutdown_timestamp_seconds'' ''gauge'' ''Unix timestamp when forwarder was shutdown'' else [])"
  define s where "s = (if sd_bFileInput (me_Started m) then file_names @ process_names else process_names)"
  have s: "s \<in> {process_names, file_names @ process_names}" by (simp add: s_def)
  obtain c where 1: "grouped [] [] (metrics_process m @ metrics_file m @ metrics_push m @ metrics_sockets m @ z) =
      grouped c s (metrics_push m @ metrics_sockets m @ z)"
    by (metis process_step file_step_names s_def)
  obtain c' s' where 2: "grouped c s (metrics_push m @ metrics_sockets m @ z) = grouped c' s' (metrics_sockets m @ z)"
    and s': "set s' \<subseteq> set other_names"
  proof -
    have "set (push_names u p b @ s) \<subseteq> set other_names" for u p b
      using s by (auto simp: other_names_def push_names_def split: if_split_asm)
    then show thesis using that push_step_names [OF s] by blast
  qed
  obtain c'' s'' where 3: "grouped c' s' (metrics_sockets m @ z) = grouped c'' s'' z"
    and s'': "set s'' \<subseteq> set other_names \<union> {''socket_lines_total'', ''socket_connections_total''}"
    using socket_step_names [OF s'] by blast
  have "grouped c'' s'' z" using shutdown_step [OF s''] by (simp add: z_def)
  then have "grouped [] [] (metrics_process m @ metrics_file m @ metrics_push m @ metrics_sockets m @ z)"
    using 1 2 3 by blast
  then show ?thesis by (simp add: WriteMetrics_def z_def)
qed

section \<open>An outage is reported\<close>

fun UpdateHealths :: "started \<Rightarrow> (int \<times> nat \<times> 'n forwarder) list \<Rightarrow> push_health \<times> HealthMonitor \<Rightarrow> push_health \<times> HealthMonitor" where
  "UpdateHealths d [] x = x"
| "UpdateHealths d ((tNow, WalSize, s) # us) x = UpdateHealths d us (UpdateHealth tNow d WalSize s x)"

lemma UpdateHealths_append: "UpdateHealths d (us @ vs) x = UpdateHealths d vs (UpdateHealths d us x)"
proof (induction us arbitrary: x)
  case (Cons u us)
  then show ?case
    by (cases u) simp
qed simp

definition successes :: "'n forwarder \<Rightarrow> nat" where
  "successes s = o_PushSuccess s + o_PushRetrySuccess s"

definition errors :: "'n forwarder \<Rightarrow> nat" where
  "errors s = o_PushErrors s + o_PushRetryErrors s"

definition down_at :: "nat \<Rightarrow> int \<Rightarrow> push_health \<times> HealthMonitor \<Rightarrow> bool" where
  "down_at n t x \<longleftrightarrow> ph_bFailing (fst x) \<and> ph_Success (fst x) = n \<and> h_tUnreachableSince (snd x) \<noteq> 0 \<and> h_tUnreachableSince (snd x) \<le> t"

lemma UpdateHealth_down:
  assumes "successes s = ph_Success (fst x)" "ph_bFailing (fst x) \<or> errors s > ph_Errors (fst x)" "tNow > 0"
    "h_tUnreachableSince (snd x) = 0 \<and> t = tNow \<or> h_tUnreachableSince (snd x) \<noteq> 0 \<and> h_tUnreachableSince (snd x) \<le> t"
  shows "down_at (successes s) t (UpdateHealth tNow d WalSize s x) \<and>
    (tNow - t > ERROR_DOWN_SEC \<longrightarrow> h_State (snd (UpdateHealth tNow d WalSize s x)) = ERROR)"
proof -
  obtain p h where x: "x = (p, h)" by force
  define inp where "inp = \<lparr>bUnreachable = True, bWalFailed = (cf_szOtlpPushApiURL (sd_Config d) \<noteq> [] \<and> \<not> sd_bWalOpened d),
                WalBytes = (if sd_bWalOpened d then WalSize else 0), WalMaxBytes = cf_WalMaxMB (sd_Config d) * 1024 * 1024,
                Dropped = o_WalRefused s, Rejected = o_PushRejected s\<rparr>"
  have f: "\<not> successes s > ph_Success p" "(if errors s > ph_Errors p then True else ph_bFailing p) = True"
    using assms(1,2) x by auto
  have u: "UpdateHealth tNow d WalSize s x = (\<lparr>ph_Success = successes s, ph_Errors = errors s, ph_bFailing = True\<rparr>, snd (Update True tNow inp h))"
    unfolding x UpdateHealth_def successes_def [symmetric] errors_def [symmetric] Let_def prod.case inp_def
    using f by simp
  define h' where "h' = set_times tNow inp h"
  have since: "h_tUnreachableSince h' \<noteq> 0" "h_tUnreachableSince h' \<le> t"
    using assms(3,4) x by (auto simp: h'_def set_times_def inp_def)
  have st: "h_tUnreachableSince (snd (Update True tNow inp h)) = h_tUnreachableSince h'"
    "h_State (snd (Update True tNow inp h)) = fst (Health_rules tNow inp h')"
    by (simp_all add: Update_cases Let_def h'_def)
  have "fst (Health_rules tNow inp h') = ERROR" if "tNow - t > ERROR_DOWN_SEC"
    using since that by (simp add: rules_fst)
  then show ?thesis
    using since st u by (simp add: down_at_def)
qed

lemma UpdateHealths_down:
  assumes "down_at n t x" "\<forall>(tNow, W, s) \<in> set us. tNow > 0 \<and> successes s = n"
  shows "down_at n t (UpdateHealths d us x)"
  using assms
proof (induction us arbitrary: x)
  case (Cons u us)
  obtain tNow W s where u: "u = (tNow, W, s)" by (metis prod_cases3)
  have "down_at (successes s) t (UpdateHealth tNow d W s x)"
    using Cons.prems u UpdateHealth_down [of s x tNow t d W] by (auto simp: down_at_def)
  then show ?case
    using Cons u by auto
qed simp

text \<open>C29. An outage is always reported: from an update which sees a new error and no new success, however the other counters go, and while no request
  succeeds, the first update more than 30 minutes later puts the health to ERROR.\<close>

theorem outage_leads_to_an_error:
  assumes "errors s0 > ph_Errors p" and "successes s0 = ph_Success p" and "t0 > 0" and "h_tUnreachableSince h \<le> t0"
    and "\<forall>(tNow, W, s) \<in> set us. tNow > 0 \<and> successes s = successes s0" and "successes s1 = successes s0" and "t1 > t0 + ERROR_DOWN_SEC"
  shows "h_State (snd (UpdateHealths d ((t0, W0, s0) # us @ [(t1, W1, s1)]) (p, h))) = ERROR"
proof -
  define x where "x = UpdateHealths d us (UpdateHealth t0 d W0 s0 (p, h))"
  have "down_at (successes s0) t0 (UpdateHealth t0 d W0 s0 (p, h))"
    using UpdateHealth_down [of s0 "(p, h)" t0 t0 d W0] assms by auto
  then have "down_at (successes s0) t0 x"
    unfolding x_def by (rule UpdateHealths_down) (rule assms(5))
  then have "h_State (snd (UpdateHealth t1 d W1 s1 x)) = ERROR"
    using UpdateHealth_down [of s1 x t1 t0 d W1] assms(3,6,7) by (auto simp: down_at_def)
  then show ?thesis
    by (simp add: UpdateHealths_append x_def)
qed

theorem outage_leads_to_an_error_witness:
  "\<forall>d. h_State (snd (UpdateHealths d ((100, 0, some_forwarder\<lparr>o_PushErrors := 1\<rparr>) # [(1000, 0, some_forwarder\<lparr>o_PushErrors := 5\<rparr>)] @
     [(1910, 0, some_forwarder\<lparr>o_PushErrors := 5\<rparr>)]) (new_push_health, new_HealthMonitor))) = ERROR"
  using outage_leads_to_an_error [of new_push_health "some_forwarder\<lparr>o_PushErrors := 1\<rparr>" 100 new_HealthMonitor
      "[(1000, 0, some_forwarder\<lparr>o_PushErrors := 5\<rparr>)]" "some_forwarder\<lparr>o_PushErrors := 5\<rparr>" 1910 _ 0 0]
  by (simp add: errors_def successes_def some_forwarder_def new_push_health_def new_HealthMonitor_def)

end
