(* ===== verification/MainLoop.thy ===== *)
theory MainLoop imports FilePositionsTheorems Startup begin

text \<open>
  The main thread of otelfwd between its start and its end (\<^verbatim>\<open>otelfwd.cpp\<close>, \<^verbatim>\<open>main\<close>): the threads which it creates, the loop over
  stdin, the waiting at the end, the end of the push thread, and the last commit of the file input.
\<close>

section \<open>The threads\<close>

datatype main_thread = Thread_Push | Thread_Wal | Thread_Metrics | Thread_Unix | Thread_Tcp | Thread_Syslog | Thread_File

definition threads_to_create :: "started \<Rightarrow> main_thread list" where
  "threads_to_create d =
     [Thread_Push] @ (if cf_szOtlpPushApiURL (sd_Config d) \<noteq> [] then [Thread_Wal] else []) @ [Thread_Metrics] @
     (if sd_bUnix d then [Thread_Unix] else []) @ (if sd_bTcp d then [Thread_Tcp] else []) @
     (if sd_bSyslog d then [Thread_Syslog] else []) @ (if sd_bFileInput d then [Thread_File] else [])"

text \<open>The threads which run, and whether the program goes on: it ends at once when a thread cannot be created.\<close>

fun create_threads :: "(main_thread \<Rightarrow> bool) \<Rightarrow> main_thread list \<Rightarrow> main_thread list \<times> bool" where
  "create_threads can [] = ([], True)"
| "create_threads can (t # ts) = (if can t then (case create_threads can ts of (us, ok) \<Rightarrow> (t # us, ok)) else ([], False))"

section \<open>Stdin\<close>

text \<open>\<^verbatim>\<open>getline\<close>: the pieces of the input which end with a new line, and what is left at its end.\<close>

fun getline_chunks :: "string \<Rightarrow> string \<Rightarrow> string list" where
  "getline_chunks acc [] = (if acc = [] then [] else [acc])"
| "getline_chunks acc (ch # xs) = (if ch = NL then (acc @ [ch]) # getline_chunks [] xs else getline_chunks (acc @ [ch]) xs)"

text \<open>The mirror: the log file (\<open>None\<close>: not open) and stdout. \<open>io_Writes\<close> counts the calls of \<^verbatim>\<open>write\<close>, and the argument \<open>wr\<close> says how
  many bytes the n-th one took. A short write is not repeated.\<close>

record stdio =
  io_LogFile :: "string option"
  io_Stdout :: string
  io_Writes :: nat

definition mirror_to_log :: "(nat \<Rightarrow> nat) \<Rightarrow> string \<Rightarrow> stdio \<Rightarrow> stdio" where
  "mirror_to_log wr chunk io =
     (case io_LogFile io of None \<Rightarrow> io
      | Some l \<Rightarrow> io\<lparr>io_LogFile := Some (l @ take (wr (io_Writes io)) chunk), io_Writes := io_Writes io + 1\<rparr>)"

definition mirror_to_stdout :: "(nat \<Rightarrow> nat) \<Rightarrow> bool \<Rightarrow> string \<Rightarrow> stdio \<Rightarrow> stdio" where
  "mirror_to_stdout wr bMirror chunk io =
     (if bMirror then io\<lparr>io_Stdout := io_Stdout io @ take (wr (io_Writes io)) chunk, io_Writes := io_Writes io + 1\<rparr> else io)"

definition stdin_record :: "int \<Rightarrow> string \<Rightarrow> LogRecord" where
  "stdin_record TimeNs chunk =
     new_LogRecord\<lparr>lr_TimeNs := TimeNs, lr_Line := c_str (if chunk \<noteq> [] \<and> last chunk = NL then butlast chunk else chunk)\<rparr>"

definition stdin_line :: "'n outside \<Rightarrow> (nat \<Rightarrow> nat) \<Rightarrow> bool \<Rightarrow> string \<Rightarrow> stdio \<times> 'n forwarder \<Rightarrow> stdio \<times> 'n forwarder" where
  "stdin_line w wr bMirror chunk = (\<lambda>(io, s).
     if chunk = [] then (io, s)
     else case GetEpochNanoseconds w s of
       (ns, s1) \<Rightarrow> (mirror_to_stdout wr bMirror chunk (mirror_to_log wr chunk io), s1\<lparr>o_Fifo := fifo_push (stdin_record ns chunk) (o_Fifo s1)\<rparr>))"

definition stdin_loop :: "'n outside \<Rightarrow> (nat \<Rightarrow> nat) \<Rightarrow> bool \<Rightarrow> bool \<Rightarrow> string \<Rightarrow> stdio \<times> 'n forwarder \<Rightarrow> stdio \<times> 'n forwarder" where
  "stdin_loop w wr NoStdin bMirror Input x = (if NoStdin then x else fold (stdin_line w wr bMirror) (getline_chunks [] Input) x)"

section \<open>The end\<close>

text \<open>The wait for the WAL, from its turn \<open>k\<close> on: how many seconds it takes, and whether the limit ended it. What other threads and signals
  do is a function of the turn.\<close>

function wal_wait :: "(nat \<Rightarrow> bool) \<Rightarrow> (nat \<Rightarrow> bool) \<Rightarrow> nat \<Rightarrow> nat \<Rightarrow> nat \<times> bool" where
  "wal_wait Waiting Shutdown MaxSec k =
     (if \<not> Waiting k then (0, False)
      else if Shutdown k then (1, False)
      else if k > MaxSec then (1, True)
      else case wal_wait Waiting Shutdown MaxSec (k + 1) of (n, out) \<Rightarrow> (n + 1, out))"
  by pat_completeness auto
termination
  by (relation "measure (\<lambda>(p, q, m, k). Suc m - k)") auto

text \<open>The waits for the inputs, of 50 milliseconds each, and for the other threads, of a second each.\<close>

function inputs_wait :: "(nat \<Rightarrow> bool) \<Rightarrow> nat \<Rightarrow> nat" where
  "inputs_wait Inputs k = (if Inputs k \<and> k < 200 then 50 + inputs_wait Inputs (k + 1) else 0)"
  by pat_completeness auto
termination
  by (relation "measure (\<lambda>(p, k). 200 - k)") auto

text \<open>\<open>k\<close> is \<^verbatim>\<open>CountSeconds\<close>. The result is the seconds, and whether a thread still runs.\<close>

function threads_wait :: "(nat \<Rightarrow> bool) \<Rightarrow> nat \<Rightarrow> nat \<times> bool" where
  "threads_wait Threads k =
     (if \<not> Threads k then (0, False)
      else if k + 1 > 300 then (1, True)
      else case threads_wait Threads (k + 1) of (n, out) \<Rightarrow> (n + 1, out))"
  by pat_completeness auto
termination
  by (relation "measure (\<lambda>(p, k). 301 - k)") auto

declare wal_wait.simps [simp del] inputs_wait.simps [simp del] threads_wait.simps [simp del]

text \<open>All of it in milliseconds.\<close>

definition shutdown_wait :: "bool \<Rightarrow> bool \<Rightarrow> nat \<Rightarrow> (nat \<Rightarrow> bool) \<Rightarrow> (nat \<Rightarrow> bool) \<Rightarrow> (nat \<Rightarrow> bool) \<Rightarrow> (nat \<Rightarrow> bool) \<Rightarrow> nat" where
  "shutdown_wait NoStdin bUrl MaxSec Waiting Shutdown Inputs Threads =
     (if NoStdin then 0 else 2000) + 1000 * fst (wal_wait (\<lambda>k. bUrl \<and> Waiting k) Shutdown MaxSec 0) +
     inputs_wait Inputs 0 + 1000 * fst (threads_wait Threads 0)"

text \<open>The push thread from now on: its turns up to the one which ends it. \<open>None\<close>: it waits for records, or the turns are not enough.\<close>

fun PushThread_loop :: "nat \<Rightarrow> 'n outside \<Rightarrow> push_config \<Rightarrow> 'n forwarder \<Rightarrow> 'n forwarder option" where
  "PushThread_loop 0 w c s = None"
| "PushThread_loop (Suc n) w c s =
     (case PushThread_turn w c s of
        None \<Rightarrow> None
      | Some (True, s') \<Rightarrow> PushThread_loop n w c s'
      | Some (False, s') \<Rightarrow> Some s')"

text \<open>The last commit, by the main thread.\<close>

definition final_commit :: "bool \<Rightarrow> bool \<Rightarrow> 'n forwarder \<times> file_thread \<Rightarrow> 'n forwarder \<times> file_thread" where
  "final_commit bFileInputEnabled FileThreadRunning = (\<lambda>(s, t).
     if bFileInputEnabled \<and> \<not> FileThreadRunning then
       (case Slot_Take (o_Slot s) of
          (None, sl) \<Rightarrow> (s\<lparr>o_Slot := sl\<rparr>, t)
        | (Some (g, e), sl) \<Rightarrow> (s\<lparr>o_Slot := sl\<rparr>, t\<lparr>ft_Reader := snd (Commit g e (ft_Reader t))\<rparr>))
     else (s, t))"

end
