(* ===== verification/ShutdownTheorems.thy ===== *)
theory ShutdownTheorems imports MainLoopTheorems OtelRecordTheorems begin

text \<open>
  The end of the push thread and the last commit: every queued record is handled, and the position in the file reaches the last line.
\<close>

section \<open>The queue is drained\<close>

definition pop_and_handle :: "'n outside \<Rightarrow> push_config \<Rightarrow> LogRecord list \<Rightarrow> 'n forwarder \<Rightarrow> 'n forwarder" where
  "pop_and_handle w c b s =
     handle_batch w c b (s\<lparr>o_Fifo := (o_Fifo s)\<lparr>m_queue := drop (length b) (m_queue (o_Fifo s))\<rparr>\<rparr>)"

lemma PushThread_turn_cases:
  assumes "m_bShutdown (o_Fifo s)"
  shows "m_queue (o_Fifo s) = [] \<Longrightarrow> PushThread_turn w c s = Some (False, s)"
    and "m_queue (o_Fifo s) \<noteq> [] \<Longrightarrow> \<exists>b rest. b \<noteq> [] \<and> length b \<le> OTELFWD_MAX_BATCH_RECORDS \<and> m_queue (o_Fifo s) = b @ rest \<and>
      PushThread_turn w c s = Some (True, pop_and_handle w c b s) \<and> o_Fifo (pop_and_handle w c b s) = (o_Fifo s)\<lparr>m_queue := rest\<rparr>"
proof -
  show "m_queue (o_Fifo s) = [] \<Longrightarrow> PushThread_turn w c s = Some (False, s)"
    using assms by (simp add: PushThread_turn_def pop_batch_def)
  assume ne: "m_queue (o_Fifo s) \<noteq> []"
  obtain b rest where l: "pop_loop OTELFWD_MAX_BATCH_RECORDS OTELFWD_MAX_BATCH_BYTES [] 0 (m_queue (o_Fifo s)) = (b, rest)" by force
  have spec: "m_queue (o_Fifo s) = b @ rest" "length b \<le> OTELFWD_MAX_BATCH_RECORDS"
    "case rest of [] \<Rightarrow> True | r # _ \<Rightarrow> length b = OTELFWD_MAX_BATCH_RECORDS \<or> b \<noteq> [] \<and> line_bytes (b @ [r]) > OTELFWD_MAX_BATCH_BYTES"
    using pop_loop_spec [OF l] by (simp_all add: line_bytes_def)
  have "b \<noteq> []"
    using spec(1,3) ne by (cases rest) (auto simp: OTELFWD_MAX_BATCH_RECORDS_def)
  moreover have "PushThread_turn w c s = Some (True, pop_and_handle w c b s)"
    using ne l spec(1) by (simp add: PushThread_turn_def pop_batch_def pop_and_handle_def)
  moreover have "o_Fifo (pop_and_handle w c b s) = (o_Fifo s)\<lparr>m_queue := rest\<rparr>"
    using handle_batch_slot [of w c b "s\<lparr>o_Fifo := (o_Fifo s)\<lparr>m_queue := drop (length b) (m_queue (o_Fifo s))\<rparr>\<rparr>"] spec(1)
    by (simp add: pop_and_handle_def)
  ultimately show "\<exists>b rest. b \<noteq> [] \<and> length b \<le> OTELFWD_MAX_BATCH_RECORDS \<and> m_queue (o_Fifo s) = b @ rest \<and>
      PushThread_turn w c s = Some (True, pop_and_handle w c b s) \<and> o_Fifo (pop_and_handle w c b s) = (o_Fifo s)\<lparr>m_queue := rest\<rparr>"
    using spec(1,2) by blast
qed

lemma PushThread_drains:
  assumes "m_bShutdown (o_Fifo s)" "length (m_queue (o_Fifo s)) < n"
  shows "\<exists>batches. PushThread_loop n w c s = Some (fold (pop_and_handle w c) batches s) \<and> concat batches = m_queue (o_Fifo s) \<and>
    [] \<notin> set batches \<and> m_queue (o_Fifo (fold (pop_and_handle w c) batches s)) = []"
  using assms
proof (induction n arbitrary: s)
  case (Suc n)
  show ?case
  proof (cases "m_queue (o_Fifo s) = []")
    case True
    then show ?thesis
      using PushThread_turn_cases(1) [OF Suc.prems(1)] by (intro exI [of _ "[]"]) simp
  next
    case False
    then obtain b rest where b: "b \<noteq> []" "m_queue (o_Fifo s) = b @ rest" "PushThread_turn w c s = Some (True, pop_and_handle w c b s)"
      "o_Fifo (pop_and_handle w c b s) = (o_Fifo s)\<lparr>m_queue := rest\<rparr>"
      using PushThread_turn_cases(2) [OF Suc.prems(1)] by blast
    have "m_bShutdown (o_Fifo (pop_and_handle w c b s))" "length (m_queue (o_Fifo (pop_and_handle w c b s))) < n"
      using b Suc.prems by (cases b; simp)+
    then obtain batches where r: "PushThread_loop n w c (pop_and_handle w c b s) = Some (fold (pop_and_handle w c) batches (pop_and_handle w c b s))"
      "concat batches = m_queue (o_Fifo (pop_and_handle w c b s))" "[] \<notin> set batches"
      "m_queue (o_Fifo (fold (pop_and_handle w c) batches (pop_and_handle w c b s))) = []"
      using Suc.IH by blast
    then show ?thesis
      using b by (intro exI [of _ "b # batches"]) simp
  qed
qed simp

text \<open>C31. After the shutdown of the queue the push thread ends, and before it does every queued record is handled: in one batch, in order, none twice and
  none left, whatever the receiver answers.\<close>

theorem shutdown_drains_the_queue:
  "\<exists>batches. PushThread_loop (Suc (length (m_queue (o_Fifo s)))) w c (s\<lparr>o_Fifo := fifo_shutdown (o_Fifo s)\<rparr>) =
       Some (fold (pop_and_handle w c) batches (s\<lparr>o_Fifo := fifo_shutdown (o_Fifo s)\<rparr>)) \<and>
     concat batches = m_queue (o_Fifo s) \<and> [] \<notin> set batches \<and>
     m_queue (o_Fifo (fold (pop_and_handle w c) batches (s\<lparr>o_Fifo := fifo_shutdown (o_Fifo s)\<rparr>))) = []"
  using PushThread_drains [of "s\<lparr>o_Fifo := fifo_shutdown (o_Fifo s)\<rparr>" "Suc (length (m_queue (o_Fifo s)))"]
  by (simp add: fifo_shutdown_def)

section \<open>What was not refused is handed over\<close>

lemma SendPayloadToWAL_refused:
  "SendPayloadToWAL p s = (ok, t) \<Longrightarrow> o_WalRefused s \<le> o_WalRefused t \<and> (\<not> ok \<longrightarrow> o_WalRefused s < o_WalRefused t)"
  by (auto simp: SendPayloadToWAL_def split: prod.splits bool.splits)

lemma push_records_refused:
  assumes "push_records w c rs s = (ok, t)"
  shows "o_WalRefused s \<le> o_WalRefused t \<and> (\<not> ok \<longrightarrow> o_WalRefused s < o_WalRefused t)"
proof (cases "rs = []")
  case True
  then show ?thesis
    using assms by (simp add: push_records_def)
next
  case False
  define payload where "payload = BuildOtlpPayload (json_write w) (g_identity c) rs"
  obtain a s1 where r: "SendPushRequest w c True payload s = (a, s1)" by force
  have f: "o_WalRefused s1 = o_WalRefused s"
    using SendPushRequest_frame [OF r] by (simp add: same_wal_def)
  show ?thesis
  proof (cases a)
    case PUSH_RETRY
    then have "SendPayloadToWAL payload (s1\<lparr>o_PushErrors := o_PushErrors s1 + length rs\<rparr>) = (ok, t)"
      using assms False r by (simp add: push_records_def payload_def [symmetric] Let_def)
    from SendPayloadToWAL_refused [OF this] f show ?thesis
      by simp
  qed (use assms False r f in \<open>auto simp: push_records_def payload_def [symmetric] Let_def\<close>)
qed

lemma collect_refused:
  "collect w c rs (b, o', safe) s = ((b', o'', safe'), t) \<Longrightarrow>
   o_WalRefused s \<le> o_WalRefused t \<and> (safe \<and> \<not> safe' \<longrightarrow> o_WalRefused s < o_WalRefused t)"
proof (induction rs arbitrary: b o' safe s)
  case (Cons r0 rs)
  obtain r s1 where a: "annotate w c r0 s = (r, s1)" by force
  have s1: "o_WalRefused s1 = o_WalRefused s"
    using annotate_frame [OF a] by (simp add: same_wal_def)
  show ?case
  proof (cases "\<not> IsNullStr (g_szOtlpPushApiURL c) \<and> contains ''WAL-TESTING'' (lr_Line r)")
    case False
    then obtain o2 where "collect w c rs (b @ [r], o2, safe) s1 = ((b', o'', safe'), t)"
      using Cons.prems a by (auto split: if_splits)
    from Cons.IH [OF this] s1 show ?thesis
      by simp
  next
    case True
    obtain ok s2 where p: "SendPayloadToWAL (BuildOtlpPayload (json_write w) (g_identity c) [r]) (otel_log (Message ''WAL-TESTING string received'') s1) = (ok, s2)"
      by force
    have "collect w c rs (b @ [r], o', safe \<and> ok) s2 = ((b', o'', safe'), t)"
      using Cons.prems a True p by simp
    from Cons.IH [OF this] SendPayloadToWAL_refused [OF p] s1 show ?thesis
      by (auto simp: otel_log_def)
  qed
qed simp

lemma handle_batch_refused:
  "o_WalRefused s \<le> o_WalRefused (handle_batch w c B s) \<and>
   (o_WalRefused (handle_batch w c B s) = o_WalRefused s \<longrightarrow> o_Slot (handle_batch w c B s) = HandOverFilePositions B (o_Slot s))"
proof -
  obtain batch otlp safe s1 where c: "collect w c B ([], [], True) (s\<lparr>o_LogLines := o_LogLines s + length B\<rparr>) = ((batch, otlp, safe), s1)"
    by (metis surj_pair)
  obtain ok s2 where p: "push_records w c otlp s1 = (ok, s2)" by force
  have C: "map file_part batch = map file_part B" "same_front s s1"
    using collect_frame [OF c] by (auto simp: same_front_def)
  have slot: "o_Slot s2 = o_Slot s"
    using C(2) push_records_frame [OF p] by (simp add: same_front_def)
  have h: "handle_batch w c B s = (if safe \<and> ok then s2\<lparr>o_Slot := HandOverFilePositions batch (o_Slot s2)\<rparr> else s2)"
    by (simp add: handle_batch_def c p)
  have m: "o_WalRefused s \<le> o_WalRefused s1" "\<not> safe \<longrightarrow> o_WalRefused s < o_WalRefused s1" "o_WalRefused s1 \<le> o_WalRefused s2"
    "\<not> ok \<longrightarrow> o_WalRefused s1 < o_WalRefused s2"
    using collect_refused [OF c] push_records_refused [OF p] by auto
  have w: "o_WalRefused (handle_batch w c B s) = o_WalRefused s2"
    unfolding h by simp
  show ?thesis
  proof (cases "safe \<and> ok")
    case True
    then show ?thesis
      using m(1,3) w unfolding h using HandOver_same_parts [OF C(1), of "o_Slot s"] slot by simp
  next
    case False
    then have "o_WalRefused s < o_WalRefused s2"
      using m by linarith
    then show ?thesis
      using w by simp
  qed
qed

lemma pop_and_handle_refused:
  "o_WalRefused s \<le> o_WalRefused (pop_and_handle w c b s) \<and>
   (o_WalRefused (pop_and_handle w c b s) = o_WalRefused s \<longrightarrow> o_Slot (pop_and_handle w c b s) = HandOverFilePositions b (o_Slot s))"
  using handle_batch_refused [of "s\<lparr>o_Fifo := (o_Fifo s)\<lparr>m_queue := drop (length b) (m_queue (o_Fifo s))\<rparr>\<rparr>" w c b]
  by (simp add: pop_and_handle_def)

lemma drained_slot:
  "o_WalRefused s \<le> o_WalRefused (fold (pop_and_handle w c) batches s) \<and>
   (o_WalRefused (fold (pop_and_handle w c) batches s) = o_WalRefused s \<longrightarrow>
     o_Slot (fold (pop_and_handle w c) batches s) = HandOverFilePositions (concat batches) (o_Slot s))"
proof (induction batches arbitrary: s)
  case Nil
  then show ?case
    by (simp add: HandOverFilePositions_def)
next
  case (Cons b batches)
  define t where "t = pop_and_handle w c b s"
  note T = pop_and_handle_refused [where s = s and w = w and c = c and b = b, folded t_def]
  note I = Cons.IH [of t]
  have "o_WalRefused s \<le> o_WalRefused (fold (pop_and_handle w c) batches t)"
    using T I by linarith
  moreover have "o_Slot (fold (pop_and_handle w c) batches t) = HandOverFilePositions (concat (b # batches)) (o_Slot s)"
    if "o_WalRefused (fold (pop_and_handle w c) batches t) = o_WalRefused s"
  proof -
    have "o_WalRefused t = o_WalRefused s" "o_WalRefused (fold (pop_and_handle w c) batches t) = o_WalRefused t"
      using that T I by linarith+
    then show ?thesis
      using T I by (simp add: HandOverFilePositions_def)
  qed
  ultimately show ?case
    by (simp add: t_def)
qed

section \<open>The last commit\<close>

lemma HandOver_last:
  assumes "sorted_wrt (<) (file_places B)" "\<forall>q \<in> set (file_places B). position sl < q" "file_places B \<noteq> []"
  shows "s_bPending (HandOverFilePositions B sl) \<and> position (HandOverFilePositions B sl) = last (file_places B)"
  using assms
proof (induction B arbitrary: sl)
  case (Cons r B)
  define sl' where "sl' = (if lr_Source r = LOG_SOURCE_FILE then Slot_Add (lr_FileGeneration r) (lr_FileEndOffset r) sl else sl)"
  have h: "HandOverFilePositions (r # B) sl = HandOverFilePositions B sl'"
    by (simp add: HandOverFilePositions_def sl'_def)
  show ?case
  proof (cases "lr_Source r = LOG_SOURCE_FILE")
    case False
    then have "file_places (r # B) = file_places B" "sl' = sl"
      by (simp_all add: file_places_def sl'_def)
    then show ?thesis
      using Cons h by simp
  next
    case True
    define q where "q = (lr_FileGeneration r, lr_FileEndOffset r)"
    have ps: "file_places (r # B) = q # file_places B"
      using True by (simp add: file_places_def q_def)
    have "position sl < q"
      using Cons.prems(2) ps by simp
    then have sl': "s_bPending sl'" "position sl' = q"
      using True by (auto simp: sl'_def Slot_Add_def position_def q_def less_prod_def split: if_splits)
    show ?thesis
    proof (cases "file_places B = []")
      case True
      then have "HandOverFilePositions B sl' = sl'"
        unfolding HandOverFilePositions_def file_places_def
        by (induction B) (auto split: if_splits)
      then show ?thesis
        using sl' True ps h by simp
    next
      case False
      have "sorted_wrt (<) (file_places B)" "\<forall>p \<in> set (file_places B). position sl' < p"
        using Cons.prems(1) ps sl'(2) by simp_all
      from Cons.IH [OF this False] show ?thesis
        using False ps h by simp
    qed
  qed
qed (simp add: file_places_def)

lemma Commit_writes:
  assumes "fr_bOpened rd" "e \<le> fr_BufferStart rd" "fr_Committed rd < e" "r_Script (World rd) = []"
  shows "fr_Committed (snd (Commit (fr_Generation rd) e rd)) = e \<and>
    r_State (World (snd (Commit (fr_Generation rd) e rd))) = Some (state_text (snd (Commit (fr_Generation rd) e rd)))"
proof -
  obtain ok rd' where sv: "SaveState (rd\<lparr>fr_Committed := e\<rparr>) = (ok, rd')" by force
  have ok: "ok"
    using SaveState_ok [of "rd\<lparr>fr_Committed := e\<rparr>"] assms(4) sv by simp
  have k: "kept_by_save (rd\<lparr>fr_Committed := e\<rparr>) rd'" "r_State (World rd') = Some (state_text (rd\<lparr>fr_Committed := e\<rparr>))"
    using SaveState_result [OF sv] ok by simp_all
  have "state_text rd' = state_text (rd\<lparr>fr_Committed := e\<rparr>)" "fr_Committed rd' = e"
    using kept_by_save_fields [OF k(1)] by (simp_all add: state_text_def)
  moreover have "Commit (fr_Generation rd) e rd = (True, rd')"
    using assms(1-3) sv ok by (simp add: Commit_def)
  ultimately show ?thesis
    using k(2) by simp
qed

lemma last_is_max: "sorted_wrt (<) (ps :: (nat \<times> nat) list) \<Longrightarrow> q \<in> set ps \<Longrightarrow> q \<le> last ps"
  by (induction ps) (auto simp: less_imp_le)

lemma final_commit_saves:
  assumes inv: "lines_inv (file_places B) (position sl) (ft_Reader t)" and slot: "o_Slot s = HandOverFilePositions B sl"
    and rd: "fr_bOpened (ft_Reader t)" "fr_Fd (ft_Reader t) \<noteq> None" "r_Script (World (ft_Reader t)) = []"
    and r: "r \<in> set B" "lr_Source r = LOG_SOURCE_FILE" "lr_FileGeneration r = fr_Generation (ft_Reader t)"
  shows "lr_FileEndOffset r \<le> fr_Committed (ft_Reader (snd (final_commit True False (s, t)))) \<and>
    r_State (World (ft_Reader (snd (final_commit True False (s, t))))) = Some (state_text (ft_Reader (snd (final_commit True False (s, t)))))"
proof -
  define q where "q = (lr_FileGeneration r, lr_FileEndOffset r)"
  have q: "q \<in> set (file_places B)"
    using r(1,2) by (force simp: file_places_def q_def)
  then have ne: "file_places B \<noteq> []" by auto
  obtain g e where l: "last (file_places B) = (g, e)" by force
  have L: "(g, e) \<in> set (file_places B)"
    using ne l by (metis last_in_set)
  have sorted: "sorted_wrt (<) (file_places B)" "\<forall>p \<in> set (file_places B). position sl < p"
    using inv by (auto simp: lines_inv_def)
  have le: "q \<le> (g, e)"
    using last_is_max [OF sorted(1) q] l by simp
  have "g \<le> fr_Generation (ft_Reader t)" "(g, e) \<le> next_pos (ft_Reader t)" "g = fr_Generation (ft_Reader t) \<longrightarrow> fr_Committed (ft_Reader t) < e"
    using inv L by (auto simp: lines_inv_def)
  moreover have "fr_Generation (ft_Reader t) \<le> g"
    using le r(3) by (auto simp: q_def)
  ultimately have g: "g = fr_Generation (ft_Reader t)" "e \<le> fr_BufferStart (ft_Reader t)" "fr_Committed (ft_Reader t) < e"
    using rd(2) by (auto simp: next_pos_def)
  have off: "lr_FileEndOffset r \<le> e"
    using le g(1) r(3) by (auto simp: q_def)
  have "s_bPending (o_Slot s)" "position (o_Slot s) = (g, e)"
    using HandOver_last [OF sorted ne] slot l by simp_all
  then have "Slot_Take (o_Slot s) = (Some (g, e), (o_Slot s)\<lparr>s_bPending := False\<rparr>)"
    by (simp add: Slot_Take_def position_def)
  then have "ft_Reader (snd (final_commit True False (s, t))) = snd (Commit g e (ft_Reader t))"
    by (simp add: final_commit_def)
  then show ?thesis
    using Commit_writes [OF rd(1) g(2,3) rd(3)] off g(1) by simp
qed

text \<open>C32. At a normal end nothing is delivered twice after the restart: the push thread drains the queue, and when the WAL refused nothing in that time and the
  state file can be written, the position which is then saved reaches every queued line of the open file. This is from any state which the
  file thread, the push thread and the WAL thread can reach, and whatever the receiver answers.\<close>

theorem delivered_lines_are_saved_at_the_end:
  assumes "(file_step w c g fc)\<^sup>*\<^sup>* (s0, None, new_file_thread rd) (s, None, t)"
    and "o_Fifo s0 = new_log_fifo" and "o_Slot s0 = FileCommitSlot" and "fr_Fd rd = None" and "0 < fr_MaxLineLength rd"
    and "fr_bOpened (ft_Reader t)" and "fr_Fd (ft_Reader t) \<noteq> None" and "r_Script (World (ft_Reader t)) = []"
  shows "\<exists>s'. PushThread_loop (Suc (length (m_queue (o_Fifo s)))) w c (s\<lparr>o_Fifo := fifo_shutdown (o_Fifo s)\<rparr>) = Some s' \<and>
    (o_WalRefused s' = o_WalRefused s \<longrightarrow>
      (\<forall>r \<in> set (m_queue (o_Fifo s)). lr_Source r = LOG_SOURCE_FILE \<and> lr_FileGeneration r = fr_Generation (ft_Reader t) \<longrightarrow>
        lr_FileEndOffset r \<le> fr_Committed (ft_Reader (snd (final_commit True False (s', t)))) \<and>
        r_State (World (ft_Reader (snd (final_commit True False (s', t))))) =
          Some (state_text (ft_Reader (snd (final_commit True False (s', t)))))))"
proof -
  define s1 where "s1 = s\<lparr>o_Fifo := fifo_shutdown (o_Fifo s)\<rparr>"
  have same: "m_queue (o_Fifo s1) = m_queue (o_Fifo s)" "m_bShutdown (o_Fifo s1)" "o_Slot s1 = o_Slot s" "o_WalRefused s1 = o_WalRefused s"
    by (simp_all add: s1_def fifo_shutdown_def)
  have inv: "lines_inv (file_places (m_queue (o_Fifo s))) (position (o_Slot s)) (ft_Reader t)"
    using file_steps_inv [OF assms(1) file_inv_start [OF assms(2-5)]] by (simp add: file_inv_def on_the_way_def)
  obtain batches where b: "PushThread_loop (Suc (length (m_queue (o_Fifo s)))) w c s1 = Some (fold (pop_and_handle w c) batches s1)"
    "concat batches = m_queue (o_Fifo s)"
    using PushThread_drains [of s1 "Suc (length (m_queue (o_Fifo s)))" w c] same by auto
  define s' where "s' = fold (pop_and_handle w c) batches s1"
  have "o_Slot s' = HandOverFilePositions (m_queue (o_Fifo s)) (o_Slot s)" if "o_WalRefused s' = o_WalRefused s"
    using drained_slot [of s1 w c batches] that b(2) same by (simp add: s'_def)
  then show ?thesis
    using final_commit_saves [OF inv _ assms(6-8)] b(1) unfolding s1_def [symmetric] s'_def [symmetric] by blast
qed

abbreviation accepting_outside :: "unit outside" where
  "accepting_outside \<equiv> some_outside\<lparr>perform := (\<lambda>req n. (Answered 200 [], n))\<rparr>"

lemma some_record_accepted:
  assumes r: "lr_Line r = ''a''" "lr_Source r = LOG_SOURCE_FILE" and s: "o_Failover s = PushFailover_init"
  shows "o_WalRefused (handle_batch accepting_outside some_config [r] s) = o_WalRefused s"
proof -
  have plain: "\<not> contains ''WAL-TESTING'' ''a''"
    by (auto simp: contains_def take_Cons' drop_Cons' split: if_splits)
  have url: "\<not> IsNullStr ''http://a''"
    by (simp add: IsNullStr_def c_str_def)
  have body: "BuildOtlpPayload (json_write accepting_outside) (g_identity some_config) [r] = ''{}''"
    by (simp add: BuildOtlpPayload_def some_outside_def c_str_def)
  have b: "\<not> IsNullStr ''{}''"
    by (simp add: IsNullStr_def c_str_def)
  define s0 where "s0 = s\<lparr>o_LogLines := o_LogLines s + 1\<rparr>"
  have c: "collect accepting_outside some_config [r] ([], [], True) s0 = (([r], [r], True), s0)"
    using r plain url by (simp add: annotate_def some_config_def)
  have "fst (SendPushRequest accepting_outside some_config True ''{}'' s0) = PUSH_ACCEPTED"
    using s url b
    by (simp add: SendPushRequest_def push_body_def some_config_def get_time_def PushFailover_Send_def PushFailover_Try_def PushFailover_init_def
        SendPushPayload_def s0_def Let_def GetPushAction_def)
  then obtain s1 where p: "SendPushRequest accepting_outside some_config True ''{}'' s0 = (PUSH_ACCEPTED, s1)"
    by (metis prod.collapse)
  have "o_WalRefused s1 = o_WalRefused s"
    using SendPushRequest_frame [OF p] by (simp add: same_wal_def s0_def)
  moreover have "push_records accepting_outside some_config [r] s0 = (True, s1\<lparr>o_PushSuccess := o_PushSuccess s1 + 1\<rparr>)"
    unfolding push_records_def Let_def body p by simp
  moreover have "s\<lparr>o_LogLines := o_LogLines s + length [r]\<rparr> = s0"
    by (simp add: s0_def)
  ultimately show ?thesis
    unfolding handle_batch_def using c by (simp del: collect.simps)
qed

theorem delivered_lines_are_saved_at_the_end_witness:
  "\<exists>s s' t r. m_queue (o_Fifo s) = [r] \<and> lr_Line r = ''a'' \<and>
    PushThread_loop 2 accepting_outside some_config (s\<lparr>o_Fifo := fifo_shutdown (o_Fifo s)\<rparr>) = Some s' \<and>
    lr_FileEndOffset r \<le> fr_Committed (ft_Reader (snd (final_commit True False (s', t))))"
proof -
  obtain s t r where s: "(file_step accepting_outside some_config (g_identity some_config) some_file_config)\<^sup>*\<^sup>*
       (some_forwarder, None, new_file_thread (new_reader 0 ''log'' ''state'' small_world)) (s, None, t)"
    "s = some_forwarder\<lparr>o_Ticks := 2, o_Fifo := fifo_push r new_log_fifo\<rparr>"
    "lr_Line r = ''a''" "lr_Source r = LOG_SOURCE_FILE" "lr_FileGeneration r = fr_Generation (ft_Reader t)" "running (1, 2) (''a'' @ [CR, NL]) (ft_Reader t)"
    by (rule some_line_read)
  have run: "fr_bOpened (ft_Reader t)" "fr_Fd (ft_Reader t) \<noteq> None" "r_Script (World (ft_Reader t)) = []"
    using s(6) by (simp_all add: running_def undisturbed_def)
  have q: "m_queue (o_Fifo s) = [r]"
    by (simp add: s(2) fifo_push_def new_log_fifo_def)
  define s1 where "s1 = s\<lparr>o_Fifo := fifo_shutdown (o_Fifo s)\<rparr>"
  have s1: "o_Failover s1 = PushFailover_init" "m_queue (o_Fifo s1) = [r]" "m_bShutdown (o_Fifo s1)" "o_WalRefused s1 = o_WalRefused s"
    using q by (simp_all add: s1_def s(2) some_forwarder_def fifo_shutdown_def)
  define s2 where "s2 = pop_and_handle accepting_outside some_config [r] s1"
  obtain b rest where b: "b \<noteq> []" "m_queue (o_Fifo s1) = b @ rest" "PushThread_turn accepting_outside some_config s1 = Some (True, pop_and_handle accepting_outside some_config b s1)"
    "o_Fifo (pop_and_handle accepting_outside some_config b s1) = (o_Fifo s1)\<lparr>m_queue := rest\<rparr>"
    using PushThread_turn_cases(2) [OF s1(3)] s1(2) by (metis list.distinct(1))
  have br: "b = [r]" "rest = []"
    using b(1,2) s1(2) by (cases b; simp)+
  then have "PushThread_turn accepting_outside some_config s2 = Some (False, s2)"
    using b(4) s1(3) by (intro PushThread_turn_cases(1)) (simp_all add: s2_def)
  then have loop: "PushThread_loop 2 accepting_outside some_config s1 = Some s2"
    using b(3) br by (simp add: numeral_2_eq_2 s2_def)
  have "o_WalRefused s2 = o_WalRefused s"
    using some_record_accepted [OF s(3,4), of "s1\<lparr>o_Fifo := (o_Fifo s1)\<lparr>m_queue := drop 1 (m_queue (o_Fifo s1))\<rparr>\<rparr>"] s1
    by (simp add: s2_def pop_and_handle_def)
  then have "lr_FileEndOffset r \<le> fr_Committed (ft_Reader (snd (final_commit True False (s2, t))))"
    using delivered_lines_are_saved_at_the_end [OF s(1) some_start run] q s(4,5) loop s1_def by (auto simp: numeral_2_eq_2)
  then show ?thesis
    using q s(3) loop unfolding s1_def by blast
qed

end
