(* ===== verification/DomfwdEvent.thy ===== *)
theory DomfwdEvent imports Json "HOL-Library.Word" begin

text \<open>
  The record which the Domino add-in (\<^verbatim>\<open>domfwd/domfwd.cpp\<close>) makes of one event of the server: the names of its types, its time, the fields, and
  the JSON for the socket and for the direct push. The Notes C API is not part of the repository: its constants and conversions are the record
  \<open>sdk\<close>, and what its functions write into the buffers is part of an event.
\<close>

section \<open>The API\<close>

text \<open>A \<^verbatim>\<open>TIMEDATE\<close> is what \<^verbatim>\<open>TimeExtractJulianDate\<close> and \<^verbatim>\<open>TimeExtractTicks\<close> read from it.\<close>

record timedate =
  td_Julian :: nat
  td_Ticks :: nat

text \<open>The numbers and texts behind the names of the header files, \<^verbatim>\<open>OSTranslate32\<close> from LMBCS to UTF-8 for a size, and
  \<^verbatim>\<open>ConvertTIMEDATEtoRFC3339Date\<close>.\<close>

record sdk =
  sdk_num :: "string \<Rightarrow> nat"
  sdk_text :: "string \<Rightarrow> string"
  sdk_utf8 :: "string \<Rightarrow> nat \<Rightarrow> string"
  sdk_rfc3339 :: "timedate \<Rightarrow> string"

record ext_info =
  x_AddinName :: string
  x_ExecName :: string
  x_PIDTID :: string
  x_TargetServer :: string
  x_TargetDatabase :: string
  x_TargetUser :: string
  x_ErrorCode :: string
  x_ErrorText :: string

definition empty_ext :: ext_info where
  "empty_ext = \<lparr>x_AddinName = [], x_ExecName = [], x_PIDTID = [], x_TargetServer = [], x_TargetDatabase = [], x_TargetUser = [],
     x_ErrorCode = [], x_ErrorText = []\<rparr>"

text \<open>\<^verbatim>\<open>EVENT_DATA\<close>, with what \<^verbatim>\<open>EventExtractAddinExt\<close> and \<^verbatim>\<open>EventExtractTargetData\<close> write for it.\<close>

record event_data =
  ev_Version :: nat
  ev_ErrorCode :: nat
  ev_AdditionalErrorCode :: nat
  ev_Type :: nat
  ev_Severity :: nat
  ev_FormatSpecifier :: nat
  ev_EventTime :: timedate
  ev_OriginatingServerName :: string
  ev_Ext :: ext_info
  ev_Specific :: string

record event_info =
  ei_wVersion :: nat
  ei_wErrorCode :: nat
  ei_wAdditionalErrorCode :: nat
  ei_wType :: nat
  ei_wSeverity :: nat
  ei_wFormatSpecifier :: nat
  ei_tdEventTime :: timedate
  ei_fExtValid :: bool
  ei_szOriginatingServerName :: string
  ei_szEventTime :: string
  ei_ext :: ext_info

section \<open>Names\<close>

text \<open>A switch over constants of the API: the labels are different numbers.\<close>

definition switch_name :: "sdk \<Rightarrow> nat \<Rightarrow> (string \<times> string) list \<Rightarrow> string \<Rightarrow> string" where
  "switch_name k w cases other = (case find (\<lambda>(c, n). sdk_num k c = w) cases of None \<Rightarrow> other | Some (c, n) \<Rightarrow> n)"

definition GetFormatSpecifierName :: "sdk \<Rightarrow> nat \<Rightarrow> string" where
  "GetFormatSpecifierName k w = switch_name k w
     [(''FMT_UNKNOWN'', ''FMT_UNKNOWN''), (''FMT_TEXT'', ''FMT_TEXT''), (''FMT_ERROR_CODE'', ''FMT_ERROR_CODE''), (''FMT_ERROR_MSG'', ''FMT_ERROR_MSG'')]
     ''FMT_?''"

definition GetEventTypeName :: "sdk \<Rightarrow> nat \<Rightarrow> string" where
  "GetEventTypeName k w = switch_name k w (map (\<lambda>(c, n). (c, sdk_text k n))
     [(''EVT_UNKNOWN'', ''UNKNOWN_NAME''), (''EVT_COMM'', ''COMM_NAME''), (''EVT_SECURITY'', ''SECURE_NAME''), (''EVT_MAIL'', ''MAIL_NAME''),
      (''EVT_REPLICA'', ''REPLICA_NAME''), (''EVT_RESOURCE'', ''RESOURCE_NAME''), (''EVT_MISC'', ''MISC_NAME''), (''EVT_SERVER'', ''SERVER_NAME''),
      (''EVT_ALARM'', ''ALARM_NAME''), (''EVT_UPDATE'', ''UPDATE_NAME''), (''EVT_DATABASE'', ''DATABASE_NAME''), (''EVT_NETWORK'', ''NETWORK_NAME''),
      (''EVT_COMPILER'', ''COMPILER_NAME''), (''EVT_ROUTER'', ''ROUTER_NAME''), (''EVT_AGENT'', ''AGENT_NAME''), (''EVT_CLIENT'', ''CLIENT_NAME''),
      (''EVT_ADDIN'', ''ADDIN_NAME''), (''EVT_ADMINP'', ''ADMINP_NAME''), (''EVT_WEB_CODE'', ''WEB_NAME''), (''EVT_NNTP_CODE'', ''NNTP_NAME''),
      (''EVT_FTP_CODE'', ''FTP_NAME''), (''EVT_CODE'', ''CODE_NAME''), (''EVT_LDAP'', ''LDAP_NAME''), (''EVT_MONITOR'', ''MONITOR_NAME''),
      (''EVT_PROG'', ''PROG_NAME'')])
     ''EVT_?''"

definition GetEventSeverityName :: "sdk \<Rightarrow> nat \<Rightarrow> string" where
  "GetEventSeverityName k w = switch_name k w (map (\<lambda>(c, n). (c, sdk_text k n))
     [(''SEV_UNKNOWN'', ''UNKNOWN_NAME''), (''SEV_FATAL'', ''FATAL_NAME''), (''SEV_FAILURE'', ''FAILURE_NAME''), (''SEV_WARNING1'', ''WARNING1_NAME''),
      (''SEV_WARNING2'', ''WARNING2_NAME''), (''SEV_NORMAL'', ''NORMAL_NAME'')])
     ''SEV_?''"

definition GetOtelSeverity :: "sdk \<Rightarrow> nat \<Rightarrow> nat \<times> string" where
  "GetOtelSeverity k w =
     (if w = sdk_num k ''SEV_FATAL'' then (21, ''FATAL'')
      else if w = sdk_num k ''SEV_FAILURE'' then (17, ''ERROR'')
      else if w = sdk_num k ''SEV_WARNING1'' then (13, ''WARN'')
      else if w = sdk_num k ''SEV_WARNING2'' then (14, ''WARN'')
      else if w = sdk_num k ''SEV_NORMAL'' then (9, ''INFO'')
      else (0, ''UNSPECIFIED''))"

section \<open>Texts and times\<close>

text \<open>\<open>strcasestr\<close>, the Linux build: the needle is not empty.\<close>

definition ContainsCaseInsensitive :: "string \<Rightarrow> string \<Rightarrow> bool" where
  "ContainsCaseInsensitive Haystack Needle =
     (Needle \<noteq> [] \<and> list_ex (\<lambda>i. starts_with (map to_lower Needle) (map to_lower (drop i Haystack))) [0..<Suc (length Haystack)])"

definition StripPrefix :: "string \<Rightarrow> string \<Rightarrow> bool \<times> string" where
  "StripPrefix s Prefix = (if Prefix \<noteq> [] \<and> starts_with Prefix s then (True, drop (length Prefix) s) else (False, s))"

definition StripVersionPrefix :: "string \<Rightarrow> string" where
  "StripVersionPrefix s = (case StripPrefix s ''Release '' of (True, t) \<Rightarrow> t | (False, t) \<Rightarrow> snd (StripPrefix t ''Build ''))"

text \<open>\<^verbatim>\<open>LONG\<close> has 32 bits: a day number above \<open>2 ^ 31\<close> is negative.\<close>

definition JULIAN_DAY_UNIX_EPOCH :: nat where
  "JULIAN_DAY_UNIX_EPOCH = 2440588"

definition Domfwd_GetEpochNanoseconds :: "nat \<Rightarrow> 64 word" where
  "Domfwd_GetEpochNanoseconds now = of_nat now * 1000000000"

definition GetEventEpochNanoseconds :: "sdk \<Rightarrow> nat \<Rightarrow> timedate \<Rightarrow> 64 word" where
  "GetEventEpochNanoseconds k now td =
     (if td_Julian td = 0 \<or> td_Julian td = 0xFFFFFFFF \<or> td_Julian td < JULIAN_DAY_UNIX_EPOCH then Domfwd_GetEpochNanoseconds now
      else
        let lDaysSinceEpoch = (of_nat (td_Julian td - JULIAN_DAY_UNIX_EPOCH) :: 32 word);
            dwSecondsOfDay = td_Ticks td div sdk_num k ''TICKS_IN_SECOND'';
            dwSubSecondTicks = td_Ticks td mod sdk_num k ''TICKS_IN_SECOND'';
            ullEpochSeconds = (scast lDaysSinceEpoch :: 64 word) * of_nat (sdk_num k ''SECS_IN_DAY'') + of_nat dwSecondsOfDay
        in ullEpochSeconds * 1000000000 + of_nat dwSubSecondTicks * 10000000)"

text \<open>\<open>dwUtf8OutSize\<close> is the size of the buffer. The result is ended at the length which is returned.\<close>

definition ConvertLmbcsToUtf8 :: "sdk \<Rightarrow> string \<Rightarrow> nat \<Rightarrow> string" where
  "ConvertLmbcsToUtf8 k s dwUtf8OutSize = c_str (take (dwUtf8OutSize - 1) (sdk_utf8 k s (dwUtf8OutSize - 1)))"

definition UTF8_SIZE :: "nat \<Rightarrow> nat" where
  "UTF8_SIZE n = n * 2 + 1"

text \<open>\<^verbatim>\<open>strtoul (s, NULL, 16)\<close>.\<close>

definition hex_value :: "char \<Rightarrow> nat option" where
  "hex_value c = (let n = (of_char c :: nat) in
     if 48 \<le> n \<and> n \<le> 57 then Some (n - 48)
     else if 65 \<le> n \<and> n \<le> 70 then Some (n - 55)
     else if 97 \<le> n \<and> n \<le> 102 then Some (n - 87) else None)"

fun hex_digits :: "nat \<Rightarrow> string \<Rightarrow> nat" where
  "hex_digits n [] = n"
| "hex_digits n (c # cs) = (case hex_value c of None \<Rightarrow> n | Some d \<Rightarrow> hex_digits (16 * n + d) cs)"

definition c_strtoul16 :: "string \<Rightarrow> nat" where
  "c_strtoul16 s =
     (let t = dropWhile is_space s;
          neg = (t \<noteq> [] \<and> hd t = CHR ''-'');
          u = (if t \<noteq> [] \<and> (hd t = CHR ''-'' \<or> hd t = CHR ''+'') then tl t else t);
          v = hex_digits 0 (case u of z # x # d # r \<Rightarrow> if z = CHR ''0'' \<and> (x = CHR ''x'' \<or> x = CHR ''X'') \<and> hex_value d \<noteq> None then d # r else u | _ \<Rightarrow> u)
      in if v \<ge> 2 ^ 64 then 2 ^ 64 - 1 else if neg then (2 ^ 64 - v) mod 2 ^ 64 else v)"

text \<open>A \<^verbatim>\<open>DWORD\<close>.\<close>

definition event_pid :: "string \<Rightarrow> nat" where
  "event_pid PIDTID = c_strtoul16 PIDTID mod 2 ^ 32"

section \<open>The event\<close>

text \<open>The text of a buffer of n + 1 bytes which was all zero, and whose last byte is set to zero again.\<close>

definition cut_text :: "nat \<Rightarrow> string \<Rightarrow> string" where
  "cut_text n s = c_str (take n s)"

definition ExtractEventDataExt :: "sdk \<Rightarrow> event_data \<Rightarrow> bool \<times> ext_info" where
  "ExtractEventDataExt k ev =
     (if sdk_num k ''EVENT_VERSION'' \<noteq> ev_Version ev then (False, empty_ext)
      else let e = ev_Ext ev; sp = sdk_num k ''MAXSPRINTF''; us = sdk_num k ''MAXUSERNAME''
        in (True, \<lparr>x_AddinName = cut_text sp (x_AddinName e), x_ExecName = cut_text sp (x_ExecName e), x_PIDTID = cut_text sp (x_PIDTID e),
             x_TargetServer = cut_text us (x_TargetServer e), x_TargetDatabase = cut_text (sdk_num k ''MAXPATH'') (x_TargetDatabase e),
             x_TargetUser = cut_text us (x_TargetUser e), x_ErrorCode = cut_text sp (x_ErrorCode e), x_ErrorText = cut_text (sp * 4) (x_ErrorText e)\<rparr>))"

definition PopulateEventInfo :: "sdk \<Rightarrow> event_data \<Rightarrow> event_info" where
  "PopulateEventInfo k ev =
     (case ExtractEventDataExt k ev of (valid, ext) \<Rightarrow>
        \<lparr>ei_wVersion = ev_Version ev, ei_wErrorCode = ev_ErrorCode ev, ei_wAdditionalErrorCode = ev_AdditionalErrorCode ev, ei_wType = ev_Type ev,
          ei_wSeverity = ev_Severity ev, ei_wFormatSpecifier = ev_FormatSpecifier ev, ei_tdEventTime = ev_EventTime ev, ei_fExtValid = valid,
          ei_szOriginatingServerName = cut_text (sdk_num k ''MAXUSERNAME'' - 1) (ev_OriginatingServerName ev),
          ei_szEventTime = c_str (sdk_rfc3339 k (ev_EventTime ev)), ei_ext = ext\<rparr>)"

section \<open>The fields\<close>

datatype domfwd_kv = KVInt int | KVStr string

type_synonym kv_array = "(string \<times> domfwd_kv) list"

definition AddKV :: "nat \<Rightarrow> string \<Rightarrow> string \<Rightarrow> kv_array \<Rightarrow> kv_array" where
  "AddKV wMax Key Value kvs = (if length kvs \<ge> wMax then kvs else kvs @ [(Key, KVStr Value)])"

definition AddKVInt :: "nat \<Rightarrow> string \<Rightarrow> int \<Rightarrow> kv_array \<Rightarrow> kv_array" where
  "AddKVInt wMax Key Value kvs = (if length kvs \<ge> wMax then kvs else kvs @ [(Key, KVInt Value)])"

definition MAX_RESOURCE_KV :: nat where
  "MAX_RESOURCE_KV = 8"

definition MAX_ATTRIBUTE_KV :: nat where
  "MAX_ATTRIBUTE_KV = 11"

record otel_fields =
  of_TimeUnixNano :: string
  of_ObservedTimeUnixNano :: string
  of_SeverityNumber :: nat
  of_SeverityText :: string
  of_Body :: string
  of_Resource :: kv_array
  of_Attributes :: kv_array

text \<open>What the add-in read about its server at the start.\<close>

record server_info =
  si_HostName :: string
  si_DominoVersion :: string

definition resource_kvs :: "sdk \<Rightarrow> server_info \<Rightarrow> event_info \<Rightarrow> kv_array" where
  "resource_kvs k g i =
     (let ServerUtf8 = ConvertLmbcsToUtf8 k (ei_szOriginatingServerName i) (UTF8_SIZE (sdk_num k ''MAXUSERNAME''));
          e = ei_ext i;
          r1 = AddKV MAX_RESOURCE_KV ''service.name'' ''domino'' [];
          r2 = AddKV MAX_RESOURCE_KV ''service.instance.id'' ServerUtf8 r1;
          r3 = AddKV MAX_RESOURCE_KV ''host.name'' (if si_HostName g \<noteq> [] then si_HostName g else ServerUtf8) r2;
          r4 = AddKV MAX_RESOURCE_KV ''os.type'' ''linux'' r3;
          r5 = (if si_DominoVersion g \<noteq> [] then AddKV MAX_RESOURCE_KV ''service.version'' (si_DominoVersion g) r4 else r4)
      in if ei_fExtValid i then
           AddKV MAX_RESOURCE_KV ''domino.process.pidtid'' (x_PIDTID e)
             (AddKVInt MAX_RESOURCE_KV ''process.pid'' (sint (of_nat (event_pid (x_PIDTID e)) :: 32 word))
               (AddKV MAX_RESOURCE_KV ''process.executable.name'' (ConvertLmbcsToUtf8 k (x_ExecName e) (UTF8_SIZE (sdk_num k ''MAXSPRINTF'' + 1))) r5))
         else r5)"

definition attribute_kvs :: "sdk \<Rightarrow> event_info \<Rightarrow> kv_array" where
  "attribute_kvs k i =
     (let e = ei_ext i;
          a1 = AddKVInt MAX_ATTRIBUTE_KV ''domino.event.type_code'' (int (ei_wType i)) [];
          a2 = AddKV MAX_ATTRIBUTE_KV ''domino.event.type'' (GetEventTypeName k (ei_wType i)) a1;
          a3 = AddKV MAX_ATTRIBUTE_KV ''domino.event.time'' (ei_szEventTime i) a2;
          a4 = AddKVInt MAX_ATTRIBUTE_KV ''domino.error.code'' (int (ei_wErrorCode i)) a3;
          a5 = AddKVInt MAX_ATTRIBUTE_KV ''domino.error.additional_code'' (int (ei_wAdditionalErrorCode i)) a4
      in if ei_fExtValid i then
           AddKV MAX_ATTRIBUTE_KV ''domino.target.user'' (ConvertLmbcsToUtf8 k (x_TargetUser e) (UTF8_SIZE (sdk_num k ''MAXUSERNAME'' + 1)))
             (AddKV MAX_ATTRIBUTE_KV ''domino.target.database'' (ConvertLmbcsToUtf8 k (x_TargetDatabase e) (UTF8_SIZE (sdk_num k ''MAXPATH'' + 1)))
               (AddKV MAX_ATTRIBUTE_KV ''domino.target.server'' (ConvertLmbcsToUtf8 k (x_TargetServer e) (UTF8_SIZE (sdk_num k ''MAXUSERNAME'' + 1)))
                 (AddKV MAX_ATTRIBUTE_KV ''domino.addin.name'' (ConvertLmbcsToUtf8 k (x_AddinName e) (UTF8_SIZE (sdk_num k ''MAXSPRINTF'' + 1))) a5)))
         else a5)"

text \<open>\<open>now\<close> is \<^verbatim>\<open>time (NULL)\<close>, \<open>tdNow\<close> the current \<^verbatim>\<open>TIMEDATE\<close>.\<close>

definition BuildOtelFields :: "sdk \<Rightarrow> server_info \<Rightarrow> nat \<Rightarrow> timedate \<Rightarrow> event_info \<Rightarrow> otel_fields" where
  "BuildOtelFields k g now tdNow i =
     (case GetOtelSeverity k (ei_wSeverity i) of (Number, Txt) \<Rightarrow>
        \<lparr>of_TimeUnixNano = dec_text (unat (GetEventEpochNanoseconds k now (ei_tdEventTime i))),
          of_ObservedTimeUnixNano = dec_text (unat (GetEventEpochNanoseconds k now tdNow)),
          of_SeverityNumber = Number, of_SeverityText = Txt,
          of_Body = (if ei_fExtValid i then ConvertLmbcsToUtf8 k (x_ErrorText (ei_ext i)) (UTF8_SIZE (sdk_num k ''MAXSPRINTF'' + 1)) else []),
          of_Resource = resource_kvs k g i, of_Attributes = attribute_kvs k i\<rparr>)"

section \<open>The JSON\<close>

fun kv_json :: "domfwd_kv \<Rightarrow> json" where
  "kv_json (KVInt n) = JInt n"
| "kv_json (KVStr s) = JStr s"

definition AddKVsToJsonObject :: "kv_array \<Rightarrow> json" where
  "AddKVsToJsonObject kvs = JObj (map (\<lambda>(Key, v). (Key, kv_json v)) kvs)"

definition DOMFWD_VERSION :: string where
  "DOMFWD_VERSION = ''0.9.0''"

definition event_scope_json :: json where
  "event_scope_json = JObj [(''name'', JStr ''domino.event''), (''version'', JStr DOMFWD_VERSION)]"

definition BuildEventPayload :: "otel_fields \<Rightarrow> json" where
  "BuildEventPayload f = JObj
     [(''time_unix_nano'', JStr (of_TimeUnixNano f)), (''observed_time_unix_nano'', JStr (of_ObservedTimeUnixNano f)),
      (''severity_number'', JInt (int (of_SeverityNumber f))), (''severity_text'', JStr (of_SeverityText f)), (''body'', JStr (of_Body f)),
      (''scope'', event_scope_json), (''resource'', AddKVsToJsonObject (of_Resource f)), (''attributes'', AddKVsToJsonObject (of_Attributes f))]"

definition AddOtlpStringAttr :: "string \<Rightarrow> string \<Rightarrow> json list \<Rightarrow> json list" where
  "AddOtlpStringAttr Key Value attrs = attrs @ [JObj [(''key'', JStr Key), (''value'', JObj [(''stringValue'', JStr Value)])]]"

text \<open>The request of the direct push: the record itself is the text of the body.\<close>

definition PushEventToOtel_json :: "otel_fields \<Rightarrow> string \<Rightarrow> json" where
  "PushEventToOtel_json f Payload =
     (let resource = JObj [(''attributes'', JArr (AddOtlpStringAttr ''service.name'' ''domino'' []))];
          logRecord = JObj [(''timeUnixNano'', JStr (of_TimeUnixNano f)), (''observedTimeUnixNano'', JStr (of_ObservedTimeUnixNano f)),
            (''severityNumber'', JInt (int (of_SeverityNumber f))), (''severityText'', JStr (of_SeverityText f)),
            (''body'', JObj [(''stringValue'', JStr (c_str Payload))])];
          scopeLog = JObj [(''scope'', event_scope_json), (''logRecords'', JArr [logRecord])];
          resourceLog = JObj [(''resource'', resource), (''scopeLogs'', JArr [scopeLog])]
      in JObj [(''resourceLogs'', JArr [resourceLog])])"

end
