(* ===== verification/Domfwd.thy ===== *)
theory Domfwd imports DomfwdEvent DurableTheorems Metrics begin

text \<open>
  The Domino add-in (\<^verbatim>\<open>domfwd/domfwd.cpp\<close>), the Linux build with libcurl: its settings, the way of an event to the socket, the main
  loop, the end, and the metrics file. The event queue of the server is a function from the number of the call to its answer. The traces and the
  dumps of the verbose levels are not modelled.
\<close>

section \<open>The add-in\<close>

datatype event_handle = NullHandle | CannotLock | Event event_data

record otel_request =
  or_URL :: string
  or_Headers :: "string list"
  or_Body :: string
  or_CaFile :: "string option"

text \<open>\<open>de_time\<close> and \<open>de_now\<close> are the clocks at the n-th look, \<open>de_get\<close> the answers of \<^verbatim>\<open>EventQueueGetExt\<close> (an error or
  a handle), \<open>de_push\<close> the answers of libcurl (an error text, or none).\<close>

record domfwd_env =
  de_sdk :: sdk
  de_json_write :: "json \<Rightarrow> string"
  de_time :: "nat \<Rightarrow> nat"
  de_now :: "nat \<Rightarrow> timedate"
  de_get :: "nat \<Rightarrow> nat + event_handle"
  de_push :: "nat \<Rightarrow> string option"
  de_curl :: bool
  de_OwnProcessId :: nat
  de_Server :: server_info
  de_szOtelPushURL :: string
  de_szOtelPushToken :: string
  de_szOtelCaFile :: string
  de_szSocketWal :: string
  de_SocketWalMaxBytes :: nat
  de_fPromEnabled :: bool
  de_tStartTime :: nat

record domfwd =
  df_Sender :: durable
  df_EventLogFile :: "string option"
  df_Requests :: "otel_request list"
  df_EventsReceived :: nat
  df_EventsSkippedOwn :: nat
  df_EventsDroppedVersion :: nat
  df_tLastEvent :: nat
  df_Health :: HealthMonitor
  df_Prom :: "metric_line list option"
  df_Freed :: nat
  df_Gets :: nat
  df_Ticks :: nat
  df_Console :: "string list"

definition console :: "string \<Rightarrow> domfwd \<Rightarrow> domfwd" where
  "console msg st = st\<lparr>df_Console := df_Console st @ [''domfwd: '' @ msg]\<rparr>"

definition domfwd_time :: "domfwd_env \<Rightarrow> domfwd \<Rightarrow> nat \<times> domfwd" where
  "domfwd_time e st = (de_time e (df_Ticks st), st\<lparr>df_Ticks := df_Ticks st + 1\<rparr>)"

definition IsConfigured :: "domfwd \<Rightarrow> bool" where
  "IsConfigured st = m_bConfigured (m_Sender (df_Sender st))"

section \<open>The way of an event\<close>

definition WriteEventJson :: "string \<Rightarrow> domfwd \<Rightarrow> domfwd" where
  "WriteEventJson Payload st =
     (case df_EventLogFile st of None \<Rightarrow> st | Some l \<Rightarrow> st\<lparr>df_EventLogFile := Some (l @ Payload @ [CHR 0x0A])\<rparr>)"

definition SendEventToSocket :: "string \<Rightarrow> domfwd \<Rightarrow> domfwd" where
  "SendEventToSocket Payload st =
     (if \<not> IsConfigured st then st
      else st\<lparr>df_Sender := Durable_Pump (snd (Durable_Send (Some (to_bytes Payload)) (df_Sender st)))\<rparr>)"

definition SendOtelPayload :: "domfwd_env \<Rightarrow> string \<Rightarrow> domfwd \<Rightarrow> bool \<times> domfwd" where
  "SendOtelPayload e Buffer st =
     (if de_szOtelPushURL e = [] \<or> \<not> de_curl e then (False, st)
      else
        let req = \<lparr>or_URL = de_szOtelPushURL e,
              or_Headers = ''Content-Type: application/json'' #
                (if de_szOtelPushToken e \<noteq> [] then [take 599 (''Authorization: Bearer '' @ de_szOtelPushToken e)] else []),
              or_Body = Buffer, or_CaFile = (if de_szOtelCaFile e = [] then None else Some (de_szOtelCaFile e))\<rparr>;
            st1 = st\<lparr>df_Requests := df_Requests st @ [req]\<rparr>
        in case de_push e (length (df_Requests st)) of
             None \<Rightarrow> (True, st1)
           | Some err \<Rightarrow> (False, console (''OTLP push failed: '' @ err) st1))"

definition PushEventToOtel :: "domfwd_env \<Rightarrow> otel_fields \<Rightarrow> string \<Rightarrow> domfwd \<Rightarrow> domfwd" where
  "PushEventToOtel e f Payload st =
     (if de_szOtelPushURL e = [] then st else snd (SendOtelPayload e (de_json_write e (PushEventToOtel_json f Payload)) st))"

definition IsOwnEvent :: "domfwd_env \<Rightarrow> event_info \<Rightarrow> bool" where
  "IsOwnEvent e i = (ei_fExtValid i \<and>
     (de_OwnProcessId e \<noteq> 0 \<and> event_pid (x_PIDTID (ei_ext i)) = de_OwnProcessId e \<or> ContainsCaseInsensitive (x_ExecName (ei_ext i)) ''domfwd''))"

definition EXPECTED_EVENT_VERSION :: nat where
  "EXPECTED_EVENT_VERSION = 2"

definition ProcessEvent :: "domfwd_env \<Rightarrow> event_info \<Rightarrow> domfwd \<Rightarrow> domfwd" where
  "ProcessEvent e i st =
     (if IsOwnEvent e i then st\<lparr>df_EventsSkippedOwn := df_EventsSkippedOwn st + 1\<rparr>
      else case domfwd_time e st of
        (t, st1) \<Rightarrow>
          let st2 = st1\<lparr>df_tLastEvent := t\<rparr>
          in if ei_wVersion i = EXPECTED_EVENT_VERSION then
               (case domfwd_time e st2 of
                  (now, st3) \<Rightarrow>
                    let f = BuildOtelFields (de_sdk e) (de_Server e) now (de_now e (df_Ticks st2)) i;
                        Payload = de_json_write e (BuildEventPayload f)
                    in PushEventToOtel e f Payload (SendEventToSocket Payload (WriteEventJson Payload st3)))
             else st2\<lparr>df_EventsDroppedVersion := df_EventsDroppedVersion st2 + 1\<rparr>)"

text \<open>The status, 0 is \<^verbatim>\<open>NOERROR\<close>. The handle is released in any case; \<open>df_Freed\<close> counts that.\<close>

definition ProcessEventData :: "domfwd_env \<Rightarrow> event_handle \<Rightarrow> domfwd \<Rightarrow> nat \<times> domfwd" where
  "ProcessEventData e h st =
     (case h of
        NullHandle \<Rightarrow> (sdk_num (de_sdk e) ''ERR_MISC_INVALID_ARGS'', st)
      | CannotLock \<Rightarrow> (sdk_num (de_sdk e) ''ERR_MEMORY'', st\<lparr>df_Freed := df_Freed st + 1\<rparr>)
      | Event ev \<Rightarrow> let st1 = ProcessEvent e (PopulateEventInfo (de_sdk e) ev) st in (0, st1\<lparr>df_Freed := df_Freed st1 + 1\<rparr>))"

definition EventQueueGet :: "domfwd_env \<Rightarrow> domfwd \<Rightarrow> (nat + event_handle) \<times> domfwd" where
  "EventQueueGet e st = (de_get e (df_Gets st), st\<lparr>df_Gets := df_Gets st + 1\<rparr>)"

section \<open>Health and metrics\<close>

definition Domfwd_UpdateHealth :: "domfwd_env \<Rightarrow> domfwd \<Rightarrow> domfwd" where
  "Domfwd_UpdateHealth e st =
     (if \<not> IsConfigured st then st
      else
        let s = df_Sender st;
            inp = \<lparr>bUnreachable = (\<not> IsConnected (m_Sender s)), bWalFailed = (de_szSocketWal e \<noteq> [] \<and> m_pWal s = None),
              WalBytes = (if m_pWal s \<noteq> None then Durable_GetWalSize s else 0),
              WalMaxBytes = (if m_pWal s \<noteq> None then de_SocketWalMaxBytes e else 0),
              Dropped = Durable_GetDropped s, Rejected = m_Rejected (m_Sender s)\<rparr>
        in case domfwd_time e st of (t, st1) \<Rightarrow> st1\<lparr>df_Health := snd (Update True (int t) inp (df_Health st1))\<rparr>)"

text \<open>The names of the metrics are without the prefix \<^verbatim>\<open>domfwd_\<close>.\<close>

definition metric :: "string \<Rightarrow> string \<Rightarrow> string \<Rightarrow> string \<Rightarrow> nat \<Rightarrow> metric_line list" where
  "metric Name Label Type Description v = [Help Name Description, TypeOf Name Type, Sample (Name @ Label) v]"

definition reason_label :: "string \<Rightarrow> string" where
  "reason_label r = ''{reason='' @ quoted r @ ''}''"

definition prom_process :: "domfwd_env \<Rightarrow> nat \<Rightarrow> nat \<Rightarrow> domfwd \<Rightarrow> metric_line list" where
  "prom_process e t1 t2 st =
     metric ''build_number'' [] ''gauge'' (''domfwd Build Version '' @ DOMFWD_VERSION) 900 @
     metric ''started_timestamp_seconds'' [] ''gauge'' ''Unix timestamp when the add-in was started'' (de_tStartTime e) @
     metric ''uptime_seconds'' [] ''gauge'' ''Uptime in seconds'' ((t1 + 2 ^ 64 - de_tStartTime e) mod 2 ^ 64) @
     metric ''lastupdate_timestamp_seconds'' [] ''gauge'' ''Unix timestamp for last metrics update'' t2 @
     metric ''events_received_total'' [] ''counter'' ''Events read from the Domino event queue'' (df_EventsReceived st) @
     metric ''events_skipped_total'' (reason_label ''own'') ''counter'' ''Events not forwarded on purpose'' (df_EventsSkippedOwn st) @
     metric ''events_dropped_total'' (reason_label ''version'') ''counter'' ''Events which could not be processed'' (df_EventsDroppedVersion st) @
     metric ''last_event_timestamp_seconds'' [] ''gauge'' ''Time of the last event received, own events excluded (0 = none since start)'' (df_tLastEvent st)"

definition prom_socket :: "domfwd \<Rightarrow> metric_line list" where
  "prom_socket st =
     (let s = df_Sender st; q = m_Sender s
      in metric ''socket_sent_total'' [] ''counter'' ''Records sent to the forwarder'' (m_Sent q) @
         metric ''socket_dropped_total'' [] ''counter'' ''Records dropped because the queue was full, and the WAL too (or there is none)'' (Durable_GetDropped s) @
         metric ''socket_rejected_total'' [] ''counter'' ''Records rejected by the sender (invalid line)'' (m_Rejected q) @
         metric ''socket_connects_total'' [] ''counter'' ''Connections established to the forwarder'' (m_Connects q) @
         metric ''socket_queued'' [] ''gauge'' ''Records waiting to be sent'' (GetQueuedLines q) @
         metric ''socket_connected'' [] ''gauge'' ''1 if connected to the forwarder'' (if IsConnected q then 1 else 0) @
         metric ''health'' [] ''gauge'' ''Health for alerting: 0 is OK, 1 is a warning, 2 is an error'' (health_number (h_State (df_Health st))))"

definition prom_wal :: "domfwd \<Rightarrow> metric_line list" where
  "prom_wal st =
     (let s = df_Sender st
      in metric ''socket_wal_bytes'' [] ''gauge'' ''Size of the WAL: events which wait on disk for the forwarder'' (Durable_GetWalSize s) @
         metric ''socket_wal_written_total'' [] ''counter'' ''Records written to the WAL because the forwarder was not connected or records waited'' (m_Spilled s) @
         metric ''socket_wal_taken_total'' [] ''counter'' ''Records taken out of the WAL and given to the sender'' (m_Drained s) @
         metric ''socket_wal_refused_total'' [] ''counter'' ''Records which the WAL did not take (it was full, or a failure). They are dropped'' (m_WalRefused s))"

text \<open>\<open>bOpened\<close>: the temporary file can be opened.\<close>

definition WritePromFile :: "domfwd_env \<Rightarrow> bool \<Rightarrow> domfwd \<Rightarrow> domfwd" where
  "WritePromFile e bOpened st =
     (if \<not> de_fPromEnabled e \<or> \<not> bOpened then st
      else case domfwd_time e st of (t1, st1) \<Rightarrow> (case domfwd_time e st1 of (t2, st2) \<Rightarrow>
        st2\<lparr>df_Prom := Some (prom_process e t1 t2 st @
          (if IsConfigured st then prom_socket st @ (if m_pWal (df_Sender st) \<noteq> None then prom_wal st else []) else []))\<rparr>))"

section \<open>The main loop\<close>

definition MAX_EVENTS_PER_IDLE :: nat where
  "MAX_EVENTS_PER_IDLE = 20"

text \<open>The inner loop with the turns which are left.\<close>

fun idle_events :: "nat \<Rightarrow> domfwd_env \<Rightarrow> domfwd \<Rightarrow> domfwd" where
  "idle_events 0 e st = st"
| "idle_events (Suc n) e st =
     (case EventQueueGet e st of
        (Inl err, st1) \<Rightarrow>
          if err = sdk_num (de_sdk e) ''ERR_EVTQUEUE_EMPTY'' then st1
          else console (''EventQueueGetExt failed: '' @ dec_text err) st1
      | (Inr h, st1) \<Rightarrow>
          (case ProcessEventData e h (st1\<lparr>df_EventsReceived := df_EventsReceived st1 + 1\<rparr>) of
             (err, st2) \<Rightarrow> idle_events n e (if err \<noteq> 0 then console (''ProcessEventData failed: '' @ dec_text err) st2 else st2)))"

definition pump_sender :: "domfwd \<Rightarrow> domfwd" where
  "pump_sender st = st\<lparr>df_Sender := Durable_Pump (df_Sender st)\<rparr>"

text \<open>One turn of the loop, with the time of the next metrics file.\<close>

definition idle_cycle :: "domfwd_env \<Rightarrow> bool \<Rightarrow> nat \<times> domfwd \<Rightarrow> nat \<times> domfwd" where
  "idle_cycle e bOpened = (\<lambda>(tPromNext, st).
     case domfwd_time e st of
       (t, st1) \<Rightarrow>
         (case (if t \<ge> tPromNext then
                  (case domfwd_time e (WritePromFile e bOpened (Domfwd_UpdateHealth e st1)) of (t2, st2) \<Rightarrow> (t2 + 30, st2))
                else (tPromNext, st1)) of
            (tPromNext', st2) \<Rightarrow> (tPromNext', idle_events MAX_EVENTS_PER_IDLE e (pump_sender st2))))"

section \<open>The end\<close>

text \<open>The drain of the event queue at the end: the numbers of events and of milliseconds. Every error of the queue counts as empty.\<close>

function DrainLoop :: "domfwd_env \<Rightarrow> nat \<Rightarrow> nat \<Rightarrow> nat \<Rightarrow> nat \<Rightarrow> nat \<Rightarrow> domfwd \<Rightarrow> nat \<times> nat \<times> domfwd" where
  "DrainLoop e QuietMs MaxMs Quiet Waited Events st =
     (if Quiet < QuietMs \<and> Waited < MaxMs \<and> Events < 10000 then
        (case EventQueueGet e st of
           (Inr h, st1) \<Rightarrow> DrainLoop e QuietMs MaxMs 0 Waited (Events + 1) (snd (ProcessEventData e h st1))
         | (Inl err, st1) \<Rightarrow> DrainLoop e QuietMs MaxMs (Quiet + 50) (Waited + 50) Events st1)
      else (Events, Waited, st))"
  by pat_completeness auto
termination
  by (relation "measure (\<lambda>(e, QuietMs, MaxMs, Quiet, Waited, Events, st). (MaxMs - Waited) + (10000 - Events))") auto

declare DrainLoop.simps [simp del]

definition DrainEventQueue :: "domfwd_env \<Rightarrow> nat \<Rightarrow> nat \<Rightarrow> domfwd \<Rightarrow> domfwd" where
  "DrainEventQueue e QuietMs MaxMs st = (case DrainLoop e QuietMs MaxMs 0 0 0 st of (Events, Waited, st1) \<Rightarrow> st1)"

text \<open>\<open>None\<close>: the fuel of \<open>Flush\<close> was not enough.\<close>

definition ShutdownSocket :: "nat \<Rightarrow> domfwd \<Rightarrow> domfwd option" where
  "ShutdownSocket fuel st =
     (if \<not> IsConfigured st then Some st
      else case Durable_Flush fuel 2000 (df_Sender st) of
        None \<Rightarrow> None
      | Some (flushed, s) \<Rightarrow>
          let HasWal = (m_pWal s \<noteq> None); q = m_Sender s;
              st1 = st\<lparr>df_Sender := s\<rparr>;
              st2 = (if flushed then st1 else console (''Socket: '' @ dec_text (GetQueuedLines q) @ '' events could not be delivered to the forwarder'' @
                (if HasWal then '' and could not be stored in the WAL'' else [])) st1);
              st3 = (if HasWal \<and> Durable_GetWalSize s > 0
                then console (''Socket: '' @ dec_text (Durable_GetWalSize s) @ '' bytes of events wait in the WAL for the next start'') st2 else st2);
              st4 = console (''Socket: '' @ dec_text (m_Sent q) @ '' sent, '' @ dec_text (Durable_GetDropped s) @ '' dropped'' @
                (if HasWal then '', '' @ dec_text (m_Spilled s) @ '' written to the WAL, '' @ dec_text (m_Drained s) @ '' taken from it'' else [])) st3
          in Some (st4\<lparr>df_Sender := snd (Durable_Close s)\<rparr>))"

definition SHUTDOWN_QUIET_MS :: nat where
  "SHUTDOWN_QUIET_MS = 500"

definition SHUTDOWN_MAX_MS :: nat where
  "SHUTDOWN_MAX_MS = 3000"

definition AddIn_end :: "nat \<Rightarrow> domfwd_env \<Rightarrow> bool \<Rightarrow> domfwd \<Rightarrow> domfwd option" where
  "AddIn_end fuel e bOpened st =
     map_option (\<lambda>st2. WritePromFile e bOpened (DrainEventQueue e SHUTDOWN_QUIET_MS SHUTDOWN_MAX_MS st2))
       (ShutdownSocket fuel (DrainEventQueue e SHUTDOWN_QUIET_MS SHUTDOWN_MAX_MS (console ''Shutting down'' st)))"

section \<open>The settings\<close>

text \<open>The settings of \<^verbatim>\<open>notes.ini\<close>: a text is cut to its buffer, one which is not there is empty.\<close>

definition ini_text :: "(string \<Rightarrow> string) \<Rightarrow> string \<Rightarrow> nat \<Rightarrow> string" where
  "ini_text ini name cb = c_str (take (cb - 1) (ini name))"

text \<open>The target, the WAL and its largest size; \<open>None\<close>: no socket.\<close>

definition socket_settings :: "(string \<Rightarrow> string) \<Rightarrow> (string \<Rightarrow> int) \<Rightarrow> string \<Rightarrow> string \<Rightarrow> (string \<times> string \<times> nat) option" where
  "socket_settings ini ini_int DataDir OtelPushURL =
     (let t0 = ini_text ini ''DOMFWD_Socket'' 512;
          Target = (if t0 = [] \<and> OtelPushURL = [] then take 511 (''unix:'' @ DataDir @ ''/domino/otelfwd.sock'') else t0);
          w0 = ini_text ini ''DOMFWD_SocketWAL'' 512;
          Wal = (if w0 = ''off'' then [] else if w0 = [] then take 511 (DataDir @ ''/domino'' @ ''/domfwd.wal'') else w0);
          MaxMB = (let mb = ini_int ''DOMFWD_SocketWALMaxMB'' in if mb \<le> 0 then 128 else nat mb)
      in if t0 = ''off'' \<or> Target = [] then None else Some (Target, Wal, MaxMB * 1024 * 1024))"

definition LoadSocketConfig :: "(string \<Rightarrow> nat list option) \<Rightarrow> (string \<Rightarrow> nat list option) \<Rightarrow> bool \<Rightarrow> (string \<Rightarrow> disk)
    \<Rightarrow> (string \<times> string \<times> nat) option \<Rightarrow> domfwd \<Rightarrow> domfwd" where
  "LoadSocketConfig p4 p6 mem files settings st =
     (case settings of
        None \<Rightarrow> st
      | Some (Target, Wal, MaxWal) \<Rightarrow>
          (case Durable_Configure p4 p6 mem files (Some Target) True 2000 (4 * 1024 * 1024) (Some Wal) MaxWal 256 (df_Sender st) of
             (Some err, s) \<Rightarrow> console (''Invalid DOMFWD_Socket setting '' @ quoted Target @ '': '' @ err) (st\<lparr>df_Sender := s\<rparr>)
           | (None, s) \<Rightarrow>
               let st1 = console (''Forwarding events to '' @ Target) (st\<lparr>df_Sender := s\<rparr>);
                   st2 = (if m_pWal s \<noteq> None then console (''Socket: Events wait in the WAL '' @ Wal @ '' (at most '' @ dec_text (MaxWal div (1024 * 1024)) @
                     '' MB) while the forwarder is not reachable'') st1 else st1)
               in if m_pWal s \<noteq> None \<and> Durable_GetWalSize s > 0
                  then console (''Socket: The WAL holds '' @ dec_text (Durable_GetWalSize s) @
                    '' bytes of events of an earlier run. They are sent when the forwarder is reachable'') st2 else st2))"

definition LoadOtelConfig :: "(string \<Rightarrow> string) \<Rightarrow> (string \<Rightarrow> bool) \<Rightarrow> string \<Rightarrow> string \<times> string \<times> string" where
  "LoadOtelConfig ini exists_file DataDirSep =
     (ini_text ini ''DOMFWD_OtelPushURL'' 512, ini_text ini ''DOMFWD_OtelPushToken'' 512,
      let ca = ini_text ini ''DOMFWD_OtelCaFile'' 512; path = take 511 (DataDirSep @ ''cacert.pem'')
      in if ca \<noteq> [] then ca else if exists_file path then path else [])"

definition LoadPromConfig :: "(string \<Rightarrow> string) \<Rightarrow> bool" where
  "LoadPromConfig ini = (ini_text ini ''DOMFWD_PromFile'' 32 \<noteq> ''off'')"

text \<open>\<^verbatim>\<open>-e\<close> and any number of \<^verbatim>\<open>v\<close>.\<close>

fun ParseCommandLine :: "string list \<Rightarrow> bool \<times> nat \<Rightarrow> bool \<times> nat" where
  "ParseCommandLine [] r = r"
| "ParseCommandLine (arg # args) (dump, verbose) =
     (case arg of
        d # p \<Rightarrow>
          if d \<noteq> CHR ''-'' then ParseCommandLine args (dump, verbose)
          else if p \<noteq> [] \<and> (hd p = CHR ''e'' \<or> hd p = CHR ''E'') then ParseCommandLine args (True, verbose)
          else ParseCommandLine args (dump, verbose + length (takeWhile (\<lambda>c. c = CHR ''v'' \<or> c = CHR ''V'') p))
      | [] \<Rightarrow> ParseCommandLine args (dump, verbose))"

end
