(* ===== verification/DomfwdEventTheorems.thy ===== *)
theory DomfwdEventTheorems imports DomfwdEvent OtelRecord begin

text \<open>
  The two programs fit together: otelfwd reads back the record which the Domino add-in makes of an event.
\<close>

section \<open>The time\<close>

lemma dec_value_snoc: "dec_value (xs @ [c]) = dec_value xs * 10 + digit_value c"
  by (simp add: dec_value_def)

lemma digit_value_le: "is_digit c \<Longrightarrow> digit_value c \<le> 9"
  by (auto simp: is_digit_def digit_value_def)

lemma fold_value_ge: "(n :: nat) \<le> fold (\<lambda>c n. n * 10 + digit_value c) cs n"
proof (induction cs arbitrary: n)
  case (Cons c cs)
  have "n \<le> n * 10 + digit_value c" by simp
  also have "\<dots> \<le> fold (\<lambda>c n. n * 10 + digit_value c) cs (n * 10 + digit_value c)"
    by (rule Cons)
  finally show ?case
    by simp
qed simp

lemma nano_digits_value:
  "list_all is_digit cs \<Longrightarrow> fold (\<lambda>c n. n * 10 + digit_value c) cs n < 2 ^ 64 \<Longrightarrow>
   nano_digits n cs = Some (fold (\<lambda>c n. n * 10 + digit_value c) cs n)"
proof (induction cs arbitrary: n)
  case (Cons c cs)
  have d: "is_digit c" "list_all is_digit cs" "digit_value c \<le> 9"
    using Cons.prems(1) digit_value_le by simp_all
  have "n * 10 + digit_value c < 2 ^ 64"
    using Cons.prems(2) fold_value_ge [of "n * 10 + digit_value c" cs] by simp
  then have "n * 10 \<le> 2 ^ 64 - 1 - digit_value c"
    by simp
  then have "\<not> n > (2 ^ 64 - 1 - digit_value c) div 10"
    by (simp add: less_eq_div_iff_mult_less_eq)
  then show ?case
    using Cons.IH [of "n * 10 + digit_value c"] Cons.prems(2) d by (simp del: power_Suc)
qed simp

lemma nano_digits_dec_text: "n < 2 ^ 64 \<Longrightarrow> nano_digits 0 (dec_text n) = Some n"
  using nano_digits_value [OF dec_text_digits, of n 0] dec_value_dec_text [of n] by (simp add: dec_value_def)

lemma c_str_dec_text [simp]: "c_str (dec_text n) = dec_text n"
proof -
  have "list_all (\<lambda>c. c \<noteq> CHR 0x00) (dec_text n)"
    using dec_text_digits [of n] by (auto simp: list_all_iff is_digit_def)
  then show ?thesis
    unfolding c_str_def by (induction "dec_text n") (simp_all add: list_all_iff takeWhile_eq_all_conv)
qed

lemma nano_of_text: "n < 2 ^ 63 \<Longrightarrow> nano_of (Some (JStr (dec_text n))) = int n"
proof -
  assume n: "n < 2 ^ 63"
  have p: "(2 :: nat) ^ 63 = 9223372036854775808"
    by simp
  have "nano_digits 0 (dec_text n) = Some n"
    using n by (intro nano_digits_dec_text) simp
  moreover have "\<not> int n > 2 ^ 63 - 1"
    using n p by simp
  ultimately show ?thesis
    by (simp add: nano_of_def GetUnixNanoFromJson_def Let_def)
qed

text \<open>A time within 274 years from 1970 is exact.\<close>

definition plain_time :: "timedate \<Rightarrow> nat" where
  "plain_time td = ((td_Julian td - JULIAN_DAY_UNIX_EPOCH) * 86400 + td_Ticks td div 100) * 1000000000 + (td_Ticks td mod 100) * 10000000"

definition plain_date :: "sdk \<Rightarrow> timedate \<Rightarrow> bool" where
  "plain_date k td \<longleftrightarrow> sdk_num k ''TICKS_IN_SECOND'' = 100 \<and> sdk_num k ''SECS_IN_DAY'' = 86400 \<and>
     JULIAN_DAY_UNIX_EPOCH \<le> td_Julian td \<and> td_Julian td \<le> JULIAN_DAY_UNIX_EPOCH + 100000 \<and> td_Ticks td < 8640000"

lemma event_time_exact:
  assumes "plain_date k td"
  shows "unat (GetEventEpochNanoseconds k now td) = plain_time td \<and> plain_time td < 2 ^ 63"
proof -
  define d where "d = td_Julian td - JULIAN_DAY_UNIX_EPOCH"
  have d: "d \<le> 100000" and c: "sdk_num k ''TICKS_IN_SECOND'' = 100" "sdk_num k ''SECS_IN_DAY'' = 86400"
    and g: "\<not> (td_Julian td = 0 \<or> td_Julian td = 0xFFFFFFFF \<or> td_Julian td < JULIAN_DAY_UNIX_EPOCH)"
    using assms by (auto simp: plain_date_def d_def JULIAN_DAY_UNIX_EPOCH_def)
  have t: "td_Ticks td div 100 < 86400" "td_Ticks td mod 100 < 100"
    using assms by (auto simp: plain_date_def)
  have pt: "plain_time td = (d * 86400 + td_Ticks td div 100) * 1000000000 + (td_Ticks td mod 100) * 10000000"
    by (simp add: plain_time_def d_def)
  have "plain_time td \<le> (100000 * 86400 + 86400) * 1000000000 + 100 * 10000000"
    unfolding pt using d t by (intro add_mono mult_mono) auto
  then have b: "plain_time td < 2 ^ 63"
    by simp
  have "sint (of_nat d :: 32 word) = int d"
    using d by (simp add: signed_of_nat signed_take_bit_int_eq_self)
  then have "(scast (of_nat d :: 32 word) :: 64 word) = of_nat d"
    by (simp add: scast_eq)
  then have "GetEventEpochNanoseconds k now td = of_nat (plain_time td)"
    unfolding GetEventEpochNanoseconds_def pt using g c by (simp add: Let_def d_def)
  moreover have "plain_time td < 2 ^ LENGTH(64)"
    using b by simp
  ultimately show ?thesis
    using b by (simp add: unat_of_nat take_bit_nat_eq_self)
qed

section \<open>The record\<close>

definition kv_otel :: "string \<times> domfwd_kv \<Rightarrow> OtelKV" where
  "kv_otel = (\<lambda>(Key, v). case v of
     KVInt n \<Rightarrow> new_OtelKV\<lparr>kv_Key := Key, kv_Type := OTEL_TYPE_INT, kv_IntValue := n\<rparr>
   | KVStr s \<Rightarrow> new_OtelKV\<lparr>kv_Key := Key, kv_Type := OTEL_TYPE_STRING, kv_StrValue := s\<rparr>)"

definition small_kv :: "string \<times> domfwd_kv \<Rightarrow> bool" where
  "small_kv x \<longleftrightarrow> (case snd x of KVInt n \<Rightarrow> - (2 ^ 63) \<le> n \<and> n < 2 ^ 63 | KVStr s \<Rightarrow> True)"

lemma kv_of_json_kv: "small_kv x \<Longrightarrow> kv_of_json write (case x of (Key, v) \<Rightarrow> (Key, kv_json v)) = [kv_otel x]"
proof -
  assume a: "small_kv x"
  obtain Key v where x: "x = (Key, v)" by force
  show ?thesis
    using a unfolding x by (cases v) (simp_all add: small_kv_def kv_otel_def kv_of_json_def IsInt64_def Let_def)
qed

lemma kvs_read_back:
  assumes "list_all small_kv kvs"
  shows "AddKVsFromJsonObject write (AddKVsToJsonObject kvs) [] = map kv_otel kvs"
proof -
  have "concat (map (kv_of_json write) (map (\<lambda>(Key, v). (Key, kv_json v)) kvs)) = map kv_otel kvs"
    using assms by (induction kvs) (simp_all add: kv_of_json_kv)
  then show ?thesis
    by (simp add: AddKVsFromJsonObject_def AddKVsToJsonObject_def)
qed

text \<open>The lists are never full, so no field is left out.\<close>

lemma resource_kvs_list:
  "resource_kvs k g i =
    (let Server = ConvertLmbcsToUtf8 k (ei_szOriginatingServerName i) (UTF8_SIZE (sdk_num k ''MAXUSERNAME''))
     in [(''service.name'', KVStr ''domino''), (''service.instance.id'', KVStr Server),
         (''host.name'', KVStr (if si_HostName g \<noteq> [] then si_HostName g else Server)), (''os.type'', KVStr ''linux'')] @
        (if si_DominoVersion g \<noteq> [] then [(''service.version'', KVStr (si_DominoVersion g))] else []) @
        (if ei_fExtValid i then
           [(''process.executable.name'', KVStr (ConvertLmbcsToUtf8 k (x_ExecName (ei_ext i)) (UTF8_SIZE (sdk_num k ''MAXSPRINTF'' + 1)))),
            (''process.pid'', KVInt (sint (of_nat (event_pid (x_PIDTID (ei_ext i))) :: 32 word))),
            (''domino.process.pidtid'', KVStr (x_PIDTID (ei_ext i)))] else []))"
  by (simp add: resource_kvs_def AddKV_def AddKVInt_def MAX_RESOURCE_KV_def Let_def)

lemma attribute_kvs_list:
  "attribute_kvs k i =
    [(''domino.event.type_code'', KVInt (int (ei_wType i))), (''domino.event.type'', KVStr (GetEventTypeName k (ei_wType i))),
     (''domino.event.time'', KVStr (ei_szEventTime i)), (''domino.error.code'', KVInt (int (ei_wErrorCode i))),
     (''domino.error.additional_code'', KVInt (int (ei_wAdditionalErrorCode i)))] @
    (if ei_fExtValid i then
       [(''domino.addin.name'', KVStr (ConvertLmbcsToUtf8 k (x_AddinName (ei_ext i)) (UTF8_SIZE (sdk_num k ''MAXSPRINTF'' + 1)))),
        (''domino.target.server'', KVStr (ConvertLmbcsToUtf8 k (x_TargetServer (ei_ext i)) (UTF8_SIZE (sdk_num k ''MAXUSERNAME'' + 1)))),
        (''domino.target.database'', KVStr (ConvertLmbcsToUtf8 k (x_TargetDatabase (ei_ext i)) (UTF8_SIZE (sdk_num k ''MAXPATH'' + 1)))),
        (''domino.target.user'', KVStr (ConvertLmbcsToUtf8 k (x_TargetUser (ei_ext i)) (UTF8_SIZE (sdk_num k ''MAXUSERNAME'' + 1))))] else [])"
  by (simp add: attribute_kvs_def AddKV_def AddKVInt_def MAX_ATTRIBUTE_KV_def Let_def)

lemma resource_kvs_small: "list_all small_kv (resource_kvs k g i)"
proof -
  have "- (2 ^ 63) \<le> sint w \<and> sint w < 2 ^ 63" for w :: "32 word"
    using sint_ge [of w] sint_lt [of w] by simp
  then show ?thesis
    by (simp add: resource_kvs_list Let_def small_kv_def)
qed

lemma attribute_kvs_small:
  "ei_wType i < 65536 \<Longrightarrow> ei_wErrorCode i < 65536 \<Longrightarrow> ei_wAdditionalErrorCode i < 65536 \<Longrightarrow> list_all small_kv (attribute_kvs k i)"
  by (simp add: attribute_kvs_list small_kv_def)

lemma otel_severity_range: "fst (GetOtelSeverity k w) \<le> 24"
  by (simp add: GetOtelSeverity_def)

lemma payload_members:
  "Find ''time_unix_nano'' (BuildEventPayload f) = Some (JStr (of_TimeUnixNano f))"
  "Find ''observed_time_unix_nano'' (BuildEventPayload f) = Some (JStr (of_ObservedTimeUnixNano f))"
  "Find ''severity_number'' (BuildEventPayload f) = Some (JInt (int (of_SeverityNumber f)))"
  "Find ''severity_text'' (BuildEventPayload f) = Some (JStr (of_SeverityText f))"
  "Find ''body'' (BuildEventPayload f) = Some (JStr (of_Body f))"
  "Find ''scope'' (BuildEventPayload f) = Some event_scope_json"
  "Find ''resource'' (BuildEventPayload f) = Some (AddKVsToJsonObject (of_Resource f))"
  "Find ''attributes'' (BuildEventPayload f) = Some (AddKVsToJsonObject (of_Attributes f))"
  "\<exists>ms. BuildEventPayload f = JObj ms"
  by (simp_all add: BuildEventPayload_def Find_def)

text \<open>The buffer of the body has room for the bytes of two error texts of the SDK, but the text of an event can have four: the rest is cut.\<close>

lemma body_is_cut: "length (of_Body (BuildOtelFields k g now td i)) \<le> 2 * (sdk_num k ''MAXSPRINTF'' + 1)"
proof -
  have "length (c_str (take n s)) \<le> n" for n s
    unfolding c_str_def by (rule order_trans [OF length_takeWhile_le]) simp
  from order_trans [OF this] show ?thesis
    by (auto simp: BuildOtelFields_def ConvertLmbcsToUtf8_def UTF8_SIZE_def split: prod.split)
qed


definition some_sdk :: sdk where
  "some_sdk = \<lparr>sdk_num = (\<lambda>name. case map_of [(''EVENT_VERSION'', 2), (''SEV_FATAL'', 1), (''TICKS_IN_SECOND'', 100), (''SECS_IN_DAY'', 86400),
       (''MAXSPRINTF'', 256), (''MAXUSERNAME'', 256), (''MAXPATH'', 256)] name of None \<Rightarrow> 60000 | Some n \<Rightarrow> n),
     sdk_text = (\<lambda>name. name), sdk_utf8 = (\<lambda>s n. take n s), sdk_rfc3339 = (\<lambda>td. ''1970-01-01'')\<rparr>"

definition some_event :: event_data where
  "some_event = \<lparr>ev_Version = 2, ev_ErrorCode = 0, ev_AdditionalErrorCode = 0, ev_Type = 3, ev_Severity = 1, ev_FormatSpecifier = 1,
     ev_EventTime = \<lparr>td_Julian = 2440588, td_Ticks = 101\<rparr>, ev_OriginatingServerName = ''server'', ev_Ext = empty_ext, ev_Specific = []\<rparr>"

definition some_server :: server_info where
  "some_server = \<lparr>si_HostName = ''host'', si_DominoVersion = ''14.5''\<rparr>"


end
