(* ===== verification/DurableConfigured.thy ===== *)
theory DurableConfigured imports Durable begin

text \<open>A sender which is configured stays so until it is closed, in every state of its queue and its WAL.\<close>

lemma net_call_configured: "net_call g s = (r, t) \<Longrightarrow> m_bConfigured t = m_bConfigured s"
  by (auto simp: net_call_def split: list.splits)

lemma NowMs_configured: "NowMs s = (r, t) \<Longrightarrow> m_bConfigured t = m_bConfigured s"
  by (auto simp: NowMs_def split: list.splits)

lemma Disconnect_configured [simp]: "m_bConfigured (Disconnect r s) = m_bConfigured s"
  by (auto simp: Disconnect_def Let_def CloseSocket_def SenderLog_def dest: NowMs_configured split: prod.split)

lemma DisconnectError_configured [simp]: "m_bConfigured (DisconnectError err s) = m_bConfigured s"
  by (simp add: DisconnectError_def)

lemma Connected_configured [simp]: "m_bConfigured (Connected s) = m_bConfigured s"
  by (simp add: Connected_def SenderLog_def)

lemma StartConnect_configured [simp]: "m_bConfigured (StartConnect s) = m_bConfigured s"
  by (auto simp: StartConnect_def dest!: net_call_configured NowMs_configured split: prod.split)

lemma CheckConnect_configured [simp]: "m_bConfigured (CheckConnect s) = m_bConfigured s"
  by (auto simp: CheckConnect_def dest!: net_call_configured NowMs_configured split: prod.split)

lemma CheckPeerClosed_configured [simp]: "m_bConfigured (CheckPeerClosed s) = m_bConfigured s"
  by (auto simp: CheckPeerClosed_def dest!: net_call_configured split: prod.split)

lemma CompleteLoop_configured [simp]: "m_bConfigured (CompleteLoop s) = m_bConfigured s"
proof (induction s rule: CompleteLoop.induct)
  case (1 s)
  then show ?case
    by (subst CompleteLoop.simps) (auto split: option.split)
qed

lemma CompleteSentLines_configured [simp]: "m_bConfigured (CompleteSentLines s) = m_bConfigured s"
  by (simp add: CompleteSentLines_def Let_def)

lemma sys_send_configured: "sys_send chunk s = (r, t) \<Longrightarrow> m_bConfigured t = m_bConfigured s"
  by (auto simp: sys_send_def Let_def dest!: net_call_configured split: prod.splits if_splits)

lemma SendQueued_configured [simp]: "m_bConfigured (SendQueued s) = m_bConfigured s"
proof (induction s rule: SendQueued.induct)
  case (1 s)
  then show ?case
    by (subst SendQueued.simps) (auto dest: sys_send_configured split: prod.split)
qed

lemma Pump_configured [simp]: "m_bConfigured (Pump s) = m_bConfigured s"
  by (auto simp: Pump_def Let_def dest!: NowMs_configured split: prod.split)

lemma Enqueue_configured [simp]: "m_bConfigured (snd (Enqueue l s)) = m_bConfigured s"
  by (auto simp: Enqueue_def Let_def LogDrop_def SenderLog_def dest!: NowMs_configured split: option.split prod.split)

lemma DrainInner_configured:
  "DrainInner wal_sender_ops n (w, s, d) = (ret, n', w', s', d') \<Longrightarrow> m_bConfigured s' = m_bConfigured s"
proof (induction n arbitrary: w s d)
  case (Suc n)
  show ?case
  proof (cases "\<exists>r w1 w2. GetQueuedLines s < LOW_WATER \<and> Peek w = (Some r, w1) \<and>
      \<not> (IsValidLine (Some r) \<and> \<not> HasRoom (length r) s) \<and> Ack w1 = (True, w2)")
    case True
    then obtain r w1 w2 where c: "GetQueuedLines s < LOW_WATER" "Peek w = (Some r, w1)"
      "\<not> (IsValidLine (Some r) \<and> \<not> HasRoom (length r) s)" "Ack w1 = (True, w2)"
      by blast
    then have "DrainInner wal_sender_ops n (w2, snd (Enqueue (Some r) s), Suc d) = (ret, n', w', s', d')"
      using Suc.prems by (cases "IsValidLine (Some r)") (auto simp: wal_sender_ops_def)
    from Suc.IH [OF this] show ?thesis
      by simp
  next
    case False
    then show ?thesis
      using Suc.prems by (auto simp: wal_sender_ops_def split: if_splits option.splits prod.splits bool.splits)
  qed
qed simp

lemma DrainOuter_configured:
  "DrainOuter wal_sender_ops n (w, s, d) = (w', s', d') \<Longrightarrow> m_bConfigured s' = m_bConfigured s"
proof (induction "wal_sender_ops :: (wal, sender) drain_ops" n "(w, s, d)" arbitrary: w s d rule: DrainOuter.induct)
  case (1 n w s d)
  obtain ret n1 w1 s1 d1 where i: "DrainInner wal_sender_ops n (w, s, d) = (ret, n1, w1, s1, d1)"
    by (metis prod_cases5)
  note c = DrainInner_configured [OF i]
  have p: "op_pump wal_sender_ops = Pump"
    by (simp add: wal_sender_ops_def)
  show ?case
  proof (cases "n = 0 \<or> ret \<or> op_lines wal_sender_ops (Pump s1) \<ge> LOW_WATER \<or> \<not> op_connected wal_sender_ops (Pump s1)")
    case True
    then show ?thesis
      using "1.prems" c i p by (subst (asm) DrainOuter.simps) (auto simp: Let_def split: if_splits)
  next
    case False
    then have o: "DrainOuter wal_sender_ops n1 (w1, op_pump wal_sender_ops s1, d1) = (w', s', d')" and n: "n \<noteq> 0" "\<not> ret"
      "\<not> (LOW_WATER \<le> op_lines wal_sender_ops (op_pump wal_sender_ops s1) \<or> \<not> op_connected wal_sender_ops (op_pump wal_sender_ops s1))"
      using "1.prems" i p by (auto simp: Let_def DrainOuter.simps [of _ n] split: if_splits)
    from "1.hyps" [OF n(1) i [symmetric] refl refl refl n(2) refl n(3) o] show ?thesis
      using c by (simp add: p)
  qed
qed

lemma Durable_Pump_configured [simp]: "m_bConfigured (m_Sender (Durable_Pump s)) = m_bConfigured (m_Sender s)"
  by (auto simp: Durable_Pump_def Drain_def Let_def dest: DrainOuter_configured split: option.split prod.split)

lemma Durable_Send_configured [simp]: "m_bConfigured (m_Sender (snd (Durable_Send l s))) = m_bConfigured (m_Sender s)"
proof -
  have e: "m_bConfigured q = m_bConfigured (m_Sender s)" if "Enqueue l (m_Sender s) = (b, q)" for b q
    using that Enqueue_configured [of l "m_Sender s"] by simp
  have p: "m_Sender (snd (Spill x w s)) = m_Sender s" for x w
    by (auto simp: Spill_def split: prod.split bool.split)
  show ?thesis
    using e by (cases "Enqueue l (m_Sender s)") (auto simp: Durable_Send_def Let_def p split: option.split)
qed

end
