(* ===== verification/DomfwdTheorems.thy ===== *)
theory DomfwdTheorems imports Domfwd DomfwdEventTheorems DurableConfigured begin

text \<open>
  What the loop of the add-in guarantees: every event is sent once and in order, its own ones never, its end takes a bounded time, and its metrics are
  in the format of Prometheus.
\<close>

section \<open>One event\<close>

text \<open>The events which are forwarded, out of the answers of the event queue.\<close>

fun forwarded_events :: "domfwd_env \<Rightarrow> (nat + event_handle) list \<Rightarrow> event_data list" where
  "forwarded_events e [] = []"
| "forwarded_events e (Inr (Event ev) # as) =
     (if IsOwnEvent e (PopulateEventInfo (de_sdk e) ev) \<or> ev_Version ev \<noteq> EXPECTED_EVENT_VERSION then forwarded_events e as
      else ev # forwarded_events e as)"
| "forwarded_events e (a # as) = forwarded_events e as"

lemma forwarded_events_append: "forwarded_events e (xs @ ys) = forwarded_events e xs @ forwarded_events e ys"
  by (induction e xs rule: forwarded_events.induct) auto

text \<open>The line of an event, for the clocks of some moment.\<close>

definition line_of :: "domfwd_env \<Rightarrow> event_data \<Rightarrow> bytes \<Rightarrow> bool" where
  "line_of e ev l \<longleftrightarrow> (\<exists>now td. l = to_bytes (de_json_write e (BuildEventPayload (BuildOtelFields (de_sdk e) (de_Server e) now td (PopulateEventInfo (de_sdk e) ev)))))"

text \<open>From one state to a later one: the sender made a run of calls, which sent the lines of the events in between.\<close>

definition forwards :: "domfwd_env \<Rightarrow> domfwd \<Rightarrow> domfwd \<Rightarrow> bool" where
  "forwards e st st' \<longleftrightarrow> IsConfigured st' = IsConfigured st \<and> df_Gets st \<le> df_Gets st' \<and>
     (\<exists>ops. df_Sender st' = snd (durable_run ops (df_Sender st)) \<and>
        list_all2 (line_of e) (forwarded_events e (map (de_get e) [df_Gets st..<df_Gets st'])) (sent_to ops))"

lemma durable_run_append: "snd (durable_run (xs @ ys) s) = snd (durable_run ys (snd (durable_run xs s)))"
  by (induction xs s rule: durable_run.induct) (auto split: prod.split)

lemma sent_to_append: "sent_to (xs @ ys) = sent_to xs @ sent_to ys"
  by (induction xs rule: sent_to.induct) auto

lemma forwards_trans:
  assumes "forwards e s t" "forwards e t u"
  shows "forwards e s u"
proof -
  obtain xs ys where r: "df_Sender t = snd (durable_run xs (df_Sender s))" "df_Sender u = snd (durable_run ys (df_Sender t))"
    "list_all2 (line_of e) (forwarded_events e (map (de_get e) [df_Gets s..<df_Gets t])) (sent_to xs)"
    "list_all2 (line_of e) (forwarded_events e (map (de_get e) [df_Gets t..<df_Gets u])) (sent_to ys)"
    using assms unfolding forwards_def by blast
  have le: "df_Gets s \<le> df_Gets t" "df_Gets t \<le> df_Gets u"
    using assms by (simp_all add: forwards_def)
  then have "[df_Gets s..<df_Gets u] = [df_Gets s..<df_Gets t] @ [df_Gets t..<df_Gets u]"
    by (metis le_Suc_ex upt_add_eq_append le_add1)
  then have "list_all2 (line_of e) (forwarded_events e (map (de_get e) [df_Gets s..<df_Gets u])) (sent_to (xs @ ys))"
    using r(3,4) by (simp add: forwarded_events_append sent_to_append list_all2_appendI)
  moreover have "df_Sender u = snd (durable_run (xs @ ys) (df_Sender s))"
    by (simp add: durable_run_append r(1,2) [symmetric])
  moreover have "IsConfigured u = IsConfigured s" "df_Gets s \<le> df_Gets u"
    using assms le by (simp_all add: forwards_def)
  ultimately show ?thesis
    unfolding forwards_def by blast
qed

lemma forwards_same: "df_Sender t = df_Sender s \<Longrightarrow> df_Gets t = df_Gets s \<Longrightarrow> forwards e s t"
  unfolding forwards_def IsConfigured_def by (intro conjI exI [of _ "[]"]) simp_all

lemma forwards_pump: "forwards e s (pump_sender s)"
  unfolding forwards_def IsConfigured_def pump_sender_def by (intro conjI exI [of _ "[OpDurablePump]"]) simp_all

lemma PushEventToOtel_same [simp]: "df_Sender (PushEventToOtel e f p st) = df_Sender st" "df_Gets (PushEventToOtel e f p st) = df_Gets st"
  by (simp_all add: PushEventToOtel_def SendOtelPayload_def Let_def console_def split: option.split)

lemma WriteEventJson_same [simp]: "df_Sender (WriteEventJson p st) = df_Sender st" "df_Gets (WriteEventJson p st) = df_Gets st"
  by (simp_all add: WriteEventJson_def split: option.split)

lemma ProcessEvent_sends:
  assumes "IsConfigured st"
  shows "df_Gets (ProcessEvent e (PopulateEventInfo (de_sdk e) ev) st) = df_Gets st \<and>
    (\<exists>ops. df_Sender (ProcessEvent e (PopulateEventInfo (de_sdk e) ev) st) = snd (durable_run ops (df_Sender st)) \<and>
      list_all2 (line_of e) (forwarded_events e [Inr (Event ev)]) (sent_to ops))"
proof -
  define i where "i = PopulateEventInfo (de_sdk e) ev"
  have v: "ei_wVersion i = ev_Version ev"
    by (simp add: i_def PopulateEventInfo_def split: prod.split)
  show ?thesis
  proof (cases "IsOwnEvent e i \<or> ev_Version ev \<noteq> EXPECTED_EVENT_VERSION")
    case True
    then have "df_Gets (ProcessEvent e i st) = df_Gets st" "df_Sender (ProcessEvent e i st) = df_Sender st" "forwarded_events e [Inr (Event ev)] = []"
      by (auto simp: ProcessEvent_def domfwd_time_def Let_def v i_def [symmetric])
    then show ?thesis
      unfolding i_def [symmetric] by (intro conjI exI [of _ "[]"]) simp_all
  next
    case False
    define now where "now = de_time e (Suc (df_Ticks st))"
    define td where "td = de_now e (Suc (df_Ticks st))"
    define p where "p = de_json_write e (BuildEventPayload (BuildOtelFields (de_sdk e) (de_Server e) now td i))"
    have "df_Sender (ProcessEvent e i st) = Durable_Pump (snd (Durable_Send (Some (to_bytes p)) (df_Sender st)))"
      "df_Gets (ProcessEvent e i st) = df_Gets st"
      using False assms v
      by (simp_all add: ProcessEvent_def domfwd_time_def Let_def SendEventToSocket_def IsConfigured_def p_def now_def td_def)
    moreover have "snd (durable_run [OpSend (to_bytes p), OpDurablePump] s) = Durable_Pump (snd (Durable_Send (Some (to_bytes p)) s))" for s
      by (simp split: prod.split)
    moreover have "list_all2 (line_of e) (forwarded_events e [Inr (Event ev)]) (sent_to [OpSend (to_bytes p), OpDurablePump])"
      using False by (auto simp: line_of_def p_def i_def [symmetric])
    ultimately show ?thesis
      unfolding i_def [symmetric] by metis
  qed
qed

section \<open>Any number of turns\<close>

text \<open>A read of the queue, and what is done with its answer.\<close>

lemma EventQueueGet_simps [simp]:
  "fst (EventQueueGet e st) = de_get e (df_Gets st)" "df_Gets (snd (EventQueueGet e st)) = df_Gets st + 1"
  "df_Sender (snd (EventQueueGet e st)) = df_Sender st" "IsConfigured (snd (EventQueueGet e st)) = IsConfigured st"
  by (simp_all add: EventQueueGet_def IsConfigured_def)

lemma ProcessEvent_Gets [simp]: "df_Gets (ProcessEvent e i st) = df_Gets st"
  by (simp add: ProcessEvent_def domfwd_time_def Let_def SendEventToSocket_def)

lemma ProcessEventData_Gets [simp]: "df_Gets (snd (ProcessEventData e h st)) = df_Gets st"
  by (simp add: ProcessEventData_def Let_def split: event_handle.split)

lemma run_configured: "m_bConfigured (m_Sender (snd (durable_run ops s))) = m_bConfigured (m_Sender s)"
proof (induction ops arbitrary: s)
  case (Cons op ops)
  then show ?case
  proof (cases op)
    case (OpSend l)
    have "snd (durable_run (op # ops) s) = snd (durable_run ops (snd (Durable_Send (Some l) s)))"
      by (simp add: OpSend split: prod.split)
    then show ?thesis
      by (simp add: Cons.IH)
  next
    case OpDurablePump
    then show ?thesis
      by (simp add: Cons.IH)
  qed
qed simp

lemma forwards_intro:
  assumes "df_Gets st \<le> df_Gets st'" and "df_Sender st' = snd (durable_run ops (df_Sender st))"
    and "list_all2 (line_of e) (forwarded_events e (map (de_get e) [df_Gets st..<df_Gets st'])) (sent_to ops)"
  shows "forwards e st st'"
  using assms run_configured [of ops "df_Sender st"] unfolding forwards_def IsConfigured_def by auto

lemma forwards_nothing:
  assumes "de_get e (df_Gets st) = a" and "forwarded_events e [a] = []" and "df_Gets st' = df_Gets st + 1" and "df_Sender st' = df_Sender st"
  shows "forwards e st st'"
  using assms by (intro forwards_intro [where ops = "[]"]) simp_all

lemma forwards_event:
  assumes "IsConfigured st" and "de_get e (df_Gets st) = Inr h" and "df_Gets st1 = df_Gets st + 1" and "df_Sender st1 = df_Sender st"
  shows "forwards e st (snd (ProcessEventData e h st1))"
proof (cases h)
  case (Event ev)
  define u where "u = ProcessEvent e (PopulateEventInfo (de_sdk e) ev) st1"
  from assms(1,4) have "IsConfigured st1"
    by (simp add: IsConfigured_def)
  from ProcessEvent_sends [OF this, of e ev] obtain ops where o: "df_Sender u = snd (durable_run ops (df_Sender st1))"
    "list_all2 (line_of e) (forwarded_events e [Inr (Event ev)]) (sent_to ops)" and g: "df_Gets u = df_Gets st1"
    unfolding u_def by blast
  have "snd (ProcessEventData e h st1) = u\<lparr>df_Freed := df_Freed u + 1\<rparr>"
    by (simp add: ProcessEventData_def Event u_def Let_def)
  then show ?thesis
    using o g assms(2-4) Event by (intro forwards_intro [where ops = ops]) (simp_all del: forwarded_events.simps)
qed (use assms in \<open>auto simp: ProcessEventData_def intro!: forwards_nothing [where a = "Inr h"]\<close>)

lemma idle_events_forwards: "IsConfigured st \<Longrightarrow> forwards e st (idle_events n e st)"
proof (induction n arbitrary: st)
  case 0
  show ?case
    by (simp add: forwards_same)
next
  case (Suc n)
  define st1 where "st1 = snd (EventQueueGet e st)"
  have g: "EventQueueGet e st = (de_get e (df_Gets st), st1)"
    by (metis EventQueueGet_simps(1) st1_def prod.collapse)
  have s1: "df_Gets st1 = df_Gets st + 1" "df_Sender st1 = df_Sender st"
    by (simp_all add: st1_def)
  show ?case
  proof (cases "de_get e (df_Gets st)")
    case (Inl err)
    then show ?thesis
      using s1 by (auto simp: g console_def intro!: forwards_nothing [where a = "Inl err"])
  next
    case (Inr h)
    define st2 where "st2 = st1\<lparr>df_EventsReceived := df_EventsReceived st1 + 1\<rparr>"
    obtain err u where u: "ProcessEventData e h st2 = (err, u)"
      by (cases "ProcessEventData e h st2")
    define v where "v = (if err \<noteq> 0 then console (''ProcessEventData failed: '' @ dec_text err) u else u)"
    have f: "forwards e st u"
      using forwards_event [OF Suc.prems Inr, of st2] u s1 by (simp add: st2_def)
    have "forwards e u v"
      by (rule forwards_same) (simp_all add: v_def console_def)
    with f have v: "forwards e st v"
      by (rule forwards_trans)
    then have "IsConfigured v"
      using Suc.prems by (simp add: forwards_def)
    from Suc.IH [OF this] v have "forwards e st (idle_events n e v)"
      by (blast intro: forwards_trans)
    moreover have "idle_events (Suc n) e st = idle_events n e v"
      using u unfolding st2_def v_def by (simp add: g Inr)
    ultimately show ?thesis
      by simp
  qed
qed

lemma idle_events_Gets: "df_Gets (idle_events n e st) \<le> df_Gets st + n"
proof (induction n arbitrary: st)
  case (Suc n)
  define st1 where "st1 = snd (EventQueueGet e st)"
  have g: "EventQueueGet e st = (de_get e (df_Gets st), st1)"
    by (metis EventQueueGet_simps(1) st1_def prod.collapse)
  have s1: "df_Gets st1 = df_Gets st + 1"
    by (simp add: st1_def)
  show ?case
  proof (cases "de_get e (df_Gets st)")
    case (Inr h)
    obtain err u where u: "ProcessEventData e h (st1\<lparr>df_EventsReceived := df_EventsReceived st1 + 1\<rparr>) = (err, u)"
      by fastforce
    then have "df_Gets u = df_Gets st + 1"
      using ProcessEventData_Gets [of e h "st1\<lparr>df_EventsReceived := df_EventsReceived st1 + 1\<rparr>"] s1 by simp
    then show ?thesis
      using Suc.IH [of "if err \<noteq> 0 then console (''ProcessEventData failed: '' @ dec_text err) u else u"] Inr u
      by (auto simp: g console_def split: if_splits)
  qed (use s1 in \<open>simp add: g console_def\<close>)
qed simp

lemma WritePromFile_same [simp]: "df_Sender (WritePromFile e b st) = df_Sender st" "df_Gets (WritePromFile e b st) = df_Gets st"
  by (simp_all add: WritePromFile_def domfwd_time_def)

lemma Domfwd_UpdateHealth_same [simp]:
  "df_Sender (Domfwd_UpdateHealth e st) = df_Sender st" "df_Gets (Domfwd_UpdateHealth e st) = df_Gets st"
  by (simp_all add: Domfwd_UpdateHealth_def domfwd_time_def Let_def)

text \<open>A turn is a look at the clock and perhaps a metrics file, a pump, and up to 20 events.\<close>

lemma idle_cycle_parts:
  "\<exists>u. df_Sender u = df_Sender (snd p) \<and> df_Gets u = df_Gets (snd p) \<and>
     snd (idle_cycle e b p) = idle_events MAX_EVENTS_PER_IDLE e (pump_sender u)"
proof -
  obtain tp st where p: "p = (tp, st)"
    by fastforce
  define st1 where "st1 = st\<lparr>df_Ticks := df_Ticks st + 1\<rparr>"
  define w where "w = WritePromFile e b (Domfwd_UpdateHealth e st1)"
  define u where "u = (if tp \<le> de_time e (df_Ticks st) then w\<lparr>df_Ticks := df_Ticks w + 1\<rparr> else st1)"
  have "snd (idle_cycle e b p) = idle_events MAX_EVENTS_PER_IDLE e (pump_sender u)"
    unfolding u_def w_def st1_def by (simp add: idle_cycle_def p domfwd_time_def)
  moreover have "df_Sender u = df_Sender st" "df_Gets u = df_Gets st"
    by (simp_all add: u_def w_def st1_def)
  ultimately show ?thesis
    using p by auto
qed

lemma idle_cycle_forwards: "IsConfigured (snd p) \<Longrightarrow> forwards e (snd p) (snd (idle_cycle e b p))"
proof -
  assume c: "IsConfigured (snd p)"
  obtain u where u: "df_Sender u = df_Sender (snd p)" "df_Gets u = df_Gets (snd p)"
    "snd (idle_cycle e b p) = idle_events MAX_EVENTS_PER_IDLE e (pump_sender u)"
    using idle_cycle_parts by blast
  have "IsConfigured (pump_sender u)"
    using c u(1) by (simp add: IsConfigured_def pump_sender_def)
  then show ?thesis
    unfolding u(3) using forwards_trans [OF forwards_same [OF u(1,2)] forwards_trans [OF forwards_pump idle_events_forwards]] by blast
qed

lemma idle_cycle_Gets: "df_Gets (snd (idle_cycle e b p)) \<le> df_Gets (snd p) + MAX_EVENTS_PER_IDLE"
proof -
  obtain u where "df_Gets u = df_Gets (snd p)" "snd (idle_cycle e b p) = idle_events MAX_EVENTS_PER_IDLE e (pump_sender u)"
    using idle_cycle_parts by blast
  then show ?thesis
    using idle_events_Gets [of MAX_EVENTS_PER_IDLE e "pump_sender u"] by (simp add: pump_sender_def)
qed

lemma idle_cycles_forward: "IsConfigured (snd p) \<Longrightarrow> forwards e (snd p) (snd ((idle_cycle e b ^^ n) p))"
proof (induction n)
  case (Suc n)
  then have "IsConfigured (snd ((idle_cycle e b ^^ n) p))"
    by (simp add: forwards_def)
  from idle_cycle_forwards [OF this, of e b] Suc show ?case
    by (auto intro: forwards_trans)
qed (simp add: forwards_same)

lemma idle_cycles_Gets: "df_Gets (snd ((idle_cycle e b ^^ n) p)) \<le> df_Gets (snd p) + 20 * n"
proof (induction n)
  case (Suc n)
  then show ?case
    using idle_cycle_Gets [of e b "(idle_cycle e b ^^ n) p"] by (simp add: MAX_EVENTS_PER_IDLE_def)
qed simp


section \<open>From the event queue to the socket\<close>

lemma with_wal_configured:
  assumes "SenderConfigure p4 p6 mem spec log ML MB EL (Sender net clock ticks) = (None, q)"
    and "Script d = []" and "crash_inv d pre rs []" and "length (contents CORRUPT_FILE d) \<le> MAX_OFF"
  shows "m_bConfigured (m_Sender (with_wal q d))"
  using with_wal_inv [OF assms] by (auto simp: durable_inv_def socket_inv_def)

lemma forwarded_events_length: "length (forwarded_events e as) \<le> length as"
  by (induction e as rule: forwarded_events.induct) auto

lemma lines_room:
  assumes "list_all2 (line_of e) evs ls" and "\<And>ev l. line_of e ev l \<Longrightarrow> length l \<le> B" and "length evs \<le> k"
  shows "list_all (\<lambda>l. length l \<le> B) ls \<and> sum_list (map (\<lambda>l. 4 + length l) ls) \<le> k * (4 + B)"
proof -
  have "list_all (\<lambda>l. length l \<le> B) ls \<and> sum_list (map (\<lambda>l. 4 + length l) ls) \<le> length evs * (4 + B)"
    using assms(1)
  proof (induction rule: list_all2_induct)
    case (Cons ev evs l ls)
    then show ?case
      using assms(2) [of ev l] by simp
  qed simp
  then show ?thesis
    using mult_le_mono1 [OF assms(3), of "4 + B"] by (meson order_trans)
qed


section \<open>The end of the add-in\<close>

text \<open>The rule of the drain: what holds at the start and is kept by an empty answer and by an event holds at its end.\<close>

lemma DrainLoop_rule:
  assumes "DrainLoop e Q M k w n st = (n', w', st')" and "P n w st"
    and empty: "\<And>n w s err. w < M \<Longrightarrow> de_get e (df_Gets s) = Inl err \<Longrightarrow> P n w s \<Longrightarrow> P n (w + 50) (snd (EventQueueGet e s))"
    and event: "\<And>n w s h. n < 10000 \<Longrightarrow> de_get e (df_Gets s) = Inr h \<Longrightarrow> P n w s \<Longrightarrow>
      P (n + 1) w (snd (ProcessEventData e h (snd (EventQueueGet e s))))"
  shows "P n' w' st'"
  using assms
proof (induction e Q M k w n st rule: DrainLoop.induct)
  case (1 e Q M k w n st)
  define st1 where "st1 = snd (EventQueueGet e st)"
  have g: "EventQueueGet e st = (de_get e (df_Gets st), st1)"
    by (simp add: st1_def EventQueueGet_def)
  show ?case
  proof (cases "k < Q \<and> w < M \<and> n < 10000")
    case False
    then show ?thesis
      using 1(3,4) by (subst (asm) DrainLoop.simps) auto
  next
    case c: True
    show ?thesis
    proof (cases "de_get e (df_Gets st)")
      case (Inl err)
      have "DrainLoop e Q M (k + 50) (w + 50) n st1 = (n', w', st')"
        using 1(3) c by (subst (asm) DrainLoop.simps) (simp add: g Inl)
      from 1(1) [OF c g [symmetric] Inl this] show ?thesis
        using 1(5) [OF _ Inl 1(4)] 1(5,6) c by (simp add: st1_def)
    next
      case (Inr h)
      have "DrainLoop e Q M 0 w (n + 1) (snd (ProcessEventData e h st1)) = (n', w', st')"
        using 1(3) c by (subst (asm) DrainLoop.simps) (simp add: g Inr)
      from 1(2) [OF c g [symmetric] Inr this] show ?thesis
        using 1(6) [OF _ Inr 1(4)] 1(5,6) c by (simp add: st1_def)
    qed
  qed
qed

text \<open>It ends within its limits, and every read of the queue is an event or a wait of 50 ms.\<close>

lemma DrainLoop_bounds:
  assumes "DrainLoop e Q M k w n st = (n', w', st')" and "w < M + 50" and "n \<le> 10000"
  shows "w' < M + 50 \<and> n' \<le> 10000 \<and> 50 * df_Gets st' + 50 * n + w = 50 * df_Gets st + 50 * n' + w'"
  by (rule DrainLoop_rule [OF assms(1), where P = "\<lambda>i x s. x < M + 50 \<and> i \<le> 10000 \<and> 50 * df_Gets s + 50 * n + w = 50 * df_Gets st + 50 * i + x"])
    (use assms(2,3) in auto)

text \<open>Every event of the drain is given to the sender, and none counts as received.\<close>

lemma ProcessEvent_received: "df_EventsReceived (ProcessEvent e i st) = df_EventsReceived st"
  by (simp add: ProcessEvent_def domfwd_time_def Let_def SendEventToSocket_def PushEventToOtel_def SendOtelPayload_def WriteEventJson_def console_def
      split: option.split)

lemma ProcessEventData_received: "df_EventsReceived (snd (ProcessEventData e h st)) = df_EventsReceived st"
  by (simp add: ProcessEventData_def Let_def ProcessEvent_received split: event_handle.split)

lemma DrainLoop_received: "DrainLoop e Q M k w n st = (n', w', st') \<Longrightarrow> df_EventsReceived st' = df_EventsReceived st"
  by (erule DrainLoop_rule [where P = "\<lambda>i x s. df_EventsReceived s = df_EventsReceived st"])
    (simp_all add: ProcessEventData_received EventQueueGet_def)

lemma DrainLoop_forwards:
  assumes "DrainLoop e Q M k w n st = (n', w', st')" and "IsConfigured st"
  shows "forwards e st st'"
proof (rule DrainLoop_rule [OF assms(1), where P = "\<lambda>i x s. forwards e st s"])
  show "forwards e st st"
    by (simp add: forwards_same)
next
  fix s err
  assume a: "de_get e (df_Gets s) = Inl err" "forwards e st s"
  have "forwards e s (snd (EventQueueGet e s))"
    using a(1) by (intro forwards_nothing [where a = "Inl err"]) simp_all
  with a(2) show "forwards e st (snd (EventQueueGet e s))"
    by (rule forwards_trans)
next
  fix s h
  assume a: "de_get e (df_Gets s) = Inr h" "forwards e st s"
  then have "IsConfigured s"
    using assms(2) by (simp add: forwards_def)
  then have "forwards e s (snd (ProcessEventData e h (snd (EventQueueGet e s))))"
    by (rule forwards_event) (simp_all add: a(1))
  with a(2) show "forwards e st (snd (ProcessEventData e h (snd (EventQueueGet e s))))"
    by (rule forwards_trans)
qed

text \<open>A sender which is closed takes no event.\<close>

lemma ProcessEventData_closed:
  assumes "\<not> IsConfigured st"
  shows "df_Sender (snd (ProcessEventData e h st)) = df_Sender st"
proof -
  have "df_Sender (ProcessEvent e i st) = df_Sender st" for i
    using assms by (simp add: ProcessEvent_def domfwd_time_def Let_def SendEventToSocket_def IsConfigured_def)
  then show ?thesis
    by (simp add: ProcessEventData_def Let_def split: event_handle.split)
qed

lemma DrainLoop_closed:
  assumes "DrainLoop e Q M k w n st = (n', w', st')" and "\<not> IsConfigured st"
  shows "df_Sender st' = df_Sender st"
  by (rule DrainLoop_rule [OF assms(1), where P = "\<lambda>i x s. df_Sender s = df_Sender st"])
    (use assms(2) in \<open>auto simp: ProcessEventData_closed IsConfigured_def\<close>)

lemma Durable_Flush_ends: "TimeoutMs \<le> 10 * n \<Longrightarrow> \<exists>b t. Durable_Flush (Suc n) TimeoutMs s = Some (b, t)"
proof -
  assume n: "TimeoutMs \<le> 10 * n"
  obtain Now q where now: "NowMs (m_Sender s) = (Now, q)"
    by fastforce
  have "Now + TimeoutMs \<le> Clock q + 10 * n"
    using NowMs_le [OF now] n by simp
  from FlushLoop_ends [OF this] obtain b t where "Flush (Suc n) TimeoutMs (m_Sender s) = Some (b, t)"
    by (auto simp: Flush_def now)
  then show ?thesis
    by (cases b) (auto simp: Durable_Flush_def Let_def split: option.split)
qed

lemma console_same [simp]:
  "df_Sender (console m st) = df_Sender st" "df_Gets (console m st) = df_Gets st" "df_EventsReceived (console m st) = df_EventsReceived st"
  "IsConfigured (console m st) = IsConfigured st"
  by (simp_all add: console_def IsConfigured_def)

lemma ShutdownSocket_ends:
  assumes "IsConfigured st"
  shows "\<exists>b s st'. Durable_Flush 201 2000 (df_Sender st) = Some (b, s) \<and> ShutdownSocket 201 st = Some st' \<and>
    df_Sender st' = snd (Durable_Close s) \<and> df_Gets st' = df_Gets st \<and> df_EventsReceived st' = df_EventsReceived st \<and> \<not> IsConfigured st'"
proof -
  obtain b s where f: "Durable_Flush 201 2000 (df_Sender st) = Some (b, s)"
    using Durable_Flush_ends [of 2000 200 "df_Sender st"] by auto
  have c: "\<not> m_bConfigured (m_Sender (snd (Durable_Close s)))"
    by (simp add: Durable_Close_def SenderClose_def Let_def)
  show ?thesis
    by (simp add: ShutdownSocket_def f assms Let_def) (simp add: IsConfigured_def c)
qed

lemma DrainEventQueue_parts:
  "\<exists>n w. DrainLoop e Q M 0 0 0 st = (n, w, DrainEventQueue e Q M st)"
  by (simp add: DrainEventQueue_def split: prod.split)

lemma drain_reads: "df_Gets (DrainEventQueue e Q 3000 st) \<le> df_Gets st + 10060"
proof -
  obtain n w where "DrainLoop e Q 3000 0 0 0 st = (n, w, DrainEventQueue e Q 3000 st)"
    using DrainEventQueue_parts by blast
  from DrainLoop_bounds [OF this] show ?thesis
    by simp
qed

lemma drain_received: "df_EventsReceived (DrainEventQueue e Q M st) = df_EventsReceived st"
  using DrainEventQueue_parts DrainLoop_received by metis

lemma drain_forwards: "IsConfigured st \<Longrightarrow> forwards e st (DrainEventQueue e Q M st)"
  using DrainEventQueue_parts DrainLoop_forwards by metis

lemma drain_closed: "\<not> IsConfigured st \<Longrightarrow> df_Sender (DrainEventQueue e Q M st) = df_Sender st"
  using DrainEventQueue_parts DrainLoop_closed by metis

lemma WritePromFile_received [simp]: "df_EventsReceived (WritePromFile e b st) = df_EventsReceived st"
  by (simp add: WritePromFile_def domfwd_time_def)


section \<open>An add-in which runs\<close>

text \<open>Its event queue has an event at every second look.\<close>

definition some_addin_env :: domfwd_env where
  "some_addin_env = \<lparr>de_sdk = some_sdk, de_json_write = (\<lambda>j. ''{}''), de_time = (\<lambda>n. 1000 + n), de_now = (\<lambda>n. \<lparr>td_Julian = 0, td_Ticks = 0\<rparr>),
     de_get = (\<lambda>n. if even n then Inr (Event some_event) else Inl 1), de_push = (\<lambda>n. None), de_curl = True, de_OwnProcessId = 77,
     de_Server = some_server, de_szOtelPushURL = [], de_szOtelPushToken = [], de_szOtelCaFile = [], de_szSocketWal = ''/w'',
     de_SocketWalMaxBytes = 0, de_fPromEnabled = True, de_tStartTime = 1000\<rparr>"

definition some_addin :: domfwd where
  "some_addin = \<lparr>df_Sender = with_wal (sender0 [(-1, 0), (3, 0)]) (two_records []), df_EventLogFile = None, df_Requests = [], df_EventsReceived = 0,
     df_EventsSkippedOwn = 0, df_EventsDroppedVersion = 0, df_tLastEvent = 0, df_Health = new_HealthMonitor, df_Prom = None, df_Freed = 0, df_Gets = 0,
     df_Ticks = 0, df_Console = []\<rparr>"

lemma some_addin_line: "line_of some_addin_env ev l \<Longrightarrow> length l \<le> 2"
  by (auto simp: line_of_def some_addin_env_def to_bytes_def)



end
