(* ===== verification/Summary.thy ===== *)
theory Summary imports SettingsTheorems begin

text \<open>
  The texts which show the configuration of otelfwd (\<^verbatim>\<open>otelfwd.cpp\<close>): the summary which is logged at every start, the output of
  \<^verbatim>\<open>-cfg\<close> and \<^verbatim>\<open>-env\<close>, and the list in columns. No secret is in them, and the columns are aligned.
\<close>

section \<open>The summary at the start\<close>

text \<open>One line \<^verbatim>\<open>Name: value\<close>.\<close>

definition LogSetting :: "string \<Rightarrow> string \<Rightarrow> string" where
  "LogSetting pszName Value = pszName @ '': '' @ Value"

definition or_not_set :: "string \<Rightarrow> string" where
  "or_not_set s = (if s = [] then ''not set'' else s)"

text \<open>\<open>WalSize\<close>: the size of the WAL file, if \<^verbatim>\<open>stat\<close> works.\<close>

definition summary_wal :: "bool \<Rightarrow> nat option \<Rightarrow> config \<Rightarrow> string list" where
  "summary_wal bWalOpened WalSize c =
     (if bWalOpened then
        [LogSetting ''WAL File'' (cf_szWalFile c)] @
        (case WalSize of
           None \<Rightarrow> []
         | Some n \<Rightarrow> if n > 0 then [LogSetting ''WAL Pending'' (dec_text n @ '' bytes of an earlier run, will be replayed'')] else []) @
        [LogSetting ''OTLP Push WAL Retry sec'' (dec_text (cf_WalRetrySec c)),
         LogSetting ''OTLP Push WAL Max MB'' (if cf_WalMaxMB c = 0 then ''0 (no limit)'' else dec_text (cf_WalMaxMB c))]
      else [LogSetting ''WAL File'' (cf_szWalFile c @ '' (cannot be opened, failed pushes cannot be kept)'')])"

definition summary_push :: "bool \<Rightarrow> nat option \<Rightarrow> config \<Rightarrow> string list" where
  "summary_push bWalOpened WalSize c =
     (if cf_szOtlpPushApiURL c = [] then [LogSetting ''OTLP Push API URL'' ''not set. OTLP push is off, the log lines are not pushed'']
      else
        [LogSetting ''OTLP Push API URL'' (SanitizeUrlForLog (cf_szOtlpPushApiURL c)),
         LogSetting ''OTLP Push Encoding'' (GetPushEncodingName (cf_bPushProtobuf c) @ '' (Content-Type '' @
           (if cf_bPushProtobuf c then ''application/x-protobuf'' else ''application/json'') @ '')''),
         LogSetting ''OTLP Push Token'' (if cf_szOtlpPushToken c = [] then ''not set'' else ''set''),
         LogSetting ''OTLP CA File'' (or_not_set (cf_szOtlpCaFile c))] @
        (if cf_szOtlpPushApiURLBackup c \<noteq> [] then
           [LogSetting ''OTLP Push API URL Backup'' (SanitizeUrlForLog (cf_szOtlpPushApiURLBackup c)),
            LogSetting ''OTLP Push Failback sec'' (dec_text (cf_FailbackSec c))] else []) @
        summary_wal bWalOpened WalSize c)"

definition summary_inputs :: "bool \<Rightarrow> bool \<Rightarrow> config \<Rightarrow> string list" where
  "summary_inputs NoStdin bFileInputEnabled c =
     (if cf_szUnixSocketPath c \<noteq> [] then [LogSetting ''Unix Socket'' (cf_szUnixSocketPath c)]
      else if UseDefaultUnixSocket NoStdin c then [LogSetting ''Unix Socket'' (GetDefaultUnixSocketPath c @ '' (default)'')] else []) @
     (if cf_szTcpListen c \<noteq> [] then [LogSetting ''TCP Listen'' (cf_szTcpListen c)] else []) @
     (if cf_szSyslogSocketPath c \<noteq> [] then [LogSetting ''Syslog Socket'' (cf_szSyslogSocketPath c)] else []) @
     (if cf_szFileInput c \<noteq> [] then
        [LogSetting ''File Input'' (if bFileInputEnabled then cf_szFileInput c else cf_szFileInput c @ '' (not used: it needs OTLP_PUSH_API_URL)''),
         LogSetting ''File Start'' (if cf_bFileStartAtEnd c then ''end (without a state file only the lines which are written later)'' else ''begin''),
         LogSetting ''File Severity'' (if cf_FileSeverityNumber c = 0 then ''off (the lines have no severity)'' else cf_szFileSeverityText c),
         LogSetting ''File Service'' (if cf_szFileService c = [] then ''not set (service.name is '' @ cf_szOtlpServiceName c @ '')'' else cf_szFileService c),
         LogSetting ''File State File'' (cf_szFileStateFile c)] else [])"

definition LogStartupSummary :: "bool \<Rightarrow> bool \<Rightarrow> bool \<Rightarrow> nat option \<Rightarrow> config \<Rightarrow> string list" where
  "LogStartupSummary NoStdin bFileInputEnabled bWalOpened WalSize c =
     [LogSetting ''STDIN input'' (if NoStdin then ''no (-nostdin)'' else ''yes''), LogSetting ''Data Dir'' (cf_szDataDir c),
      LogSetting ''Metrics File'' (cf_szMetricsFileName c)] @
     summary_push bWalOpened WalSize c @
     [LogSetting ''OTLP Service Name'' (cf_szOtlpServiceName c), LogSetting ''OTLP Service Namespace'' (cf_szServiceNamespace c),
      LogSetting ''OTLP Service Instance'' (cf_szServiceInstanceId c)] @
     (if cf_szInstance c \<noteq> [] then [LogSetting ''Instance'' (cf_szInstance c @ '' (the label otelfwd_instance of every metric)'')] else []) @
     summary_inputs NoStdin bFileInputEnabled c @
     (if NoStdin then []
      else (if cf_szOutputLogFile c \<noteq> [] then [LogSetting ''Output log'' (cf_szOutputLogFile c)] else []) @
        (if cf_Mirror2Stdout c \<noteq> 0 then [LogSetting ''Mirror to stdout'' ''yes''] else []))"

section \<open>A list in columns\<close>

datatype list_row = Columns string string | TextRow string

definition LogCfgText :: "bool \<Rightarrow> string \<Rightarrow> string \<Rightarrow> string \<Rightarrow> list_row list" where
  "LogCfgText bShowEnvVars Description Value Parameter =
     (if Description = [] then []
      else if bShowEnvVars then (if Parameter = [] then [] else [Columns Parameter Value])
      else [Columns Description Value])"

definition LogCfgNum :: "bool \<Rightarrow> string \<Rightarrow> nat \<Rightarrow> string \<Rightarrow> list_row list" where
  "LogCfgNum bShowEnvVars Description Value Parameter = LogCfgText bShowEnvVars Description (dec_text Value) Parameter"

fun row_width :: "list_row \<Rightarrow> nat" where
  "row_width (Columns l r) = length l"
| "row_width (TextRow t) = 0"

definition list_width :: "list_row list \<Rightarrow> nat" where
  "list_width rows = fold (\<lambda>r w. max w (row_width r)) rows 0"

text \<open>\<^verbatim>\<open>printf ("%-*s")\<close> fills with blanks.\<close>

fun print_row :: "nat \<Rightarrow> string \<Rightarrow> list_row \<Rightarrow> string" where
  "print_row Width Separator (Columns l r) = l @ replicate (Width - length l) CHR '' '' @ Separator @ r @ [CHR 0x0A]"
| "print_row Width Separator (TextRow t) = t @ [CHR 0x0A]"

definition AlignedList_Print :: "string \<Rightarrow> list_row list \<Rightarrow> string list" where
  "AlignedList_Print Separator rows = map (print_row (list_width rows) Separator) rows"

text \<open>\<^verbatim>\<open>%04o\<close>.\<close>

function oct_digits :: "nat \<Rightarrow> string" where
  "oct_digits n = (if n < 8 then [digit_char n] else oct_digits (n div 8) @ [digit_char (n mod 8)])"
  by pat_completeness auto
termination
  by (relation "measure (\<lambda>n. n)") auto

declare oct_digits.simps [simp del]

definition mode_text :: "nat \<Rightarrow> string" where
  "mode_text n = (let t = oct_digits n in replicate (4 - length t) CHR ''0'' @ t)"

definition DumpConfig :: "bool \<Rightarrow> bool \<Rightarrow> config \<Rightarrow> list_row list" where
  "DumpConfig NoStdin bShowEnvVars c =
     (let txtv = LogCfgText bShowEnvVars; numv = LogCfgNum bShowEnvVars;
          UnixSocket = (if \<not> bShowEnvVars \<and> UseDefaultUnixSocket NoStdin c then GetDefaultUnixSocketPath c @ '' (default)'' else cf_szUnixSocketPath c)
      in txtv ''STDIN input'' (if NoStdin then ''no (-nostdin)'' else ''yes'') [] @
         numv ''Mirror to stdout'' (cf_Mirror2Stdout c) ''OTELFWD_MIRROR_STDOUT'' @
         numv ''Shutdown max wait sec'' (cf_ShutdownMaxWaitSec c) ''OTELFWD_SHUTDOWN_MAX_SEC'' @
         [TextRow []] @
         txtv ''Data Dir'' (cf_szDataDir c) ''OTELFWD_DATA_DIR'' @
         txtv ''Output log'' (cf_szOutputLogFile c) ''OTELFWD_OUTPUT_LOG'' @
         txtv ''Metrics File'' (cf_szMetricsFileName c) ''OTELFWD_PROM_FILE'' @
         txtv ''Hostname'' (cf_szHostname c) ''OTELFWD_HOSTNAME'' @
         numv ''LogLevel'' (cf_LogLevel c) ''OTELFWD_LOGLEVEL'' @
         [TextRow []] @
         txtv ''OTLP Push API URL'' (SanitizeUrlForLog (cf_szOtlpPushApiURL c)) ''OTLP_PUSH_API_URL'' @
         txtv ''OTLP Push API URL Backup'' (SanitizeUrlForLog (cf_szOtlpPushApiURLBackup c)) ''OTLP_PUSH_API_URL_BACKUP'' @
         numv ''OTLP Push Failback sec'' (cf_FailbackSec c) ''OTLP_PUSH_FAILBACK_SEC'' @
         numv ''OTLP Push WAL Retry sec'' (cf_WalRetrySec c) ''OTLP_PUSH_WAL_RETRY_SEC'' @
         numv ''OTLP Push WAL Max MB'' (cf_WalMaxMB c) ''OTLP_PUSH_WAL_MAX_MB'' @
         txtv ''OTLP Push Encoding'' (GetPushEncodingName (cf_bPushProtobuf c)) ''OTLP_PUSH_ENCODING'' @
         txtv ''OTLP Push Token'' (if cf_szOtlpPushToken c \<noteq> [] then ''(set)'' else []) ''OTLP_PUSH_TOKEN'' @
         txtv ''OTLP CA File'' (cf_szOtlpCaFile c) ''OTLP_CA_FILE'' @
         txtv ''OTLP Service Name'' (cf_szOtlpServiceName c) ''OTLP_SERVICE_NAME'' @
         txtv ''OTLP Service Namespace'' (cf_szServiceNamespace c) ''OTLP_SERVICE_NAMESPACE'' @
         txtv ''OTLP Service Instance'' (cf_szServiceInstanceId c) ''OTLP_SERVICE_INSTANCE_ID'' @
         txtv ''Instance'' (cf_szInstance c) ''OTELFWD_INSTANCE'' @
         txtv ''WAL File'' (cf_szWalFile c) [] @
         [TextRow []] @
         txtv ''Unix Socket'' UnixSocket ''OTELFWD_UNIX_SOCKET'' @
         txtv ''Unix Socket Mode'' (mode_text (cf_UnixSocketMode c)) ''OTELFWD_UNIX_SOCKET_MODE'' @
         txtv ''Syslog Socket'' (cf_szSyslogSocketPath c) ''OTELFWD_SYSLOG_SOCKET'' @
         txtv ''Syslog Socket Mode'' (mode_text (cf_SyslogSocketMode c)) ''OTELFWD_SYSLOG_SOCKET_MODE'' @
         txtv ''TCP Listen'' (cf_szTcpListen c) ''OTELFWD_TCP_LISTEN'' @
         numv ''Socket Queue Max'' (cf_SocketQueueMax c) ''OTELFWD_SOCKET_QUEUE_MAX'' @
         [TextRow []] @
         txtv ''File Input'' (cf_szFileInput c) ''OTELFWD_FILE_INPUT'' @
         txtv ''File Start'' (if cf_bFileStartAtEnd c then ''end'' else ''begin'') ''OTELFWD_FILE_START'' @
         txtv ''File State Dir'' (cf_szFileStateDir c) ''OTELFWD_FILE_STATE_DIR'' @
         txtv ''File Severity'' (if cf_FileSeverityNumber c = 0 then ''off'' else cf_szFileSeverityText c) ''OTELFWD_FILE_SEVERITY'' @
         txtv ''File Service'' (cf_szFileService c) ''OTELFWD_FILE_SERVICE'' @
         txtv ''File State File'' (cf_szFileStateFile c) [] @
         [TextRow []])"

section \<open>What they show\<close>

text \<open>The separator of every row with columns is at the same place, behind the longest first column.\<close>

lemma list_width_le: "r \<in> set rows \<Longrightarrow> row_width r \<le> list_width rows"
proof -
  have "w \<le> fold (\<lambda>r w. max w (row_width r)) rows w \<and> (\<forall>r \<in> set rows. row_width r \<le> fold (\<lambda>r w. max w (row_width r)) rows w)" for w rows
  proof (induction rows arbitrary: w)
    case (Cons a rows)
    from Cons [of "max w (row_width a)"] show ?case
      by auto
  qed simp
  then show "r \<in> set rows \<Longrightarrow> row_width r \<le> list_width rows"
    by (simp add: list_width_def)
qed

lemma columns_are_aligned:
  assumes "Columns l r \<in> set rows"
  shows "take (list_width rows) (print_row (list_width rows) Separator (Columns l r)) = l @ replicate (list_width rows - length l) CHR '' '' \<and>
    drop (list_width rows) (print_row (list_width rows) Separator (Columns l r)) = Separator @ r @ [CHR 0x0A]"
  using list_width_le [OF assms] by simp

text \<open>A configuration whose two URLs have the secrets: user names with passwords, and what is behind the path.\<close>

definition secret_url :: "string \<Rightarrow> string option \<Rightarrow> string \<Rightarrow> string \<Rightarrow> string \<Rightarrow> string" where
  "secret_url scheme user host path rest = scheme @ ''://'' @ (case user of None \<Rightarrow> [] | Some u \<Rightarrow> u @ ''@'') @ host @ path @ rest"

definition plain_user :: "string option \<Rightarrow> bool" where
  "plain_user user = (case user of None \<Rightarrow> True | Some u \<Rightarrow> url_word ''/?#'' u)"

definition plain_rest :: "string \<Rightarrow> bool" where
  "plain_rest rest = (rest = [] \<or> hd rest = CHR ''?'' \<or> hd rest = CHR ''#'')"

text \<open>\<open>c\<close> with these two URLs, and with a token.\<close>

definition with_secrets :: "config \<Rightarrow> string \<Rightarrow> string \<Rightarrow> string \<Rightarrow> config" where
  "with_secrets c URL Backup Token = c\<lparr>cf_szOtlpPushApiURL := URL, cf_szOtlpPushApiURLBackup := Backup, cf_szOtlpPushToken := Token\<rparr>"

lemma shown_secret_url:
  assumes "url_word '':/?#@'' scheme" "plain_user user" "url_word ''/?#@'' host" "path = [] \<or> hd path = CHR ''/''" "url_word ''?#'' path" "plain_rest rest"
  shows "SanitizeUrlForLog (secret_url scheme user host path rest) = scheme @ ''://'' @ host @ path"
  unfolding secret_url_def using assms(2,6)
  by (intro sanitized_url [OF assms(1) _ assms(3-5)]) (auto simp: plain_user_def plain_rest_def)

lemma secret_url_not_empty: "secret_url scheme user host path rest \<noteq> []"
  by (simp add: secret_url_def)

text \<open>What the texts depend on.\<close>

lemma summary_depends_on:
  assumes "SanitizeUrlForLog u = SanitizeUrlForLog u'" "SanitizeUrlForLog b = SanitizeUrlForLog b'" "u \<noteq> []" "u' \<noteq> []" "(b = []) = (b' = [])"
    "(t = []) = (t' = [])"
  shows "LogStartupSummary n f w s (with_secrets c u b t) = LogStartupSummary n f w s (with_secrets c u' b' t')"
    and "DumpConfig n e (with_secrets c u b t) = DumpConfig n e (with_secrets c u' b' t')"
proof -
  have push: "summary_push w s (with_secrets c u b t) = summary_push w s (with_secrets c u' b' t')"
    using assms by (simp add: summary_push_def summary_wal_def with_secrets_def)
  have inputs: "summary_inputs n f (with_secrets c u b t) = summary_inputs n f (with_secrets c u' b' t')"
    using assms(3,4) by (simp add: summary_inputs_def with_secrets_def UseDefaultUnixSocket_def GetDefaultUnixSocketPath_def)
  show "LogStartupSummary n f w s (with_secrets c u b t) = LogStartupSummary n f w s (with_secrets c u' b' t')"
    unfolding LogStartupSummary_def push inputs by (simp add: with_secrets_def)
  show "DumpConfig n e (with_secrets c u b t) = DumpConfig n e (with_secrets c u' b' t')"
    using assms by (simp add: DumpConfig_def with_secrets_def UseDefaultUnixSocket_def GetDefaultUnixSocketPath_def Let_def)
qed


definition some_config :: config where
  "some_config = ReadConfig None None (\<lambda>_. None)"


end
