(* ===== verification/Ledger.thy ===== *)
theory Ledger imports Json PromLabel begin

text \<open>
  The ledger of the load test in the test receiver (\<^verbatim>\<open>tools/otel-sink/test_ledger.hpp\<close>): which events of a test arrived, how often and how late.
  The mutex makes each operation one step. The average, which is computed with \<^verbatim>\<open>double\<close>, is not modelled; the rank of a percentile, which is
  computed with \<^verbatim>\<open>double\<close> too, is an argument.
\<close>

section \<open>The path of a test event\<close>

definition TEST_PREFIX :: string where
  "TEST_PREFIX = ''/otelfwd-test/''"

definition MAX_THREADS :: nat where
  "MAX_THREADS = 4096"

definition MAX_EVENTS :: nat where
  "MAX_EVENTS = 20000000"

definition SUMMARY_EVERY_NS :: int where
  "SUMMARY_EVERY_NS = 5000000000"

text \<open>Digits only, and at most \<open>2 ^ 64 - 1\<close>.\<close>

fun unsigned_digits :: "nat \<Rightarrow> string \<Rightarrow> nat option" where
  "unsigned_digits Value [] = Some Value"
| "unsigned_digits Value (c # cs) =
     (if \<not> is_digit c then None
      else if Value > (2 ^ 64 - 1 - digit_value c) div 10 then None
      else unsigned_digits (Value * 10 + digit_value c) cs)"

definition ParseUnsigned :: "string \<Rightarrow> nat option" where
  "ParseUnsigned Txt = (if Txt = [] then None else unsigned_digits 0 Txt)"

definition ParseTestPath :: "string \<Rightarrow> (nat \<times> nat \<times> int) option" where
  "ParseTestPath Path =
     (if \<not> starts_with TEST_PREFIX Path then None
      else
        let Rest = drop (length TEST_PREFIX) Path
        in case find_index CHR ''/'' Rest of
             None \<Rightarrow> None
           | Some Slash1 \<Rightarrow>
               (case find_index CHR ''/'' (drop (Slash1 + 1) Rest) of
                  None \<Rightarrow> None
                | Some n \<Rightarrow>
                    let Slash2 = Slash1 + 1 + n
                    in case ParseUnsigned (take Slash1 Rest) of
                         None \<Rightarrow> None
                       | Some Thread \<Rightarrow>
                           (case ParseUnsigned (take (Slash2 - Slash1 - 1) (drop (Slash1 + 1) Rest)) of
                              None \<Rightarrow> None
                            | Some Count \<Rightarrow>
                                (case ParseUnsigned (drop (Slash2 + 1) Rest) of
                                   None \<Rightarrow> None
                                 | Some SentNs \<Rightarrow> if SentNs > 2 ^ 63 - 1 then None else Some (Thread, Count, int SentNs)))))"

section \<open>Latency\<close>

record LatencyStats =
  ls_Buckets :: "nat list"
  ls_Count :: nat
  ls_Min :: int
  ls_Max :: int

definition BUCKETS :: nat where
  "BUCKETS = 400"

definition new_LatencyStats :: LatencyStats where
  "new_LatencyStats = \<lparr>ls_Buckets = replicate BUCKETS 0, ls_Count = 0, ls_Min = 0, ls_Max = 0\<rparr>"

text \<open>\<^verbatim>\<open>63 - __builtin_clzll\<close>: the position of the highest bit.\<close>

fun top_bit :: "nat \<Rightarrow> nat" where
  "top_bit n = (if n < 2 then 0 else Suc (top_bit (n div 2)))"

declare top_bit.simps [simp del]

definition sub_step :: "nat \<Rightarrow> nat \<Rightarrow> nat" where
  "sub_step Oct Us = (if Oct < 3 then (Us - 2 ^ Oct) * 2 ^ (3 - Oct) else (Us div 2 ^ (Oct - 3)) mod 8)"

definition BucketIndex :: "int \<Rightarrow> nat" where
  "BucketIndex Ns =
     (let Us = (if Ns \<le> 0 then 0 else nat Ns div 1000)
      in if Us = 0 then 0
         else let Oct = top_bit Us; Idx = 1 + Oct * 8 + sub_step Oct Us in if Idx < BUCKETS then Idx else BUCKETS - 1)"

definition UpperUs :: "nat \<Rightarrow> nat" where
  "UpperUs Idx =
     (if Idx = 0 then 1
      else let Oct = (Idx - 1) div 8; Sub = (Idx - 1) mod 8
        in if Oct \<ge> 3 then 2 ^ Oct + (Sub + 1) * 2 ^ (Oct - 3) else 2 ^ Oct + Sub div 2 ^ (3 - Oct) + 1)"

definition Latency_Add :: "int \<Rightarrow> LatencyStats \<Rightarrow> LatencyStats" where
  "Latency_Add Ns s =
     (let i = BucketIndex Ns
      in \<lparr>ls_Buckets = (ls_Buckets s)[i := ls_Buckets s ! i + 1], ls_Count = ls_Count s + 1,
          ls_Min = (if ls_Count s = 0 \<or> Ns < ls_Min s then Ns else ls_Min s),
          ls_Max = (if ls_Count s = 0 \<or> Ns > ls_Max s then Ns else ls_Max s)\<rparr>)"

text \<open>The loop over the buckets, from bucket \<open>i\<close> on.\<close>

fun percentile_loop :: "nat \<Rightarrow> int \<Rightarrow> nat \<Rightarrow> nat \<Rightarrow> nat list \<Rightarrow> int" where
  "percentile_loop Target Top i Seen [] = Top"
| "percentile_loop Target Top i Seen (b # bs) =
     (if Seen + b \<ge> Target then min (int (UpperUs i * 1000)) Top else percentile_loop Target Top (i + 1) (Seen + b) bs)"

text \<open>\<open>Rank\<close> is \<^verbatim>\<open>P * m_Count\<close> without its fraction.\<close>

definition Percentile :: "nat \<Rightarrow> LatencyStats \<Rightarrow> int" where
  "Percentile Rank s = (if ls_Count s = 0 then 0 else percentile_loop (max Rank 1) (ls_Max s) 0 0 (ls_Buckets s))"

section \<open>The ledger\<close>

record slot =
  sl_SentNs :: int
  sl_FirstNs :: int
  sl_LastNs :: int
  sl_EventNs :: int
  sl_Received :: nat
  sl_Reported :: bool

definition new_slot :: slot where
  "new_slot = \<lparr>sl_SentNs = 0, sl_FirstNs = 0, sl_LastNs = 0, sl_EventNs = 0, sl_Received = 0, sl_Reported = False\<rparr>"

record ledger =
  lg_Slots :: "slot list"
  lg_UniquePerThread :: "nat list"
  lg_DeliveriesPerThread :: "nat list"
  lg_Threads :: nat
  lg_PerThread :: nat
  lg_bActive :: bool
  lg_Unique :: nat
  lg_Deliveries :: nat
  lg_Unexpected :: nat
  lg_Malformed :: nat
  lg_TestBatches :: nat
  lg_MixedBatches :: nat
  lg_Conflicts :: nat
  lg_OtherRecords :: nat
  lg_ReportedLost :: nat
  lg_ReportedMissing :: nat
  lg_OtherSample :: "string list"
  lg_MaxDupDelay :: int
  lg_ResetNs :: int
  lg_FirstArrival :: int
  lg_LastArrival :: int
  lg_LastPrint :: int
  lg_EndToEnd :: LatencyStats
  lg_GenToNginx :: LatencyStats
  lg_NginxToSink :: LatencyStats
  lg_Failed :: nat
  lg_FailStatus :: int

definition new_ledger :: ledger where
  "new_ledger = \<lparr>lg_Slots = [], lg_UniquePerThread = [], lg_DeliveriesPerThread = [], lg_Threads = 0, lg_PerThread = 0, lg_bActive = False,
     lg_Unique = 0, lg_Deliveries = 0, lg_Unexpected = 0, lg_Malformed = 0, lg_TestBatches = 0, lg_MixedBatches = 0, lg_Conflicts = 0,
     lg_OtherRecords = 0, lg_ReportedLost = 0, lg_ReportedMissing = 0, lg_OtherSample = [], lg_MaxDupDelay = 0, lg_ResetNs = 0,
     lg_FirstArrival = 0, lg_LastArrival = 0, lg_LastPrint = 0, lg_EndToEnd = new_LatencyStats, lg_GenToNginx = new_LatencyStats,
     lg_NginxToSink = new_LatencyStats, lg_Failed = 0, lg_FailStatus = 0\<rparr>"

text \<open>The error, or the ledger. The status of the failure switch is kept.\<close>

definition Ledger_Reset :: "int \<Rightarrow> nat \<Rightarrow> nat \<Rightarrow> ledger \<Rightarrow> string + ledger" where
  "Ledger_Reset Now Threads EventsPerThread s =
     (if Threads = 0 \<or> Threads > MAX_THREADS then Inl (''threads must be between 1 and '' @ dec_text MAX_THREADS)
      else if EventsPerThread = 0 \<or> EventsPerThread > MAX_EVENTS div Threads
        then Inl (''threads * events_per_thread must be between 1 and '' @ dec_text MAX_EVENTS)
      else Inr (new_ledger\<lparr>lg_Slots := replicate (Threads * EventsPerThread) new_slot, lg_UniquePerThread := replicate Threads 0,
        lg_DeliveriesPerThread := replicate Threads 0, lg_Threads := Threads, lg_PerThread := EventsPerThread, lg_bActive := True,
        lg_ResetNs := Now, lg_LastPrint := Now, lg_FailStatus := lg_FailStatus s\<rparr>))"

section \<open>A request\<close>

text \<open>The attribute \<^verbatim>\<open>url.path\<close>: only the first one with this key counts.\<close>

fun url_path_attr :: "json list \<Rightarrow> string option" where
  "url_path_attr [] = None"
| "url_path_attr (a # as) =
     (case Find ''key'' a of
        Some (JStr k) \<Rightarrow>
          if c_str k \<noteq> ''url.path'' then url_path_attr as
          else (case Find ''value'' a of
              Some v \<Rightarrow> (case Find ''stringValue'' v of Some (JStr s) \<Rightarrow> Some s | _ \<Rightarrow> None)
            | None \<Rightarrow> None)
      | _ \<Rightarrow> url_path_attr as)"

definition GetUrlPath :: "json \<Rightarrow> string option" where
  "GetUrlPath Record = (case Find ''attributes'' Record of Some (JArr as) \<Rightarrow> url_path_attr as | _ \<Rightarrow> None)"

record parsed =
  pa_Thread :: nat
  pa_Count :: nat
  pa_SentNs :: int
  pa_EventNs :: int

record scan =
  sc_Records :: nat
  sc_TestRecords :: nat
  sc_Events :: "parsed list"
  sc_Malformed :: nat
  sc_Others :: nat
  sc_OtherSample :: "string list"
  sc_Reports :: "parsed list"

definition new_scan :: scan where
  "new_scan = \<lparr>sc_Records = 0, sc_TestRecords = 0, sc_Events = [], sc_Malformed = 0, sc_Others = 0, sc_OtherSample = [], sc_Reports = []\<rparr>"

definition body_string :: "json \<Rightarrow> string option" where
  "body_string Record =
     (case Find ''body'' Record of Some b \<Rightarrow> (case Find ''stringValue'' b of Some (JStr s) \<Rightarrow> Some s | _ \<Rightarrow> None) | None \<Rightarrow> None)"

text \<open>A line of NGINX names the request which it could not log.\<close>

definition reported_event :: "string \<Rightarrow> parsed option" where
  "reported_event Txt =
     (case find_from TEST_PREFIX 0 Txt of
        None \<Rightarrow> None
      | Some Pos \<Rightarrow>
          (case ParseTestPath (takeWhile (\<lambda>c. c \<noteq> CHR '' '' \<and> c \<noteq> CHR 0x22) (drop Pos Txt)) of
             None \<Rightarrow> None
           | Some (t, c, n) \<Rightarrow> Some \<lparr>pa_Thread = t, pa_Count = c, pa_SentNs = n, pa_EventNs = 0\<rparr>))"

definition event_time :: "json \<Rightarrow> int" where
  "event_time Record =
     (case Find ''timeUnixNano'' Record of
        Some (JStr s) \<Rightarrow> (case ParseUnsigned s of None \<Rightarrow> 0 | Some n \<Rightarrow> if n \<le> 2 ^ 63 - 1 then int n else 0)
      | _ \<Rightarrow> 0)"

definition other_record :: "json \<Rightarrow> scan \<Rightarrow> scan" where
  "other_record Record s =
     s\<lparr>sc_Others := sc_Others s + 1,
       sc_OtherSample := (case body_string Record of
           Some b \<Rightarrow> if length (sc_OtherSample s) < 3 then sc_OtherSample s @ [take 200 b] else sc_OtherSample s
         | None \<Rightarrow> sc_OtherSample s),
       sc_Reports := (case body_string Record of
           Some b \<Rightarrow> (case reported_event b of Some r \<Rightarrow> sc_Reports s @ [r] | None \<Rightarrow> sc_Reports s)
         | None \<Rightarrow> sc_Reports s)\<rparr>"

definition scan_record :: "json \<Rightarrow> scan \<Rightarrow> scan" where
  "scan_record Record s0 =
     (let s = s0\<lparr>sc_Records := sc_Records s0 + 1\<rparr>
      in case GetUrlPath Record of
           None \<Rightarrow> other_record Record s
         | Some Path \<Rightarrow>
             if \<not> starts_with TEST_PREFIX Path then other_record Record s
             else
               let s1 = s\<lparr>sc_TestRecords := sc_TestRecords s + 1\<rparr>
               in case ParseTestPath Path of
                    None \<Rightarrow> s1\<lparr>sc_Malformed := sc_Malformed s1 + 1\<rparr>
                  | Some (t, c, n) \<Rightarrow>
                      s1\<lparr>sc_Events := sc_Events s1 @ [\<lparr>pa_Thread = t, pa_Count = c, pa_SentNs = n, pa_EventNs = event_time Record\<rparr>]\<rparr>)"

text \<open>The elements of a member which is an array; a value which is not one has none.\<close>

definition elements :: "string \<Rightarrow> json \<Rightarrow> json list" where
  "elements name v = (case Find name v of Some (JArr xs) \<Rightarrow> xs | _ \<Rightarrow> [])"

definition log_records :: "json \<Rightarrow> json list" where
  "log_records Doc = concat (map (elements ''logRecords'') (concat (map (elements ''scopeLogs'') (elements ''resourceLogs'' Doc))))"

definition scan_request :: "json \<Rightarrow> scan" where
  "scan_request Doc = fold scan_record (log_records Doc) new_scan"

section \<open>The counters\<close>

definition in_range :: "ledger \<Rightarrow> parsed \<Rightarrow> bool" where
  "in_range l p \<longleftrightarrow> 1 \<le> pa_Thread p \<and> pa_Thread p \<le> lg_Threads l \<and> 1 \<le> pa_Count p \<and> pa_Count p \<le> lg_PerThread l"

definition slot_index :: "ledger \<Rightarrow> parsed \<Rightarrow> nat" where
  "slot_index l p = (pa_Thread p - 1) * lg_PerThread l + (pa_Count p - 1)"

definition add_report :: "parsed \<Rightarrow> ledger \<Rightarrow> ledger" where
  "add_report R l =
     (if \<not> in_range l R then l
      else
        let i = slot_index l R; S = lg_Slots l ! i
        in if sl_Reported S then l
           else l\<lparr>lg_Slots := (lg_Slots l)[i := S\<lparr>sl_Reported := True\<rparr>], lg_ReportedLost := lg_ReportedLost l + 1,
             lg_ReportedMissing := (if sl_Received S = 0 then lg_ReportedMissing l + 1 else lg_ReportedMissing l)\<rparr>)"

definition add_sample :: "string \<Rightarrow> ledger \<Rightarrow> ledger" where
  "add_sample Sample l = (if length (lg_OtherSample l) < 5 then l\<lparr>lg_OtherSample := lg_OtherSample l @ [Sample]\<rparr> else l)"

text \<open>The first delivery of an event: its latencies. The stages are only known if NGINX wrote the time.\<close>

definition add_latency :: "int \<Rightarrow> parsed \<Rightarrow> ledger \<Rightarrow> ledger" where
  "add_latency ArrivalNs Ev l =
     (let l1 = l\<lparr>lg_EndToEnd := Latency_Add (ArrivalNs - pa_SentNs Ev) (lg_EndToEnd l)\<rparr>; EventMid = pa_EventNs Ev + 500000
      in if pa_EventNs Ev > 0
         then l1\<lparr>lg_GenToNginx := Latency_Add (max 0 (EventMid - pa_SentNs Ev)) (lg_GenToNginx l1),
           lg_NginxToSink := Latency_Add (max 0 (ArrivalNs - EventMid)) (lg_NginxToSink l1)\<rparr>
         else l1)"

definition count_in :: "nat \<Rightarrow> nat list \<Rightarrow> nat list" where
  "count_in i xs = xs[i := xs ! i + 1]"

text \<open>\<^verbatim>\<open>Received\<close> has 32 bits.\<close>

definition add_event :: "int \<Rightarrow> parsed \<Rightarrow> ledger \<Rightarrow> ledger" where
  "add_event ArrivalNs Ev l =
     (if \<not> lg_bActive l \<or> \<not> in_range l Ev then l\<lparr>lg_Unexpected := lg_Unexpected l + 1\<rparr>
      else
        let i = slot_index l Ev; S = lg_Slots l ! i; t = pa_Thread Ev - 1;
            l1 = l\<lparr>lg_Deliveries := lg_Deliveries l + 1, lg_DeliveriesPerThread := count_in t (lg_DeliveriesPerThread l),
              lg_FirstArrival := (if lg_FirstArrival l = 0 then ArrivalNs else lg_FirstArrival l), lg_LastArrival := ArrivalNs\<rparr>
        in if sl_Received S = 0 then
             add_latency ArrivalNs Ev
               (l1\<lparr>lg_Slots := (lg_Slots l1)[i := S\<lparr>sl_SentNs := pa_SentNs Ev, sl_FirstNs := ArrivalNs, sl_LastNs := ArrivalNs,
                    sl_EventNs := pa_EventNs Ev, sl_Received := 1\<rparr>],
                  lg_ReportedMissing := (if sl_Reported S \<and> lg_ReportedMissing l1 > 0 then lg_ReportedMissing l1 - 1 else lg_ReportedMissing l1),
                  lg_Unique := lg_Unique l1 + 1, lg_UniquePerThread := count_in t (lg_UniquePerThread l1)\<rparr>)
           else
             l1\<lparr>lg_Slots := (lg_Slots l1)[i := S\<lparr>sl_LastNs := ArrivalNs, sl_Received := (sl_Received S + 1) mod 2 ^ 32\<rparr>],
               lg_Conflicts := (if sl_SentNs S \<noteq> pa_SentNs Ev then lg_Conflicts l1 + 1 else lg_Conflicts l1),
               lg_MaxDupDelay := max (lg_MaxDupDelay l1) (ArrivalNs - sl_FirstNs S)\<rparr>)"

definition add_others :: "scan \<Rightarrow> ledger \<Rightarrow> ledger" where
  "add_others s l =
     (if lg_bActive l \<and> sc_Others s > 0
      then fold add_report (sc_Reports s) (fold add_sample (sc_OtherSample s) (l\<lparr>lg_OtherRecords := lg_OtherRecords l + sc_Others s\<rparr>))
      else l)"

definition summary_line :: "ledger \<Rightarrow> string" where
  "summary_line l = take 255 (''test: '' @ dec_text (lg_Unique l) @ '' of '' @ dec_text (lg_Threads l * lg_PerThread l) @ '' unique events, '' @
     dec_text (lg_Deliveries l) @ '' deliveries, '' @ dec_text (lg_Unexpected l) @ '' unexpected, '' @ dec_text (lg_Malformed l) @ '' malformed'')"

text \<open>The numbers of records and of test records, and the line for the console.\<close>

definition ProcessOtlp :: "json \<Rightarrow> int \<Rightarrow> ledger \<Rightarrow> nat \<times> nat \<times> string option \<times> ledger" where
  "ProcessOtlp Doc ArrivalNs l =
     (let s = scan_request Doc
      in if sc_TestRecords s = 0 \<and> sc_Others s = 0 then (sc_Records s, sc_TestRecords s, None, l)
         else
           let l1 = add_others s l
           in if sc_TestRecords s = 0 then (sc_Records s, sc_TestRecords s, None, l1)
              else
                let l2 = l1\<lparr>lg_TestBatches := lg_TestBatches l1 + 1, lg_Malformed := lg_Malformed l1 + sc_Malformed s,
                      lg_MixedBatches := (if sc_TestRecords s < sc_Records s then lg_MixedBatches l1 + 1 else lg_MixedBatches l1)\<rparr>;
                    l3 = fold (add_event ArrivalNs) (sc_Events s) l2
                in if ArrivalNs - lg_LastPrint l3 \<ge> SUMMARY_EVERY_NS
                   then (sc_Records s, sc_TestRecords s, Some (summary_line l3), l3\<lparr>lg_LastPrint := ArrivalNs\<rparr>)
                   else (sc_Records s, sc_TestRecords s, None, l3))"

section \<open>The answer to \<^verbatim>\<open>GET /test/stats\<close>\<close>

text \<open>\<open>rank\<close> gives the rank of a percentile for a number of values, \<open>avg\<close> the average.\<close>

definition Latency_ToJson :: "(nat \<Rightarrow> nat \<Rightarrow> nat) \<Rightarrow> (LatencyStats \<Rightarrow> int) \<Rightarrow> LatencyStats \<Rightarrow> json" where
  "Latency_ToJson rank avg s = JObj
     [(''count'', JInt (int (ls_Count s))), (''min_ns'', JInt (ls_Min s)), (''avg_ns'', JInt (avg s)),
      (''p50_ns'', JInt (Percentile (rank 50 (ls_Count s)) s)), (''p95_ns'', JInt (Percentile (rank 95 (ls_Count s)) s)),
      (''p99_ns'', JInt (Percentile (rank 99 (ls_Count s)) s)), (''max_ns'', JInt (ls_Max s))]"

definition missing_sample :: "ledger \<Rightarrow> (nat \<times> nat) list" where
  "missing_sample l = take 10 (map (\<lambda>i. (i div lg_PerThread l + 1, i mod lg_PerThread l + 1))
     (filter (\<lambda>i. sl_Received (lg_Slots l ! i) = 0) [0..<length (lg_Slots l)]))"

definition thread_stats :: "ledger \<Rightarrow> nat \<Rightarrow> json" where
  "thread_stats l t = JObj
     [(''thread'', JInt (int t + 1)), (''expected'', JInt (int (lg_PerThread l))), (''unique'', JInt (int (lg_UniquePerThread l ! t))),
      (''deliveries'', JInt (int (lg_DeliveriesPerThread l ! t))),
      (''duplicates'', JInt (int (lg_DeliveriesPerThread l ! t - lg_UniquePerThread l ! t))),
      (''missing'', JInt (int (lg_PerThread l - lg_UniquePerThread l ! t)))]"

definition StatsJson :: "(nat \<Rightarrow> nat \<Rightarrow> nat) \<Rightarrow> (LatencyStats \<Rightarrow> int) \<Rightarrow> ledger \<Rightarrow> json" where
  "StatsJson rank avg l =
     (let Expected = lg_Threads l * lg_PerThread l; num = (\<lambda>n. JInt (int n)); lat = Latency_ToJson rank avg
      in JObj
       [(''active'', JBool (lg_bActive l)), (''expected'', num Expected), (''unique'', num (lg_Unique l)), (''deliveries'', num (lg_Deliveries l)),
        (''duplicates'', num (lg_Deliveries l - lg_Unique l)), (''missing'', num (Expected - lg_Unique l)), (''unexpected'', num (lg_Unexpected l)),
        (''malformed'', num (lg_Malformed l)), (''mixed_batches'', num (lg_MixedBatches l)), (''test_batches'', num (lg_TestBatches l)),
        (''timestamp_conflicts'', num (lg_Conflicts l)), (''other_records'', num (lg_OtherRecords l)), (''nginx_reported_lost'', num (lg_ReportedLost l)),
        (''missing_reported'', num (lg_ReportedMissing l)), (''other_sample'', JArr (map JStr (lg_OtherSample l))),
        (''failed_requests'', num (lg_Failed l)), (''fail_status'', JInt (lg_FailStatus l)), (''reset_ns'', JInt (lg_ResetNs l)),
        (''first_arrival_ns'', JInt (lg_FirstArrival l)), (''last_arrival_ns'', JInt (lg_LastArrival l)),
        (''max_duplicate_delay_ns'', JInt (lg_MaxDupDelay l)), (''latency'', lat (lg_EndToEnd l)),
        (''stages'', JObj [(''generator_to_nginx'', lat (lg_GenToNginx l)), (''nginx_to_sink'', lat (lg_NginxToSink l))]),
        (''missing_sample'', JArr (if Expected > lg_Unique l
           then map (\<lambda>(t, c). JObj [(''thread'', num t), (''count'', num c)]) (missing_sample l) else [])),
        (''threads'', JArr (map (thread_stats l) [0..<lg_Threads l]))])"

definition SetFailStatus :: "int \<Rightarrow> ledger \<Rightarrow> ledger" where
  "SetFailStatus Status l = l\<lparr>lg_FailStatus := Status\<rparr>"

definition CountFailedRequest :: "ledger \<Rightarrow> ledger" where
  "CountFailedRequest l = l\<lparr>lg_Failed := lg_Failed l + 1\<rparr>"

end
