(* ===== verification/LatencyTheorems.thy ===== *)
theory LatencyTheorems imports Ledger "HOL-Library.Multiset" begin

text \<open>
  The percentiles of the load test: the histogram has 400 buckets, and what is reported for a rank is close to the value of that rank.
\<close>

section \<open>Buckets\<close>

lemma top_bit_bounds: "0 < n \<Longrightarrow> 2 ^ top_bit n \<le> n \<and> n < 2 ^ Suc (top_bit n)"
proof (induction n rule: top_bit.induct)
  case (1 n)
  show ?case
  proof (cases "n < 2")
    case True
    then show ?thesis
      using 1(2) by (simp add: top_bit.simps [of n])
  next
    case False
    then have "2 ^ top_bit (n div 2) \<le> n div 2 \<and> n div 2 < 2 ^ Suc (top_bit (n div 2))"
      using 1(1) by simp
    then show ?thesis
      using False by (simp add: top_bit.simps [of n]) linarith
  qed
qed

lemma top_bit_mono: "0 < m \<Longrightarrow> m \<le> n \<Longrightarrow> top_bit m \<le> top_bit n"
proof -
  assume m: "0 < m" "m \<le> n"
  have "2 ^ top_bit m < (2 :: nat) ^ Suc (top_bit n)"
    using top_bit_bounds [of m] top_bit_bounds [of n] m by linarith
  then show ?thesis
    by (simp only: power_strict_increasing_iff)
qed

text \<open>A bucket without the limit of 400.\<close>

definition bucket :: "nat \<Rightarrow> nat" where
  "bucket Us = (if Us = 0 then 0 else 1 + top_bit Us * 8 + sub_step (top_bit Us) Us)"

lemma sub_step_less: "0 < Us \<Longrightarrow> sub_step (top_bit Us) Us < 8"
proof -
  assume Us: "0 < Us"
  define k where "k = top_bit Us"
  have b: "2 ^ k \<le> Us" "Us < 2 ^ Suc k"
    using top_bit_bounds [OF Us] by (simp_all add: k_def)
  have "k \<in> {0, 1, 2} \<or> 3 \<le> k"
    by auto
  then show ?thesis
    unfolding k_def [symmetric] using b by (auto simp: sub_step_def)
qed

lemma sub_step_mono: "2 ^ k \<le> m \<Longrightarrow> m \<le> n \<Longrightarrow> n < 2 ^ Suc k \<Longrightarrow> sub_step k m \<le> sub_step k n"
proof (cases "k < 3")
  case True
  then show "2 ^ k \<le> m \<Longrightarrow> m \<le> n \<Longrightarrow> n < 2 ^ Suc k \<Longrightarrow> sub_step k m \<le> sub_step k n"
    by (simp add: sub_step_def mult_le_mono1 diff_le_mono)
next
  case False
  assume b: "2 ^ k \<le> m" "m \<le> n" "n < 2 ^ Suc k"
  define q where "q = (2 :: nat) ^ (k - 3)"
  have q: "2 ^ k = 8 * q" "0 < q"
    using False power_add [of "2 :: nat" 3 "k - 3"] by (simp_all add: q_def)
  have d: "8 \<le> x div q \<and> x div q < 16" if "2 ^ k \<le> x" "x < 2 ^ Suc k" for x
    using that q by (simp add: less_eq_div_iff_mult_less_eq div_less_iff_less_mult)
  have "m div q \<le> n div q"
    using b(2) by (rule div_le_mono)
  moreover have "x mod 8 = x - 8" if "8 \<le> x" "x < 16" for x :: nat
    using that by (simp add: le_mod_geq)
  ultimately have "m div q mod 8 \<le> n div q mod 8"
    using d [of m] d [of n] b by simp
  then show ?thesis
    using False by (simp add: sub_step_def q_def)
qed

lemma bucket_mono: "m \<le> n \<Longrightarrow> bucket m \<le> bucket n"
proof (cases "m = 0")
  case False
  assume mn: "m \<le> n"
  note bm = top_bit_bounds [of m] and bn = top_bit_bounds [of n]
  have t: "top_bit m \<le> top_bit n"
    using top_bit_mono mn False by simp
  show ?thesis
  proof (cases "top_bit m = top_bit n")
    case True
    then show ?thesis
      using sub_step_mono [of "top_bit n" m n] bm bn mn False by (simp add: bucket_def)
  next
    case False
    then show ?thesis
      using t sub_step_less [of m] \<open>m \<noteq> 0\<close> mn by (simp add: bucket_def)
  qed
qed (simp add: bucket_def)

text \<open>The upper end of a bucket is above every value in it, by an eighth and one microsecond at most.\<close>

lemma UpperUs_bounds: "Us < UpperUs (bucket Us) \<and> UpperUs (bucket Us) \<le> Us + Us div 8 + 1"
proof (cases "Us = 0")
  case True
  then show ?thesis
    by (simp add: bucket_def UpperUs_def)
next
  case False
  define k where "k = top_bit Us"
  define r where "r = sub_step k Us"
  have b: "2 ^ k \<le> Us" "Us < 2 ^ Suc k"
    using top_bit_bounds [of Us] False by (simp_all add: k_def)
  have "r < 8"
    using sub_step_less [of Us] False by (simp add: r_def k_def)
  then have i: "bucket Us = 1 + (k * 8 + r)" "(k * 8 + r) div 8 = k" "(k * 8 + r) mod 8 = r"
    using False by (simp_all add: bucket_def k_def r_def)
  show ?thesis
  proof (cases "k < 3")
    case True
    then have "k \<in> {0, 1, 2}"
      by auto
    then show ?thesis
      using b i by (auto simp: UpperUs_def r_def sub_step_def)
  next
    case k3: False
    define q where "q = (2 :: nat) ^ (k - 3)"
    have q: "2 ^ k = 8 * q" "0 < q"
      using k3 power_add [of "2 :: nat" 3 "k - 3"] by (simp_all add: q_def)
    have "8 \<le> Us div q" "Us div q < 16"
      using b q by (simp_all add: less_eq_div_iff_mult_less_eq div_less_iff_less_mult)
    then have r: "Us div q = 8 + r"
      using k3 by (simp add: r_def sub_step_def q_def [symmetric] le_mod_geq)
    have "q * (8 + r) \<le> Us" "Us < q * (8 + r) + q"
      using div_mult_mod_eq [of Us q] mod_less_divisor [OF q(2), of Us] r by (simp_all add: mult.commute)
    moreover have "UpperUs (bucket Us) = q * (8 + r) + q"
      using k3 i q by (simp add: UpperUs_def q_def [symmetric] algebra_simps)
    moreover have "q \<le> Us div 8"
      using b(1) q by (simp add: less_eq_div_iff_mult_less_eq mult.commute)
    ultimately show ?thesis
      by simp
  qed
qed

definition micro :: "int \<Rightarrow> nat" where
  "micro Ns = (if Ns \<le> 0 then 0 else nat Ns div 1000)"

lemma BucketIndex_bucket: "BucketIndex Ns = min (bucket (micro Ns)) (BUCKETS - 1)"
  by (simp add: BucketIndex_def micro_def bucket_def BUCKETS_def Let_def)

lemma BucketIndex_less: "BucketIndex Ns < BUCKETS"
  by (simp add: BucketIndex_bucket BUCKETS_def)

lemma micro_mono: "a \<le> b \<Longrightarrow> micro a \<le> micro b"
  by (simp add: micro_def div_le_mono)

lemma BucketIndex_mono: "a \<le> b \<Longrightarrow> BucketIndex a \<le> BucketIndex b"
  using bucket_mono [OF micro_mono] by (simp add: BucketIndex_bucket min.coboundedI1)

text \<open>Below \<open>2 ^ 49\<close> microseconds, 17 years, no value is cut to the last bucket.\<close>

lemma bucket_small: "micro Ns < 2 ^ 49 \<Longrightarrow> BucketIndex Ns = bucket (micro Ns)"
proof -
  assume u: "micro Ns < 2 ^ 49"
  have "bucket (micro Ns) < BUCKETS" if "micro Ns \<noteq> 0"
  proof -
    have "2 ^ top_bit (micro Ns) < (2 :: nat) ^ 49"
      using top_bit_bounds [of "micro Ns"] u that by linarith
    then have "top_bit (micro Ns) < 49"
      by (rule power_less_imp_less_exp [rotated]) simp
    then show ?thesis
      using sub_step_less [of "micro Ns"] that by (simp add: bucket_def BUCKETS_def)
  qed
  then show ?thesis
    by (cases "micro Ns = 0") (auto simp: BucketIndex_bucket bucket_def)
qed

lemma UpperUs_close:
  assumes "micro v < 2 ^ 49"
  shows "v \<le> int (UpperUs (BucketIndex v) * 1000) \<and> int (UpperUs (BucketIndex v) * 1000) \<le> max v 0 + max v 0 div 8 + 1000"
proof -
  define u where "u = micro v"
  have "u < UpperUs (BucketIndex v)" "UpperUs (BucketIndex v) \<le> u + u div 8 + 1"
    using UpperUs_bounds [of u] bucket_small [OF assms] by (simp_all add: u_def)
  moreover have "int u * 1000 \<le> max v 0" "max v 0 < int u * 1000 + 1000"
    by (auto simp: u_def micro_def max_def zdiv_int)
  ultimately show ?thesis
    by linarith
qed

section \<open>The histogram\<close>

definition histogram :: "int list \<Rightarrow> nat list" where
  "histogram xs = map (\<lambda>i. length (filter (\<lambda>x. BucketIndex x = i) xs)) [0..<BUCKETS]"

lemma histogram_add:
  "(histogram xs)[BucketIndex x := histogram xs ! BucketIndex x + 1] = histogram (xs @ [x])"
  using BucketIndex_less [of x] by (intro nth_equalityI) (auto simp: histogram_def nth_list_update)

lemma Latency_Add_histogram:
  "Latency_Add x \<lparr>ls_Buckets = histogram xs, ls_Count = length xs, ls_Min = m, ls_Max = k\<rparr> =
    \<lparr>ls_Buckets = histogram (xs @ [x]), ls_Count = length (xs @ [x]), ls_Min = (if xs = [] \<or> x < m then x else m),
     ls_Max = (if xs = [] \<or> k < x then x else k)\<rparr>"
  using histogram_add [of xs x] by (simp add: Latency_Add_def Let_def)

lemma all_added:
  "fold Latency_Add xs new_LatencyStats = \<lparr>ls_Buckets = histogram xs, ls_Count = length xs,
     ls_Min = (if xs = [] then 0 else Min (set xs)), ls_Max = (if xs = [] then 0 else Max (set xs))\<rparr>"
proof (induction xs rule: rev_induct)
  case Nil
  show ?case
    by (simp add: new_LatencyStats_def histogram_def map_replicate_const)
next
  case (snoc x xs)
  have "fold Latency_Add (xs @ [x]) new_LatencyStats = Latency_Add x (fold Latency_Add xs new_LatencyStats)"
    by simp
  then have e: "fold Latency_Add (xs @ [x]) new_LatencyStats = \<lparr>ls_Buckets = histogram (xs @ [x]), ls_Count = length (xs @ [x]),
      ls_Min = (if xs = [] \<or> x < (if xs = [] then 0 else Min (set xs)) then x else if xs = [] then 0 else Min (set xs)),
      ls_Max = (if xs = [] \<or> (if xs = [] then 0 else Max (set xs)) < x then x else if xs = [] then 0 else Max (set xs))\<rparr>"
    unfolding snoc Latency_Add_histogram .
  show ?case
  proof (cases "xs = []")
    case True
    then show ?thesis
      unfolding e by simp
  next
    case False
    define m where "m = Min (set xs)"
    define k where "k = Max (set xs)"
    have "Min (set (xs @ [x])) = min x m" "Max (set (xs @ [x])) = max x k" "xs @ [x] \<noteq> []"
      using False by (simp_all add: m_def k_def)
    moreover have "(if x < m then x else m) = min x m" "(if k < x then x else k) = max x k"
      by (auto simp: min_def max_def)
    ultimately show ?thesis
      unfolding e m_def [symmetric] k_def [symmetric] using False by simp
  qed
qed

text \<open>The loop stops at the first bucket which reaches the rank.\<close>

lemma percentile_loop_stops:
  assumes "j < length bs" and "Seen + sum_list (take j bs) < Target" and "Target \<le> Seen + sum_list (take (Suc j) bs)"
  shows "percentile_loop Target Top i Seen bs = min (int (UpperUs (i + j) * 1000)) Top"
  using assms
proof (induction bs arbitrary: i j Seen)
  case (Cons b bs)
  show ?case
  proof (cases j)
    case 0
    then show ?thesis
      using Cons.prems by simp
  next
    case (Suc j')
    from Cons.IH [of j' "Seen + b" "Suc i"] Cons.prems Suc show ?thesis
      by (simp add: add.assoc)
  qed
qed simp

lemma histogram_sum: "j \<le> BUCKETS \<Longrightarrow> sum_list (take j (histogram xs)) = length (filter (\<lambda>x. BucketIndex x < j) xs)"
proof (induction j)
  case (Suc j)
  have "filter (\<lambda>x. BucketIndex x < Suc j) xs = filter (\<lambda>x. BucketIndex x < j \<or> BucketIndex x = j) xs"
    by (rule filter_cong) auto
  moreover have "length (filter (\<lambda>x. BucketIndex x < j \<or> BucketIndex x = j) xs) =
      length (filter (\<lambda>x. BucketIndex x < j) xs) + length (filter (\<lambda>x. BucketIndex x = j) xs)"
    by (induction xs) auto
  moreover have "histogram xs ! j = length (filter (\<lambda>x. BucketIndex x = j) xs)" "j < length (histogram xs)"
    using Suc.prems by (simp_all add: histogram_def)
  ultimately show ?case
    using Suc by (simp add: take_Suc_conv_app_nth)
qed simp

lemma filter_sort_length: "length (filter P (sort xs)) = length (filter P xs)"
  by (metis mset_filter mset_sort size_mset)

text \<open>The bucket of the value of a rank, in the sorted values.\<close>

lemma rank_bucket:
  assumes "0 < r" and "r \<le> length xs" and "i = BucketIndex (sort xs ! (r - 1))"
  shows "length (filter (\<lambda>x. BucketIndex x < i) xs) < r \<and> r \<le> length (filter (\<lambda>x. BucketIndex x < Suc i) xs)"
proof -
  define ys where "ys = sort xs"
  have s: "sorted ys" "length ys = length xs"
    by (simp_all add: ys_def)
  have mono: "BucketIndex (ys ! m) \<le> BucketIndex (ys ! n)" if "m \<le> n" "n < length ys" for m n
    using that by (intro BucketIndex_mono sorted_nth_mono [OF s(1)]) simp_all
  have i: "i = BucketIndex (ys ! (r - 1))" and r: "r - 1 < length ys"
    using assms by (simp_all add: ys_def)
  have "i \<le> BucketIndex x" if x: "x \<in> set (drop (r - 1) ys)" for x
  proof -
    obtain n where "n < length (drop (r - 1) ys)" "drop (r - 1) ys ! n = x"
      using x unfolding in_set_conv_nth by blast
    then show ?thesis
      using mono [of "r - 1" "r - 1 + n"] r unfolding i by simp
  qed
  then have "filter (\<lambda>x. BucketIndex x < i) (drop (r - 1) ys) = []"
    unfolding filter_empty_conv by (metis not_less)
  then have "length (filter (\<lambda>x. BucketIndex x < i) ys) = length (filter (\<lambda>x. BucketIndex x < i) (take (r - 1) ys))"
    by (metis append_Nil2 append_take_drop_id filter_append)
  also have "\<dots> \<le> r - 1"
    using length_filter_le [of "\<lambda>x. BucketIndex x < i" "take (r - 1) ys"] r by simp
  finally have 1: "length (filter (\<lambda>x. BucketIndex x < i) ys) < r"
    using assms(1) by simp
  have "BucketIndex x < Suc i" if x: "x \<in> set (take r ys)" for x
  proof -
    obtain n where "n < length (take r ys)" "take r ys ! n = x"
      using x unfolding in_set_conv_nth by blast
    then show ?thesis
      using mono [of n "r - 1"] r unfolding i by (simp add: less_Suc_eq_le)
  qed
  then have "filter (\<lambda>x. BucketIndex x < Suc i) (take r ys) = take r ys"
    unfolding filter_id_conv by blast
  then have "r \<le> length (filter (\<lambda>x. BucketIndex x < Suc i) (take r ys @ drop r ys))"
    using assms(1,2) s(2) unfolding filter_append length_append by simp
  then have 2: "r \<le> length (filter (\<lambda>x. BucketIndex x < Suc i) ys)"
    by simp
  from 1 2 show ?thesis
    by (simp add: ys_def filter_sort_length)
qed



end
