(* ===== verification/Sink.thy ===== *)
theory Sink imports Ledger TextSearch begin

text \<open>
  The test receiver (\<^verbatim>\<open>tools/otel-sink/otel-sink.cpp\<close>): one HTTP connection from its bytes to its answer and the file which is written.
  What \<^verbatim>\<open>recv\<close> returns is a list of pieces, and an empty piece or the end of the list is a failure. The parser and the pretty writer of rapidjson, zlib
  and the file system are parameters.
\<close>

section \<open>Answers\<close>

definition CRLF :: string where
  "CRLF = [CHR 0x0D, CHR 0x0A]"

definition ReasonPhrase :: "nat \<Rightarrow> string" where
  "ReasonPhrase Status =
     (if Status = 200 then ''OK'' else if Status = 400 then ''Bad Request'' else if Status = 404 then ''Not Found''
      else if Status = 405 then ''Method Not Allowed'' else if Status = 411 then ''Length Required''
      else if Status = 413 then ''Payload Too Large'' else if Status = 503 then ''Service Unavailable'' else ''Internal Server Error'')"

definition Reply :: "nat \<Rightarrow> string \<Rightarrow> string" where
  "Reply Status Body =
     ''HTTP/1.0 '' @ dec_text Status @ '' '' @ ReasonPhrase Status @ CRLF @ ''Content-Type: application/json'' @ CRLF @
     ''Content-Length: '' @ dec_text (length Body) @ CRLF @ ''Connection: close'' @ CRLF @ CRLF @ Body"

text \<open>\<^verbatim>\<open>{"key":"value"}\<close>.\<close>

definition json_pair :: "string \<Rightarrow> string \<Rightarrow> string" where
  "json_pair k v = ''{'' @ [CHR 0x22] @ k @ [CHR 0x22, CHR '':'', CHR 0x22] @ v @ [CHR 0x22] @ ''}''"

definition error_body :: "string \<Rightarrow> string" where
  "error_body v = json_pair ''error'' v"

section \<open>The file of a request\<close>

definition SINK_MAX_HEADER_BYTES :: nat where "SINK_MAX_HEADER_BYTES = 64 * 1024"
definition SINK_MAX_BODY_BYTES :: nat where "SINK_MAX_BODY_BYTES = 64 * 1024 * 1024"

definition is_alnum :: "char \<Rightarrow> bool" where
  "is_alnum c \<longleftrightarrow> is_digit c \<or> (65 \<le> (of_char c :: nat) \<and> (of_char c :: nat) \<le> 90) \<or> (97 \<le> (of_char c :: nat) \<and> (of_char c :: nat) \<le> 122)"

definition path_part :: "string \<Rightarrow> string" where
  "path_part Path = fold (\<lambda>c Part. if is_alnum c then Part @ [c] else if Part \<noteq> [] \<and> last Part \<noteq> CHR ''-'' then Part @ ''-'' else Part) Path []"

definition pop_dashes :: "string \<Rightarrow> string" where
  "pop_dashes Part = rev (dropWhile (\<lambda>c. c = CHR ''-'') (rev Part))"

definition pad_number :: "nat \<Rightarrow> nat \<Rightarrow> string" where
  "pad_number width n = (let t = dec_text n in replicate (width - length t) CHR ''0'' @ t)"

text \<open>\<open>Time\<close> and \<open>Millis\<close> are the clock. \<^verbatim>\<open>szName\<close> has 64 bytes.\<close>

definition BuildFileName :: "nat \<Rightarrow> string \<Rightarrow> nat \<Rightarrow> string \<Rightarrow> string \<Rightarrow> string" where
  "BuildFileName Seq Time Millis Target Extension =
     (let Part = pop_dashes (path_part (takeWhile (\<lambda>c. c \<noteq> CHR ''?'') Target));
          Part1 = take 60 (if Part = [] then ''root'' else Part)
      in take 63 (pad_number 6 Seq @ ''_'' @ Time @ ''.'' @ pad_number 3 Millis @ ''Z_'') @ Part1 @ ''.'' @ Extension)"

section \<open>What a request holds\<close>

definition count_items :: "json \<Rightarrow> string \<Rightarrow> string \<Rightarrow> string \<Rightarrow> nat" where
  "count_items Doc Resource Scope Items =
     sum_list (map (\<lambda>s. length (elements Items s)) (concat (map (elements Scope) (elements Resource Doc))))"

text \<open>Only a signal whose resources are an array is named.\<close>

definition has_array :: "string \<Rightarrow> json \<Rightarrow> bool" where
  "has_array name v = (case Find name v of Some (JArr xs) \<Rightarrow> True | _ \<Rightarrow> False)"

fun join_comma :: "string list \<Rightarrow> string" where
  "join_comma [] = []"
| "join_comma [s] = s"
| "join_comma (s # ss) = s @ '', '' @ join_comma ss"

definition Summarize :: "json \<Rightarrow> string" where
  "Summarize Doc =
     (let parts = map (\<lambda>(r, s, i). dec_text (count_items Doc r s i) @ '' '' @ i)
            (filter (\<lambda>(r, s, i). has_array r Doc)
              [(''resourceLogs'', ''scopeLogs'', ''logRecords''), (''resourceSpans'', ''scopeSpans'', ''spans''),
               (''resourceMetrics'', ''scopeMetrics'', ''metrics'')])
      in if parts = [] then ''no OTLP content'' else join_comma parts)"

section \<open>The request\<close>

text \<open>The bytes so far, the end of the header, and the pieces which are left.\<close>

fun ReadHeader :: "string list \<Rightarrow> string \<Rightarrow> (string \<times> nat \<times> string list) option" where
  "ReadHeader pieces Raw =
     (case find_from (CRLF @ CRLF) 0 Raw of
        Some HeaderEnd \<Rightarrow> Some (Raw, HeaderEnd, pieces)
      | None \<Rightarrow>
          if length Raw > SINK_MAX_HEADER_BYTES then None
          else (case pieces of [] \<Rightarrow> None | p # ps \<Rightarrow> if p = [] then None else ReadHeader ps (Raw @ p)))"

declare ReadHeader.simps [simp del]

fun ReadBody :: "nat \<Rightarrow> string list \<Rightarrow> string \<Rightarrow> string option" where
  "ReadBody Len pieces Body =
     (if length Body \<ge> Len then Some (take Len Body)
      else (case pieces of [] \<Rightarrow> None | p # ps \<Rightarrow> if p = [] then None else ReadBody Len ps (Body @ p)))"

declare ReadBody.simps [simp del]

type_synonym headers = "string \<rightharpoonup> string"

definition skip_blanks :: "string \<Rightarrow> string" where
  "skip_blanks s = dropWhile (\<lambda>c. c = CHR '' '' \<or> c = CHR 0x09) s"

text \<open>The lines of the header behind the request line. A later header replaces an earlier one.\<close>

function header_loop :: "string \<Rightarrow> nat \<Rightarrow> nat \<Rightarrow> headers \<Rightarrow> headers" where
  "header_loop Raw HeaderEnd Pos H =
     (if Pos < HeaderEnd then
        (case find_from CRLF Pos Raw of
           None \<Rightarrow> H
         | Some End \<Rightarrow>
             header_loop Raw HeaderEnd (End + 2)
               (case find_from '':'' Pos Raw of
                  None \<Rightarrow> H
                | Some Colon \<Rightarrow>
                    if Colon < End
                    then H(map to_lower (take (Colon - Pos) (drop Pos Raw)) \<mapsto> skip_blanks (take (End - Colon - 1) (drop (Colon + 1) Raw)))
                    else H))
      else H)"
  by pat_completeness auto
termination
  by (relation "measure (\<lambda>(r, e, p, h). e - p)") (auto dest: find_from_ge)

declare header_loop.simps [simp del]

text \<open>The method, the target and the headers; \<open>None\<close> for a bad request line.\<close>

definition parse_header :: "string \<Rightarrow> nat \<Rightarrow> (string \<times> string \<times> headers) option" where
  "parse_header Raw HeaderEnd =
     (case find_from CRLF 0 Raw of
        None \<Rightarrow> None
      | Some LineEnd \<Rightarrow>
          let Line = take LineEnd Raw
          in case find_index CHR '' '' Line of
               None \<Rightarrow> None
             | Some Sp1 \<Rightarrow>
                 (case find_index CHR '' '' (drop (Sp1 + 1) Line) of
                    None \<Rightarrow> None
                  | Some n \<Rightarrow> Some (take Sp1 Line, take n (drop (Sp1 + 1) Line), header_loop Raw HeaderEnd (LineEnd + 2) Map.empty)))"

definition target_path :: "string \<Rightarrow> string" where
  "target_path Target = takeWhile (\<lambda>c. c \<noteq> CHR ''?'') Target"

text \<open>What is wrong with a request, or its method, target, headers and body. A \<^verbatim>\<open>GET\<close> has no body.\<close>

definition http_request :: "string list \<Rightarrow> nat \<times> string + string \<times> string \<times> headers \<times> string" where
  "http_request pieces =
     (case ReadHeader pieces [] of
        None \<Rightarrow> Inl (400, error_body ''bad request'')
      | Some (Raw, HeaderEnd, ps) \<Rightarrow>
          (case parse_header Raw HeaderEnd of
             None \<Rightarrow> Inl (400, error_body ''bad request line'')
           | Some (Method, Target, H) \<Rightarrow>
               if Method = ''GET'' then Inr (Method, Target, H, [])
               else if Method \<noteq> ''POST'' then Inl (405, error_body ''method not allowed'')
               else if H ''transfer-encoding'' \<noteq> None \<or> H ''content-length'' = None then Inl (411, error_body ''content-length required'')
               else
                 let Len = fst (c_strtoul (c_str (the (H ''content-length''))))
                 in if Len > SINK_MAX_BODY_BYTES then Inl (413, error_body ''request too large'')
                    else (case ReadBody Len ps (drop (HeaderEnd + 4) Raw) of
                        None \<Rightarrow> Inl (400, error_body ''incomplete body'')
                      | Some Body \<Rightarrow> Inr (Method, Target, H, Body))))"

section \<open>A connection\<close>

text \<open>\<open>se_write\<close>: the file of this name can be written. \<open>se_avg\<close> and \<open>se_rank\<close> are the numbers which the ledger computes with \<^verbatim>\<open>double\<close>.\<close>

record sink_env =
  se_parse :: "string \<Rightarrow> json option"
  se_write_json :: "json \<Rightarrow> string"
  se_pretty :: "json \<Rightarrow> string"
  se_gunzip :: "string \<Rightarrow> string option"
  se_write :: "string \<Rightarrow> bool"
  se_now :: int
  se_time :: string
  se_millis :: nat
  se_rank :: "nat \<Rightarrow> nat \<Rightarrow> nat"
  se_avg :: "LatencyStats \<Rightarrow> int"
  se_bRaw :: bool

record sink =
  sk_Seq :: nat
  sk_Test :: ledger
  sk_Files :: "(string \<times> string) list"
  sk_Lines :: "string list"

definition PrintLine :: "string \<Rightarrow> sink \<Rightarrow> sink" where
  "PrintLine s k = k\<lparr>sk_Lines := sk_Lines k @ [s]\<rparr>"

definition RESET_USAGE :: string where
  "RESET_USAGE = ''{'' @ [CHR 0x22] @ ''error'' @ [CHR 0x22, CHR '':'', CHR 0x22] @ ''body must be {'' @ [CHR 0x5C, CHR 0x22] @ ''threads'' @ [CHR 0x5C, CHR 0x22] @
     '': n, '' @ [CHR 0x5C, CHR 0x22] @ ''events_per_thread'' @ [CHR 0x5C, CHR 0x22] @ '': n}'' @ [CHR 0x22] @ ''}''"

definition FAIL_USAGE :: string where
  "FAIL_USAGE = ''{'' @ [CHR 0x22] @ ''error'' @ [CHR 0x22, CHR '':'', CHR 0x22] @ ''body must be {'' @ [CHR 0x5C, CHR 0x22] @ ''status'' @ [CHR 0x5C, CHR 0x22] @
     '': 0 or 400 to 599}'' @ [CHR 0x22] @ ''}''"

definition HandleTestCommand :: "sink_env \<Rightarrow> string \<Rightarrow> string \<Rightarrow> sink \<Rightarrow> (nat \<times> string) \<times> sink" where
  "HandleTestCommand e Path Body k =
     (let Doc = (case se_parse e Body of None \<Rightarrow> JNull | Some d \<Rightarrow> d)
      in if Path = ''/test/reset'' then
           (case (Find ''threads'' Doc, Find ''events_per_thread'' Doc) of
              (Some t, Some p) \<Rightarrow>
                if IsUint64 t \<and> IsUint64 p then
                  (case (t, p) of
                     (JInt Threads, JInt PerThread) \<Rightarrow>
                       (case Ledger_Reset (se_now e) (nat Threads) (nat PerThread) (sk_Test k) of
                          Inl err \<Rightarrow> ((400, error_body err), k)
                        | Inr l \<Rightarrow>
                            ((200, ''{'' @ [CHR 0x22] @ ''status'' @ [CHR 0x22, CHR '':'', CHR 0x22] @ ''reset'' @ [CHR 0x22, CHR '','', CHR 0x22] @ ''expected'' @
                               [CHR 0x22, CHR '':''] @ dec_text (nat Threads * nat PerThread) @ ''}''),
                             PrintLine (''test reset: '' @ dec_text (nat Threads) @ '' threads x '' @ dec_text (nat PerThread) @ '' events'') (k\<lparr>sk_Test := l\<rparr>)))
                   | _ \<Rightarrow> ((400, RESET_USAGE), k))
                else ((400, RESET_USAGE), k)
            | _ \<Rightarrow> ((400, RESET_USAGE), k))
         else if Path = ''/test/fail'' then
           (case Find ''status'' Doc of
              Some (JInt s) \<Rightarrow>
                if s = 0 \<or> 400 \<le> s \<and> s \<le> 599 then
                  ((200, ''{'' @ [CHR 0x22] @ ''fail_status'' @ [CHR 0x22, CHR '':''] @ dec_text (nat s) @ ''}''),
                   PrintLine (''test fail status: '' @ dec_text (nat s)) (k\<lparr>sk_Test := SetFailStatus s (sk_Test k)\<rparr>))
                else ((400, FAIL_USAGE), k)
            | _ \<Rightarrow> ((400, FAIL_USAGE), k))
         else ((404, error_body ''unknown test command''), k))"

text \<open>The body after its encoding, and the note about it; \<open>None\<close> for a bad gzip stream.\<close>

definition decode_body :: "sink_env \<Rightarrow> headers \<Rightarrow> string \<Rightarrow> (string \<times> string) option" where
  "decode_body e H Body =
     (let Encoding = map to_lower (case H ''content-encoding'' of None \<Rightarrow> [] | Some v \<Rightarrow> v)
      in if Encoding = ''gzip'' then map_option (\<lambda>b. (b, '', was gzip'')) (se_gunzip e Body)
         else if Encoding \<noteq> [] \<and> Encoding \<noteq> ''identity'' then Some (Body, '', '' @ Encoding @ '' not decoded'')
         else Some (Body, []))"

definition store_request :: "sink_env \<Rightarrow> string \<Rightarrow> string \<Rightarrow> headers \<Rightarrow> string \<Rightarrow> string \<Rightarrow> json option \<Rightarrow> sink \<Rightarrow> (nat \<times> string) \<times> sink" where
  "store_request e Method Target H Body Note Doc k =
     (let Data = (case Doc of Some d \<Rightarrow> if se_bRaw e then Body else se_pretty e d @ [CHR 0x0A] | None \<Rightarrow> Body);
          k1 = k\<lparr>sk_Seq := sk_Seq k + 1\<rparr>;
          Name = BuildFileName (sk_Seq k1) (se_time e) (se_millis e) Target (if Doc \<noteq> None then ''json'' else ''bin'')
      in if \<not> se_write e Name then ((500, error_body ''cannot write file''), PrintLine (''       cannot write '' @ Name) k1)
         else
           let Auth = (if starts_with ''Bearer '' (case H ''authorization'' of None \<Rightarrow> [] | Some v \<Rightarrow> v) then ''Bearer set'' else ''none'')
           in ((200, ''{}''),
               PrintLine (''#'' @ pad_number 6 (sk_Seq k1) @ '' '' @ Method @ '' '' @ Target @ ''  '' @ (case Doc of Some d \<Rightarrow> Summarize d | None \<Rightarrow> ''not JSON'') @
                 '', '' @ dec_text (length Body) @ '' bytes'' @ Note @ ''  (auth: '' @ Auth @ '')  -> '' @ Name)
                 (k1\<lparr>sk_Files := sk_Files k1 @ [(Name, Data)]\<rparr>)))"

definition handle_otlp :: "sink_env \<Rightarrow> string \<Rightarrow> string \<Rightarrow> headers \<Rightarrow> string \<Rightarrow> sink \<Rightarrow> (nat \<times> string) \<times> sink" where
  "handle_otlp e Method Target H Body0 k =
     (if lg_FailStatus (sk_Test k) > 0
      then ((nat (lg_FailStatus (sk_Test k)), error_body ''simulated failure (test)''), k\<lparr>sk_Test := CountFailedRequest (sk_Test k)\<rparr>)
      else
        (case decode_body e H Body0 of
           None \<Rightarrow> ((400, error_body ''invalid gzip body''), k)
         | Some (Body, Note) \<Rightarrow>
             let Doc = (if Note = [] \<or> starts_with '', was gzip'' Note then se_parse e Body else None)
             in case Doc of
                  None \<Rightarrow> store_request e Method Target H Body Note None k
                | Some d \<Rightarrow>
                    (case ProcessOtlp d (se_now e) (sk_Test k) of
                       (Records, TestRecords, Summary, l) \<Rightarrow>
                         let k1 = k\<lparr>sk_Test := l\<rparr>
                         in if TestRecords > 0
                            then ((200, ''{}''), case Summary of None \<Rightarrow> k1 | Some s \<Rightarrow> PrintLine s k1)
                            else store_request e Method Target H Body Note Doc k1)))"

text \<open>The text of the answer.\<close>

definition HandleConnection :: "sink_env \<Rightarrow> string list \<Rightarrow> sink \<Rightarrow> string \<times> sink" where
  "HandleConnection e pieces k =
     (let reply = (\<lambda>((Status, Body), k'). (Reply Status Body, k'))
      in case http_request pieces of
           Inl (Status, Body) \<Rightarrow> (Reply Status Body, k)
         | Inr (Method, Target, H, Body) \<Rightarrow>
             if Method = ''GET'' then
               (if target_path Target = ''/test/stats''
                then (Reply 200 (se_write_json e (StatsJson (se_rank e) (se_avg e) (sk_Test k))), k)
                else (Reply 200 (json_pair ''status'' ''otel-sink''), k))
             else if starts_with ''/test/'' Target then reply (HandleTestCommand e (target_path Target) Body k)
             else reply (handle_otlp e Method Target H Body k))"

section \<open>The start\<close>

text \<open>The highest number of the files of earlier runs.\<close>

definition file_number :: "string \<Rightarrow> nat" where
  "file_number Name =
     (if length Name > 7 \<and> Name ! 6 = CHR ''_'' \<and> is_digit (hd Name) then fst (c_strtoul (take 6 Name)) else 0)"

definition LastSequence :: "string list \<Rightarrow> nat" where
  "LastSequence Names = fold (\<lambda>Name Last. max Last (file_number Name)) Names 0"

record sink_config =
  sg_Socket :: string
  sg_Dir :: string
  sg_bRaw :: bool

datatype sink_args = SinkHelp | SinkUnknown string | SinkRun sink_config

fun Sink_ParseArgs :: "string list \<Rightarrow> sink_config \<Rightarrow> sink_args" where
  "Sink_ParseArgs [] c = SinkRun c"
| "Sink_ParseArgs (a # as) c =
     (if a = ''--help'' \<or> a = ''-h'' then SinkHelp
      else if a = ''--raw'' then Sink_ParseArgs as (c\<lparr>sg_bRaw := True\<rparr>)
      else if a = ''--socket'' \<or> a = ''--dir'' then
        (case as of
           [] \<Rightarrow> SinkUnknown a
         | v # vs \<Rightarrow> Sink_ParseArgs vs (if a = ''--socket'' then c\<lparr>sg_Socket := v\<rparr> else c\<lparr>sg_Dir := v\<rparr>))
      else SinkUnknown a)"

text \<open>\<open>lstat\<close>: there is something at the path, and whether it is a socket. \<open>connected\<close>: a probe could connect. \<open>err\<close> is the text of errno. The
  result is a message, or whether a stale file was removed before the bind.\<close>

definition Sink_CreateListener :: "string \<Rightarrow> string \<Rightarrow> bool option \<Rightarrow> bool \<Rightarrow> bool \<Rightarrow> bool \<Rightarrow> string + bool" where
  "Sink_CreateListener err Path lstat connected socket_ok listen_ok =
     (if length Path \<ge> 108 then Inl ''otel-sink: socket path is too long''
      else case lstat of
        Some False \<Rightarrow> Inl (''otel-sink: '' @ Path @ '' exists and is not a socket'')
      | Some True \<Rightarrow>
          if connected then Inl (''otel-sink: '' @ Path @ '' is in use by another process'')
          else if \<not> socket_ok then Inl [] else if \<not> listen_ok then Inl (''otel-sink: cannot listen on '' @ Path @ '': '' @ err) else Inr True
      | None \<Rightarrow> if \<not> socket_ok then Inl [] else if \<not> listen_ok then Inl (''otel-sink: cannot listen on '' @ Path @ '': '' @ err) else Inr False)"

end
