(* ===== verification/LoadTest.thy ===== *)
theory LoadTest imports Sink begin

text \<open>
  The load test (\<^verbatim>\<open>nginx/loadtest.cpp\<close>): its HTTP client, the sender threads, the metrics file of otelfwd which it reads, and the verdict. The
  counters of the metrics are whole numbers; the rate, the clocks and the report for people are not modelled.
\<close>

section \<open>The HTTP client\<close>

record endpoint =
  ep_Host :: string
  ep_Port :: string

definition ParseUrl :: "string \<Rightarrow> endpoint option" where
  "ParseUrl Url =
     (if \<not> starts_with ''http://'' Url then None
      else
        let Rest = takeWhile (\<lambda>c. c \<noteq> CHR ''/'') (drop 7 Url);
            e = (case find_last CHR '':'' Rest of
                   Some Colon \<Rightarrow> \<lparr>ep_Host = take Colon Rest, ep_Port = drop (Colon + 1) Rest\<rparr>
                 | None \<Rightarrow> \<lparr>ep_Host = Rest, ep_Port = ''80''\<rparr>)
        in if ep_Host e = [] then None else Some e)"

definition request_lines :: "endpoint \<Rightarrow> string \<Rightarrow> string \<Rightarrow> string \<Rightarrow> string \<Rightarrow> string list" where
  "request_lines t Method Path Body Token =
     [Method @ '' '' @ Path @ '' HTTP/1.1'', ''Host: '' @ ep_Host t @ '':'' @ ep_Port t, ''User-Agent: otelfwd-loadtest'', ''Accept: */*''] @
     (if Token \<noteq> [] then [''Authorization: Bearer '' @ Token] else []) @
     (if Method = ''POST'' then [''Content-Type: application/json'', ''Content-Length: '' @ dec_text (length Body)] else [])"

definition request_text :: "endpoint \<Rightarrow> string \<Rightarrow> string \<Rightarrow> string \<Rightarrow> string \<Rightarrow> string" where
  "request_text t Method Path Body Token = concat (map (\<lambda>l. l @ CRLF) (request_lines t Method Path Body Token)) @ CRLF @ Body"

text \<open>One \<^verbatim>\<open>recv\<close>: the pieces which are left and the buffer. An empty piece or the end of the list is a failure.\<close>

fun read_head :: "string list \<Rightarrow> string \<Rightarrow> (string \<times> string \<times> string list) option" where
  "read_head pieces Buffer =
     (case find_from (CRLF @ CRLF) 0 Buffer of
        Some HeaderEnd \<Rightarrow> Some (take HeaderEnd Buffer, drop (HeaderEnd + 4) Buffer, pieces)
      | None \<Rightarrow> (case pieces of [] \<Rightarrow> None | p # ps \<Rightarrow> if p = [] then None else read_head ps (Buffer @ p)))"

declare read_head.simps [simp del]

fun read_length :: "nat \<Rightarrow> string list \<Rightarrow> string \<Rightarrow> (string \<times> string list) option" where
  "read_length n pieces Buffer =
     (if length Buffer \<ge> n then Some (Buffer, pieces)
      else (case pieces of [] \<Rightarrow> None | p # ps \<Rightarrow> if p = [] then None else read_length n ps (Buffer @ p)))"

declare read_length.simps [simp del]

fun read_all :: "string list \<Rightarrow> string \<Rightarrow> string" where
  "read_all [] Buffer = Buffer"
| "read_all (p # ps) Buffer = (if p = [] then Buffer else read_all ps (Buffer @ p))"

text \<open>The status, the body, whether the connection is closed, and what is left in the buffer. \<open>None\<close>: the connection is closed without an answer.\<close>

definition read_answer :: "string list \<Rightarrow> string \<Rightarrow> (int \<times> string \<times> bool \<times> string) option" where
  "read_answer pieces Buffer0 =
     (case read_head pieces Buffer0 of
        None \<Rightarrow> None
      | Some (Head, Buffer, ps) \<Rightarrow>
          if length Head < 12 \<or> \<not> starts_with ''HTTP/'' Head then None
          else
            let Status = fst (c_strtol (c_str (drop 9 Head)));
                Lower = map to_lower Head;
                Len = (case find_from (CRLF @ ''content-length:'') 0 Lower of
                    None \<Rightarrow> None | Some Pos \<Rightarrow> Some (fst (c_strtoul (c_str (drop (Pos + 17) Lower)))));
                ServerCloses = (find_from (CRLF @ ''connection: close'') 0 Lower \<noteq> None \<or> starts_with ''http/1.0'' Lower)
            in if find_from (CRLF @ ''transfer-encoding:'') 0 Lower \<noteq> None then None
               else case Len of
                   None \<Rightarrow> Some (Status, read_all ps Buffer, True, [])
                 | Some n \<Rightarrow>
                     (case read_length n ps Buffer of
                        None \<Rightarrow> None
                      | Some (B, ps') \<Rightarrow> Some (Status, take n B, ServerCloses, if ServerCloses then [] else drop n B)))"

section \<open>The sender threads\<close>

datatype sent_outcome = NoConnection | NoAnswer | Answered int

record thread_result =
  tr_Sent :: nat
  tr_Failed :: nat
  tr_BadStatus :: nat

definition send_one :: "sent_outcome \<Rightarrow> thread_result \<Rightarrow> thread_result" where
  "send_one outcome r =
     (case outcome of
        NoConnection \<Rightarrow> r\<lparr>tr_Failed := tr_Failed r + 1\<rparr>
      | NoAnswer \<Rightarrow> r\<lparr>tr_Failed := tr_Failed r + 1\<rparr>
      | Answered Status \<Rightarrow> r\<lparr>tr_Sent := tr_Sent r + 1, tr_BadStatus := (if Status \<noteq> 404 then tr_BadStatus r + 1 else tr_BadStatus r)\<rparr>)"

text \<open>One request for each count, none twice. The path has the time right before it is sent.\<close>

definition test_path :: "nat \<Rightarrow> nat \<Rightarrow> nat \<Rightarrow> string" where
  "test_path ThreadId Count SentNs = TEST_PREFIX @ dec_text ThreadId @ ''/'' @ dec_text Count @ ''/'' @ dec_text SentNs"

definition SenderThread :: "sent_outcome list \<Rightarrow> thread_result" where
  "SenderThread outcomes = fold send_one outcomes \<lparr>tr_Sent = 0, tr_Failed = 0, tr_BadStatus = 0\<rparr>"

definition sum_results :: "thread_result list \<Rightarrow> thread_result" where
  "sum_results rs = \<lparr>tr_Sent = sum_list (map tr_Sent rs), tr_Failed = sum_list (map tr_Failed rs), tr_BadStatus = sum_list (map tr_BadStatus rs)\<rparr>"

section \<open>The metrics of otelfwd\<close>

text \<open>The values of the file by their names without the instance label, the last of a name; \<open>atof\<close> reads a number.\<close>

type_synonym prom_values = "string \<rightharpoonup> int"

definition prom_line :: "(string \<Rightarrow> int) \<Rightarrow> string \<Rightarrow> prom_values \<Rightarrow> prom_values" where
  "prom_line atof Line vs =
     (case find_last CHR '' '' Line of
        None \<Rightarrow> vs
      | Some Space \<Rightarrow>
          if hd Line = CHR ''#'' then vs
          else vs(PromRemoveLabel (take Space Line) ''otelfwd_instance'' \<mapsto> atof (c_str (drop (Space + 1) Line))))"

definition prom_value :: "prom_values \<Rightarrow> string \<Rightarrow> int" where
  "prom_value vs name = (case vs name of None \<Rightarrow> 0 | Some v \<Rightarrow> v)"

text \<open>\<open>None\<close>: the file cannot be read, or it has no time of its last update.\<close>

definition ReadProm :: "(string \<Rightarrow> int) \<Rightarrow> string list option \<Rightarrow> (prom_values \<times> int) option" where
  "ReadProm atof lines =
     (case lines of
        None \<Rightarrow> None
      | Some ls \<Rightarrow>
          let vs = fold (prom_line atof) ls Map.empty; LastUpdate = prom_value vs ''otelfwd_lastupdate_timestamp_seconds''
          in if LastUpdate > 0 then Some (vs, LastUpdate) else None)"

text \<open>The file is read every half second; \<open>files\<close> are its lines at these times.\<close>

definition ReadFreshProm :: "(string \<Rightarrow> int) \<Rightarrow> (nat \<Rightarrow> string list option) \<Rightarrow> int \<Rightarrow> nat \<Rightarrow> prom_values option" where
  "ReadFreshProm atof files After MaxSec =
     (case filter (\<lambda>r. case r of None \<Rightarrow> False | Some (vs, LastUpdate) \<Rightarrow> LastUpdate \<ge> After) (map (\<lambda>i. ReadProm atof (files i)) [0..<MaxSec * 2]) of
        Some (vs, u) # _ \<Rightarrow> Some vs
      | _ \<Rightarrow> None)"

section \<open>The verdict\<close>

definition GetU64 :: "json \<Rightarrow> string \<Rightarrow> nat" where
  "GetU64 Obj name = (case Find name Obj of Some (JInt n) \<Rightarrow> if 0 \<le> n \<and> n < 2 ^ 64 then nat n else 0 | _ \<Rightarrow> 0)"

definition GetI64 :: "json \<Rightarrow> string \<Rightarrow> int" where
  "GetI64 Obj name = (case Find name Obj of Some (JInt n) \<Rightarrow> if - (2 ^ 63) \<le> n \<and> n < 2 ^ 63 then n else 0 | _ \<Rightarrow> 0)"

record load_config =
  lc_bExpectFailover :: bool
  lc_bExpectReject :: bool

definition endpoint_metric :: "string \<Rightarrow> string \<Rightarrow> string" where
  "endpoint_metric endpoint result = ''otelfwd_push_endpoint_requests_total{endpoint='' @ [CHR 0x22] @ endpoint @ [CHR 0x22] @ '',result='' @
     [CHR 0x22] @ result @ [CHR 0x22] @ ''}''"

definition result_metric :: "string \<Rightarrow> string \<Rightarrow> string" where
  "result_metric name result = name @ ''{result='' @ [CHR 0x22] @ result @ [CHR 0x22] @ ''}''"

text \<open>The reasons out of the metrics before and after the test; \<open>None\<close>: they could not be read.\<close>

definition prom_reasons :: "load_config \<Rightarrow> (prom_values \<times> prom_values) option \<Rightarrow> string list" where
  "prom_reasons c prom =
     (case prom of
        None \<Rightarrow>
          if lc_bExpectFailover c \<or> lc_bExpectReject c
          then [''the metrics file of otelfwd could not be read: the expectation of --expect-failover or --expect-reject cannot be checked''] else []
      | Some (Before, After) \<Rightarrow>
          let Delta = (\<lambda>n. prom_value After n - prom_value Before n);
              bEndpoints = (After ''otelfwd_push_endpoint_active'' \<noteq> None);
              Rejected = Delta ''otelfwd_push_rejected_total''; Failovers = Delta ''otelfwd_push_failovers_total'';
              PushOk = Delta (result_metric ''otelfwd_push_total'' ''success''); PushErr = Delta (result_metric ''otelfwd_push_total'' ''error'');
              RetryOk = Delta (result_metric ''otelfwd_push_retry_total'' ''success''); RetryErr = Delta (result_metric ''otelfwd_push_retry_total'' ''error'');
              BackupOk = Delta (endpoint_metric ''backup'' ''accepted''); BackupRet = Delta (endpoint_metric ''backup'' ''retry'');
              BackupRej = Delta (endpoint_metric ''backup'' ''rejected'')
          in (if lc_bExpectFailover c then
                (if \<not> bEndpoints then [''otelfwd writes no endpoint metrics: it has no backup endpoint (--expect-failover)'']
                 else (if Failovers < 1 then [''otelfwd made no failover to the backup endpoint (--expect-failover)''] else []) @
                      (if BackupOk < 1 then [''the backup endpoint accepted no request (--expect-failover)''] else [])) else []) @
             (if lc_bExpectReject c then
                (if Rejected < 1 then [''the primary endpoint refused nothing: otelfwd_push_rejected_total did not grow (--expect-reject)''] else []) @
                (if PushOk > 0 then [dec_text (nat PushOk) @ '' lines were pushed although the data is refused (--expect-reject)''] else []) @
                (if PushErr > 0 \<or> RetryOk > 0 \<or> RetryErr > 0 then [''refused data was kept for a retry in the WAL (--expect-reject)''] else []) @
                (if bEndpoints \<and> (Failovers > 0 \<or> BackupOk + BackupRet + BackupRej > 0)
                 then [''refused data was sent to the backup endpoint (--expect-reject)''] else []) else []))"

definition Reasons :: "load_config \<Rightarrow> (prom_values \<times> prom_values) option \<Rightarrow> bool \<Rightarrow> json \<Rightarrow> thread_result \<Rightarrow> string list" where
  "Reasons c prom Aborted Stats Results =
     (let Missing = GetU64 Stats ''missing''; Unique = GetU64 Stats ''unique''; Unexpected = GetU64 Stats ''unexpected'';
          Malformed = GetU64 Stats ''malformed''; Conflicts = GetU64 Stats ''timestamp_conflicts''
      in prom_reasons c prom @
         (if Aborted then [''the test was aborted''] else []) @
         (if Missing > 0 \<and> \<not> lc_bExpectReject c then [dec_text Missing @ '' events missing''] else []) @
         (if lc_bExpectReject c \<and> Unique > 0 then [dec_text Unique @
            '' events arrived at the sink although the primary endpoint refuses them: refused data must not be sent to the backup (--expect-reject)''] else []) @
         (if Unexpected > 0 then [dec_text Unexpected @ '' unexpected events''] else []) @
         (if Malformed > 0 then [dec_text Malformed @ '' malformed test paths''] else []) @
         (if Conflicts > 0 then [dec_text Conflicts @ '' events with conflicting time stamps (records of an earlier run in the WAL?)''] else []) @
         (if tr_Failed Results > 0 then [dec_text (tr_Failed Results) @ '' requests without an answer''] else []) @
         (if tr_BadStatus Results > 0 then [dec_text (tr_BadStatus Results) @
            '' requests not answered with 404 (is the /otelfwd-test/ location in the NGINX configuration?)''] else []))"

text \<open>The exit code: 0 is a pass.\<close>

definition verdict :: "load_config \<Rightarrow> (prom_values \<times> prom_values) option \<Rightarrow> bool \<Rightarrow> json \<Rightarrow> thread_result \<Rightarrow> nat" where
  "verdict c prom Aborted Stats Results = (if Reasons c prom Aborted Stats Results = [] then 0 else 1)"

end
