(* ===== verification/LedgerTheorems.thy ===== *)
theory LedgerTheorems imports Ledger begin

text \<open>
  The ledger of the load test is exact: after any requests its counters are those of the events which were in them. A percentile of its
  histogram is close to the value of that rank.
\<close>

section \<open>The slots of the events\<close>

type_synonym event_key = "nat \<times> nat"

definition event_key :: "parsed \<Rightarrow> event_key" where
  "event_key p = (pa_Thread p, pa_Count p)"

abbreviation test_range :: "nat \<Rightarrow> nat \<Rightarrow> event_key set" where
  "test_range T P \<equiv> {1..T} \<times> {1..P}"

definition key_index :: "nat \<Rightarrow> event_key \<Rightarrow> nat" where
  "key_index P k = (fst k - 1) * P + (snd k - 1)"

lemma key_index_less: "k \<in> test_range T P \<Longrightarrow> key_index P k < T * P"
proof -
  assume k: "k \<in> test_range T P"
  then have "key_index P k < (fst k - 1) * P + P"
    by (auto simp: key_index_def)
  also have "(fst k - 1) * P + P = fst k * P"
    using k by (cases "fst k") auto
  also have "\<dots> \<le> T * P"
    using k by (simp add: mem_Times_iff)
  finally show ?thesis .
qed

lemma key_index_inj: "k \<in> test_range T P \<Longrightarrow> k' \<in> test_range T P \<Longrightarrow> key_index P k = key_index P k' \<longleftrightarrow> k = k'"
proof -
  assume k: "k \<in> test_range T P" "k' \<in> test_range T P"
  have *: "key_index P x div P = fst x - 1 \<and> key_index P x mod P = snd x - 1" if "x \<in> test_range T P" for x
  proof -
    from that have "snd x - 1 < P"
      by auto
    then show ?thesis
      by (simp add: key_index_def)
  qed
  show ?thesis
    using *[OF k(1)] *[OF k(2)] k by (auto simp: prod_eq_iff)
qed

lemma in_range_key: "lg_Threads l = T \<Longrightarrow> lg_PerThread l = P \<Longrightarrow> in_range l p \<longleftrightarrow> event_key p \<in> test_range T P"
  by (auto simp: in_range_def event_key_def)

lemma slot_index_key: "lg_PerThread l = P \<Longrightarrow> slot_index l p = key_index P (event_key p)"
  by (simp add: slot_index_def key_index_def event_key_def)

section \<open>The meaning of the counters\<close>

text \<open>The deliveries of an event whose time of sending is not that of its first delivery.\<close>

definition first_with :: "event_key \<Rightarrow> parsed list \<Rightarrow> parsed option" where
  "first_with k D = find (\<lambda>p. event_key p = k) D"

fun conflicts :: "parsed list \<Rightarrow> parsed list \<Rightarrow> nat" where
  "conflicts D [] = 0"
| "conflicts D (p # ps) =
     (case first_with (event_key p) D of Some q \<Rightarrow> if pa_SentNs q \<noteq> pa_SentNs p then 1 else 0 | None \<Rightarrow> 0) + conflicts (D @ [p]) ps"

lemma conflicts_append: "conflicts D (ps @ qs) = conflicts D ps + conflicts (D @ ps) qs"
  by (induction D ps rule: conflicts.induct) simp_all

lemma find_append: "find Q (xs @ ys) = (case find Q xs of None \<Rightarrow> find Q ys | Some x \<Rightarrow> Some x)"
  by (induction xs) auto

lemma first_with_append: "first_with k (D @ [p]) = (case first_with k D of None \<Rightarrow> if event_key p = k then Some p else None | Some q \<Rightarrow> Some q)"
  by (simp add: first_with_def find_append split: option.split)

lemma first_with_None: "first_with k D = None \<longleftrightarrow> k \<notin> event_key ` set D"
  by (auto simp: first_with_def find_None_iff)

definition deliveries_of :: "event_key \<Rightarrow> parsed list \<Rightarrow> nat" where
  "deliveries_of k D = length (filter (\<lambda>p. event_key p = k) D)"

lemma deliveries_of_0: "deliveries_of k D = 0 \<longleftrightarrow> k \<notin> event_key ` set D"
  by (auto simp: deliveries_of_def filter_empty_conv)

lemma deliveries_of_append: "deliveries_of k (D @ [p]) = deliveries_of k D + (if event_key p = k then 1 else 0)"
  by (simp add: deliveries_of_def)

lemma deliveries_of_le: "deliveries_of k D \<le> length D"
  by (simp add: deliveries_of_def)

text \<open>A slot for the deliveries \<open>D\<close> and the reports \<open>R\<close>.\<close>

definition slot_exact :: "parsed list \<Rightarrow> event_key set \<Rightarrow> event_key \<Rightarrow> slot \<Rightarrow> bool" where
  "slot_exact D R k S \<longleftrightarrow> sl_Received S = deliveries_of k D \<and> (sl_Reported S \<longleftrightarrow> k \<in> R) \<and>
     (case first_with k D of None \<Rightarrow> True | Some q \<Rightarrow> sl_SentNs S = pa_SentNs q)"

definition slots_exact :: "nat \<Rightarrow> nat \<Rightarrow> parsed list \<Rightarrow> event_key set \<Rightarrow> slot list \<Rightarrow> bool" where
  "slots_exact T P D R Ss \<longleftrightarrow> length Ss = T * P \<and> (\<forall>k \<in> test_range T P. slot_exact D R k (Ss ! key_index P k))"

lemma slots_exact_slot: "slots_exact T P D R Ss \<Longrightarrow> k \<in> test_range T P \<Longrightarrow> slot_exact D R k (Ss ! key_index P k)"
  unfolding slots_exact_def by (erule conjE) (erule bspec)

lemma slots_exact_update:
  assumes "slots_exact T P D R Ss" and "k \<in> test_range T P" and "slot_exact D' R' k S"
    and "\<And>k' S'. k' \<noteq> k \<Longrightarrow> slot_exact D R k' S' \<Longrightarrow> slot_exact D' R' k' S'"
  shows "slots_exact T P D' R' (Ss[key_index P k := S])"
  unfolding slots_exact_def
proof (intro conjI ballI)
  show "length (Ss[key_index P k := S]) = T * P"
    using assms(1) by (simp add: slots_exact_def)
next
  fix k' assume k': "k' \<in> test_range T P"
  show "slot_exact D' R' k' (Ss[key_index P k := S] ! key_index P k')"
  proof (cases "k' = k")
    case True
    then show ?thesis
      using assms(1,3) key_index_less [OF assms(2)] by (simp add: slots_exact_def)
  next
    case False
    then have "key_index P k' \<noteq> key_index P k"
      using key_index_inj [OF k' assms(2)] by simp
    then have "Ss[key_index P k := S] ! key_index P k' = Ss ! key_index P k'"
      by simp
    moreover have "slot_exact D R k' (Ss ! key_index P k')"
      by (rule slots_exact_slot [OF assms(1) k'])
    ultimately show ?thesis
      using assms(4) [OF False] by simp
  qed
qed

text \<open>The numbers for each thread.\<close>

definition threads_exact :: "nat \<Rightarrow> (nat \<Rightarrow> nat) \<Rightarrow> nat list \<Rightarrow> bool" where
  "threads_exact T f xs \<longleftrightarrow> length xs = T \<and> (\<forall>t < T. xs ! t = f (t + 1))"

lemma threads_exact_count:
  assumes "threads_exact T f xs" and "1 \<le> t" "t \<le> T" and "\<And>u. g u = (if u = t then f u + 1 else f u)"
  shows "threads_exact T g (count_in (t - 1) xs)"
  using assms(1-3) unfolding threads_exact_def count_in_def by (auto simp: assms(4) nth_list_update)

definition thread_deliveries :: "parsed list \<Rightarrow> nat \<Rightarrow> nat" where
  "thread_deliveries D t = length (filter (\<lambda>p. pa_Thread p = t) D)"

definition thread_unique :: "parsed list \<Rightarrow> nat \<Rightarrow> nat" where
  "thread_unique D t = card {k \<in> event_key ` set D. fst k = t}"

lemma thread_unique_append:
  "thread_unique (D @ [p]) t = (if t = pa_Thread p \<and> event_key p \<notin> event_key ` set D then thread_unique D t + 1 else thread_unique D t)"
proof -
  have "{k \<in> event_key ` set (D @ [p]). fst k = t} =
      (if t = pa_Thread p then insert (event_key p) {k \<in> event_key ` set D. fst k = t} else {k \<in> event_key ` set D. fst k = t})"
    by (auto simp: event_key_def)
  moreover have "finite {k \<in> event_key ` set D. fst k = t}"
    by simp
  ultimately show ?thesis
    by (simp add: thread_unique_def card_insert_if event_key_def)
qed

definition ledger_exact :: "nat \<Rightarrow> nat \<Rightarrow> parsed list \<Rightarrow> event_key set \<Rightarrow> ledger \<Rightarrow> bool" where
  "ledger_exact T P D R l \<longleftrightarrow> lg_bActive l \<and> lg_Threads l = T \<and> lg_PerThread l = P \<and>
     event_key ` set D \<subseteq> test_range T P \<and> R \<subseteq> test_range T P \<and> slots_exact T P D R (lg_Slots l) \<and>
     threads_exact T (thread_unique D) (lg_UniquePerThread l) \<and> threads_exact T (thread_deliveries D) (lg_DeliveriesPerThread l) \<and>
     lg_Unique l = card (event_key ` set D) \<and> lg_Deliveries l = length D \<and> lg_Conflicts l = conflicts [] D \<and>
     lg_ReportedLost l = card R \<and> lg_ReportedMissing l = card (R - event_key ` set D)"

lemma ledger_exactI:
  assumes "lg_bActive l" "lg_Threads l = T" "lg_PerThread l = P" "event_key ` set D \<subseteq> test_range T P" "R \<subseteq> test_range T P"
    "slots_exact T P D R (lg_Slots l)" "threads_exact T (thread_unique D) (lg_UniquePerThread l)"
    "threads_exact T (thread_deliveries D) (lg_DeliveriesPerThread l)" "lg_Unique l = card (event_key ` set D)" "lg_Deliveries l = length D"
    "lg_Conflicts l = conflicts [] D" "lg_ReportedLost l = card R" "lg_ReportedMissing l = card (R - event_key ` set D)"
  shows "ledger_exact T P D R l"
  using assms by (simp add: ledger_exact_def)

section \<open>Every step keeps them\<close>

lemma add_latency_same [simp]:
  "lg_Slots (add_latency a p l) = lg_Slots l" "lg_bActive (add_latency a p l) = lg_bActive l" "lg_Threads (add_latency a p l) = lg_Threads l"
  "lg_PerThread (add_latency a p l) = lg_PerThread l" "lg_UniquePerThread (add_latency a p l) = lg_UniquePerThread l"
  "lg_DeliveriesPerThread (add_latency a p l) = lg_DeliveriesPerThread l" "lg_Unique (add_latency a p l) = lg_Unique l"
  "lg_Deliveries (add_latency a p l) = lg_Deliveries l" "lg_Conflicts (add_latency a p l) = lg_Conflicts l"
  "lg_ReportedLost (add_latency a p l) = lg_ReportedLost l" "lg_ReportedMissing (add_latency a p l) = lg_ReportedMissing l"
  "lg_Unexpected (add_latency a p l) = lg_Unexpected l" "lg_Malformed (add_latency a p l) = lg_Malformed l"
  by (simp_all add: add_latency_def Let_def)

lemma card_minus_insert: "finite R \<Longrightarrow> card (R - insert k A) = (if k \<in> R \<and> k \<notin> A then card (R - A) - 1 else card (R - A))"
proof -
  assume "finite R"
  have "R - insert k A = (R - A) - {k}"
    by auto
  then show ?thesis
    using \<open>finite R\<close> by (auto simp: card_Diff_singleton)
qed

lemma add_event_exact:
  assumes I: "ledger_exact T P D R l" and "length D < 2 ^ 32 - 1"
  shows "if event_key p \<in> test_range T P
    then ledger_exact T P (D @ [p]) R (add_event a p l) \<and> lg_Unexpected (add_event a p l) = lg_Unexpected l
    else ledger_exact T P D R (add_event a p l) \<and> lg_Unexpected (add_event a p l) = lg_Unexpected l + 1"
proof (cases "event_key p \<in> test_range T P")
  case False
  then show ?thesis
    using I by (simp add: add_event_def in_range_key ledger_exact_def)
next
  case k: True
  define k where "k = event_key p"
  define S where "S = lg_Slots l ! key_index P k"
  have t: "pa_Thread p = fst k" and tr: "1 \<le> fst k" "fst k \<le> T"
    using k by (auto simp: k_def event_key_def)
  have act: "lg_bActive l" "lg_Threads l = T" "lg_PerThread l = P" and fin: "finite R"
    using I finite_subset [of R "test_range T P"] by (auto simp: ledger_exact_def)
  have sl: "slots_exact T P D R (lg_Slots l)"
    using I by (simp add: ledger_exact_def)
  then have S: "slot_exact D R k S"
    unfolding S_def k_def by (rule slots_exact_slot [OF _ k])
  have step: "\<not> (\<not> lg_bActive l \<or> \<not> in_range l p)" "slot_index l p = key_index P k"
    using act k by (simp_all add: in_range_key slot_index_key k_def)
  have other: "slot_exact (D @ [p]) R k' S'" if "k' \<noteq> k" "slot_exact D R k' S'" for k' S'
    using that by (auto simp: slot_exact_def deliveries_of_append first_with_append k_def split: option.splits)
  have td: "threads_exact T (thread_deliveries (D @ [p])) (count_in (pa_Thread p - 1) (lg_DeliveriesPerThread l))"
    using I tr unfolding t ledger_exact_def by (intro threads_exact_count [of T "thread_deliveries D"]) (auto simp: thread_deliveries_def t)
  have sub: "event_key ` set (D @ [p]) \<subseteq> test_range T P"
    using I k by (simp add: ledger_exact_def)
  have c: "conflicts [] (D @ [p]) = conflicts [] D +
      (case first_with k D of Some q \<Rightarrow> if pa_SentNs q \<noteq> pa_SentNs p then 1 else 0 | None \<Rightarrow> 0)"
    by (simp add: conflicts_append k_def)
  show ?thesis
  proof (cases "sl_Received S = 0")
    case True
    then have new: "k \<notin> event_key ` set D"
      using S by (simp add: slot_exact_def deliveries_of_0)
    define l' where "l' = add_event a p l"
    have l': "lg_Slots l' = (lg_Slots l)[key_index P k := S\<lparr>sl_SentNs := pa_SentNs p, sl_FirstNs := a, sl_LastNs := a, sl_EventNs := pa_EventNs p, sl_Received := 1\<rparr>]"
      "lg_bActive l'" "lg_Threads l' = T" "lg_PerThread l' = P" "lg_UniquePerThread l' = count_in (pa_Thread p - 1) (lg_UniquePerThread l)"
      "lg_DeliveriesPerThread l' = count_in (pa_Thread p - 1) (lg_DeliveriesPerThread l)" "lg_Unique l' = lg_Unique l + 1"
      "lg_Deliveries l' = lg_Deliveries l + 1" "lg_Conflicts l' = lg_Conflicts l" "lg_ReportedLost l' = lg_ReportedLost l"
      "lg_ReportedMissing l' = (if sl_Reported S \<and> lg_ReportedMissing l > 0 then lg_ReportedMissing l - 1 else lg_ReportedMissing l)"
      "lg_Unexpected l' = lg_Unexpected l"
      using True step act unfolding l'_def add_event_def S_def by (simp_all add: Let_def)
    have "slot_exact (D @ [p]) R k (S\<lparr>sl_SentNs := pa_SentNs p, sl_FirstNs := a, sl_LastNs := a, sl_EventNs := pa_EventNs p, sl_Received := 1\<rparr>)"
      using S new by (simp add: slot_exact_def deliveries_of_append first_with_append k_def [symmetric] True deliveries_of_0 [THEN iffD2] first_with_None [THEN iffD2])
    then have "slots_exact T P (D @ [p]) R (lg_Slots l')"
      unfolding l'(1) using k k_def by (intro slots_exact_update [OF sl _ _ other]) simp_all
    moreover have "threads_exact T (thread_unique (D @ [p])) (lg_UniquePerThread l')"
      using I tr new unfolding l'(5) t ledger_exact_def
      by (intro threads_exact_count [of T "thread_unique D"]) (auto simp: thread_unique_append t k_def)
    moreover have "card (event_key ` set (D @ [p])) = card (event_key ` set D) + 1"
      using new by (simp add: k_def)
    moreover have "lg_ReportedMissing l' = card (R - event_key ` set (D @ [p]))"
    proof -
      have "k \<in> R \<Longrightarrow> card (R - event_key ` set D) > 0"
        using new fin by (auto simp: card_gt_0_iff)
      then show ?thesis
        using I S new fin unfolding l'(11) by (auto simp: ledger_exact_def slot_exact_def card_minus_insert k_def)
    qed
    moreover have "first_with k D = None"
      using new by (simp add: first_with_None)
    ultimately have "ledger_exact T P (D @ [p]) R l'"
      using I sub td c l' by (intro ledger_exactI) (simp_all add: ledger_exact_def)
    then show ?thesis
      using k l'(12) by (simp add: l'_def)
  next
    case False
    then have old: "k \<in> event_key ` set D"
      using S deliveries_of_0 [of k D] by (simp add: slot_exact_def)
    then obtain q where q: "first_with k D = Some q"
      using first_with_None [of k D] by (cases "first_with k D") auto
    define l' where "l' = add_event a p l"
    have l': "lg_Slots l' = (lg_Slots l)[key_index P k := S\<lparr>sl_LastNs := a, sl_Received := (sl_Received S + 1) mod 2 ^ 32\<rparr>]"
      "lg_bActive l'" "lg_Threads l' = T" "lg_PerThread l' = P" "lg_UniquePerThread l' = lg_UniquePerThread l"
      "lg_DeliveriesPerThread l' = count_in (pa_Thread p - 1) (lg_DeliveriesPerThread l)" "lg_Unique l' = lg_Unique l"
      "lg_Deliveries l' = lg_Deliveries l + 1" "lg_Conflicts l' = (if sl_SentNs S \<noteq> pa_SentNs p then lg_Conflicts l + 1 else lg_Conflicts l)"
      "lg_ReportedLost l' = lg_ReportedLost l" "lg_ReportedMissing l' = lg_ReportedMissing l" "lg_Unexpected l' = lg_Unexpected l"
      using False step act unfolding l'_def add_event_def S_def by (simp_all add: Let_def)
    have "sl_Received S + 1 < 2 ^ 32"
      using S deliveries_of_le [of k D] assms(2) by (simp add: slot_exact_def)
    then have "slot_exact (D @ [p]) R k (S\<lparr>sl_LastNs := a, sl_Received := (sl_Received S + 1) mod 2 ^ 32\<rparr>)"
      using S q by (simp add: slot_exact_def deliveries_of_append first_with_append k_def [symmetric])
    then have "slots_exact T P (D @ [p]) R (lg_Slots l')"
      unfolding l'(1) using k k_def by (intro slots_exact_update [OF sl _ _ other]) simp_all
    moreover have "thread_unique (D @ [p]) = thread_unique D"
      using old by (auto simp: thread_unique_append k_def)
    moreover have "event_key ` set (D @ [p]) = event_key ` set D"
      using old by (auto simp: k_def)
    moreover have "sl_SentNs S = pa_SentNs q"
      using S q by (simp add: slot_exact_def)
    ultimately have "ledger_exact T P (D @ [p]) R l'"
      using I sub td c l' q by (intro ledger_exactI) (simp_all add: ledger_exact_def)
    then show ?thesis
      using k l'(12) by (simp add: l'_def)
  qed
qed

lemma add_event_counters [simp]: "lg_Malformed (add_event a p l) = lg_Malformed l"
  by (simp add: add_event_def Let_def)

lemma add_events_exact:
  assumes "ledger_exact T P D R l" and "length D + length ps < 2 ^ 32"
  shows "ledger_exact T P (D @ filter (\<lambda>p. event_key p \<in> test_range T P) ps) R (fold (add_event a) ps l) \<and>
    lg_Unexpected (fold (add_event a) ps l) + length (filter (\<lambda>p. event_key p \<in> test_range T P) ps) = lg_Unexpected l + length ps \<and>
    lg_Malformed (fold (add_event a) ps l) = lg_Malformed l"
  using assms
proof (induction ps arbitrary: D l)
  case (Cons p ps)
  have "length D < 2 ^ 32 - 1"
    using Cons.prems(2) by simp
  note step = add_event_exact [OF Cons.prems(1) this, of p a]
  show ?case
  proof (cases "event_key p \<in> test_range T P")
    case True
    from Cons.IH [of "D @ [p]" "add_event a p l"] step True Cons.prems(2) show ?thesis
      by simp
  next
    case False
    from Cons.IH [of D "add_event a p l"] step False Cons.prems(2) show ?thesis
      by simp
  qed
qed simp

lemma add_report_exact:
  assumes I: "ledger_exact T P D R l"
  shows "ledger_exact T P D (R \<union> ({event_key r} \<inter> test_range T P)) (add_report r l) \<and> lg_Unexpected (add_report r l) = lg_Unexpected l \<and>
    lg_Malformed (add_report r l) = lg_Malformed l"
proof (cases "event_key r \<in> test_range T P")
  case False
  then show ?thesis
    using I by (simp add: add_report_def in_range_key ledger_exact_def)
next
  case k: True
  define k where "k = event_key r"
  define S where "S = lg_Slots l ! key_index P k"
  have act: "lg_Threads l = T" "lg_PerThread l = P" and fin: "finite R" and sl: "slots_exact T P D R (lg_Slots l)"
    using I finite_subset [of R "test_range T P"] by (auto simp: ledger_exact_def)
  then have S: "slot_exact D R k S"
    unfolding S_def k_def by (intro slots_exact_slot [OF _ k])
  have step: "in_range l r" "slot_index l r = key_index P k"
    using act k by (simp_all add: in_range_key slot_index_key k_def)
  show ?thesis
  proof (cases "k \<in> R")
    case True
    then have "add_report r l = l"
      using step S by (simp add: add_report_def S_def slot_exact_def Let_def)
    moreover have "R \<union> ({event_key r} \<inter> test_range T P) = R"
      using True by (auto simp: k_def)
    ultimately show ?thesis
      using I by simp
  next
    case False
    define l' where "l' = add_report r l"
    have l': "l' = l\<lparr>lg_Slots := (lg_Slots l)[key_index P k := S\<lparr>sl_Reported := True\<rparr>], lg_ReportedLost := lg_ReportedLost l + 1,
        lg_ReportedMissing := (if sl_Received S = 0 then lg_ReportedMissing l + 1 else lg_ReportedMissing l)\<rparr>"
      using step S False unfolding l'_def add_report_def S_def by (simp add: Let_def slot_exact_def)
    have R: "R \<union> ({event_key r} \<inter> test_range T P) = insert k R"
      using k by (auto simp: k_def)
    have "slot_exact D (insert k R) k (S\<lparr>sl_Reported := True\<rparr>)"
      using S by (simp add: slot_exact_def split: option.splits)
    then have "slots_exact T P D (insert k R) (lg_Slots l')"
      unfolding l' using k k_def by (simp, intro slots_exact_update [OF sl]) (auto simp: slot_exact_def)
    moreover have "lg_ReportedMissing l' = card (insert k R - event_key ` set D)"
    proof -
      have "insert k R - event_key ` set D = (if k \<in> event_key ` set D then R - event_key ` set D else insert k (R - event_key ` set D))"
        by auto
      then show ?thesis
        using I S False fin deliveries_of_0 [of k D] unfolding l' by (simp add: ledger_exact_def slot_exact_def card_insert_if)
    qed
    moreover have "card (insert k R) = card R + 1"
      using False fin by simp
    ultimately have "ledger_exact T P D (insert k R) l'"
      using I k unfolding l' by (intro ledger_exactI) (simp_all add: ledger_exact_def k_def)
    then show ?thesis
      unfolding R l'_def [symmetric] by (simp add: l')
  qed
qed

lemma add_reports_exact:
  assumes "ledger_exact T P D R l"
  shows "ledger_exact T P D (R \<union> (event_key ` set rs \<inter> test_range T P)) (fold add_report rs l) \<and>
    lg_Unexpected (fold add_report rs l) = lg_Unexpected l \<and> lg_Malformed (fold add_report rs l) = lg_Malformed l"
  using assms
proof (induction rs arbitrary: R l)
  case (Cons r rs)
  note step = add_report_exact [OF Cons.prems, of r]
  have "(R \<union> ({event_key r} \<inter> test_range T P)) \<union> (event_key ` set rs \<inter> test_range T P) = R \<union> (event_key ` set (r # rs) \<inter> test_range T P)"
    by auto
  with Cons.IH [of "R \<union> ({event_key r} \<inter> test_range T P)" "add_report r l"] step show ?case
    by simp
qed simp

lemma add_samples_exact:
  "ledger_exact T P D R l \<Longrightarrow> ledger_exact T P D R (fold add_sample ss l) \<and> lg_Unexpected (fold add_sample ss l) = lg_Unexpected l \<and>
    lg_Malformed (fold add_sample ss l) = lg_Malformed l"
proof (induction ss arbitrary: l)
  case (Cons s ss)
  have "ledger_exact T P D R (add_sample s l) \<and> lg_Unexpected (add_sample s l) = lg_Unexpected l \<and> lg_Malformed (add_sample s l) = lg_Malformed l"
    using Cons.prems by (simp add: add_sample_def ledger_exact_def)
  with Cons.IH [of "add_sample s l"] show ?case
    by simp
qed simp

section \<open>A request\<close>

definition scan_ok :: "scan \<Rightarrow> bool" where
  "scan_ok s \<longleftrightarrow> sc_TestRecords s = sc_Malformed s + length (sc_Events s) \<and> (sc_Others s = 0 \<longrightarrow> sc_Reports s = [] \<and> sc_OtherSample s = [])"

lemma scan_record_ok: "scan_ok s \<Longrightarrow> scan_ok (scan_record r s)"
  by (auto simp: scan_ok_def scan_record_def other_record_def Let_def split: option.split)

lemma scan_request_ok: "scan_ok (scan_request Doc)"
proof -
  have "scan_ok s \<Longrightarrow> scan_ok (fold scan_record rs s)" for rs s
    by (induction rs arbitrary: s) (simp_all add: scan_record_ok)
  moreover have "scan_ok new_scan"
    by (simp add: scan_ok_def new_scan_def)
  ultimately show ?thesis
    by (simp add: scan_request_def)
qed

definition reported_keys :: "nat \<Rightarrow> nat \<Rightarrow> json \<Rightarrow> event_key set" where
  "reported_keys T P Doc = event_key ` set (sc_Reports (scan_request Doc)) \<inter> test_range T P"

lemma add_others_exact:
  assumes I: "ledger_exact T P D R l" and "scan_ok s"
  shows "ledger_exact T P D (R \<union> (event_key ` set (sc_Reports s) \<inter> test_range T P)) (add_others s l) \<and>
    lg_Unexpected (add_others s l) = lg_Unexpected l \<and> lg_Malformed (add_others s l) = lg_Malformed l"
proof (cases "sc_Others s > 0")
  case False
  then show ?thesis
    using assms by (simp add: add_others_def scan_ok_def)
next
  case True
  define l1 where "l1 = l\<lparr>lg_OtherRecords := lg_OtherRecords l + sc_Others s\<rparr>"
  have "ledger_exact T P D R l1"
    using I by (simp add: l1_def ledger_exact_def)
  from add_samples_exact [OF this, of "sc_OtherSample s"] have 2: "ledger_exact T P D R (fold add_sample (sc_OtherSample s) l1)"
    "lg_Unexpected (fold add_sample (sc_OtherSample s) l1) = lg_Unexpected l" "lg_Malformed (fold add_sample (sc_OtherSample s) l1) = lg_Malformed l"
    by (simp_all add: l1_def)
  from add_reports_exact [OF 2(1), of "sc_Reports s"] 2(2,3) show ?thesis
    using True I by (simp add: add_others_def l1_def ledger_exact_def)
qed

lemma ProcessOtlp_exact:
  assumes I: "ledger_exact T P D R l" and "length D + length (sc_Events (scan_request Doc)) < 2 ^ 32"
    and "l' = snd (snd (snd (ProcessOtlp Doc a l)))" and "E = filter (\<lambda>p. event_key p \<in> test_range T P) (sc_Events (scan_request Doc))"
  shows "ledger_exact T P (D @ E) (R \<union> reported_keys T P Doc) l' \<and>
    lg_Unexpected l' + length E = lg_Unexpected l + length (sc_Events (scan_request Doc)) \<and>
    lg_Malformed l' = lg_Malformed l + sc_Malformed (scan_request Doc)"
proof -
  define s where "s = scan_request Doc"
  define l1 where "l1 = add_others s l"
  have ok: "scan_ok s"
    by (simp add: s_def scan_request_ok)
  have o: "ledger_exact T P D (R \<union> reported_keys T P Doc) l1" "lg_Unexpected l1 = lg_Unexpected l" "lg_Malformed l1 = lg_Malformed l"
    using add_others_exact [OF I ok] by (simp_all add: l1_def reported_keys_def s_def)
  show ?thesis
  proof (cases "sc_TestRecords s = 0")
    case True
    then have none: "sc_Events s = []" "sc_Malformed s = 0"
      using ok by (simp_all add: scan_ok_def)
    have "l' = l1"
      using True ok by (simp add: assms(3) ProcessOtlp_def s_def [symmetric] l1_def Let_def add_others_def)
    then show ?thesis
      using o none by (simp add: assms(4) s_def)
  next
    case False
    define l2 where "l2 = l1\<lparr>lg_TestBatches := lg_TestBatches l1 + 1, lg_Malformed := lg_Malformed l1 + sc_Malformed s,
      lg_MixedBatches := (if sc_TestRecords s < sc_Records s then lg_MixedBatches l1 + 1 else lg_MixedBatches l1)\<rparr>"
    define l3 where "l3 = fold (add_event a) (sc_Events s) l2"
    have l': "l' = (if a - lg_LastPrint l3 \<ge> SUMMARY_EVERY_NS then l3\<lparr>lg_LastPrint := a\<rparr> else l3)"
      unfolding assms(3) ProcessOtlp_def s_def [symmetric] l1_def [symmetric] l2_def [symmetric] l3_def [symmetric] Let_def
      using False by simp
    have "ledger_exact T P D (R \<union> reported_keys T P Doc) l2"
      using o(1) by (simp add: l2_def ledger_exact_def)
    from add_events_exact [OF this assms(2) [folded s_def], of a, folded l3_def]
    have "ledger_exact T P (D @ E) (R \<union> reported_keys T P Doc) l3" "lg_Unexpected l3 + length E = lg_Unexpected l2 + length (sc_Events s)"
      "lg_Malformed l3 = lg_Malformed l2"
      unfolding assms(4) s_def by blast+
    moreover have "lg_Unexpected l2 = lg_Unexpected l" "lg_Malformed l2 = lg_Malformed l + sc_Malformed s"
      by (simp_all add: l2_def o)
    ultimately have "ledger_exact T P (D @ E) (R \<union> reported_keys T P Doc) l3"
      "lg_Unexpected l3 + length E = lg_Unexpected l + length (sc_Events s)" "lg_Malformed l3 = lg_Malformed l + sc_Malformed s"
      by simp_all
    then show ?thesis
      unfolding l' s_def by (simp add: ledger_exact_def)
  qed
qed

section \<open>A test\<close>

text \<open>The requests of a test, with the times at which they arrived.\<close>

definition run_requests :: "(json \<times> int) list \<Rightarrow> ledger \<Rightarrow> ledger" where
  "run_requests rs l = fold (\<lambda>(Doc, a) l. snd (snd (snd (ProcessOtlp Doc a l)))) rs l"

definition test_events :: "(json \<times> int) list \<Rightarrow> parsed list" where
  "test_events rs = concat (map (\<lambda>(Doc, a). sc_Events (scan_request Doc)) rs)"

definition malformed_paths :: "(json \<times> int) list \<Rightarrow> nat" where
  "malformed_paths rs = sum_list (map (\<lambda>(Doc, a). sc_Malformed (scan_request Doc)) rs)"

definition reports_in :: "nat \<Rightarrow> nat \<Rightarrow> (json \<times> int) list \<Rightarrow> event_key set" where
  "reports_in T P rs = (\<Union>(Doc, a) \<in> set rs. reported_keys T P Doc)"

lemma run_requests_exact:
  assumes "ledger_exact T P D R l" and "length D + length (test_events rs) < 2 ^ 32"
  shows "ledger_exact T P (D @ filter (\<lambda>p. event_key p \<in> test_range T P) (test_events rs)) (R \<union> reports_in T P rs) (run_requests rs l) \<and>
    lg_Unexpected (run_requests rs l) + length (filter (\<lambda>p. event_key p \<in> test_range T P) (test_events rs)) = lg_Unexpected l + length (test_events rs) \<and>
    lg_Malformed (run_requests rs l) = lg_Malformed l + malformed_paths rs"
  using assms
proof (induction rs arbitrary: D R l)
  case Nil
  then show ?case
    by (simp add: run_requests_def test_events_def malformed_paths_def reports_in_def)
next
  case (Cons r rs)
  obtain Doc a where r: "r = (Doc, a)"
    by fastforce
  define l' where "l' = snd (snd (snd (ProcessOtlp Doc a l)))"
  define E where "E = filter (\<lambda>p. event_key p \<in> test_range T P) (sc_Events (scan_request Doc))"
  have ev: "test_events (r # rs) = sc_Events (scan_request Doc) @ test_events rs" "malformed_paths (r # rs) = sc_Malformed (scan_request Doc) + malformed_paths rs"
    "run_requests (r # rs) l = run_requests rs l'" "R \<union> reports_in T P (r # rs) = (R \<union> reported_keys T P Doc) \<union> reports_in T P rs"
    by (simp_all add: r test_events_def malformed_paths_def run_requests_def l'_def reports_in_def Un_assoc)
  have "length D + length (sc_Events (scan_request Doc)) < 2 ^ 32"
    using Cons.prems(2) by (simp add: ev)
  note step = ProcessOtlp_exact [OF Cons.prems(1) this l'_def E_def]
  have "length (D @ E) + length (test_events rs) < 2 ^ 32"
    using Cons.prems(2) length_filter_le [of "\<lambda>p. event_key p \<in> test_range T P" "sc_Events (scan_request Doc)"] by (simp add: ev E_def del: length_filter_le)
  from Cons.IH [OF step [THEN conjunct1] this] step show ?case
    unfolding ev filter_append E_def [symmetric] by (simp only: append_assoc length_append) (elim conjE, intro conjI TrueI; linarith)
qed

lemma Reset_exact: "Ledger_Reset Now T P s = Inr l \<Longrightarrow> ledger_exact T P [] {} l \<and> lg_Unexpected l = 0 \<and> lg_Malformed l = 0"
proof -
  assume "Ledger_Reset Now T P s = Inr l"
  then have l: "l = new_ledger\<lparr>lg_Slots := replicate (T * P) new_slot, lg_UniquePerThread := replicate T 0,
        lg_DeliveriesPerThread := replicate T 0, lg_Threads := T, lg_PerThread := P, lg_bActive := True,
        lg_ResetNs := Now, lg_LastPrint := Now, lg_FailStatus := lg_FailStatus s\<rparr>"
    by (simp add: Ledger_Reset_def split: if_splits)
  have "slots_exact T P [] {} (replicate (T * P) new_slot)"
    unfolding slots_exact_def by (auto simp: key_index_less slot_exact_def new_slot_def deliveries_of_def first_with_def)
  moreover have "threads_exact T (thread_unique []) (replicate T 0)" "threads_exact T (thread_deliveries []) (replicate T 0)"
    by (simp_all add: threads_exact_def thread_unique_def thread_deliveries_def)
  ultimately show ?thesis
    unfolding l by (intro conjI ledger_exactI) (simp_all add: new_ledger_def)
qed

text \<open>C37. The ledger of the load test is exact. After any requests since the reset, whatever their batches and their order: the deliveries are the events
  with a valid thread and count, the unique ones the different ones of these, the missing ones those of the test which no request had, for
  each thread too; every other test path was counted as unexpected or malformed; the conflicts are the deliveries whose time of sending is not
  that of the first delivery of the event; and of the events which NGINX names as not logged, exactly those which did not arrive count as missing.\<close>

theorem ledger_is_exact:
  assumes "Ledger_Reset Now T P s0 = Inr l0" and "length (test_events rs) < 2 ^ 32"
    and "l = run_requests rs l0" and "D = filter (\<lambda>p. event_key p \<in> {1..T} \<times> {1..P}) (test_events rs)"
  shows "lg_Deliveries l = length D \<and> lg_Unique l = card (event_key ` set D) \<and>
    T * P - lg_Unique l = card ({1..T} \<times> {1..P} - event_key ` set D) \<and>
    lg_Unexpected l = length (test_events rs) - length D \<and> lg_Malformed l = malformed_paths rs \<and> lg_Conflicts l = conflicts [] D \<and>
    lg_ReportedLost l = card (reports_in T P rs) \<and> lg_ReportedMissing l = card (reports_in T P rs - event_key ` set D) \<and>
    (\<forall>t < T. lg_UniquePerThread l ! t = card {k \<in> event_key ` set D. fst k = t + 1} \<and>
      lg_DeliveriesPerThread l ! t = length (filter (\<lambda>p. pa_Thread p = t + 1) D))"
proof -
  from Reset_exact [OF assms(1)] have z: "ledger_exact T P [] {} l0" "lg_Unexpected l0 = 0" "lg_Malformed l0 = 0"
    by simp_all
  from run_requests_exact [OF z(1), of rs] assms(2) have I: "ledger_exact T P D (reports_in T P rs) l"
    "lg_Unexpected l + length D = length (test_events rs)" "lg_Malformed l = malformed_paths rs"
    by (simp_all add: assms(3,4) z(2,3))
  then have sub: "event_key ` set D \<subseteq> {1..T} \<times> {1..P}" and u: "lg_Unique l = card (event_key ` set D)"
    by (simp_all add: ledger_exact_def)
  have "card ({1..T} \<times> {1..P} - event_key ` set D) = card ({1..T} \<times> {1..P}) - card (event_key ` set D)"
    by (rule card_Diff_subset) (use sub in auto)
  then have "T * P - lg_Unique l = card ({1..T} \<times> {1..P} - event_key ` set D)"
    by (simp add: u card_cartesian_product)
  then show ?thesis
    using I u by (simp add: ledger_exact_def threads_exact_def thread_unique_def thread_deliveries_def)
qed

text \<open>A test of two events, of which one arrives twice.\<close>

definition some_test_record :: "string \<Rightarrow> json" where
  "some_test_record path = JObj [(''attributes'', JArr [JObj [(''key'', JStr ''url.path''), (''value'', JObj [(''stringValue'', JStr path)])]])]"

definition some_otlp :: "json list \<Rightarrow> json" where
  "some_otlp recs = JObj [(''resourceLogs'', JArr [JObj [(''scopeLogs'', JArr [JObj [(''logRecords'', JArr recs)]])]])]"

definition some_event_request :: json where
  "some_event_request = some_otlp [some_test_record ''/otelfwd-test/1/2/5'']"

lemma some_event_request_scan:
  "sc_Events (scan_request some_event_request) = [\<lparr>pa_Thread = 1, pa_Count = 2, pa_SentNs = 5, pa_EventNs = 0\<rparr>]"
proof -
  have "ParseTestPath ''/otelfwd-test/1/2/5'' = Some (1, 2, 5)"
    by (simp add: ParseTestPath_def TEST_PREFIX_def starts_with_def ParseUnsigned_def is_digit_def digit_value_def)
  moreover have "GetUrlPath (some_test_record p) = Some p" for p
    by (simp add: GetUrlPath_def some_test_record_def Find_def c_str_def)
  moreover have "event_time (some_test_record p) = 0" for p
    by (simp add: event_time_def some_test_record_def Find_def)
  moreover have "log_records (some_otlp rs) = rs" for rs
    by (simp add: log_records_def elements_def some_otlp_def Find_def)
  ultimately show ?thesis
    by (simp add: scan_request_def some_event_request_def scan_record_def Let_def new_scan_def TEST_PREFIX_def starts_with_def)
qed

theorem ledger_is_exact_witness:
  "\<exists>l0. Ledger_Reset 0 1 2 new_ledger = Inr l0 \<and>
    lg_Deliveries (run_requests [(some_event_request, 10), (some_event_request, 20)] l0) = 2 \<and>
    lg_Unique (run_requests [(some_event_request, 10), (some_event_request, 20)] l0) = 1"
proof -
  obtain l0 where l0: "Ledger_Reset 0 1 2 new_ledger = Inr l0"
    by (simp add: Ledger_Reset_def MAX_THREADS_def MAX_EVENTS_def)
  have ev: "test_events [(some_event_request, 10), (some_event_request, 20)] =
      replicate 2 \<lparr>pa_Thread = 1, pa_Count = 2, pa_SentNs = 5, pa_EventNs = 0\<rparr>"
    by (simp add: test_events_def some_event_request_scan numeral_2_eq_2)
  have "length (test_events [(some_event_request, 10), (some_event_request, 20)]) < 2 ^ 32"
    by (simp add: ev)
  from ledger_is_exact [OF l0 this refl refl] have
    "lg_Deliveries (run_requests [(some_event_request, 10), (some_event_request, 20)] l0) = 2"
    "lg_Unique (run_requests [(some_event_request, 10), (some_event_request, 20)] l0) = 1"
    by (simp_all add: ev event_key_def)
  with l0 show ?thesis
    by blast
qed

end
