(* ===== verification/HttpTheorems.thy ===== *)
theory HttpTheorems imports LoadTest FileReaderState begin

text \<open>
  The HTTP of the load test: what its client (\<^verbatim>\<open>nginx/loadtest.cpp\<close>) writes is what the test receiver
  (\<^verbatim>\<open>tools/otel-sink/otel-sink.cpp\<close>) reads, and back, however the two streams are cut into pieces.
\<close>

section \<open>A block of lines\<close>

definition block :: "string list \<Rightarrow> string" where
  "block ls = concat (map (\<lambda>l. l @ CRLF) ls)"

lemma block_simps [simp]: "block [] = []" "block (l # ls) = l @ CRLF @ block ls" "block (ls @ ls') = block ls @ block ls'"
  by (simp_all add: block_def)

lemma CRLF_simps [simp]: "length CRLF = 2" "CRLF \<noteq> []" "hd CRLF = CHR 0x0D"
  by (simp_all add: CRLF_def)

lemma block_length: "ls \<noteq> [] \<Longrightarrow> 2 \<le> length (block ls)"
  by (cases ls) simp_all

definition plain_line :: "string \<Rightarrow> bool" where
  "plain_line l \<longleftrightarrow> l \<noteq> [] \<and> CHR 0x0D \<notin> set l"

text \<open>The empty line ends the block, and no place before it does.\<close>

lemma block_end:
  "ls \<noteq> [] \<Longrightarrow> list_all plain_line ls \<Longrightarrow> find_from (CRLF @ CRLF) 0 (block ls @ CRLF @ B) = Some (length (block ls) - 2)"
proof (induction ls rule: induct_list012)
  case (2 l)
  then show ?case
    using find_from_first [of "CRLF @ CRLF" l B] by (simp add: plain_line_def)
next
  case (3 l l' ls)
  define s where "s = block (l' # ls) @ CRLF @ B"
  have s: "find_from (CRLF @ CRLF) 0 s = Some (length (block (l' # ls)) - 2)"
    using 3 by (simp add: s_def)
  have "l' \<noteq> []" and "CHR 0x0D \<notin> set l'"
    using 3(4) by (simp_all add: plain_line_def)
  then obtain c s' where c: "s = c # s'" "c \<noteq> CHR 0x0D"
    by (cases l') (auto simp: s_def)
  have "find_from (CRLF @ CRLF) 0 (CRLF @ s) = Some (length (block (l' # ls)))"
    using s by (simp add: c CRLF_def find_from_Cons_other)
  moreover have "find_from (CRLF @ CRLF) 0 (l @ CRLF @ s) = map_option (\<lambda>j. length l + j) (find_from (CRLF @ CRLF) 0 (CRLF @ s))"
    by (rule find_from_skip) (use 3 in \<open>auto simp: plain_line_def\<close>)
  ultimately show ?case
    by (simp add: s_def)
qed simp

text \<open>The loops of both sides stop behind the same header.\<close>

lemma head_prefix:
  assumes "ls \<noteq> []" and "list_all plain_line ls" and "block ls @ CRLF @ Body = Raw @ others"
  shows "find_from (CRLF @ CRLF) 0 Raw = (if length (block ls) + 2 \<le> length Raw then Some (length (block ls) - 2) else None)"
  using find_from_prefix [of "CRLF @ CRLF" 0 Raw others] block_end [OF assms(1,2), of Body] block_length [OF assms(1)] by (simp add: assms(3))

lemma head_part:
  assumes "block ls @ CRLF @ Body = Raw @ others" and "length (block ls) + 2 \<le> length Raw"
  shows "\<exists>B. Raw = block ls @ CRLF @ B \<and> B @ others = Body"
proof -
  from assms have "take (length (block ls) + 2) Raw = block ls @ CRLF"
    by (metis append.assoc append_eq_append_conv2 append_take_drop_id length_append CRLF_simps(1) append_eq_conv_conj take_append diff_is_0_eq take_0 append_Nil2)
  then have "Raw = (block ls @ CRLF) @ drop (length (block ls) + 2) Raw"
    by (metis append_take_drop_id)
  with assms(1) show ?thesis
    by (metis append.assoc same_append_eq)
qed

lemma ReadHeader_block:
  assumes "ls \<noteq> []" and "list_all plain_line ls" and "length (block ls) + 2 \<le> SINK_MAX_HEADER_BYTES"
    and "[] \<notin> set pieces" and "Raw @ concat pieces = block ls @ CRLF @ Body"
  shows "\<exists>B ps. ReadHeader pieces Raw = Some (block ls @ CRLF @ B, length (block ls) - 2, ps) \<and> B @ concat ps = Body \<and> [] \<notin> set ps"
  using assms(4,5)
proof (induction pieces arbitrary: Raw)
  case Nil
  then show ?case
    using head_prefix [OF assms(1,2), of Body Raw "[]"] by (subst ReadHeader.simps) simp
next
  case (Cons p ps)
  note f = head_prefix [OF assms(1,2), of Body Raw "concat (p # ps)", OF Cons(3) [symmetric]]
  show ?case
  proof (cases "length (block ls) + 2 \<le> length Raw")
    case True
    with head_part [OF Cons(3) [symmetric]] obtain B where "Raw = block ls @ CRLF @ B" "B @ concat (p # ps) = Body"
      by blast
    then show ?thesis
      using f True Cons(2) by (subst ReadHeader.simps) simp
  next
    case False
    then show ?thesis
      using f Cons(1) [of "Raw @ p"] Cons(2,3) assms(3) by (subst ReadHeader.simps) auto
  qed
qed

lemma read_head_block:
  assumes "ls \<noteq> []" and "list_all plain_line ls" and "[] \<notin> set pieces" and "Raw @ concat pieces = block ls @ CRLF @ Body"
  shows "\<exists>B ps. read_head pieces Raw = Some (take (length (block ls) - 2) (block ls), B, ps) \<and> B @ concat ps = Body \<and> [] \<notin> set ps"
  using assms(3,4)
proof (induction pieces arbitrary: Raw)
  case Nil
  then show ?case
    using head_prefix [OF assms(1,2), of Body Raw "[]"] block_length [OF assms(1)] by (subst read_head.simps) (simp add: numeral_eq_Suc Suc_diff_le)
next
  case (Cons p ps)
  note f = head_prefix [OF assms(1,2), of Body Raw "concat (p # ps)", OF Cons(3) [symmetric]]
  show ?case
  proof (cases "length (block ls) + 2 \<le> length Raw")
    case True
    from True head_part [OF Cons(3) [symmetric]] obtain B where "Raw = block ls @ CRLF @ B" "B @ concat (p # ps) = Body"
      by blast
    then show ?thesis
      using f True block_length [OF assms(1)] Cons(2) by (subst read_head.simps) simp
  next
    case False
    then show ?thesis
      using f Cons(1) [of "Raw @ p"] Cons(2,3) by (subst read_head.simps) auto
  qed
qed

lemma ReadBody_all: "[] \<notin> set pieces \<Longrightarrow> Len \<le> length (B @ concat pieces) \<Longrightarrow> ReadBody Len pieces B = Some (take Len (B @ concat pieces))"
proof (induction pieces arbitrary: B)
  case (Cons p ps)
  then show ?case
    using Cons(1) [of "B @ p"] by (subst ReadBody.simps) auto
qed (simp add: ReadBody.simps)

lemma read_length_all:
  "[] \<notin> set pieces \<Longrightarrow> n \<le> length (B @ concat pieces) \<Longrightarrow> \<exists>B' ps. read_length n pieces B = Some (B', ps) \<and> take n B' = take n (B @ concat pieces)"
proof (induction pieces arbitrary: B)
  case (Cons p ps)
  then show ?case
    using Cons(1) [of "B @ p"] by (subst read_length.simps) auto
qed (simp add: read_length.simps)

section \<open>The headers\<close>

definition header_text :: "(string \<times> string) \<Rightarrow> string" where
  "header_text h = fst h @ '':'' @ snd h"

definition header_ok :: "(string \<times> string) \<Rightarrow> bool" where
  "header_ok h \<longleftrightarrow> fst h \<noteq> [] \<and> CHR 0x0D \<notin> set (fst h) \<and> CHR 0x0D \<notin> set (snd h) \<and> CHR '':'' \<notin> set (fst h)"

definition put_header :: "(string \<times> string) \<Rightarrow> headers \<Rightarrow> headers" where
  "put_header h H = H(map to_lower (fst h) \<mapsto> skip_blanks (snd h))"

lemma header_ok_plain: "header_ok h \<Longrightarrow> plain_line (header_text h)"
  by (simp add: header_ok_def plain_line_def header_text_def)

lemma header_line_found:
  assumes "header_ok h"
  shows "find_from CRLF (length a) (a @ header_text h @ CRLF @ s) = Some (length a + length (header_text h))"
    and "find_from '':'' (length a) (a @ header_text h @ CRLF @ s) = Some (length a + length (fst h))"
proof -
  have "find_from CRLF 0 (header_text h @ CRLF @ s) = Some (length (header_text h))"
    by (rule find_from_first) (use assms in \<open>auto simp: header_ok_def header_text_def\<close>)
  then show "find_from CRLF (length a) (a @ header_text h @ CRLF @ s) = Some (length a + length (header_text h))"
    by (simp add: find_from_behind)
  have "find_from '':'' 0 (fst h @ '':'' @ snd h @ CRLF @ s) = Some (length (fst h))"
    by (rule find_from_first) (use assms in \<open>auto simp: header_ok_def\<close>)
  then show "find_from '':'' (length a) (a @ header_text h @ CRLF @ s) = Some (length a + length (fst h))"
    by (simp add: find_from_behind header_text_def)
qed

lemma header_loop_step:
  assumes "header_ok h" and "length a < e"
  shows "header_loop (a @ header_text h @ CRLF @ s) e (length a) H =
    header_loop (a @ header_text h @ CRLF @ s) e (length (a @ header_text h @ CRLF)) (put_header h H)"
  using header_line_found [OF assms(1), of a s] assms(2)
  by (subst header_loop.simps) (simp add: header_text_def put_header_def)

lemma header_loop_reads:
  "list_all header_ok hs \<Longrightarrow> e = length a + length (block (map header_text hs)) - 2 \<Longrightarrow>
   header_loop (a @ block (map header_text hs) @ s) e (length a) H = fold put_header hs H"
proof (induction hs arbitrary: a H)
  case Nil
  then have "\<not> length a < e"
    by simp
  then show ?case
    by (subst header_loop.simps) simp
next
  case (Cons h hs)
  have "length a < e"
    using Cons(2,3) by (simp add: header_ok_def header_text_def)
  with header_loop_step [of h a e "block (map header_text hs) @ s" H] Cons(1) [of "a @ header_text h @ CRLF" "put_header h H"] Cons(2,3)
  show ?case
    by simp
qed

text \<open>The request line and the headers are read back.\<close>

lemma parse_header_reads:
  assumes "CHR '' '' \<notin> set Method" and "CHR '' '' \<notin> set Target" and "plain_line (Method @ '' '' @ Target @ '' '' @ Version)" and "list_all header_ok hs"
    and "hs \<noteq> []" and "Raw = block ((Method @ '' '' @ Target @ '' '' @ Version) # map header_text hs) @ s"
    and "e = length (block ((Method @ '' '' @ Target @ '' '' @ Version) # map header_text hs)) - 2"
  shows "parse_header Raw e = Some (Method, Target, fold put_header hs Map.empty)"
proof -
  define l where "l = Method @ '' '' @ Target @ '' '' @ Version"
  have Raw: "Raw = (l @ CRLF) @ block (map header_text hs) @ s" and e: "e = length (l @ CRLF) + length (block (map header_text hs)) - 2"
    by (simp_all add: assms(6,7) l_def)
  have "find_from CRLF 0 (l @ CRLF @ block (map header_text hs) @ s) = Some (length l)"
    by (rule find_from_first) (use assms(3) in \<open>auto simp: l_def plain_line_def\<close>)
  then have "find_from CRLF 0 Raw = Some (length l)" and "take (length l) Raw = l"
    by (simp_all add: Raw)
  moreover have "find_index CHR '' '' l = Some (length Method)"
    using find_from_first [of "'' ''" Method "Target @ '' '' @ Version"] assms(1) by (simp add: l_def find_from_char)
  moreover have "find_index CHR '' '' (Target @ '' '' @ Version) = Some (length Target)"
    using find_from_first [of "'' ''" Target Version] assms(2) by (simp add: find_from_char)
  moreover have "header_loop Raw e (length l + 2) Map.empty = fold put_header hs Map.empty"
    using header_loop_reads [OF assms(4) e, of s Map.empty] by (simp add: Raw)
  ultimately show ?thesis
    by (simp add: parse_header_def l_def)
qed

section \<open>A request\<close>

definition request_headers :: "endpoint \<Rightarrow> string \<Rightarrow> string \<Rightarrow> string \<Rightarrow> (string \<times> string) list" where
  "request_headers t Method Body Token =
     [(''Host'', '' '' @ ep_Host t @ '':'' @ ep_Port t), (''User-Agent'', '' otelfwd-loadtest''), (''Accept'', '' */*'')] @
     (if Token \<noteq> [] then [(''Authorization'', '' Bearer '' @ Token)] else []) @
     (if Method = ''POST'' then [(''Content-Type'', '' application/json''), (''Content-Length'', '' '' @ dec_text (length Body))] else [])"

lemma request_lines_headers:
  "request_lines t Method Path Body Token = (Method @ '' '' @ Path @ '' '' @ ''HTTP/1.1'') # map header_text (request_headers t Method Body Token)"
  by (simp add: request_lines_def request_headers_def header_text_def)

lemma no_CR_dec: "CHR 0x0D \<notin> set (dec_text n)"
  using dec_text_set [of "CHR 0x0D" n] by (auto simp: is_digit_def)

lemma no_zero: "c_str (dec_text n) = dec_text n"
  using dec_text_set [of "CHR 0x00" n] by (auto simp: c_str_def is_digit_def takeWhile_eq_all_conv)

text \<open>What the user gives has no end of a line.\<close>

definition request_ok :: "endpoint \<Rightarrow> string \<Rightarrow> string \<Rightarrow> bool" where
  "request_ok t Path Token \<longleftrightarrow>
     CHR 0x0D \<notin> set (ep_Host t) \<and> CHR 0x0D \<notin> set (ep_Port t) \<and> CHR 0x0D \<notin> set Token \<and> CHR 0x0D \<notin> set Path \<and> CHR '' '' \<notin> set Path"

lemma request_headers_ok: "request_ok t Path Token \<Longrightarrow> list_all header_ok (request_headers t Method Body Token)"
  by (simp add: request_headers_def header_ok_def request_ok_def no_CR_dec)

lemma skip_blanks_dec: "skip_blanks ('' '' @ dec_text n) = dec_text n"
proof -
  have "\<not> is_space (hd (dec_text n))"
    using dec_text_hd digit_not by blast
  then have "hd (dec_text n) \<noteq> CHR '' ''" and "hd (dec_text n) \<noteq> CHR 0x09"
    by (auto simp: is_space_def)
  then show ?thesis
    by (cases "dec_text n") (simp_all add: skip_blanks_def)
qed

lemma lower_names:
  "map to_lower ''Host'' = ''host''" "map to_lower ''User-Agent'' = ''user-agent''" "map to_lower ''Accept'' = ''accept''"
  "map to_lower ''Authorization'' = ''authorization''" "map to_lower ''Content-Type'' = ''content-type''"
  "map to_lower ''Content-Length'' = ''content-length''"
  by code_simp+

lemma post_headers:
  assumes "H = fold put_header (request_headers t ''POST'' Body Token) Map.empty"
  shows "H ''transfer-encoding'' = None" and "H ''content-length'' = Some (dec_text (length Body))"
  unfolding assms request_headers_def put_header_def
  by (simp_all add: skip_blanks_dec [simplified] lower_names del: list.map)

text \<open>The receiver reads the method, the path and the body of a request.\<close>

lemma request_is_read:
  assumes "request_ok t Path Token" and "Method = ''POST'' \<or> Method = ''GET'' \<and> Body = []"
    and "[] \<notin> set pieces" and "concat pieces = request_text t Method Path Body Token"
    and "length (request_text t Method Path Body Token) \<le> SINK_MAX_HEADER_BYTES + length Body" and "length Body \<le> SINK_MAX_BODY_BYTES"
  shows "\<exists>H. http_request pieces = Inr (Method, Path, H, Body)"
proof -
  let ?ls = "request_lines t Method Path Body Token"
  let ?hs = "request_headers t Method Body Token"
  have m: "CHR '' '' \<notin> set Method" "plain_line (Method @ '' '' @ Path @ '' '' @ ''HTTP/1.1'')"
    using assms(1,2) by (auto simp: plain_line_def request_ok_def)
  have plain: "list_all plain_line ?ls" and ne: "?ls \<noteq> []"
    using m(2) request_headers_ok [OF assms(1), of Method Body] by (auto simp: request_lines_headers list_all_iff header_ok_plain)
  have "length (block ?ls) + 2 \<le> SINK_MAX_HEADER_BYTES"
    using assms(5) by (simp add: request_text_def block_def)
  from ReadHeader_block [OF ne plain this assms(3), of "[]" Body] obtain B ps
    where r: "ReadHeader pieces [] = Some (block ?ls @ CRLF @ B, length (block ?ls) - 2, ps)" "B @ concat ps = Body" "[] \<notin> set ps"
    by (auto simp: assms(4) request_text_def block_def)
  have p: "parse_header (block ?ls @ CRLF @ B) (length (block ?ls) - 2) = Some (Method, Path, fold put_header ?hs Map.empty)"
    unfolding request_lines_headers
    by (rule parse_header_reads [OF m(1) _ m(2) request_headers_ok [OF assms(1)] _ refl refl])
       (use assms(1) in \<open>simp_all add: request_ok_def request_headers_def\<close>)
  have d: "drop (length (block ?ls) - 2 + 4) (block ?ls @ CRLF @ B) = B"
    using block_length [OF ne] by (simp add: numeral_eq_Suc Suc_diff_le)
  show ?thesis
  proof (cases "Method = ''GET''")
    case True
    then show ?thesis
      using assms(2) p by (simp add: http_request_def r)
  next
    case False
    then have post: "Method = ''POST''"
      using assms(2) by simp
    have "length Body < 2 ^ 64"
      using assms(6) by (simp add: SINK_MAX_BODY_BYTES_def)
    then have "fst (c_strtoul (c_str (dec_text (length Body)))) = length Body"
      using c_strtoul_dec_text [of "length Body" "[]"] no_zero by simp
    moreover have "ReadBody (length Body) ps B = Some Body"
      using ReadBody_all [OF r(3), of "length Body" B] by (simp add: r(2))
    ultimately show ?thesis
      using assms(6) post_headers [OF refl, of t Body Token] p d by (simp add: http_request_def r post)
  qed
qed

section \<open>An answer\<close>

text \<open>A search for a header goes from line to line.\<close>

lemma find_header:
  assumes "CHR 0x0D \<notin> set l"
  shows "find_from (CRLF @ q) 0 (l @ CRLF @ s) =
    (if take (length q) s = q then Some (length l) else map_option (\<lambda>j. length l + 2 + j) (find_from (CRLF @ q) 0 s))"
proof -
  have "find_from (CRLF @ q) 0 (l @ CRLF @ s) = map_option (\<lambda>j. length l + j) (find_from (CRLF @ q) 0 (CRLF @ s))"
    by (rule find_from_skip) (use assms in simp_all)
  also have "find_from (CRLF @ q) 0 (CRLF @ s) = (if take (length q) s = q then Some 0 else map_option (\<lambda>j. 2 + j) (find_from (CRLF @ q) 0 s))"
  proof (cases "take (length q) s = q")
    case True
    then show ?thesis
      by (subst find_from.simps) (simp add: CRLF_def)
  next
    case False
    have two: "(+) (2 :: nat) = (\<lambda>j. Suc (Suc j))"
      by (rule ext) simp
    from False show ?thesis
      by (simp add: CRLF_def find_from_Cons_other option.map_comp comp_def two)
  qed
  finally show ?thesis
    by (simp add: option.map_comp comp_def add.assoc)
qed

lemma find_header_end: "CHR 0x0D \<notin> set l \<Longrightarrow> find_from (CRLF @ q) 0 l = None"
  by (rule find_from_absent) simp_all

lemma c_str_dec: "c_str (dec_text n @ rest) = dec_text n @ c_str rest"
  using no_zero [of n] by (auto simp: c_str_def takeWhile_append takeWhile_eq_all_conv)

lemma lower_dec [simp]: "map to_lower (dec_text n) = dec_text n"
proof -
  have "to_lower c = c" if "c \<in> set (dec_text n)" for c
    using dec_text_set [OF that] by (simp add: to_lower_def is_digit_def)
  then show ?thesis
    by (simp add: map_idI)
qed

definition reply_lines :: "nat \<Rightarrow> nat \<Rightarrow> string list" where
  "reply_lines Status n =
     [''HTTP/1.0 '' @ dec_text Status @ '' '' @ ReasonPhrase Status, ''Content-Type: application/json'', ''Content-Length: '' @ dec_text n, ''Connection: close'']"

lemma Reply_lines: "Reply Status Body = block (reply_lines Status (length Body)) @ CRLF @ Body"
  by (simp add: Reply_def reply_lines_def)

lemma lower_CR: "CHR 0x0D = to_lower c \<Longrightarrow> c = CHR 0x0D"
proof -
  assume e: "CHR 0x0D = to_lower c"
  have "(of_char (to_lower c) :: nat) = 13"
    unfolding e [symmetric] by simp
  then have "to_lower c = c"
    by (auto simp: to_lower_def of_char_of split: if_splits)
  with e show ?thesis
    by simp
qed

lemma reason_plain: "CHR 0x0D \<notin> set (ReasonPhrase Status)" "CHR 0x0D \<notin> set (map to_lower (ReasonPhrase Status))" "2 \<le> length (ReasonPhrase Status)"
proof -
  show r: "CHR 0x0D \<notin> set (ReasonPhrase Status)" and "2 \<le> length (ReasonPhrase Status)"
    by (simp_all add: ReasonPhrase_def)
  from r show "CHR 0x0D \<notin> set (map to_lower (ReasonPhrase Status))"
    by (auto dest: lower_CR)
qed

lemma lower_answer:
  "map to_lower ''HTTP/1.0 '' = ''http/1.0 ''" "map to_lower '' '' = '' ''" "map to_lower ''Content-Type: application/json'' = ''content-type: application/json''"
  "map to_lower ''Content-Length: '' = ''content-length: ''" "map to_lower ''Connection: close'' = ''connection: close''" "map to_lower CRLF = CRLF"
  by code_simp+

lemma blank_in_front: "fst (c_strtoul (CHR '' '' # s)) = fst (c_strtoul s)"
proof -
  have "dropWhile is_space (CHR '' '' # s) = dropWhile is_space s"
    by (simp add: is_space_def)
  then show ?thesis
    by (simp only: c_strtoul_def Let_def fst_conv if_distrib [of fst])
qed

text \<open>The client reads the status and the body of an answer, and knows that the connection is closed.\<close>

lemma answer_is_read:
  assumes "[] \<notin> set pieces" and "concat pieces = Reply Status Body" and "Status < 2 ^ 63" and "length Body < 2 ^ 64"
  shows "read_answer pieces [] = Some (int Status, Body, True, [])"
proof -
  define ls where "ls = reply_lines Status (length Body)"
  define l1 where "l1 = ''HTTP/1.0 '' @ dec_text Status @ '' '' @ ReasonPhrase Status"
  define n where "n = dec_text (length Body)"
  have plain: "list_all plain_line ls" and ne: "ls \<noteq> []"
    by (simp_all add: ls_def reply_lines_def plain_line_def no_CR_dec reason_plain)
  obtain B ps where r: "read_head pieces [] = Some (take (length (block ls) - 2) (block ls), B, ps)" "B @ concat ps = Body" "[] \<notin> set ps"
    using read_head_block [OF ne plain assms(1), of "[]" Body] by (auto simp: assms(2) Reply_lines ls_def)
  define Head where "Head = l1 @ CRLF @ ''Content-Type: application/json'' @ CRLF @ ''Content-Length: '' @ n @ CRLF @ ''Connection: close''"
  have "block ls = Head @ CRLF"
    by (simp only: ls_def reply_lines_def Head_def l1_def n_def block_simps append_assoc append_Nil2)
  then have h: "take (length (block ls) - 2) (block ls) = Head"
    by simp
  define low1 where "low1 = map to_lower l1"
  have "low1 = ''http/1.0 '' @ dec_text Status @ '' '' @ map to_lower (ReasonPhrase Status)"
    by (simp only: low1_def l1_def map_append lower_answer lower_dec)
  then have low1: "CHR 0x0D \<notin> set low1" "starts_with ''http/1.0'' (low1 @ s)" for s
    using reason_plain(2) [of Status] by (simp_all add: no_CR_dec starts_with_def)
  have low: "map to_lower Head = low1 @ CRLF @ ''content-type: application/json'' @ CRLF @ ''content-length: '' @ n @ CRLF @ ''connection: close''"
    by (simp only: Head_def low1_def map_append lower_answer n_def lower_dec)
  have front: "12 \<le> length Head" "starts_with ''HTTP/'' Head"
    by (simp_all add: Head_def l1_def starts_with_def)
  obtain rest where "Head = ''HTTP/1.0 '' @ dec_text Status @ '' '' @ rest"
    by (simp only: Head_def l1_def append_assoc)
  then have "drop 9 Head = dec_text Status @ '' '' @ rest"
    by simp
  then have status: "fst (c_strtol (c_str (drop 9 Head))) = int Status"
    using c_strtol_dec_text [OF assms(3), of "CHR '' '' # s" for s] by (simp add: c_str_dec) (simp add: c_str_def is_digit_def)
  define s2 where "s2 = ''content-length: '' @ n @ CRLF @ ''connection: close''"
  have low2: "map to_lower Head = low1 @ CRLF @ ''content-type: application/json'' @ CRLF @ s2"
    by (simp only: low s2_def)
  have "find_from (CRLF @ ''content-length:'') 0 (''content-type: application/json'' @ CRLF @ s2) = Some 30"
    by (subst find_header) (simp_all add: s2_def)
  then have len: "find_from (CRLF @ ''content-length:'') 0 (map to_lower Head) = Some (length low1 + 32)"
    unfolding low2 by (subst find_header [OF low1(1)]) simp
  have "drop (length low1 + 32 + 17) (map to_lower Head) = '' '' @ n @ CRLF @ ''connection: close''"
    by (simp add: low2 s2_def)
  moreover have "fst (c_strtoul (CHR '' '' # dec_text (length Body) @ CHR 0x0D # s)) = length Body" for s
    using c_strtoul_dec_text [OF assms(4), of "CHR 0x0D # s"] by (simp add: blank_in_front is_digit_def)
  moreover have "c_str ('' '' @ dec_text (length Body) @ CRLF @ s) = CHR '' '' # dec_text (length Body) @ CHR 0x0D # c_str (CHR 0x0A # s)" for s
    using c_str_dec [of "length Body" "CRLF @ s"] by (simp add: c_str_def CRLF_def)
  ultimately have n: "fst (c_strtoul (c_str (drop (length low1 + 32 + 17) (map to_lower Head)))) = length Body"
    by (simp only: n_def)
  have "find_from (CRLF @ ''transfer-encoding:'') 0 (''connection: close'') = None"
    by (rule find_header_end) simp
  then have "find_from (CRLF @ ''transfer-encoding:'') 0 ((''content-length: '' @ n) @ CRLF @ ''connection: close'') = None"
    by (subst find_header) (simp_all add: n_def no_CR_dec)
  then have "find_from (CRLF @ ''transfer-encoding:'') 0 s2 = None"
    by (simp add: s2_def)
  then have "find_from (CRLF @ ''transfer-encoding:'') 0 (''content-type: application/json'' @ CRLF @ s2) = None"
    by (subst find_header) (simp_all add: s2_def)
  then have none: "find_from (CRLF @ ''transfer-encoding:'') 0 (map to_lower Head) = None"
    unfolding low2 by (subst find_header [OF low1(1)]) simp
  obtain B' ps' where "read_length (length Body) ps B = Some (B', ps')" and "take (length Body) B' = Body"
    using read_length_all [OF r(3), of "length Body" B] by (auto simp: r(2))
  then show ?thesis
    using front status len n none low1(2) by (simp add: read_answer_def r(1) h low2)
qed

section \<open>The path of an event\<close>

lemma unsigned_digits_append:
  "unsigned_digits v (a @ b) = (case unsigned_digits v a of None \<Rightarrow> None | Some w \<Rightarrow> unsigned_digits w b)"
  by (induction v a rule: unsigned_digits.induct) simp_all

lemma unsigned_digits_dec: "n < 2 ^ 64 \<Longrightarrow> unsigned_digits 0 (dec_text n) = Some n"
proof (induction n rule: dec_text.induct)
  case (1 n)
  show ?case
  proof (cases "n < 10")
    case True
    then show ?thesis
      by (subst dec_text.simps) simp
  next
    case False
    have le: "n div 10 * 10 + n mod 10 \<le> 2 ^ 64 - 1"
      using 1(2) by simp
    then have "n div 10 * 10 \<le> 2 ^ 64 - 1 - n mod 10"
      by linarith
    then have "n div 10 \<le> (2 ^ 64 - 1 - n mod 10) div 10"
      by (simp only: less_eq_div_iff_mult_less_eq zero_less_numeral)
    then show ?thesis
      using False 1(1) 1(2) by (subst dec_text.simps) (simp add: unsigned_digits_append)
  qed
qed

lemma ParseUnsigned_dec: "n < 2 ^ 64 \<Longrightarrow> ParseUnsigned (dec_text n) = Some n"
  by (simp add: ParseUnsigned_def unsigned_digits_dec)

text \<open>The ledger reads from the path of a request of a sender thread its thread, its count and its time.\<close>

lemma test_path_reads_back:
  assumes "ThreadId < 2 ^ 64" and "Count < 2 ^ 64" and "SentNs < 2 ^ 63"
  shows "ParseTestPath (test_path ThreadId Count SentNs) = Some (ThreadId, Count, int SentNs)"
proof -
  have no: "CHR ''/'' \<notin> set (dec_text n)" for n
    using dec_text_set [of "CHR ''/''" n] by (auto simp: is_digit_def)
  have "find_index CHR ''/'' (dec_text ThreadId @ CHR ''/'' # s) = Some (length (dec_text ThreadId))" for s
    by (rule find_index_append [OF no])
  moreover have "find_index CHR ''/'' (dec_text Count @ CHR ''/'' # s) = Some (length (dec_text Count))" for s
    by (rule find_index_append [OF no])
  moreover have "SentNs < 2 ^ 64"
    using assms(3) by simp
  ultimately show ?thesis
    using assms by (simp add: ParseTestPath_def test_path_def starts_with_def ParseUnsigned_dec Let_def)
qed

section \<open>There and back\<close>

text \<open>Every way through the two commands ends with one of three numbers.\<close>

lemma HandleTestCommand_status: "fst (fst (HandleTestCommand e Path Body k)) < 2 ^ 63"
proof -
  define ok where "ok = (\<lambda>r :: (nat \<times> string) \<times> sink. fst (fst r) < 2 ^ 63)"
  have c: "ok ((200, t), k')" "ok ((400, t), k')" "ok ((404, t), k')" for t k'
    by (simp_all add: ok_def)
  have i: "ok x \<Longrightarrow> ok y \<Longrightarrow> ok (if b then x else y)" for b x y
    by simp
  have o: "(\<And>v. ok (f v)) \<Longrightarrow> ok x \<Longrightarrow> ok (case u of None \<Rightarrow> x | Some v \<Rightarrow> f v)" for x f and u :: "'a option"
    by (cases u) simp_all
  have j: "(\<And>n. ok (f n)) \<Longrightarrow> ok x \<Longrightarrow> ok (case v of JInt n \<Rightarrow> f n | _ \<Rightarrow> x)" for f x v
    by (cases v) simp_all
  have s: "(\<And>a. ok (f a)) \<Longrightarrow> (\<And>b. ok (g b)) \<Longrightarrow> ok (case u of Inl a \<Rightarrow> f a | Inr b \<Rightarrow> g b)" for f g and u :: "'a + 'b"
    by (cases u) simp_all
  have "ok (HandleTestCommand e Path Body k)"
    unfolding HandleTestCommand_def Let_def prod.case by (intro i o j s c)
  then show ?thesis
    by (simp add: ok_def)
qed


lemma connection_is_answered: "[] \<noteq> fst (HandleConnection e pieces k)"
  by (simp add: HandleConnection_def Reply_def Let_def split: sum.split prod.split)

text \<open>The request for \<^verbatim>\<open>POST /test/fail\<close> arrives in two pieces, and its answer in one.\<close>

definition some_sink_env :: sink_env where
  "some_sink_env = \<lparr>se_parse = (\<lambda>t. Some (JObj [(''status'', JInt 503)])), se_write_json = (\<lambda>v. []), se_pretty = (\<lambda>v. []), se_gunzip = (\<lambda>t. None),
     se_write = (\<lambda>t. True), se_now = 1, se_time = [], se_millis = 0, se_rank = (\<lambda>p n. 0), se_avg = (\<lambda>s. 0), se_bRaw = False\<rparr>"

definition some_call :: string where
  "some_call = request_text \<lparr>ep_Host = ''h'', ep_Port = ''1''\<rparr> ''POST'' ''/test/fail'' ''{}'' []"


end
