(* ===== verification/DomfwdDump.thy ===== *)
theory DomfwdDump imports Domfwd begin

text \<open>
  The dumps of the add-in (\<^verbatim>\<open>domfwd/domfwd.cpp\<close>): what the verbose levels write of an event, and the dumps of bytes. A dump is the list of its lines.
\<close>

section \<open>The dumps\<close>

text \<open>\<^verbatim>\<open>%04x\<close> and \<^verbatim>\<open>%02x\<close>.\<close>

definition hex4 :: "nat \<Rightarrow> string" where
  "hex4 n = map (\<lambda>i. hex_digit (n div 16 ^ i mod 16)) [3, 2, 1, 0]"

definition hex2 :: "nat \<Rightarrow> string" where
  "hex2 n = map (\<lambda>i. hex_digit (n div 16 ^ i mod 16)) [1, 0]"

definition PrintDelimiter :: "string list" where
  "PrintDelimiter = [replicate 60 CHR ''-'']"

definition DumpKnownEnums :: "sdk \<Rightarrow> string list" where
  "DumpKnownEnums k =
     (let row = (\<lambda>name w. ''  '' @ dec_text w @ '' = '' @ name w)
      in PrintDelimiter @
         [''Known EVT_xxx types:''] @ map (row (GetEventTypeName k)) [0..<sdk_num k ''MAX_TYPE''] @
         [''Known SEV_xxx severities:''] @ map (row (GetEventSeverityName k)) [0..<Suc (sdk_num k ''SEV_NORMAL'')] @
         [''Known FMT_xxx format specifiers:''] @
           map (row (GetFormatSpecifierName k)) [sdk_num k ''FMT_UNKNOWN''..<Suc (sdk_num k ''FMT_ERROR_MSG'')] @
         PrintDelimiter)"

definition printable :: "char \<Rightarrow> bool" where
  "printable c \<longleftrightarrow> 32 \<le> (of_char c :: nat) \<and> (of_char c :: nat) < 127"

text \<open>A line of the hex dump: the offset, sixteen bytes, and what of them can be printed. Offsets have 16 bits. A line has 71 characters and fits
  into its buffer.\<close>

definition hex_line :: "string \<Rightarrow> 16 word \<Rightarrow> string" where
  "hex_line Data Off =
     (let at = (\<lambda>i. unat (Off + of_nat i))
      in hex4 (unat Off) @ ''  '' @
         concat (map (\<lambda>i. if at i < length Data then hex2 (of_char (Data ! at i)) @ '' '' else ''   '') [0..<16]) @ '' '' @
         map (\<lambda>i. if printable (Data ! at i) then Data ! at i else CHR ''.'') (takeWhile (\<lambda>i. at i < length Data) [0..<16]))"

text \<open>\<open>None\<close>: the loop does not end.\<close>

partial_function (option) DumpHex_loop :: "string \<Rightarrow> 16 word \<Rightarrow> string list \<Rightarrow> string list option" where
  "DumpHex_loop Data Off lines =
     (if unat Off < length Data then DumpHex_loop Data (Off + 16) (lines @ [hex_line Data Off]) else Some lines)"

definition DumpHex :: "string \<Rightarrow> string list option" where
  "DumpHex Data = DumpHex_loop Data 0 []"

text \<open>The line in the buffer, and the lines which were written. \<open>Room\<close> is the size of the buffer.\<close>

definition print_char :: "nat \<Rightarrow> char \<Rightarrow> string \<times> string list \<Rightarrow> string \<times> string list" where
  "print_char Room ch st =
     (case st of (Line, out) \<Rightarrow>
        let flush = (\<lambda>l out. if length l + 8 \<ge> Room then ([], out @ [l]) else (l, out))
        in if printable ch then flush (Line @ [ch]) out
           else if ch = CHR 0x0D then flush (Line @ [CHR 0x5C, CHR ''r'']) out
           else if ch = CHR 0x09 then flush (Line @ [CHR 0x5C, CHR ''t'']) out
           else if ch = CHR 0x0A then ([], out @ [Line @ [CHR 0x5C, CHR ''n'']])
           else flush (Line @ ''.'') out)"

definition DumpPrintable :: "nat \<Rightarrow> string \<Rightarrow> string list" where
  "DumpPrintable Room Data = (case fold (print_char Room) Data ([], []) of (Line, out) \<Rightarrow> if Line \<noteq> [] then out @ [Line] else out)"

definition ReadWordLE :: "string \<Rightarrow> nat" where
  "ReadWordLE Data = of_char (Data ! 0) + 256 * of_char (Data ! 1)"

text \<open>The text of an error code is a call of Domino, cut to the buffer.\<close>

definition FormatErrorText :: "(nat \<Rightarrow> string) \<Rightarrow> nat \<Rightarrow> nat \<Rightarrow> string" where
  "FormatErrorText api Size code = take (Size - 1) (api code)"

definition code_line :: "sdk \<Rightarrow> (nat \<Rightarrow> string) \<Rightarrow> nat \<Rightarrow> string" where
  "code_line k api wCode =
     take (sdk_num k ''MAXSPRINTF'' + 63)
       (''  Code    : '' @ dec_text wCode @ '' (0x'' @ hex4 wCode @ '') '' @ FormatErrorText api (sdk_num k ''MAXSPRINTF'' + 1) wCode)"

text \<open>A code, a source and a message, or a code and a message. A text of n bytes has no zero, so it may end at the end of the data.\<close>

definition DumpEventSpecificData :: "sdk \<Rightarrow> (nat \<Rightarrow> string) \<Rightarrow> string \<Rightarrow> nat \<Rightarrow> string list" where
  "DumpEventSpecificData k api Data wFormat =
     (let cut = take (sdk_num k ''MAXSPRINTF'')
      in [''EventSpecificData decoded ('' @ GetFormatSpecifierName k wFormat @ ''):''] @
         (if wFormat = sdk_num k ''FMT_TEXT'' then [''  Text    : '' @ cut (c_str Data)]
          else if wFormat = sdk_num k ''FMT_ERROR_MSG'' then
            (let wCode = (if length Data \<ge> 2 then ReadWordLE Data else 0); Rest = (if length Data \<ge> 2 then drop 2 Data else Data);
                 First = c_str Rest
             in [code_line k api wCode] @
                (if length First + 1 < length Rest
                 then [''  Source  : '' @ cut First, ''  Message : '' @ cut (c_str (drop (length First + 1) Rest))]
                 else [''  Message : '' @ cut First]))
          else if wFormat = sdk_num k ''FMT_ERROR_CODE'' then
            (let wCode = (if length Data \<ge> 2 then ReadWordLE Data else 0)
             in [''  Code    : '' @ dec_text wCode @ '' (0x'' @ hex4 wCode @ '') '' @ FormatErrorText api (sdk_num k ''MAXSPRINTF'' + 1) wCode])
          else [''  (no known decode for this FormatSpecifier)'']))"

text \<open>\<open>ZText\<close> is what Domino makes of a time with \<^verbatim>\<open>%z\<close>, \<open>wAddin\<close> the length of the name of the add-in.\<close>

definition DumpEvent :: "sdk \<Rightarrow> (nat \<Rightarrow> string) \<Rightarrow> (timedate \<Rightarrow> string) \<Rightarrow> nat \<Rightarrow> event_data \<Rightarrow> event_info \<Rightarrow> string list" where
  "DumpEvent k api ZText wAddin ev i =
     (let num = (\<lambda>n. dec_text n @ '' (0x'' @ hex4 n @ '')''); named = (\<lambda>n name. dec_text n @ '' ('' @ name @ '')''); e = ei_ext i
      in PrintDelimiter @ [''domfwd: Event received''] @ PrintDelimiter @
         [''OriginatingServerName : '' @ ei_szOriginatingServerName i, ''Version               : '' @ dec_text (ei_wVersion i)] @
         (if EXPECTED_EVENT_VERSION \<noteq> ei_wVersion i
          then [''WARNING: Version '' @ dec_text (ei_wVersion i) @ '' != EVENT_VERSION '' @ dec_text (sdk_num k ''EVENT_VERSION'') @
                '' - struct layout assumptions may not hold'']
          else
            [''ErrorCode             : '' @ num (ei_wErrorCode i), ''AdditionalErrorCode   : '' @ num (ei_wAdditionalErrorCode i),
             ''Type                  : '' @ named (ei_wType i) (GetEventTypeName k (ei_wType i)),
             ''Severity              : '' @ named (ei_wSeverity i) (GetEventSeverityName k (ei_wSeverity i)),
             ''EventTime             : '' @ ei_szEventTime i @ '' ('' @ ZText (ei_tdEventTime i) @ '')'',
             ''FormatSpecifier       : '' @ named (ei_wFormatSpecifier i) (GetFormatSpecifierName k (ei_wFormatSpecifier i)),
             ''EventDataLength       : '' @ dec_text (length (ev_Specific ev)), ''AddinNameLength       : '' @ dec_text wAddin] @
            (if ei_fExtValid i then
               [''ExtAddinName          : '' @ x_AddinName e, ''ExtExecName           : '' @ x_ExecName e, ''ExtPIDTID             : '' @ x_PIDTID e,
                ''ExtTargetServer       : '' @ x_TargetServer e, ''ExtTargetDatabase     : '' @ x_TargetDatabase e,
                ''ExtTargetUser         : '' @ x_TargetUser e, ''ExtErrorCode          : '' @ x_ErrorCode e, ''ExtErrorText          : '' @ x_ErrorText e]
             else [''ExtData               : skipped - Version '' @ dec_text (ei_wVersion i) @ '' != EVENT_VERSION '' @
                   dec_text (sdk_num k ''EVENT_VERSION'')]) @
            DumpEventSpecificData k api (ev_Specific ev) (ei_wFormatSpecifier i) @ PrintDelimiter))"

section \<open>What they do\<close>

text \<open>The hex dump of up to 65520 bytes has a line for each sixteen bytes. For more the offset wraps, and the dump does not end.\<close>

lemma unat_16: "m < 65536 \<Longrightarrow> unat (of_nat m :: 16 word) = m"
  by (simp add: unsigned_of_nat take_bit_eq_mod)

lemma DumpHex_loop_lines:
  assumes "length Data \<le> 65520" and "16 * n \<le> length Data + 15"
  shows "\<exists>ls. DumpHex_loop Data (of_nat (16 * n)) lines = Some (lines @ ls) \<and> length ls = (length Data + 15) div 16 - n"
  using assms(2)
proof (induction "(length Data + 15) div 16 - n" arbitrary: n lines)
  case 0
  then have "16 * n \<ge> length Data" and "16 * n < 65536"
    using assms(1) by linarith+
  moreover from this have "unat (of_nat (16 * n) :: 16 word) = 16 * n"
    by (intro unat_16)
  ultimately have "\<not> unat (of_nat (16 * n) :: 16 word) < length Data" and "(length Data + 15) div 16 - n = 0"
    using 0 by linarith+
  then show ?case
    unfolding DumpHex_loop.simps [of Data "of_nat (16 * n)" lines] by auto
next
  case (Suc m)
  then have n: "16 * n < length Data"
    by linarith
  have "unat (of_nat (16 * n) :: 16 word) = 16 * n"
    using n assms(1) by (intro unat_16) simp
  moreover have m: "m = (length Data + 15) div 16 - Suc n" and "16 * Suc n \<le> length Data + 15"
    using Suc(2) n by simp_all
  then obtain ls where "DumpHex_loop Data (of_nat (16 * Suc n)) (lines @ [hex_line Data (of_nat (16 * n))]) =
      Some ((lines @ [hex_line Data (of_nat (16 * n))]) @ ls)" "length ls = m"
    using Suc(1) [of "Suc n" "lines @ [hex_line Data (of_nat (16 * n))]"] by metis
  moreover have "(of_nat (16 * n) :: 16 word) + 16 = of_nat (16 * Suc n)"
    by simp
  ultimately have "DumpHex_loop Data (of_nat (16 * n)) lines = Some (lines @ hex_line Data (of_nat (16 * n)) # ls)"
    unfolding DumpHex_loop.simps [of Data "of_nat (16 * n)" lines] using n by (simp only: if_True append_assoc append_Cons append_Nil)
  then show ?case
    using Suc(2) \<open>length ls = m\<close> by auto
qed

lemma DumpHex_lines:
  assumes "length Data \<le> 65520"
  shows "\<exists>ls. DumpHex Data = Some ls \<and> length ls = (length Data + 15) div 16"
  using DumpHex_loop_lines [OF assms, of 0 "[]"] by (simp add: DumpHex_def)

lemma DumpHex_loop_never_ends:
  assumes ret: "DumpHex_loop Data Off lines = Some r" and "65520 < length Data" and "16 dvd unat Off"
  shows False
proof -
  have "\<not> (65520 < length Data \<and> 16 dvd unat Off)"
  proof (rule DumpHex_loop.raw_induct [where P = "\<lambda>Data Off lines r. \<not> (65520 < length Data \<and> 16 dvd unat Off)", OF _ ret])
    fix loop and Data :: string and Off :: "16 word" and lines r
    assume IH: "\<And>Data Off lines r. loop Data Off lines = Some r \<Longrightarrow> \<not> (65520 < length Data \<and> 16 dvd unat Off)"
      and eq: "(if unat Off < length Data then loop Data (Off + 16) (lines @ [hex_line Data Off]) else Some lines) = Some r"
    show "\<not> (65520 < length Data \<and> 16 dvd unat Off)"
    proof
      assume b: "65520 < length Data \<and> 16 dvd unat Off"
      have "unat Off < 65536"
        using unsigned_less [of Off] by simp
      with b have "unat Off < length Data"
        by (auto elim!: dvdE)
      with eq have "loop Data (Off + 16) (lines @ [hex_line Data Off]) = Some r"
        by simp
      moreover have "16 dvd unat (Off + 16)"
        using b by (simp add: unat_word_ariths dvd_mod)
      ultimately show False
        using IH b by blast
    qed
  qed
  with assms(2,3) show False
    by blast
qed

lemma large_dump_does_not_end:
  assumes "65520 < length Data"
  shows "DumpHex Data = None"
  using DumpHex_loop_never_ends [of Data 0 "[]"] assms by (cases "DumpHex Data") (auto simp: DumpHex_def)

text \<open>No line of the other dump is longer than its buffer.\<close>

lemma print_char_fits:
  assumes "8 < Room" and "length (fst st) + 8 < Room \<and> (\<forall>l \<in> set (snd st). length l < Room)"
  shows "length (fst (print_char Room ch st)) + 8 < Room \<and> (\<forall>l \<in> set (snd (print_char Room ch st)). length l < Room)"
  using assms by (auto simp: print_char_def Let_def split: prod.split)

lemma DumpPrintable_fits:
  assumes "8 < Room" and "l \<in> set (DumpPrintable Room Data)"
  shows "length l < Room"
proof -
  have "length (fst (fold (print_char Room) Data st)) + 8 < Room \<and> (\<forall>l \<in> set (snd (fold (print_char Room) Data st)). length l < Room)"
    if "length (fst st) + 8 < Room \<and> (\<forall>l \<in> set (snd st). length l < Room)" for st
    using that
  proof (induction Data arbitrary: st)
    case (Cons ch Data)
    then show ?case
      using Cons(1) [OF print_char_fits [OF assms(1) Cons(2)]] by simp
  qed simp
  from this [of "([], [])"] assms show ?thesis
    by (cases "fold (print_char Room) Data ([], [])") (auto simp: DumpPrintable_def split: if_splits)
qed

text \<open>The source and the message of an error are shown as the server wrote them.\<close>

lemma error_message_is_shown:
  assumes "wFormat = sdk_num k ''FMT_ERROR_MSG''" and "sdk_num k ''FMT_TEXT'' \<noteq> sdk_num k ''FMT_ERROR_MSG''"
    and "CHR 0x00 \<notin> set Source" and "CHR 0x00 \<notin> set Msg" and "Msg \<noteq> []"
    and "length Source \<le> sdk_num k ''MAXSPRINTF''" and "length Msg \<le> sdk_num k ''MAXSPRINTF''" and "wCode < 65536"
  shows "DumpEventSpecificData k api ([char_of (wCode mod 256), char_of (wCode div 256)] @ Source @ [CHR 0x00] @ Msg @ [CHR 0x00]) wFormat =
    [''EventSpecificData decoded ('' @ GetFormatSpecifierName k wFormat @ ''):'', code_line k api wCode, ''  Source  : '' @ Source, ''  Message : '' @ Msg]"
proof -
  have c: "c_str (s @ CHR 0x00 # r) = s" if "CHR 0x00 \<notin> set s" for s r
    using that by (simp add: c_str_def takeWhile_append takeWhile_eq_all_conv)
  show ?thesis
    using assms by (simp add: DumpEventSpecificData_def ReadWordLE_def of_char_of Let_def c)
qed

end
