(* ===== verification/Spec2Isabelle.thy ===== *)
theory Spec2Isabelle imports Prelude Push WalProperties DurableTheorems FileReaderTheorems FileInput Health PromLabel LogLine OtlpProtobufTheorems MailLogTheorems OtelRecordTheorems PushTheorems FilePositionsTheorems SyslogTheorems SettingsTheorems StartupTheorems Metrics MainLoopTheorems ShutdownTheorems DomfwdTheorems Summary LatencyTheorems LoadTestTheorems HttpTheorems DomfwdDump begin

text \<open>
  The Domino log forwarder, verified. The repository has two programs. \<^verbatim>\<open>otelfwd\<close> (\<^verbatim>\<open>src/otelfwd.cpp\<close>) takes log lines
  from its standard input, from a file which it follows, from local sockets and from syslog, makes OTLP log records of them, and pushes them in
  batches to a receiver; a batch which the receiver does not take waits in a write-ahead log (WAL) on disk. \<^verbatim>\<open>domfwd\<close>
  (\<^verbatim>\<open>src/domfwd/domfwd.cpp\<close>) is an add-in of a Domino server: it reads the event queue of the server and sends each event as a JSON
  line to the socket of otelfwd, with a WAL of its own while otelfwd is not there. Mail servers build their lines with the library
  \<^verbatim>\<open>src/mail-log\<close>. Two tools test the whole chain under load: \<^verbatim>\<open>src/nginx/loadtest.cpp\<close> sends requests to
  NGINX, whose log otelfwd forwards, and \<^verbatim>\<open>src/tools/otel-sink\<close> receives and counts what arrives.

  \<^bold>\<open>How the code became definitions.\<close> A class is a record with the names of its members, a method a function from the record to its
  result and the new record, named as in the code. Everything outside of the code is data. The files of a WAL or of the file reader are a
  \<open>disk\<close>: their contents and a script which says of each system call whether it works, fails, or writes a part only; so a theorem for every
  script is one about every failure, and since a script may fail from some call on, about a crash at any point. The network of the line sender is a list of the
  results of its system calls. Clocks are functions of the number of looks. The parser and the writer of rapidjson, libcurl with the network behind
  it, and the API of Domino are parameters. Threads are the steps of a relation (\<open>FilePositionsTheorems\<close>): what runs under one mutex is one
  step. Integers are natural numbers or integers where the code cannot reach their limits, and words or \<open>mod 2 ^ w\<close> where it can.

  \<^bold>\<open>The theories, from the bottom up.\<close>

  \<^item> \<open>Prelude\<close>: bytes, little endian numbers, C strings, searches, decimal text and \<^verbatim>\<open>strtol\<close>, and the collections of facts.
  \<^item> \<open>Disk\<close>, \<open>Wal\<close> (\<^verbatim>\<open>wal/simple_wal.cpp\<close>): the calls of POSIX and the WAL. \<open>WalFormat\<close> is the abstract view, a file
    as a list of records; \<open>WalSafety\<close>, \<open>WalCrash\<close> and \<open>WalTheorems\<close> hold for every script of failures and are stated with
    \<open>recovered\<close>, the records which a new object would deliver. \<open>WalRecovery\<close> shows that a new object delivers just these;
    \<open>WalFifo\<close> and \<open>WalProperties\<close> that without failures every sequence of calls, also over restarts, refines a queue.
  \<^item> \<open>LineQueue\<close> (\<^verbatim>\<open>domfwd/domfwd_socket.hpp\<close>): the bounded queue in one buffer, with three positions, and its connection.
    \<open>LineQueueProofs\<close> has the invariant \<open>sender_inv\<close>, \<open>LineQueueTheorems\<close> that what a connection carried is whole lines in order.
  \<^item> \<open>Durable\<close> (\<^verbatim>\<open>domfwd/domfwd_durable.hpp\<close>): the line sender with the WAL behind it. \<open>DurableProofs\<close> states the
    interfaces: \<open>record_store\<close> is what the drain needs of a store of records, \<open>line_sink\<close> what it needs of a sink of lines, and
    \<open>drain\<close>, which extends them, proves the drain once. The WAL and the line sender interpret them. \<open>DurableTheorems\<close>,
    \<open>DurableConfigured\<close>: order and completeness of the lines over both.
  \<^item> \<open>DomfwdEvent\<close>, \<open>Domfwd\<close>: the add-in; one event, and the settings, the loop, the end and the metrics.
    \<open>DomfwdEventTheorems\<close>: otelfwd reads back the record of an event. \<open>DomfwdTheorems\<close>: from the event queue to the wire.
    \<open>DomfwdDump\<close>: the dumps of events and bytes, which fit into their buffers; the one which may not end.
  \<^item> \<open>FileReader\<close> (\<^verbatim>\<open>filereader/file_reader.cpp\<close>) with \<open>FileReaderProofs\<close>, \<open>FileReaderState\<close> and
    \<open>FileReaderTheorems\<close>: a file which grows and rotates is read line by line; a position is saved, and a restart goes on behind it.
    \<open>FileInput\<close> (\<^verbatim>\<open>file_input.hpp\<close>) has the slot between the threads.
  \<^item> \<open>Health\<close> (\<^verbatim>\<open>health.hpp\<close>), \<open>PromLabel\<close> (\<^verbatim>\<open>prom_label.hpp\<close>), \<open>LogLine\<close>
    (\<^verbatim>\<open>log_line.hpp\<close>), \<open>Push\<close> (\<^verbatim>\<open>push_status.hpp\<close>, \<^verbatim>\<open>push_failover.hpp\<close>): the small
    components with their properties.
  \<^item> \<open>Json\<close>, \<open>OtlpProtobuf\<close> (\<^verbatim>\<open>otlp_protobuf.hpp\<close>) with \<open>OtlpProtobufProofs\<close> and
    \<open>OtlpProtobufTheorems\<close>: the converter; the meaning of both formats is defined on its own, and a reader of protobuf gives it back.
  \<^item> \<open>MailLog\<close> (\<^verbatim>\<open>mail-log/mail_log.cpp\<close>) with \<open>MailLogProofs\<close>, \<open>MailLogTree\<close> and
    \<open>MailLogTheorems\<close>: the builder of mail records and a reader of JSON text.
  \<^item> Of \<^verbatim>\<open>otelfwd.cpp\<close>: \<open>OtelRecord\<close> (records, queue, requests), \<open>Utf8\<close> (the repair of texts against the table
    of the standard), \<open>PidMap\<close> (process names), \<open>PushThread\<close> (sending, the batch, the replay of the WAL), \<open>FileThread\<close>,
    \<open>Ingest\<close> and \<open>Syslog\<close> (the inputs), \<open>Settings\<close>, \<open>Startup\<close>, \<open>MainLoop\<close> and \<open>Metrics\<close>.
    Their properties are in the theories with \<open>Proofs\<close> or \<open>Theorems\<close> in the name. \<open>PushTheorems\<close> is the fate of a batch,
    \<open>FilePositions\<close> and \<open>FilePositionsTheorems\<close> the system of the file thread, the push thread and the WAL thread, and
    \<open>ShutdownTheorems\<close> the end of the push thread and the last commit. \<open>Summary\<close> has the texts which show the settings.
  \<^item> \<open>Ledger\<close> (\<^verbatim>\<open>tools/otel-sink/test_ledger.hpp\<close>) with \<open>LedgerTheorems\<close> and \<open>LatencyTheorems\<close>: the
    counters and the percentiles of the load test. \<open>Sink\<close> (\<^verbatim>\<open>tools/otel-sink/otel-sink.cpp\<close>), \<open>LoadTest\<close>
    (\<^verbatim>\<open>nginx/loadtest.cpp\<close>): the two sides; \<open>LoadTestTheorems\<close>: what a pass means; \<open>HttpTheorems\<close>: the two sides
    understand each other. \<open>TextSearch\<close>: where a text is found in another.

  \<^bold>\<open>What is shown, end to end.\<close> A line of a file is handed over only after its request was accepted, refused for good, or is in the WAL, and the
  position which is saved never passes a line on its way; a restart goes on exactly behind it, and a normal end saves the last one. The WAL is
  atomic under every failure and delivers in order. The add-in sends each event once, in order, through the same WAL. What is sent means what was
  read: the record of an event, a syslog message, a mail record and the protobuf of a request are read back. The inputs do not depend on how a stream
  is cut and use bounded memory. The start refuses what cannot work, the sockets are local, and no secret is shown. The load test passes exactly if each event
  arrived and nothing else did.

  \<^bold>\<open>Loops and fuel.\<close> Loops over data recurse over it or have a measure. A loop which depends on the world has fuel, and a theorem says
  how much is enough: a replay needs one turn more than there are records (\<open>Replay_ends\<close>), a flush one more than its timeout has tens of
  milliseconds (\<open>Flush_ends_and_keeps\<close>), the push thread one more than the queue has records (\<open>shutdown_drains_the_queue\<close>), a read
  of a line one more than the file has bytes (\<open>growing_file_lines\<close>). The drain of the event queue has a measure, its two limits.

  \<^bold>\<open>Bounds.\<close> Offsets in a WAL file are below \<open>MAX_OFF\<close>, the range of \<^verbatim>\<open>off_t\<close>, and a record is shorter than
  \<open>2 ^ 32\<close> bytes, as its length prefix says; theorems about a run have these as assumptions. Counters of 64 bits do not wrap.

  \<^bold>\<open>Not modelled\<close>, and why:

  \<^item> The branches for Windows. Every definition is the build for Linux.
  \<^item> Library code which the sources only call: rapidjson, libcurl, POSIX, the Notes C API. They are parameters or scripts.
  \<^item> Output for people only: the texts of the help, the printed report of the load test, and the traces.
  \<^item> Glue to the host: the signal handlers, the lookup of the server in the address book, the registration of the task of the add-in.
  \<^item> Of the two tools: the accept loop with its threads and signals, the connect, the pauses and the wait loop of the load test, and its
    parameters. The average of the latencies and the rank of a percentile are computed with \<^verbatim>\<open>double\<close> and are parameters.
  \<^item> The samples \<^verbatim>\<open>wal_sample.cpp\<close> and \<^verbatim>\<open>mail_log_sample.cpp\<close>, and the unit tests.
  \<^item> Two threads inside of one critical section cannot be, so the steps are those of the mutexes; the memory model below them is not modelled.
\<close>

end
